(* ===== verification/Prelude.thy ===== *)
theory Prelude
  imports Main "HOL-Library.AList" "HOL-Library.Char_ord" "HOL-Library.List_Lexorder"
    "HOL-Library.Multiset"
begin

section \<open>Prelude: the JavaScript values, lists, objects and numbers the components share\<close>

text \<open>
  The part of the language and of its standard library that the components use.
  \<^item> A string is a \<^typ>\<open>string\<close>, the list of its code units, for strings whose code units
    are below 256. \<open><\<close> on strings is the code-unit order (\<^theory_text>\<open>List_Lexorder\<close>).
  \<^item> An object used as a dictionary, and a \<open>Map\<close>, is an association list in insertion order;
    an assignment to a key that is present keeps its position, as in JavaScript.
  \<^item> A missing optional field, \<open>undefined\<close> and \<open>null\<close> are \<open>None\<close>.
  \<^item> A thrown \<open>Error\<close> is the left side of a sum and carries the message.
\<close>

named_theorems js_simps \<open>unfolding equations of the small JavaScript helpers\<close>
named_theorems ids_simps \<open>what an operation does to the identifiers of a collection\<close>
named_theorems inv_intros \<open>preservation of the components' invariants\<close>

type_synonym 'v obj = "(string \<times> 'v) list"
type_synonym 'a result = "string + 'a"

subsection \<open>Truthiness and defaults\<close>

definition truthy :: "string option \<Rightarrow> bool" where
  "truthy v \<longleftrightarrow> (case v of None \<Rightarrow> False | Some s \<Rightarrow> s \<noteq> [])"

definition or_string :: "string \<Rightarrow> string \<Rightarrow> string" where
  "or_string a b = (if a = [] then b else a)"

definition coalesce :: "'a option \<Rightarrow> 'a \<Rightarrow> 'a" where
  "coalesce v d = (case v of None \<Rightarrow> d | Some x \<Rightarrow> x)"

definition some_if_nonempty :: "string \<Rightarrow> string option" where
  "some_if_nonempty s = (if s = [] then None else Some s)"

lemma truthy_simps [simp]:
  "truthy None = False" "truthy (Some s) = (s \<noteq> [])"
  by (simp_all add: truthy_def)

lemma coalesce_simps [simp]: "coalesce None d = d" "coalesce (Some x) d = x"
  by (simp_all add: coalesce_def)

lemma truthy_iff: "truthy v \<longleftrightarrow> (\<exists>s. v = Some s \<and> s \<noteq> [])"
  by (cases v) auto

lemma some_if_nonempty_eq_Some [simp]: "some_if_nonempty s = Some t \<longleftrightarrow> s = t \<and> t \<noteq> []"
  by (auto simp: some_if_nonempty_def)

lemma some_if_nonempty_eq_None [simp]: "some_if_nonempty s = None \<longleftrightarrow> s = []"
  by (simp add: some_if_nonempty_def)

subsection \<open>Lists as arrays\<close>

text \<open>\<open>xs.map((x) => (p(x) ? f(x) : x))\<close>, the shape of nearly every store update.\<close>

definition map_where :: "('a \<Rightarrow> bool) \<Rightarrow> ('a \<Rightarrow> 'a) \<Rightarrow> 'a list \<Rightarrow> 'a list" where
  "map_where p f xs = map (\<lambda>x. if p x then f x else x) xs"

lemma map_where_simps [simp]:
  "map_where p f [] = []"
  "map_where p f (x # xs) = (if p x then f x else x) # map_where p f xs"
  by (simp_all add: map_where_def)

lemma length_map_where [simp]: "length (map_where p f xs) = length xs"
  by (simp add: map_where_def)

lemma map_where_append [simp]: "map_where p f (xs @ ys) = map_where p f xs @ map_where p f ys"
  by (simp add: map_where_def)

lemma map_map_where_id [ids_simps]:
  "(\<And>x. p x \<Longrightarrow> g (f x) = g x) \<Longrightarrow> map g (map_where p f xs) = map g xs"
  by (induction xs) auto

lemma set_map_where: "set (map_where p f xs) = f ` {x \<in> set xs. p x} \<union> {x \<in> set xs. \<not> p x}"
  by (induction xs) auto

lemma map_where_none: "(\<And>x. x \<in> set xs \<Longrightarrow> \<not> p x) \<Longrightarrow> map_where p f xs = xs"
  by (induction xs) auto

text \<open>\<open>Array.from(new Set(xs))\<close>: the first occurrence of every element, in order.\<close>

definition dedup :: "'a list \<Rightarrow> 'a list" where
  "dedup xs = rev (remdups (rev xs))"

lemma set_dedup [simp]: "set (dedup xs) = set xs"
  by (simp add: dedup_def)

lemma distinct_dedup [simp]: "distinct (dedup xs)"
  by (simp add: dedup_def)

lemma dedup_id: "distinct xs \<Longrightarrow> dedup xs = xs"
  by (simp add: dedup_def distinct_remdups_id)

lemma dedup_dedup [simp]: "dedup (dedup xs) = dedup xs"
  by (simp add: dedup_id)

text \<open>\<open>xs.splice(i, 1)\<close> then \<open>xs.splice(j, 0, moved)\<close> on a copy: one element moved.\<close>

definition remove_at :: "nat \<Rightarrow> 'a list \<Rightarrow> 'a list" where
  "remove_at i xs = take i xs @ drop (Suc i) xs"

definition insert_at :: "nat \<Rightarrow> 'a \<Rightarrow> 'a list \<Rightarrow> 'a list" where
  "insert_at j x xs = take j xs @ x # drop j xs"

definition move_at :: "nat \<Rightarrow> nat \<Rightarrow> 'a list \<Rightarrow> 'a list" where
  "move_at i j xs = insert_at j (xs ! i) (remove_at i xs)"

lemma mset_insert_at [simp]: "mset (insert_at j x xs) = add_mset x (mset xs)"
  unfolding insert_at_def
  by (metis append_take_drop_id mset.simps(2) mset_append union_mset_add_mset_right)

lemma length_remove_at: "i < length xs \<Longrightarrow> length (remove_at i xs) = length xs - 1"
  by (simp add: remove_at_def)

lemma mset_remove_at: "i < length xs \<Longrightarrow> add_mset (xs ! i) (mset (remove_at i xs)) = mset xs"
proof -
  assume "i < length xs"
  then have "xs = take i xs @ xs ! i # drop (Suc i) xs" by (simp add: id_take_nth_drop)
  then have "mset xs = mset (take i xs) + mset (xs ! i # drop (Suc i) xs)"
    by (metis mset_append)
  then show ?thesis by (simp add: remove_at_def)
qed

lemma mset_move_at: "i < length xs \<Longrightarrow> mset (move_at i j xs) = mset xs"
  by (simp add: move_at_def mset_remove_at)

lemma nth_move_at_target:
  "i < length xs \<Longrightarrow> j < length xs \<Longrightarrow> move_at i j xs ! j = xs ! i"
  by (simp add: move_at_def insert_at_def nth_append length_remove_at min_def)

lemma find_map_where:
  "(\<And>x. p x \<Longrightarrow> q (f x) = q x) \<Longrightarrow>
   List.find q (map_where p f xs) = map_option (\<lambda>x. if p x then f x else x) (List.find q xs)"
  by (induction xs) auto

lemma find_Some_set: "List.find p xs = Some x \<Longrightarrow> x \<in> set xs \<and> p x"
  by (auto simp: find_Some_iff)

lemma find_None_set: "List.find p xs = None \<longleftrightarrow> (\<forall>x \<in> set xs. \<not> p x)"
  by (auto simp: find_None_iff)

lemma find_eqI:
  assumes "x \<in> set xs" "p x" "\<And>y. y \<in> set xs \<Longrightarrow> p y \<Longrightarrow> y = x"
  shows "List.find p xs = Some x"
proof (cases "List.find p xs")
  case None
  with assms(1,2) show ?thesis by (simp add: find_None_set)
next
  case (Some y)
  with assms(3) show ?thesis by (auto dest: find_Some_set)
qed

subsection \<open>Objects as dictionaries\<close>

abbreviation obj_get :: "'v obj \<Rightarrow> string \<Rightarrow> 'v option" where
  "obj_get m k \<equiv> map_of m k"

definition obj_set :: "string \<Rightarrow> 'v \<Rightarrow> 'v obj \<Rightarrow> 'v obj" where
  "obj_set k v m = AList.update k v m"

definition obj_del :: "string \<Rightarrow> 'v obj \<Rightarrow> 'v obj" where
  "obj_del k m = AList.delete k m"

definition obj_wf :: "'v obj \<Rightarrow> bool" where
  "obj_wf m \<longleftrightarrow> distinct (map fst m)"

lemma obj_get_set: "obj_get (obj_set k v m) j = (if j = k then Some v else obj_get m j)"
  by (simp add: obj_set_def AList.update_conv')

lemma obj_get_del: "obj_get (obj_del k m) j = (if j = k then None else obj_get m j)"
  by (simp add: obj_del_def AList.delete_conv')

lemma obj_wf_empty [simp]: "obj_wf []"
  by (simp add: obj_wf_def)

lemma obj_wf_set [simp, inv_intros]: "obj_wf m \<Longrightarrow> obj_wf (obj_set k v m)"
  by (simp add: obj_wf_def obj_set_def AList.distinct_update)

lemma obj_wf_del [simp, inv_intros]: "obj_wf m \<Longrightarrow> obj_wf (obj_del k m)"
  by (simp add: obj_wf_def obj_del_def AList.distinct_delete)

lemma keys_obj_set: "fst ` set (obj_set k v m) = insert k (fst ` set m)"
  by (simp add: obj_set_def AList.dom_update)

lemma keys_obj_del: "fst ` set (obj_del k m) = fst ` set m - {k}"
  by (auto simp: obj_del_def AList.delete_eq)

lemma obj_get_None_iff: "obj_get m k = None \<longleftrightarrow> k \<notin> fst ` set m"
  by (simp add: map_of_eq_None_iff)

lemma obj_get_set_same [simp]: "obj_get (obj_set k v m) k = Some v"
  by (simp add: obj_get_set)

lemma obj_get_del_same [simp]: "obj_get (obj_del k m) k = None"
  by (simp add: obj_get_del)

lemma obj_set_new: "k \<notin> fst ` set m \<Longrightarrow> obj_set k v m = m @ [(k, v)]"
  unfolding obj_set_def by (induction m) auto

definition obj_del_all :: "string list \<Rightarrow> 'v obj \<Rightarrow> 'v obj" where
  "obj_del_all ks m = fold obj_del ks m"

lemma obj_get_del_all: "obj_get (obj_del_all ks m) j = (if j \<in> set ks then None else obj_get m j)"
  unfolding obj_del_all_def by (induction ks arbitrary: m) (auto simp: obj_get_del)

lemma obj_wf_del_all [simp, inv_intros]: "obj_wf m \<Longrightarrow> obj_wf (obj_del_all ks m)"
  unfolding obj_del_all_def by (induction ks arbitrary: m) auto

lemma keys_obj_del_all: "fst ` set (obj_del_all ks m) = fst ` set m - set ks"
  unfolding obj_del_all_def by (induction ks arbitrary: m) (auto simp: keys_obj_del)

lemma set_obj_set_subset: "set (obj_set k v m) \<subseteq> insert (k, v) (set m)"
  unfolding obj_set_def by (induction m) auto

lemma set_obj_del_subset: "set (obj_del k m) \<subseteq> set m"
  by (auto simp: obj_del_def AList.delete_eq)

lemma obj_wf_get: "obj_wf m \<Longrightarrow> (k, v) \<in> set m \<longleftrightarrow> obj_get m k = Some v"
  by (simp add: obj_wf_def)

end
