(* ===== verification/Strings.thy ===== *)
theory Strings
  imports Prelude
begin

section \<open>The string and number operations of JavaScript that the components use\<close>

text \<open>
  White space, \<open>trim\<close>, \<open>split\<close>, \<open>join\<close>, \<open>includes\<close>, \<open>startsWith\<close>, \<open>endsWith\<close>, \<open>indexOf\<close>,
  \<open>toLowerCase\<close>, \<open>Number.parseInt(s, 10)\<close> with the rounding of a double and its overflow to
  infinity, and \<open>String(n)\<close>. Everything computes.
\<close>

subsection \<open>White space and trimming\<close>

text \<open>The code units below 256 that both \<open>trim\<close> and the class \<open>\\s\<close> take as white space.\<close>

definition is_space :: "char \<Rightarrow> bool" where
  "is_space c \<longleftrightarrow> c \<in> {CHR 0x09, CHR 0x0A, CHR 0x0B, CHR 0x0C, CHR 0x0D, CHR '' '', CHR 0xA0}"

definition trim_start :: "string \<Rightarrow> string" where
  "trim_start s = dropWhile is_space s"

definition trim_end :: "string \<Rightarrow> string" where
  "trim_end s = rev (dropWhile is_space (rev s))"

definition trim :: "string \<Rightarrow> string" where
  "trim s = trim_end (trim_start s)"

definition trimmed :: "string \<Rightarrow> bool" where
  "trimmed s \<longleftrightarrow> s = [] \<or> (\<not> is_space (hd s) \<and> \<not> is_space (last s))"

lemma dropWhile_hd_eq: "s = [] \<or> \<not> p (hd s) \<Longrightarrow> dropWhile p s = s"
  by (cases s) auto

lemma hd_dropWhile_not: "dropWhile p s \<noteq> [] \<Longrightarrow> \<not> p (hd (dropWhile p s))"
  by (rule hd_dropWhile)

lemma trim_trimmed_id: "trimmed s \<Longrightarrow> trim s = s"
  by (auto simp: trim_def trim_start_def trim_end_def trimmed_def dropWhile_hd_eq hd_rev)

lemma dropWhile_rev_hd:
  assumes "xs \<noteq> []" "\<not> p (hd xs)"
  shows "rev (dropWhile p (rev xs)) \<noteq> [] \<and> hd (rev (dropWhile p (rev xs))) = hd xs"
proof -
  have "hd xs \<in> set (rev xs)" using assms(1) by simp
  then have ne: "dropWhile p (rev xs) \<noteq> []" using assms(2)
    by (auto simp only: dropWhile_eq_Nil_conv)
  have "rev xs = takeWhile p (rev xs) @ dropWhile p (rev xs)" by simp
  then have "xs = rev (dropWhile p (rev xs)) @ rev (takeWhile p (rev xs))"
    by (metis rev_append rev_rev_ident)
  with ne show ?thesis by (metis hd_append2 rev_is_Nil_conv)
qed

lemma trimmed_trim [simp]: "trimmed (trim s)"
proof (cases "dropWhile is_space s")
  case Nil
  then have "trim s = []" unfolding trim_def trim_start_def trim_end_def by (simp only: Nil) simp
  then show ?thesis by (simp add: trimmed_def)
next
  case (Cons c cs)
  then have ne: "dropWhile is_space s \<noteq> []" by simp
  then have "\<not> is_space (hd (dropWhile is_space s))" by (rule hd_dropWhile)
  with ne have *: "trim s \<noteq> [] \<and> hd (trim s) = hd (dropWhile is_space s)"
    unfolding trim_def trim_start_def trim_end_def by (rule dropWhile_rev_hd)
  have "last (trim s) = hd (dropWhile is_space (rev (dropWhile is_space s)))"
    by (metis * last_rev rev_is_Nil_conv rev_rev_ident trim_def trim_end_def trim_start_def hd_rev)
  moreover have "dropWhile is_space (rev (dropWhile is_space s)) \<noteq> []"
    using * by (simp add: trim_def trim_start_def trim_end_def)
  ultimately have "\<not> is_space (last (trim s))" by (metis hd_dropWhile)
  with * \<open>\<not> is_space (hd (dropWhile is_space s))\<close> show ?thesis by (simp add: trimmed_def)
qed

lemma trim_trim [simp]: "trim (trim s) = trim s"
  by (rule trim_trimmed_id) simp

lemma trim_Nil [simp]: "trim [] = []"
  by (simp add: trim_def trim_start_def trim_end_def)

lemma trim_Nil_iff: "trim s = [] \<longleftrightarrow> (\<forall>c \<in> set s. is_space c)"
proof
  assume "trim s = []"
  then have "\<forall>c \<in> set (dropWhile is_space s). is_space c"
    by (simp add: trim_def trim_start_def trim_end_def)
  then have "dropWhile is_space s = []"
    using hd_dropWhile[of is_space s] by (metis hd_in_set)
  then show "\<forall>c \<in> set s. is_space c" by simp
next
  assume "\<forall>c \<in> set s. is_space c"
  then have "dropWhile is_space s = []" by simp
  then show "trim s = []" unfolding trim_def trim_start_def trim_end_def by (simp only:) simp
qed

lemma set_trim_subset: "set (trim s) \<subseteq> set s"
  by (auto simp: trim_def trim_start_def trim_end_def dest!: set_dropWhileD)

subsection \<open>Splitting and joining\<close>

fun split_by :: "(char \<Rightarrow> bool) \<Rightarrow> string \<Rightarrow> string list" where
  "split_by p [] = [[]]"
| "split_by p (c # cs) =
     (if p c then [] # split_by p cs
      else (case split_by p cs of [] \<Rightarrow> [[c]] | w # ws \<Rightarrow> (c # w) # ws))"

abbreviation split_on :: "char \<Rightarrow> string \<Rightarrow> string list" where
  "split_on c \<equiv> split_by (\<lambda>x. x = c)"

text \<open>\<open>s.split(/\\s+/).filter(Boolean)\<close>.\<close>

definition split_words :: "string \<Rightarrow> string list" where
  "split_words s = filter (\<lambda>w. w \<noteq> []) (split_by is_space s)"

fun join :: "string \<Rightarrow> string list \<Rightarrow> string" where
  "join sep [] = []"
| "join sep [s] = s"
| "join sep (s # t # ss) = s @ sep @ join sep (t # ss)"

text \<open>\<open>text.split(/\\r?\\n/)\<close>: every line feed takes one carriage return before it along.\<close>

definition drop_cr :: "string \<Rightarrow> string" where
  "drop_cr s = (if s \<noteq> [] \<and> last s = CHR 0x0D then butlast s else s)"

definition split_lines :: "string \<Rightarrow> string list" where
  "split_lines s = (let ls = split_on (CHR 0x0A) s in map drop_cr (butlast ls) @ [last ls])"

lemma split_by_ne [simp]: "split_by p s \<noteq> []"
  by (induction s) (auto split: list.splits)

lemma join_split_on: "join [c] (split_on c s) = s"
proof (induction s)
  case Nil
  then show ?case by simp
next
  case (Cons d s)
  obtain w ws where w: "split_on c s = w # ws"
    by (metis neq_Nil_conv split_by_ne)
  with Cons show ?case by (cases ws) auto
qed

lemma split_by_no_sep: "(\<And>c. c \<in> set s \<Longrightarrow> \<not> p c) \<Longrightarrow> split_by p s = [s]"
  by (induction s) auto

lemma split_by_parts: "w \<in> set (split_by p s) \<Longrightarrow> c \<in> set w \<Longrightarrow> \<not> p c \<and> c \<in> set s"
  by (induction s arbitrary: w) (auto split: list.splits if_splits, force+)

lemma split_on_append:
  "c \<notin> set w \<Longrightarrow> split_on c (w @ c # s) = w # split_on c s"
  by (induction w) auto

lemma split_by_append: "(\<And>c. c \<in> set w \<Longrightarrow> \<not> p c) \<Longrightarrow> p x \<Longrightarrow> split_by p (w @ x # s) = w # split_by p s"
  by (induction w) auto

lemma split_on_cat: "split_on c (v @ c # w) = split_on c v @ split_on c w"
proof (induction v)
  case (Cons a v)
  obtain x xs where "split_on c v = x # xs" by (metis neq_Nil_conv split_by_ne)
  with Cons show ?case by auto
qed simp

lemma split_on_join:
  "ws \<noteq> [] \<Longrightarrow> (\<And>w. w \<in> set ws \<Longrightarrow> c \<notin> set w) \<Longrightarrow> split_on c (join [c] ws) = ws"
proof (induction ws rule: induct_list012)
  case (2 w)
  then show ?case by (auto intro!: split_by_no_sep)
next
  case (3 v w ws)
  then show ?case by (simp add: split_on_append)
qed simp

lemma split_words_parts: "w \<in> set (split_words s) \<Longrightarrow> w \<noteq> [] \<and> (\<forall>c \<in> set w. \<not> is_space c)"
  by (auto simp: split_words_def dest: split_by_parts)

subsection \<open>Searching\<close>

fun starts_with :: "string \<Rightarrow> string \<Rightarrow> bool" where
  "starts_with [] s = True"
| "starts_with (p # ps) [] = False"
| "starts_with (p # ps) (c # cs) = (p = c \<and> starts_with ps cs)"

definition ends_with :: "string \<Rightarrow> string \<Rightarrow> bool" where
  "ends_with p s = starts_with (rev p) (rev s)"

fun index_of :: "string \<Rightarrow> string \<Rightarrow> nat option" where
  "index_of p [] = (if p = [] then Some 0 else None)"
| "index_of p (c # cs) =
     (if starts_with p (c # cs) then Some 0 else map_option Suc (index_of p cs))"

definition contains :: "string \<Rightarrow> string \<Rightarrow> bool" where
  "contains p s \<longleftrightarrow> index_of p s \<noteq> None"

lemma starts_with_iff: "starts_with p s \<longleftrightarrow> (\<exists>t. s = p @ t)"
  by (induction p s rule: starts_with.induct) auto

lemma ends_with_iff: "ends_with p s \<longleftrightarrow> (\<exists>t. s = t @ p)"
  by (metis ends_with_def rev_append rev_rev_ident starts_with_iff)

lemma index_of_Some:
  "index_of p s = Some i \<Longrightarrow> i + length p \<le> length s \<and> starts_with p (drop i s)"
proof (induction p s arbitrary: i rule: index_of.induct)
  case (1 p)
  then show ?case by (auto split: if_splits)
next
  case (2 p c cs)
  then show ?case
    by (auto split: if_splits simp: starts_with_iff) (metis length_Cons length_append le_add1)
qed

lemma index_of_first:
  "index_of p s = Some i \<Longrightarrow> j < i \<Longrightarrow> \<not> starts_with p (drop j s)"
proof (induction p s arbitrary: i j rule: index_of.induct)
  case (1 p)
  then show ?case by (auto split: if_splits)
next
  case (2 p c cs)
  then show ?case by (cases j) (auto split: if_splits)
qed

lemma index_of_None: "index_of p s = None \<longleftrightarrow> (\<forall>t u. s \<noteq> t @ p @ u)"
proof (induction p s rule: index_of.induct)
  case (1 p)
  then show ?case by auto
next
  case (2 p c cs)
  have "(\<exists>t u. c # cs = t @ p @ u) \<longleftrightarrow> starts_with p (c # cs) \<or> (\<exists>t u. cs = t @ p @ u)"
    unfolding starts_with_iff by (metis append_Cons append_Nil list.sel(3) neq_Nil_conv)
  with 2 show ?case by auto
qed

lemma contains_iff: "contains p s \<longleftrightarrow> (\<exists>t u. s = t @ p @ u)"
  by (auto simp: contains_def index_of_None)

subsection \<open>Case\<close>

text \<open>\<open>toLowerCase\<close> on code units below 256: ASCII and the Latin-1 capital letters.\<close>

definition lower_char :: "char \<Rightarrow> char" where
  "lower_char c = (let n = (of_char c :: nat) in
     if (65 \<le> n \<and> n \<le> 90) \<or> (192 \<le> n \<and> n \<le> 222 \<and> n \<noteq> 215) then char_of (n + 32) else c)"

definition lower :: "string \<Rightarrow> string" where
  "lower s = map lower_char s"

lemma length_lower [simp]: "length (lower s) = length s"
  by (simp add: lower_def)

lemma lower_char_idem [simp]: "lower_char (lower_char c) = lower_char c"
  by (cases "(65 \<le> (of_char c :: nat) \<and> (of_char c :: nat) \<le> 90) \<or>
             (192 \<le> (of_char c :: nat) \<and> (of_char c :: nat) \<le> 222 \<and> (of_char c :: nat) \<noteq> 215)")
     (auto simp: lower_char_def Let_def)

lemma lower_lower [simp]: "lower (lower s) = lower s"
  by (simp add: lower_def)

subsection \<open>Numbers\<close>

text \<open>
  A JavaScript number that the code computes: \<open>NaN\<close>, an infinity (\<open>True\<close> for the negative
  one) or a finite value.
\<close>

datatype 'n number = NaN | Infinite bool | Finite 'n

definition digit :: "char \<Rightarrow> bool" where
  "digit c \<longleftrightarrow> 48 \<le> (of_char c :: nat) \<and> (of_char c :: nat) \<le> 57"

definition digit_value :: "char \<Rightarrow> nat" where
  "digit_value c = of_char c - 48"

definition nat_of_digits :: "string \<Rightarrow> nat" where
  "nat_of_digits s = foldl (\<lambda>n c. 10 * n + digit_value c) 0 s"

fun bit_length :: "nat \<Rightarrow> nat" where
  "bit_length n = (if n = 0 then 0 else Suc (bit_length (n div 2)))"

declare bit_length.simps [simp del]

text \<open>The double nearest to a natural number, ties to even; \<open>None\<close> from \<open>2 ^ 1024\<close> on.\<close>

definition round_double :: "nat \<Rightarrow> nat option" where
  "round_double n =
     (let b = bit_length n in
      if b \<le> 53 then Some n
      else let s = b - 53; q = n div 2 ^ s; r = n mod 2 ^ s; h = 2 ^ (s - 1);
               m = (if h < r \<or> (r = h \<and> odd q) then q + 1 else q) * 2 ^ s
           in if m < 2 ^ 1024 then Some m else None)"

text \<open>\<open>Number.parseInt(s, 10)\<close>: leading white space, a sign, then as many digits as there are.\<close>

definition parse_int :: "string \<Rightarrow> int number" where
  "parse_int s =
     (let t = trim_start s;
          neg = starts_with ''-'' t;
          u = (if starts_with ''-'' t \<or> starts_with ''+'' t then tl t else t);
          ds = takeWhile digit u
      in if ds = [] then NaN
         else case round_double (nat_of_digits ds) of
                None \<Rightarrow> Infinite neg
              | Some n \<Rightarrow> Finite (if neg then - int n else int n))"

definition digit_char :: "nat \<Rightarrow> char" where
  "digit_char d = char_of (48 + d)"

fun show_nat :: "nat \<Rightarrow> string" where
  "show_nat n = (if n < 10 then [digit_char n] else show_nat (n div 10) @ [digit_char (n mod 10)])"

declare show_nat.simps [simp del]

text \<open>\<open>String(n)\<close> of an integer; exact for the safe integers.\<close>

definition show_int :: "int \<Rightarrow> string" where
  "show_int i = (if i < 0 then ''-'' @ show_nat (nat (- i)) else show_nat (nat i))"

fun show_number :: "int number \<Rightarrow> string" where
  "show_number NaN = ''NaN''"
| "show_number (Infinite neg) = (if neg then ''-Infinity'' else ''Infinity'')"
| "show_number (Finite i) = show_int i"

text \<open>\<open>===\<close> on numbers.\<close>

definition number_eq :: "int number \<Rightarrow> int number \<Rightarrow> bool" where
  "number_eq a b \<longleftrightarrow> a \<noteq> NaN \<and> a = b"

text \<open>\<open>n || d\<close>: zero and \<open>NaN\<close> are falsy.\<close>

definition or_number :: "int number \<Rightarrow> int number \<Rightarrow> int number" where
  "or_number n d = (if n = NaN \<or> n = Finite 0 then d else n)"

definition safe_integer :: "int \<Rightarrow> bool" where
  "safe_integer i \<longleftrightarrow> \<bar>i\<bar> \<le> 2 ^ 53 - 1"

lemma digit_char_digit [simp]: "d < 10 \<Longrightarrow> digit (digit_char d)"
  by (simp add: digit_def digit_char_def)

lemma digit_value_char [simp]: "d < 10 \<Longrightarrow> digit_value (digit_char d) = d"
  by (simp add: digit_value_def digit_char_def)

lemma nat_of_digits_snoc: "nat_of_digits (s @ [c]) = 10 * nat_of_digits s + digit_value c"
  by (simp add: nat_of_digits_def)

lemma nat_of_digits_show_nat [simp]: "nat_of_digits (show_nat n) = n"
proof (induction n rule: show_nat.induct)
  case (1 n)
  show ?case
  proof (cases "n < 10")
    case True
    then show ?thesis by (simp add: show_nat.simps[of n] nat_of_digits_def)
  next
    case False
    with 1 show ?thesis by (simp add: show_nat.simps[of n] nat_of_digits_snoc)
  qed
qed

lemma show_nat_digits: "\<forall>c \<in> set (show_nat n). digit c"
proof (induction n rule: show_nat.induct)
  case (1 n)
  then show ?case by (cases "n < 10") (auto simp: show_nat.simps[of n])
qed

lemma show_nat_ne [simp]: "show_nat n \<noteq> []"
  by (simp add: show_nat.simps)

lemma bit_length_le: "n < 2 ^ k \<Longrightarrow> bit_length n \<le> k"
proof (induction k arbitrary: n)
  case 0
  then show ?case by (simp add: bit_length.simps)
next
  case (Suc k)
  then have "n div 2 < 2 ^ k" by auto
  then have "bit_length (n div 2) \<le> k" by (rule Suc.IH)
  then show ?case by (simp add: bit_length.simps[of n])
qed

lemma round_double_exact: "n < 2 ^ 53 \<Longrightarrow> round_double n = Some n"
  using bit_length_le[of n 53] by (simp add: round_double_def)

lemma digit_not_space: "digit c \<Longrightarrow> \<not> is_space c"
  by (auto simp: digit_def is_space_def)

lemma digit_not_sign: "digit c \<Longrightarrow> c \<noteq> CHR ''-'' \<and> c \<noteq> CHR ''+''"
  by (auto simp: digit_def)

lemma parse_int_show_nat:
  assumes "n < 2 ^ 53"
  shows "parse_int (show_nat n) = Finite (int n)"
proof -
  obtain c cs where s: "show_nat n = c # cs" by (metis neq_Nil_conv show_nat_ne)
  then have d: "digit c" using show_nat_digits[of n] by simp
  have "trim_start (show_nat n) = show_nat n"
    using d by (simp add: s trim_start_def digit_not_space)
  moreover have tw: "takeWhile digit (show_nat n) = show_nat n"
    using show_nat_digits[of n] by (simp only: takeWhile_eq_all_conv)
  moreover have "\<not> starts_with ''-'' (show_nat n)" "\<not> starts_with ''+'' (show_nat n)"
    using digit_not_sign[OF d] by (auto simp: s)
  ultimately show ?thesis
    unfolding parse_int_def Let_def
    by (simp only: tw if_False simp_thms) (simp add: round_double_exact[OF assms])
qed

lemma parse_int_neg_show_nat:
  assumes "n < 2 ^ 53"
  shows "parse_int (CHR ''-'' # show_nat n) = Finite (- int n)"
proof -
  have tw: "takeWhile digit (show_nat n) = show_nat n"
    using show_nat_digits[of n] by (simp only: takeWhile_eq_all_conv)
  have "trim_start (CHR ''-'' # show_nat n) = CHR ''-'' # show_nat n"
    by (simp add: trim_start_def is_space_def)
  then show ?thesis
    unfolding parse_int_def Let_def
    by (simp add: tw del: takeWhile_eq_all_conv) (simp add: round_double_exact[OF assms])
qed

lemma parse_int_show_int: "safe_integer i \<Longrightarrow> parse_int (show_int i) = Finite i"
  using parse_int_show_nat[of "nat i"] parse_int_neg_show_nat[of "nat (- i)"]
  by (auto simp: show_int_def safe_integer_def)

lemma parse_int_Nil [simp]: "parse_int [] = NaN"
  by (simp add: parse_int_def trim_start_def)

subsection \<open>Objects in enumeration order\<close>

text \<open>
  \<open>Object.entries\<close>: the keys that are array indices come first, in numeric order, then the
  others in insertion order.
\<close>

definition array_index :: "string \<Rightarrow> bool" where
  "array_index s \<longleftrightarrow> s \<noteq> [] \<and> list_all digit s \<and> (s = ''0'' \<or> hd s \<noteq> CHR ''0'') \<and>
     nat_of_digits s < 4294967295"

definition obj_entries :: "'v obj \<Rightarrow> (string \<times> 'v) list" where
  "obj_entries m = sort_key (\<lambda>e. nat_of_digits (fst e)) (filter (\<lambda>e. array_index (fst e)) m) @
     filter (\<lambda>e. \<not> array_index (fst e)) m"

definition obj_values :: "'v obj \<Rightarrow> 'v list" where
  "obj_values m = map snd (obj_entries m)"

text \<open>\<open>Object.fromEntries\<close>: later entries overwrite earlier ones.\<close>

definition from_entries :: "(string \<times> 'v) list \<Rightarrow> 'v obj" where
  "from_entries es = fold (\<lambda>(k, v) m. obj_set k v m) es []"

lemma mset_obj_entries [simp]: "mset (obj_entries m) = mset m"
  by (simp add: obj_entries_def multiset_partition[symmetric])

lemma set_obj_entries [simp]: "set (obj_entries m) = set m"
  by (metis mset_obj_entries set_mset_mset)

lemma obj_entries_wf: "obj_wf m \<Longrightarrow> obj_wf (obj_entries m)"
  unfolding obj_wf_def by (metis mset_obj_entries mset_eq_imp_distinct_iff mset_map)

lemma obj_entries_get:
  assumes "obj_wf m"
  shows "obj_get (obj_entries m) = obj_get m"
proof
  fix k
  have "obj_get (obj_entries m) k = Some v \<longleftrightarrow> obj_get m k = Some v" for v
    unfolding obj_wf_get[OF assms, symmetric] obj_wf_get[OF obj_entries_wf[OF assms], symmetric] by simp
  then show "obj_get (obj_entries m) k = obj_get m k" by (metis not_None_eq)
qed

lemma set_obj_values: "set (obj_values m) = snd ` set m"
  by (simp add: obj_values_def)

lemma obj_entries_plain: "(\<And>k v. (k, v) \<in> set m \<Longrightarrow> \<not> array_index k) \<Longrightarrow> obj_entries m = m"
proof -
  assume "\<And>k v. (k, v) \<in> set m \<Longrightarrow> \<not> array_index k"
  then have "filter (\<lambda>e. array_index (fst e)) m = []" "filter (\<lambda>e. \<not> array_index (fst e)) m = m"
    by (auto simp: filter_empty_conv filter_id_conv)
  then show ?thesis by (simp add: obj_entries_def)
qed

lemma fold_obj_set_new:
  "distinct (map fst (m @ es)) \<Longrightarrow> fold (\<lambda>(k, v) m. obj_set k v m) es m = m @ es"
proof (induction es arbitrary: m)
  case (Cons e es)
  obtain k v where e: "e = (k, v)" by (cases e)
  with Cons.prems have "k \<notin> fst ` set m" by auto
  then have "obj_set k v m = m @ [(k, v)]" by (rule obj_set_new)
  with Cons e show ?case by simp
qed simp

lemma from_entries_distinct: "distinct (map fst es) \<Longrightarrow> from_entries es = es"
  using fold_obj_set_new[of "[]" es] by (simp add: from_entries_def)

lemma set_fold_obj_set: "set (fold (\<lambda>(k, v) m. obj_set k v m) es m) \<subseteq> set es \<union> set m"
proof (induction es arbitrary: m)
  case (Cons e es)
  obtain k v where e: "e = (k, v)" by (cases e)
  have "set (obj_set k v m) \<subseteq> insert (k, v) (set m)"
    by (rule set_obj_set_subset)
  with Cons.IH[of "obj_set k v m"] e show ?case by auto
qed simp

lemma set_from_entries: "set (from_entries es) \<subseteq> set es"
  using set_fold_obj_set[of es "[]"] by (simp add: from_entries_def)

lemma fold_obj_set_wf: "obj_wf m \<Longrightarrow> obj_wf (fold (\<lambda>(k, v) m. obj_set k v m) es m)"
  by (induction es arbitrary: m) auto

lemma obj_wf_from_entries [simp, inv_intros]: "obj_wf (from_entries es)"
  by (simp add: from_entries_def fold_obj_set_wf)

lemma fold_obj_set_get:
  "obj_get (fold (\<lambda>(k, v) m. obj_set k v m) es m) j =
   (case obj_get (rev es) j of None \<Rightarrow> obj_get m j | Some v \<Rightarrow> Some v)"
  by (induction es arbitrary: m)
     (auto simp: obj_get_set map_add_def split: option.splits)

lemma from_entries_get: "obj_get (from_entries es) j = obj_get (rev es) j"
  by (simp add: from_entries_def fold_obj_set_get split: option.splits)

end
