(* ===== verification/Sorting.thy ===== *)
theory Sorting
  imports Strings
begin

section \<open>\<open>Array.prototype.sort\<close>, string collation and collections of records\<close>

text \<open>
  \<open>sort\<close> is the stable sort by a comparison function. For a consistent comparison function
  (the locale \<open>cmp_order\<close>) the result is determined; the locale gives order, stability and
  idempotence. \<open>String.prototype.localeCompare\<close> depends on the collation of the runtime, so it
  is a parameter of every function that sorts; what the code relies on, that it is a consistent
  comparison, is the locale \<open>collation\<close>. The locale \<open>record_store\<close> is the contract that the
  stores' sorting functions share: they keep the identifiers of the records.
\<close>

subsection \<open>The stable sort\<close>

fun insert_cmp :: "('a \<Rightarrow> 'a \<Rightarrow> int) \<Rightarrow> 'a \<Rightarrow> 'a list \<Rightarrow> 'a list" where
  "insert_cmp cmp x [] = [x]"
| "insert_cmp cmp x (y # ys) = (if cmp x y \<le> 0 then x # y # ys else y # insert_cmp cmp x ys)"

definition js_sort :: "('a \<Rightarrow> 'a \<Rightarrow> int) \<Rightarrow> 'a list \<Rightarrow> 'a list" where
  "js_sort cmp xs = foldr (insert_cmp cmp) xs []"

abbreviation sorted_cmp :: "('a \<Rightarrow> 'a \<Rightarrow> int) \<Rightarrow> 'a list \<Rightarrow> bool" where
  "sorted_cmp cmp \<equiv> sorted_wrt (\<lambda>x y. cmp x y \<le> 0)"

lemma js_sort_simps [simp]:
  "js_sort cmp [] = []" "js_sort cmp (x # xs) = insert_cmp cmp x (js_sort cmp xs)"
  by (simp_all add: js_sort_def)

lemma mset_insert_cmp [simp]: "mset (insert_cmp cmp x xs) = add_mset x (mset xs)"
  by (induction xs) auto

lemma mset_js_sort [simp]: "mset (js_sort cmp xs) = mset xs"
  by (induction xs) auto

lemma set_js_sort [simp]: "set (js_sort cmp xs) = set xs"
  by (metis mset_js_sort set_mset_mset)

lemma length_js_sort [simp]: "length (js_sort cmp xs) = length xs"
  by (metis mset_js_sort size_mset)

lemma distinct_js_sort [simp]: "distinct (js_sort cmp xs) = distinct xs"
  by (metis mset_js_sort mset_eq_imp_distinct_iff)

lemma js_sort_Nil_iff [simp]: "js_sort cmp xs = [] \<longleftrightarrow> xs = []"
  by (metis length_js_sort length_0_conv)

lemma js_sort_sorted_id: "sorted_cmp cmp xs \<Longrightarrow> js_sort cmp xs = xs"
proof (induction xs)
  case (Cons x xs)
  then show ?case by (cases xs) auto
qed simp

lemma mset_map_js_sort [simp]: "mset (map f (js_sort cmp xs)) = mset (map f xs)"
  by simp

text \<open>Sorting does not look past the keys: a map that the comparison ignores commutes with it.\<close>

lemma insert_cmp_map:
  "(\<And>x y. cmp' (f x) (f y) = cmp x y) \<Longrightarrow> insert_cmp cmp' (f x) (map f xs) = map f (insert_cmp cmp x xs)"
  by (induction xs) auto

lemma js_sort_map:
  "(\<And>x y. cmp' (f x) (f y) = cmp x y) \<Longrightarrow> js_sort cmp' (map f xs) = map f (js_sort cmp xs)"
  by (induction xs) (auto simp: insert_cmp_map)

subsection \<open>Consistent comparison functions\<close>

locale cmp_order =
  fixes S :: "'a set" and cmp :: "'a \<Rightarrow> 'a \<Rightarrow> int"
  assumes antisym: "x \<in> S \<Longrightarrow> y \<in> S \<Longrightarrow> sgn (cmp x y) = - sgn (cmp y x)"
    and trans: "x \<in> S \<Longrightarrow> y \<in> S \<Longrightarrow> z \<in> S \<Longrightarrow> cmp x y \<le> 0 \<Longrightarrow> cmp y z \<le> 0 \<Longrightarrow> cmp x z \<le> 0"
begin

lemma neg_iff: "x \<in> S \<Longrightarrow> y \<in> S \<Longrightarrow> cmp x y < 0 \<longleftrightarrow> 0 < cmp y x"
  using antisym[of x y] by (auto simp: sgn_if split: if_splits)

lemma zero_iff: "x \<in> S \<Longrightarrow> y \<in> S \<Longrightarrow> cmp x y = 0 \<longleftrightarrow> cmp y x = 0"
  using antisym[of x y] by (auto simp: sgn_if split: if_splits)

lemma refl: "x \<in> S \<Longrightarrow> cmp x x = 0"
  using antisym[of x x] by (auto simp: sgn_if split: if_splits)

lemma not_le: "x \<in> S \<Longrightarrow> y \<in> S \<Longrightarrow> \<not> cmp x y \<le> 0 \<Longrightarrow> cmp y x \<le> 0"
  using neg_iff[of y x] by linarith

lemma sorted_insert:
  "x \<in> S \<Longrightarrow> set xs \<subseteq> S \<Longrightarrow> sorted_cmp cmp xs \<Longrightarrow> sorted_cmp cmp (insert_cmp cmp x xs)"
proof (induction xs)
  case (Cons y ys)
  have S: "x \<in> S" "y \<in> S" "set ys \<subseteq> S" using Cons.prems by auto
  show ?case
  proof (cases "cmp x y \<le> 0")
    case True
    with Cons.prems S show ?thesis by (auto intro: trans[of x y])
  next
    case False
    then have "cmp y x \<le> 0" using S by (simp add: not_le)
    moreover have "set (insert_cmp cmp x ys) = insert x (set ys)"
      by (metis mset_insert_cmp set_mset_add_mset_insert set_mset_mset)
    ultimately show ?thesis using False Cons by auto
  qed
qed simp

lemma sorted_js_sort: "set xs \<subseteq> S \<Longrightarrow> sorted_cmp cmp (js_sort cmp xs)"
  by (induction xs) (auto intro!: sorted_insert)

lemma js_sort_idem: "set xs \<subseteq> S \<Longrightarrow> js_sort cmp (js_sort cmp xs) = js_sort cmp xs"
  by (rule js_sort_sorted_id) (rule sorted_js_sort)

lemma equiv_trans:
  assumes "x \<in> S" "y \<in> S" "z \<in> S" "cmp x y = 0" "cmp y z = 0"
  shows "cmp x z = 0"
proof -
  have "cmp x z \<le> 0" using assms trans[of x y z] by simp
  moreover have "cmp z x \<le> 0" using assms zero_iff[of x y] zero_iff[of y z] trans[of z y x] by simp
  ultimately show ?thesis using assms neg_iff[of x z] by linarith
qed

lemma filter_insert_equiv:
  "z \<in> S \<Longrightarrow> x \<in> S \<Longrightarrow> set xs \<subseteq> S \<Longrightarrow>
   filter (\<lambda>y. cmp z y = 0) (insert_cmp cmp x xs) =
   (if cmp z x = 0 then x # filter (\<lambda>y. cmp z y = 0) xs else filter (\<lambda>y. cmp z y = 0) xs)"
proof (induction xs)
  case (Cons y ys)
  have "cmp z x = 0 \<Longrightarrow> cmp z y = 0 \<Longrightarrow> cmp x y = 0"
    using Cons.prems equiv_trans[of x z y] zero_iff[of z x] by auto
  with Cons show ?case by auto
qed simp

text \<open>Stability: the elements that compare equal keep their order.\<close>

lemma js_sort_stable:
  "z \<in> S \<Longrightarrow> set xs \<subseteq> S \<Longrightarrow>
   filter (\<lambda>y. cmp z y = 0) (js_sort cmp xs) = filter (\<lambda>y. cmp z y = 0) xs"
  by (induction xs) (auto simp: filter_insert_equiv)

lemma hd_js_sort_least: "set xs \<subseteq> S \<Longrightarrow> y \<in> set xs \<Longrightarrow> cmp (hd (js_sort cmp xs)) y \<le> 0"
proof -
  assume xs: "set xs \<subseteq> S" and "y \<in> set xs"
  then have "y \<in> set (js_sort cmp xs)" and y: "y \<in> S" by auto
  moreover have "sorted_cmp cmp (js_sort cmp xs)" using xs by (rule sorted_js_sort)
  ultimately show ?thesis using refl[OF y] by (cases "js_sort cmp xs") auto
qed

end

text \<open>A comparison of keys is a comparison of records, and so is its reverse.\<close>

lemma cmp_order_key: "cmp_order S cmp \<Longrightarrow> f ` T \<subseteq> S \<Longrightarrow> cmp_order T (\<lambda>x y. cmp (f x) (f y))"
  unfolding cmp_order_def image_subset_iff by blast

lemma cmp_order_flip: "cmp_order S cmp \<Longrightarrow> cmp_order S (\<lambda>x y. cmp y x)"
  unfolding cmp_order_def by blast

lemma cmp_order_cong:
  assumes "cmp_order S a" and eq: "\<And>x y. x \<in> S \<Longrightarrow> y \<in> S \<Longrightarrow> b x y = a x y"
  shows "cmp_order S b"
proof
  fix x y z assume S: "x \<in> S" "y \<in> S"
  show "sgn (b x y) = - sgn (b y x)"
    using cmp_order.antisym[OF assms(1) S] by (simp only: eq S)
  assume "z \<in> S" "b x y \<le> 0" "b y z \<le> 0"
  then show "b x z \<le> 0" using cmp_order.trans[OF assms(1) S] by (simp only: eq S)
qed

lemma cmp_order_then:
  assumes A: "cmp_order S a" and B: "cmp_order S b"
  shows "cmp_order S (\<lambda>x y. if a x y \<noteq> 0 then a x y else b x y)"
proof
  fix x y assume S: "x \<in> S" "y \<in> S"
  show "sgn (if a x y \<noteq> 0 then a x y else b x y) = - sgn (if a y x \<noteq> 0 then a y x else b y x)"
    using cmp_order.antisym[OF A S] cmp_order.antisym[OF B S] cmp_order.zero_iff[OF A S] by auto
next
  fix x y z assume S: "x \<in> S" "y \<in> S" "z \<in> S"
  assume xy: "(if a x y \<noteq> 0 then a x y else b x y) \<le> 0"
    and yz: "(if a y z \<noteq> 0 then a y z else b y z) \<le> 0"
  then have le2: "a x y \<le> 0" "a y z \<le> 0" by (auto split: if_splits)
  then have le: "a x z \<le> 0" using cmp_order.trans[OF A S] by simp
  show "(if a x z \<noteq> 0 then a x z else b x z) \<le> 0"
  proof (cases "a x z = 0")
    case True
    then have zx: "a z x \<le> 0" using cmp_order.zero_iff[OF A S(1,3)] by simp
    have "a y x \<le> 0" using cmp_order.trans[OF A S(2,3,1)] le2 zx by simp
    then have xy0: "a x y = 0" using le2 cmp_order.neg_iff[OF A S(1,2)] by linarith
    have "a z y \<le> 0" using cmp_order.trans[OF A S(3,1,2)] le2 zx by simp
    then have yz0: "a y z = 0" using le2 cmp_order.neg_iff[OF A S(2,3)] by linarith
    from xy yz xy0 yz0 have "b x y \<le> 0" "b y z \<le> 0" by auto
    then have "b x z \<le> 0" using cmp_order.trans[OF B S] by simp
    with True show ?thesis by simp
  next
    case False
    with le show ?thesis by simp
  qed
qed

subsection \<open>Collation\<close>

text \<open>
  The contract of \<open>localeCompare\<close>: a consistent comparison of strings, for which the empty
  string is the least.
\<close>

locale collation = cmp_order UNIV lc for lc :: "string \<Rightarrow> string \<Rightarrow> int" +
  assumes empty_least: "lc [] s \<le> 0"

text \<open>The order of the code units, which \<open><\<close> on strings uses, is a collation.\<close>

text \<open>
  Distinct strings may compare equal. Where the code takes equal keys for the same key, it relies
  on the collation to tell the keys at hand apart, as it does for ISO time stamps.
\<close>

definition tells_apart :: "(string \<Rightarrow> string \<Rightarrow> int) \<Rightarrow> string set \<Rightarrow> bool" where
  "tells_apart lc A \<longleftrightarrow> (\<forall>a \<in> A. \<forall>b \<in> A. lc a b = 0 \<longrightarrow> a = b)"

lemma tells_apartD: "tells_apart lc A \<Longrightarrow> a \<in> A \<Longrightarrow> b \<in> A \<Longrightarrow> lc a b = 0 \<Longrightarrow> a = b"
  by (auto simp: tells_apart_def)

definition code_unit_compare :: "string \<Rightarrow> string \<Rightarrow> int" where
  "code_unit_compare a b = (if a < b then -1 else if b < a then 1 else 0)"

interpretation code_units: collation code_unit_compare
proof
  fix x y z s :: string
  show "sgn (code_unit_compare x y) = - sgn (code_unit_compare y x)"
    by (auto simp: code_unit_compare_def)
  show "code_unit_compare x y \<le> 0 \<Longrightarrow> code_unit_compare y z \<le> 0 \<Longrightarrow> code_unit_compare x z \<le> 0"
    by (auto simp: code_unit_compare_def split: if_splits)
  show "code_unit_compare [] s \<le> 0"
    by (auto simp: code_unit_compare_def)
qed

subsection \<open>Sorting by a time stamp, newest first\<close>

text \<open>\<open>(left, right) => right.updatedAt.localeCompare(left.updatedAt)\<close>, which most stores use.\<close>

definition by_newest :: "(string \<Rightarrow> string \<Rightarrow> int) \<Rightarrow> ('a \<Rightarrow> string) \<Rightarrow> 'a list \<Rightarrow> 'a list" where
  "by_newest lc stamp xs = js_sort (\<lambda>l r. lc (stamp r) (stamp l)) xs"

definition by_name :: "(string \<Rightarrow> string \<Rightarrow> int) \<Rightarrow> ('a \<Rightarrow> string) \<Rightarrow> 'a list \<Rightarrow> 'a list" where
  "by_name lc key xs = js_sort (\<lambda>l r. lc (key l) (key r)) xs"

lemma by_newest_simps [simp]:
  "mset (by_newest lc stamp xs) = mset xs" "set (by_newest lc stamp xs) = set xs"
  "length (by_newest lc stamp xs) = length xs"
  by (simp_all add: by_newest_def)

lemma by_name_simps [simp]:
  "mset (by_name lc stamp xs) = mset xs" "set (by_name lc stamp xs) = set xs"
  "length (by_name lc stamp xs) = length xs"
  by (simp_all add: by_name_def)

context collation begin

lemma newest_order: "cmp_order UNIV (\<lambda>l r. lc (stamp r) (stamp l))"
  by (rule cmp_order_flip, rule cmp_order_key) (unfold_locales, simp)

lemma name_order: "cmp_order UNIV (\<lambda>l r. lc (key l) (key r))"
  by (rule cmp_order_key) (unfold_locales, simp)

lemma by_newest_sorted: "sorted_wrt (\<lambda>l r. lc (stamp r) (stamp l) \<le> 0) (by_newest lc stamp xs)"
  unfolding by_newest_def by (rule cmp_order.sorted_js_sort[OF newest_order]) simp

lemma by_newest_idem: "by_newest lc stamp (by_newest lc stamp xs) = by_newest lc stamp xs"
  unfolding by_newest_def by (rule cmp_order.js_sort_idem[OF newest_order]) simp

lemma by_name_sorted: "sorted_wrt (\<lambda>l r. lc (key l) (key r) \<le> 0) (by_name lc key xs)"
  unfolding by_name_def by (rule cmp_order.sorted_js_sort[OF name_order]) simp

lemma by_newest_hd: "y \<in> set xs \<Longrightarrow> lc (stamp y) (stamp (hd (by_newest lc stamp xs))) \<le> 0"
  unfolding by_newest_def using cmp_order.hd_js_sort_least[OF newest_order, of xs y stamp] by simp

end

subsection \<open>Collections of records with identifiers\<close>

text \<open>
  Every store keeps a list of records and sorts it after each change. The contract of the
  sorting function is that it keeps the identifiers; the lemmas are what the stores' operations
  (replace one record, delete by identifier, add) then do to them.
\<close>

locale record_store =
  fixes rid :: "'a \<Rightarrow> string" and srt :: "'a list \<Rightarrow> 'a list"
  assumes srt_ids: "mset (map rid (srt xs)) = mset (map rid xs)"
begin

lemma srt_id_set [simp]: "rid ` set (srt xs) = rid ` set xs"
  by (metis srt_ids list.set_map set_mset_mset)

lemma srt_distinct [simp]: "distinct (map rid (srt xs)) = distinct (map rid xs)"
  by (metis srt_ids mset_eq_imp_distinct_iff)

lemma srt_length [simp]: "length (srt xs) = length xs"
  by (metis length_map size_mset srt_ids)

lemma srt_update_ids [simp]:
  "(\<And>x. p x \<Longrightarrow> rid (f x) = rid x) \<Longrightarrow> rid ` set (srt (map_where p f xs)) = rid ` set xs"
  by (metis (no_types, lifting) list.set_map map_map_where_id srt_id_set)

lemma srt_update_distinct [simp]:
  "(\<And>x. p x \<Longrightarrow> rid (f x) = rid x) \<Longrightarrow>
   distinct (map rid (srt (map_where p f xs))) = distinct (map rid xs)"
  by (simp add: map_map_where_id[of p rid f])

lemma srt_delete_ids [simp]: "rid ` set (srt (filter (\<lambda>x. rid x \<noteq> i) xs)) = rid ` set xs - {i}"
  by auto

lemma srt_delete_distinct:
  "distinct (map rid xs) \<Longrightarrow> distinct (map rid (srt (filter (\<lambda>x. rid x \<noteq> i) xs)))"
  by (simp add: distinct_map_filter)

lemma srt_append_distinct:
  "distinct (map rid xs) \<Longrightarrow> rid x \<notin> rid ` set xs \<Longrightarrow> distinct (map rid (srt (xs @ [x])))"
  by simp

lemma srt_replace_distinct:
  "distinct (map rid xs) \<Longrightarrow> distinct (map rid (srt (x # filter (\<lambda>y. rid y \<noteq> rid x) xs)))"
  by (auto simp: distinct_map_filter)

end

lemma record_store_js_sort: "record_store rid (js_sort cmp)"
  by unfold_locales (rule mset_map_js_sort)

lemma record_store_newest: "record_store rid (by_newest lc stamp)"
  by unfold_locales (simp add: by_newest_def)

lemma record_store_name: "record_store rid (by_name lc key)"
  by unfold_locales (simp add: by_name_def)

text \<open>
  A collection is \<open>no_ghosts\<close> relative to a set of deleted identifiers when its own identifiers
  are distinct and none of them is deleted.
\<close>

definition no_ghosts :: "('a \<Rightarrow> string) \<Rightarrow> string set \<Rightarrow> 'a list \<Rightarrow> bool" where
  "no_ghosts rid dead xs \<longleftrightarrow> distinct (map rid xs) \<and> rid ` set xs \<inter> dead = {}"

lemma no_ghosts_mono: "no_ghosts rid D xs \<Longrightarrow> D' \<subseteq> D \<Longrightarrow> no_ghosts rid D' xs"
  by (auto simp: no_ghosts_def)

end
