(* ===== verification/HostTypes.thy ===== *)
theory HostTypes
  imports Sorting
begin

section \<open>Host records and the host editor's form (\<open>types/host.ts\<close>)\<close>

text \<open>
  The host record, the form values of the editor, the sample inventory and what each protocol
  supports. \<open>raw_host\<close> is a host as it comes out of persisted or imported JSON, where fields may
  be absent.
\<close>

datatype host_auth = AuthNone | AuthPassword | AuthPrivateKey
datatype host_protocol = Ssh | LocalShell | Telnet | Serial | Mosh
datatype host_key_policy = AllowUnknown | RequireTrusted

definition defaultHostProtocol :: host_protocol where
  "defaultHostProtocol = Ssh"

definition defaultHostKeyPolicy :: host_key_policy where
  "defaultHostKeyPolicy = RequireTrusted"

record host =
  h_id :: string
  h_label :: string
  h_protocol :: host_protocol
  h_hostname :: string
  h_username :: string
  h_port :: "int number"
  h_authMethod :: host_auth
  h_privateKeyPath :: string
  h_group :: string
  h_tags :: "string list"
  h_note :: string
  h_favorite :: bool
  h_keyLabel :: string
  h_hostKeyPolicy :: host_key_policy
  h_agentForwarding :: bool
  h_environment :: "string obj"
  h_jumpHostId :: "string option"
  h_sftpRoot :: string
  h_snippetCount :: int
  h_forwardingCount :: int
  h_createdAt :: string
  h_updatedAt :: string
  h_lastConnectedAt :: "string option"
  h_identityId :: "string option"

record host_form =
  hf_label :: string
  hf_protocol :: host_protocol
  hf_hostname :: string
  hf_username :: string
  hf_port :: string
  hf_authMethod :: host_auth
  hf_password :: string
  hf_privateKeyPath :: string
  hf_passphrase :: string
  hf_group :: string
  hf_tags :: string
  hf_note :: string
  hf_favorite :: bool
  hf_keyLabel :: string
  hf_hostKeyPolicy :: host_key_policy
  hf_agentForwarding :: bool
  hf_environment :: string
  hf_jumpHostId :: string
  hf_sftpRoot :: string
  hf_identityId :: string

definition emptyHostFormValues :: host_form where
  "emptyHostFormValues = \<lparr>
     hf_label = '''', hf_protocol = defaultHostProtocol, hf_hostname = '''', hf_username = '''',
     hf_port = ''22'', hf_authMethod = AuthNone, hf_password = '''', hf_privateKeyPath = '''',
     hf_passphrase = '''', hf_group = '''', hf_tags = '''', hf_note = '''', hf_favorite = False,
     hf_keyLabel = '''', hf_hostKeyPolicy = defaultHostKeyPolicy, hf_agentForwarding = False,
     hf_environment = '''', hf_jumpHostId = '''', hf_sftpRoot = ''/home'', hf_identityId = '''' \<rparr>"

subsection \<open>The built-in local shell and the sample inventory\<close>

definition LOCAL_SHELL_HOST_ID :: string where
  "LOCAL_SHELL_HOST_ID = ''local-shell''"

definition createLocalShellHostRecord :: "string \<Rightarrow> host" where
  "createLocalShellHostRecord now = \<lparr>
     h_id = LOCAL_SHELL_HOST_ID, h_label = ''Local Shell'', h_protocol = LocalShell,
     h_hostname = ''localhost'', h_username = ''local'', h_port = Finite 0, h_authMethod = AuthNone,
     h_privateKeyPath = '''', h_group = ''Workstation / Local'', h_tags = [''local'', ''shell''],
     h_note = ''Launches the current macOS login shell inside the native desktop app.'',
     h_favorite = False, h_keyLabel = '''', h_hostKeyPolicy = defaultHostKeyPolicy,
     h_agentForwarding = False, h_environment = [(''TERMSNIP_SHELL_MODE'', ''native'')],
     h_jumpHostId = None, h_sftpRoot = '''', h_snippetCount = 0, h_forwardingCount = 0,
     h_createdAt = now, h_updatedAt = now, h_lastConnectedAt = None, h_identityId = None \<rparr>"

definition sampleHosts :: "host list" where
  "sampleHosts = [
    \<lparr> h_id = ''prod-gateway'', h_label = ''Production Gateway'', h_protocol = Ssh,
      h_hostname = ''bastion.acme.internal'', h_username = ''ops'', h_port = Finite 22,
      h_authMethod = AuthPrivateKey, h_privateKeyPath = ''~/.ssh/id_ed25519'',
      h_group = ''Acme / Production'', h_tags = [''prod'', ''bastion''],
      h_note = ''Primary ingress host for customer-facing services.'',
      h_favorite = True, h_keyLabel = ''MacBook Pro ED25519'',
      h_hostKeyPolicy = defaultHostKeyPolicy, h_agentForwarding = True,
      h_environment = [(''APP_ENV'', ''production''), (''BASTION_ROLE'', ''ingress'')],
      h_jumpHostId = None, h_sftpRoot = ''/srv'', h_snippetCount = 4, h_forwardingCount = 2,
      h_createdAt = ''2026-03-20T12:00:00.000Z'', h_updatedAt = ''2026-03-28T22:12:00.000Z'',
      h_lastConnectedAt = Some ''2026-03-29T11:10:00.000Z'',
      h_identityId = Some ''identity-prod-bastion-ops'' \<rparr>,
    \<lparr> h_id = ''billing-api'', h_label = ''Billing API'', h_protocol = Ssh,
      h_hostname = ''billing-api-02.use1.internal'', h_username = ''deploy'', h_port = Finite 2222,
      h_authMethod = AuthPrivateKey, h_privateKeyPath = ''~/.ssh/deploy_key'',
      h_group = ''Acme / Services'', h_tags = [''linux'', ''api'', ''staging''],
      h_note = ''Blue/green target used for deploy rehearsals and schema checks.'',
      h_favorite = False, h_keyLabel = ''Deploy Shared Key'',
      h_hostKeyPolicy = defaultHostKeyPolicy, h_agentForwarding = False,
      h_environment = [(''APP_ENV'', ''staging'')],
      h_jumpHostId = None, h_sftpRoot = ''/var/www'', h_snippetCount = 2, h_forwardingCount = 1,
      h_createdAt = ''2026-03-18T08:30:00.000Z'', h_updatedAt = ''2026-03-28T20:12:00.000Z'',
      h_lastConnectedAt = Some ''2026-03-28T17:45:00.000Z'',
      h_identityId = Some ''identity-deploy'' \<rparr>,
    \<lparr> h_id = ''edge-router-07'', h_label = ''Edge Router 07'', h_protocol = Ssh,
      h_hostname = ''10.42.7.14'', h_username = ''admin'', h_port = Finite 22,
      h_authMethod = AuthPassword, h_privateKeyPath = '''',
      h_group = ''Network / Edge'', h_tags = [''network'', ''lab'', ''router''],
      h_note = ''Used for testing VLAN changes and failover validation.'',
      h_favorite = False, h_keyLabel = ''Lab Network Key'',
      h_hostKeyPolicy = defaultHostKeyPolicy, h_agentForwarding = False,
      h_environment = [],
      h_jumpHostId = None, h_sftpRoot = ''/cfg'', h_snippetCount = 3, h_forwardingCount = 0,
      h_createdAt = ''2026-03-12T09:40:00.000Z'', h_updatedAt = ''2026-03-27T18:44:00.000Z'',
      h_lastConnectedAt = Some ''2026-03-27T16:02:00.000Z'', h_identityId = None \<rparr>,
    \<lparr> h_id = ''local-shell'', h_label = ''Local Shell'', h_protocol = LocalShell,
      h_hostname = ''localhost'', h_username = ''local'', h_port = Finite 0,
      h_authMethod = AuthNone, h_privateKeyPath = '''',
      h_group = ''Workstation / Local'', h_tags = [''local'', ''shell''],
      h_note = ''Launches the current macOS login shell inside the native desktop app.'',
      h_favorite = False, h_keyLabel = '''',
      h_hostKeyPolicy = defaultHostKeyPolicy, h_agentForwarding = False,
      h_environment = [(''TERMSNIP_SHELL_MODE'', ''native'')],
      h_jumpHostId = None, h_sftpRoot = '''', h_snippetCount = 0, h_forwardingCount = 0,
      h_createdAt = ''2026-04-04T21:00:00.000Z'', h_updatedAt = ''2026-04-04T21:00:00.000Z'',
      h_lastConnectedAt = None, h_identityId = None \<rparr> ]"

subsection \<open>What a protocol supports\<close>

fun formatHostProtocol :: "host_protocol \<Rightarrow> string" where
  "formatHostProtocol LocalShell = ''Local shell''"
| "formatHostProtocol Mosh = ''Mosh''"
| "formatHostProtocol Serial = ''Serial''"
| "formatHostProtocol Telnet = ''Telnet''"
| "formatHostProtocol Ssh = ''SSH''"

fun protocolDefaultPort :: "host_protocol \<Rightarrow> int" where
  "protocolDefaultPort LocalShell = 0"
| "protocolDefaultPort Telnet = 23"
| "protocolDefaultPort Serial = 115200"
| "protocolDefaultPort Mosh = 22"
| "protocolDefaultPort Ssh = 22"

definition protocolRequiresUsername :: "host_protocol \<Rightarrow> bool" where
  [js_simps]: "protocolRequiresUsername p \<longleftrightarrow> p = Ssh \<or> p = Mosh"

definition hostSupportsLiveTransport :: "host_protocol \<Rightarrow> bool" where
  [js_simps]: "hostSupportsLiveTransport p \<longleftrightarrow>
     p = Ssh \<or> p = LocalShell \<or> p = Telnet \<or> p = Serial \<or> p = Mosh"

definition hostSupportsSftp :: "host_protocol \<Rightarrow> bool" where
  [js_simps]: "hostSupportsSftp p \<longleftrightarrow> p = Ssh"

definition hostSupportsTrustedKeys :: "host_protocol \<Rightarrow> bool" where
  [js_simps]: "hostSupportsTrustedKeys p \<longleftrightarrow> p = Ssh \<or> p = Mosh"

definition hostSupportsJumpHosts :: "host_protocol \<Rightarrow> bool" where
  [js_simps]: "hostSupportsJumpHosts p \<longleftrightarrow> p = Ssh"

definition hostSupportsPortForwarding :: "host_protocol \<Rightarrow> bool" where
  [js_simps]: "hostSupportsPortForwarding p \<longleftrightarrow> p = Ssh"

definition hostSupportsCredentialPrompt :: "host_protocol \<Rightarrow> bool" where
  [js_simps]: "hostSupportsCredentialPrompt p \<longleftrightarrow> p = Ssh \<or> p = Mosh"

subsection \<open>From a record to the form\<close>

definition is_favorite_tag :: "string \<Rightarrow> bool" where
  "is_favorite_tag tag \<longleftrightarrow> lower (trim tag) = ''favorite''"

definition format_environment :: "string obj \<Rightarrow> string" where
  "format_environment env = join [CHR 0x0A] (map (\<lambda>(k, v). k @ ''='' @ v) (obj_entries env))"

definition hostToFormValues :: "host \<Rightarrow> host_form" where
  "hostToFormValues h = \<lparr>
     hf_label = h_label h, hf_protocol = h_protocol h, hf_hostname = h_hostname h,
     hf_username = h_username h, hf_port = show_number (h_port h), hf_authMethod = h_authMethod h,
     hf_password = '''', hf_privateKeyPath = h_privateKeyPath h, hf_passphrase = '''',
     hf_group = h_group h,
     hf_tags = join '', '' (filter (\<lambda>tag. \<not> is_favorite_tag tag) (h_tags h)),
     hf_note = h_note h, hf_favorite = h_favorite h, hf_keyLabel = h_keyLabel h,
     hf_hostKeyPolicy = h_hostKeyPolicy h, hf_agentForwarding = h_agentForwarding h,
     hf_environment = format_environment (h_environment h),
     hf_jumpHostId = coalesce (h_jumpHostId h) '''', hf_sftpRoot = h_sftpRoot h,
     hf_identityId = coalesce (h_identityId h) '''' \<rparr>"

lemma sftp_jump_forwarding_same:
  "hostSupportsSftp p = hostSupportsJumpHosts p" "hostSupportsPortForwarding p = hostSupportsSftp p"
  by (simp_all add: js_simps)

lemma live_transport_all: "hostSupportsLiveTransport p"
  by (cases p) (simp_all add: js_simps)

lemma sampleHosts_ids:
  "map h_id sampleHosts = [''prod-gateway'', ''billing-api'', ''edge-router-07'', ''local-shell'']"
  by (simp add: sampleHosts_def)

end
