(* ===== verification/Utils.thy ===== *)
theory Utils
  imports HostTypes
begin

section \<open>Shared helpers (\<open>lib/utils.ts\<close>)\<close>

text \<open>
  Comma lists, environment variables, host addresses and the text the host search looks in.
  The functions that format dates with \<open>Intl\<close> are not modelled.
\<close>

definition cn :: "string option list \<Rightarrow> string" where
  "cn classes = join '' '' (map the (filter truthy classes))"

definition splitCommaList :: "string \<Rightarrow> string list" where
  "splitCommaList s = dedup (filter (\<lambda>t. t \<noteq> []) (map trim (split_on (CHR '','') s)))"

definition parse_env_entry :: "string \<Rightarrow> string \<times> string" where
  "parse_env_entry e =
     (case index_of ''='' e of
        None \<Rightarrow> (e, [])
      | Some i \<Rightarrow> (trim (take i e), trim (drop (i + 1) e)))"

definition parseEnvironmentVariables :: "string \<Rightarrow> string obj" where
  "parseEnvironmentVariables s =
     from_entries (filter (\<lambda>(k, v). k \<noteq> [])
       (map parse_env_entry (filter (\<lambda>e. e \<noteq> []) (map trim (split_on (CHR 0x0A) s)))))"

definition formatEnvironmentVariables :: "string obj \<Rightarrow> string" where
  "formatEnvironmentVariables env = join [CHR 0x0A] (map (\<lambda>(k, v). k @ ''='' @ v) (obj_entries env))"

text \<open>The separator \<open>CHR 0xB7\<close> is the middle dot.\<close>

definition formatHostAddress :: "host \<Rightarrow> string" where
  "formatHostAddress h =
     (if h_protocol h = LocalShell then ''Native login shell''
      else if h_protocol h = Telnet then ''telnet://'' @ h_hostname h @ '':'' @ show_number (h_port h)
      else if h_protocol h = Serial then
        h_hostname h @ [CHR '' '', CHR 0xB7, CHR '' ''] @ show_number (h_port h) @ '' baud''
      else if h_protocol h = Mosh then
        h_username h @ ''@'' @ h_hostname h @ '':'' @ show_number (h_port h) @ '' via mosh''
      else h_username h @ ''@'' @ h_hostname h @ '':'' @ show_number (h_port h))"

definition describeHostRuntime :: "host \<Rightarrow> string option \<Rightarrow> string" where
  "describeHostRuntime h jumpHostLabel =
     (if h_protocol h = LocalShell then ''Native macOS shell bridge''
      else if h_protocol h = Telnet then ''Native telnet bridge''
      else if h_protocol h = Serial then
        ''Native serial bridge '' @ [CHR 0xB7, CHR '' ''] @ show_number (h_port h) @ '' baud''
      else if h_protocol h = Mosh then ''Native mosh bridge''
      else join [CHR '' '', CHR 0xB7, CHR '' ''] (filter (\<lambda>s. s \<noteq> [])
        [ (case h_authMethod h of AuthPrivateKey \<Rightarrow> ''Private key'' | AuthPassword \<Rightarrow> ''Password''
           | AuthNone \<Rightarrow> ''Auth unset''),
          (if h_hostKeyPolicy h = RequireTrusted then ''Trusted key required''
           else ''Unknown key allowed''),
          (if truthy jumpHostLabel then ''via '' @ the jumpHostLabel else []),
          (if h_agentForwarding h then ''agent'' else []) ]))"

text \<open>\<open>dp\<close> is \<open>Date.parse\<close> (\<open>None\<close> for \<open>NaN\<close>), \<open>now\<close> the time in milliseconds.\<close>

definition formatDurationSince ::
    "(string \<Rightarrow> int option) \<Rightarrow> string option \<Rightarrow> int \<Rightarrow> string" where
  "formatDurationSince dp isoString now =
     (if \<not> truthy isoString then ''0m''
      else case dp (coalesce isoString []) of
        None \<Rightarrow> ''NaNh NaNm''
      | Some start \<Rightarrow>
          let elapsedMinutes = max 0 (now - start) div 60000;
              hours = elapsedMinutes div 60;
              minutes = elapsedMinutes mod 60
          in if elapsedMinutes < 1 then ''<1m''
             else if elapsedMinutes < 60 then show_int elapsedMinutes @ ''m''
             else if minutes = 0 then show_int hours @ ''h''
             else show_int hours @ ''h '' @
               (if minutes < 10 then ''0'' else []) @ show_int minutes @ ''m'')"

fun protocol_string :: "host_protocol \<Rightarrow> string" where
  "protocol_string Ssh = ''ssh''"
| "protocol_string LocalShell = ''localShell''"
| "protocol_string Telnet = ''telnet''"
| "protocol_string Serial = ''serial''"
| "protocol_string Mosh = ''mosh''"

fun auth_string :: "host_auth \<Rightarrow> string" where
  "auth_string AuthNone = ''none''"
| "auth_string AuthPassword = ''password''"
| "auth_string AuthPrivateKey = ''privateKey''"

definition buildHostSearchText :: "host \<Rightarrow> string" where
  "buildHostSearchText h = lower (join '' ''
     [ h_label h, protocol_string (h_protocol h), formatHostProtocol (h_protocol h), h_hostname h,
       h_username h, auth_string (h_authMethod h), h_privateKeyPath h, h_group h,
       join '' '' (h_tags h), h_note h, h_keyLabel h, coalesce (h_jumpHostId h) [],
       (if h_agentForwarding h then ''agent forwarding agent forward'' else []),
       join '' '' (map (\<lambda>(k, v). k @ '' '' @ v) (obj_entries (h_environment h))) ])"

subsection \<open>Comma lists\<close>

lemma splitCommaList_tags:
  "t \<in> set (splitCommaList s) \<Longrightarrow> t \<noteq> [] \<and> trimmed t \<and> CHR '','' \<notin> set t"
proof -
  assume "t \<in> set (splitCommaList s)"
  then obtain w where w: "w \<in> set (split_on (CHR '','') s)" "t = trim w" "t \<noteq> []"
    by (auto simp: splitCommaList_def)
  then have "CHR '','' \<notin> set w" by (auto dest: split_by_parts)
  with w set_trim_subset[of w] show ?thesis by auto
qed

lemma distinct_splitCommaList [simp]: "distinct (splitCommaList s)"
  by (simp add: splitCommaList_def)

lemma join_comma_space:
  "join '', '' (t # ts) = join '','' (t # map ((#) (CHR '' '')) ts)"
proof (induction ts arbitrary: t)
  case (Cons u us)
  have "join '','' ((CHR '' '' # u) # map ((#) (CHR '' '')) us) =
    CHR '' '' # join '','' (u # map ((#) (CHR '' '')) us)"
    by (cases us) auto
  with Cons show ?case by simp
qed simp

definition tag_ok :: "string \<Rightarrow> bool" where
  "tag_ok t \<longleftrightarrow> t \<noteq> [] \<and> trimmed t \<and> CHR '','' \<notin> set t"

lemma trim_space_Cons: "t \<noteq> [] \<Longrightarrow> trimmed t \<Longrightarrow> trim (CHR '' '' # t) = t"
proof -
  assume "t \<noteq> []" "trimmed t"
  then have "trim_start (CHR '' '' # t) = t"
    by (simp add: trim_start_def trimmed_def is_space_def dropWhile_hd_eq)
  moreover have "trim_start t = t"
    using \<open>trimmed t\<close> by (auto simp: trim_start_def trimmed_def dropWhile_hd_eq)
  ultimately show ?thesis using trim_trimmed_id[OF \<open>trimmed t\<close>] by (simp add: trim_def)
qed

text \<open>What the form shows for the tags reads back as the tags.\<close>

lemma splitCommaList_join:
  assumes "distinct ts" "\<And>t. t \<in> set ts \<Longrightarrow> tag_ok t"
  shows "splitCommaList (join '', '' ts) = ts"
proof (cases ts)
  case Nil
  then show ?thesis by (simp add: splitCommaList_def dedup_def)
next
  case (Cons t us)
  let ?ws = "t # map ((#) (CHR '' '')) us"
  have "split_on (CHR '','') (join '', '' ts) = ?ws"
    unfolding Cons join_comma_space using assms(2) Cons
    by (intro split_on_join) (auto simp: tag_ok_def)
  moreover have "map trim ?ws = ts"
    using assms(2) Cons by (auto simp: tag_ok_def trim_space_Cons trim_trimmed_id intro!: map_idI)
  moreover have "filter (\<lambda>t. t \<noteq> []) ts = ts"
    using assms(2) by (auto simp: filter_id_conv tag_ok_def)
  ultimately show ?thesis by (simp add: splitCommaList_def dedup_id[OF assms(1)])
qed

subsection \<open>Environment variables\<close>

definition env_entry_ok :: "string \<times> string \<Rightarrow> bool" where
  "env_entry_ok e \<longleftrightarrow> (case e of (k, v) \<Rightarrow>
     k \<noteq> [] \<and> trimmed k \<and> CHR ''='' \<notin> set k \<and> CHR 0x0A \<notin> set k \<and>
     trimmed v \<and> CHR 0x0A \<notin> set v \<and> \<not> array_index k)"

lemma index_of_sep: "c \<notin> set k \<Longrightarrow> index_of [c] (k @ c # v) = Some (length k)"
  by (induction k) auto

lemma trimmed_entry:
  "k \<noteq> [] \<Longrightarrow> trimmed k \<Longrightarrow> trimmed v \<Longrightarrow> trimmed (k @ CHR ''='' # v)"
  by (auto simp: trimmed_def is_space_def)

lemma parse_env_entry_format:
  "env_entry_ok (k, v) \<Longrightarrow> parse_env_entry (trim (k @ CHR ''='' # v)) = (k, v)"
proof -
  assume ok: "env_entry_ok (k, v)"
  then have "trim (k @ CHR ''='' # v) = k @ CHR ''='' # v"
    by (intro trim_trimmed_id) (auto simp: env_entry_ok_def intro!: trimmed_entry)
  with ok show ?thesis
    by (simp add: parse_env_entry_def env_entry_ok_def index_of_sep trim_trimmed_id)
qed

lemma parse_format_environment:
  assumes "obj_wf env" "\<And>e. e \<in> set env \<Longrightarrow> env_entry_ok e"
  shows "parseEnvironmentVariables (formatEnvironmentVariables env) = env"
proof (cases env)
  case Nil
  then show ?thesis
    by (simp add: parseEnvironmentVariables_def formatEnvironmentVariables_def obj_entries_def
        from_entries_def)
next
  case (Cons e0 es0)
  then have ne: "env \<noteq> []" by simp
  let ?line = "\<lambda>(k, v). k @ ''='' @ v"
  have entries: "obj_entries env = env"
    using assms(2) by (intro obj_entries_plain) (auto simp: env_entry_ok_def)
  have nl: "CHR 0x0A \<notin> set (?line e)" "trim (?line e) = ?line e" "?line e \<noteq> []" "fst e \<noteq> []"
    if "e \<in> set env" for e
    using assms(2)[OF that]
    by (auto simp: env_entry_ok_def trimmed_entry intro!: trim_trimmed_id)
  have "split_on (CHR 0x0A) (formatEnvironmentVariables env) = map ?line env"
    unfolding formatEnvironmentVariables_def entries using ne nl(1)
    by (intro split_on_join) auto
  moreover have "filter (\<lambda>e. e \<noteq> []) (map trim (map ?line env)) = map trim (map ?line env)"
    using nl(2,3) by (auto simp: filter_id_conv)
  moreover have "map parse_env_entry (map trim (map ?line env)) = env"
    using assms(2) by (auto intro!: map_idI simp: parse_env_entry_format)
  moreover have "filter (\<lambda>(k, v). k \<noteq> []) env = env"
    using nl(4) by (force simp: filter_id_conv)
  ultimately show ?thesis
    using assms(1) by (simp add: parseEnvironmentVariables_def from_entries_distinct obj_wf_def)
qed

lemma parse_env_entry_parts:
  assumes "parse_env_entry e = (k, v)" "trimmed e"
  shows "trimmed k" "trimmed v" "CHR ''='' \<notin> set k" "set k \<subseteq> set e" "set v \<subseteq> set e"
proof -
  have "trimmed k \<and> trimmed v \<and> CHR ''='' \<notin> set k \<and> set k \<subseteq> set e \<and> set v \<subseteq> set e"
  proof (cases "index_of ''='' e")
    case None
    with assms have "k = e" "v = []" by (simp_all add: parse_env_entry_def)
    moreover have "CHR ''='' \<notin> set e"
      using None unfolding index_of_None by (metis append_Cons append_Nil split_list)
    ultimately show ?thesis using assms(2) by (simp add: trimmed_def)
  next
    case (Some i)
    with assms have kv: "k = trim (take i e)" "v = trim (drop (i + 1) e)"
      by (simp_all add: parse_env_entry_def)
    have "CHR ''='' \<notin> set (take i e)"
    proof
      assume "CHR ''='' \<in> set (take i e)"
      then obtain j where j: "j < i" "j < length e" "e ! j = CHR ''=''"
        by (auto simp: in_set_conv_nth)
      then have "starts_with ''='' (drop j e)" by (simp add: starts_with_iff Cons_nth_drop_Suc[symmetric])
      with index_of_first[OF Some j(1)] show False by simp
    qed
    moreover have "set (take i e) \<subseteq> set e" "set (drop (i + 1) e) \<subseteq> set e"
      by (auto dest: in_set_takeD in_set_dropD)
    ultimately show ?thesis using kv set_trim_subset by (metis subset_iff trimmed_trim)
  qed
  then show "trimmed k" "trimmed v" "CHR ''='' \<notin> set k" "set k \<subseteq> set e" "set v \<subseteq> set e"
    by blast+
qed

lemma parseEnvironment_entries:
  assumes "(k, v) \<in> set (parseEnvironmentVariables s)" "\<not> array_index k"
  shows "env_entry_ok (k, v)"
proof -
  obtain l where l: "l \<in> set (split_on (CHR 0x0A) s)" "parse_env_entry (trim l) = (k, v)" "k \<noteq> []"
    using assms(1) set_from_entries unfolding parseEnvironmentVariables_def by fastforce
  then have "CHR 0x0A \<notin> set (trim l)"
    using set_trim_subset[of l] by (auto dest: split_by_parts)
  with parse_env_entry_parts[OF l(2) trimmed_trim] l(3) assms(2) show ?thesis
    by (auto simp: env_entry_ok_def)
qed

lemma obj_wf_parseEnvironment [simp]: "obj_wf (parseEnvironmentVariables s)"
  by (simp add: parseEnvironmentVariables_def)

lemma format_environment_same: "format_environment = formatEnvironmentVariables"
  by (simp add: fun_eq_iff format_environment_def formatEnvironmentVariables_def)

text \<open>The environment variables of a host, written as the lines of the form, read back as the
  same variables.\<close>

theorem environment_lines_roundtrip:
  assumes "obj_wf env" "list_all env_entry_ok env"
  shows "parseEnvironmentVariables (formatEnvironmentVariables env) = env"
  using assms by (intro parse_format_environment) (simp_all add: list_all_iff)

lemma environment_lines_roundtrip_witness:
  "parseEnvironmentVariables (formatEnvironmentVariables [(''A'', ''1=2''), (''B'', '''')]) =
    [(''A'', ''1=2''), (''B'', '''')]"
  by (rule environment_lines_roundtrip) code_simp+

end
