(* ===== verification/VaultSync.thy ===== *)
theory VaultSync
  imports Sorting
begin

section \<open>Tombstones of deleted records (\<open>store/vault-sync-store.ts\<close>)\<close>

text \<open>
  The store keeps, per kind of record, the identifiers that were deleted and when. \<open>dp\<close> is
  \<open>Date.parse\<close> (\<open>None\<close> for \<open>NaN\<close>; what it does with strings that are not ISO dates is left to
  the runtime), \<open>lc\<close> is \<open>localeCompare\<close>, \<open>now\<close> is \<open>Date.now()\<close> in milliseconds.
\<close>

datatype entity_kind = KHosts | KKeys | KSnippets | KKnownHosts | KIdentities

record deletion =
  d_id :: string
  d_deletedAt :: string

record deletion_map =
  dm_hosts :: "deletion list"
  dm_keys :: "deletion list"
  dm_snippets :: "deletion list"
  dm_knownHosts :: "deletion list"
  dm_identities :: "deletion list"

fun dm_get :: "entity_kind \<Rightarrow> deletion_map \<Rightarrow> deletion list" where
  "dm_get KHosts m = dm_hosts m"
| "dm_get KKeys m = dm_keys m"
| "dm_get KSnippets m = dm_snippets m"
| "dm_get KKnownHosts m = dm_knownHosts m"
| "dm_get KIdentities m = dm_identities m"

fun dm_put :: "entity_kind \<Rightarrow> deletion list \<Rightarrow> deletion_map \<Rightarrow> deletion_map" where
  "dm_put KHosts ds m = m\<lparr>dm_hosts := ds\<rparr>"
| "dm_put KKeys ds m = m\<lparr>dm_keys := ds\<rparr>"
| "dm_put KSnippets ds m = m\<lparr>dm_snippets := ds\<rparr>"
| "dm_put KKnownHosts ds m = m\<lparr>dm_knownHosts := ds\<rparr>"
| "dm_put KIdentities ds m = m\<lparr>dm_identities := ds\<rparr>"

lemma dm_get_put [simp]: "dm_get k (dm_put j ds m) = (if k = j then ds else dm_get k m)"
  by (cases k; cases j) auto

definition VAULT_TOMBSTONE_RETENTION_DAYS :: int where
  "VAULT_TOMBSTONE_RETENTION_DAYS = 90"

definition VAULT_TOMBSTONE_MAX_ENTRIES_PER_KIND :: nat where
  "VAULT_TOMBSTONE_MAX_ENTRIES_PER_KIND = 256"

definition VAULT_TOMBSTONE_RETENTION_MS :: int where
  "VAULT_TOMBSTONE_RETENTION_MS = VAULT_TOMBSTONE_RETENTION_DAYS * 24 * 60 * 60 * 1000"

definition sortDeletionEntries :: "(string \<Rightarrow> string \<Rightarrow> int) \<Rightarrow> deletion list \<Rightarrow> deletion list" where
  "sortDeletionEntries lc = by_newest lc d_deletedAt"

subsection \<open>Compaction\<close>

text \<open>The three reasons for which the loop skips an entry.\<close>

definition retained :: "(string \<Rightarrow> int option) \<Rightarrow> int \<Rightarrow> deletion \<Rightarrow> bool" where
  "retained dp now e \<longleftrightarrow> d_id e \<noteq> [] \<and> d_deletedAt e \<noteq> [] \<and>
     (case dp (d_deletedAt e) of
        None \<Rightarrow> False
      | Some ms \<Rightarrow> \<not> ms < now - VAULT_TOMBSTONE_RETENTION_MS)"

definition keep_latest :: "(string \<Rightarrow> int option) \<Rightarrow> int \<Rightarrow> deletion \<Rightarrow> deletion obj \<Rightarrow> deletion obj" where
  "keep_latest dp now e m =
     (if \<not> retained dp now e then m
      else case obj_get m (d_id e) of
             None \<Rightarrow> obj_set (d_id e) \<lparr>d_id = d_id e, d_deletedAt = d_deletedAt e\<rparr> m
           | Some ex \<Rightarrow>
               if d_deletedAt e > d_deletedAt ex
               then obj_set (d_id e) \<lparr>d_id = d_id e, d_deletedAt = d_deletedAt e\<rparr> m else m)"

definition latest_by_id :: "(string \<Rightarrow> int option) \<Rightarrow> int \<Rightarrow> deletion list \<Rightarrow> deletion obj" where
  "latest_by_id dp now es = fold (keep_latest dp now) es []"

definition compactDeletionEntries ::
    "(string \<Rightarrow> int option) \<Rightarrow> (string \<Rightarrow> string \<Rightarrow> int) \<Rightarrow> int \<Rightarrow> deletion list \<Rightarrow> deletion list" where
  "compactDeletionEntries dp lc now es =
     take VAULT_TOMBSTONE_MAX_ENTRIES_PER_KIND
       (sortDeletionEntries lc (map snd (latest_by_id dp now es)))"

definition emptyDeletionMap :: deletion_map where
  "emptyDeletionMap = \<lparr>dm_hosts = [], dm_keys = [], dm_snippets = [], dm_knownHosts = [],
     dm_identities = []\<rparr>"

text \<open>The argument may lack a kind, or be absent altogether (\<open>\<lambda>_. None\<close>).\<close>

type_synonym partial_deletions = "entity_kind \<Rightarrow> deletion list option"

definition as_partial :: "deletion_map \<Rightarrow> partial_deletions" where
  "as_partial m = (\<lambda>k. Some (dm_get k m))"

definition compactDeletionMap ::
    "(string \<Rightarrow> int option) \<Rightarrow> (string \<Rightarrow> string \<Rightarrow> int) \<Rightarrow> int \<Rightarrow> partial_deletions \<Rightarrow> deletion_map" where
  "compactDeletionMap dp lc now ds = \<lparr>
     dm_hosts = compactDeletionEntries dp lc now (coalesce (ds KHosts) []),
     dm_keys = compactDeletionEntries dp lc now (coalesce (ds KKeys) []),
     dm_snippets = compactDeletionEntries dp lc now (coalesce (ds KSnippets) []),
     dm_knownHosts = compactDeletionEntries dp lc now (coalesce (ds KKnownHosts) []),
     dm_identities = compactDeletionEntries dp lc now (coalesce (ds KIdentities) [])\<rparr>"

subsection \<open>The store's actions\<close>

definition upsertDeletionEntry ::
    "(string \<Rightarrow> string \<Rightarrow> int) \<Rightarrow> deletion list \<Rightarrow> string \<Rightarrow> string \<Rightarrow> deletion list" where
  "upsertDeletionEntry lc es i at =
     sortDeletionEntries lc (\<lparr>d_id = i, d_deletedAt = at\<rparr> # filter (\<lambda>e. d_id e \<noteq> i) es)"

definition removeDeletionEntry ::
    "(string \<Rightarrow> string \<Rightarrow> int) \<Rightarrow> deletion list \<Rightarrow> string \<Rightarrow> deletion list" where
  "removeDeletionEntry lc es i = sortDeletionEntries lc (filter (\<lambda>e. d_id e \<noteq> i) es)"

definition markDeleted ::
    "(string \<Rightarrow> int option) \<Rightarrow> (string \<Rightarrow> string \<Rightarrow> int) \<Rightarrow> int \<Rightarrow> string \<Rightarrow>
     entity_kind \<Rightarrow> string \<Rightarrow> deletion_map \<Rightarrow> deletion_map" where
  "markDeleted dp lc now at k i m =
     dm_put k (compactDeletionEntries dp lc now (upsertDeletionEntry lc (dm_get k m) i at)) m"

definition clearDeleted ::
    "(string \<Rightarrow> string \<Rightarrow> int) \<Rightarrow> entity_kind \<Rightarrow> string \<Rightarrow> deletion_map \<Rightarrow> deletion_map" where
  "clearDeleted lc k i m = dm_put k (removeDeletionEntry lc (dm_get k m) i) m"

definition replaceDeletions ::
    "(string \<Rightarrow> int option) \<Rightarrow> (string \<Rightarrow> string \<Rightarrow> int) \<Rightarrow> int \<Rightarrow> deletion_map \<Rightarrow> deletion_map" where
  "replaceDeletions dp lc now ds = compactDeletionMap dp lc now (as_partial ds)"

text \<open>What \<open>partialize\<close> writes to storage.\<close>

definition vault_partialize ::
    "(string \<Rightarrow> int option) \<Rightarrow> (string \<Rightarrow> string \<Rightarrow> int) \<Rightarrow> int \<Rightarrow> deletion_map \<Rightarrow> deletion_map" where
  "vault_partialize dp lc now m = compactDeletionMap dp lc now (as_partial m)"

definition tombstone_ids :: "deletion_map \<Rightarrow> entity_kind \<Rightarrow> string set" where
  "tombstone_ids m k = d_id ` set (dm_get k m)"

subsection \<open>What compaction keeps\<close>

lemma deletion_rebuild [simp]: "\<lparr>d_id = d_id e, d_deletedAt = d_deletedAt e\<rparr> = (e::deletion)"
  by simp

definition latest_inv ::
    "(string \<Rightarrow> int option) \<Rightarrow> int \<Rightarrow> deletion list \<Rightarrow> deletion obj \<Rightarrow> bool" where
  "latest_inv dp now es m \<longleftrightarrow> obj_wf m \<and>
     (\<forall>k v. obj_get m k = Some v \<longrightarrow> v \<in> set es \<and> retained dp now v \<and> d_id v = k \<and>
        (\<forall>e \<in> set es. retained dp now e \<and> d_id e = k \<longrightarrow> d_deletedAt e \<le> d_deletedAt v)) \<and>
     (\<forall>e \<in> set es. retained dp now e \<longrightarrow> obj_get m (d_id e) \<noteq> None)"

lemma latest_inv_step:
  assumes "latest_inv dp now es m"
  shows "latest_inv dp now (es @ [e]) (keep_latest dp now e m)"
proof (cases "retained dp now e")
  case False
  with assms show ?thesis by (auto simp: latest_inv_def keep_latest_def)
next
  case r: True
  show ?thesis
  proof (cases "obj_get m (d_id e)")
    case None
    with assms r show ?thesis
      unfolding latest_inv_def keep_latest_def
      by (auto simp: obj_get_set split: if_splits)
  next
    case (Some v)
    show ?thesis
    proof (cases "d_deletedAt v < d_deletedAt e")
      case True
      with Some assms r show ?thesis
        unfolding latest_inv_def keep_latest_def
        by (auto simp: obj_get_set split: if_splits) (metis dual_order.strict_implies_order order.trans)
    next
      case False
      with Some assms r show ?thesis
        unfolding latest_inv_def keep_latest_def by auto
    qed
  qed
qed

lemma latest_inv_fold:
  "latest_inv dp now es m \<Longrightarrow> latest_inv dp now (es @ fs) (fold (keep_latest dp now) fs m)"
proof (induction fs arbitrary: es m)
  case (Cons f fs)
  from Cons.IH[OF latest_inv_step[OF Cons.prems]] show ?case by simp
qed simp

lemma latest_by_id_inv: "latest_inv dp now es (latest_by_id dp now es)"
  using latest_inv_fold[of dp now "[]" "[]" es]
  by (simp add: latest_by_id_def latest_inv_def)

lemma latest_by_id_get:
  "obj_get (latest_by_id dp now es) k = Some v \<longleftrightarrow> (k, v) \<in> set (latest_by_id dp now es)"
  using latest_by_id_inv[of dp now es] by (simp add: latest_inv_def obj_wf_get)

lemma latest_ids: "map d_id (map snd (latest_by_id dp now es)) = map fst (latest_by_id dp now es)"
  using latest_by_id_inv[of dp now es]
  by (auto simp: latest_inv_def latest_by_id_get)

lemma compact_subset_latest:
  "e \<in> set (compactDeletionEntries dp lc now es) \<Longrightarrow> obj_get (latest_by_id dp now es) (d_id e) = Some e"
proof -
  assume "e \<in> set (compactDeletionEntries dp lc now es)"
  then have "e \<in> snd ` set (latest_by_id dp now es)"
    by (auto simp: compactDeletionEntries_def sortDeletionEntries_def dest!: in_set_takeD)
  then obtain k where "obj_get (latest_by_id dp now es) k = Some e"
    by (auto simp: latest_by_id_get)
  moreover from this have "d_id e = k"
    using latest_by_id_inv[of dp now es] by (simp add: latest_inv_def)
  ultimately show ?thesis by simp
qed

lemma compact_length: "length (compactDeletionEntries dp lc now es) \<le> 256"
  by (simp add: compactDeletionEntries_def VAULT_TOMBSTONE_MAX_ENTRIES_PER_KIND_def)

lemma compact_distinct: "distinct (map d_id (compactDeletionEntries dp lc now es))"
proof -
  have "distinct (map d_id (map snd (latest_by_id dp now es)))"
    unfolding latest_ids using latest_by_id_inv[of dp now es] by (simp add: latest_inv_def obj_wf_def)
  then have "distinct (map d_id (sortDeletionEntries lc (map snd (latest_by_id dp now es))))"
    unfolding sortDeletionEntries_def record_store.srt_distinct[OF record_store_newest] .
  then show ?thesis unfolding compactDeletionEntries_def
    by (metis distinct_take take_map)
qed

lemma compact_entry:
  assumes "e \<in> set (compactDeletionEntries dp lc now es)"
  shows "e \<in> set es" "retained dp now e"
    "f \<in> set es \<Longrightarrow> retained dp now f \<Longrightarrow> d_id f = d_id e \<Longrightarrow> d_deletedAt f \<le> d_deletedAt e"
proof -
  note inv = latest_by_id_inv[of dp now es, unfolded latest_inv_def] compact_subset_latest[OF assms]
  show "e \<in> set es" "retained dp now e" using inv by blast+
  show "f \<in> set es \<Longrightarrow> retained dp now f \<Longrightarrow> d_id f = d_id e \<Longrightarrow> d_deletedAt f \<le> d_deletedAt e"
    using inv by blast
qed

lemma compact_ids_subset:
  "d_id ` set (compactDeletionEntries dp lc now es) \<subseteq> d_id ` set es"
  by (rule image_mono) (auto intro: compact_entry(1))

lemma latest_complete:
  "f \<in> set es \<Longrightarrow> retained dp now f \<Longrightarrow> \<exists>v. obj_get (latest_by_id dp now es) (d_id f) = Some v \<and> d_id v = d_id f"
  using latest_by_id_inv[of dp now es] unfolding latest_inv_def by (metis not_None_eq)

lemma compact_all_latest:
  assumes "length (latest_by_id dp now es) \<le> 256"
  shows "set (compactDeletionEntries dp lc now es) = snd ` set (latest_by_id dp now es)"
  using assms by (simp add: compactDeletionEntries_def sortDeletionEntries_def
      VAULT_TOMBSTONE_MAX_ENTRIES_PER_KIND_def)

lemma compact_complete:
  assumes "f \<in> set es" "retained dp now f" "length (latest_by_id dp now es) \<le> 256"
  shows "d_id f \<in> d_id ` set (compactDeletionEntries dp lc now es)"
proof -
  obtain v where v: "obj_get (latest_by_id dp now es) (d_id f) = Some v" "d_id v = d_id f"
    using latest_complete[OF assms(1,2)] by blast
  then have "v \<in> snd ` set (latest_by_id dp now es)"
    unfolding latest_by_id_get by (rule_tac image_eqI[of _ _ "(d_id f, v)"]) simp_all
  then have "v \<in> set (compactDeletionEntries dp lc now es)"
    by (simp only: compact_all_latest[OF assms(3)])
  with v(2) show ?thesis by (metis imageI)
qed

lemma compact_sorted:
  assumes "collation lc"
  shows "sorted_wrt (\<lambda>l r. lc (d_deletedAt r) (d_deletedAt l) \<le> 0) (compactDeletionEntries dp lc now es)"
  unfolding compactDeletionEntries_def sortDeletionEntries_def
  by (rule sorted_wrt_take) (rule collation.by_newest_sorted[OF assms])

lemma fold_keep_latest_distinct:
  "distinct (map d_id (P @ R)) \<Longrightarrow> (\<And>e. e \<in> set R \<Longrightarrow> retained dp now e) \<Longrightarrow>
   fold (keep_latest dp now) R (map (\<lambda>e. (d_id e, e)) P) = map (\<lambda>e. (d_id e, e)) (P @ R)"
proof (induction R arbitrary: P)
  case (Cons r R)
  have new: "d_id r \<notin> fst ` set (map (\<lambda>e. (d_id e, e)) P)" using Cons.prems(1) by force
  then have "obj_get (map (\<lambda>e. (d_id e, e)) P) (d_id r) = None" by (simp only: obj_get_None_iff) simp
  then have "keep_latest dp now r (map (\<lambda>e. (d_id e, e)) P) = map (\<lambda>e. (d_id e, e)) (P @ [r])"
    using Cons.prems(2)[of r] by (simp add: keep_latest_def obj_set_new[OF new])
  then show ?case using Cons.IH[of "P @ [r]"] Cons.prems by simp
qed simp

lemma latest_by_id_distinct:
  "distinct (map d_id R) \<Longrightarrow> (\<And>e. e \<in> set R \<Longrightarrow> retained dp now e) \<Longrightarrow>
   latest_by_id dp now R = map (\<lambda>e. (d_id e, e)) R"
  using fold_keep_latest_distinct[of "[]" R dp now] by (simp add: latest_by_id_def)

lemma compact_idem:
  assumes "collation lc"
  shows "compactDeletionEntries dp lc now (compactDeletionEntries dp lc now es) =
    compactDeletionEntries dp lc now es" (is "?c ?R = ?R")
proof -
  have "latest_by_id dp now ?R = map (\<lambda>e. (d_id e, e)) ?R"
    by (rule latest_by_id_distinct[OF compact_distinct compact_entry(2)])
  moreover have "sortDeletionEntries lc ?R = ?R"
    using compact_sorted[OF assms] unfolding sortDeletionEntries_def by_newest_def
    by (rule js_sort_sorted_id)
  ultimately show ?thesis
    using compact_length[of dp lc now es]
    by (simp add: compactDeletionEntries_def[of dp lc now ?R] comp_def
        VAULT_TOMBSTONE_MAX_ENTRIES_PER_KIND_def)
qed

subsection \<open>Marking and clearing\<close>

lemma dm_get_compactDeletionMap:
  "dm_get k (compactDeletionMap dp lc now ds) = compactDeletionEntries dp lc now (coalesce (ds k) [])"
  by (cases k) (simp_all add: compactDeletionMap_def)

lemma set_upsertDeletionEntry:
  "set (upsertDeletionEntry lc es i at) = insert \<lparr>d_id = i, d_deletedAt = at\<rparr> {e \<in> set es. d_id e \<noteq> i}"
  by (simp add: upsertDeletionEntry_def sortDeletionEntries_def)

lemma tombstones_clearDeleted:
  "tombstone_ids (clearDeleted lc k i m) j =
   (if j = k then tombstone_ids m j - {i} else tombstone_ids m j)"
  by (auto simp: tombstone_ids_def clearDeleted_def removeDeletionEntry_def sortDeletionEntries_def)

lemma tombstones_markDeleted:
  "tombstone_ids (markDeleted dp lc now at k i m) j \<subseteq>
   (if j = k then insert i (tombstone_ids m j) else tombstone_ids m j)"
proof (cases "j = k")
  case True
  have "d_id ` set (compactDeletionEntries dp lc now (upsertDeletionEntry lc (dm_get k m) i at)) \<subseteq>
    d_id ` set (upsertDeletionEntry lc (dm_get k m) i at)" by (rule compact_ids_subset)
  also have "\<dots> \<subseteq> insert i (tombstone_ids m k)"
    by (auto simp: set_upsertDeletionEntry tombstone_ids_def)
  finally show ?thesis using True by (simp add: tombstone_ids_def markDeleted_def)
next
  case False
  then show ?thesis by (simp add: tombstone_ids_def markDeleted_def)
qed

text \<open>
  The newest entry sorts first, so compaction cannot drop it, however many tombstones there are.
\<close>

lemma by_newest_take_mem:
  assumes "collation lc" "x \<in> set xs" "0 < n" "\<And>y. y \<in> set xs \<Longrightarrow> y \<noteq> x \<Longrightarrow> lc (stamp y) (stamp x) < 0"
  shows "x \<in> set (take n (by_newest lc stamp xs))"
proof -
  have "lc (stamp x) (stamp (hd (by_newest lc stamp xs))) \<le> 0"
    by (rule collation.by_newest_hd[OF assms(1,2)])
  moreover have ne: "by_newest lc stamp xs \<noteq> []"
    using assms(2) by (metis by_newest_simps(2) empty_iff list.set(1))
  moreover have "hd (by_newest lc stamp xs) \<in> set xs"
    using ne by (metis by_newest_simps(2) hd_in_set)
  ultimately have "hd (by_newest lc stamp xs) = x"
    using assms(4) cmp_order.neg_iff[OF collation.axioms(1)[OF assms(1)]] by (metis UNIV_I not_less)
  with ne assms(3) show ?thesis by (cases "by_newest lc stamp xs"; cases n) auto
qed

lemma markDeleted_marks:
  assumes "collation lc" "i \<noteq> []" "at \<noteq> []" "dp at = Some ms" "now - VAULT_TOMBSTONE_RETENTION_MS \<le> ms"
    and newest: "\<And>e. e \<in> set (dm_get k m) \<Longrightarrow> lc (d_deletedAt e) at < 0"
  shows "\<lparr>d_id = i, d_deletedAt = at\<rparr> \<in> set (dm_get k (markDeleted dp lc now at k i m))"
proof -
  let ?e = "\<lparr>d_id = i, d_deletedAt = at\<rparr>" and ?es = "upsertDeletionEntry lc (dm_get k m) i at"
  have r: "retained dp now ?e" using assms(2-5) by (simp add: retained_def)
  have e: "?e \<in> set ?es" by (simp add: set_upsertDeletionEntry)
  obtain v where v: "obj_get (latest_by_id dp now ?es) i = Some v" "d_id v = i"
    using latest_complete[OF e r] by auto
  have vin: "v \<in> set ?es" using latest_by_id_inv[of dp now ?es] v unfolding latest_inv_def by blast
  then have ve: "v = ?e" using v(2) by (auto simp: set_upsertDeletionEntry)
  let ?L = "map snd (latest_by_id dp now ?es)"
  have vL: "?e \<in> set ?L" using v(1) ve unfolding latest_by_id_get by (force intro: image_eqI)
  have "lc (d_deletedAt y) (d_deletedAt ?e) < 0" if "y \<in> set ?L" "y \<noteq> ?e" for y
  proof -
    from that(1) obtain j where "obj_get (latest_by_id dp now ?es) j = Some y"
      unfolding latest_by_id_get by auto
    then have "y \<in> set ?es" using latest_by_id_inv[of dp now ?es] unfolding latest_inv_def by blast
    with that(2) newest show ?thesis by (auto simp: set_upsertDeletionEntry)
  qed
  then have "?e \<in> set (take VAULT_TOMBSTONE_MAX_ENTRIES_PER_KIND (by_newest lc d_deletedAt ?L))"
    by (intro by_newest_take_mem[OF assms(1) vL]) (auto simp: VAULT_TOMBSTONE_MAX_ENTRIES_PER_KIND_def)
  then show ?thesis by (simp add: markDeleted_def compactDeletionEntries_def sortDeletionEntries_def)
qed

subsection \<open>The interface the other stores use\<close>

text \<open>
  The stores of records call \<open>markDeleted\<close> when a record goes and \<open>clearDeleted\<close> when one comes.
  They rely on two laws: clearing removes exactly the one tombstone, and marking adds no other.
\<close>

locale tombstones =
  fixes mark clear :: "entity_kind \<Rightarrow> string \<Rightarrow> 's \<Rightarrow> 's" and dead :: "'s \<Rightarrow> entity_kind \<Rightarrow> string set"
  assumes clear_dead: "dead (clear k i s) j = (if j = k then dead s j - {i} else dead s j)"
    and mark_dead: "dead (mark k i s) j \<subseteq> (if j = k then insert i (dead s j) else dead s j)"

locale tombstoned_store = record_store rid srt + tombstones mark clear dead
  for rid :: "'a \<Rightarrow> string" and srt :: "'a list \<Rightarrow> 'a list"
    and mark clear :: "entity_kind \<Rightarrow> string \<Rightarrow> 's \<Rightarrow> 's" and dead :: "'s \<Rightarrow> entity_kind \<Rightarrow> string set" +
  fixes kind :: entity_kind
begin

lemma update_ok:
  "no_ghosts rid D xs \<Longrightarrow> (\<And>x. p x \<Longrightarrow> rid (f x) = rid x) \<Longrightarrow>
   no_ghosts rid D (srt (map_where p f xs))"
  unfolding no_ghosts_def by (simp only: srt_update_distinct srt_update_ids)

lemma add_ok:
  "no_ghosts rid (dead s kind) xs \<Longrightarrow> rid x \<notin> rid ` set xs \<Longrightarrow>
   no_ghosts rid (dead (clear kind (rid x) s) kind) (srt (xs @ [x]))"
  by (auto simp: no_ghosts_def clear_dead)

lemma add_front_ok:
  "no_ghosts rid (dead s kind) xs \<Longrightarrow> rid x \<notin> rid ` set xs \<Longrightarrow>
   no_ghosts rid (dead (clear kind (rid x) s) kind) (srt (x # xs))"
  by (auto simp: no_ghosts_def clear_dead)

lemma replace_ok:
  "no_ghosts rid (dead s kind) xs \<Longrightarrow>
   no_ghosts rid (dead (clear kind (rid x) s) kind) (srt (x # filter (\<lambda>y. rid y \<noteq> rid x) xs))"
  by (auto simp: no_ghosts_def clear_dead distinct_map_filter)

lemma replace_back_ok:
  "no_ghosts rid (dead s kind) xs \<Longrightarrow>
   no_ghosts rid (dead (clear kind (rid x) s) kind) (srt (filter (\<lambda>y. rid y \<noteq> rid x) xs @ [x]))"
  by (auto simp: no_ghosts_def clear_dead distinct_map_filter)

lemma clear_ok:
  "no_ghosts rid (dead s kind) xs \<Longrightarrow> no_ghosts rid (dead (clear kind i s) kind) xs"
  by (auto simp: no_ghosts_def clear_dead)

lemma delete_ok:
  "no_ghosts rid (dead s kind) xs \<Longrightarrow>
   no_ghosts rid (dead (mark kind i s) kind) (srt (filter (\<lambda>x. rid x \<noteq> i) xs))"
  using mark_dead[of kind i s kind] by (auto simp: no_ghosts_def distinct_map_filter)

lemma delete_unsorted_ok:
  "no_ghosts rid (dead s kind) xs \<Longrightarrow>
   no_ghosts rid (dead (mark kind i s) kind) (filter (\<lambda>x. rid x \<noteq> i) xs)"
  using mark_dead[of kind i s kind] by (auto simp: no_ghosts_def distinct_map_filter)

end

interpretation vault: tombstones "markDeleted dp lc now at" "clearDeleted lc" tombstone_ids
  by unfold_locales (rule tombstones_clearDeleted, rule tombstones_markDeleted)

subsection \<open>What the tombstones promise\<close>

text \<open>Compacting tombstones keeps at most 256 of them, one per identifier, newest first; each is
  an entry that was there, inside the retention window, and no later deletion of the same record
  is lost in its favour; and compacting again changes nothing.\<close>

theorem compaction_keeps_latest:
  assumes "collation lc"
  shows "length (compactDeletionEntries dp lc now es) \<le> 256 \<and>
    distinct (map d_id (compactDeletionEntries dp lc now es)) \<and>
    sorted_wrt (\<lambda>l r. lc (d_deletedAt r) (d_deletedAt l) \<le> 0) (compactDeletionEntries dp lc now es) \<and>
    set (compactDeletionEntries dp lc now es) \<subseteq>
      {e \<in> set es. retained dp now e \<and>
         (\<forall>f \<in> set es. retained dp now f \<and> d_id f = d_id e \<longrightarrow> d_deletedAt f \<le> d_deletedAt e)} \<and>
    compactDeletionEntries dp lc now (compactDeletionEntries dp lc now es) =
      compactDeletionEntries dp lc now es"
proof (intro conjI subsetI CollectI ballI impI)
  show "distinct (map d_id (compactDeletionEntries dp lc now es))" by (rule compact_distinct)
  fix e assume e: "e \<in> set (compactDeletionEntries dp lc now es)"
  show "e \<in> set es" "retained dp now e" by (rule compact_entry[OF e])+
  fix f assume "f \<in> set es" "retained dp now f \<and> d_id f = d_id e"
  then show "d_deletedAt f \<le> d_deletedAt e" using compact_entry(3)[OF e] by blast
qed (rule compact_length compact_sorted[OF assms] compact_idem[OF assms])+

lemma compaction_keeps_latest_witness:
  "let es = [\<lparr>d_id = ''a'', d_deletedAt = ''1''\<rparr>, \<lparr>d_id = ''b'', d_deletedAt = ''2''\<rparr>,
      \<lparr>d_id = ''a'', d_deletedAt = ''3''\<rparr>];
      out = compactDeletionEntries (\<lambda>s. if s = ''2'' then None else Some 0) code_unit_compare 1 es
   in out = [\<lparr>d_id = ''a'', d_deletedAt = ''3''\<rparr>] \<and> distinct (map d_id out)"
proof -
  let ?es = "[\<lparr>d_id = ''a'', d_deletedAt = ''1''\<rparr>, \<lparr>d_id = ''b'', d_deletedAt = ''2''\<rparr>,
      \<lparr>d_id = ''a'', d_deletedAt = ''3''\<rparr>]"
  have "compactDeletionEntries (\<lambda>s. if s = ''2'' then None else Some 0) code_unit_compare 1 ?es =
      [\<lparr>d_id = ''a'', d_deletedAt = ''3''\<rparr>]" by code_simp
  then show ?thesis
    using compaction_keeps_latest[OF code_units.collation_axioms,
        of "\<lambda>s. if s = ''2'' then None else Some 0" 1 ?es] by (simp add: Let_def)
qed

text \<open>A deletion that is newer than the tombstones already kept is never dropped by the limit on
  their number: right after \<open>markDeleted\<close> its tombstone is there, and the other kinds are as they
  were; \<open>clearDeleted\<close> takes exactly that tombstone away again.\<close>

theorem markDeleted_records_deletion:
  assumes "collation lc" "i \<noteq> []" "at \<noteq> []" "dp at = Some ms" "now - VAULT_TOMBSTONE_RETENTION_MS \<le> ms"
    and "\<And>e. e \<in> set (dm_get k m) \<Longrightarrow> lc (d_deletedAt e) at < 0"
  shows "\<lparr>d_id = i, d_deletedAt = at\<rparr> \<in> set (dm_get k (markDeleted dp lc now at k i m)) \<and>
    tombstone_ids (clearDeleted lc k i (markDeleted dp lc now at k i m)) k =
      tombstone_ids (markDeleted dp lc now at k i m) k - {i} \<and>
    (j = k \<or> dm_get j (markDeleted dp lc now at k i m) = dm_get j m)"
proof -
  have "\<lparr>d_id = i, d_deletedAt = at\<rparr> \<in> set (dm_get k (markDeleted dp lc now at k i m))"
    by (rule markDeleted_marks[of lc i at dp ms now]) (use assms in simp_all)
  then show ?thesis by (simp add: tombstones_clearDeleted) (simp add: markDeleted_def)
qed

lemma markDeleted_records_deletion_witness:
  "\<lparr>d_id = ''h1'', d_deletedAt = ''2''\<rparr> \<in> set (dm_get KHosts (markDeleted (\<lambda>s. Some 7)
      code_unit_compare 8 ''2'' KHosts ''h1'' (emptyDeletionMap\<lparr>dm_hosts := [\<lparr>d_id = ''h0'', d_deletedAt = ''1''\<rparr>]\<rparr>)))"
  by (rule markDeleted_records_deletion[THEN conjunct1, OF code_units.collation_axioms])
     (auto simp: VAULT_TOMBSTONE_RETENTION_MS_def VAULT_TOMBSTONE_RETENTION_DAYS_def code_unit_compare_def)

end
