(* ===== verification/HostsStore.thy ===== *)
theory HostsStore
  imports Utils VaultSync
begin

section \<open>The host inventory (\<open>store/hosts-store.ts\<close>)\<close>

text \<open>
  The state is the list of hosts; actions that touch the tombstones also take and return the
  deletion map of the vault-sync store. \<open>now\<close> is the clock reading of the action
  (\<open>new Date().toISOString()\<close>), \<open>ms\<close> the same instant in milliseconds, \<open>uuid\<close> the identifier
  \<open>crypto.randomUUID()\<close> returns, \<open>lc\<close> is \<open>localeCompare\<close> and \<open>dp\<close> \<open>Date.parse\<close>.
\<close>

record host_filters =
  flt_query :: string
  flt_activeGroup :: string
  flt_activeTag :: string
  flt_favoritesOnly :: bool

subsection \<open>Normalisation\<close>

definition normalizeTags :: "string list \<Rightarrow> string list" where
  "normalizeTags tags = filter (\<lambda>t. trim t \<noteq> [] \<and> \<not> is_favorite_tag t) tags"

text \<open>
  A value of a persisted environment is a string, or something else of which only
  \<open>String(value ?? "")\<close> is used.
\<close>

datatype env_value = Env_String string | Env_Other string

fun env_value_string :: "env_value \<Rightarrow> string" where
  "env_value_string (Env_String s) = s"
| "env_value_string (Env_Other s) = s"

definition normalizeEnvironment :: "env_value obj option \<Rightarrow> string obj" where
  "normalizeEnvironment environment =
     (case environment of
        None \<Rightarrow> []
      | Some env \<Rightarrow> from_entries (filter (\<lambda>(k, v). k \<noteq> [])
          (map (\<lambda>(k, v). (trim k, env_value_string v)) (obj_entries env))))"

text \<open>
  A host as it comes from storage or from an imported file: \<open>r_host\<close> holds the fields that are
  always there, the others may be missing (\<open>None\<close>) and may carry secrets of old versions.
\<close>

record raw_host =
  r_host :: host
  r_protocol :: "host_protocol option"
  r_hostKeyPolicy :: "host_key_policy option"
  r_agentForwarding :: "bool option"
  r_environment :: "env_value obj option"
  r_tags :: "string list option"
  r_sftpRoot :: "string option"
  r_password :: "string option"
  r_passphrase :: "string option"

definition as_raw :: "host \<Rightarrow> raw_host" where
  "as_raw h = \<lparr>r_host = h, r_protocol = Some (h_protocol h),
     r_hostKeyPolicy = Some (h_hostKeyPolicy h), r_agentForwarding = Some (h_agentForwarding h),
     r_environment = Some (map (\<lambda>(k, v). (k, Env_String v)) (h_environment h)),
     r_tags = Some (h_tags h), r_sftpRoot = Some (h_sftpRoot h),
     r_password = None, r_passphrase = None\<rparr>"

definition normalizeHostRecord :: "raw_host \<Rightarrow> host" where
  "normalizeHostRecord r =
     (let protocol = coalesce (r_protocol r) defaultHostProtocol in
      (r_host r)\<lparr>
        h_protocol := protocol,
        h_hostKeyPolicy := coalesce (r_hostKeyPolicy r) defaultHostKeyPolicy,
        h_agentForwarding := coalesce (r_agentForwarding r) False,
        h_environment := normalizeEnvironment (r_environment r),
        h_tags := normalizeTags (coalesce (r_tags r) []),
        h_jumpHostId :=
          (if hostSupportsJumpHosts protocol \<and> truthy (h_jumpHostId (r_host r))
           then h_jumpHostId (r_host r) else None),
        h_sftpRoot :=
          (if hostSupportsSftp protocol \<and> trim (coalesce (r_sftpRoot r) []) \<noteq> []
           then coalesce (r_sftpRoot r) [] else [])\<rparr>)"

definition normalize_host :: "host \<Rightarrow> host" where
  "normalize_host h = normalizeHostRecord (as_raw h)"

subsection \<open>Sorting\<close>

definition activity :: "host \<Rightarrow> string" where
  "activity h = coalesce (h_lastConnectedAt h) []"

definition host_compare :: "(string \<Rightarrow> string \<Rightarrow> int) \<Rightarrow> host \<Rightarrow> host \<Rightarrow> int" where
  "host_compare lc l r =
     (if h_favorite l \<noteq> h_favorite r then (if h_favorite l then -1 else 1)
      else if activity l \<noteq> activity r then lc (activity r) (activity l)
      else lc (h_label l) (h_label r))"

definition sortRawHosts :: "(string \<Rightarrow> string \<Rightarrow> int) \<Rightarrow> raw_host list \<Rightarrow> host list" where
  "sortRawHosts lc hosts = js_sort (host_compare lc) (map normalizeHostRecord hosts)"

definition sortHostCollection :: "(string \<Rightarrow> string \<Rightarrow> int) \<Rightarrow> host list \<Rightarrow> host list" where
  "sortHostCollection lc hosts = js_sort (host_compare lc) (map normalize_host hosts)"

subsection \<open>From the form to a record\<close>

definition createHostRecord :: "string \<Rightarrow> string \<Rightarrow> host_form \<Rightarrow> host option \<Rightarrow> host" where
  "createHostRecord now uuid v cur =
     (let protocol = hf_protocol v;
          supportsCredentials = hostSupportsCredentialPrompt protocol;
          supportsJumpHosts = hostSupportsJumpHosts protocol;
          supportsTrustedKeys = hostSupportsTrustedKeys protocol;
          supportsSftp = hostSupportsSftp protocol
      in \<lparr>
        h_id = (case cur of None \<Rightarrow> uuid | Some h \<Rightarrow> h_id h),
        h_label = trim (hf_label v),
        h_protocol = protocol,
        h_hostname = (if protocol = LocalShell then ''localhost'' else trim (hf_hostname v)),
        h_username =
          (if protocol = LocalShell then or_string (trim (hf_username v)) ''local''
           else if protocolRequiresUsername protocol then trim (hf_username v) else []),
        h_port = or_number (parse_int (hf_port v)) (Finite (protocolDefaultPort protocol)),
        h_authMethod = (if supportsCredentials then hf_authMethod v else AuthNone),
        h_privateKeyPath = (if supportsCredentials then trim (hf_privateKeyPath v) else []),
        h_group = trim (hf_group v),
        h_tags = normalizeTags (splitCommaList (hf_tags v)),
        h_note = trim (hf_note v),
        h_favorite = hf_favorite v,
        h_keyLabel = (if supportsCredentials then trim (hf_keyLabel v) else []),
        h_hostKeyPolicy = (if supportsTrustedKeys then hf_hostKeyPolicy v else defaultHostKeyPolicy),
        h_agentForwarding = (if supportsCredentials then hf_agentForwarding v else False),
        h_environment = parseEnvironmentVariables (hf_environment v),
        h_jumpHostId = (if supportsJumpHosts then some_if_nonempty (hf_jumpHostId v) else None),
        h_sftpRoot = (if supportsSftp then or_string (trim (hf_sftpRoot v)) ''/home'' else []),
        h_snippetCount = (case cur of None \<Rightarrow> 0 | Some h \<Rightarrow> h_snippetCount h),
        h_forwardingCount = (case cur of None \<Rightarrow> 0 | Some h \<Rightarrow> h_forwardingCount h),
        h_createdAt = (case cur of None \<Rightarrow> now | Some h \<Rightarrow> h_createdAt h),
        h_updatedAt = now,
        h_lastConnectedAt = (case cur of None \<Rightarrow> None | Some h \<Rightarrow> h_lastConnectedAt h),
        h_identityId =
          (if trim (hf_identityId v) \<noteq> [] then Some (trim (hf_identityId v))
           else case cur of None \<Rightarrow> None | Some h \<Rightarrow> h_identityId h) \<rparr>)"

subsection \<open>Operations on a collection\<close>

definition upsertHostCollection ::
    "(string \<Rightarrow> string \<Rightarrow> int) \<Rightarrow> string \<Rightarrow> string \<Rightarrow> host list \<Rightarrow> host_form \<Rightarrow> string option \<Rightarrow> host list" where
  "upsertHostCollection lc now uuid hosts v hostId =
     (if \<not> truthy hostId then sortHostCollection lc (hosts @ [createHostRecord now uuid v None])
      else sortHostCollection lc
        (map_where (\<lambda>h. Some (h_id h) = hostId) (\<lambda>h. createHostRecord now uuid v (Some h)) hosts))"

definition deleteHostFromCollection ::
    "(string \<Rightarrow> string \<Rightarrow> int) \<Rightarrow> host list \<Rightarrow> string \<Rightarrow> host list" where
  "deleteHostFromCollection lc hosts hostId =
     sortHostCollection lc (filter (\<lambda>h. h_id h \<noteq> hostId) hosts)"

definition toggleHostFavoriteInCollection ::
    "(string \<Rightarrow> string \<Rightarrow> int) \<Rightarrow> string \<Rightarrow> host list \<Rightarrow> string \<Rightarrow> host list" where
  "toggleHostFavoriteInCollection lc now hosts hostId =
     sortHostCollection lc (map_where (\<lambda>h. h_id h = hostId)
       (\<lambda>h. h\<lparr>h_favorite := \<not> h_favorite h, h_updatedAt := now\<rparr>) hosts)"

definition markHostConnectedInCollection ::
    "(string \<Rightarrow> string \<Rightarrow> int) \<Rightarrow> string \<Rightarrow> host list \<Rightarrow> string \<Rightarrow> host list" where
  "markHostConnectedInCollection lc now hosts hostId =
     sortHostCollection lc (map_where (\<lambda>h. h_id h = hostId)
       (\<lambda>h. h\<lparr>h_lastConnectedAt := Some now\<rparr>) hosts)"

definition assignKeyInCollection ::
    "(string \<Rightarrow> string \<Rightarrow> int) \<Rightarrow> string \<Rightarrow> host list \<Rightarrow> string \<Rightarrow> string \<Rightarrow> string \<Rightarrow> host list" where
  "assignKeyInCollection lc now hosts hostId label path =
     sortHostCollection lc (map_where (\<lambda>h. h_id h = hostId)
       (\<lambda>h. h\<lparr>h_authMethod := AuthPrivateKey, h_keyLabel := label, h_privateKeyPath := path,
              h_protocol := h_protocol h, h_updatedAt := now\<rparr>) hosts)"

definition clearKeyInCollection ::
    "(string \<Rightarrow> string \<Rightarrow> int) \<Rightarrow> string \<Rightarrow> host list \<Rightarrow> string \<Rightarrow> host list" where
  "clearKeyInCollection lc now hosts path =
     sortHostCollection lc (map_where (\<lambda>h. h_privateKeyPath h = path)
       (\<lambda>h. h\<lparr>h_keyLabel := [], h_privateKeyPath := [], h_updatedAt := now\<rparr>) hosts)"

definition collectHostGroups :: "(string \<Rightarrow> string \<Rightarrow> int) \<Rightarrow> host list \<Rightarrow> string list" where
  "collectHostGroups lc hosts = js_sort lc (dedup (filter (\<lambda>g. g \<noteq> []) (map h_group hosts)))"

definition collectHostTags :: "(string \<Rightarrow> string \<Rightarrow> int) \<Rightarrow> host list \<Rightarrow> string list" where
  "collectHostTags lc hosts = js_sort lc (dedup (concat (map h_tags hosts)))"

definition host_matches :: "host_filters \<Rightarrow> host \<Rightarrow> bool" where
  "host_matches f h =
     (let q = lower (trim (flt_query f)) in
      if flt_favoritesOnly f \<and> \<not> h_favorite h then False
      else if flt_activeGroup f \<noteq> ''all'' \<and> h_group h \<noteq> flt_activeGroup f then False
      else if flt_activeTag f \<noteq> ''all'' \<and> flt_activeTag f \<notin> set (h_tags h) then False
      else if q = [] then True
      else contains q (buildHostSearchText h))"

definition applyHostFilters ::
    "(string \<Rightarrow> string \<Rightarrow> int) \<Rightarrow> host list \<Rightarrow> host_filters \<Rightarrow> host list" where
  "applyHostFilters lc hosts f = sortHostCollection lc (filter (host_matches f) hosts)"

subsection \<open>The store's actions\<close>

type_synonym hosts_world = "host list \<times> deletion_map"

definition hosts_initial :: "(string \<Rightarrow> string \<Rightarrow> int) \<Rightarrow> host list" where
  "hosts_initial lc = sortHostCollection lc sampleHosts"

definition createHost ::
    "(string \<Rightarrow> string \<Rightarrow> int) \<Rightarrow> string \<Rightarrow> string \<Rightarrow> host_form \<Rightarrow> hosts_world \<Rightarrow> string \<times> hosts_world" where
  "createHost lc now uuid v w = (case w of (hosts, vault) \<Rightarrow>
     let host = createHostRecord now uuid v None in
     (h_id host, sortHostCollection lc (hosts @ [host]), clearDeleted lc KHosts (h_id host) vault))"

definition updateHost ::
    "(string \<Rightarrow> string \<Rightarrow> int) \<Rightarrow> string \<Rightarrow> string \<Rightarrow> string \<Rightarrow> host_form \<Rightarrow> hosts_world \<Rightarrow>
     string \<times> hosts_world" where
  "updateHost lc now uuid hostId v w = (case w of (hosts, vault) \<Rightarrow>
     (hostId, upsertHostCollection lc now uuid hosts v (Some hostId),
      clearDeleted lc KHosts hostId vault))"

definition deleteHost ::
    "(string \<Rightarrow> int option) \<Rightarrow> (string \<Rightarrow> string \<Rightarrow> int) \<Rightarrow> int \<Rightarrow> string \<Rightarrow> string \<Rightarrow> hosts_world \<Rightarrow>
     hosts_world" where
  "deleteHost dp lc ms now hostId w = (case w of (hosts, vault) \<Rightarrow>
     (deleteHostFromCollection lc hosts hostId, markDeleted dp lc ms now KHosts hostId vault))"

definition setSnippetCounts ::
    "(string \<Rightarrow> string \<Rightarrow> int) \<Rightarrow> int obj \<Rightarrow> host list \<Rightarrow> host list" where
  "setSnippetCounts lc counts hosts =
     sortHostCollection lc
       (map (\<lambda>h. h\<lparr>h_snippetCount := coalesce (obj_get counts (h_id h)) 0\<rparr>) hosts)"

text \<open>The two group actions return how many hosts they touched, and no state when they refuse.\<close>

definition set_group ::
    "(string \<Rightarrow> string \<Rightarrow> int) \<Rightarrow> string \<Rightarrow> string \<Rightarrow> string \<Rightarrow> host list \<Rightarrow> nat \<times> host list" where
  "set_group lc now old new hosts =
     (length (filter (\<lambda>h. h_group h = old) hosts),
      sortHostCollection lc (map_where (\<lambda>h. h_group h = old)
        (\<lambda>h. h\<lparr>h_group := new, h_updatedAt := now\<rparr>) hosts))"

definition renameGroup ::
    "(string \<Rightarrow> string \<Rightarrow> int) \<Rightarrow> string \<Rightarrow> string \<Rightarrow> string \<Rightarrow> host list \<Rightarrow> nat \<times> host list" where
  "renameGroup lc now oldName newName hosts =
     (let old = trim oldName; new = trim newName in
      if old = [] \<or> old = new then (0, hosts) else set_group lc now old new hosts)"

definition removeGroup ::
    "(string \<Rightarrow> string \<Rightarrow> int) \<Rightarrow> string \<Rightarrow> string \<Rightarrow> host list \<Rightarrow> nat \<times> host list" where
  "removeGroup lc now groupName hosts =
     (let name = trim groupName in
      if name = [] then (0, hosts) else set_group lc now name [] hosts)"

definition ensureLocalShellHost ::
    "(string \<Rightarrow> string \<Rightarrow> int) \<Rightarrow> string \<Rightarrow> hosts_world \<Rightarrow> host \<times> hosts_world" where
  "ensureLocalShellHost lc now w = (case w of (hosts, vault) \<Rightarrow>
     (case List.find (\<lambda>h. h_id h = LOCAL_SHELL_HOST_ID) hosts of
        Some existing \<Rightarrow> (existing, hosts, vault)
      | None \<Rightarrow>
          let fresh = createLocalShellHostRecord now in
          (fresh, sortHostCollection lc (hosts @ [fresh]), clearDeleted lc KHosts (h_id fresh) vault)))"

definition loadSampleData :: "(string \<Rightarrow> string \<Rightarrow> int) \<Rightarrow> hosts_world \<Rightarrow> hosts_world" where
  "loadSampleData lc w = (case w of (hosts, vault) \<Rightarrow>
     let fresh = sortHostCollection lc sampleHosts in
     (fresh, fold (\<lambda>h m. clearDeleted lc KHosts (h_id h) m) fresh vault))"

text \<open>\<open>migrate\<close> and \<open>merge\<close>: what is read back from storage, if there is anything.\<close>

definition hosts_migrate ::
    "(string \<Rightarrow> string \<Rightarrow> int) \<Rightarrow> raw_host list option \<Rightarrow> host list" where
  "hosts_migrate lc persisted = sortRawHosts lc (coalesce persisted (map as_raw sampleHosts))"

definition hosts_merge ::
    "(string \<Rightarrow> string \<Rightarrow> int) \<Rightarrow> raw_host list option \<Rightarrow> host list \<Rightarrow> host list" where
  "hosts_merge lc persisted current = sortRawHosts lc (coalesce persisted (map as_raw current))"

subsection \<open>Normalisation and order\<close>

lemma normalize_host_fields [simp]:
  "h_id (normalize_host h) = h_id h" "h_favorite (normalize_host h) = h_favorite h"
  "activity (normalize_host h) = activity h" "h_label (normalize_host h) = h_label h"
  "h_lastConnectedAt (normalize_host h) = h_lastConnectedAt h"
  "h_group (normalize_host h) = h_group h" "h_updatedAt (normalize_host h) = h_updatedAt h"
  "h_protocol (normalize_host h) = h_protocol h" "h_identityId (normalize_host h) = h_identityId h"
  "h_privateKeyPath (normalize_host h) = h_privateKeyPath h"
  by (simp_all add: normalize_host_def normalizeHostRecord_def as_raw_def activity_def Let_def)

lemma normalizeTags_idem [simp]: "normalizeTags (normalizeTags ts) = normalizeTags ts"
  by (simp add: normalizeTags_def)

definition normal_environment :: "string obj \<Rightarrow> string obj" where
  "normal_environment env =
     from_entries (filter (\<lambda>(k, v). k \<noteq> []) (map (\<lambda>(k, v). (trim k, v)) (obj_entries env)))"

lemma obj_entries_map_values:
  "obj_entries (map (\<lambda>(k, v). (k, f v)) m) = map (\<lambda>(k, v). (k, f v)) (obj_entries m)"
proof -
  have "sort_key (\<lambda>e. nat_of_digits (fst e)) (map (\<lambda>(k, v). (k, f v)) es) =
    map (\<lambda>(k, v). (k, f v)) (sort_key (\<lambda>e. nat_of_digits (fst e)) es)" for es
  proof (induction es)
    case (Cons e es)
    have "insort_key (\<lambda>e. nat_of_digits (fst e)) ((\<lambda>(k, v). (k, f v)) e) (map (\<lambda>(k, v). (k, f v)) xs) =
      map (\<lambda>(k, v). (k, f v)) (insort_key (\<lambda>e. nat_of_digits (fst e)) e xs)" for xs
      by (induction xs) (auto split: prod.splits)
    with Cons show ?case by simp
  qed simp
  then show ?thesis by (simp add: obj_entries_def filter_map comp_def case_prod_beta)
qed

lemma normalizeEnvironment_typed:
  "normalizeEnvironment (Some (map (\<lambda>(k, v). (k, Env_String v)) env)) = normal_environment env"
proof -
  have "map (\<lambda>(k, v). (trim k, env_value_string v)) (obj_entries (map (\<lambda>(k, v). (k, Env_String v)) env)) =
    map (\<lambda>(k, v). (trim k, v)) (obj_entries env)"
    unfolding obj_entries_map_values map_map by (rule map_cong) (auto simp: comp_def)
  then show ?thesis by (simp only: normalizeEnvironment_def normal_environment_def option.case)
qed

lemma normalize_host_eq:
  "normalize_host h = h\<lparr>
     h_environment := normal_environment (h_environment h),
     h_tags := normalizeTags (h_tags h),
     h_jumpHostId := (if hostSupportsJumpHosts (h_protocol h) \<and> truthy (h_jumpHostId h)
                      then h_jumpHostId h else None),
     h_sftpRoot := (if hostSupportsSftp (h_protocol h) \<and> trim (h_sftpRoot h) \<noteq> []
                    then h_sftpRoot h else [])\<rparr>"
  by (simp add: normalize_host_def normalizeHostRecord_def as_raw_def Let_def normalizeEnvironment_typed)

lemma map_normalize_as_raw: "map normalizeHostRecord (map as_raw hs) = map normalize_host hs"
  by (simp add: normalize_host_def comp_def)

lemma sortRawHosts_typed: "sortRawHosts lc (map as_raw hs) = sortHostCollection lc hs"
  by (simp only: sortRawHosts_def sortHostCollection_def map_normalize_as_raw)

lemma sortHosts_set [simp]: "set (sortHostCollection lc hs) = normalize_host ` set hs"
  by (simp add: sortHostCollection_def)

lemma sortHosts_length [simp]: "length (sortHostCollection lc hs) = length hs"
  by (simp add: sortHostCollection_def)

lemma sortHosts_ids: "mset (map h_id (sortHostCollection lc hs)) = mset (map h_id hs)"
  by (simp add: sortHostCollection_def comp_def flip: mset_map)

text \<open>The comparison is three comparisons one after the other.\<close>

definition favorite_compare :: "host \<Rightarrow> host \<Rightarrow> int" where
  "favorite_compare l r = (if h_favorite r then 1 else 0) - (if h_favorite l then 1 else 0)"

definition activity_compare :: "(string \<Rightarrow> string \<Rightarrow> int) \<Rightarrow> host \<Rightarrow> host \<Rightarrow> int" where
  "activity_compare lc l r = lc (activity r) (activity l)"

lemma favorite_order: "cmp_order S favorite_compare"
  by unfold_locales (simp_all add: favorite_compare_def split: if_splits)

lemma activity_order: "collation lc \<Longrightarrow> cmp_order S (activity_compare lc)"
  unfolding activity_compare_def
  by (rule cmp_order_flip, rule cmp_order_key, erule collation.axioms(1), simp)

lemma label_order: "collation lc \<Longrightarrow> cmp_order S (\<lambda>l r. lc (h_label l) (h_label r))"
  by (rule cmp_order_key, erule collation.axioms(1), simp)

lemma host_compare_chain:
  assumes "collation lc" "tells_apart lc A" "activity l \<in> A" "activity r \<in> A"
  shows "host_compare lc l r = (if favorite_compare l r \<noteq> 0 then favorite_compare l r
    else if activity_compare lc l r \<noteq> 0 then activity_compare lc l r else lc (h_label l) (h_label r))"
proof -
  have "activity_compare lc l r = 0 \<longleftrightarrow> activity l = activity r"
    using cmp_order.refl[OF collation.axioms(1)[OF assms(1)], of "activity l"]
      tells_apartD[OF assms(2,4,3)] by (auto simp: activity_compare_def)
  moreover have "lc (activity r) (activity l) = activity_compare lc l r"
    by (simp add: activity_compare_def)
  ultimately show ?thesis by (simp add: host_compare_def favorite_compare_def)
qed

lemma host_order:
  assumes "collation lc" "tells_apart lc A"
  shows "cmp_order {h. activity h \<in> A} (host_compare lc)"
  by (rule cmp_order_cong[OF cmp_order_then[OF favorite_order
        cmp_order_then[OF activity_order[OF assms(1)] label_order[OF assms(1)]]]])
    (rule host_compare_chain[OF assms], simp_all)

lemma host_compare_normalize [simp]:
  "host_compare lc (normalize_host x) (normalize_host y) = host_compare lc x y"
  by (simp add: host_compare_def)

lemma sortHosts_sorted:
  assumes "collation lc" "tells_apart lc (activity ` set hs)"
  shows "sorted_cmp (host_compare lc) (sortHostCollection lc hs)"
  unfolding sortHostCollection_def
  by (rule cmp_order.sorted_js_sort[OF host_order[OF assms]]) auto

interpretation hosts: record_store h_id "sortHostCollection lc" for lc
  by unfold_locales (rule sortHosts_ids)

interpretation hosts_vault: tombstoned_store h_id "sortHostCollection lc"
    "markDeleted dp lc ms now" "clearDeleted lc" tombstone_ids KHosts
  for lc dp ms now
  by unfold_locales

subsection \<open>Live hosts never have a tombstone\<close>

abbreviation hosts_ok :: "hosts_world \<Rightarrow> bool" where
  "hosts_ok w \<equiv> no_ghosts h_id (tombstone_ids (snd w) KHosts) (fst w)"

lemma h_id_createHostRecord [simp]:
  "h_id (createHostRecord now uuid v None) = uuid"
  "h_id (createHostRecord now uuid v (Some h)) = h_id h"
  by (simp_all add: createHostRecord_def Let_def)

lemma createHost_ok:
  "hosts_ok w \<Longrightarrow> uuid \<notin> h_id ` set (fst w) \<Longrightarrow> hosts_ok (snd (createHost lc now uuid v w))"
  using hosts_vault.add_ok[of "snd w" "fst w" "createHostRecord now uuid v None" lc]
  by (cases w) (simp add: createHost_def Let_def)

lemma updateHost_ok:
  assumes "hosts_ok w" "hostId \<noteq> []"
  shows "hosts_ok (snd (updateHost lc now uuid hostId v w))"
proof -
  obtain hs m where w: "w = (hs, m)" by (cases w)
  let ?f = "\<lambda>h. createHostRecord now uuid v (Some h)"
  have "no_ghosts h_id (tombstone_ids m KHosts)
      (sortHostCollection lc (map_where (\<lambda>h. Some (h_id h) = Some hostId) ?f hs))"
    using assms(1) by (intro hosts_vault.update_ok) (simp_all add: w)
  then show ?thesis
    using assms(2) hosts_vault.clear_ok[of m _ lc hostId]
    by (simp add: updateHost_def w upsertHostCollection_def)
qed

lemma deleteHost_ok: "hosts_ok w \<Longrightarrow> hosts_ok (deleteHost dp lc ms now hostId w)"
  using hosts_vault.delete_ok[of "snd w" "fst w" dp lc ms now hostId]
  by (cases w) (simp add: deleteHost_def deleteHostFromCollection_def)

lemma local_shell_id [simp]: "h_id (createLocalShellHostRecord now) = LOCAL_SHELL_HOST_ID"
  by (simp add: createLocalShellHostRecord_def)

lemma ensureLocalShellHost_ok:
  "hosts_ok w \<Longrightarrow> hosts_ok (snd (ensureLocalShellHost lc now w))"
proof (cases "List.find (\<lambda>h. h_id h = LOCAL_SHELL_HOST_ID) (fst w)")
  case None
  then have "LOCAL_SHELL_HOST_ID \<notin> h_id ` set (fst w)" by (auto simp: find_None_set)
  moreover assume "hosts_ok w"
  ultimately show ?thesis
    using None hosts_vault.add_ok[of "snd w" "fst w" "createLocalShellHostRecord now" lc]
    by (cases w) (simp add: ensureLocalShellHost_def Let_def)
qed (cases w, simp add: ensureLocalShellHost_def)

lemma fold_clear_tombstones:
  "tombstone_ids (fold (\<lambda>h m. clearDeleted lc KHosts (h_id h) m) hs m) j =
   (if j = KHosts then tombstone_ids m j - h_id ` set hs else tombstone_ids m j)"
  by (induction hs arbitrary: m) (auto simp: vault.clear_dead)

lemma loadSampleData_ok: "hosts_ok (loadSampleData lc w)"
proof -
  have "distinct (map h_id (sortHostCollection lc sampleHosts))"
    unfolding hosts.srt_distinct sampleHosts_ids by simp
  then show ?thesis
    by (cases w) (auto simp: loadSampleData_def Let_def no_ghosts_def fold_clear_tombstones)
qed

lemma map_as_map_where: "map f xs = map_where (\<lambda>_. True) f xs"
  by (simp add: map_where_def)

text \<open>The actions that only change hosts in place.\<close>

lemmas in_place_defs = toggleHostFavoriteInCollection_def markHostConnectedInCollection_def
  assignKeyInCollection_def clearKeyInCollection_def set_group_def

lemma in_place_ok:
  assumes "no_ghosts h_id D hs"
  shows "no_ghosts h_id D (toggleHostFavoriteInCollection lc now hs i)"
    "no_ghosts h_id D (markHostConnectedInCollection lc now hs i)"
    "no_ghosts h_id D (assignKeyInCollection lc now hs i label path)"
    "no_ghosts h_id D (clearKeyInCollection lc now hs path)"
    "no_ghosts h_id D (snd (renameGroup lc now old new hs))"
    "no_ghosts h_id D (snd (removeGroup lc now old hs))"
    "no_ghosts h_id D (setSnippetCounts lc counts hs)"
  unfolding in_place_defs renameGroup_def removeGroup_def setSnippetCounts_def Let_def map_as_map_where
  using assms by (auto intro!: hosts_vault.update_ok)


subsection \<open>A host and its form\<close>

text \<open>
  \<open>host_editable\<close> says that a record is one the editor can show and save without loss: every field
  is what \<open>createHostRecord\<close> makes of the form's text.
\<close>

definition port_editable :: "host_protocol \<Rightarrow> int number \<Rightarrow> bool" where
  "port_editable p n \<longleftrightarrow>
     (case n of Finite i \<Rightarrow> safe_integer i \<and> (i = 0 \<longrightarrow> protocolDefaultPort p = 0) | _ \<Rightarrow> False)"

definition credentials_editable :: "host \<Rightarrow> bool" where
  "credentials_editable h \<longleftrightarrow>
     (if hostSupportsCredentialPrompt (h_protocol h)
      then trimmed (h_privateKeyPath h) \<and> trimmed (h_keyLabel h)
      else h_authMethod h = AuthNone \<and> h_privateKeyPath h = [] \<and> h_keyLabel h = [] \<and>
        \<not> h_agentForwarding h) \<and>
     (hostSupportsTrustedKeys (h_protocol h) \<or> h_hostKeyPolicy h = defaultHostKeyPolicy)"

definition address_editable :: "host \<Rightarrow> bool" where
  "address_editable h \<longleftrightarrow>
     (if h_protocol h = LocalShell then h_hostname h = ''localhost'' else trimmed (h_hostname h)) \<and>
     trimmed (h_username h) \<and>
     (if h_protocol h = LocalShell then h_username h \<noteq> []
      else protocolRequiresUsername (h_protocol h) \<or> h_username h = []) \<and>
     port_editable (h_protocol h) (h_port h)"

definition extras_editable :: "host \<Rightarrow> bool" where
  "extras_editable h \<longleftrightarrow>
     (if hostSupportsJumpHosts (h_protocol h) then h_jumpHostId h \<noteq> Some [] else h_jumpHostId h = None) \<and>
     (if hostSupportsSftp (h_protocol h) then h_sftpRoot h \<noteq> [] \<and> trimmed (h_sftpRoot h)
      else h_sftpRoot h = []) \<and>
     (case h_identityId h of None \<Rightarrow> True | Some i \<Rightarrow> i \<noteq> [] \<and> trimmed i)"

definition texts_editable :: "host \<Rightarrow> bool" where
  "texts_editable h \<longleftrightarrow>
     trimmed (h_label h) \<and> trimmed (h_group h) \<and> trimmed (h_note h) \<and>
     distinct (h_tags h) \<and> list_all (\<lambda>t. tag_ok t \<and> \<not> is_favorite_tag t) (h_tags h) \<and>
     obj_wf (h_environment h) \<and> list_all env_entry_ok (h_environment h)"

definition host_editable :: "host \<Rightarrow> bool" where
  "host_editable h \<longleftrightarrow>
     address_editable h \<and> credentials_editable h \<and> extras_editable h \<and> texts_editable h"

definition form_plain :: "host_form \<Rightarrow> bool" where
  "form_plain v \<longleftrightarrow>
     (case parse_int (hf_port v) of NaN \<Rightarrow> True | Finite i \<Rightarrow> safe_integer i | Infinite _ \<Rightarrow> False) \<and>
     list_all (\<lambda>(k, _). \<not> array_index k) (parseEnvironmentVariables (hf_environment v))"

lemma port_roundtrip:
  "port_editable p n \<Longrightarrow> or_number (parse_int (show_number n)) (Finite (protocolDefaultPort p)) = n"
  by (cases n) (auto simp: port_editable_def parse_int_show_int or_number_def)

lemma form_port_editable:
  "form_plain v \<Longrightarrow> port_editable p (or_number (parse_int (hf_port v)) (Finite (protocolDefaultPort p)))"
  by (cases p; cases "parse_int (hf_port v)")
     (auto simp: form_plain_def port_editable_def or_number_def safe_integer_def)

lemma normalizeTags_plain:
  "list_all (\<lambda>t. tag_ok t \<and> \<not> is_favorite_tag t) ts \<Longrightarrow> normalizeTags ts = ts"
  by (auto simp: normalizeTags_def filter_id_conv list_all_iff tag_ok_def trim_trimmed_id)

lemma tags_roundtrip:
  assumes "distinct ts" "list_all (\<lambda>t. tag_ok t \<and> \<not> is_favorite_tag t) ts"
  shows "normalizeTags (splitCommaList (join '', '' (filter (\<lambda>tag. \<not> is_favorite_tag tag) ts))) = ts"
proof -
  have "filter (\<lambda>tag. \<not> is_favorite_tag tag) ts = ts"
    using assms(2) by (auto simp: filter_id_conv list_all_iff)
  moreover have "splitCommaList (join '', '' ts) = ts"
    using assms by (intro splitCommaList_join) (auto simp: list_all_iff)
  ultimately show ?thesis using normalizeTags_plain[OF assms(2)] by simp
qed

lemma environment_roundtrip:
  "obj_wf env \<Longrightarrow> list_all env_entry_ok env \<Longrightarrow>
   parseEnvironmentVariables (format_environment env) = env"
  unfolding format_environment_same
  by (rule parse_format_environment) (simp_all add: list_all_iff)

lemma edit_unchanged:
  assumes "host_editable h"
  shows "createHostRecord now uuid (hostToFormValues h) (Some h) = h\<lparr>h_updatedAt := now\<rparr>"
proof (rule host.equality)
  note addr = assms[unfolded host_editable_def address_editable_def, THEN conjunct1]
  note cred = assms[unfolded host_editable_def credentials_editable_def, THEN conjunct2, THEN conjunct1]
  note extra = assms[unfolded host_editable_def extras_editable_def, THEN conjunct2, THEN conjunct2,
      THEN conjunct1]
  note texts = assms[unfolded host_editable_def texts_editable_def, THEN conjunct2, THEN conjunct2,
      THEN conjunct2]
  let ?g = "createHostRecord now uuid (hostToFormValues h) (Some h)" and ?h = "h\<lparr>h_updatedAt := now\<rparr>"
  note d = createHostRecord_def hostToFormValues_def Let_def
  show "h_port ?g = h_port ?h" using addr by (simp add: d port_roundtrip)
  show "h_tags ?g = h_tags ?h" using texts by (simp add: d tags_roundtrip)
  show "h_environment ?g = h_environment ?h" using texts by (simp add: d environment_roundtrip)
  show "h_jumpHostId ?g = h_jumpHostId ?h"
    using extra by (cases "h_jumpHostId h") (auto simp: d some_if_nonempty_def split: if_splits)
  show "h_identityId ?g = h_identityId ?h"
    using extra by (cases "h_identityId h") (auto simp: d trim_trimmed_id)
  show "h_sftpRoot ?g = h_sftpRoot ?h"
    using extra by (auto simp: d trim_trimmed_id or_string_def split: if_splits)
  show "h_hostname ?g = h_hostname ?h" using addr by (auto simp: d trim_trimmed_id)
  show "h_username ?g = h_username ?h"
    using addr by (auto simp: d trim_trimmed_id or_string_def split: if_splits)
  show "h_authMethod ?g = h_authMethod ?h" using cred by (auto simp: d split: if_splits)
  show "h_privateKeyPath ?g = h_privateKeyPath ?h"
    using cred by (auto simp: d trim_trimmed_id split: if_splits)
  show "h_keyLabel ?g = h_keyLabel ?h" using cred by (auto simp: d trim_trimmed_id split: if_splits)
  show "h_hostKeyPolicy ?g = h_hostKeyPolicy ?h" using cred by (auto simp: d split: if_splits)
  show "h_agentForwarding ?g = h_agentForwarding ?h" using cred by (auto simp: d split: if_splits)
  show "h_label ?g = h_label ?h" "h_group ?g = h_group ?h" "h_note ?g = h_note ?h"
    using texts by (auto simp: d trim_trimmed_id)
qed (simp_all add: createHostRecord_def hostToFormValues_def Let_def)

lemma trimmed_or_string: "trimmed d \<Longrightarrow> trimmed (or_string (trim s) d)"
  by (simp add: or_string_def)

lemma splitCommaList_ok: "list_all (\<lambda>t. tag_ok t \<and> \<not> is_favorite_tag t) (normalizeTags (splitCommaList s))"
  using splitCommaList_tags[of _ s] by (auto simp: list_all_iff normalizeTags_def tag_ok_def)

lemma parsed_environment_ok:
  "list_all (\<lambda>(k, _). \<not> array_index k) (parseEnvironmentVariables s) \<Longrightarrow>
   list_all env_entry_ok (parseEnvironmentVariables s)"
  using parseEnvironment_entries[of _ _ s] by (fastforce simp: list_all_iff)

lemma new_host_editable:
  assumes "form_plain v"
  shows "host_editable (createHostRecord now uuid v None)"
proof -
  let ?h = "createHostRecord now uuid v None"
  note d = createHostRecord_def Let_def
  have "trimmed ''localhost''" "trimmed ''local''" "trimmed ''/home''" "trimmed []"
    by (simp_all add: trimmed_def is_space_def)
  note tr = this trimmed_or_string[OF this(2)] trimmed_or_string[OF this(3)]
  have "address_editable ?h"
    using form_port_editable[OF assms] tr by (auto simp: address_editable_def d or_string_def)
  moreover have "credentials_editable ?h"
    by (auto simp: credentials_editable_def d)
  moreover have "extras_editable ?h"
    using tr by (auto simp: extras_editable_def d or_string_def some_if_nonempty_def)
  moreover have "texts_editable ?h"
    using assms parsed_environment_ok splitCommaList_ok
    by (simp add: texts_editable_def d form_plain_def normalizeTags_def)
  ultimately show ?thesis by (simp add: host_editable_def)
qed


subsection \<open>The store as a state machine\<close>

text \<open>
  One step is one action of the store. \<open>crypto.randomUUID()\<close> is fresh: it names no host of the
  list and no tombstone. An update with the empty identifier is a creation, as in the code.
\<close>

inductive hosts_step ::
    "(string \<Rightarrow> int option) \<Rightarrow> (string \<Rightarrow> string \<Rightarrow> int) \<Rightarrow> hosts_world \<Rightarrow> hosts_world \<Rightarrow> bool"
  for dp lc where
  create: "uuid \<notin> h_id ` set (fst w) \<Longrightarrow> hosts_step dp lc w (snd (createHost lc now uuid v w))"
| update: "hostId \<noteq> [] \<or> uuid \<notin> h_id ` set (fst w) \<union> tombstone_ids (snd w) KHosts \<Longrightarrow>
    hosts_step dp lc w (snd (updateHost lc now uuid hostId v w))"
| delete: "hosts_step dp lc w (deleteHost dp lc ms now hostId w)"
| favorite: "hosts_step dp lc (hs, m) (toggleHostFavoriteInCollection lc now hs hostId, m)"
| connected: "hosts_step dp lc (hs, m) (markHostConnectedInCollection lc now hs hostId, m)"
| snippets: "hosts_step dp lc (hs, m) (setSnippetCounts lc counts hs, m)"
| assign_key: "hosts_step dp lc (hs, m) (assignKeyInCollection lc now hs hostId label path, m)"
| clear_key: "hosts_step dp lc (hs, m) (clearKeyInCollection lc now hs path, m)"
| rename_group: "hosts_step dp lc (hs, m) (snd (renameGroup lc now old new hs), m)"
| remove_group: "hosts_step dp lc (hs, m) (snd (removeGroup lc now old hs), m)"
| local_shell: "hosts_step dp lc w (snd (ensureLocalShellHost lc now w))"
| sample_data: "hosts_step dp lc w (loadSampleData lc w)"

inductive_cases hosts_stepE: "hosts_step dp lc w w'"

lemma updateHost_empty_ok:
  assumes "hosts_ok w" "uuid \<notin> h_id ` set (fst w) \<union> tombstone_ids (snd w) KHosts"
  shows "hosts_ok (snd (updateHost lc now uuid [] v w))"
  using assms
  by (cases w) (auto simp: updateHost_def upsertHostCollection_def no_ghosts_def vault.clear_dead)

lemma hosts_step_ok: "hosts_step dp lc w w' \<Longrightarrow> hosts_ok w \<Longrightarrow> hosts_ok w'"
proof (induction rule: hosts_step.induct)
  case (update hostId uuid w now v)
  then show ?case
    by (cases "hostId = []") (simp_all add: updateHost_ok updateHost_empty_ok)
qed (simp_all add: createHost_ok deleteHost_ok in_place_ok ensureLocalShellHost_ok loadSampleData_ok)

text \<open>C38: Whatever actions the host store performs, the identifiers of its hosts stay distinct and
  no host that is shown has a tombstone, so that a synchronisation never deletes a live host.\<close>

theorem hosts_never_ghosts:
  assumes "no_ghosts h_id (tombstone_ids (snd w) KHosts) (fst w)" "(hosts_step dp lc)\<^sup>*\<^sup>* w w'"
  shows "no_ghosts h_id (tombstone_ids (snd w') KHosts) (fst w')"
  using assms(2,1) by (induction rule: rtranclp_induct) (auto intro: hosts_step_ok)

lemma hosts_never_ghosts_witness:
  "no_ghosts h_id
     (tombstone_ids (snd (deleteHost Map.empty code_unit_compare 5 ''t2'' ''local-shell''
       (snd (ensureLocalShellHost code_unit_compare ''t1'' ([], emptyDeletionMap))))) KHosts)
     (fst (deleteHost Map.empty code_unit_compare 5 ''t2'' ''local-shell''
       (snd (ensureLocalShellHost code_unit_compare ''t1'' ([], emptyDeletionMap)))))"
proof (rule hosts_never_ghosts)
  show "no_ghosts h_id (tombstone_ids (snd ([], emptyDeletionMap)) KHosts) (fst ([], emptyDeletionMap))"
    by (simp add: no_ghosts_def)
  show "(hosts_step Map.empty code_unit_compare)\<^sup>*\<^sup>* ([], emptyDeletionMap)
      (deleteHost Map.empty code_unit_compare 5 ''t2'' ''local-shell''
       (snd (ensureLocalShellHost code_unit_compare ''t1'' ([], emptyDeletionMap))))"
    by (rule rtranclp.rtrancl_into_rtrancl[OF r_into_rtranclp]) (rule hosts_step.local_shell,
        rule hosts_step.delete)
qed

text \<open>A host made from a form can be opened in the editor and saved again without a change:
  only the time stamp of the update moves.\<close>

theorem saved_host_edits_unchanged:
  assumes "form_plain v" "h = createHostRecord now uuid v None"
  shows "createHostRecord now' uuid' (hostToFormValues h) (Some h) = h\<lparr>h_updatedAt := now'\<rparr>"
  using new_host_editable[OF assms(1)] edit_unchanged assms(2) by blast

lemma saved_host_edits_unchanged_witness:
  "let h = createHostRecord ''t1'' ''u'' (emptyHostFormValues\<lparr>hf_tags := '' db,, Favorite, eu '',
      hf_environment := ''A = 1'', hf_port := ''2222''\<rparr>) None
   in h_tags h = [''db'', ''eu''] \<and>
      createHostRecord ''t2'' ''u'' (hostToFormValues h) (Some h) = h\<lparr>h_updatedAt := ''t2''\<rparr>"
  unfolding Let_def
proof (rule conjI, goal_cases)
  case 1
  have "normalizeTags (splitCommaList '' db,, Favorite, eu '') = [''db'', ''eu'']" by code_simp
  then show ?case by (simp add: createHostRecord_def Let_def)
next
  case 2
  have port: "parse_int ''2222'' = Finite 2222"
    by (simp add: parse_int_def trim_start_def is_space_def digit_def nat_of_digits_def
        digit_value_def round_double_exact starts_with_iff)
  have env: "parseEnvironmentVariables ''A = 1'' = [(''A'', ''1'')]" by code_simp
  have key: "\<not> array_index ''A''" by (simp add: array_index_def digit_def)
  show ?case
    by (rule saved_host_edits_unchanged[OF _ refl])
       (simp add: form_plain_def env key port safe_integer_def)
qed

text \<open>The list of hosts is always shown in order: favourites first, then the most recently
  connected, then by label; the sorting neither loses nor invents a host.\<close>

theorem hosts_shown_in_order:
  assumes "collation lc" "tells_apart lc (activity ` set hs)"
  shows "sorted_cmp (host_compare lc) (sortHostCollection lc hs) \<and>
    mset (sortHostCollection lc hs) = image_mset normalize_host (mset hs)"
  using sortHosts_sorted[OF assms] by (simp add: sortHostCollection_def)

lemma hosts_shown_in_order_witness:
  "sorted_cmp (host_compare code_unit_compare) (sortHostCollection code_unit_compare sampleHosts) \<and>
    mset (sortHostCollection code_unit_compare sampleHosts) = image_mset normalize_host (mset sampleHosts)"
  by (rule hosts_shown_in_order[OF code_units.collation_axioms])
     (auto simp: tells_apart_def code_unit_compare_def split: if_splits)

lemma count_groups: "length (filter (\<lambda>h. h_group h = g) hs) = count_list (map h_group hs) g"
  by (induction hs) auto

lemma count_set_group:
  "a \<noteq> b \<Longrightarrow> count_list (map h_group (snd (set_group lc now a b hs))) g =
    (if g = a then 0
     else if g = b then count_list (map h_group hs) b + count_list (map h_group hs) a
     else count_list (map h_group hs) g)"
proof -
  assume ab: "a \<noteq> b"
  let ?f = "map_where (\<lambda>h. h_group h = a) (\<lambda>h. h\<lparr>h_group := b, h_updatedAt := now\<rparr>)"
  have "count_list (map h_group (snd (set_group lc now a b hs))) g = count_list (map h_group (?f hs)) g"
    unfolding set_group_def sortHostCollection_def snd_conv
    by (simp add: count_mset[symmetric] image_mset.compositionality comp_def del: count_mset)
  also have "\<dots> = (if g = a then 0
     else if g = b then count_list (map h_group hs) b + count_list (map h_group hs) a
     else count_list (map h_group hs) g)"
    using ab by (induction hs) auto
  finally show ?thesis .
qed

text \<open>Renaming a group moves exactly the hosts of the old group to the new one and reports how
  many they were; renaming to the same name, or an empty name, changes nothing.\<close>

theorem renameGroup_moves_group:
  "fst (renameGroup lc now old new hs) =
     (if trim old = [] \<or> trim old = trim new then 0 else count_list (map h_group hs) (trim old)) \<and>
   count_list (map h_group (snd (renameGroup lc now old new hs))) g =
     (if trim old = [] \<or> trim old = trim new then count_list (map h_group hs) g
      else if g = trim old then 0
      else if g = trim new
        then count_list (map h_group hs) (trim new) + count_list (map h_group hs) (trim old)
      else count_list (map h_group hs) g)"
proof (cases "trim old = [] \<or> trim old = trim new")
  case True
  then show ?thesis by (auto simp: renameGroup_def Let_def)
next
  case False
  then show ?thesis
    using count_set_group[of "trim old" "trim new" lc now hs g]
    by (simp add: renameGroup_def Let_def) (simp add: set_group_def count_groups)
qed

end
