(* ===== verification/Keys.thy ===== *)
theory Keys
  imports VaultSync
begin

section \<open>SSH keys (\<open>types/key.ts\<close>, \<open>store/keys-store.ts\<close>)\<close>

text \<open>
  The state is the list of key records. A key is found by its file path when it is imported or
  generated again, and hosts are assigned to at most one key. Deleting a key also starts the
  removal of its Keychain entry, whose failures the code ignores; it is not part of the state.
\<close>

datatype key_algorithm = ED25519 | ECDSA | RSA | UNKNOWN
datatype key_source = Imported | Generated
datatype key_generation = Gen_ed25519 | Gen_ecdsa | Gen_rsa

record key =
  k_id :: string
  k_label :: string
  k_algorithm :: key_algorithm
  k_bits :: int
  k_fingerprint :: string
  k_comment :: string
  k_privateKeyPath :: string
  k_publicKeyPath :: "string option"
  k_source :: key_source
  k_hasPassphrase :: bool
  k_assignedHostIds :: "string list"
  k_createdAt :: string
  k_updatedAt :: string

record key_metadata =
  km_algorithm :: key_algorithm
  km_bits :: int
  km_fingerprint :: string
  km_comment :: string
  km_privateKeyPath :: string
  km_publicKeyPath :: "string option"

record import_key_values =
  ik_label :: string
  ik_privateKeyPath :: string
  ik_hasPassphrase :: bool
  ik_pastedKeyBody :: string

record generate_key_values =
  gk_label :: string
  gk_privateKeyPath :: string
  gk_passphrase :: string
  gk_comment :: string
  gk_type :: key_generation

definition emptyImportKeyValues :: import_key_values where
  "emptyImportKeyValues = \<lparr>ik_label = '''', ik_privateKeyPath = ''~/.ssh/id_ed25519'',
     ik_hasPassphrase = False, ik_pastedKeyBody = ''''\<rparr>"

definition emptyGenerateKeyValues :: generate_key_values where
  "emptyGenerateKeyValues = \<lparr>gk_label = '''',
     gk_privateKeyPath = ''~/.ssh/terminal_workspace_ed25519'', gk_passphrase = '''',
     gk_comment = ''terminal-workspace@local'', gk_type = Gen_ed25519\<rparr>"

definition sampleKeys :: "key list" where
  "sampleKeys = [
    \<lparr> k_id = ''key-prod-ed25519'', k_label = ''MacBook Pro ED25519'', k_algorithm = ED25519,
      k_bits = 256, k_fingerprint = ''SHA256:prodGatewayDemoKey'', k_comment = ''ops@macbook-pro'',
      k_privateKeyPath = ''~/.ssh/id_ed25519'', k_publicKeyPath = Some ''~/.ssh/id_ed25519.pub'',
      k_source = Imported, k_hasPassphrase = True, k_assignedHostIds = [''prod-gateway''],
      k_createdAt = ''2026-03-20T12:00:00.000Z'', k_updatedAt = ''2026-03-29T11:10:00.000Z'' \<rparr>,
    \<lparr> k_id = ''key-deploy-shared'', k_label = ''Deploy Shared Key'', k_algorithm = ED25519,
      k_bits = 256, k_fingerprint = ''SHA256:billingDeployDemo'', k_comment = ''deploy@billing-api'',
      k_privateKeyPath = ''~/.ssh/deploy_key'', k_publicKeyPath = Some ''~/.ssh/deploy_key.pub'',
      k_source = Imported, k_hasPassphrase = False, k_assignedHostIds = [''billing-api''],
      k_createdAt = ''2026-03-18T08:30:00.000Z'', k_updatedAt = ''2026-03-28T20:12:00.000Z'' \<rparr> ]"

subsection \<open>The store\<close>

definition sortKeys :: "(string \<Rightarrow> string \<Rightarrow> int) \<Rightarrow> key list \<Rightarrow> key list" where
  "sortKeys lc keys = by_newest lc k_updatedAt keys"

definition createKeyRecord ::
    "string \<Rightarrow> string \<Rightarrow> string \<Rightarrow> key_metadata \<Rightarrow> key_source \<Rightarrow> bool \<Rightarrow> key" where
  "createKeyRecord now uuid label m src pass = \<lparr>
     k_id = uuid, k_label = trim label, k_algorithm = km_algorithm m, k_bits = km_bits m,
     k_fingerprint = km_fingerprint m, k_comment = km_comment m,
     k_privateKeyPath = km_privateKeyPath m, k_publicKeyPath = km_publicKeyPath m,
     k_source = src, k_hasPassphrase = pass, k_assignedHostIds = [],
     k_createdAt = now, k_updatedAt = now\<rparr>"

definition refresh_key :: "string \<Rightarrow> string \<Rightarrow> key_metadata \<Rightarrow> key_source \<Rightarrow> bool \<Rightarrow> key \<Rightarrow> key" where
  "refresh_key now label m src pass k = k\<lparr>
     k_label := trim label, k_algorithm := km_algorithm m, k_bits := km_bits m,
     k_fingerprint := km_fingerprint m, k_comment := km_comment m,
     k_publicKeyPath := km_publicKeyPath m, k_source := src, k_hasPassphrase := pass,
     k_updatedAt := now\<rparr>"

definition upsertKey ::
    "(string \<Rightarrow> string \<Rightarrow> int) \<Rightarrow> string \<Rightarrow> string \<Rightarrow> key list \<Rightarrow> string \<Rightarrow> key_metadata \<Rightarrow>
     key_source \<Rightarrow> bool \<Rightarrow> key list" where
  "upsertKey lc now uuid keys label m src pass =
     (case List.find (\<lambda>k. k_privateKeyPath k = km_privateKeyPath m) keys of
        None \<Rightarrow> sortKeys lc (keys @ [createKeyRecord now uuid label m src pass])
      | Some existing \<Rightarrow> sortKeys lc (map_where (\<lambda>k. k_id k = k_id existing)
          (refresh_key now label m src pass) keys))"

type_synonym keys_world = "key list \<times> deletion_map"

text \<open>\<open>importKey\<close> and \<open>addGeneratedKey\<close> differ only in the source they record.\<close>

definition add_key ::
    "(string \<Rightarrow> string \<Rightarrow> int) \<Rightarrow> string \<Rightarrow> string \<Rightarrow> string \<Rightarrow> key_metadata \<Rightarrow> key_source \<Rightarrow> bool \<Rightarrow>
     keys_world \<Rightarrow> string \<times> keys_world" where
  "add_key lc now uuid label m src pass w = (case w of (keys, vault) \<Rightarrow>
     let keys' = upsertKey lc now uuid keys label m src pass in
     (case List.find (\<lambda>k. k_privateKeyPath k = km_privateKeyPath m) keys' of
        None \<Rightarrow> ('''', keys', vault)
      | Some k \<Rightarrow> (k_id k, keys', clearDeleted lc KKeys (k_id k) vault)))"

definition importKey ::
    "(string \<Rightarrow> string \<Rightarrow> int) \<Rightarrow> string \<Rightarrow> string \<Rightarrow> string \<Rightarrow> key_metadata \<Rightarrow> bool \<Rightarrow>
     keys_world \<Rightarrow> string \<times> keys_world" where
  "importKey lc now uuid label m pass w = add_key lc now uuid label m Imported pass w"

definition addGeneratedKey ::
    "(string \<Rightarrow> string \<Rightarrow> int) \<Rightarrow> string \<Rightarrow> string \<Rightarrow> string \<Rightarrow> key_metadata \<Rightarrow> bool \<Rightarrow>
     keys_world \<Rightarrow> string \<times> keys_world" where
  "addGeneratedKey lc now uuid label m pass w = add_key lc now uuid label m Generated pass w"

definition deleteKey ::
    "(string \<Rightarrow> int option) \<Rightarrow> (string \<Rightarrow> string \<Rightarrow> int) \<Rightarrow> int \<Rightarrow> string \<Rightarrow> string \<Rightarrow> keys_world \<Rightarrow>
     key option \<times> keys_world" where
  "deleteKey dp lc ms now keyId w = (case w of (keys, vault) \<Rightarrow>
     let key = List.find (\<lambda>k. k_id k = keyId) keys;
         keys' = sortKeys lc (filter (\<lambda>k. k_id k \<noteq> keyId) keys)
     in (key, keys', case key of None \<Rightarrow> vault | Some k \<Rightarrow> markDeleted dp lc ms now KKeys (k_id k) vault))"

definition unassignHostFromAll :: "(string \<Rightarrow> string \<Rightarrow> int) \<Rightarrow> string \<Rightarrow> key list \<Rightarrow> key list" where
  "unassignHostFromAll lc hostId keys =
     sortKeys lc (map (\<lambda>k. k\<lparr>k_assignedHostIds := filter (\<lambda>i. i \<noteq> hostId) (k_assignedHostIds k)\<rparr>) keys)"

definition assignHost :: "(string \<Rightarrow> string \<Rightarrow> int) \<Rightarrow> string \<Rightarrow> string \<Rightarrow> string \<Rightarrow> key list \<Rightarrow> key list" where
  "assignHost lc now keyId hostId keys =
     sortKeys lc (map (\<lambda>k. k\<lparr>
       k_assignedHostIds :=
         (if k_id k = keyId then dedup (k_assignedHostIds k @ [hostId])
          else filter (\<lambda>i. i \<noteq> hostId) (k_assignedHostIds k)),
       k_updatedAt := (if k_id k = keyId \<or> hostId \<in> set (k_assignedHostIds k) then now
                       else k_updatedAt k)\<rparr>) keys)"

interpretation keys: record_store k_id "sortKeys lc" for lc
  unfolding sortKeys_def by (rule record_store_newest)

interpretation keys_vault: tombstoned_store k_id "sortKeys lc"
    "markDeleted dp lc ms now" "clearDeleted lc" tombstone_ids KKeys
  for lc dp ms now
  by unfold_locales

subsection \<open>The invariant of the store\<close>

text \<open>
  Identifiers and file paths are unique, no stored key has a tombstone, and a host is assigned to
  at most one key, once.
\<close>

definition assigned :: "key list \<Rightarrow> string \<Rightarrow> nat" where
  "assigned keys h = length (filter (\<lambda>i. i = h) (concat (map k_assignedHostIds keys)))"

definition keys_ok :: "keys_world \<Rightarrow> bool" where
  "keys_ok w \<longleftrightarrow> no_ghosts k_id (tombstone_ids (snd w) KKeys) (fst w) \<and>
     distinct (map k_privateKeyPath (fst w)) \<and> distinct (concat (map k_assignedHostIds (fst w)))"

lemma sortKeys_simps [simp]:
  "mset (sortKeys lc ks) = mset ks" "set (sortKeys lc ks) = set ks"
  by (simp_all add: sortKeys_def)

lemma sortKeys_map_distinct [simp]: "distinct (map f (sortKeys lc ks)) = distinct (map f ks)"
  by (metis mset_eq_imp_distinct_iff mset_map sortKeys_simps(1))

lemma sortKeys_assigned_mset:
  "mset (concat (map k_assignedHostIds (sortKeys lc ks))) = mset (concat (map k_assignedHostIds ks))"
  by (simp add: mset_concat) (metis mset_map sortKeys_simps(1) sum_mset_sum_list)

lemma sortKeys_assigned_distinct [simp]:
  "distinct (concat (map k_assignedHostIds (sortKeys lc ks))) =
   distinct (concat (map k_assignedHostIds ks))"
  by (metis mset_eq_imp_distinct_iff sortKeys_assigned_mset)

lemma concat_map_same:
  "(\<And>x. x \<in> set xs \<Longrightarrow> g (f x) = g x) \<Longrightarrow> concat (map g (map f xs)) = concat (map g xs)"
  by (induction xs) auto

lemma unassigned_filter:
  "concat (map k_assignedHostIds (map (\<lambda>k. k\<lparr>k_assignedHostIds := filter (\<lambda>i. i \<noteq> h) (k_assignedHostIds k)\<rparr>) ks)) =
   filter (\<lambda>i. i \<noteq> h) (concat (map k_assignedHostIds ks))"
  by (induction ks) auto

text \<open>Assigning a host to a key is unassigning it everywhere, then adding it to the one key.\<close>

definition reassigned :: "string \<Rightarrow> string \<Rightarrow> key \<Rightarrow> string list" where
  "reassigned keyId h k =
     (if k_id k = keyId then dedup (k_assignedHostIds k @ [h])
      else filter (\<lambda>i. i \<noteq> h) (k_assignedHostIds k))"

lemma set_reassigned:
  "set (reassigned keyId h k) \<subseteq> insert h (set (k_assignedHostIds k))"
  "k_id k \<noteq> keyId \<Longrightarrow> set (reassigned keyId h k) = set (k_assignedHostIds k) - {h}"
  by (auto simp: reassigned_def)

lemma reassigned_others:
  "keyId \<notin> k_id ` set ks \<Longrightarrow>
   set (concat (map (reassigned keyId h) ks)) \<subseteq> set (concat (map k_assignedHostIds ks)) - {h}"
  by (induction ks) (simp_all add: set_reassigned(2)[OF not_sym] Un_Diff le_supI1 le_supI2)

lemma assigned_distinct:
  "distinct (map k_id ks) \<Longrightarrow> distinct (concat (map k_assignedHostIds ks)) \<Longrightarrow>
   distinct (concat (map (reassigned keyId h) ks))"
proof (induction ks)
  case (Cons k ks)
  let ?R = "concat (map (reassigned keyId h) ks)" and ?A = "concat (map k_assignedHostIds ks)"
  have R: "distinct ?R" and dis: "set (k_assignedHostIds k) \<inter> set ?A = {}"
    using Cons by simp_all
  have k: "distinct (reassigned keyId h k)" using Cons.prems(2) by (simp add: reassigned_def)
  have "set (reassigned keyId h k) \<inter> set ?R = {}"
  proof (cases "k_id k = keyId")
    case True
    then have "set ?R \<subseteq> set ?A - {h}" using Cons.prems(1) by (intro reassigned_others) auto
    then show ?thesis using set_reassigned(1)[of keyId h k] dis by blast
  next
    case False
    have "set ?R \<subseteq> insert h (set ?A)"
      unfolding set_concat set_map using set_reassigned(1)[of keyId h] by blast
    then show ?thesis using set_reassigned(2)[OF False, of h] dis by blast
  qed
  with R k show ?case by simp
qed simp

text \<open>A change of the records that keeps identifiers and paths keeps the invariant when the
  assignments stay distinct.\<close>

lemma keys_ok_map:
  assumes "keys_ok (ks, m)" "map k_id ks' = map k_id ks"
    and "map k_privateKeyPath ks' = map k_privateKeyPath ks"
    and "distinct (concat (map k_assignedHostIds ks'))"
  shows "keys_ok (sortKeys lc ks', m)"
proof -
  have "k_id ` set ks' = k_id ` set ks" using assms(2) by (metis list.set_map)
  with assms show ?thesis
    unfolding keys_ok_def no_ghosts_def fst_conv snd_conv
    by (simp only: sortKeys_map_distinct sortKeys_assigned_distinct keys.srt_id_set)
qed

lemma assignHost_ok: "keys_ok (ks, m) \<Longrightarrow> keys_ok (assignHost lc now keyId h ks, m)"
proof -
  assume ok: "keys_ok (ks, m)"
  have "distinct (concat (map (reassigned keyId h) ks))"
    using assigned_distinct ok by (simp add: keys_ok_def no_ghosts_def)
  then show ?thesis unfolding assignHost_def
    by (intro keys_ok_map[OF ok]) (simp_all add: comp_def reassigned_def[abs_def])
qed

lemma unassign_ok: "keys_ok (ks, m) \<Longrightarrow> keys_ok (unassignHostFromAll lc h ks, m)"
proof -
  assume ok: "keys_ok (ks, m)"
  show ?thesis unfolding unassignHostFromAll_def
  proof (rule keys_ok_map[OF ok])
    show "distinct (concat (map k_assignedHostIds
        (map (\<lambda>k. k\<lparr>k_assignedHostIds := filter (\<lambda>i. i \<noteq> h) (k_assignedHostIds k)\<rparr>) ks)))"
      unfolding unassigned_filter using ok by (simp add: keys_ok_def)
  qed simp_all
qed

lemma unassigned_everywhere:
  "k \<in> set (unassignHostFromAll lc h ks) \<Longrightarrow> h \<notin> set (k_assignedHostIds k)"
  by (auto simp: unassignHostFromAll_def)

lemma distinct_concat_filter:
  "distinct (concat (map f xs)) \<Longrightarrow> distinct (concat (map f (filter p xs)))"
  by (induction xs) auto

lemma deleteKey_ok: "keys_ok w \<Longrightarrow> keys_ok (snd (deleteKey dp lc ms now keyId w))"
proof -
  assume ok: "keys_ok w"
  obtain ks m where w: "w = (ks, m)" by (cases w)
  let ?ks = "sortKeys lc (filter (\<lambda>k. k_id k \<noteq> keyId) ks)"
  have paths: "distinct (map k_privateKeyPath ?ks)" using ok by (simp add: w keys_ok_def distinct_map_filter)
  have hosts: "distinct (concat (map k_assignedHostIds ?ks))"
    using ok by (simp add: w keys_ok_def distinct_concat_filter)
  have "no_ghosts k_id (tombstone_ids (markDeleted dp lc ms now KKeys keyId m) KKeys) ?ks"
    using ok by (intro keys_vault.delete_ok) (simp add: w keys_ok_def)
  moreover have "no_ghosts k_id (tombstone_ids m KKeys) ?ks"
    using ok by (auto simp: w keys_ok_def no_ghosts_def distinct_map_filter)
  ultimately show ?thesis using paths hosts
    by (cases "List.find (\<lambda>k. k_id k = keyId) ks")
       (auto simp: w deleteKey_def keys_ok_def Let_def dest: find_Some_set)
qed

lemma refresh_key_simps [simp]:
  "k_id (refresh_key now label m src pass k) = k_id k"
  "k_privateKeyPath (refresh_key now label m src pass k) = k_privateKeyPath k"
  "k_assignedHostIds (refresh_key now label m src pass k) = k_assignedHostIds k"
  by (simp_all add: refresh_key_def)

lemma upsertKey_paths:
  assumes "distinct (map k_id ks)"
  shows "k_privateKeyPath ` set (upsertKey lc now uuid ks label m src pass) =
    insert (km_privateKeyPath m) (k_privateKeyPath ` set ks)"
proof (cases "List.find (\<lambda>k. k_privateKeyPath k = km_privateKeyPath m) ks")
  case None
  then show ?thesis by (simp add: upsertKey_def createKeyRecord_def)
next
  case (Some e)
  then have "km_privateKeyPath m \<in> k_privateKeyPath ` set ks"
    by (metis (mono_tags, lifting) find_Some_set image_eqI)
  moreover have "k_privateKeyPath ` set (map_where p (refresh_key now label m src pass) ks) =
    k_privateKeyPath ` set ks" for p
    unfolding list.set_map[symmetric] by (simp only: map_map_where_id refresh_key_simps)
  ultimately show ?thesis
    using Some by (simp add: upsertKey_def insert_absorb)
qed

lemma upsertKey_ok:
  assumes "keys_ok (ks, v)" "uuid \<notin> k_id ` set ks \<union> tombstone_ids v KKeys"
  shows "keys_ok (upsertKey lc now uuid ks label m src pass, v)"
proof (cases "List.find (\<lambda>k. k_privateKeyPath k = km_privateKeyPath m) ks")
  case None
  then have "km_privateKeyPath m \<notin> k_privateKeyPath ` set ks" by (auto simp: find_None_set)
  with assms None show ?thesis
    by (auto simp: upsertKey_def createKeyRecord_def keys_ok_def no_ghosts_def)
next
  case (Some e)
  then show ?thesis
    using assms(1) unfolding upsertKey_def
    by simp (rule keys_ok_map, assumption, simp_all add: map_map_where_id keys_ok_def)
qed

lemma add_key_ok:
  assumes "keys_ok w" "uuid \<notin> k_id ` set (fst w) \<union> tombstone_ids (snd w) KKeys"
  shows "keys_ok (snd (add_key lc now uuid label m src pass w))"
proof -
  obtain ks v where w: "w = (ks, v)" by (cases w)
  let ?ks = "upsertKey lc now uuid ks label m src pass"
  have "keys_ok (?ks, v)" using upsertKey_ok assms by (simp add: w)
  then have "keys_ok (?ks, clearDeleted lc KKeys i v)" for i
    using keys_vault.clear_ok[of v ?ks lc i] by (simp add: keys_ok_def)
  with \<open>keys_ok (?ks, v)\<close> show ?thesis
    by (simp add: add_key_def w Let_def split: option.split)
qed

lemma find_imported:
  assumes "distinct (map k_id ks)"
  shows "\<exists>k. List.find (\<lambda>k. k_privateKeyPath k = km_privateKeyPath m)
    (upsertKey lc now uuid ks label m src pass) = Some k"
proof -
  have "km_privateKeyPath m \<in> k_privateKeyPath ` set (upsertKey lc now uuid ks label m src pass)"
    unfolding upsertKey_paths[OF assms] by simp
  then show ?thesis
    by (cases "List.find (\<lambda>k. k_privateKeyPath k = km_privateKeyPath m)
        (upsertKey lc now uuid ks label m src pass)") (auto simp: find_None_set)
qed

subsection \<open>The store as a state machine\<close>

inductive keys_step ::
    "(string \<Rightarrow> int option) \<Rightarrow> (string \<Rightarrow> string \<Rightarrow> int) \<Rightarrow> keys_world \<Rightarrow> keys_world \<Rightarrow> bool"
  for dp lc where
  import_key: "uuid \<notin> k_id ` set (fst w) \<union> tombstone_ids (snd w) KKeys \<Longrightarrow>
    keys_step dp lc w (snd (importKey lc now uuid label m pass w))"
| generate: "uuid \<notin> k_id ` set (fst w) \<union> tombstone_ids (snd w) KKeys \<Longrightarrow>
    keys_step dp lc w (snd (addGeneratedKey lc now uuid label m pass w))"
| delete: "keys_step dp lc w (snd (deleteKey dp lc ms now keyId w))"
| assign: "keys_step dp lc (ks, v) (assignHost lc now keyId h ks, v)"
| unassign: "keys_step dp lc (ks, v) (unassignHostFromAll lc h ks, v)"

lemma keys_step_ok: "keys_step dp lc w w' \<Longrightarrow> keys_ok w \<Longrightarrow> keys_ok w'"
  by (induction rule: keys_step.induct)
     (simp_all add: importKey_def addGeneratedKey_def add_key_ok deleteKey_ok assignHost_ok unassign_ok)

text \<open>Whatever is imported, generated, assigned or deleted, the store of keys keeps one record
  per file path, never assigns a host to two keys, and holds no key that has a tombstone.\<close>

theorem keys_stay_consistent:
  assumes "keys_ok w" "(keys_step dp lc)\<^sup>*\<^sup>* w w'"
  shows "keys_ok w'"
  using assms(2,1) by (induction rule: rtranclp_induct) (auto intro: keys_step_ok)

lemma keys_stay_consistent_witness:
  "keys_ok (assignHost code_unit_compare ''t'' ''key-prod-ed25519'' ''billing-api'' sampleKeys, emptyDeletionMap)"
proof (rule keys_stay_consistent)
  show "keys_ok (sampleKeys, emptyDeletionMap)"
    by (simp add: keys_ok_def no_ghosts_def sampleKeys_def tombstone_ids_def emptyDeletionMap_def)
  show "(keys_step Map.empty code_unit_compare)\<^sup>*\<^sup>* (sampleKeys, emptyDeletionMap)
      (assignHost code_unit_compare ''t'' ''key-prod-ed25519'' ''billing-api'' sampleKeys, emptyDeletionMap)"
    by (rule r_into_rtranclp) (rule keys_step.assign)
qed

end
