(* ===== verification/Identities.thy ===== *)
theory Identities
  imports HostsStore Keys
begin

section \<open>Identities (\<open>types/identity.ts\<close>, \<open>lib/identity-migration.ts\<close>, \<open>store/identities-store.ts\<close>)\<close>

text \<open>
  An identity bundles the credentials that several hosts share. The migration derives identities
  from the hosts: one per equivalence key, reusing the identities that exist. \<open>gen n\<close> is the
  identifier the n-th call of \<open>generateId\<close> returns, \<open>now\<close> the clock reading of the run.
\<close>

datatype identity_source = ImportedIdentity | DerivedIdentity

record identity =
  i_id :: string
  i_label :: string
  i_username :: string
  i_authMethod :: host_auth
  i_privateKeyPath :: string
  i_keyId :: "string option"
  i_hasPassphrase :: bool
  i_comment :: string
  i_source :: identity_source
  i_createdAt :: string
  i_updatedAt :: string

definition buildIdentityEquivalenceKey :: "host_auth \<Rightarrow> string \<Rightarrow> string \<Rightarrow> string option" where
  "buildIdentityEquivalenceKey auth user path =
     (let username = trim user in
      case auth of
        AuthNone \<Rightarrow> None
      | AuthPrivateKey \<Rightarrow>
          (let p = trim path in if p = [] then None else Some (''privateKey|'' @ username @ ''|'' @ p))
      | AuthPassword \<Rightarrow> Some (''password|'' @ username))"

definition deriveIdentityLabel ::
    "host_auth \<Rightarrow> string \<Rightarrow> string \<Rightarrow> string option \<Rightarrow> string option \<Rightarrow> string" where
  "deriveIdentityLabel auth user keyPath keyLabel hostLabel =
     (let username = or_string (trim user) ''user'' in
      case auth of
        AuthPrivateKey \<Rightarrow>
          (if trim (coalesce keyLabel []) \<noteq> [] then trim (coalesce keyLabel []) @ '' ('' @ username @ '')''
           else let path = trim keyPath;
                    filename = or_string (last (split_on (CHR ''/'') path)) (or_string path ''key'')
                in filename @ '' ('' @ username @ '')'')
      | AuthPassword \<Rightarrow>
          (if trim (coalesce hostLabel []) \<noteq> []
           then username @ ''@'' @ trim (coalesce hostLabel []) @ '' (password)''
           else username @ '' (password)'')
      | AuthNone \<Rightarrow> username)"

definition sampleIdentities :: "identity list" where
  "sampleIdentities = [
    \<lparr> i_id = ''identity-prod-bastion-ops'', i_label = ''MacBook Pro ED25519 (ops)'',
      i_username = ''ops'', i_authMethod = AuthPrivateKey, i_privateKeyPath = ''~/.ssh/id_ed25519'',
      i_keyId = Some ''key-prod-ed25519'', i_hasPassphrase = True,
      i_comment = ''Default identity for the production gateway host.'', i_source = ImportedIdentity,
      i_createdAt = ''2026-03-20T12:00:00.000Z'', i_updatedAt = ''2026-03-29T11:10:00.000Z'' \<rparr>,
    \<lparr> i_id = ''identity-deploy'', i_label = ''Deploy Shared Key (deploy)'',
      i_username = ''deploy'', i_authMethod = AuthPrivateKey, i_privateKeyPath = ''~/.ssh/deploy_key'',
      i_keyId = Some ''key-deploy-shared'', i_hasPassphrase = False,
      i_comment = ''Shared by every blue/green deploy target.'', i_source = ImportedIdentity,
      i_createdAt = ''2026-03-18T08:30:00.000Z'', i_updatedAt = ''2026-03-28T20:12:00.000Z'' \<rparr> ]"

subsection \<open>The migration\<close>

definition identity_key :: "identity \<Rightarrow> string option" where
  "identity_key i = buildIdentityEquivalenceKey (i_authMethod i) (i_username i) (i_privateKeyPath i)"

definition host_key :: "host \<Rightarrow> string option" where
  "host_key h = buildIdentityEquivalenceKey (h_authMethod h) (h_username h) (h_privateKeyPath h)"

definition selectKeyForHost :: "string \<Rightarrow> key list \<Rightarrow> key option" where
  "selectKeyForHost path keys =
     (if trim path = [] then None
      else List.find (\<lambda>k. trim (k_privateKeyPath k) = trim path) keys)"

definition pickKeyIdForPath :: "string \<Rightarrow> key list \<Rightarrow> string option" where
  "pickKeyIdForPath path keys =
     (let trimmed = trim path in
      if trimmed = [] then None
      else map_option k_id (List.find (\<lambda>k. trim (k_privateKeyPath k) = trimmed) keys))"

definition pickHasPassphraseForPath :: "string \<Rightarrow> key list \<Rightarrow> bool" where
  "pickHasPassphraseForPath path keys =
     (let trimmed = trim path in
      if trimmed = [] then False
      else case List.find (\<lambda>k. trim (k_privateKeyPath k) = trimmed) keys of
             None \<Rightarrow> False | Some k \<Rightarrow> k_hasPassphrase k)"

text \<open>The first loop: the earliest identity of every equivalence key.\<close>

definition index_identity :: "identity \<Rightarrow> identity obj \<Rightarrow> identity obj" where
  "index_identity i m =
     (case identity_key i of
        None \<Rightarrow> m
      | Some k \<Rightarrow> if obj_get m k = None then obj_set k i m else m)"

definition existing_by_key :: "(string \<Rightarrow> string \<Rightarrow> int) \<Rightarrow> identity list \<Rightarrow> identity obj" where
  "existing_by_key lc existing = fold index_identity (by_name lc i_createdAt existing) []"

definition derived_identity :: "key list \<Rightarrow> string \<Rightarrow> string \<Rightarrow> host \<Rightarrow> identity" where
  "derived_identity keys now uuid h = \<lparr>
     i_id = uuid,
     i_label = deriveIdentityLabel (h_authMethod h) (h_username h) (h_privateKeyPath h)
       (Some (h_keyLabel h)) (Some (h_label h)),
     i_username = h_username h, i_authMethod = h_authMethod h,
     i_privateKeyPath = (if h_authMethod h = AuthPrivateKey then h_privateKeyPath h else []),
     i_keyId = (if h_authMethod h = AuthPrivateKey then pickKeyIdForPath (h_privateKeyPath h) keys
                else None),
     i_hasPassphrase = (if h_authMethod h = AuthPrivateKey
                        then pickHasPassphraseForPath (h_privateKeyPath h) keys else False),
     i_comment = [], i_source = DerivedIdentity, i_createdAt = now, i_updatedAt = now\<rparr>"

text \<open>The state of the second loop: the assignments, the new identities by equivalence key, the
  identifiers referenced, and how often \<open>generateId\<close> was called.\<close>

record migration =
  mg_assignments :: "string obj"
  mg_new :: "identity obj"
  mg_referenced :: "string list"
  mg_calls :: nat

definition migrate_host ::
    "identity list \<Rightarrow> identity obj \<Rightarrow> key list \<Rightarrow> string \<Rightarrow> (nat \<Rightarrow> string) \<Rightarrow> host \<Rightarrow>
     migration \<Rightarrow> migration" where
  "migrate_host existing byKey keys now gen h s0 =
     (let s = (if truthy (h_identityId h)
               then s0\<lparr>mg_referenced := mg_referenced s0 @ [coalesce (h_identityId h) []]\<rparr> else s0);
          previously = (if truthy (h_identityId h)
                        then List.find (\<lambda>i. Some (i_id i) = h_identityId h) existing else None)
      in case previously of
           Some i \<Rightarrow> s\<lparr>mg_assignments := obj_set (h_id h) (i_id i) (mg_assignments s)\<rparr>
         | None \<Rightarrow>
             (case host_key h of
                None \<Rightarrow> s
              | Some k \<Rightarrow>
                  (case (case obj_get byKey k of Some i \<Rightarrow> Some i | None \<Rightarrow> obj_get (mg_new s) k) of
                     Some i \<Rightarrow> s\<lparr>mg_assignments := obj_set (h_id h) (i_id i) (mg_assignments s),
                                 mg_referenced := mg_referenced s @ [i_id i]\<rparr>
                   | None \<Rightarrow>
                       let i = derived_identity keys now (gen (mg_calls s)) h in
                       s\<lparr>mg_new := obj_set k i (mg_new s),
                         mg_assignments := obj_set (h_id h) (i_id i) (mg_assignments s),
                         mg_referenced := mg_referenced s @ [i_id i],
                         mg_calls := Suc (mg_calls s)\<rparr>)))"

record migration_result =
  mr_identitiesToAdd :: "identity list"
  mr_assignments :: "string obj"
  mr_orphaned :: "string list"

definition migration_run ::
    "(string \<Rightarrow> string \<Rightarrow> int) \<Rightarrow> string \<Rightarrow> (nat \<Rightarrow> string) \<Rightarrow> host list \<Rightarrow> key list \<Rightarrow>
     identity list \<Rightarrow> migration" where
  "migration_run lc now gen hosts keys existing =
     fold (migrate_host existing (existing_by_key lc existing) keys now gen) hosts
       \<lparr>mg_assignments = [], mg_new = [], mg_referenced = [], mg_calls = 0\<rparr>"

definition migrateHostsToIdentities ::
    "(string \<Rightarrow> string \<Rightarrow> int) \<Rightarrow> string \<Rightarrow> (nat \<Rightarrow> string) \<Rightarrow> host list \<Rightarrow> key list \<Rightarrow>
     identity list \<Rightarrow> migration_result" where
  "migrateHostsToIdentities lc now gen hosts keys existing =
     (let s = migration_run lc now gen hosts keys existing in \<lparr>
        mr_identitiesToAdd = map snd (mg_new s),
        mr_assignments = mg_assignments s,
        mr_orphaned = map i_id (filter (\<lambda>i. i_id i \<notin> set (mg_referenced s)) existing)\<rparr>)"

definition stamp_identity :: "string obj \<Rightarrow> host \<Rightarrow> host" where
  "stamp_identity assignments h =
     (let next = obj_get assignments (h_id h) in
      if \<not> truthy next \<or> h_identityId h = next then h else h\<lparr>h_identityId := next\<rparr>)"

definition applyIdentityAssignments :: "host list \<Rightarrow> string obj \<Rightarrow> host list" where
  "applyIdentityAssignments hosts assignments = map (stamp_identity assignments) hosts"

subsection \<open>Looking identities and keys up\<close>

definition resolveIdentityForHost :: "host \<Rightarrow> identity list \<Rightarrow> identity option" where
  "resolveIdentityForHost h identities =
     (if \<not> truthy (h_identityId h) then None
      else List.find (\<lambda>i. Some (i_id i) = h_identityId h) identities)"

definition resolveHostIdentityFrom :: "string \<Rightarrow> host list \<Rightarrow> identity list \<Rightarrow> identity option" where
  "resolveHostIdentityFrom hostId hosts identities =
     (case List.find (\<lambda>h. h_id h = hostId) hosts of
        None \<Rightarrow> None
      | Some h \<Rightarrow> if \<not> truthy (h_identityId h) then None
                  else List.find (\<lambda>i. Some (i_id i) = h_identityId h) identities)"

definition resolveHostKeyFingerprintFrom :: "string \<Rightarrow> host list \<Rightarrow> key list \<Rightarrow> string option" where
  "resolveHostKeyFingerprintFrom hostId hosts keys =
     (case List.find (\<lambda>h. h_id h = hostId) hosts of
        None \<Rightarrow> None
      | Some h \<Rightarrow>
          if trim (h_privateKeyPath h) = [] then None
          else let fp = map_option (\<lambda>k. trim (k_fingerprint k)) (selectKeyForHost (h_privateKeyPath h) keys)
               in if truthy fp \<and> contains '':'' (coalesce fp []) then fp else None)"

definition usage_add :: "host \<Rightarrow> string list obj \<Rightarrow> string list obj" where
  "usage_add h usage =
     (let identityId = trim (coalesce (h_identityId h) []) in
      if identityId = [] then usage
      else case obj_get usage identityId of
             Some existing \<Rightarrow> obj_set identityId (existing @ [h_id h]) usage
           | None \<Rightarrow> obj_set identityId [h_id h] usage)"

definition buildIdentityUsage :: "host list \<Rightarrow> string list obj" where
  "buildIdentityUsage hosts = fold usage_add hosts []"

definition countHostsUsingIdentity :: "host list \<Rightarrow> string \<Rightarrow> nat" where
  "countHostsUsingIdentity hosts identityId =
     (if identityId = [] then 0
      else fold (\<lambda>h n. if h_identityId h = Some identityId then n + 1 else n) hosts 0)"

definition listHostsUsingIdentity :: "host list \<Rightarrow> string \<Rightarrow> host list" where
  "listHostsUsingIdentity hosts identityId =
     (if identityId = [] then [] else filter (\<lambda>h. h_identityId h = Some identityId) hosts)"

subsection \<open>The store\<close>

definition sortIdentities :: "(string \<Rightarrow> string \<Rightarrow> int) \<Rightarrow> identity list \<Rightarrow> identity list" where
  "sortIdentities lc identities = by_name lc i_label identities"

text \<open>What \<open>upsertIdentity\<close> is given: the fields a caller may leave out are options.\<close>

record identity_input =
  in_identity :: identity
  in_comment :: "string option"
  in_source :: "identity_source option"
  in_createdAt :: "string option"
  in_updatedAt :: "string option"

definition makeIdentityRecord :: "string \<Rightarrow> identity_input \<Rightarrow> identity" where
  "makeIdentityRecord now x = (in_identity x)\<lparr>
     i_comment := coalesce (in_comment x) [],
     i_source := coalesce (in_source x) ImportedIdentity,
     i_createdAt := coalesce (in_createdAt x) now,
     i_updatedAt := coalesce (in_updatedAt x) now\<rparr>"

type_synonym identities_world = "identity list \<times> deletion_map"

definition upsertIdentity ::
    "(string \<Rightarrow> string \<Rightarrow> int) \<Rightarrow> string \<Rightarrow> identity_input \<Rightarrow> identities_world \<Rightarrow>
     string \<times> identities_world" where
  "upsertIdentity lc now x w = (case w of (is, vault) \<Rightarrow>
     let r = makeIdentityRecord now x in
     (i_id r, sortIdentities lc (filter (\<lambda>i. i_id i \<noteq> i_id r) is @ [r]),
      clearDeleted lc KIdentities (i_id r) vault))"

definition setLabel ::
    "(string \<Rightarrow> string \<Rightarrow> int) \<Rightarrow> string \<Rightarrow> string \<Rightarrow> string \<Rightarrow> identity list \<Rightarrow> identity list" where
  "setLabel lc now identityId label is =
     sortIdentities lc (map_where (\<lambda>i. i_id i = identityId)
       (\<lambda>i. i\<lparr>i_label := label, i_updatedAt := now\<rparr>) is)"

definition setComment ::
    "(string \<Rightarrow> string \<Rightarrow> int) \<Rightarrow> string \<Rightarrow> string \<Rightarrow> string \<Rightarrow> identity list \<Rightarrow> identity list" where
  "setComment lc now identityId comment is =
     sortIdentities lc (map_where (\<lambda>i. i_id i = identityId)
       (\<lambda>i. i\<lparr>i_comment := comment, i_updatedAt := now\<rparr>) is)"

definition removeIdentity ::
    "(string \<Rightarrow> int option) \<Rightarrow> (string \<Rightarrow> string \<Rightarrow> int) \<Rightarrow> int \<Rightarrow> string \<Rightarrow> string \<Rightarrow> identities_world \<Rightarrow>
     identity option \<times> identities_world" where
  "removeIdentity dp lc ms now identityId w = (case w of (is, vault) \<Rightarrow>
     (case List.find (\<lambda>i. i_id i = identityId) is of
        None \<Rightarrow> (None, is, vault)
      | Some target \<Rightarrow> (Some target, filter (\<lambda>i. i_id i \<noteq> identityId) is,
          markDeleted dp lc ms now KIdentities identityId vault)))"

text \<open>\<open>ensureMigrated\<close> over the hosts and identities; the flag is \<open>migrationCompleted\<close>.\<close>

record identities_state =
  st_hosts :: "host list"
  st_identities :: "identity list"
  st_migrated :: bool

definition ensureMigrated ::
    "(string \<Rightarrow> string \<Rightarrow> int) \<Rightarrow> string \<Rightarrow> (nat \<Rightarrow> string) \<Rightarrow> key list \<Rightarrow> identities_state \<Rightarrow>
     identities_state" where
  "ensureMigrated lc now gen keys s =
     (if st_migrated s then s
      else let r = migrateHostsToIdentities lc now gen (st_hosts s) keys (st_identities s) in
        s\<lparr>st_identities := (if mr_identitiesToAdd r \<noteq> []
                             then sortIdentities lc (st_identities s @ mr_identitiesToAdd r)
                             else st_identities s),
          st_hosts := (if obj_entries (mr_assignments r) \<noteq> []
                       then applyIdentityAssignments (st_hosts s) (mr_assignments r) else st_hosts s),
          st_migrated := True\<rparr>)"

definition identities_merge ::
    "(string \<Rightarrow> string \<Rightarrow> int) \<Rightarrow> identity list option \<Rightarrow> identities_state \<Rightarrow> identities_state" where
  "identities_merge lc persisted s =
     s\<lparr>st_identities := sortIdentities lc (coalesce persisted (st_identities s)), st_migrated := False\<rparr>"

interpretation identities: record_store i_id "sortIdentities lc" for lc
  unfolding sortIdentities_def by (rule record_store_name)

interpretation identities_vault: tombstoned_store i_id "sortIdentities lc"
    "markDeleted dp lc ms now" "clearDeleted lc" tombstone_ids KIdentities
  for lc dp ms now
  by unfold_locales

subsection \<open>The equivalence key\<close>

text \<open>For user names without a bar, the key tells the credentials apart.\<close>

definition same_credentials :: "host_auth \<Rightarrow> string \<Rightarrow> string \<Rightarrow> host_auth \<Rightarrow> string \<Rightarrow> string \<Rightarrow> bool" where
  "same_credentials a u p a' u' p' \<longleftrightarrow>
     a = a' \<and> trim u = trim u' \<and> (a \<noteq> AuthPrivateKey \<or> trim p = trim p')"

lemma bar_split:
  "c \<notin> set x \<Longrightarrow> c \<notin> set y \<Longrightarrow> x @ c # p = y @ c # q \<longleftrightarrow> x = y \<and> p = q"
proof (induction x arbitrary: y)
  case Nil
  then show ?case by (cases y) auto
next
  case (Cons a x)
  then show ?case by (cases y) auto
qed

lemma equivalence_key_same:
  "same_credentials a u p a' u' p' \<Longrightarrow>
   buildIdentityEquivalenceKey a u p = buildIdentityEquivalenceKey a' u' p'"
  by (cases a) (auto simp: same_credentials_def buildIdentityEquivalenceKey_def Let_def)

lemma equivalence_key_inj:
  assumes "buildIdentityEquivalenceKey a u p = Some k" "buildIdentityEquivalenceKey a' u' p' = Some k"
    and "CHR ''|'' \<notin> set (trim u)" "CHR ''|'' \<notin> set (trim u')"
  shows "same_credentials a u p a' u' p'"
  using assms
  by (cases a; cases a')
     (auto simp: buildIdentityEquivalenceKey_def same_credentials_def Let_def bar_split split: if_splits)

lemma equivalence_key_credentials:
  assumes "buildIdentityEquivalenceKey a u p = Some k" "buildIdentityEquivalenceKey a' u' p' = Some k"
    and "a = AuthPrivateKey \<Longrightarrow> CHR ''|'' \<notin> set (trim u) \<and> CHR ''|'' \<notin> set (trim u')"
  shows "same_credentials a u p a' u' p'"
proof (cases "a = AuthPrivateKey")
  case False
  with assms(1,2) show ?thesis
    by (cases a; cases a') (auto simp: buildIdentityEquivalenceKey_def same_credentials_def Let_def split: if_splits)
qed (use assms equivalence_key_inj in blast)

subsection \<open>What the migration does\<close>

lemma index_identity_inv:
  "fold index_identity is m = m' \<Longrightarrow>
   obj_get m' k = (case obj_get m k of Some i \<Rightarrow> Some i
     | None \<Rightarrow> List.find (\<lambda>i. identity_key i = Some k) is)"
  by (induction "is" arbitrary: m m')
     (auto simp: index_identity_def obj_get_set split: option.splits)

lemma existing_by_key_find:
  "obj_get (existing_by_key lc existing) k =
   List.find (\<lambda>i. identity_key i = Some k) (by_name lc i_createdAt existing)"
  using index_identity_inv[of "by_name lc i_createdAt existing" "[]" _ k]
  by (simp add: existing_by_key_def)

lemma existing_by_key_Some:
  "obj_get (existing_by_key lc existing) k = Some i \<Longrightarrow> i \<in> set existing \<and> identity_key i = Some k"
  unfolding existing_by_key_find by (auto dest: find_Some_set)

lemma existing_by_key_None:
  "obj_get (existing_by_key lc existing) k = None \<longleftrightarrow> (\<forall>i \<in> set existing. identity_key i \<noteq> Some k)"
  unfolding existing_by_key_find by (simp add: find_None_set)

lemma derived_identity_key [simp]: "identity_key (derived_identity keys now uuid h) = host_key h"
  by (auto simp: identity_key_def host_key_def derived_identity_def buildIdentityEquivalenceKey_def
      Let_def split: host_auth.splits)

lemma derived_identity_id [simp]: "i_id (derived_identity keys now uuid h) = uuid"
  by (simp add: derived_identity_def)

definition linked :: "identity list \<Rightarrow> host \<Rightarrow> bool" where
  "linked existing h \<longleftrightarrow> truthy (h_identityId h) \<and> (\<exists>i \<in> set existing. Some (i_id i) = h_identityId h)"

lemma linked_find:
  "List.find (\<lambda>i. Some (i_id i) = h_identityId h) existing = None \<Longrightarrow> \<not> linked existing h"
  by (auto simp: linked_def find_None_set)

text \<open>What one host is assigned, relative to the identities by equivalence key.\<close>

definition host_outcome :: "identity list \<Rightarrow> identity obj \<Rightarrow> identity obj \<Rightarrow> host \<Rightarrow> string option" where
  "host_outcome existing byKey new h =
     (if linked existing h then h_identityId h
      else case host_key h of
        None \<Rightarrow> None
      | Some k \<Rightarrow> (case obj_get byKey k of Some i \<Rightarrow> Some (i_id i)
                  | None \<Rightarrow> map_option i_id (obj_get new k)))"

definition needs_new :: "identity list \<Rightarrow> identity obj \<Rightarrow> host \<Rightarrow> bool" where
  "needs_new existing byKey h \<longleftrightarrow>
     \<not> linked existing h \<and> (\<exists>k. host_key h = Some k \<and> obj_get byKey k = None)"

definition new_ok :: "identity obj \<Rightarrow> (nat \<Rightarrow> string) \<Rightarrow> migration \<Rightarrow> bool" where
  "new_ok byKey gen s \<longleftrightarrow>
     obj_wf (mg_new s) \<and> map (i_id \<circ> snd) (mg_new s) = map gen [0..<mg_calls s] \<and>
     (\<forall>k i. (k, i) \<in> set (mg_new s) \<longrightarrow> identity_key i = Some k \<and> obj_get byKey k = None)"

lemma migrate_host_cases:
  obtains
    (linked) "linked existing h"
      "mg_assignments (migrate_host existing byKey keys now gen h s) =
         obj_set (h_id h) (the (h_identityId h)) (mg_assignments s)"
      "mg_new (migrate_host existing byKey keys now gen h s) = mg_new s"
      "mg_calls (migrate_host existing byKey keys now gen h s) = mg_calls s"
  | (skip) "\<not> linked existing h" "host_key h = None"
      "mg_assignments (migrate_host existing byKey keys now gen h s) = mg_assignments s"
      "mg_new (migrate_host existing byKey keys now gen h s) = mg_new s"
      "mg_calls (migrate_host existing byKey keys now gen h s) = mg_calls s"
  | (reuse) k i where "\<not> linked existing h" "host_key h = Some k"
      "obj_get byKey k = Some i \<or> obj_get byKey k = None \<and> obj_get (mg_new s) k = Some i"
      "mg_assignments (migrate_host existing byKey keys now gen h s) =
         obj_set (h_id h) (i_id i) (mg_assignments s)"
      "mg_new (migrate_host existing byKey keys now gen h s) = mg_new s"
      "mg_calls (migrate_host existing byKey keys now gen h s) = mg_calls s"
  | (fresh) k where "\<not> linked existing h" "host_key h = Some k"
      "obj_get byKey k = None" "obj_get (mg_new s) k = None"
      "mg_assignments (migrate_host existing byKey keys now gen h s) =
         obj_set (h_id h) (gen (mg_calls s)) (mg_assignments s)"
      "mg_new (migrate_host existing byKey keys now gen h s) =
         obj_set k (derived_identity keys now (gen (mg_calls s)) h) (mg_new s)"
      "mg_calls (migrate_host existing byKey keys now gen h s) = Suc (mg_calls s)"
proof -
  let ?prev = "if truthy (h_identityId h)
    then List.find (\<lambda>i. Some (i_id i) = h_identityId h) existing else None"
  show ?thesis
  proof (cases ?prev)
    case (Some i)
    then have t: "truthy (h_identityId h)" and f: "List.find (\<lambda>i. Some (i_id i) = h_identityId h) existing = Some i"
      by (auto split: if_splits)
    from find_Some_set[OF f] have i: "i \<in> set existing" "h_identityId h = Some (i_id i)" by simp_all
    then have "linked existing h" using t by (auto simp: linked_def)
    then show ?thesis using t f i by (intro linked) (auto simp: migrate_host_def Let_def)
  next
    case None
    then have nl: "\<not> linked existing h" using linked_find by (auto simp: linked_def split: if_splits)
    note d = migrate_host_def Let_def None
    show ?thesis
    proof (cases "host_key h")
      case hk: None
      then show ?thesis using nl None by (intro skip) (auto simp: d)
    next
      case hk: (Some k)
      show ?thesis
      proof (cases "obj_get byKey k")
        case bk: (Some i)
        then show ?thesis using nl None hk by (intro reuse[of k i]) (auto simp: d)
      next
        case bk: None
        show ?thesis
        proof (cases "obj_get (mg_new s) k")
          case (Some i)
          then show ?thesis using nl None hk bk by (intro reuse[of k i]) (auto simp: d)
        next
          case nk: None
          then show ?thesis using nl None hk bk by (intro fresh[of k]) (auto simp: d)
        qed
      qed
    qed
  qed
qed

definition run_ok ::
    "identity list \<Rightarrow> identity obj \<Rightarrow> (nat \<Rightarrow> string) \<Rightarrow> host list \<Rightarrow> migration \<Rightarrow> bool" where
  "run_ok existing byKey gen hs s \<longleftrightarrow> new_ok byKey gen s \<and>
     (\<forall>h \<in> set hs. obj_get (mg_assignments s) (h_id h) = host_outcome existing byKey (mg_new s) h \<and>
        (needs_new existing byKey h \<longrightarrow> obj_get (mg_new s) (the (host_key h)) \<noteq> None)) \<and>
     (\<forall>j. j \<notin> h_id ` set hs \<longrightarrow> obj_get (mg_assignments s) j = None) \<and>
     (\<forall>k. obj_get (mg_new s) k \<noteq> None \<longrightarrow> (\<exists>h \<in> set hs. needs_new existing byKey h \<and> host_key h = Some k))"

lemma new_ok_fresh:
  assumes "new_ok byKey gen s" "obj_get byKey k = None" "obj_get (mg_new s) k = None"
    "host_key h = Some k" "mg_new s' = obj_set k (derived_identity keys now (gen (mg_calls s)) h) (mg_new s)"
    "mg_calls s' = Suc (mg_calls s)"
  shows "new_ok byKey gen s'"
proof -
  have "k \<notin> fst ` set (mg_new s)" using assms(3) unfolding obj_get_None_iff .
  then have "mg_new s' = mg_new s @ [(k, derived_identity keys now (gen (mg_calls s)) h)]"
    unfolding assms(5) by (rule obj_set_new)
  moreover have "obj_wf (mg_new s')" unfolding assms(5) using assms(1) by (simp add: new_ok_def)
  ultimately show ?thesis using assms(1,2,4,6) by (auto simp: new_ok_def)
qed

lemma host_outcome_new:
  "host_key h \<noteq> Some k \<or> obj_get new k = None \<and> \<not> needs_new existing byKey h \<Longrightarrow>
   host_outcome existing byKey (obj_set k i new) h = host_outcome existing byKey new h"
  by (auto simp: host_outcome_def needs_new_def obj_get_set split: option.splits)

lemma run_ok_step:
  assumes ok: "run_ok existing byKey gen hs s" and new: "h_id h \<notin> h_id ` set hs"
  shows "run_ok existing byKey gen (hs @ [h]) (migrate_host existing byKey keys now gen h s)"
    (is "run_ok _ _ _ _ ?s'")
proof -
  note old = ok[unfolded run_ok_def]
  have other: "h_id h' \<noteq> h_id h" if "h' \<in> set hs" for h' using new that by (metis image_eqI)
  show ?thesis
  proof (cases rule: migrate_host_cases[of existing h byKey keys now gen s])
    case linked
    then have "h_identityId h = Some (the (h_identityId h))" by (cases "h_identityId h") (auto simp: linked_def)
    with linked old other show ?thesis
      by (auto simp: run_ok_def new_ok_def obj_get_set host_outcome_def needs_new_def)
  next
    case skip
    with old other new show ?thesis
      by (auto simp: run_ok_def new_ok_def host_outcome_def needs_new_def)
  next
    case (reuse k i)
    with old other show ?thesis
      by (auto simp: run_ok_def new_ok_def obj_get_set host_outcome_def needs_new_def)
  next
    case (fresh k)
    have nk: "new_ok byKey gen ?s'"
      by (rule new_ok_fresh[of byKey gen s k h]) (use old fresh in simp_all)
    have keep: "host_outcome existing byKey (mg_new ?s') h' = host_outcome existing byKey (mg_new s) h'"
      if h': "h' \<in> set hs" for h'
    proof -
      have "needs_new existing byKey h' \<Longrightarrow> host_key h' \<noteq> Some k"
        using old h' fresh(4) by fastforce
      then show ?thesis unfolding fresh(6) using fresh(4) by (intro host_outcome_new) blast
    qed
    have "host_outcome existing byKey (mg_new ?s') h = Some (gen (mg_calls s))"
      using fresh by (simp add: host_outcome_def)
    with nk keep old other fresh show ?thesis
      by (auto simp: run_ok_def obj_get_set needs_new_def)
  qed
qed

lemma run_ok_fold:
  "distinct (map h_id hs) \<Longrightarrow>
   run_ok existing byKey gen hs (fold (migrate_host existing byKey keys now gen) hs
     \<lparr>mg_assignments = [], mg_new = [], mg_referenced = [], mg_calls = 0\<rparr>)"
proof (induction hs rule: rev_induct)
  case Nil
  show ?case by (simp add: run_ok_def new_ok_def)
next
  case (snoc h hs)
  then show ?case by (simp add: run_ok_step)
qed

lemma migration_run_ok:
  "distinct (map h_id hs) \<Longrightarrow>
   run_ok existing (existing_by_key lc existing) gen hs (migration_run lc now gen hs keys existing)"
  unfolding migration_run_def by (rule run_ok_fold)

subsection \<open>Linked hosts and idempotence\<close>

text \<open>The identifiers the migration works with: distinct, not empty, and fresh ones for new
  identities.\<close>

definition migration_input_ok :: "host list \<Rightarrow> identity list \<Rightarrow> (nat \<Rightarrow> string) \<Rightarrow> bool" where
  "migration_input_ok hosts existing gen \<longleftrightarrow>
     distinct (map h_id hosts) \<and> distinct (map i_id existing) \<and> [] \<notin> i_id ` set existing \<and>
     inj gen \<and> range gen \<inter> insert [] (i_id ` set existing) = {}"

lemma new_identities:
  assumes "distinct (map h_id hosts)"
  shows "map i_id (mr_identitiesToAdd (migrateHostsToIdentities lc now gen hosts keys existing)) =
      map gen [0..<mg_calls (migration_run lc now gen hosts keys existing)]"
    "distinct (map identity_key (mr_identitiesToAdd (migrateHostsToIdentities lc now gen hosts keys existing)))"
    "i \<in> set (mr_identitiesToAdd (migrateHostsToIdentities lc now gen hosts keys existing)) \<Longrightarrow>
     \<exists>h \<in> set hosts. \<exists>k. identity_key i = Some k \<and> host_key h = Some k \<and> \<not> linked existing h \<and>
       (\<forall>e \<in> set existing. identity_key e \<noteq> Some k)"
proof -
  let ?s = "migration_run lc now gen hosts keys existing"
  note ok = migration_run_ok[OF assms, of existing lc gen now keys, unfolded run_ok_def]
  then have nk: "new_ok (existing_by_key lc existing) gen ?s" by blast
  show "map i_id (mr_identitiesToAdd (migrateHostsToIdentities lc now gen hosts keys existing)) =
      map gen [0..<mg_calls ?s]"
    using nk by (simp add: migrateHostsToIdentities_def Let_def new_ok_def)
  have keys: "map identity_key (map snd (mg_new ?s)) = map Some (map fst (mg_new ?s))"
    using nk by (auto simp: new_ok_def)
  show "distinct (map identity_key (mr_identitiesToAdd (migrateHostsToIdentities lc now gen hosts keys existing)))"
    unfolding migrateHostsToIdentities_def Let_def migration_result.simps keys distinct_map[of Some]
    using nk by (auto simp: new_ok_def obj_wf_def)
  assume "i \<in> set (mr_identitiesToAdd (migrateHostsToIdentities lc now gen hosts keys existing))"
  then obtain k where k: "(k, i) \<in> set (mg_new ?s)"
    by (auto simp: migrateHostsToIdentities_def Let_def)
  then have "obj_get (mg_new ?s) k \<noteq> None" using nk by (simp add: new_ok_def obj_wf_get)
  then obtain h where "h \<in> set hosts" "needs_new existing (existing_by_key lc existing) h" "host_key h = Some k"
    using ok by blast
  moreover have "identity_key i = Some k" using k nk unfolding new_ok_def by blast
  ultimately show "\<exists>h \<in> set hosts. \<exists>k. identity_key i = Some k \<and> host_key h = Some k \<and>
      \<not> linked existing h \<and> (\<forall>e \<in> set existing. identity_key e \<noteq> Some k)"
    by (auto simp: needs_new_def existing_by_key_None)
qed

lemma stamp_Some: "obj_get a (h_id h) = Some x \<Longrightarrow> x \<noteq> [] \<Longrightarrow> h_identityId (stamp_identity a h) = Some x"
  by (simp add: stamp_identity_def Let_def)

lemma stamp_None: "obj_get a (h_id h) = None \<Longrightarrow> stamp_identity a h = h"
  by (simp add: stamp_identity_def Let_def)

lemma stamp_same: "obj_get a (h_id h) = h_identityId h \<Longrightarrow> stamp_identity a h = h"
  by (simp add: stamp_identity_def Let_def)

lemma stamp_fields [simp]:
  "h_id (stamp_identity a h) = h_id h" "host_key (stamp_identity a h) = host_key h"
  by (simp_all add: stamp_identity_def Let_def host_key_def)

lemma migration_outcome:
  fixes lc :: "string \<Rightarrow> string \<Rightarrow> int" and now :: string and gen :: "nat \<Rightarrow> string" and keys :: "key list"
  assumes "distinct (map h_id hosts)" "h \<in> set hosts" "\<not> linked existing h" "host_key h = Some k"
  defines "r \<equiv> migrateHostsToIdentities lc now gen hosts keys existing"
  obtains i where "i \<in> set (existing @ mr_identitiesToAdd r)" "identity_key i = Some k"
    "obj_get (mr_assignments r) (h_id h) = Some (i_id i)"
proof -
  let ?s = "migration_run lc now gen hosts keys existing" and ?b = "existing_by_key lc existing"
  note ok = migration_run_ok[OF assms(1), of existing lc gen now keys, unfolded run_ok_def]
  have out: "obj_get (mg_assignments ?s) (h_id h) = host_outcome existing ?b (mg_new ?s) h"
    using ok assms(2) by blast
  show thesis
  proof (cases "obj_get ?b k")
    case (Some i)
    then show thesis
      using that[of i] out assms(3,4) existing_by_key_Some[OF Some]
      by (simp add: r_def migrateHostsToIdentities_def Let_def host_outcome_def)
  next
    case None
    then have "needs_new existing ?b h" using assms(3,4) by (auto simp: needs_new_def)
    then obtain i where i: "obj_get (mg_new ?s) k = Some i" using ok assms(2,4) by fastforce
    then have "(k, i) \<in> set (mg_new ?s)" by (rule map_of_SomeD)
    moreover from this have "identity_key i = Some k" using ok unfolding new_ok_def by blast
    ultimately show thesis
      using that[of i] out assms(3,4) i None
      by (force simp: r_def migrateHostsToIdentities_def Let_def host_outcome_def)
  qed
qed

lemma migration_linked_outcome:
  assumes "distinct (map h_id hosts)" "h \<in> set hosts" "linked existing h"
  shows "obj_get (mr_assignments (migrateHostsToIdentities lc now gen hosts keys existing)) (h_id h) =
    h_identityId h"
  using migration_run_ok[OF assms(1), of existing lc gen now keys] assms(2,3)
  by (simp add: run_ok_def host_outcome_def migrateHostsToIdentities_def Let_def)

lemma migration_skipped_outcome:
  assumes "distinct (map h_id hosts)" "h \<in> set hosts" "\<not> linked existing h" "host_key h = None"
  shows "obj_get (mr_assignments (migrateHostsToIdentities lc now gen hosts keys existing)) (h_id h) = None"
  using migration_run_ok[OF assms(1), of existing lc gen now keys] assms(2-)
  by (simp add: run_ok_def host_outcome_def migrateHostsToIdentities_def Let_def)

lemma all_identity_ids:
  assumes "migration_input_ok hosts existing gen"
  shows "distinct (map i_id (existing @ mr_identitiesToAdd (migrateHostsToIdentities lc now gen hosts keys existing)))"
    "[] \<notin> i_id ` set (existing @ mr_identitiesToAdd (migrateHostsToIdentities lc now gen hosts keys existing))"
proof -
  let ?new = "mr_identitiesToAdd (migrateHostsToIdentities lc now gen hosts keys existing)"
  have new: "map i_id ?new = map gen [0..<mg_calls (migration_run lc now gen hosts keys existing)]"
    using assms by (intro new_identities(1)) (simp add: migration_input_ok_def)
  have "distinct (map i_id ?new)"
    unfolding new using assms by (simp add: migration_input_ok_def distinct_map inj_on_def)
  moreover have sub: "i_id ` set ?new \<subseteq> range gen" using new by (metis list.set_map image_mono subset_UNIV)
  moreover from this have "i_id ` set existing \<inter> i_id ` set ?new = {}"
    using assms unfolding migration_input_ok_def by blast
  ultimately show "distinct (map i_id (existing @ ?new))"
    using assms unfolding migration_input_ok_def by (simp only: map_append distinct_append list.set_map simp_thms)
  show "[] \<notin> i_id ` set (existing @ ?new)" using assms sub unfolding migration_input_ok_def by auto
qed

text \<open>When every host is linked or has no key, a run changes nothing.\<close>

lemma settled_run:
  assumes "distinct (map h_id hosts)" "\<And>h. h \<in> set hosts \<Longrightarrow> linked existing h \<or> host_key h = None"
  shows "mr_identitiesToAdd (migrateHostsToIdentities lc now gen hosts keys existing) = []"
    "applyIdentityAssignments hosts (mr_assignments (migrateHostsToIdentities lc now gen hosts keys existing)) = hosts"
proof -
  show "mr_identitiesToAdd (migrateHostsToIdentities lc now gen hosts keys existing) = []"
    using new_identities(3)[OF assms(1), of _ lc now gen keys existing] assms(2)
    by (metis list.set_intros(1) neq_Nil_conv option.distinct(1))
  have "stamp_identity (mr_assignments (migrateHostsToIdentities lc now gen hosts keys existing)) h = h"
    if h: "h \<in> set hosts" for h
    using assms(2)[OF h] migration_linked_outcome[OF assms(1) h] migration_skipped_outcome[OF assms(1) h]
    by (metis stamp_None stamp_same)
  then show "applyIdentityAssignments hosts
      (mr_assignments (migrateHostsToIdentities lc now gen hosts keys existing)) = hosts"
    by (simp add: applyIdentityAssignments_def map_idI)
qed

lemma migrated_hosts_settled:
  assumes ok: "migration_input_ok hosts existing gen" and h: "h \<in> set hosts"
    and r_def: "r = migrateHostsToIdentities lc now gen hosts keys existing"
  shows "host_key h = None \<and> stamp_identity (mr_assignments r) h = h \<or>
    linked (existing @ mr_identitiesToAdd r) (stamp_identity (mr_assignments r) h)"
proof -
  have dist: "distinct (map h_id hosts)" using ok by (simp add: migration_input_ok_def)
  consider "linked existing h" | "\<not> linked existing h" "host_key h = None"
    | k where "\<not> linked existing h" "host_key h = Some k" by fastforce
  then show ?thesis
  proof cases
    case 1
    then have "stamp_identity (mr_assignments r) h = h"
      unfolding r_def by (intro stamp_same migration_linked_outcome[OF dist h])
    with 1 show ?thesis by (auto simp: linked_def)
  next
    case 2
    then show ?thesis unfolding r_def using stamp_None migration_skipped_outcome[OF dist h] by blast
  next
    case (3 k)
    then obtain i where i: "i \<in> set (existing @ mr_identitiesToAdd r)"
      "obj_get (mr_assignments r) (h_id h) = Some (i_id i)"
      unfolding r_def by (rule migration_outcome[OF dist h])
    then have "i_id i \<noteq> []" using all_identity_ids(2)[OF ok] unfolding r_def by (metis image_eqI)
    then have "h_identityId (stamp_identity (mr_assignments r) h) = Some (i_id i)"
      using i(2) by (rule stamp_Some[rotated])
    with i(1) \<open>i_id i \<noteq> []\<close> show ?thesis unfolding linked_def by auto
  qed
qed

lemma migrated_hosts_ids: "map h_id (applyIdentityAssignments hosts a) = map h_id hosts"
  by (simp add: applyIdentityAssignments_def)

lemma linked_mono: "linked E h \<Longrightarrow> set E \<subseteq> set E' \<Longrightarrow> linked E' h"
  by (auto simp: linked_def)

lemma second_run_settled:
  assumes "migration_input_ok hosts existing gen" "set E = set (existing @ mr_identitiesToAdd r)"
    and r: "r = migrateHostsToIdentities lc now gen hosts keys existing"
    and g: "g \<in> set (applyIdentityAssignments hosts (mr_assignments r))"
  shows "linked E g \<or> host_key g = None"
proof -
  obtain h where h: "h \<in> set hosts" "g = stamp_identity (mr_assignments r) h"
    using g by (auto simp: applyIdentityAssignments_def)
  then show ?thesis
    using migrated_hosts_settled[OF assms(1) h(1) r] assms(2) linked_mono stamp_fields(2)
    by (metis order_refl)
qed

lemma find_identity:
  "distinct (map i_id E) \<Longrightarrow> j \<in> set E \<Longrightarrow> List.find (\<lambda>i. Some (i_id i) = Some (i_id j)) E = Some j"
  by (rule find_eqI) (auto simp: distinct_map inj_on_def)

text \<open>C21: after the migration every host that needs credentials (one whose authentication method and
  fields give an equivalence key) is linked to an identity of the vault. A host that was linked is left
  as it was; any other gets an identity with its own equivalence key, and so with its own credentials:
  the same method, the same user name and, for a private key, the same path. For private keys that
  holds when neither user name contains a bar, since the key joins its parts with bars and is ambiguous
  otherwise. Hosts have distinct identifiers, existing identities too, and the generated ones are fresh
  and not empty.\<close>

theorem migration_links_every_host:
  assumes "migration_input_ok hosts existing gen" "h \<in> set hosts"
    and r: "r = migrateHostsToIdentities lc now gen hosts keys existing"
    and key: "host_key h \<noteq> None"
  shows "\<exists>i \<in> set (existing @ mr_identitiesToAdd r).
    resolveIdentityForHost (stamp_identity (mr_assignments r) h) (existing @ mr_identitiesToAdd r) = Some i \<and>
    (if linked existing h then stamp_identity (mr_assignments r) h = h
     else identity_key i = host_key h \<and>
       ((h_authMethod h = AuthPrivateKey \<longrightarrow>
           CHR ''|'' \<notin> set (trim (h_username h)) \<and> CHR ''|'' \<notin> set (trim (i_username i))) \<longrightarrow>
        same_credentials (h_authMethod h) (h_username h) (h_privateKeyPath h)
          (i_authMethod i) (i_username i) (i_privateKeyPath i)))"
proof -
  note ok = assms(1) and h = assms(2)
  have dist: "distinct (map h_id hosts)" using ok by (simp add: migration_input_ok_def)
  let ?E = "existing @ mr_identitiesToAdd r" and ?h = "stamp_identity (mr_assignments r) h"
  have find: "List.find (\<lambda>i. Some (i_id i) = Some (i_id j)) ?E = Some j" if "j \<in> set ?E" for j
    using that all_identity_ids(1)[OF ok, of lc now keys, folded r] by (simp only: find_identity)
  show ?thesis
  proof (cases "linked existing h")
    case True
    then have "?h = h" unfolding r by (intro stamp_same migration_linked_outcome[OF dist h])
    moreover obtain j where "j \<in> set ?E" "h_identityId h = Some (i_id j)" "truthy (h_identityId h)"
      using True unfolding linked_def by (metis Un_iff set_append)
    ultimately have "resolveIdentityForHost ?h ?E = Some j"
      using find[of j] by (simp only: resolveIdentityForHost_def) simp
    with \<open>?h = h\<close> True \<open>j \<in> set ?E\<close> show ?thesis by auto
  next
    case False
    obtain k where k: "host_key h = Some k" using key by blast
    obtain i where i: "i \<in> set ?E" "identity_key i = Some k" "obj_get (mr_assignments r) (h_id h) = Some (i_id i)"
        unfolding r by (rule migration_outcome[OF dist h False k])
    have ne: "i_id i \<noteq> []"
      using all_identity_ids(2)[OF ok, of lc now keys, folded r] i(1) by (metis imageI)
    have "h_identityId ?h = Some (i_id i)" by (rule stamp_Some[OF i(3) ne])
    then have "resolveIdentityForHost ?h ?E = Some i"
      using ne find[OF i(1)] by (simp only: resolveIdentityForHost_def) simp
    moreover have "same_credentials (h_authMethod h) (h_username h) (h_privateKeyPath h)
        (i_authMethod i) (i_username i) (i_privateKeyPath i)"
      if "h_authMethod h = AuthPrivateKey \<longrightarrow>
        CHR ''|'' \<notin> set (trim (h_username h)) \<and> CHR ''|'' \<notin> set (trim (i_username i))"
      using equivalence_key_credentials[OF k[unfolded host_key_def] i(2)[unfolded identity_key_def]] that by blast
    ultimately show ?thesis using i(1,2) k False by auto
  qed
qed

lemma migration_links_every_host_witness:
  "let hosts = map (\<lambda>h. h\<lparr>h_identityId := None\<rparr>) (take 3 sampleHosts);
       r = migrateHostsToIdentities code_unit_compare ''t'' (\<lambda>n. ''new'' @ replicate n (CHR ''x'')) hosts [] sampleIdentities
   in map i_id (mr_identitiesToAdd r) = [''new''] \<and>
      (\<exists>i. resolveIdentityForHost (stamp_identity (mr_assignments r) (hosts ! 2))
        (sampleIdentities @ mr_identitiesToAdd r) = Some i \<and>
        same_credentials AuthPassword ''admin'' [] (i_authMethod i) (i_username i) (i_privateKeyPath i))"
  unfolding Let_def
proof (rule conjI)
  let ?hosts = "map (\<lambda>h. h\<lparr>h_identityId := None\<rparr>) (take 3 sampleHosts)"
  let ?gen = "\<lambda>n. ''new'' @ replicate n (CHR ''x'')"
  show "map i_id (mr_identitiesToAdd (migrateHostsToIdentities code_unit_compare ''t'' ?gen ?hosts []
      sampleIdentities)) = [''new'']" by code_simp
  have ok: "migration_input_ok ?hosts sampleIdentities ?gen"
    by (auto simp: migration_input_ok_def sampleHosts_def sampleIdentities_def inj_def)
  show "\<exists>i. resolveIdentityForHost (stamp_identity (mr_assignments (migrateHostsToIdentities
      code_unit_compare ''t'' ?gen ?hosts [] sampleIdentities)) (?hosts ! 2)) (sampleIdentities @
      mr_identitiesToAdd (migrateHostsToIdentities code_unit_compare ''t'' ?gen ?hosts [] sampleIdentities)) = Some i \<and>
      same_credentials AuthPassword ''admin'' [] (i_authMethod i) (i_username i) (i_privateKeyPath i)"
    using migration_links_every_host[OF ok _ refl, of "?hosts ! 2" code_unit_compare "''t''" "[]"]
    by (simp add: sampleHosts_def host_key_def buildIdentityEquivalenceKey_def linked_def truthy_def) blast
qed

text \<open>The migration is idempotent: run again in the next session, it adds no identity and leaves
  every host as it is.\<close>

theorem migration_idempotent:
  assumes "migration_input_ok (st_hosts s) (st_identities s) gen" "\<not> st_migrated s"
    and s': "s' = ensureMigrated lc now gen keys s"
  shows "ensureMigrated lc now' gen' keys' (s'\<lparr>st_migrated := False\<rparr>) = s'"
proof -
  let ?r = "migrateHostsToIdentities lc now gen (st_hosts s) keys (st_identities s)"
  have hosts: "st_hosts s' = applyIdentityAssignments (st_hosts s) (mr_assignments ?r)"
  proof (cases "obj_entries (mr_assignments ?r) = []")
    case True
    then have "mr_assignments ?r = []" by (metis set_empty set_obj_entries)
    then show ?thesis using assms(2)
      by (simp add: s' ensureMigrated_def Let_def applyIdentityAssignments_def stamp_None map_idI)
  qed (use assms(2) in \<open>simp add: s' ensureMigrated_def Let_def\<close>)
  have ids: "set (st_identities s') = set (st_identities s @ mr_identitiesToAdd ?r)"
    using assms(2) by (simp add: s' ensureMigrated_def Let_def sortIdentities_def)
  have dist: "distinct (map h_id (st_hosts s'))"
    using assms(1) unfolding hosts migrated_hosts_ids by (simp add: migration_input_ok_def)
  have settled: "linked (st_identities s') g \<or> host_key g = None" if "g \<in> set (st_hosts s')" for g
    by (rule second_run_settled[OF assms(1) ids refl]) (use that in \<open>simp only: hosts\<close>)
  have "st_migrated s'" using assms(2) by (simp add: s' ensureMigrated_def Let_def)
  with settled_run[OF dist settled, of lc now' gen' keys'] show ?thesis
    by (simp add: ensureMigrated_def Let_def)
qed

lemma migration_idempotent_witness:
  "ensureMigrated code_unit_compare ''t2'' (\<lambda>n. ''b'') [] ((ensureMigrated code_unit_compare ''t1''
      (\<lambda>n. ''new'' @ replicate n (CHR ''x'')) [] \<lparr>st_hosts = sampleHosts, st_identities = [], st_migrated = False\<rparr>)
      \<lparr>st_migrated := False\<rparr>) =
   ensureMigrated code_unit_compare ''t1'' (\<lambda>n. ''new'' @ replicate n (CHR ''x'')) []
      \<lparr>st_hosts = sampleHosts, st_identities = [], st_migrated = False\<rparr>"
  by (rule migration_idempotent[OF _ _ refl])
     (auto simp: migration_input_ok_def sampleHosts_def inj_def)

text \<open>The migration never duplicates an identity: the new ones have pairwise different keys, none
  of which an existing identity has, and each is there because some unlinked host needs it.\<close>

theorem migration_adds_no_duplicates:
  assumes "distinct (map h_id hosts)"
    and r: "r = migrateHostsToIdentities lc now gen hosts keys existing"
  shows "distinct (map identity_key (mr_identitiesToAdd r)) \<and>
    identity_key ` set (mr_identitiesToAdd r) \<inter> identity_key ` set existing = {} \<and>
    identity_key ` set (mr_identitiesToAdd r) \<subseteq> host_key ` {h \<in> set hosts. \<not> linked existing h}"
proof (intro conjI)
  note new = new_identities(3)[OF assms(1), of _ lc now gen keys existing, folded r]
  show "distinct (map identity_key (mr_identitiesToAdd r))"
    unfolding r by (rule new_identities(2)[OF assms(1)])
  show "identity_key ` set (mr_identitiesToAdd r) \<inter> identity_key ` set existing = {}"
    using new by fastforce
  show "identity_key ` set (mr_identitiesToAdd r) \<subseteq> host_key ` {h \<in> set hosts. \<not> linked existing h}"
    using new by (force simp: image_iff)
qed

lemma migration_adds_no_duplicates_witness:
  "distinct (map identity_key (mr_identitiesToAdd (migrateHostsToIdentities code_unit_compare ''t''
     (\<lambda>n. ''new'') sampleHosts [] [])))"
  by (rule migration_adds_no_duplicates[THEN conjunct1, OF _ refl]) (simp add: sampleHosts_def)

text \<open>Two credentials share an identity only if they are the same credentials, as long as the
  user names hold no bar; with a bar the key is ambiguous.\<close>

theorem equivalence_key_exact:
  assumes "buildIdentityEquivalenceKey a u p \<noteq> None"
    and "CHR ''|'' \<notin> set (trim u)" "CHR ''|'' \<notin> set (trim u')"
  shows "buildIdentityEquivalenceKey a u p = buildIdentityEquivalenceKey a' u' p' \<longleftrightarrow>
      same_credentials a u p a' u' p'"
  using assms equivalence_key_same equivalence_key_inj by (metis not_None_eq)

lemma equivalence_key_exact_witness:
  "buildIdentityEquivalenceKey AuthPrivateKey ''a'' ''b'' = buildIdentityEquivalenceKey AuthPrivateKey '' a'' ''b ''"
  by (subst equivalence_key_exact) (code_simp)+

lemma equivalence_key_ambiguous:
  "buildIdentityEquivalenceKey AuthPrivateKey ''a|b'' ''c'' = buildIdentityEquivalenceKey AuthPrivateKey ''a'' ''b|c''"
  by code_simp

end
