(* ===== verification/Sessions.thy ===== *)
theory Sessions
  imports Complex_Main Identities
begin

section \<open>The session workspace (\<open>types/session.ts\<close>, \<open>store/sessions-store.ts\<close>)\<close>

text \<open>
  The state is the tabs, the panes by identifier, the active tab and the command history. \<open>now\<close>
  is the clock reading of the action; the identifiers \<open>crypto.randomUUID()\<close> returns are
  arguments. Closing a tab or a pane also closes backend sessions, fire and forget: the
  operations that do so return the list of the backend sessions they ask to close.
\<close>

datatype connection_state = Connecting | Connected | Disconnected | PendingSecrets | ErrorState
datatype split_direction = Vertical | Horizontal
datatype session_transport =
  T_localShell | T_mock | T_mosh | T_serial | T_ssh | T_telnet | T_unsupported
datatype history_source = Queued

record queued_command =
  qc_id :: string
  qc_command :: string
  qc_label :: "string option"
  qc_createdAt :: string

record history_entry =
  he_id :: string
  he_paneId :: string
  he_hostId :: string
  he_transport :: session_transport
  he_command :: string
  he_source :: history_source
  he_persist :: "bool option"
  he_output :: "string option"
  he_outputAt :: "string option"
  he_createdAt :: string

text \<open>\<open>persistOutputPreview\<close> may be missing in panes stored by old versions.\<close>

record pane =
  p_id :: string
  p_hostId :: string
  p_title :: string
  p_state :: connection_state
  p_error :: "string option"
  p_transport :: session_transport
  p_backend :: "string option"
  p_queue :: "queued_command list"
  p_reconnect :: bool
  p_persist :: "bool option"
  p_createdAt :: string
  p_updatedAt :: string

record tab =
  t_id :: string
  t_title :: string
  t_hostId :: string
  t_paneIds :: "string list"
  t_activePaneId :: "string option"
  t_direction :: split_direction
  t_ratio :: "rat option"
  t_createdAt :: string
  t_updatedAt :: string

record sessions =
  ss_tabs :: "tab list"
  ss_panes :: "pane obj"
  ss_activeTabId :: "string option"
  ss_lastRestoredAt :: "string option"
  ss_history :: "history_entry list"

definition SESSION_HISTORY_LIMIT :: nat where
  "SESSION_HISTORY_LIMIT = 200"

definition SESSION_HISTORY_OUTPUT_LIMIT :: nat where
  "SESSION_HISTORY_OUTPUT_LIMIT = 600"

definition sessions_initial :: sessions where
  "sessions_initial = \<lparr>ss_tabs = [], ss_panes = [], ss_activeTabId = None,
     ss_lastRestoredAt = None, ss_history = []\<rparr>"

subsection \<open>Panes and tabs\<close>

definition host_transport :: "host \<Rightarrow> session_transport" where
  "host_transport h =
     (case h_protocol h of
        LocalShell \<Rightarrow> T_localShell
      | Ssh \<Rightarrow> if h_authMethod h = AuthNone then T_mock else T_ssh
      | Telnet \<Rightarrow> T_telnet
      | Serial \<Rightarrow> T_serial
      | Mosh \<Rightarrow> T_mosh)"

definition createSessionPane :: "string \<Rightarrow> string \<Rightarrow> host \<Rightarrow> string \<Rightarrow> pane" where
  "createSessionPane now uuid h title = \<lparr>
     p_id = uuid, p_hostId = h_id h, p_title = title, p_state = Connecting, p_error = None,
     p_transport = host_transport h, p_backend = None, p_queue = [], p_reconnect = False,
     p_persist = Some True, p_createdAt = now, p_updatedAt = now\<rparr>"

definition createSessionTab :: "string \<Rightarrow> string \<Rightarrow> host \<Rightarrow> pane \<Rightarrow> string \<Rightarrow> tab" where
  "createSessionTab now uuid h p title = \<lparr>
     t_id = uuid, t_title = title, t_hostId = h_id h, t_paneIds = [p_id p],
     t_activePaneId = Some (p_id p), t_direction = Vertical, t_ratio = None,
     t_createdAt = now, t_updatedAt = now\<rparr>"

fun connection_state_string :: "connection_state \<Rightarrow> string" where
  "connection_state_string Connecting = ''connecting''"
| "connection_state_string Connected = ''connected''"
| "connection_state_string Disconnected = ''disconnected''"
| "connection_state_string PendingSecrets = ''pendingSecrets''"
| "connection_state_string ErrorState = ''error''"

definition formatSessionConnectionState :: "connection_state \<Rightarrow> string" where
  "formatSessionConnectionState s =
     (case s of PendingSecrets \<Rightarrow> ''needs secrets'' | _ \<Rightarrow> connection_state_string s)"

definition touchTab :: "string \<Rightarrow> tab \<Rightarrow> tab" where
  "touchTab now t = t\<lparr>t_updatedAt := now\<rparr>"

definition touchPane :: "string \<Rightarrow> pane \<Rightarrow> pane" where
  "touchPane now p = p\<lparr>p_updatedAt := now\<rparr>"

definition closeBackendSessionsForPanes :: "pane obj \<Rightarrow> string list \<Rightarrow> string list" where
  "closeBackendSessionsForPanes panes paneIds =
     concat (map (\<lambda>i. case obj_get panes i of
                        None \<Rightarrow> []
                      | Some p \<Rightarrow> if truthy (p_backend p) then [coalesce (p_backend p) []] else [])
       paneIds)"

text \<open>\<open>const pane = state.panes[paneId]; if (!pane) return state; ... [paneId]: f(pane)\<close>\<close>

definition update_pane :: "string \<Rightarrow> (pane \<Rightarrow> pane) \<Rightarrow> sessions \<Rightarrow> sessions" where
  "update_pane paneId f s =
     (case obj_get (ss_panes s) paneId of
        None \<Rightarrow> s
      | Some p \<Rightarrow> s\<lparr>ss_panes := obj_set paneId (f p) (ss_panes s)\<rparr>)"

subsection \<open>Persistence\<close>

definition limitCommandHistory :: "history_entry list \<Rightarrow> history_entry list" where
  "limitCommandHistory hist = take SESSION_HISTORY_LIMIT hist"

definition normalizePersistedPane :: "pane \<Rightarrow> pane" where
  "normalizePersistedPane p = p\<lparr>p_persist := Some (coalesce (p_persist p) True)\<rparr>"

definition resolvePersistOutputPreview :: "history_entry \<Rightarrow> pane obj \<Rightarrow> bool" where
  "resolvePersistOutputPreview e panes =
     (case obj_get panes (he_paneId e) of
        Some p \<Rightarrow> coalesce (p_persist (normalizePersistedPane p)) False
      | None \<Rightarrow> coalesce (he_persist e) False)"

definition sanitize_pane :: "pane \<Rightarrow> pane" where
  "sanitize_pane p =
     (let n = normalizePersistedPane p in
      n\<lparr>p_backend := None, p_state := Disconnected, p_queue := [],
        p_reconnect := p_state n = Connected \<or> p_reconnect n\<rparr>)"

definition sanitizePersistedWorkspace :: "sessions \<Rightarrow> sessions" where
  "sanitizePersistedWorkspace w =
     w\<lparr>ss_panes := from_entries (map (\<lambda>(k, p). (k, sanitize_pane p)) (obj_entries (ss_panes w)))\<rparr>"

definition sanitize_entry :: "pane obj \<Rightarrow> history_entry \<Rightarrow> history_entry" where
  "sanitize_entry panes e =
     (if resolvePersistOutputPreview e panes then e\<lparr>he_persist := Some True\<rparr>
      else e\<lparr>he_persist := Some False, he_output := None, he_outputAt := None\<rparr>)"

definition sanitizePersistedCommandHistory ::
    "history_entry list \<Rightarrow> pane obj \<Rightarrow> history_entry list" where
  "sanitizePersistedCommandHistory hist panes =
     map (sanitize_entry panes) (limitCommandHistory hist)"

definition sessions_partialize :: "string \<Rightarrow> sessions \<Rightarrow> sessions" where
  "sessions_partialize now s =
     (let w = sanitizePersistedWorkspace (s\<lparr>ss_lastRestoredAt := Some now\<rparr>) in
      w\<lparr>ss_history := sanitizePersistedCommandHistory (ss_history s) (ss_panes w)\<rparr>)"

text \<open>The stored state always has the workspace; it may lack the history.\<close>

definition sessions_merge :: "sessions \<Rightarrow> history_entry list option \<Rightarrow> sessions \<Rightarrow> sessions" where
  "sessions_merge persisted hist current =
     (let w = sanitizePersistedWorkspace persisted in
      w\<lparr>ss_history :=
          sanitizePersistedCommandHistory (coalesce hist (ss_history current)) (ss_panes w)\<rparr>)"

subsection \<open>The titles of duplicates\<close>

definition getDuplicateTitleIndex :: "string \<Rightarrow> string \<Rightarrow> int option" where
  "getDuplicateTitleIndex title base =
     (if title = base then Some 1
      else let prefix = base @ '' ('' in
        if \<not> starts_with prefix title \<or> \<not> ends_with '')'' title then None
        else let suffix = butlast (drop (length prefix) title) in
          if suffix = [] \<or> \<not> list_all digit suffix then None
          else case parse_int suffix of
                 Finite i \<Rightarrow> if safe_integer i \<and> i > 0 then Some i else None
               | _ \<Rightarrow> None)"

definition title_indexes :: "tab list \<Rightarrow> string \<Rightarrow> int list" where
  "title_indexes tabs base = List.map_filter (\<lambda>t. getDuplicateTitleIndex (t_title t) base) tabs"

text \<open>\<open>Math.max(...)\<close> of a list that is not empty.\<close>

definition max_of :: "int list \<Rightarrow> int" where
  "max_of xs = foldr max (tl xs) (hd xs)"

definition buildDuplicateSessionTitle :: "tab list \<Rightarrow> string \<Rightarrow> string" where
  "buildDuplicateSessionTitle tabs base =
     (let idx = title_indexes tabs base in
      if idx = [] then base else base @ '' ('' @ show_int (max_of idx + 1) @ '')'')"

subsection \<open>Opening and closing\<close>

definition openSessionWorkspace ::
    "string \<Rightarrow> string \<Rightarrow> string \<Rightarrow> host \<Rightarrow> sessions \<Rightarrow> sessions" where
  "openSessionWorkspace now paneUuid tabUuid h s =
     (case List.find (\<lambda>t. t_hostId t = h_id h) (ss_tabs s) of
        Some existing \<Rightarrow> s\<lparr>ss_activeTabId := Some (t_id existing),
          ss_tabs := map_where (\<lambda>t. t_id t = t_id existing) (touchTab now) (ss_tabs s)\<rparr>
      | None \<Rightarrow>
          (let p = createSessionPane now paneUuid h (h_label h);
               t = createSessionTab now tabUuid h p (p_title p)
           in s\<lparr>ss_tabs := ss_tabs s @ [t], ss_panes := obj_set (p_id p) p (ss_panes s),
                ss_activeTabId := Some (t_id t), ss_lastRestoredAt := Some now\<rparr>))"

definition duplicateSessionWorkspace ::
    "string \<Rightarrow> string \<Rightarrow> string \<Rightarrow> host \<Rightarrow> string option \<Rightarrow> sessions \<Rightarrow> sessions" where
  "duplicateSessionWorkspace now paneUuid tabUuid h baseTitle s =
     (let title = buildDuplicateSessionTitle (ss_tabs s) (coalesce baseTitle (h_label h));
          p = createSessionPane now paneUuid h title;
          t = createSessionTab now tabUuid h p title
      in s\<lparr>ss_tabs := ss_tabs s @ [t], ss_panes := obj_set (p_id p) p (ss_panes s),
           ss_activeTabId := Some (t_id t), ss_lastRestoredAt := Some now\<rparr>)"

definition closeSessionTab :: "string \<Rightarrow> sessions \<Rightarrow> sessions" where
  "closeSessionTab tabId s =
     (case List.find (\<lambda>t. t_id t = tabId) (ss_tabs s) of
        None \<Rightarrow> s
      | Some tab \<Rightarrow>
          let nextTabs = filter (\<lambda>t. t_id t \<noteq> tabId) (ss_tabs s) in
          s\<lparr>ss_tabs := nextTabs, ss_panes := obj_del_all (t_paneIds tab) (ss_panes s),
            ss_activeTabId :=
              (if ss_activeTabId s = Some tabId
               then (if nextTabs = [] then None else Some (t_id (last nextTabs)))
               else ss_activeTabId s)\<rparr>)"

definition splitSessionPane :: "string \<Rightarrow> string \<Rightarrow> string \<Rightarrow> host \<Rightarrow> sessions \<Rightarrow> sessions" where
  "splitSessionPane now paneUuid tabId h s =
     (case List.find (\<lambda>t. t_id t = tabId) (ss_tabs s) of
        None \<Rightarrow> s
      | Some tab \<Rightarrow>
          let p = createSessionPane now paneUuid h (h_label h);
              nextTab = touchTab now (tab\<lparr>t_paneIds := t_paneIds tab @ [p_id p],
                                          t_activePaneId := Some (p_id p)\<rparr>)
          in s\<lparr>ss_tabs := map_where (\<lambda>t. t_id t = tabId) (\<lambda>_. nextTab) (ss_tabs s),
               ss_panes := obj_set (p_id p) p (ss_panes s), ss_activeTabId := Some tabId\<rparr>)"

definition first_of :: "'a list \<Rightarrow> 'a option" where
  "first_of xs = (case xs of [] \<Rightarrow> None | x # _ \<Rightarrow> Some x)"

definition removeSessionPane :: "string \<Rightarrow> string \<Rightarrow> string \<Rightarrow> sessions \<Rightarrow> sessions" where
  "removeSessionPane now tabId paneId s =
     (case List.find (\<lambda>t. t_id t = tabId) (ss_tabs s) of
        None \<Rightarrow> s
      | Some tab \<Rightarrow>
          if length (t_paneIds tab) \<le> 1 then closeSessionTab tabId s
          else let nextPaneIds = filter (\<lambda>i. i \<noteq> paneId) (t_paneIds tab);
                   nextTab = touchTab now (tab\<lparr>t_paneIds := nextPaneIds,
                     t_activePaneId := (if t_activePaneId tab = Some paneId then first_of nextPaneIds
                                        else t_activePaneId tab)\<rparr>)
               in s\<lparr>ss_tabs := map_where (\<lambda>t. t_id t = tabId) (\<lambda>_. nextTab) (ss_tabs s),
                    ss_panes := obj_del paneId (ss_panes s)\<rparr>)"

text \<open>One iteration of the loop over the tabs in \<open>closePanesForHost\<close>; \<open>tab\<close> is a tab of the list
  the loop started with.\<close>

definition close_panes_step :: "string list \<Rightarrow> tab \<Rightarrow> sessions \<Rightarrow> sessions" where
  "close_panes_step paneIds tab s =
     (let overlap = filter (\<lambda>i. i \<in> set paneIds) (t_paneIds tab) in
      if overlap = [] then s
      else if length overlap = length (t_paneIds tab) then closeSessionTab (t_id tab) s
      else let newPaneIds = filter (\<lambda>i. i \<notin> set paneIds) (t_paneIds tab) in
        s\<lparr>ss_tabs := map_where (\<lambda>t. t_id t = t_id tab)
           (\<lambda>t. t\<lparr>t_paneIds := newPaneIds,
                  t_activePaneId := (if t_activePaneId t \<in> Some ` set newPaneIds
                                     then t_activePaneId t else first_of newPaneIds)\<rparr>)
           (ss_tabs s)\<rparr>)"

definition panes_of_host :: "string \<Rightarrow> sessions \<Rightarrow> string list" where
  "panes_of_host hostId s = map p_id (filter (\<lambda>p. p_hostId p = hostId) (obj_values (ss_panes s)))"

definition closePanesForHost :: "string \<Rightarrow> sessions \<Rightarrow> string list \<times> sessions" where
  "closePanesForHost hostId s =
     (let paneIds = panes_of_host hostId s in
      if paneIds = [] then ([], s)
      else let s' = fold (close_panes_step paneIds) (ss_tabs s) s in
        (closeBackendSessionsForPanes (ss_panes s) paneIds,
         s'\<lparr>ss_panes := obj_del_all paneIds (ss_panes s')\<rparr>))"

subsection \<open>Updates of panes and tabs\<close>

definition updatePaneConnectionState ::
    "string \<Rightarrow> string \<Rightarrow> connection_state \<Rightarrow> string option \<Rightarrow> sessions \<Rightarrow> sessions" where
  "updatePaneConnectionState now paneId st err s =
     update_pane paneId (\<lambda>p. touchPane now (p\<lparr>p_state := st,
       p_error := (if st = ErrorState then (case err of None \<Rightarrow> p_error p | Some e \<Rightarrow> Some e) else None),
       p_reconnect := st = Connected \<or> p_reconnect p\<rparr>)) s"

definition updatePaneReconnectPreference :: "string \<Rightarrow> string \<Rightarrow> bool \<Rightarrow> sessions \<Rightarrow> sessions" where
  "updatePaneReconnectPreference now paneId b s =
     update_pane paneId (\<lambda>p. touchPane now (p\<lparr>p_reconnect := b\<rparr>)) s"

definition updatePanePreviewPersistence :: "string \<Rightarrow> string \<Rightarrow> bool \<Rightarrow> sessions \<Rightarrow> sessions" where
  "updatePanePreviewPersistence now paneId b s =
     (case obj_get (ss_panes s) paneId of
        None \<Rightarrow> s
      | Some p \<Rightarrow> s\<lparr>ss_panes := obj_set paneId (touchPane now (p\<lparr>p_persist := Some b\<rparr>)) (ss_panes s),
          ss_history := map_where (\<lambda>e. he_paneId e = paneId) (\<lambda>e. e\<lparr>he_persist := Some b\<rparr>)
            (ss_history s)\<rparr>)"

definition updatePaneTransport :: "string \<Rightarrow> string \<Rightarrow> session_transport \<Rightarrow> sessions \<Rightarrow> sessions" where
  "updatePaneTransport now paneId tr s =
     update_pane paneId (\<lambda>p. touchPane now (p\<lparr>p_transport := tr\<rparr>)) s"

definition updatePaneBackendSession ::
    "string \<Rightarrow> string \<Rightarrow> string option \<Rightarrow> sessions \<Rightarrow> sessions" where
  "updatePaneBackendSession now paneId backend s =
     update_pane paneId (\<lambda>p. touchPane now (p\<lparr>p_backend := backend\<rparr>)) s"

definition queueCommand :: "string \<Rightarrow> string \<Rightarrow> pane \<Rightarrow> string \<Rightarrow> string option \<Rightarrow> pane" where
  "queueCommand now uuid p command label =
     touchPane now (p\<lparr>p_queue := p_queue p @
       [\<lparr>qc_id = uuid, qc_command = command, qc_label = label, qc_createdAt = now\<rparr>]\<rparr>)"

definition queuePaneCommand ::
    "string \<Rightarrow> string \<Rightarrow> string \<Rightarrow> string \<Rightarrow> string option \<Rightarrow> sessions \<Rightarrow> sessions" where
  "queuePaneCommand now uuid paneId command label s =
     update_pane paneId (\<lambda>p. queueCommand now uuid p command label) s"

definition consumePaneCommand :: "string \<Rightarrow> string \<Rightarrow> string \<Rightarrow> sessions \<Rightarrow> sessions" where
  "consumePaneCommand now paneId commandId s =
     update_pane paneId (\<lambda>p. touchPane now
       (p\<lparr>p_queue := filter (\<lambda>c. qc_id c \<noteq> commandId) (p_queue p)\<rparr>)) s"

definition setActiveSessionTab :: "string \<Rightarrow> sessions \<Rightarrow> sessions" where
  "setActiveSessionTab tabId s =
     (if tabId \<notin> t_id ` set (ss_tabs s) then s else s\<lparr>ss_activeTabId := Some tabId\<rparr>)"

fun find_index :: "('a \<Rightarrow> bool) \<Rightarrow> 'a list \<Rightarrow> nat option" where
  "find_index p [] = None"
| "find_index p (x # xs) = (if p x then Some 0 else map_option Suc (find_index p xs))"

text \<open>The direction is 1 or -1; \<open>%\<close> is applied to a number that is not negative.\<close>

definition cycleSessionTab :: "int \<Rightarrow> sessions \<Rightarrow> sessions" where
  "cycleSessionTab direction s =
     (let n = length (ss_tabs s) in
      if n \<le> 1 then s
      else let start = coalesce (find_index (\<lambda>t. Some (t_id t) = ss_activeTabId s) (ss_tabs s)) 0;
               next = nat ((int start + direction + int n) mod int n)
           in s\<lparr>ss_activeTabId := Some (t_id (ss_tabs s ! next))\<rparr>)"

definition setActiveSessionPane :: "string \<Rightarrow> string \<Rightarrow> string \<Rightarrow> sessions \<Rightarrow> sessions" where
  "setActiveSessionPane now tabId paneId s =
     s\<lparr>ss_tabs := map_where (\<lambda>t. t_id t = tabId \<and> paneId \<in> set (t_paneIds t))
        (\<lambda>t. touchTab now (t\<lparr>t_activePaneId := Some paneId\<rparr>)) (ss_tabs s)\<rparr>"

definition setTabSplitDirection :: "string \<Rightarrow> string \<Rightarrow> split_direction \<Rightarrow> sessions \<Rightarrow> sessions" where
  "setTabSplitDirection now tabId d s =
     s\<lparr>ss_tabs := map_where (\<lambda>t. t_id t = tabId) (\<lambda>t. touchTab now (t\<lparr>t_direction := d\<rparr>)) (ss_tabs s)\<rparr>"

text \<open>The doubles the literals \<open>0.1\<close> and \<open>0.9\<close> stand for.\<close>

definition MIN_SPLIT_RATIO :: rat where
  "MIN_SPLIT_RATIO = 3602879701896397 / 36028797018963968"

definition MAX_SPLIT_RATIO :: rat where
  "MAX_SPLIT_RATIO = 8106479329266893 / 9007199254740992"

definition setTabSplitRatio :: "string \<Rightarrow> string \<Rightarrow> rat number \<Rightarrow> sessions \<Rightarrow> sessions" where
  "setTabSplitRatio now tabId ratio s =
     (case ratio of
        Finite r \<Rightarrow> s\<lparr>ss_tabs := map_where (\<lambda>t. t_id t = tabId)
          (\<lambda>t. touchTab now (t\<lparr>t_ratio := Some (min MAX_SPLIT_RATIO (max MIN_SPLIT_RATIO r))\<rparr>))
          (ss_tabs s)\<rparr>
      | _ \<Rightarrow> s)"

definition reorderSessionTabs :: "int \<Rightarrow> int \<Rightarrow> sessions \<Rightarrow> sessions" where
  "reorderSessionTabs fromIndex toIndex s =
     (let n = int (length (ss_tabs s)) in
      if fromIndex = toIndex \<or> fromIndex < 0 \<or> toIndex < 0 \<or> fromIndex \<ge> n \<or> toIndex \<ge> n then s
      else s\<lparr>ss_tabs := move_at (nat fromIndex) (nat toIndex) (ss_tabs s)\<rparr>)"

subsection \<open>The command history\<close>

definition recordPaneCommandHistory ::
    "string \<Rightarrow> string \<Rightarrow> string \<Rightarrow> string \<Rightarrow> history_source \<Rightarrow> sessions \<Rightarrow> sessions" where
  "recordPaneCommandHistory now uuid paneId command src s =
     (case obj_get (ss_panes s) paneId of
        None \<Rightarrow> s
      | Some p \<Rightarrow>
          if trim command = [] then s
          else s\<lparr>ss_history := limitCommandHistory
            (\<lparr>he_id = uuid, he_paneId = paneId, he_hostId = p_hostId p, he_transport = p_transport p,
              he_command = trim command, he_source = src,
              he_persist = p_persist (normalizePersistedPane p), he_output = None,
              he_outputAt = None, he_createdAt = now\<rparr> # ss_history s)\<rparr>)"

text \<open>The regular expression of the ANSI control sequences: \<open>ESC [\<close>, parameter bytes
  \<open>[0-9;?]*\<close>, intermediate bytes \<open>[ -/]*\<close> and a final byte \<open>[@-~]\<close>. The three classes are
  disjoint, so the greedy match is the only one.\<close>

definition csi_param :: "char \<Rightarrow> bool" where
  "csi_param c \<longleftrightarrow> digit c \<or> c = CHR '';'' \<or> c = CHR ''?''"

definition csi_intermediate :: "char \<Rightarrow> bool" where
  "csi_intermediate c \<longleftrightarrow> 0x20 \<le> (of_char c :: nat) \<and> (of_char c :: nat) \<le> 0x2F"

definition csi_final :: "char \<Rightarrow> bool" where
  "csi_final c \<longleftrightarrow> 0x40 \<le> (of_char c :: nat) \<and> (of_char c :: nat) \<le> 0x7E"

definition match_csi :: "string \<Rightarrow> string option" where
  "match_csi s =
     (if starts_with [CHR 0x1B, CHR ''[''] s
      then (case dropWhile csi_intermediate (dropWhile csi_param (drop 2 s)) of
              [] \<Rightarrow> None
            | c # rest \<Rightarrow> if csi_final c then Some rest else None)
      else None)"

lemma match_csi_shorter: "match_csi s = Some rest \<Longrightarrow> length rest < length s"
proof -
  assume "match_csi s = Some rest"
  then obtain c where c: "dropWhile csi_intermediate (dropWhile csi_param (drop 2 s)) = c # rest"
    by (auto simp: match_csi_def split: if_splits list.splits)
  have "length (dropWhile csi_intermediate (dropWhile csi_param (drop 2 s))) \<le> length s"
    using length_dropWhile_le[of csi_intermediate "dropWhile csi_param (drop 2 s)"]
      length_dropWhile_le[of csi_param "drop 2 s"] by simp
  with c show ?thesis by simp
qed

function strip_ansi :: "string \<Rightarrow> string" where
  "strip_ansi [] = []"
| "strip_ansi (c # s) =
     (case match_csi (c # s) of None \<Rightarrow> c # strip_ansi s | Some rest \<Rightarrow> strip_ansi rest)"
  by pat_completeness auto
termination by (relation "measure length") (auto dest: match_csi_shorter)

definition normalizeCommandHistoryOutput :: "string \<Rightarrow> string" where
  "normalizeCommandHistoryOutput output =
     trim (filter (\<lambda>c. c \<noteq> CHR 0x07) (filter (\<lambda>c. c \<noteq> CHR 0x0D) (strip_ansi output)))"

text \<open>\<open>text.slice(-n)\<close>\<close>

definition last_chars :: "nat \<Rightarrow> string \<Rightarrow> string" where
  "last_chars n s = drop (length s - n) s"

definition appended_output :: "string option \<Rightarrow> string \<Rightarrow> string" where
  "appended_output old new =
     trim (last_chars SESSION_HISTORY_OUTPUT_LIMIT
       ((if truthy old then coalesce old [] @ [CHR 0x0A] else []) @ new))"

definition appendPaneCommandHistoryOutput :: "string \<Rightarrow> string \<Rightarrow> string \<Rightarrow> sessions \<Rightarrow> sessions" where
  "appendPaneCommandHistoryOutput now entryId output s =
     (let out = normalizeCommandHistoryOutput output in
      if out = [] then s
      else s\<lparr>ss_history := map_where (\<lambda>e. he_id e = entryId)
        (\<lambda>e. e\<lparr>he_output := Some (appended_output (he_output e) out), he_outputAt := Some now\<rparr>)
        (ss_history s)\<rparr>)"

subsection \<open>The store's actions\<close>

definition openSession :: "string \<Rightarrow> string \<Rightarrow> string \<Rightarrow> host \<Rightarrow> sessions \<Rightarrow> string \<times> sessions" where
  "openSession now paneUuid tabUuid h s =
     (let s' = openSessionWorkspace now paneUuid tabUuid h s in (coalesce (ss_activeTabId s') [], s'))"

definition duplicateSession ::
    "string \<Rightarrow> string \<Rightarrow> string \<Rightarrow> host \<Rightarrow> string option \<Rightarrow> sessions \<Rightarrow> string \<times> sessions" where
  "duplicateSession now paneUuid tabUuid h base s =
     (let s' = duplicateSessionWorkspace now paneUuid tabUuid h base s
      in (coalesce (ss_activeTabId s') [], s'))"

definition closeTab :: "string \<Rightarrow> sessions \<Rightarrow> string list \<times> sessions" where
  "closeTab tabId s =
     ((case List.find (\<lambda>t. t_id t = tabId) (ss_tabs s) of
         None \<Rightarrow> []
       | Some tab \<Rightarrow> closeBackendSessionsForPanes (ss_panes s) (t_paneIds tab)),
      closeSessionTab tabId s)"

definition closePane :: "string \<Rightarrow> string \<Rightarrow> string \<Rightarrow> sessions \<Rightarrow> string list \<times> sessions" where
  "closePane now tabId paneId s =
     (closeBackendSessionsForPanes (ss_panes s) [paneId], removeSessionPane now tabId paneId s)"

definition recordPaneCommand ::
    "string \<Rightarrow> string \<Rightarrow> string \<Rightarrow> string \<Rightarrow> sessions \<Rightarrow> string option \<times> sessions" where
  "recordPaneCommand now uuid paneId command s =
     (let s' = recordPaneCommandHistory now uuid paneId command Queued s
      in (map_option he_id (first_of (ss_history s')), s'))"

definition clearCommandHistory :: "sessions \<Rightarrow> sessions" where
  "clearCommandHistory s = s\<lparr>ss_history := []\<rparr>"

text \<open>The three identifiers of a host are those of the pane, the tab and the command, should the
  iteration need them. \<open>panes[undefined]\<close> looks up the key \<open>undefined\<close>.\<close>

definition queue_for_host ::
    "string \<Rightarrow> string \<Rightarrow> string option \<Rightarrow> host \<times> string \<times> string \<times> string \<Rightarrow>
     string list \<times> sessions \<Rightarrow> string list \<times> sessions" where
  "queue_for_host now command label x r =
     (case x of (h, paneUuid, tabUuid, cmdUuid) \<Rightarrow> case r of (ids, s) \<Rightarrow>
        let s1 = openSessionWorkspace now paneUuid tabUuid h s in
        (case List.find (\<lambda>t. t_hostId t = h_id h) (ss_tabs s1) of
           None \<Rightarrow> (ids, s1)
         | Some t \<Rightarrow>
             let p = coalesce (t_activePaneId t) ''undefined'' in
             (ids @ [p], queuePaneCommand now cmdUuid p command label s1)))"

definition queueCommandForHosts ::
    "string \<Rightarrow> (host \<times> string \<times> string \<times> string) list \<Rightarrow> string \<Rightarrow> string option \<Rightarrow> sessions \<Rightarrow>
     string list \<times> sessions" where
  "queueCommandForHosts now hosts command label s =
     fold (queue_for_host now command label) hosts ([], s)"

definition togglePaneConnection :: "string \<Rightarrow> string \<Rightarrow> sessions \<Rightarrow> sessions" where
  "togglePaneConnection now paneId s =
     (case obj_get (ss_panes s) paneId of
        None \<Rightarrow> s
      | Some p \<Rightarrow> updatePaneConnectionState now paneId
          (if p_state p = Connected then Disconnected else Connecting) None s)"

text \<open>\<open>lib/active-pane-dispatch.ts\<close>, over the sessions and the hosts.\<close>

definition dispatchCommandToActivePane ::
    "(string \<Rightarrow> string \<Rightarrow> int) \<Rightarrow> string \<Rightarrow> string \<Rightarrow> string \<Rightarrow> string option \<Rightarrow>
     sessions \<times> host list \<Rightarrow> bool \<times> sessions \<times> host list" where
  "dispatchCommandToActivePane lc now uuid command label w = (case w of (s, hosts) \<Rightarrow>
     (case List.find (\<lambda>t. Some (t_id t) = ss_activeTabId s) (ss_tabs s) of
        None \<Rightarrow> (False, s, hosts)
      | Some t \<Rightarrow>
          (case obj_get (ss_panes s) (coalesce (t_activePaneId t) ''undefined'') of
             None \<Rightarrow> (False, s, hosts)
           | Some p \<Rightarrow> (True, queuePaneCommand now uuid (p_id p) command label s,
               markHostConnectedInCollection lc now hosts (p_hostId p)))))"

end
