(* ===== verification/SessionsInv.thy ===== *)
theory SessionsInv
  imports Sessions
begin

section \<open>The invariants of the session workspace\<close>

text \<open>
  \<open>workspace_ok\<close>: the tabs have distinct identifiers and share no pane, each has panes and one of
  them active, the panes that are stored are exactly the panes of the tabs, and the active tab
  exists as soon as there is a tab. Every action of the store keeps it; \<open>closePanesForHost\<close>
  breaks it on the way and restores it at the end.
\<close>

definition pane_ids :: "tab list \<Rightarrow> string list" where
  "pane_ids tabs = concat (map t_paneIds tabs)"

definition tab_wf :: "tab \<Rightarrow> bool" where
  "tab_wf t \<longleftrightarrow> (case t_activePaneId t of None \<Rightarrow> False | Some p \<Rightarrow> p \<in> set (t_paneIds t))"

definition active_ok :: "tab list \<Rightarrow> string option \<Rightarrow> bool" where
  "active_ok tabs active \<longleftrightarrow>
     (case active of None \<Rightarrow> tabs = [] | Some i \<Rightarrow> i \<in> t_id ` set tabs)"

definition tabs_wf :: "tab list \<Rightarrow> bool" where
  "tabs_wf tabs \<longleftrightarrow> distinct (map t_id tabs) \<and> distinct (pane_ids tabs) \<and> list_all tab_wf tabs"

definition panes_wf :: "pane obj \<Rightarrow> bool" where
  "panes_wf panes \<longleftrightarrow> obj_wf panes \<and> list_all (\<lambda>(k, p). p_id p = k) panes"

definition workspace_ok :: "sessions \<Rightarrow> bool" where
  "workspace_ok s \<longleftrightarrow> tabs_wf (ss_tabs s) \<and> panes_wf (ss_panes s) \<and>
     fst ` set (ss_panes s) = set (pane_ids (ss_tabs s)) \<and>
     active_ok (ss_tabs s) (ss_activeTabId s)"

lemma pane_ids_simps [simp]:
  "pane_ids [] = []" "pane_ids (t # ts) = t_paneIds t @ pane_ids ts"
  "pane_ids (ts @ us) = pane_ids ts @ pane_ids us"
  by (simp_all add: pane_ids_def)

lemma tab_wf_panes: "tab_wf t \<Longrightarrow> t_paneIds t \<noteq> []"
  by (auto simp: tab_wf_def split: option.splits)

lemma touchTab_simps [simp]:
  "t_id (touchTab now t) = t_id t" "t_paneIds (touchTab now t) = t_paneIds t"
  "t_activePaneId (touchTab now t) = t_activePaneId t" "t_hostId (touchTab now t) = t_hostId t"
  "t_title (touchTab now t) = t_title t" "t_ratio (touchTab now t) = t_ratio t"
  by (simp_all add: touchTab_def)

lemma tab_wf_touch [simp]: "tab_wf (touchTab now t) = tab_wf t"
  by (simp only: tab_wf_def touchTab_simps)

lemma tab_wf_fields [simp]:
  "tab_wf (t\<lparr>t_direction := d\<rparr>) = tab_wf t" "tab_wf (t\<lparr>t_ratio := r\<rparr>) = tab_wf t"
  "tab_wf (t\<lparr>t_activePaneId := Some j\<rparr>) = (j \<in> set (t_paneIds t))"
  by (auto simp: tab_wf_def split: option.split)

lemma other_ids: "i \<notin> t_id ` set ts \<Longrightarrow> t \<in> set ts \<Longrightarrow> t_id t \<noteq> i"
  by blast

lemma touchPane_simps [simp]:
  "p_id (touchPane now p) = p_id p" "p_backend (touchPane now p) = p_backend p"
  "p_hostId (touchPane now p) = p_hostId p" "p_queue (touchPane now p) = p_queue p"
  "p_state (touchPane now p) = p_state p" "p_error (touchPane now p) = p_error p"
  "p_reconnect (touchPane now p) = p_reconnect p"
  by (simp_all add: touchPane_def)

lemma createSessionPane_id [simp]: "p_id (createSessionPane now u h t) = u"
  by (simp add: createSessionPane_def)

lemma createSessionTab_simps [simp]:
  "t_id (createSessionTab now u h p t) = u" "t_paneIds (createSessionTab now u h p t) = [p_id p]"
  "t_activePaneId (createSessionTab now u h p t) = Some (p_id p)"
  "t_hostId (createSessionTab now u h p t) = h_id h" "t_title (createSessionTab now u h p t) = t"
  by (simp_all add: createSessionTab_def)

subsection \<open>Taking a tab out of the list\<close>

lemma find_tab_split:
  assumes "distinct (map t_id tabs)" "List.find (\<lambda>t. t_id t = i) tabs = Some tab"
  obtains xs ys where "tabs = xs @ tab # ys" "t_id tab = i"
    "\<And>t. t \<in> set xs \<Longrightarrow> t_id t \<noteq> i" "\<And>t. t \<in> set ys \<Longrightarrow> t_id t \<noteq> i"
proof -
  have tab: "tab \<in> set tabs" "t_id tab = i" using find_Some_set[OF assms(2)] by simp_all
  then obtain xs ys where s: "tabs = xs @ tab # ys" by (meson split_list)
  have n: "i \<notin> t_id ` set xs" "i \<notin> t_id ` set ys" using assms(1) tab(2) by (auto simp: s)
  show thesis
  proof (rule that[OF s tab(2)])
    show "t_id t \<noteq> i" if "t \<in> set xs" for t using n(1) that by blast
    show "t_id t \<noteq> i" if "t \<in> set ys" for t using n(2) that by blast
  qed
qed

lemma replace_tab_split:
  assumes "tabs = xs @ tab # ys" "t_id tab = i"
    "\<And>t. t \<in> set xs \<Longrightarrow> t_id t \<noteq> i" "\<And>t. t \<in> set ys \<Longrightarrow> t_id t \<noteq> i"
  shows "map_where (\<lambda>t. t_id t = i) f tabs = xs @ f tab # ys"
    "filter (\<lambda>t. t_id t \<noteq> i) tabs = xs @ ys"
  using assms by (simp_all add: map_where_none filter_id_conv)

lemma tabs_wf_split:
  "tabs_wf (xs @ t # ys) \<longleftrightarrow> tabs_wf (xs @ ys) \<and> tab_wf t \<and> t_id t \<notin> t_id ` set (xs @ ys) \<and>
     distinct (t_paneIds t) \<and> set (t_paneIds t) \<inter> set (pane_ids (xs @ ys)) = {}"
  by (auto simp: tabs_wf_def)

lemma active_ok_replace:
  "active_ok (xs @ t # ys) a \<Longrightarrow> t_id t' = t_id t \<Longrightarrow> active_ok (xs @ t' # ys) a"
  by (auto simp: active_ok_def split: option.splits)

lemma active_ok_map:
  "active_ok tabs a \<Longrightarrow> map t_id tabs' = map t_id tabs \<Longrightarrow> active_ok tabs' a"
proof -
  assume a: "active_ok tabs a" and m: "map t_id tabs' = map t_id tabs"
  have "t_id ` set tabs' = t_id ` set tabs" using arg_cong[OF m, of set] by simp
  moreover have "tabs' = [] \<longleftrightarrow> tabs = []" using arg_cong[OF m, of length] by auto
  ultimately show ?thesis using a by (cases a) (simp_all add: active_ok_def)
qed

lemma active_ok_remove:
  assumes "active_ok (xs @ t # ys) a"
  shows "active_ok (xs @ ys) (if a = Some (t_id t)
    then (if xs @ ys = [] then None else Some (t_id (last (xs @ ys)))) else a)"
proof (cases "a = Some (t_id t)")
  case True
  have "xs @ ys \<noteq> [] \<Longrightarrow> t_id (last (xs @ ys)) \<in> t_id ` set (xs @ ys)"
    by (intro imageI last_in_set)
  with True show ?thesis by (simp add: active_ok_def)
next
  case False
  with assms show ?thesis by (auto simp: active_ok_def split: option.splits)
qed

subsection \<open>Changing panes\<close>

lemma panes_wf_set:
  assumes "panes_wf panes" "p_id p = k"
  shows "panes_wf (obj_set k p panes)"
  unfolding panes_wf_def
proof (rule conjI)
  show "obj_wf (obj_set k p panes)"
    by (rule obj_wf_set) (rule assms(1)[unfolded panes_wf_def, THEN conjunct1])
  have old: "list_all (\<lambda>(j, q). p_id q = j) panes"
    by (rule assms(1)[unfolded panes_wf_def, THEN conjunct2])
  show "list_all (\<lambda>(j, q). p_id q = j) (obj_set k p panes)"
    unfolding list_all_iff
  proof (rule ballI)
    fix x assume "x \<in> set (obj_set k p panes)"
    then have "x \<in> insert (k, p) (set panes)" by (rule subsetD[OF set_obj_set_subset])
    then show "case x of (j, q) \<Rightarrow> p_id q = j"
    proof (rule insertE)
      assume "x = (k, p)"
      then show ?thesis by (simp only: prod.case assms(2))
    next
      assume "x \<in> set panes"
      then show ?thesis by (rule bspec[OF old[unfolded list_all_iff]])
    qed
  qed
qed

lemma panes_wf_del: "panes_wf panes \<Longrightarrow> panes_wf (obj_del k panes)"
  using set_obj_del_subset[of k panes] by (auto simp: panes_wf_def list_all_iff)

lemma panes_wf_del_all: "panes_wf panes \<Longrightarrow> panes_wf (obj_del_all ks panes)"
  unfolding obj_del_all_def by (induction ks arbitrary: panes) (auto simp: panes_wf_del)

lemma panes_wf_get: "panes_wf panes \<Longrightarrow> obj_get panes k = Some p \<Longrightarrow> p_id p = k"
  by (auto simp: panes_wf_def list_all_iff dest: map_of_SomeD)

lemma keys_set_present: "obj_get panes k = Some p \<Longrightarrow> fst ` set (obj_set k q panes) = fst ` set panes"
proof -
  assume "obj_get panes k = Some p"
  then have "k \<in> fst ` set panes" by (metis map_of_SomeD fst_conv imageI)
  then show ?thesis unfolding keys_obj_set by (rule insert_absorb)
qed

lemma update_pane_ok:
  assumes "workspace_ok s" "\<And>p. p_id (f p) = p_id p"
  shows "workspace_ok (update_pane i f s)"
proof (cases "obj_get (ss_panes s) i")
  case (Some p)
  then have "panes_wf (obj_set i (f p) (ss_panes s))"
    using assms panes_wf_get[of "ss_panes s" i p] by (intro panes_wf_set) (auto simp: workspace_ok_def)
  with Some assms show ?thesis
    by (simp add: workspace_ok_def update_pane_def keys_set_present[OF Some])
qed (simp add: update_pane_def assms)

lemma pane_updates_ok [inv_intros]:
  assumes "workspace_ok s"
  shows "workspace_ok (updatePaneConnectionState now i st err s)"
    "workspace_ok (updatePaneReconnectPreference now i b s)"
    "workspace_ok (updatePaneTransport now i tr s)"
    "workspace_ok (updatePaneBackendSession now i be s)"
    "workspace_ok (queuePaneCommand now u i cmd label s)"
    "workspace_ok (consumePaneCommand now i c s)"
    "workspace_ok (togglePaneConnection now i s)"
  using assms
  by (auto simp: updatePaneConnectionState_def updatePaneReconnectPreference_def
      updatePaneTransport_def updatePaneBackendSession_def queuePaneCommand_def queueCommand_def
      consumePaneCommand_def togglePaneConnection_def intro!: update_pane_ok split: option.split)

lemma workspace_ok_history [simp]: "workspace_ok (s\<lparr>ss_history := h\<rparr>) = workspace_ok s"
  by (simp add: workspace_ok_def)

lemma preview_ok [inv_intros]:
  "workspace_ok s \<Longrightarrow> workspace_ok (updatePanePreviewPersistence now i b s)"
proof -
  assume "workspace_ok s"
  then have "workspace_ok (update_pane i (\<lambda>p. touchPane now (p\<lparr>p_persist := Some b\<rparr>)) s)"
    by (rule update_pane_ok) simp
  moreover have "updatePanePreviewPersistence now i b s =
      (update_pane i (\<lambda>p. touchPane now (p\<lparr>p_persist := Some b\<rparr>)) s)\<lparr>ss_history :=
        ss_history (updatePanePreviewPersistence now i b s)\<rparr>"
    by (simp add: updatePanePreviewPersistence_def update_pane_def split: option.split)
  ultimately show ?thesis by (metis workspace_ok_history)
qed

subsection \<open>Adding, changing and closing tabs\<close>

lemma add_tab_ok:
  assumes "workspace_ok s" "p_id p \<notin> fst ` set (ss_panes s)" "t_id t \<notin> t_id ` set (ss_tabs s)"
    "t_paneIds t = [p_id p]" "t_activePaneId t = Some (p_id p)"
  shows "workspace_ok (s\<lparr>ss_tabs := ss_tabs s @ [t], ss_panes := obj_set (p_id p) p (ss_panes s),
    ss_activeTabId := Some (t_id t), ss_lastRestoredAt := r\<rparr>)"
proof -
  have "tabs_wf (ss_tabs s @ [t])"
    using assms tabs_wf_split[of "ss_tabs s" t "[]"] by (simp add: workspace_ok_def tab_wf_def)
  then show ?thesis
    using assms panes_wf_set[of "ss_panes s" p "p_id p"]
    by (simp add: workspace_ok_def keys_obj_set active_ok_def)
qed

lemma map_tabs_ok:
  assumes "workspace_ok s" "map t_id tabs = map t_id (ss_tabs s)"
    "map t_paneIds tabs = map t_paneIds (ss_tabs s)" "list_all tab_wf tabs"
    "active_ok tabs a"
  shows "workspace_ok (s\<lparr>ss_tabs := tabs, ss_activeTabId := a\<rparr>)"
  using assms by (simp add: workspace_ok_def tabs_wf_def pane_ids_def)

lemma map_where_tabs_ok:
  assumes "workspace_ok s" "\<And>t. p t \<Longrightarrow> t_id (f t) = t_id t" "\<And>t. p t \<Longrightarrow> t_paneIds (f t) = t_paneIds t"
    "\<And>t. p t \<Longrightarrow> tab_wf t \<Longrightarrow> tab_wf (f t)"
    "a = ss_activeTabId s \<or> (\<exists>i. a = Some i \<and> i \<in> t_id ` set (ss_tabs s))"
  shows "workspace_ok (s\<lparr>ss_tabs := map_where p f (ss_tabs s), ss_activeTabId := a\<rparr>)"
proof -
  have ids: "map t_id (map_where p f (ss_tabs s)) = map t_id (ss_tabs s)"
    using assms(2) by (rule map_map_where_id)
  have "active_ok (ss_tabs s) a" using assms(1,5) by (auto simp: workspace_ok_def active_ok_def)
  then have "active_ok (map_where p f (ss_tabs s)) a" using ids by (rule active_ok_map)
  moreover have "list_all tab_wf (map_where p f (ss_tabs s))"
    using assms(1,4) by (auto simp: workspace_ok_def tabs_wf_def list_all_iff map_where_def)
  ultimately show ?thesis
    using assms(1) ids map_map_where_id[of p t_paneIds f, OF assms(3)] by (intro map_tabs_ok)
qed

lemma sessions_same [simp]:
  "s\<lparr>ss_tabs := t, ss_activeTabId := ss_activeTabId s\<rparr> = s\<lparr>ss_tabs := t\<rparr>"
  "s\<lparr>ss_activeTabId := a, ss_tabs := t\<rparr> = s\<lparr>ss_tabs := t, ss_activeTabId := a\<rparr>"
  "s\<lparr>ss_tabs := ss_tabs s, ss_activeTabId := a\<rparr> = s\<lparr>ss_activeTabId := a\<rparr>"
  by simp_all

lemma touched_tabs_ok:
  assumes "workspace_ok s" "\<And>t. p t \<Longrightarrow> t_id (f t) = t_id t" "\<And>t. p t \<Longrightarrow> t_paneIds (f t) = t_paneIds t"
    "\<And>t. p t \<Longrightarrow> tab_wf t \<Longrightarrow> tab_wf (f t)"
  shows "workspace_ok (s\<lparr>ss_tabs := map_where p f (ss_tabs s)\<rparr>)"
  using map_where_tabs_ok[OF assms(1), of p f "ss_activeTabId s"] assms(2-) by simp

lemma openSessionWorkspace_ok [inv_intros]:
  assumes "workspace_ok s" "pu \<notin> fst ` set (ss_panes s)" "tu \<notin> t_id ` set (ss_tabs s)"
  shows "workspace_ok (openSessionWorkspace now pu tu h s)"
proof (cases "List.find (\<lambda>t. t_hostId t = h_id h) (ss_tabs s)")
  case None
  then show ?thesis
    using add_tab_ok[OF assms(1), of "createSessionPane now pu h (h_label h)"
        "createSessionTab now tu h (createSessionPane now pu h (h_label h)) (h_label h)"] assms(2,3)
    by (simp add: openSessionWorkspace_def Let_def createSessionPane_def)
next
  case (Some t)
  then have "t_id t \<in> t_id ` set (ss_tabs s)" by (auto dest: find_Some_set)
  then have "workspace_ok (s\<lparr>ss_tabs := map_where (\<lambda>t'. t_id t' = t_id t) (touchTab now) (ss_tabs s),
      ss_activeTabId := Some (t_id t)\<rparr>)"
    by (intro map_where_tabs_ok[OF assms(1)]) simp_all
  with Some show ?thesis by (simp add: openSessionWorkspace_def)
qed

lemma duplicateSessionWorkspace_ok [inv_intros]:
  "workspace_ok s \<Longrightarrow> pu \<notin> fst ` set (ss_panes s) \<Longrightarrow> tu \<notin> t_id ` set (ss_tabs s) \<Longrightarrow>
   workspace_ok (duplicateSessionWorkspace now pu tu h base s)"
  unfolding duplicateSessionWorkspace_def Let_def by (rule add_tab_ok) simp_all

lemma distinct_ids_split:
  assumes "distinct (map t_id (xs @ t # ys))"
  shows "\<And>u. u \<in> set xs \<Longrightarrow> t_id u \<noteq> t_id t" "\<And>u. u \<in> set ys \<Longrightarrow> t_id u \<noteq> t_id t"
proof -
  have "t_id t \<notin> t_id ` set xs" "t_id t \<notin> t_id ` set ys" using assms by auto
  note n = this
  show "\<And>u. u \<in> set xs \<Longrightarrow> t_id u \<noteq> t_id t" by (rule other_ids[OF n(1)])
  show "\<And>u. u \<in> set ys \<Longrightarrow> t_id u \<noteq> t_id t" by (rule other_ids[OF n(2)])
qed

lemma find_first_tab:
  "distinct (map t_id (xs @ t # ys)) \<Longrightarrow> List.find (\<lambda>u. t_id u = t_id t) (xs @ t # ys) = Some t"
  by (induction xs) auto

lemma closeSessionTab_at:
  assumes "ss_tabs s = xs @ t # ys" "distinct (map t_id (xs @ t # ys))"
  shows "closeSessionTab (t_id t) s = s\<lparr>ss_tabs := xs @ ys,
    ss_panes := obj_del_all (t_paneIds t) (ss_panes s),
    ss_activeTabId := (if ss_activeTabId s = Some (t_id t)
      then (if xs @ ys = [] then None else Some (t_id (last (xs @ ys)))) else ss_activeTabId s)\<rparr>"
proof -
  have "filter (\<lambda>u. t_id u \<noteq> t_id t) (ss_tabs s) = xs @ ys"
    using replace_tab_split(2)[OF assms(1) refl distinct_ids_split[OF assms(2)]] .
  then show ?thesis
    by (simp only: closeSessionTab_def assms(1) find_first_tab[OF assms(2)] option.case Let_def)
qed

lemma closeSessionTab_split:
  assumes "distinct (map t_id (ss_tabs s))" "List.find (\<lambda>t. t_id t = i) (ss_tabs s) = Some t"
  obtains xs ys where "ss_tabs s = xs @ t # ys" "t_id t = i"
    "closeSessionTab i s = s\<lparr>ss_tabs := xs @ ys, ss_panes := obj_del_all (t_paneIds t) (ss_panes s),
       ss_activeTabId := (if ss_activeTabId s = Some (t_id t)
         then (if xs @ ys = [] then None else Some (t_id (last (xs @ ys)))) else ss_activeTabId s)\<rparr>"
proof -
  obtain xs ys where s: "ss_tabs s = xs @ t # ys" "t_id t = i"
    using find_tab_split[OF assms] by metis
  show thesis using that[OF s] closeSessionTab_at[OF s(1)] assms(1) s by metis
qed

lemma closeSessionTab_ok [inv_intros]: "workspace_ok s \<Longrightarrow> workspace_ok (closeSessionTab i s)"
proof (cases "List.find (\<lambda>t. t_id t = i) (ss_tabs s)")
  case (Some t)
  assume ok: "workspace_ok s"
  then have dist: "distinct (map t_id (ss_tabs s))" by (simp add: workspace_ok_def tabs_wf_def)
  obtain xs ys where s: "ss_tabs s = xs @ t # ys"
    "closeSessionTab i s = s\<lparr>ss_tabs := xs @ ys, ss_panes := obj_del_all (t_paneIds t) (ss_panes s),
       ss_activeTabId := (if ss_activeTabId s = Some (t_id t)
         then (if xs @ ys = [] then None else Some (t_id (last (xs @ ys)))) else ss_activeTabId s)\<rparr>"
    by (rule closeSessionTab_split[OF dist Some])
  have wf: "tabs_wf (xs @ t # ys)" and keys: "fst ` set (ss_panes s) = set (pane_ids (xs @ t # ys))"
    and act: "active_ok (xs @ t # ys) (ss_activeTabId s)" and panes: "panes_wf (ss_panes s)"
    using ok by (simp_all add: workspace_ok_def s(1))
  have "fst ` set (obj_del_all (t_paneIds t) (ss_panes s)) = set (pane_ids (xs @ ys))"
    using wf unfolding keys_obj_del_all keys tabs_wf_split by auto
  then show ?thesis
    using wf panes_wf_del_all[OF panes] active_ok_remove[OF act]
    unfolding s(2) workspace_ok_def tabs_wf_split by simp
qed (simp add: closeSessionTab_def)

lemma replace_tab_ok:
  assumes "workspace_ok s" "List.find (\<lambda>t. t_id t = i) (ss_tabs s) = Some t"
    "t_id t' = t_id t" "tab_wf t'" "distinct (t_paneIds t')" "panes_wf panes"
    "set (t_paneIds t') \<inter> fst ` set (ss_panes s) \<subseteq> set (t_paneIds t)"
    "fst ` set panes = (fst ` set (ss_panes s) - set (t_paneIds t)) \<union> set (t_paneIds t')"
    "a = ss_activeTabId s \<or> a = Some i"
  shows "workspace_ok (s\<lparr>ss_tabs := map_where (\<lambda>t. t_id t = i) (\<lambda>_. t') (ss_tabs s),
    ss_panes := panes, ss_activeTabId := a\<rparr>)"
proof -
  have dist: "distinct (map t_id (ss_tabs s))" using assms(1) by (simp add: workspace_ok_def tabs_wf_def)
  obtain xs ys where s: "ss_tabs s = xs @ t # ys" "t_id t = i"
    "\<And>t. t \<in> set xs \<Longrightarrow> t_id t \<noteq> i" "\<And>t. t \<in> set ys \<Longrightarrow> t_id t \<noteq> i"
    using find_tab_split[OF dist assms(2)] by metis
  have tabs: "map_where (\<lambda>t. t_id t = i) (\<lambda>_. t') (ss_tabs s) = xs @ t' # ys"
    by (rule replace_tab_split(1)[OF s])
  have keys: "fst ` set (ss_panes s) = set (pane_ids (xs @ t # ys))" and wf: "tabs_wf (xs @ t # ys)"
    using assms(1) by (simp_all add: workspace_ok_def s(1))
  have dis: "set (t_paneIds t) \<inter> set (pane_ids (xs @ ys)) = {}" using wf by (simp only: tabs_wf_split)
  have mid: "set (pane_ids (xs @ u # ys)) = set (t_paneIds u) \<union> set (pane_ids (xs @ ys))" for u
    by auto
  have "set (t_paneIds t') \<inter> set (pane_ids (xs @ ys)) = {}"
    using assms(7) dis unfolding keys mid by blast
  then have "tabs_wf (xs @ t' # ys)" using wf assms(3-5) by (simp only: tabs_wf_split simp_thms)
  moreover have "fst ` set panes = set (pane_ids (xs @ t' # ys))"
    using assms(8) dis unfolding keys mid by blast
  moreover have "active_ok (xs @ t' # ys) a"
    using assms(1,3,9) active_ok_replace[of xs t ys _ t'] s(1,2)
    by (auto simp: workspace_ok_def active_ok_def)
  ultimately show ?thesis using assms(6) unfolding tabs by (simp add: workspace_ok_def)
qed

lemma workspace_tab:
  assumes "workspace_ok s" "t \<in> set (ss_tabs s)"
  shows "set (t_paneIds t) \<subseteq> fst ` set (ss_panes s)" "distinct (t_paneIds t)"
    "panes_wf (ss_panes s)" "tab_wf t"
proof -
  show "set (t_paneIds t) \<subseteq> fst ` set (ss_panes s)"
    using assms by (auto simp: workspace_ok_def pane_ids_def)
  show "distinct (t_paneIds t)"
    using assms by (simp add: workspace_ok_def tabs_wf_def pane_ids_def distinct_concat_iff)
  show "panes_wf (ss_panes s)" "tab_wf t"
    using assms by (simp_all add: workspace_ok_def tabs_wf_def list_all_iff)
qed

lemma splitSessionPane_ok [inv_intros]:
  assumes ok: "workspace_ok s" and fresh: "pu \<notin> fst ` set (ss_panes s)"
  shows "workspace_ok (splitSessionPane now pu i h s)"
proof (cases "List.find (\<lambda>t. t_id t = i) (ss_tabs s)")
  case (Some t)
  have t: "t \<in> set (ss_tabs s)" using find_Some_set[OF Some] by simp
  note panes = workspace_tab[OF ok t]
  have "panes_wf (obj_set pu (createSessionPane now pu h (h_label h)) (ss_panes s))"
    using panes(3) by (rule panes_wf_set) simp
  then show ?thesis
    using Some panes fresh unfolding splitSessionPane_def Let_def
    by simp (rule replace_tab_ok[OF ok Some], auto simp: tab_wf_def keys_obj_set)
qed (simp add: splitSessionPane_def ok)

lemma filter_ne_of_two:
  assumes "distinct xs" "\<not> length xs \<le> 1"
  shows "filter (\<lambda>x. x \<noteq> j) xs \<noteq> []"
proof
  assume "filter (\<lambda>x. x \<noteq> j) xs = []"
  then have "set xs \<subseteq> {j}" by (auto simp: filter_empty_conv)
  then have "card (set xs) \<le> 1" using card_mono[of "{j}" "set xs"] by simp
  then show False using assms distinct_card[of xs] by simp
qed

lemma first_of_mem: "xs \<noteq> [] \<Longrightarrow> \<exists>x. first_of xs = Some x \<and> x \<in> set xs"
  by (cases xs) (simp_all add: first_of_def)

lemma removeSessionPane_ok [inv_intros]:
  assumes ok: "workspace_ok s"
    and own: "\<And>t. t \<in> set (ss_tabs s) \<Longrightarrow> t_id t = i \<Longrightarrow> j \<in> set (t_paneIds t)"
  shows "workspace_ok (removeSessionPane now i j s)"
proof (cases "List.find (\<lambda>t. t_id t = i) (ss_tabs s)")
  case (Some t)
  have t: "t \<in> set (ss_tabs s)" "t_id t = i" using find_Some_set[OF Some] by simp_all
  show ?thesis
  proof (cases "length (t_paneIds t) \<le> 1")
    case True
    then show ?thesis using Some closeSessionTab_ok[OF ok] by (simp add: removeSessionPane_def)
  next
    case False
    note panes = workspace_tab[OF ok t(1)]
    have j: "j \<in> set (t_paneIds t)" using own[OF t] .
    let ?next = "filter (\<lambda>x. x \<noteq> j) (t_paneIds t)"
    let ?t = "touchTab now (t\<lparr>t_paneIds := ?next, t_activePaneId := (if t_activePaneId t = Some j
      then first_of ?next else t_activePaneId t)\<rparr>)"
    have "?next \<noteq> []" using filter_ne_of_two[OF panes(2) False] .
    then have "tab_wf ?t"
      using panes(4) first_of_mem[of ?next] by (cases "t_activePaneId t") (auto simp: tab_wf_def)
    moreover have "fst ` set (obj_del j (ss_panes s)) =
        (fst ` set (ss_panes s) - set (t_paneIds t)) \<union> set ?next"
      using panes(1) j unfolding keys_obj_del by auto
    ultimately have "workspace_ok (s\<lparr>ss_tabs := map_where (\<lambda>t. t_id t = i) (\<lambda>_. ?t) (ss_tabs s),
        ss_panes := obj_del j (ss_panes s), ss_activeTabId := ss_activeTabId s\<rparr>)"
      using panes by (intro replace_tab_ok[OF ok Some]) (simp_all add: panes_wf_del, blast)
    then show ?thesis using Some False by (simp add: removeSessionPane_def Let_def)
  qed
qed (simp add: removeSessionPane_def ok)

subsection \<open>The other actions on tabs\<close>

lemma setActiveSessionTab_ok [inv_intros]:
  "workspace_ok s \<Longrightarrow> workspace_ok (setActiveSessionTab i s)"
  by (auto simp: setActiveSessionTab_def workspace_ok_def active_ok_def)

lemma cycle_index:
  "1 < n \<Longrightarrow> nat ((int i + d + int n) mod int n) < n"
  by (simp add: nat_less_iff)

lemma cycleSessionTab_ok [inv_intros]: "workspace_ok s \<Longrightarrow> workspace_ok (cycleSessionTab d s)"
proof (cases "length (ss_tabs s) \<le> 1")
  case False
  assume ok: "workspace_ok s"
  let ?i = "nat ((int (coalesce (find_index (\<lambda>t. Some (t_id t) = ss_activeTabId s) (ss_tabs s)) 0) + d +
    int (length (ss_tabs s))) mod int (length (ss_tabs s)))"
  have "?i < length (ss_tabs s)" using False by (intro cycle_index) simp
  then have "active_ok (ss_tabs s) (Some (t_id (ss_tabs s ! ?i)))" by (simp add: active_ok_def)
  with ok False show ?thesis by (simp add: cycleSessionTab_def Let_def workspace_ok_def)
qed (simp add: cycleSessionTab_def)

lemma tab_updates_ok [inv_intros]:
  assumes "workspace_ok s"
  shows "workspace_ok (setActiveSessionPane now i j s)" "workspace_ok (setTabSplitDirection now i d s)"
    "workspace_ok (setTabSplitRatio now i r s)"
proof -
  show "workspace_ok (setActiveSessionPane now i j s)"
    unfolding setActiveSessionPane_def by (rule touched_tabs_ok[OF assms]) simp_all
  show "workspace_ok (setTabSplitDirection now i d s)"
    unfolding setTabSplitDirection_def by (rule touched_tabs_ok[OF assms]) simp_all
  show "workspace_ok (setTabSplitRatio now i r s)"
  proof (cases r)
    case (Finite x)
    have "workspace_ok (s\<lparr>ss_tabs := map_where (\<lambda>t. t_id t = i) (\<lambda>t. touchTab now
        (t\<lparr>t_ratio := Some (min MAX_SPLIT_RATIO (max MIN_SPLIT_RATIO x))\<rparr>)) (ss_tabs s)\<rparr>)"
      by (rule touched_tabs_ok[OF assms]) simp_all
    then show ?thesis by (simp only: setTabSplitRatio_def Finite number.case)
  qed (simp_all add: setTabSplitRatio_def assms)
qed

lemma tabs_wf_mset:
  "mset tabs' = mset tabs \<Longrightarrow> tabs_wf tabs' = tabs_wf tabs \<and> set (pane_ids tabs') = set (pane_ids tabs) \<and>
   t_id ` set tabs' = t_id ` set tabs"
proof -
  assume m: "mset tabs' = mset tabs"
  then have set: "set tabs' = set tabs" by (rule mset_eq_setD)
  have ids: "mset (map t_id tabs') = mset (map t_id tabs)" using m by simp
  have panes: "mset (pane_ids tabs') = mset (pane_ids tabs)"
    unfolding pane_ids_def mset_concat using m by (metis mset_map sum_mset_sum_list)
  note mset_eq_imp_distinct_iff[OF ids] mset_eq_imp_distinct_iff[OF panes]
  moreover have "set (pane_ids tabs') = set (pane_ids tabs)" using set by (simp add: pane_ids_def)
  ultimately show ?thesis using set by (simp add: tabs_wf_def list_all_iff)
qed

lemma reorder_mset: "mset (ss_tabs (reorderSessionTabs i j s)) = mset (ss_tabs s)"
  by (auto simp: reorderSessionTabs_def Let_def nat_less_iff intro!: mset_move_at)

lemma reorderSessionTabs_ok [inv_intros]: "workspace_ok s \<Longrightarrow> workspace_ok (reorderSessionTabs i j s)"
proof -
  assume ok: "workspace_ok s"
  let ?s = "reorderSessionTabs i j s"
  have other: "ss_panes ?s = ss_panes s" "ss_activeTabId ?s = ss_activeTabId s"
    by (simp_all add: reorderSessionTabs_def Let_def)
  note m = tabs_wf_mset[OF reorder_mset[of i j s]]
  have "ss_tabs ?s = [] \<longleftrightarrow> ss_tabs s = []" using arg_cong[OF reorder_mset[of i j s], of size] by auto
  then have "active_ok (ss_tabs ?s) (ss_activeTabId s) = active_ok (ss_tabs s) (ss_activeTabId s)"
    using m by (cases "ss_activeTabId s") (simp_all add: active_ok_def)
  with ok m show ?thesis unfolding workspace_ok_def other by simp
qed

lemma history_ops_ok [inv_intros]:
  assumes "workspace_ok s"
  shows "workspace_ok (recordPaneCommandHistory now u i c src s)"
    "workspace_ok (appendPaneCommandHistoryOutput now e out s)" "workspace_ok (clearCommandHistory s)"
  using assms
  by (auto simp: recordPaneCommandHistory_def appendPaneCommandHistoryOutput_def clearCommandHistory_def
      Let_def split: option.split)

subsection \<open>Closing every pane of a host\<close>

text \<open>
  The state of the loop of \<open>closePanesForHost\<close>, relative to the panes \<open>X\<close> to close and the tabs
  that are still to be visited: what was visited holds no pane of \<open>X\<close>.
\<close>

definition closing_ok :: "string set \<Rightarrow> tab list \<Rightarrow> sessions \<Rightarrow> bool" where
  "closing_ok X rest s \<longleftrightarrow> tabs_wf (ss_tabs s) \<and> panes_wf (ss_panes s) \<and>
     fst ` set (ss_panes s) \<union> X = set (pane_ids (ss_tabs s)) \<union> X \<and>
     active_ok (ss_tabs s) (ss_activeTabId s) \<and>
     (\<exists>seen. ss_tabs s = seen @ rest \<and> set (pane_ids seen) \<inter> X = {})"

lemma prune_tab_wf:
  assumes "tab_wf t" "filter q (t_paneIds t) \<noteq> []"
  shows "tab_wf (t\<lparr>t_paneIds := filter q (t_paneIds t),
    t_activePaneId := (if t_activePaneId t \<in> Some ` set (filter q (t_paneIds t)) then t_activePaneId t
      else first_of (filter q (t_paneIds t)))\<rparr>)"
proof (cases "t_activePaneId t \<in> Some ` set (filter q (t_paneIds t))")
  case True
  then obtain x where "t_activePaneId t = Some x" "x \<in> set (filter q (t_paneIds t))" by blast
  then show ?thesis using True by (simp add: tab_wf_def)
next
  case False
  then show ?thesis using first_of_mem[OF assms(2)] by (simp only: if_False) (auto simp: tab_wf_def)
qed

lemma pane_ids_mid: "set (pane_ids (xs @ t # ys)) = set (t_paneIds t) \<union> set (pane_ids (xs @ ys))"
  by auto

lemma all_overlap: "length (filter p xs) = length xs \<Longrightarrow> x \<in> set xs \<Longrightarrow> p x"
  by (metis length_filter_less less_irrefl)

lemma some_kept:
  assumes "length (filter p xs) \<noteq> length xs"
  shows "filter (\<lambda>x. \<not> p x) xs \<noteq> []"
proof
  assume "filter (\<lambda>x. \<not> p x) xs = []"
  then have "filter p xs = xs" by (simp add: filter_empty_conv filter_id_conv)
  with assms show False by simp
qed

lemma closing_okD:
  assumes "closing_ok X (t # rest) s"
  obtains seen where "ss_tabs s = seen @ t # rest" "set (pane_ids seen) \<inter> X = {}"
    "tabs_wf (seen @ t # rest)" "panes_wf (ss_panes s)"
    "fst ` set (ss_panes s) \<union> X = set (pane_ids (seen @ t # rest)) \<union> X"
    "active_ok (seen @ t # rest) (ss_activeTabId s)" "distinct (map t_id (seen @ t # rest))"
  using assms unfolding closing_ok_def tabs_wf_def by metis

lemma closing_okI:
  assumes "ss_tabs s = seen @ rest" "set (pane_ids seen) \<inter> X = {}" "tabs_wf (seen @ rest)"
    "panes_wf (ss_panes s)" "fst ` set (ss_panes s) \<union> X = set (pane_ids (seen @ rest)) \<union> X"
    "active_ok (seen @ rest) (ss_activeTabId s)"
  shows "closing_ok X rest s"
  unfolding closing_ok_def assms(1) by (intro conjI exI[of _ seen] refl assms)

lemma close_whole_tab_ok:
  assumes "closing_ok X (t # rest) s" "set (t_paneIds t) \<subseteq> X"
  shows "closing_ok X rest (closeSessionTab (t_id t) s)"
proof -
  obtain seen where s: "ss_tabs s = seen @ t # rest" "set (pane_ids seen) \<inter> X = {}"
    "tabs_wf (seen @ t # rest)" "panes_wf (ss_panes s)"
    "fst ` set (ss_panes s) \<union> X = set (pane_ids (seen @ t # rest)) \<union> X"
    "active_ok (seen @ t # rest) (ss_activeTabId s)" "distinct (map t_id (seen @ t # rest))"
    by (rule closing_okD[OF assms(1)])
  note closed = closeSessionTab_at[OF s(1,7)]
  have keys: "fst ` set (obj_del_all (t_paneIds t) (ss_panes s)) \<union> X = set (pane_ids (seen @ rest)) \<union> X"
    using s(5) assms(2) unfolding keys_obj_del_all pane_ids_mid by blast
  let ?c = "closeSessionTab (t_id t) s"
  have c: "ss_tabs ?c = seen @ rest" "ss_panes ?c = obj_del_all (t_paneIds t) (ss_panes s)"
    "ss_activeTabId ?c = (if ss_activeTabId s = Some (t_id t)
       then (if seen @ rest = [] then None else Some (t_id (last (seen @ rest)))) else ss_activeTabId s)"
    by (simp_all add: closed)
  show ?thesis
  proof (rule closing_okI[OF c(1) s(2)])
    show "tabs_wf (seen @ rest)" using s(3) unfolding tabs_wf_split by blast
    show "panes_wf (ss_panes ?c)" unfolding c(2) by (rule panes_wf_del_all[OF s(4)])
    show "fst ` set (ss_panes ?c) \<union> X = set (pane_ids (seen @ rest)) \<union> X" unfolding c(2) by (rule keys)
    show "active_ok (seen @ rest) (ss_activeTabId ?c)" unfolding c(3) by (rule active_ok_remove[OF s(6)])
  qed
qed

lemma prune_mid_tab_ok:
  assumes "closing_ok X (t # rest) s" "t_id t' = t_id t" "tab_wf t'"
    "t_paneIds t' = filter (\<lambda>i. i \<notin> X) (t_paneIds t)"
  shows "closing_ok X rest (s\<lparr>ss_tabs := map_where (\<lambda>u. t_id u = t_id t) (\<lambda>_. t') (ss_tabs s)\<rparr>)"
proof -
  obtain seen where s: "ss_tabs s = seen @ t # rest" "set (pane_ids seen) \<inter> X = {}"
    "tabs_wf (seen @ t # rest)" "panes_wf (ss_panes s)"
    "fst ` set (ss_panes s) \<union> X = set (pane_ids (seen @ t # rest)) \<union> X"
    "active_ok (seen @ t # rest) (ss_activeTabId s)" "distinct (map t_id (seen @ t # rest))"
    by (rule closing_okD[OF assms(1)])
  have tabs: "map_where (\<lambda>u. t_id u = t_id t) (\<lambda>_. t') (ss_tabs s) = seen @ t' # rest"
    by (rule replace_tab_split(1)[OF s(1) refl distinct_ids_split[OF s(7)]])
  have ids: "set (t_paneIds t') = set (t_paneIds t) - X" unfolding assms(4) by auto
  have dist: "distinct (t_paneIds t')"
    using s(3)[unfolded tabs_wf_split] unfolding assms(4) by (intro distinct_filter) blast
  have wf: "tabs_wf (seen @ t' # rest)"
    using s(3)[unfolded tabs_wf_split] dist unfolding tabs_wf_split assms(2) ids
    by (intro conjI assms(3)) blast+
  have keys: "fst ` set (ss_panes s) \<union> X = set (pane_ids ((seen @ [t']) @ rest)) \<union> X"
    using s(5) ids unfolding append_assoc append_Cons append_Nil pane_ids_mid by blast
  have seen: "set (pane_ids (seen @ [t'])) \<inter> X = {}" using s(2) ids by auto
  have wf': "tabs_wf ((seen @ [t']) @ rest)" and act: "active_ok ((seen @ [t']) @ rest) (ss_activeTabId s)"
    using wf active_ok_replace[OF s(6) assms(2)] by simp_all
  show ?thesis
    by (rule closing_okI[OF _ seen wf']) (use tabs s(4) keys act in simp_all)
qed

lemma map_where_const:
  "distinct (map t_id ts) \<Longrightarrow> t \<in> set ts \<Longrightarrow>
   map_where (\<lambda>u. t_id u = t_id t) f ts = map_where (\<lambda>u. t_id u = t_id t) (\<lambda>_. f t) ts"
  unfolding map_where_def by (rule map_cong) (auto simp: distinct_map inj_on_def)

lemma close_panes_step_ok:
  assumes ok: "closing_ok (set X) (t # rest) s"
  shows "closing_ok (set X) rest (close_panes_step X t s)"
proof -
  let ?overlap = "filter (\<lambda>i. i \<in> set X) (t_paneIds t)" and ?keep = "filter (\<lambda>i. i \<notin> set X) (t_paneIds t)"
  obtain seen where s: "ss_tabs s = seen @ t # rest" "set (pane_ids seen) \<inter> set X = {}"
    "tabs_wf (seen @ t # rest)" "panes_wf (ss_panes s)"
    "fst ` set (ss_panes s) \<union> set X = set (pane_ids (seen @ t # rest)) \<union> set X"
    "active_ok (seen @ t # rest) (ss_activeTabId s)" "distinct (map t_id (seen @ t # rest))"
    by (rule closing_okD[OF ok])
  consider "?overlap = []" | "?overlap \<noteq> []" "length ?overlap = length (t_paneIds t)"
    | "?overlap \<noteq> []" "length ?overlap \<noteq> length (t_paneIds t)" by blast
  then show ?thesis
  proof cases
    case 1
    then have "set (pane_ids (seen @ [t])) \<inter> set X = {}" using s(2) by (auto simp: filter_empty_conv)
    then have "closing_ok (set X) rest s"
      using s by (intro closing_okI[of s "seen @ [t]"]) simp_all
    then show ?thesis using 1 by (simp add: close_panes_step_def)
  next
    case 2
    have "set (t_paneIds t) \<subseteq> set X" by (rule subsetI) (rule all_overlap[OF 2(2)])
    note closed = close_whole_tab_ok[OF ok this]
    show ?thesis unfolding close_panes_step_def Let_def if_not_P[OF 2(1)] if_P[OF 2(2)] by (rule closed)
  next
    case 3
    let ?f = "\<lambda>u. u\<lparr>t_paneIds := ?keep, t_activePaneId := (if t_activePaneId u \<in> Some ` set ?keep
      then t_activePaneId u else first_of ?keep)\<rparr>"
    have keep: "?keep \<noteq> []" by (rule some_kept[OF 3(2)])
    have "tab_wf (?f t)" by (rule prune_tab_wf[OF _ keep]) (use s(3) in \<open>simp only: tabs_wf_split\<close>)
    then have "closing_ok (set X) rest
        (s\<lparr>ss_tabs := map_where (\<lambda>u. t_id u = t_id t) (\<lambda>_. ?f t) (ss_tabs s)\<rparr>)"
      by (intro prune_mid_tab_ok[OF ok]) simp_all
    moreover have "map_where (\<lambda>u. t_id u = t_id t) ?f (ss_tabs s) =
        map_where (\<lambda>u. t_id u = t_id t) (\<lambda>_. ?f t) (ss_tabs s)"
      by (rule map_where_const) (use s(7) in \<open>simp_all add: s(1)\<close>)
    moreover have "close_panes_step X t s = s\<lparr>ss_tabs := map_where (\<lambda>u. t_id u = t_id t) ?f (ss_tabs s)\<rparr>"
      unfolding close_panes_step_def Let_def if_not_P[OF 3(1)] if_not_P[OF 3(2)] ..
    ultimately show ?thesis by (simp only:)
  qed
qed

lemma close_panes_fold_ok:
  "closing_ok (set X) rest s \<Longrightarrow> closing_ok (set X) [] (fold (close_panes_step X) rest s)"
  by (induction rest arbitrary: s) (auto simp: close_panes_step_ok)

lemma closePanesForHost_ok [inv_intros]:
  assumes "workspace_ok s"
  shows "workspace_ok (snd (closePanesForHost h s))"
proof (cases "panes_of_host h s = []")
  case False
  let ?X = "panes_of_host h s" and ?s = "fold (close_panes_step (panes_of_host h s)) (ss_tabs s) s"
  have "closing_ok (set ?X) (ss_tabs s) s" using assms by (auto simp: workspace_ok_def closing_ok_def)
  then have fin: "closing_ok (set ?X) [] ?s" by (rule close_panes_fold_ok)
  then have "set (pane_ids (ss_tabs ?s)) \<inter> set ?X = {}" by (auto simp: closing_ok_def)
  then have "fst ` set (obj_del_all ?X (ss_panes ?s)) = set (pane_ids (ss_tabs ?s))"
    using fin unfolding keys_obj_del_all closing_ok_def by blast
  then show ?thesis
    using False fin panes_wf_del_all[of "ss_panes ?s"]
    by (simp add: closePanesForHost_def Let_def workspace_ok_def closing_ok_def)
qed (simp add: closePanesForHost_def assms)

subsection \<open>Limits\<close>

text \<open>At most 200 commands are remembered, with at most 600 characters of output each, and every
  split is between the two ratios.\<close>

definition ratio_ok :: "rat option \<Rightarrow> bool" where
  "ratio_ok r \<longleftrightarrow> (case r of None \<Rightarrow> True | Some x \<Rightarrow> MIN_SPLIT_RATIO \<le> x \<and> x \<le> MAX_SPLIT_RATIO)"

definition entry_ok :: "history_entry \<Rightarrow> bool" where
  "entry_ok e \<longleftrightarrow> (case he_output e of None \<Rightarrow> True | Some out \<Rightarrow> length out \<le> 600)"

definition history_ok :: "history_entry list \<Rightarrow> bool" where
  "history_ok hist \<longleftrightarrow> length hist \<le> 200 \<and> list_all entry_ok hist"

definition limits_ok :: "sessions \<Rightarrow> bool" where
  "limits_ok s \<longleftrightarrow> history_ok (ss_history s) \<and> ratio_ok ` t_ratio ` set (ss_tabs s) \<subseteq> {True}"

lemma limits_ok_same:
  assumes "limits_ok s" "ss_history s' = ss_history s"
    "t_ratio ` set (ss_tabs s') \<subseteq> insert None (t_ratio ` set (ss_tabs s))"
  shows "limits_ok s'"
proof -
  have "ratio_ok None" by (simp add: ratio_ok_def)
  then have "ratio_ok ` insert None (t_ratio ` set (ss_tabs s)) \<subseteq> {True}"
    using assms(1) by (simp add: limits_ok_def)
  then have "ratio_ok ` t_ratio ` set (ss_tabs s') \<subseteq> {True}"
    by (rule order_trans[OF image_mono[OF assms(3)]])
  then show ?thesis using assms(1,2) by (simp add: limits_ok_def)
qed

lemma ratios_map_where:
  "(\<And>t. p t \<Longrightarrow> t_ratio (f t) = t_ratio t) \<Longrightarrow> t_ratio ` set (map_where p f ts) = t_ratio ` set ts"
  by (metis list.set_map map_map_where_id)

lemma update_pane_other [simp]:
  "ss_history (update_pane i f s) = ss_history s" "ss_tabs (update_pane i f s) = ss_tabs s"
  "ss_activeTabId (update_pane i f s) = ss_activeTabId s"
  by (simp_all add: update_pane_def split: option.split)

lemma update_pane_limits: "limits_ok s \<Longrightarrow> limits_ok (update_pane i f s)"
  by (rule limits_ok_same) auto

lemma createSessionTab_ratio [simp]: "t_ratio (createSessionTab now u h p t) = None"
  by (simp add: createSessionTab_def)

lemma pane_updates_limits [inv_intros]:
  assumes "limits_ok s"
  shows "limits_ok (updatePaneConnectionState now i st err s)"
    "limits_ok (updatePaneReconnectPreference now i b s)"
    "limits_ok (updatePaneTransport now i tr s)"
    "limits_ok (updatePaneBackendSession now i be s)"
    "limits_ok (queuePaneCommand now u i cmd label s)"
    "limits_ok (consumePaneCommand now i c s)"
    "limits_ok (togglePaneConnection now i s)"
  using assms
  by (auto simp: updatePaneConnectionState_def updatePaneReconnectPreference_def
      updatePaneTransport_def updatePaneBackendSession_def queuePaneCommand_def
      consumePaneCommand_def togglePaneConnection_def intro!: update_pane_limits split: option.split)

lemma closeSessionTab_limits [inv_intros]: "limits_ok s \<Longrightarrow> limits_ok (closeSessionTab i s)"
  by (erule limits_ok_same) (auto simp: closeSessionTab_def Let_def split: option.split)

lemma open_limits [inv_intros]:
  assumes "limits_ok s"
  shows "limits_ok (openSessionWorkspace now pu tu h s)"
    "limits_ok (duplicateSessionWorkspace now pu tu h base s)"
  by (rule limits_ok_same[OF assms];
      simp add: openSessionWorkspace_def duplicateSessionWorkspace_def Let_def ratios_map_where
        split: option.split; blast)+

lemma find_tab_ratio: "List.find p ts = Some t \<Longrightarrow> t_ratio t \<in> t_ratio ` set ts"
  by (auto dest: find_Some_set)

lemma ratios_replace:
  "t_ratio t' \<in> t_ratio ` set ts \<Longrightarrow> t_ratio ` set (map_where p (\<lambda>_. t') ts) \<subseteq> t_ratio ` set ts"
  by (auto simp: set_map_where)

lemma split_remove_limits [inv_intros]:
  assumes "limits_ok s"
  shows "limits_ok (splitSessionPane now pu i h s)" "limits_ok (removeSessionPane now i j s)"
proof -
  have replace: "limits_ok (s\<lparr>ss_tabs := map_where (\<lambda>t. t_id t = i) (\<lambda>_. t') (ss_tabs s),
      ss_panes := P, ss_activeTabId := a\<rparr>)"
    if "List.find (\<lambda>t. t_id t = i) (ss_tabs s) = Some t" "t_ratio t' = t_ratio t" for t t' P a
  proof (rule limits_ok_same[OF assms])
    have "t_ratio ` set (map_where (\<lambda>t. t_id t = i) (\<lambda>_. t') (ss_tabs s)) \<subseteq> t_ratio ` set (ss_tabs s)"
      using find_tab_ratio[OF that(1)] that(2) by (intro ratios_replace) simp
    then show "t_ratio ` set (ss_tabs (s\<lparr>ss_tabs := map_where (\<lambda>t. t_id t = i) (\<lambda>_. t') (ss_tabs s),
        ss_panes := P, ss_activeTabId := a\<rparr>)) \<subseteq> insert None (t_ratio ` set (ss_tabs s))"
      by (simp add: subset_insertI2)
  qed simp
  show "limits_ok (splitSessionPane now pu i h s)"
  proof (cases "List.find (\<lambda>t. t_id t = i) (ss_tabs s)")
    case (Some t)
    show ?thesis unfolding splitSessionPane_def Some option.case Let_def
      by (rule replace[OF Some]) simp
  qed (simp add: splitSessionPane_def assms)
  show "limits_ok (removeSessionPane now i j s)"
  proof (cases "List.find (\<lambda>t. t_id t = i) (ss_tabs s)")
    case (Some t)
    show ?thesis
    proof (cases "length (t_paneIds t) \<le> 1")
      case False
      have "limits_ok (s\<lparr>ss_tabs := map_where (\<lambda>t. t_id t = i) (\<lambda>_. t') (ss_tabs s), ss_panes := P\<rparr>)"
        if "t_ratio t' = t_ratio t" for t' P
        using replace[where P = P and a = "ss_activeTabId s", OF Some that] by simp
      then show ?thesis using False by (simp add: removeSessionPane_def Some Let_def)
    qed (simp add: removeSessionPane_def Some closeSessionTab_limits[OF assms])
  qed (simp add: removeSessionPane_def assms)
qed

lemma close_panes_step_limits: "limits_ok s \<Longrightarrow> limits_ok (close_panes_step X t s)"
proof -
  assume ok: "limits_ok s"
  have "limits_ok (s\<lparr>ss_tabs := map_where p f (ss_tabs s)\<rparr>)" if "\<And>t. t_ratio (f t) = t_ratio t" for p f
    using ratios_map_where[of p f "ss_tabs s"] that by (intro limits_ok_same[OF ok]) auto
  then show ?thesis using ok closeSessionTab_limits[OF ok] by (simp add: close_panes_step_def Let_def)
qed

lemma closePanesForHost_limits [inv_intros]: "limits_ok s \<Longrightarrow> limits_ok (snd (closePanesForHost h s))"
proof -
  assume "limits_ok s"
  then have "limits_ok (fold (close_panes_step X) ts s)" for X ts
    by (induction ts arbitrary: s) (simp_all add: close_panes_step_limits)
  then have "limits_ok ((fold (close_panes_step X) ts s)\<lparr>ss_panes := P\<rparr>)" for X ts P
    by (rule limits_ok_same) auto
  with \<open>limits_ok s\<close> show ?thesis by (simp add: closePanesForHost_def Let_def)
qed

lemma tab_updates_limits [inv_intros]:
  assumes "limits_ok s"
  shows "limits_ok (setActiveSessionTab i s)" "limits_ok (cycleSessionTab d s)"
    "limits_ok (setActiveSessionPane now i j s)" "limits_ok (setTabSplitDirection now i dir s)"
    "limits_ok (reorderSessionTabs a b s)"
proof -
  have "set (ss_tabs (reorderSessionTabs a b s)) = set (ss_tabs s)"
    by (rule mset_eq_setD[OF reorder_mset])
  then show "limits_ok (reorderSessionTabs a b s)"
    by (intro limits_ok_same[OF assms]) (auto simp: reorderSessionTabs_def Let_def)
qed (rule limits_ok_same[OF assms]; auto simp: setActiveSessionTab_def cycleSessionTab_def Let_def
    setActiveSessionPane_def setTabSplitDirection_def ratios_map_where)+

lemma split_bounds: "MIN_SPLIT_RATIO \<le> MAX_SPLIT_RATIO"
  by (simp add: MIN_SPLIT_RATIO_def MAX_SPLIT_RATIO_def)

lemma setTabSplitRatio_limits [inv_intros]: "limits_ok s \<Longrightarrow> limits_ok (setTabSplitRatio now i r s)"
proof (cases r)
  case (Finite x)
  assume ok: "limits_ok s"
  have "ratio_ok (Some (min MAX_SPLIT_RATIO (max MIN_SPLIT_RATIO x)))"
    using split_bounds by (auto simp: ratio_ok_def)
  then show ?thesis using ok Finite
    by (auto simp: limits_ok_def setTabSplitRatio_def set_map_where)
qed (simp_all add: setTabSplitRatio_def)

lemma history_limits:
  "limits_ok s \<Longrightarrow> history_ok hist \<Longrightarrow> limits_ok (s\<lparr>ss_history := hist\<rparr>)"
  by (simp add: limits_ok_def)

lemma length_dropWhile_trim: "length (trim s) \<le> length s"
  by (metis (no_types, lifting) length_dropWhile_le length_rev order_trans trim_def trim_end_def trim_start_def)

lemma appended_output_bound: "length (appended_output old new) \<le> 600"
  unfolding appended_output_def
  by (rule order_trans[OF length_dropWhile_trim]) (simp add: last_chars_def SESSION_HISTORY_OUTPUT_LIMIT_def)

lemma history_ops_limits [inv_intros]:
  assumes "limits_ok s"
  shows "limits_ok (recordPaneCommandHistory now u i c src s)"
    "limits_ok (appendPaneCommandHistoryOutput now e out s)" "limits_ok (clearCommandHistory s)"
    "limits_ok (updatePanePreviewPersistence now i b s)"
proof -
  have hist: "history_ok (ss_history s)" using assms by (simp add: limits_ok_def)
  have take: "list_all entry_ok (take n xs)" if "list_all entry_ok xs" for n xs
    using that by (metis append_take_drop_id list_all_append)
  have "history_ok (limitCommandHistory (x # ss_history s))" if "he_output x = None" for x
    using hist take that
    by (simp add: history_ok_def limitCommandHistory_def SESSION_HISTORY_LIMIT_def entry_ok_def)
  then show "limits_ok (recordPaneCommandHistory now u i c src s)"
    using assms by (auto simp: recordPaneCommandHistory_def intro!: history_limits split: option.split)
  have "history_ok (map_where p f (ss_history s))" if "\<And>x. entry_ok x \<Longrightarrow> entry_ok (f x)" for p f
    using hist that by (auto simp: history_ok_def list_all_iff map_where_def)
  note map_ok = this
  show "limits_ok (appendPaneCommandHistoryOutput now e out s)"
    using assms
    by (auto simp: appendPaneCommandHistoryOutput_def Let_def entry_ok_def appended_output_bound
        intro!: history_limits map_ok)
  show "limits_ok (clearCommandHistory s)"
    using assms by (simp add: clearCommandHistory_def limits_ok_def history_ok_def)
  have "limits_ok (s\<lparr>ss_panes := P, ss_history := map_where p (\<lambda>e. e\<lparr>he_persist := Some b\<rparr>) (ss_history s)\<rparr>)"
    for p P
    using assms map_ok[of "\<lambda>e. e\<lparr>he_persist := Some b\<rparr>" p] by (simp add: limits_ok_def entry_ok_def)
  then show "limits_ok (updatePanePreviewPersistence now i b s)"
    using assms by (simp add: updatePanePreviewPersistence_def split: option.split)
qed

end
