(* ===== verification/SessionsProps.thy ===== *)
theory SessionsProps
  imports SessionsInv
begin

section \<open>What the session store guarantees\<close>

subsection \<open>Queueing a command for several hosts\<close>

abbreviation pane_keys :: "sessions \<Rightarrow> string set" where
  "pane_keys s \<equiv> fst ` set (ss_panes s)"

abbreviation tab_ids :: "sessions \<Rightarrow> string set" where
  "tab_ids s \<equiv> t_id ` set (ss_tabs s)"

definition fresh_ids :: "sessions \<Rightarrow> (host \<times> string \<times> string \<times> string) list \<Rightarrow> bool" where
  "fresh_ids s xs \<longleftrightarrow>
     distinct (map (fst \<circ> snd) xs) \<and> distinct (map (fst \<circ> snd \<circ> snd) xs) \<and>
     set (map (fst \<circ> snd) xs) \<inter> pane_keys s = {} \<and> set (map (fst \<circ> snd \<circ> snd) xs) \<inter> tab_ids s = {}"

lemma disjoint_sub: "A \<inter> B = {} \<Longrightarrow> B' \<subseteq> B \<Longrightarrow> A \<inter> B' = {}"
  by blast

lemma fresh_ids_Cons:
  assumes "fresh_ids s ((h, pu, tu, cu) # xs)"
  shows "pu \<notin> pane_keys s" "tu \<notin> tab_ids s"
    "pane_keys s' \<subseteq> insert pu (pane_keys s) \<Longrightarrow> tab_ids s' \<subseteq> insert tu (tab_ids s) \<Longrightarrow> fresh_ids s' xs"
proof -
  let ?P = "set (map (fst \<circ> snd) xs)" and ?T = "set (map (fst \<circ> snd \<circ> snd) xs)"
  have f: "pu \<notin> ?P" "tu \<notin> ?T" "distinct (map (fst \<circ> snd) xs)" "distinct (map (fst \<circ> snd \<circ> snd) xs)"
    "pu \<notin> pane_keys s" "tu \<notin> tab_ids s" "?P \<inter> pane_keys s = {}" "?T \<inter> tab_ids s = {}"
    using assms by (simp_all add: fresh_ids_def)
  show "pu \<notin> pane_keys s" "tu \<notin> tab_ids s" by (rule f)+
  have "?P \<inter> insert pu (pane_keys s) = {}" "?T \<inter> insert tu (tab_ids s) = {}"
    using f by (simp_all only: Int_insert_right if_False)
  note sub = disjoint_sub[OF this(1)] disjoint_sub[OF this(2)]
  assume "pane_keys s' \<subseteq> insert pu (pane_keys s)" "tab_ids s' \<subseteq> insert tu (tab_ids s)"
  then show "fresh_ids s' xs" unfolding fresh_ids_def by (intro conjI f(3,4) sub)
qed

lemma ids_touched: "t_id ` set (map_where p (touchTab now) ts) = t_id ` set ts"
  by (metis list.set_map map_map_where_id touchTab_simps(1))

lemma open_keys:
  "pane_keys (openSessionWorkspace now pu tu h s) \<subseteq> insert pu (pane_keys s)"
  "tab_ids (openSessionWorkspace now pu tu h s) \<subseteq> insert tu (tab_ids s)"
  by (auto simp: openSessionWorkspace_def Let_def keys_obj_set ids_touched split: option.split)

lemma update_pane_keys [simp]: "pane_keys (update_pane i f s) = pane_keys s"
  by (simp add: update_pane_def keys_set_present split: option.split)

lemma queue_for_host_snd:
  "\<exists>i. snd (queue_for_host now cmd label (h, pu, tu, cu) (ids, s)) = openSessionWorkspace now pu tu h s \<or>
   snd (queue_for_host now cmd label (h, pu, tu, cu) (ids, s)) =
     queuePaneCommand now cu i cmd label (openSessionWorkspace now pu tu h s)"
  by (auto simp: queue_for_host_def Let_def split: option.split)

lemma queue_keys:
  "pane_keys (queuePaneCommand now u i cmd label s) = pane_keys s"
  "tab_ids (queuePaneCommand now u i cmd label s) = tab_ids s"
  by (simp_all add: queuePaneCommand_def)

lemma queue_for_host_ok:
  assumes "workspace_ok s" "limits_ok s" "fresh_ids s ((h, pu, tu, cu) # xs)"
    and s'_def: "s' = snd (queue_for_host now cmd label (h, pu, tu, cu) (ids, s))"
  shows "workspace_ok s' \<and> limits_ok s' \<and> fresh_ids s' xs"
proof -
  let ?o = "openSessionWorkspace now pu tu h s"
  note fresh = fresh_ids_Cons[OF assms(3)]
  have o: "workspace_ok ?o" "limits_ok ?o"
    by (rule openSessionWorkspace_ok[OF assms(1) fresh(1,2)], rule open_limits(1)[OF assms(2)])
  obtain i where "s' = ?o \<or> s' = queuePaneCommand now cu i cmd label ?o"
    unfolding s'_def using queue_for_host_snd by blast
  then show ?thesis
  proof
    assume s': "s' = ?o"
    then show ?thesis using o fresh(3)[OF open_keys] by simp
  next
    assume s': "s' = queuePaneCommand now cu i cmd label ?o"
    have "fresh_ids s' xs" unfolding s' by (rule fresh(3)) (simp_all only: queue_keys open_keys)
    then show ?thesis unfolding s' using pane_updates_ok(5)[OF o(1)] pane_updates_limits(5)[OF o(2)] by blast
  qed
qed

lemma queue_fold_ok:
  "workspace_ok s \<Longrightarrow> limits_ok s \<Longrightarrow> fresh_ids s xs \<Longrightarrow>
   workspace_ok (snd (fold (queue_for_host now cmd label) xs (ids, s))) \<and>
   limits_ok (snd (fold (queue_for_host now cmd label) xs (ids, s)))"
proof (induction xs arbitrary: ids s)
  case (Cons x xs)
  obtain h pu tu cu where x: "x = (h, pu, tu, cu)" by (cases x)
  let ?r = "queue_for_host now cmd label x (ids, s)"
  have "workspace_ok (snd ?r) \<and> limits_ok (snd ?r) \<and> fresh_ids (snd ?r) xs"
    unfolding x by (rule queue_for_host_ok[OF _ _ _ refl]) (use Cons.prems x in simp_all)
  then show ?case using Cons.IH[of "snd ?r" "fst ?r"] by simp
qed simp

lemma queueCommandForHosts_ok:
  "workspace_ok s \<Longrightarrow> limits_ok s \<Longrightarrow> fresh_ids s xs \<Longrightarrow>
   workspace_ok (snd (queueCommandForHosts now xs cmd label s)) \<and>
   limits_ok (snd (queueCommandForHosts now xs cmd label s))"
  unfolding queueCommandForHosts_def by (rule queue_fold_ok)

subsection \<open>The store as a state machine\<close>

text \<open>
  One step is one action. New identifiers are fresh; \<open>closePane\<close> is called for a pane of the tab,
  as every caller does.
\<close>

inductive sessions_step :: "sessions \<Rightarrow> sessions \<Rightarrow> bool" where
  open_session: "pu \<notin> pane_keys s \<Longrightarrow> tu \<notin> tab_ids s \<Longrightarrow> sessions_step s (snd (openSession now pu tu h s))"
| duplicate: "pu \<notin> pane_keys s \<Longrightarrow> tu \<notin> tab_ids s \<Longrightarrow>
    sessions_step s (snd (duplicateSession now pu tu h base s))"
| select_tab: "sessions_step s (setActiveSessionTab i s)"
| cycle_tab: "sessions_step s (cycleSessionTab d s)"
| close_tab: "sessions_step s (snd (closeTab i s))"
| split_tab: "pu \<notin> pane_keys s \<Longrightarrow> sessions_step s (splitSessionPane now pu i h s)"
| close_host: "sessions_step s (snd (closePanesForHost hostId s))"
| close_pane: "(\<And>t. t \<in> set (ss_tabs s) \<Longrightarrow> t_id t = i \<Longrightarrow> j \<in> set (t_paneIds t)) \<Longrightarrow>
    sessions_step s (snd (closePane now i j s))"
| select_pane: "sessions_step s (setActiveSessionPane now i j s)"
| pane_state: "sessions_step s (updatePaneConnectionState now i st err s)"
| pane_reconnect: "sessions_step s (updatePaneReconnectPreference now i b s)"
| pane_preview: "sessions_step s (updatePanePreviewPersistence now i b s)"
| pane_transport: "sessions_step s (updatePaneTransport now i tr s)"
| pane_backend: "sessions_step s (updatePaneBackendSession now i be s)"
| queue_command: "sessions_step s (queuePaneCommand now u i cmd label s)"
| consume_command: "sessions_step s (consumePaneCommand now i c s)"
| record_command: "sessions_step s (snd (recordPaneCommand now u i cmd s))"
| append_output: "sessions_step s (appendPaneCommandHistoryOutput now e out s)"
| clear_history: "sessions_step s (clearCommandHistory s)"
| queue_hosts: "fresh_ids s xs \<Longrightarrow> sessions_step s (snd (queueCommandForHosts now xs cmd label s))"
| toggle_connection: "sessions_step s (togglePaneConnection now i s)"
| split_direction: "sessions_step s (setTabSplitDirection now i dir s)"
| split_ratio: "sessions_step s (setTabSplitRatio now i r s)"
| reorder: "sessions_step s (reorderSessionTabs a b s)"

lemmas action_defs = openSession_def duplicateSession_def closeTab_def closePane_def
  recordPaneCommand_def Let_def

lemma sessions_step_ok:
  "sessions_step s s' \<Longrightarrow> workspace_ok s \<and> limits_ok s \<Longrightarrow> workspace_ok s' \<and> limits_ok s'"
proof (induction rule: sessions_step.induct)
  case (close_pane s i j now)
  then show ?case by (auto simp: action_defs intro!: removeSessionPane_ok split_remove_limits)
next
  case (queue_hosts s xs now cmd label)
  then show ?case by (simp add: queueCommandForHosts_ok)
qed (simp_all add: action_defs inv_intros)

lemma initial_ok: "workspace_ok sessions_initial \<and> limits_ok sessions_initial"
  by (simp add: sessions_initial_def workspace_ok_def tabs_wf_def panes_wf_def active_ok_def
      limits_ok_def history_ok_def)

text \<open>C1: In every state the session store can reach, the tabs and the stored panes match exactly (no
  dangling and no orphaned pane, each in one tab), every tab has an active pane of its own, the
  active tab exists, the history holds at most 200 commands with at most 600 characters of output
  each, and no split is more extreme than the limits.\<close>

theorem sessions_reachable_ok:
  assumes "sessions_step\<^sup>*\<^sup>* sessions_initial s"
  shows "workspace_ok s \<and> limits_ok s"
  using assms by (induction rule: rtranclp_induct) (use initial_ok sessions_step_ok in blast)+

lemma sessions_reachable_ok_witness:
  "let s = snd (openSession ''t'' ''p1'' ''t1'' (hd sampleHosts) sessions_initial);
       s' = splitSessionPane ''t'' ''p2'' ''t1'' (sampleHosts ! 1) s
   in pane_ids (ss_tabs s') = [''p1'', ''p2''] \<and> workspace_ok s' \<and> limits_ok s'"
  unfolding Let_def
proof (rule conjI)
  let ?s = "snd (openSession ''t'' ''p1'' ''t1'' (hd sampleHosts) sessions_initial)"
  have s: "?s = \<lparr>ss_tabs = [createSessionTab ''t'' ''t1'' (hd sampleHosts)
        (createSessionPane ''t'' ''p1'' (hd sampleHosts) (h_label (hd sampleHosts))) (h_label (hd sampleHosts))],
      ss_panes = [(''p1'', createSessionPane ''t'' ''p1'' (hd sampleHosts) (h_label (hd sampleHosts)))],
      ss_activeTabId = Some ''t1'', ss_lastRestoredAt = Some ''t'', ss_history = []\<rparr>"
    by (simp add: openSession_def openSessionWorkspace_def sessions_initial_def Let_def obj_set_def
        createSessionPane_def)
  show "pane_ids (ss_tabs (splitSessionPane ''t'' ''p2'' ''t1'' (sampleHosts ! 1) ?s)) = [''p1'', ''p2'']"
    unfolding s by (simp add: splitSessionPane_def Let_def)
  have 1: "sessions_step sessions_initial ?s"
    by (rule sessions_step.open_session) (simp_all add: sessions_initial_def)
  have "''p2'' \<notin> pane_keys ?s" unfolding s by simp
  then have 2: "sessions_step ?s (splitSessionPane ''t'' ''p2'' ''t1'' (sampleHosts ! 1) ?s)"
    by (rule sessions_step.split_tab)
  have "sessions_step\<^sup>*\<^sup>* sessions_initial ?s" using 1 by (rule r_into_rtranclp)
  then have "sessions_step\<^sup>*\<^sup>* sessions_initial (splitSessionPane ''t'' ''p2'' ''t1'' (sampleHosts ! 1) ?s)"
    using 2 by (rule rtranclp.rtrancl_into_rtrancl)
  then show "workspace_ok (splitSessionPane ''t'' ''p2'' ''t1'' (sampleHosts ! 1) ?s) \<and>
      limits_ok (splitSessionPane ''t'' ''p2'' ''t1'' (sampleHosts ! 1) ?s)"
    by (rule sessions_reachable_ok)
qed

subsection \<open>Closing reaps the backend sessions\<close>

definition live_backends :: "sessions \<Rightarrow> string set" where
  "live_backends s = {b. b \<noteq> [] \<and> (\<exists>i p. obj_get (ss_panes s) i = Some p \<and> p_backend p = Some b)}"

lemma set_closeBackendSessions:
  "set (closeBackendSessionsForPanes panes ids) =
   {b. b \<noteq> [] \<and> (\<exists>i \<in> set ids. \<exists>p. obj_get panes i = Some p \<and> p_backend p = Some b)}"
proof -
  have one: "set (case obj_get panes i of None \<Rightarrow> [] | Some p \<Rightarrow>
      if truthy (p_backend p) then [coalesce (p_backend p) []] else []) =
    {b. b \<noteq> [] \<and> (\<exists>p. obj_get panes i = Some p \<and> p_backend p = Some b)}" for i
    by (cases "obj_get panes i") (auto simp: truthy_iff)
  show ?thesis unfolding closeBackendSessionsForPanes_def set_concat set_map image_image one by blast
qed

lemma reaped:
  assumes "\<And>i. obj_get (ss_panes s') i = (if i \<in> set ids then None else obj_get (ss_panes s) i)"
  shows "live_backends s = live_backends s' \<union> set (closeBackendSessionsForPanes (ss_panes s) ids)"
  unfolding live_backends_def set_closeBackendSessions assms by (auto split: if_splits)

lemma close_step_panes:
  assumes "closing_ok (set X) (t # rest) s" "i \<notin> set X"
  shows "obj_get (ss_panes (close_panes_step X t s)) i = obj_get (ss_panes s) i"
proof -
  let ?overlap = "filter (\<lambda>i. i \<in> set X) (t_paneIds t)"
  obtain seen where s: "ss_tabs s = seen @ t # rest" "distinct (map t_id (seen @ t # rest))"
    using closing_okD[OF assms(1)] by metis
  have "obj_get (ss_panes (closeSessionTab (t_id t) s)) i = obj_get (ss_panes s) i"
    if "length ?overlap = length (t_paneIds t)"
  proof -
    have "i \<notin> set (t_paneIds t)" using all_overlap[OF that] assms(2) by metis
    then show ?thesis by (simp add: closeSessionTab_at[OF s] obj_get_del_all)
  qed
  then show ?thesis by (simp add: close_panes_step_def Let_def)
qed

lemma close_fold_panes:
  "closing_ok (set X) rest s \<Longrightarrow> i \<notin> set X \<Longrightarrow>
   obj_get (ss_panes (fold (close_panes_step X) rest s)) i = obj_get (ss_panes s) i"
  by (induction rest arbitrary: s) (simp_all add: close_panes_step_ok close_step_panes)

lemma set_panes_of_host:
  assumes "panes_wf (ss_panes s)"
  shows "i \<in> set (panes_of_host h s) \<longleftrightarrow> (\<exists>p. obj_get (ss_panes s) i = Some p \<and> p_hostId p = h)"
proof -
  have wf: "obj_wf (ss_panes s)" using assms by (simp add: panes_wf_def)
  have "i \<in> set (panes_of_host h s) \<longleftrightarrow> (\<exists>k p. (k, p) \<in> set (ss_panes s) \<and> p_hostId p = h \<and> p_id p = i)"
    by (force simp: panes_of_host_def set_obj_values)
  also have "\<dots> \<longleftrightarrow> (\<exists>k p. obj_get (ss_panes s) k = Some p \<and> p_hostId p = h \<and> p_id p = i)"
    by (simp only: obj_wf_get[OF wf])
  also have "\<dots> \<longleftrightarrow> (\<exists>p. obj_get (ss_panes s) i = Some p \<and> p_hostId p = h)"
    using panes_wf_get[OF assms] by metis
  finally show ?thesis .
qed

lemma closePanesForHost_panes:
  assumes "workspace_ok s"
  shows "obj_get (ss_panes (snd (closePanesForHost h s))) i =
    (if i \<in> set (panes_of_host h s) then None else obj_get (ss_panes s) i)"
proof -
  have "closing_ok (set (panes_of_host h s)) (ss_tabs s) s"
    using assms by (auto simp: workspace_ok_def closing_ok_def)
  from close_fold_panes[OF this] show ?thesis
    by (simp add: closePanesForHost_def Let_def obj_get_del_all)
qed

lemma closeSessionTab_panes:
  "obj_get (ss_panes (closeSessionTab i s)) j =
   (case List.find (\<lambda>t. t_id t = i) (ss_tabs s) of None \<Rightarrow> obj_get (ss_panes s) j
    | Some t \<Rightarrow> if j \<in> set (t_paneIds t) then None else obj_get (ss_panes s) j)"
  by (simp add: closeSessionTab_def Let_def obj_get_del_all split: option.split)

lemma closePane_panes:
  assumes "workspace_ok s" "\<And>t. t \<in> set (ss_tabs s) \<Longrightarrow> t_id t = i \<Longrightarrow> j \<in> set (t_paneIds t)"
    "i \<in> tab_ids s"
  shows "obj_get (ss_panes (removeSessionPane now i j s)) k =
    (if k \<in> set [j] then None else obj_get (ss_panes s) k)"
proof (cases "List.find (\<lambda>t. t_id t = i) (ss_tabs s)")
  case None
  then show ?thesis using assms(3) by (auto simp: find_None_set)
next
  case (Some t)
  have j: "j \<in> set (t_paneIds t)" using find_Some_set[OF Some] assms(2) by blast
  show ?thesis
  proof (cases "length (t_paneIds t) \<le> 1")
    case True
    then have "t_paneIds t = [j]" using j by (cases "t_paneIds t") auto
    then show ?thesis using Some by (simp add: removeSessionPane_def closeSessionTab_panes)
  qed (simp add: removeSessionPane_def Some Let_def obj_get_del)
qed

text \<open>Closing leaks no backend session: whatever session a closed tab, a closed pane or the panes of
  a deleted host were attached to is closed in the backend, no other is, and the panes that remain
  keep theirs.\<close>

theorem closing_reaps_backend_sessions:
  assumes "workspace_ok s"
    and "(ids, s') = closeTab i s \<or> (ids, s') = closePanesForHost h s \<or>
      (ids, s') = closePane now i j s \<and> i \<in> tab_ids s \<and>
        (\<forall>t \<in> set (ss_tabs s). t_id t = i \<longrightarrow> j \<in> set (t_paneIds t))"
  shows "live_backends s = live_backends s' \<union> set ids"
  using assms(2)
proof (elim disjE conjE)
  assume c: "(ids, s') = closeTab i s"
  let ?P = "case List.find (\<lambda>t. t_id t = i) (ss_tabs s) of None \<Rightarrow> [] | Some t \<Rightarrow> t_paneIds t"
  have "ids = closeBackendSessionsForPanes (ss_panes s) ?P"
    using c by (auto simp: closeTab_def closeBackendSessionsForPanes_def split: option.splits)
  moreover have "obj_get (ss_panes s') k = (if k \<in> set ?P then None else obj_get (ss_panes s) k)" for k
    using c by (simp add: closeTab_def closeSessionTab_panes split: option.splits)
  ultimately show ?thesis using reaped[of s' ?P s] by (simp only:)
next
  assume c: "(ids, s') = closePanesForHost h s"
  then have "ids = closeBackendSessionsForPanes (ss_panes s) (panes_of_host h s)"
    by (auto simp: closePanesForHost_def Let_def closeBackendSessionsForPanes_def split: if_splits)
  moreover have "s' = snd (closePanesForHost h s)" using c by (metis snd_conv)
  ultimately show ?thesis using reaped[of s' "panes_of_host h s" s] closePanesForHost_panes[OF assms(1)] by simp
next
  assume c: "(ids, s') = closePane now i j s" "i \<in> tab_ids s"
    "\<forall>t \<in> set (ss_tabs s). t_id t = i \<longrightarrow> j \<in> set (t_paneIds t)"
  have "obj_get (ss_panes s') k = (if k \<in> set [j] then None else obj_get (ss_panes s) k)" for k
    using closePane_panes[OF assms(1) _ c(2), of j now k] c(1,3) by (simp add: closePane_def)
  then show ?thesis using c(1) reaped[of s' "[j]" s] by (simp add: closePane_def)
qed

lemma closing_reaps_backend_sessions_witness:
  "let s = updatePaneBackendSession ''t'' ''p1'' (Some ''b1'') (snd (openSession ''t'' ''p1'' ''t1'' (hd sampleHosts) sessions_initial))
   in fst (closeTab ''t1'' s) = [''b1''] \<and>
      live_backends s = live_backends (snd (closeTab ''t1'' s)) \<union> set (fst (closeTab ''t1'' s))"
proof -
  let ?o = "snd (openSession ''t'' ''p1'' ''t1'' (hd sampleHosts) sessions_initial)"
  let ?s = "updatePaneBackendSession ''t'' ''p1'' (Some ''b1'') ?o"
  have "workspace_ok ?o"
    unfolding openSession_def Let_def snd_conv
    by (rule openSessionWorkspace_ok) (simp_all add: initial_ok, simp_all add: sessions_initial_def)
  then have "workspace_ok ?s" by (rule pane_updates_ok)
  moreover have "fst (closeTab ''t1'' ?s) = [''b1'']"
    by (simp add: openSession_def openSessionWorkspace_def sessions_initial_def Let_def obj_set_def
        createSessionPane_def updatePaneBackendSession_def update_pane_def touchPane_def closeTab_def
        closeBackendSessionsForPanes_def)
  moreover have "live_backends ?s = live_backends (snd (closeTab ''t1'' ?s)) \<union> set (fst (closeTab ''t1'' ?s))"
    by (rule closing_reaps_backend_sessions[OF \<open>workspace_ok ?s\<close>]) (rule disjI1, rule prod.collapse)
  ultimately show ?thesis unfolding Let_def by blast
qed

text \<open>Deleting a host closes exactly its panes: every pane of another host survives with its state,
  and no pane of the host is left.\<close>

theorem closePanesForHost_exact:
  assumes "workspace_ok s"
  shows "obj_get (ss_panes (snd (closePanesForHost h s))) i =
    (case obj_get (ss_panes s) i of
       None \<Rightarrow> None | Some p \<Rightarrow> if p_hostId p = h then None else Some p)"
  unfolding closePanesForHost_panes[OF assms]
  using assms set_panes_of_host[of s i h] by (auto simp: workspace_ok_def split: option.splits)

lemma closePanesForHost_exact_witness:
  "ss_panes (snd (closePanesForHost ''prod-gateway'' (snd (openSession ''t'' ''p1'' ''t1'' (hd sampleHosts) sessions_initial)))) = []"
proof -
  let ?s = "snd (openSession ''t'' ''p1'' ''t1'' (hd sampleHosts) sessions_initial)"
  have "workspace_ok ?s"
    unfolding openSession_def Let_def snd_conv
    by (rule openSessionWorkspace_ok) (simp_all add: initial_ok, simp_all add: sessions_initial_def)
  note none = closePanesForHost_exact[OF this, of "''prod-gateway''"]
  have "ss_panes ?s = [(''p1'', createSessionPane ''t'' ''p1'' (hd sampleHosts) (h_label (hd sampleHosts)))]"
    by (simp add: openSession_def openSessionWorkspace_def sessions_initial_def Let_def obj_set_def
        createSessionPane_def)
  then have "obj_get (ss_panes (snd (closePanesForHost ''prod-gateway'' ?s))) i = None" for i
    using none[of i] by (simp add: createSessionPane_def sampleHosts_def)
  then show ?thesis by (metis map_of_eq_empty_iff)
qed

subsection \<open>Titles, tabs and order\<close>

lemma duplicate_index_of_title:
  assumes "0 < n" "safe_integer n"
  shows "getDuplicateTitleIndex (base @ '' ('' @ show_int n @ '')'') base = Some n"
proof -
  have d: "list_all digit (show_int n)" "show_int n \<noteq> []"
    using assms(1) show_nat_digits by (simp_all add: show_int_def list_all_iff)
  have "starts_with (base @ '' ('') (base @ '' ('' @ show_int n @ '')'')"
    unfolding starts_with_iff by auto
  moreover have "ends_with '')'' (base @ '' ('' @ show_int n @ '')'')"
    unfolding ends_with_iff by (metis append_assoc)
  moreover have "butlast (drop (length (base @ '' ('')) (base @ '' ('' @ show_int n @ '')'')) = show_int n"
    by simp
  ultimately show ?thesis
    using assms d parse_int_show_int[OF assms(2)] unfolding getDuplicateTitleIndex_def Let_def by simp
qed

lemma max_of_ge: "x \<in> set xs \<Longrightarrow> x \<le> max_of xs"
proof -
  have fold: "y \<le> foldr max ys z \<and> (\<forall>x \<in> set ys. x \<le> foldr max ys z)" if "y = z" for y z :: int and ys
    using that by (induction ys) auto
  assume "x \<in> set xs"
  then show ?thesis using fold[of "hd xs" "hd xs" "tl xs"] by (cases xs) (auto simp: max_of_def)
qed

lemma title_index_mem:
  "t \<in> set tabs \<Longrightarrow> getDuplicateTitleIndex (t_title t) base = Some n \<Longrightarrow> n \<in> set (title_indexes tabs base)"
  unfolding title_indexes_def by (induction tabs) (auto simp: List.map_filter_simps split: option.splits)

lemma title_index_pos: "getDuplicateTitleIndex title base = Some n \<Longrightarrow> 0 < n"
  by (auto simp: getDuplicateTitleIndex_def Let_def split: if_splits number.splits)

lemma title_indexes_pos: "n \<in> set (title_indexes tabs base) \<Longrightarrow> 0 < n"
  unfolding title_indexes_def
  by (induction tabs) (auto simp: List.map_filter_simps split: option.splits dest: title_index_pos)

text \<open>A duplicated session gets a title that no open tab has, numbered after the highest number in
  use (as long as the numbers stay exact).\<close>

theorem duplicate_title_fresh:
  assumes "safe_integer (max_of (title_indexes tabs base) + 1) \<or> title_indexes tabs base = []"
    and "t \<in> set tabs"
  shows "buildDuplicateSessionTitle tabs base \<noteq> t_title t"
proof (cases "title_indexes tabs base = []")
  case True
  have "getDuplicateTitleIndex base base = Some 1" by (simp add: getDuplicateTitleIndex_def)
  then show ?thesis
    using True assms(2) title_index_mem[of t tabs base 1]
    by (auto simp: buildDuplicateSessionTitle_def)
next
  case False
  let ?m = "max_of (title_indexes tabs base)"
  have "0 < ?m" using False max_of_ge[of "hd (title_indexes tabs base)" "title_indexes tabs base"]
      title_indexes_pos[of "hd (title_indexes tabs base)" tabs base] by (auto intro: hd_in_set)
  then have "getDuplicateTitleIndex (base @ '' ('' @ show_int (?m + 1) @ '')'') base = Some (?m + 1)"
    using assms(1) False by (intro duplicate_index_of_title) simp_all
  moreover have "getDuplicateTitleIndex (t_title t) base \<noteq> Some (?m + 1)"
    using title_index_mem[OF assms(2)] max_of_ge by fastforce
  ultimately show ?thesis using False by (auto simp: buildDuplicateSessionTitle_def Let_def)
qed

lemma duplicate_title_fresh_witness:
  "buildDuplicateSessionTitle [createSessionTab ''t'' ''t1'' (hd sampleHosts)
      (createSessionPane ''t'' ''p1'' (hd sampleHosts) ''api'') ''api''] ''api'' \<noteq> ''api''"
proof -
  let ?t = "createSessionTab ''t'' ''t1'' (hd sampleHosts) (createSessionPane ''t'' ''p1'' (hd sampleHosts) ''api'') ''api''"
  have "title_indexes [?t] ''api'' = [1]"
    by (simp add: title_indexes_def List.map_filter_simps getDuplicateTitleIndex_def)
  then have "buildDuplicateSessionTitle [?t] ''api'' \<noteq> t_title ?t"
    by (intro duplicate_title_fresh) (simp_all add: max_of_def safe_integer_def)
  then show ?thesis by simp
qed

lemma find_index_nth:
  "distinct (map f xs) \<Longrightarrow> i < length xs \<Longrightarrow> find_index (\<lambda>x. Some (f x) = Some (f (xs ! i))) xs = Some i"
proof (induction xs arbitrary: i)
  case (Cons x xs)
  show ?case
  proof (cases i)
    case (Suc j)
    then have "f (xs ! j) \<in> f ` set xs" using Cons.prems(2) by simp
    then show ?thesis using Cons Suc by auto
  qed simp
qed simp

lemma find_index_some:
  "find_index p xs = Some i \<Longrightarrow> i < length xs \<and> p (xs ! i)"
  by (induction xs arbitrary: i) (auto split: if_splits)

lemma find_index_none: "find_index p xs = None \<longleftrightarrow> (\<forall>x \<in> set xs. \<not> p x)"
  by (induction xs) auto

lemma cycle_at:
  assumes "distinct (map t_id (ss_tabs s))" "i < length (ss_tabs s)" "ss_activeTabId s = Some (t_id (ss_tabs s ! i))"
    and "1 < length (ss_tabs s)"
  shows "ss_activeTabId (cycleSessionTab d s) =
    Some (t_id (ss_tabs s ! nat ((int i + d + int (length (ss_tabs s))) mod int (length (ss_tabs s)))))"
  using assms find_index_nth[OF assms(1,2)] by (simp add: cycleSessionTab_def Let_def)

text \<open>Cycling through the tabs goes round: going forward and back, in either order, returns to the
  tab one started from.\<close>

theorem cycle_forward_back:
  assumes "workspace_ok s" "d = 1 \<or> d = -1"
  shows "cycleSessionTab (- d) (cycleSessionTab d s) = s"
proof (cases "length (ss_tabs s) \<le> 1")
  case False
  let ?n = "length (ss_tabs s)"
  have dist: "distinct (map t_id (ss_tabs s))" using assms(1) by (simp add: workspace_ok_def tabs_wf_def)
  have "ss_tabs s \<noteq> []" using False by auto
  then obtain i where i: "i < ?n" "ss_activeTabId s = Some (t_id (ss_tabs s ! i))"
    using assms(1) by (auto simp: workspace_ok_def active_ok_def in_set_conv_nth split: option.splits)
  let ?s = "cycleSessionTab d s" and ?j = "nat ((int i + d + int ?n) mod int ?n)"
  have j: "?j < ?n" using False by (intro cycle_index) simp
  have tabs: "ss_tabs ?s = ss_tabs s" by (simp add: cycleSessionTab_def Let_def)
  have act: "ss_activeTabId ?s = Some (t_id (ss_tabs s ! ?j))"
    using dist i False by (intro cycle_at) simp_all
  have "0 \<le> (int i + d + int ?n) mod int ?n" by (rule pos_mod_sign) (use \<open>ss_tabs s \<noteq> []\<close> in simp)
  then have int_j: "int ?j = (int i + d + int ?n) mod int ?n" by (rule nat_0_le)
  have "(int ?j + - d + int ?n) mod int ?n = (int i + d + int ?n + - d + int ?n) mod int ?n"
    unfolding int_j by (metis (no_types, opaque_lifting) add.assoc mod_add_left_eq)
  also have "\<dots> = int i mod int ?n" by (simp add: algebra_simps)
  finally have "nat ((int ?j + - d + int ?n) mod int ?n) = i" using i(1) by simp
  then have "ss_activeTabId (cycleSessionTab (- d) ?s) = ss_activeTabId s"
    using cycle_at[of ?s ?j "- d"] dist j False tabs act i(2) by simp
  then show ?thesis by (simp add: cycleSessionTab_def Let_def)
qed (simp add: cycleSessionTab_def)

lemma cycle_forward_back_witness:
  "cycleSessionTab (- 1) (cycleSessionTab 1 sessions_initial) = sessions_initial"
  using cycle_forward_back[of sessions_initial 1] initial_ok by simp

subsection \<open>What is written to storage\<close>

lemma sanitize_pane_simps [simp]:
  "p_id (sanitize_pane p) = p_id p" "p_backend (sanitize_pane p) = None" "p_queue (sanitize_pane p) = []"
  "p_persist (sanitize_pane p) = Some (coalesce (p_persist p) True)" "p_state (sanitize_pane p) = Disconnected"
  by (simp_all add: sanitize_pane_def normalizePersistedPane_def Let_def)

lemma sanitized_panes_get:
  assumes "obj_wf (ss_panes s)"
  shows "obj_get (ss_panes (sanitizePersistedWorkspace s)) i = map_option sanitize_pane (obj_get (ss_panes s) i)"
proof -
  have "distinct (map fst (obj_entries (ss_panes s)))"
    using assms by (metis mset_obj_entries mset_eq_imp_distinct_iff mset_map obj_wf_def)
  then have d: "distinct (map fst (map (\<lambda>(k, p). (k, sanitize_pane p)) (obj_entries (ss_panes s))))"
    by (simp add: comp_def case_prod_unfold)
  have "map_of (obj_entries (ss_panes s)) = map_of (ss_panes s)"
    by (rule obj_entries_get[OF assms])
  then show ?thesis unfolding sanitizePersistedWorkspace_def
    by (simp add: from_entries_distinct[OF d] map_of_map)
qed

lemma sanitized_other [simp]:
  "ss_tabs (sanitizePersistedWorkspace s) = ss_tabs s"
  "ss_activeTabId (sanitizePersistedWorkspace s) = ss_activeTabId s"
  by (simp_all add: sanitizePersistedWorkspace_def)

lemma obj_keys_get: "fst ` set m = {k. obj_get m k \<noteq> None}"
  by (metis (mono_tags, lifting) Collect_cong Collect_mem_eq obj_get_None_iff)

lemma sanitized_ok:
  assumes "workspace_ok s"
  shows "workspace_ok (sanitizePersistedWorkspace s)"
proof -
  let ?s = "sanitizePersistedWorkspace s"
  have panes: "panes_wf (ss_panes s)" using assms by (simp add: workspace_ok_def)
  then have wf: "obj_wf (ss_panes s)" by (simp add: panes_wf_def)
  note get = sanitized_panes_get[OF wf]
  have wf': "obj_wf (ss_panes ?s)" by (simp add: sanitizePersistedWorkspace_def)
  have "pane_keys ?s = pane_keys s" unfolding obj_keys_get get by simp
  moreover have "p_id q = k" if "(k, q) \<in> set (ss_panes ?s)" for k q
    using that panes_wf_get[OF panes, of k] unfolding obj_wf_get[OF wf'] get by auto
  then have "panes_wf (ss_panes ?s)" using wf' by (auto simp: panes_wf_def list_all_iff)
  ultimately show ?thesis using assms by (simp add: workspace_ok_def)
qed

lemma partialize_simps [simp]:
  "ss_tabs (sessions_partialize now s) = ss_tabs s"
  "ss_activeTabId (sessions_partialize now s) = ss_activeTabId s"
  "ss_panes (sessions_partialize now s) = ss_panes (sanitizePersistedWorkspace s)"
  by (simp_all add: sessions_partialize_def Let_def sanitizePersistedWorkspace_def)

text \<open>What the session store writes to storage holds nothing private: no backend session, no queued
  command, and terminal output only for panes (or, once the pane is gone, entries) that opted in to
  keeping it; and at most 200 entries of history.\<close>

theorem stored_sessions_private:
  assumes "obj_wf (ss_panes s)" and out_def: "out = sessions_partialize now s"
  shows "(\<forall>i p. obj_get (ss_panes out) i = Some p \<longrightarrow>
      p_backend p = None \<and> p_queue p = [] \<and> p_state p = Disconnected) \<and>
    length (ss_history out) \<le> 200 \<and>
    (\<forall>e \<in> set (ss_history out). he_output e \<noteq> None \<longrightarrow>
      (case obj_get (ss_panes s) (he_paneId e) of
         Some p \<Rightarrow> p_persist p \<noteq> Some False | None \<Rightarrow> he_persist e = Some True))"
proof (intro conjI ballI allI impI)
  note get = sanitized_panes_get[OF assms(1)]
  fix i p assume "obj_get (ss_panes out) i = Some p"
  then show "p_backend p = None" "p_queue p = []" "p_state p = Disconnected"
    by (auto simp: out_def get)
next
  have hist: "ss_history out = sanitizePersistedCommandHistory (ss_history s) (ss_panes (sanitizePersistedWorkspace s))"
    by (simp add: out_def sessions_partialize_def Let_def sanitizePersistedWorkspace_def)
  show "length (ss_history out) \<le> 200"
    by (simp add: hist sanitizePersistedCommandHistory_def limitCommandHistory_def SESSION_HISTORY_LIMIT_def)
  fix e assume e: "e \<in> set (ss_history out)" and out: "he_output e \<noteq> None"
  obtain e0 where e0: "e = sanitize_entry (ss_panes (sanitizePersistedWorkspace s)) e0"
    using e by (auto simp: hist sanitizePersistedCommandHistory_def)
  have res: "resolvePersistOutputPreview e0 (ss_panes (sanitizePersistedWorkspace s))"
    using out by (rule contrapos_np) (simp add: e0 sanitize_entry_def)
  have id: "he_paneId e = he_paneId e0" "he_persist e = Some True"
    using res by (simp_all add: e0 sanitize_entry_def)
  show "case obj_get (ss_panes s) (he_paneId e) of
      Some p \<Rightarrow> p_persist p \<noteq> Some False | None \<Rightarrow> he_persist e = Some True"
    using res id
    by (auto simp: resolvePersistOutputPreview_def sanitized_panes_get[OF assms(1)]
        normalizePersistedPane_def coalesce_def split: option.splits)
qed

lemma stored_sessions_private_witness:
  "ss_history (sessions_partialize ''t'' sessions_initial) = [] \<and>
   length (ss_history (sessions_partialize ''t'' sessions_initial)) \<le> 200"
  using stored_sessions_private[OF _ refl, of sessions_initial "''t''"]
  by (simp add: sessions_initial_def) (simp add: sessions_partialize_def Let_def
      sanitizePersistedWorkspace_def sanitizePersistedCommandHistory_def limitCommandHistory_def)

text \<open>What a stored pane looks like: without its backend session and its queue, disconnected, and marked to
  reconnect if it was connected. Everything else is as it was; the preference about output is filled in.\<close>

definition restored_pane :: "pane \<Rightarrow> pane" where
  "restored_pane p = \<lparr>p_id = p_id p, p_hostId = p_hostId p, p_title = p_title p, p_state = Disconnected,
     p_error = p_error p, p_transport = p_transport p, p_backend = None, p_queue = [],
     p_reconnect = (p_state p = Connected \<or> p_reconnect p), p_persist = Some (p_persist p \<noteq> Some False),
     p_createdAt = p_createdAt p, p_updatedAt = p_updatedAt p\<rparr>"

lemma sanitize_twice: "sanitize_pane (sanitize_pane p) = restored_pane p"
  by (rule pane.equality)
    (auto simp: restored_pane_def sanitize_pane_def normalizePersistedPane_def coalesce_def Let_def split: option.split)

text \<open>C39: a reload restores a consistent workspace: the tabs are the same in every field, the same tab is
  active, and the panes are the same ones under the same keys, each as it was in every field but these: it is
  disconnected, has no backend session and no queued commands, is marked to reconnect if it was connected or
  marked already, and keeps its output unless that was switched off. The stored text reads back as it was
  written.\<close>

theorem reload_restores_workspace:
  assumes "workspace_ok s" and r_def: "r = sessions_merge (sessions_partialize now s) hist current"
  shows "workspace_ok r \<and> ss_tabs r = ss_tabs s \<and> ss_activeTabId r = ss_activeTabId s \<and>
    pane_keys r = pane_keys s \<and> ss_lastRestoredAt r = Some now \<and>
    (\<forall>i. obj_get (ss_panes r) i = map_option restored_pane (obj_get (ss_panes s) i))"
proof -
  let ?w = "sessions_partialize now s"
  have wf: "obj_wf (ss_panes s)" using assms(1) by (simp add: workspace_ok_def panes_wf_def)
  have "workspace_ok (?w\<lparr>ss_history := []\<rparr>)"
    using sanitized_ok[OF assms(1)] by (simp add: workspace_ok_def)
  then have w: "workspace_ok ?w" by simp
  then have wf': "obj_wf (ss_panes ?w)" by (simp add: workspace_ok_def panes_wf_def)
  have r: "ss_tabs r = ss_tabs s" "ss_activeTabId r = ss_activeTabId s"
    "ss_panes r = ss_panes (sanitizePersistedWorkspace ?w)"
    by (simp_all add: r_def sessions_merge_def Let_def)
  have get: "obj_get (ss_panes r) j = map_option (sanitize_pane \<circ> sanitize_pane) (obj_get (ss_panes s) j)" for j
    unfolding r(3) sanitized_panes_get[OF wf'] by (simp add: sanitized_panes_get[OF wf] option.map_comp)
  have "workspace_ok r"
    using sanitized_ok[OF w] by (simp add: workspace_ok_def r)
  moreover have "pane_keys r = pane_keys s" unfolding obj_keys_get get by simp
  moreover have "sanitize_pane \<circ> sanitize_pane = restored_pane" by (simp add: comp_def sanitize_twice)
  moreover have "ss_lastRestoredAt r = Some now"
    by (simp add: r_def sessions_merge_def sessions_partialize_def sanitizePersistedWorkspace_def Let_def)
  ultimately show ?thesis using r(1,2) get by simp
qed

lemma reload_restores_workspace_witness:
  "let s = updatePaneBackendSession ''t'' ''p1'' (Some ''b1'') (updatePaneConnectionState ''t'' ''p1'' Connected None
         (snd (openSession ''t'' ''p1'' ''t1'' (hd sampleHosts) sessions_initial)));
       r = sessions_merge (sessions_partialize ''u'' s) None sessions_initial
   in ss_tabs r = ss_tabs s \<and> length (ss_tabs r) = 1 \<and>
      (\<exists>p q. obj_get (ss_panes s) ''p1'' = Some p \<and> obj_get (ss_panes r) ''p1'' = Some q \<and>
         p_state p = Connected \<and> p_backend p = Some ''b1'' \<and> p_state q = Disconnected \<and> p_backend q = None \<and>
         p_reconnect q \<and> p_title q = p_title p)"
proof -
  let ?o = "snd (openSession ''t'' ''p1'' ''t1'' (hd sampleHosts) sessions_initial)"
  let ?c = "updatePaneConnectionState ''t'' ''p1'' Connected None ?o"
  let ?s = "updatePaneBackendSession ''t'' ''p1'' (Some ''b1'') ?c"
  have "workspace_ok ?o"
    unfolding openSession_def Let_def snd_conv
    by (rule openSessionWorkspace_ok) (simp_all add: initial_ok, simp_all add: sessions_initial_def)
  then have "workspace_ok ?s" by (intro pane_updates_ok)
  note r = reload_restores_workspace[OF this refl, of "''u''" None sessions_initial]
  have p: "\<exists>p. obj_get (ss_panes ?s) ''p1'' = Some p \<and> p_state p = Connected \<and> p_backend p = Some ''b1''"
    "length (ss_tabs ?s) = 1"
    by (simp_all add: openSession_def openSessionWorkspace_def sessions_initial_def Let_def obj_set_def
        createSessionPane_def updatePaneBackendSession_def updatePaneConnectionState_def update_pane_def touchPane_def)
  with r show ?thesis by (auto simp: Let_def restored_pane_def)
qed

end
