(* ===== verification/KnownHosts.thy ===== *)
theory KnownHosts
  imports VaultSync
begin

section \<open>Trusted host keys (\<open>types/known-host.ts\<close>, \<open>store/known-hosts-store.ts\<close>)\<close>

text \<open>
  The state is the list of trusted keys. Their identifier is made of host name, port and
  algorithm, so trusting a key again replaces the record. A scan result comes from the backend.
\<close>

record known_host =
  n_id :: string
  n_hostname :: string
  n_port :: "int number"
  n_algorithm :: string
  n_publicKey :: string
  n_fingerprint :: string
  n_trustedAt :: string
  n_updatedAt :: string

record scan_result =
  sc_hostname :: string
  sc_port :: "int number"
  sc_algorithm :: string
  sc_publicKey :: string
  sc_fingerprint :: string

definition createKnownHostId :: "string \<Rightarrow> int number \<Rightarrow> string \<Rightarrow> string" where
  "createKnownHostId hostname port algorithm = hostname @ '':'' @ show_number port @ '':'' @ algorithm"

definition createKnownHostRecord :: "string \<Rightarrow> scan_result \<Rightarrow> known_host" where
  "createKnownHostRecord now e = \<lparr>
     n_id = createKnownHostId (sc_hostname e) (sc_port e) (sc_algorithm e),
     n_hostname = sc_hostname e, n_port = sc_port e, n_algorithm = sc_algorithm e,
     n_publicKey = sc_publicKey e, n_fingerprint = sc_fingerprint e,
     n_trustedAt = now, n_updatedAt = now\<rparr>"

definition sampleKnownHosts :: "known_host list" where
  "sampleKnownHosts = [
    \<lparr> n_id = ''bastion.acme.internal:22:ssh-ed25519'', n_hostname = ''bastion.acme.internal'',
      n_port = Finite 22, n_algorithm = ''ssh-ed25519'',
      n_publicKey = ''AAAAC3NzaC1lZDI1NTE5AAAAIKprodgatewaydemo'',
      n_fingerprint = ''SHA256:prodGatewayDemoKey'', n_trustedAt = ''2026-03-27T16:40:00.000Z'',
      n_updatedAt = ''2026-03-29T11:10:00.000Z'' \<rparr>,
    \<lparr> n_id = ''billing-api-02.use1.internal:2222:ssh-ed25519'',
      n_hostname = ''billing-api-02.use1.internal'', n_port = Finite 2222,
      n_algorithm = ''ssh-ed25519'', n_publicKey = ''AAAAC3NzaC1lZDI1NTE5AAAAIKbillingapidemo'',
      n_fingerprint = ''SHA256:billingDeployDemo'', n_trustedAt = ''2026-03-27T15:00:00.000Z'',
      n_updatedAt = ''2026-03-28T17:45:00.000Z'' \<rparr> ]"

definition sortKnownHosts :: "(string \<Rightarrow> string \<Rightarrow> int) \<Rightarrow> known_host list \<Rightarrow> known_host list" where
  "sortKnownHosts lc ns = by_newest lc n_updatedAt ns"

type_synonym known_hosts_world = "known_host list \<times> deletion_map"

definition trustKnownHost ::
    "(string \<Rightarrow> string \<Rightarrow> int) \<Rightarrow> string \<Rightarrow> scan_result \<Rightarrow> known_hosts_world \<Rightarrow> known_hosts_world" where
  "trustKnownHost lc now e w = (case w of (ns, vault) \<Rightarrow>
     let r = createKnownHostRecord now e;
         existingId = createKnownHostId (n_hostname r) (n_port r) (n_algorithm r)
     in (sortKnownHosts lc (r # filter (\<lambda>n. n_id n \<noteq> existingId) ns),
         clearDeleted lc KKnownHosts existingId vault))"

definition removeKnownHost ::
    "(string \<Rightarrow> int option) \<Rightarrow> (string \<Rightarrow> string \<Rightarrow> int) \<Rightarrow> int \<Rightarrow> string \<Rightarrow> string \<Rightarrow>
     known_hosts_world \<Rightarrow> known_hosts_world" where
  "removeKnownHost dp lc ms now i w = (case w of (ns, vault) \<Rightarrow>
     (sortKnownHosts lc (filter (\<lambda>n. n_id n \<noteq> i) ns), markDeleted dp lc ms now KKnownHosts i vault))"

interpretation known_hosts: record_store n_id "sortKnownHosts lc" for lc
  unfolding sortKnownHosts_def by (rule record_store_newest)

interpretation known_hosts_vault: tombstoned_store n_id "sortKnownHosts lc"
    "markDeleted dp lc ms now" "clearDeleted lc" tombstone_ids KKnownHosts
  for lc dp ms now
  by unfold_locales

subsection \<open>The identifier\<close>

lemma show_int_chars: "c \<in> set (show_int i) \<Longrightarrow> digit c \<or> c = CHR ''-''"
  using show_nat_digits by (auto simp: show_int_def split: if_splits)

lemma show_number_no_colon: "CHR '':'' \<notin> set (show_number n)"
proof (cases n)
  case (Finite i)
  have "\<not> digit (CHR '':'')" by (simp add: digit_def)
  then show ?thesis using Finite show_int_chars by auto
qed (auto split: if_splits)

lemma last_sep_unique:
  assumes "x @ c # y = x' @ c # y'" "c \<notin> set y" "c \<notin> set y'"
  shows "x = x' \<and> y = y'"
proof -
  have "rev y @ c # rev x = rev y' @ c # rev x'"
    using arg_cong[OF assms(1), of rev] by simp
  then have "takeWhile ((\<noteq>) c) (rev y @ c # rev x) = takeWhile ((\<noteq>) c) (rev y' @ c # rev x')" by simp
  moreover have "takeWhile ((\<noteq>) c) (rev z @ c # w) = rev z" if "c \<notin> set z" for z w
    using that by (subst takeWhile_append2) auto
  ultimately have "rev y = rev y'" using assms(2,3) by metis
  then show ?thesis using assms(1) by simp
qed

lemma show_int_inj: "safe_integer i \<Longrightarrow> safe_integer j \<Longrightarrow> show_int i = show_int j \<Longrightarrow> i = j"
  by (metis number.inject(2) parse_int_show_int)

definition trust_ok :: "known_hosts_world \<Rightarrow> bool" where
  "trust_ok w \<longleftrightarrow> no_ghosts n_id (tombstone_ids (snd w) KKnownHosts) (fst w) \<and>
     list_all (\<lambda>n. n_id n = createKnownHostId (n_hostname n) (n_port n) (n_algorithm n)) (fst w)"

lemma createKnownHostRecord_id [simp]:
  "n_id (createKnownHostRecord now e) = createKnownHostId (sc_hostname e) (sc_port e) (sc_algorithm e)"
  "n_hostname (createKnownHostRecord now e) = sc_hostname e" "n_port (createKnownHostRecord now e) = sc_port e"
  "n_algorithm (createKnownHostRecord now e) = sc_algorithm e"
  by (simp_all add: createKnownHostRecord_def)

lemma sortKnownHosts_set [simp]: "set (sortKnownHosts lc ns) = set ns"
  by (simp add: sortKnownHosts_def)

lemma trustKnownHost_ok: "trust_ok w \<Longrightarrow> trust_ok (trustKnownHost lc now e w)"
  using known_hosts_vault.replace_ok[of "snd w" "fst w" lc "createKnownHostRecord now e"]
  by (cases w) (simp add: trust_ok_def trustKnownHost_def Let_def list_all_iff)

lemma removeKnownHost_ok: "trust_ok w \<Longrightarrow> trust_ok (removeKnownHost dp lc ms now i w)"
  using known_hosts_vault.delete_ok[of "snd w" "fst w" dp lc ms now i]
  by (cases w) (simp add: trust_ok_def removeKnownHost_def list_all_iff)

text \<open>Two trusted keys have the same identifier only if they are for the same host, port and
  algorithm, so trusting a key never overwrites the trust of another host.\<close>

theorem known_host_id_exact:
  assumes "CHR '':'' \<notin> set a" "CHR '':'' \<notin> set a'" "safe_integer p" "safe_integer p'"
  shows "createKnownHostId h (Finite p) a = createKnownHostId h' (Finite p') a' \<longleftrightarrow>
    h = h' \<and> p = p' \<and> a = a'"
proof
  assume "createKnownHostId h (Finite p) a = createKnownHostId h' (Finite p') a'"
  then have "(h @ '':'' @ show_number (Finite p)) @ CHR '':'' # a =
      (h' @ '':'' @ show_number (Finite p')) @ CHR '':'' # a'" by (simp add: createKnownHostId_def)
  from last_sep_unique[OF this assms(1,2)]
  have "h @ CHR '':'' # show_number (Finite p) = h' @ CHR '':'' # show_number (Finite p')" "a = a'"
    by simp_all
  with last_sep_unique[OF this(1) show_number_no_colon show_number_no_colon]
  show "h = h' \<and> p = p' \<and> a = a'" using show_int_inj[OF assms(3,4)] by simp
qed simp

lemma known_host_id_exact_witness:
  "createKnownHostId ''::1'' (Finite 22) ''rsa'' \<noteq> createKnownHostId ''::1:2'' (Finite 2) ''rsa''"
  by (subst known_host_id_exact) (simp_all add: safe_integer_def)

end
