(* ===== verification/Snippets.thy ===== *)
theory Snippets
  imports VaultSync Utils
begin

section \<open>Saved commands (\<open>types/snippet.ts\<close>, \<open>store/snippets-store.ts\<close>)\<close>

record snippet =
  s_id :: string
  s_title :: string
  s_description :: string
  s_command :: string
  s_tags :: "string list"
  s_targetHostIds :: "string list"
  s_createdAt :: string
  s_updatedAt :: string
  s_lastRunAt :: "string option"

record snippet_form =
  sf_title :: string
  sf_description :: string
  sf_command :: string
  sf_tags :: string
  sf_targetHostIds :: "string list"

definition emptySnippetFormValues :: snippet_form where
  "emptySnippetFormValues = \<lparr>sf_title = '''', sf_description = '''', sf_command = '''', sf_tags = '''',
     sf_targetHostIds = []\<rparr>"

definition sampleSnippets :: "snippet list" where
  "sampleSnippets = [
    \<lparr> s_id = ''api-tail'', s_title = ''Tail API logs'',
      s_description = ''Quick check of the billing API service log.'',
      s_command = ''sudo journalctl -u billing-api -n 120 --no-pager'', s_tags = [''logs'', ''api''],
      s_targetHostIds = [''billing-api''], s_createdAt = ''2026-03-28T18:10:00.000Z'',
      s_updatedAt = ''2026-03-29T08:45:00.000Z'', s_lastRunAt = None \<rparr>,
    \<lparr> s_id = ''disk-scan'', s_title = ''Disk usage scan'',
      s_description = ''Operator shortcut for filesystem pressure checks.'',
      s_command = ''df -h && du -sh /var/log 2>/dev/null | sort -h'', s_tags = [''ops'', ''storage''],
      s_targetHostIds = [''prod-gateway'', ''edge-router-07''], s_createdAt = ''2026-03-27T14:20:00.000Z'',
      s_updatedAt = ''2026-03-29T07:40:00.000Z'', s_lastRunAt = None \<rparr> ]"

definition createSnippetRecord :: "string \<Rightarrow> string \<Rightarrow> snippet_form \<Rightarrow> snippet option \<Rightarrow> snippet" where
  "createSnippetRecord now uuid v cur = \<lparr>
     s_id = (case cur of None \<Rightarrow> uuid | Some s \<Rightarrow> s_id s),
     s_title = trim (sf_title v), s_description = trim (sf_description v), s_command = sf_command v,
     s_tags = splitCommaList (sf_tags v), s_targetHostIds = sf_targetHostIds v,
     s_createdAt = (case cur of None \<Rightarrow> now | Some s \<Rightarrow> s_createdAt s), s_updatedAt = now,
     s_lastRunAt = (case cur of None \<Rightarrow> None | Some s \<Rightarrow> s_lastRunAt s)\<rparr>"

definition snippetToFormValues :: "snippet \<Rightarrow> snippet_form" where
  "snippetToFormValues s = \<lparr>sf_title = s_title s, sf_description = s_description s,
     sf_command = s_command s, sf_tags = join '', '' (s_tags s), sf_targetHostIds = s_targetHostIds s\<rparr>"

definition sortSnippets :: "(string \<Rightarrow> string \<Rightarrow> int) \<Rightarrow> snippet list \<Rightarrow> snippet list" where
  "sortSnippets lc ss = by_newest lc s_updatedAt ss"

type_synonym snippets_world = "snippet list \<times> deletion_map"

definition createSnippet ::
    "(string \<Rightarrow> string \<Rightarrow> int) \<Rightarrow> string \<Rightarrow> string \<Rightarrow> snippet_form \<Rightarrow> snippets_world \<Rightarrow>
     string \<times> snippets_world" where
  "createSnippet lc now uuid v w = (case w of (ss, vault) \<Rightarrow>
     let s = createSnippetRecord now uuid v None in
     (s_id s, sortSnippets lc (ss @ [s]), clearDeleted lc KSnippets (s_id s) vault))"

definition updateSnippet ::
    "(string \<Rightarrow> string \<Rightarrow> int) \<Rightarrow> string \<Rightarrow> string \<Rightarrow> snippet_form \<Rightarrow> snippets_world \<Rightarrow>
     string \<times> snippets_world" where
  "updateSnippet lc now snippetId v w = (case w of (ss, vault) \<Rightarrow>
     (snippetId, sortSnippets lc (map_where (\<lambda>s. s_id s = snippetId)
        (\<lambda>s. createSnippetRecord now (s_id s) v (Some s)) ss),
      clearDeleted lc KSnippets snippetId vault))"

definition deleteSnippet ::
    "(string \<Rightarrow> int option) \<Rightarrow> (string \<Rightarrow> string \<Rightarrow> int) \<Rightarrow> int \<Rightarrow> string \<Rightarrow> string \<Rightarrow>
     snippets_world \<Rightarrow> snippets_world" where
  "deleteSnippet dp lc ms now i w = (case w of (ss, vault) \<Rightarrow>
     (sortSnippets lc (filter (\<lambda>s. s_id s \<noteq> i) ss), markDeleted dp lc ms now KSnippets i vault))"

definition duplicateSnippet ::
    "(string \<Rightarrow> string \<Rightarrow> int) \<Rightarrow> string \<Rightarrow> string \<Rightarrow> string \<Rightarrow> snippets_world \<Rightarrow>
     string \<times> snippets_world" where
  "duplicateSnippet lc now uuid snippetId w = (case w of (ss, vault) \<Rightarrow>
     (case List.find (\<lambda>s. s_id s = snippetId) ss of
        None \<Rightarrow> ('''', ss, vault)
      | Some source \<Rightarrow>
          let s = (createSnippetRecord now uuid \<lparr>sf_title = s_title source @ '' Copy'',
                sf_description = s_description source, sf_command = s_command source,
                sf_tags = join '', '' (s_tags source), sf_targetHostIds = s_targetHostIds source\<rparr> None)
              \<lparr>s_lastRunAt := None\<rparr>
          in (s_id s, sortSnippets lc (s # ss), clearDeleted lc KSnippets (s_id s) vault)))"

definition removeHostFromAllTargets ::
    "(string \<Rightarrow> string \<Rightarrow> int) \<Rightarrow> string \<Rightarrow> snippet list \<Rightarrow> snippet list" where
  "removeHostFromAllTargets lc hostId ss =
     sortSnippets lc (map (\<lambda>s. s\<lparr>s_targetHostIds := filter (\<lambda>i. i \<noteq> hostId) (s_targetHostIds s)\<rparr>) ss)"

definition markSnippetRun ::
    "(string \<Rightarrow> string \<Rightarrow> int) \<Rightarrow> string \<Rightarrow> string \<Rightarrow> snippet list \<Rightarrow> snippet list" where
  "markSnippetRun lc now snippetId ss =
     sortSnippets lc (map_where (\<lambda>s. s_id s = snippetId)
       (\<lambda>s. s\<lparr>s_lastRunAt := Some now, s_updatedAt := now\<rparr>) ss)"

interpretation snippets: record_store s_id "sortSnippets lc" for lc
  unfolding sortSnippets_def by (rule record_store_newest)

interpretation snippets_vault: tombstoned_store s_id "sortSnippets lc"
    "markDeleted dp lc ms now" "clearDeleted lc" tombstone_ids KSnippets
  for lc dp ms now
  by unfold_locales

abbreviation snippets_ok :: "snippets_world \<Rightarrow> bool" where
  "snippets_ok w \<equiv> no_ghosts s_id (tombstone_ids (snd w) KSnippets) (fst w)"

lemma createSnippetRecord_id [simp]:
  "s_id (createSnippetRecord now u v None) = u" "s_id (createSnippetRecord now u v (Some s)) = s_id s"
  by (simp_all add: createSnippetRecord_def)

lemma snippet_actions_ok:
  assumes "snippets_ok w"
  shows "uuid \<notin> s_id ` set (fst w) \<Longrightarrow> snippets_ok (snd (createSnippet lc now uuid v w))"
    "snippets_ok (snd (updateSnippet lc now i v w))"
    "snippets_ok (deleteSnippet dp lc ms now i w)"
    "uuid \<notin> s_id ` set (fst w) \<Longrightarrow> snippets_ok (snd (duplicateSnippet lc now uuid i w))"
proof -
  obtain ss m where w: "w = (ss, m)" by (cases w)
  show "uuid \<notin> s_id ` set (fst w) \<Longrightarrow> snippets_ok (snd (createSnippet lc now uuid v w))"
    using assms snippets_vault.add_ok[of m ss "createSnippetRecord now uuid v None" lc]
    by (simp add: w createSnippet_def Let_def)
  show "snippets_ok (snd (updateSnippet lc now i v w))"
    using assms snippets_vault.clear_ok[OF snippets_vault.update_ok[of "tombstone_ids m KSnippets" ss
        "\<lambda>s. s_id s = i" "\<lambda>s. createSnippetRecord now (s_id s) v (Some s)" lc], of lc i]
    by (simp add: w updateSnippet_def)
  show "snippets_ok (deleteSnippet dp lc ms now i w)"
    using assms snippets_vault.delete_ok[of m ss dp lc ms now i] by (simp add: w deleteSnippet_def)
  show "uuid \<notin> s_id ` set (fst w) \<Longrightarrow> snippets_ok (snd (duplicateSnippet lc now uuid i w))"
    using assms
    by (auto simp: w duplicateSnippet_def Let_def no_ghosts_def vault.clear_dead split: option.split)
qed

lemma untargeted:
  "s \<in> set (removeHostFromAllTargets lc h ss) \<Longrightarrow> h \<notin> set (s_targetHostIds s)"
  by (auto simp: removeHostFromAllTargets_def sortSnippets_def)

end
