(* ===== verification/Runbooks.thy ===== *)
theory Runbooks
  imports SessionsInv Snippets
begin

section \<open>Runbooks (\<open>types/runbook.ts\<close>, \<open>store/runbooks-store.ts\<close>)\<close>

text \<open>
  A runbook is an ordered list of commands and a cursor, the step to run next. The store's
  actions are steps on the list of runbooks; running a step also queues the command in the
  active pane of the session workspace.
\<close>

record runbook =
  r_id :: string
  r_name :: string
  r_description :: "string option"
  r_steps :: "string list"
  r_next :: int
  r_createdAt :: string
  r_updatedAt :: string
  r_lastRunAt :: "string option"

record runbook_form =
  rf_name :: string
  rf_description :: "string option"
  rf_steps :: string

definition emptyRunbookFormValues :: runbook_form where
  "emptyRunbookFormValues = \<lparr>rf_name = '''', rf_description = Some '''', rf_steps = ''''\<rparr>"

definition splitStepLines :: "string \<Rightarrow> string list" where
  "splitStepLines steps = filter (\<lambda>s. 0 < length s) (map trim (split_on (CHR 0x0A) steps))"

definition createRunbookRecord :: "string \<Rightarrow> string \<Rightarrow> runbook_form \<Rightarrow> runbook option \<Rightarrow> runbook" where
  "createRunbookRecord now uuid v cur =
     (let steps = splitStepLines (rf_steps v) in \<lparr>
     r_id = (case cur of None \<Rightarrow> uuid | Some r \<Rightarrow> r_id r),
     r_name = trim (rf_name v), r_description = map_option trim (rf_description v), r_steps = steps,
     r_next = max 0 (min (case cur of None \<Rightarrow> 0 | Some r \<Rightarrow> r_next r) (int (length steps))),
     r_createdAt = (case cur of None \<Rightarrow> now | Some r \<Rightarrow> r_createdAt r), r_updatedAt = now,
     r_lastRunAt = (case cur of None \<Rightarrow> None | Some r \<Rightarrow> r_lastRunAt r)\<rparr>)"

definition runbookToFormValues :: "runbook \<Rightarrow> runbook_form" where
  "runbookToFormValues r = \<lparr>rf_name = r_name r,
     rf_description = Some (coalesce (r_description r) ''''), rf_steps = join [CHR 0x0A] (r_steps r)\<rparr>"

subsection \<open>The store\<close>

definition sortRunbooks :: "(string \<Rightarrow> string \<Rightarrow> int) \<Rightarrow> runbook list \<Rightarrow> runbook list" where
  "sortRunbooks lc rs = by_newest lc r_updatedAt rs"

definition createRunbook ::
    "(string \<Rightarrow> string \<Rightarrow> int) \<Rightarrow> string \<Rightarrow> string \<Rightarrow> runbook_form \<Rightarrow> runbook list \<Rightarrow>
     string \<times> runbook list" where
  "createRunbook lc now uuid v rs =
     (let r = createRunbookRecord now uuid v None in (r_id r, sortRunbooks lc (rs @ [r])))"

definition updateRunbook ::
    "(string \<Rightarrow> string \<Rightarrow> int) \<Rightarrow> string \<Rightarrow> string \<Rightarrow> runbook_form \<Rightarrow> runbook list \<Rightarrow>
     string \<times> runbook list" where
  "updateRunbook lc now i v rs = (i, sortRunbooks lc (map_where (\<lambda>r. r_id r = i)
     (\<lambda>r. createRunbookRecord now (r_id r) v (Some r)) rs))"

definition reorder_steps :: "string \<Rightarrow> int \<Rightarrow> int \<Rightarrow> runbook \<Rightarrow> runbook" where
  "reorder_steps now from_i to_i r =
     (if from_i = to_i \<or> from_i < 0 \<or> to_i < 0 \<or> int (length (r_steps r)) \<le> from_i \<or>
         int (length (r_steps r)) \<le> to_i
      then r
      else r\<lparr>r_steps := move_at (nat from_i) (nat to_i) (r_steps r), r_updatedAt := now\<rparr>)"

definition reorderRunbookSteps ::
    "(string \<Rightarrow> string \<Rightarrow> int) \<Rightarrow> string \<Rightarrow> string \<Rightarrow> int \<Rightarrow> int \<Rightarrow> runbook list \<Rightarrow> runbook list" where
  "reorderRunbookSteps lc now i from_i to_i rs =
     sortRunbooks lc (map_where (\<lambda>r. r_id r = i) (reorder_steps now from_i to_i) rs)"

definition deleteRunbook :: "(string \<Rightarrow> string \<Rightarrow> int) \<Rightarrow> string \<Rightarrow> runbook list \<Rightarrow> runbook list" where
  "deleteRunbook lc i rs = sortRunbooks lc (filter (\<lambda>r. r_id r \<noteq> i) rs)"

text \<open>\<open>runbook.steps[runbook.nextStepIndex]\<close>, \<open>None\<close> for \<open>undefined\<close>.\<close>

definition step_at :: "runbook \<Rightarrow> string option" where
  "step_at r = (if 0 \<le> r_next r \<and> r_next r < int (length (r_steps r))
     then Some (r_steps r ! nat (r_next r)) else None)"

definition advance :: "string \<Rightarrow> runbook \<Rightarrow> runbook" where
  "advance now r = r\<lparr>r_next := min (r_next r + 1) (int (length (r_steps r))),
     r_lastRunAt := Some now, r_updatedAt := now\<rparr>"

type_synonym runbook_world = "runbook list \<times> sessions \<times> host list"

text \<open>\<open>now\<close> and \<open>uuid\<close> are of the queued command, \<open>now'\<close> is the clock read after it.\<close>

definition runNextStep ::
    "(string \<Rightarrow> string \<Rightarrow> int) \<Rightarrow> string \<Rightarrow> string \<Rightarrow> string \<Rightarrow> string \<Rightarrow> runbook_world \<Rightarrow>
     bool \<times> runbook_world" where
  "runNextStep lc now uuid now' i w = (case w of (rs, s, hosts) \<Rightarrow>
     (case List.find (\<lambda>r. r_id r = i) rs of
        None \<Rightarrow> (False, w)
      | Some r \<Rightarrow>
          if r_steps r = [] \<or> int (length (r_steps r)) \<le> r_next r then (False, w)
          else (case step_at r of
             None \<Rightarrow> (False, w)
           | Some step \<Rightarrow>
               (case dispatchCommandToActivePane lc now uuid step (Some (r_name r)) (s, hosts) of
                  (ok, s', hosts') \<Rightarrow>
                    if \<not> ok then (False, rs, s', hosts')
                    else (True, sortRunbooks lc (map_where (\<lambda>e. r_id e = i) (advance now') rs),
                          s', hosts')))))"

definition resetRunbook ::
    "(string \<Rightarrow> string \<Rightarrow> int) \<Rightarrow> string \<Rightarrow> string \<Rightarrow> runbook list \<Rightarrow> runbook list" where
  "resetRunbook lc now i rs =
     sortRunbooks lc (map_where (\<lambda>r. r_id r = i) (\<lambda>r. r\<lparr>r_next := 0, r_updatedAt := now\<rparr>) rs)"

definition createRunbookFromCommand ::
    "(string \<Rightarrow> string \<Rightarrow> int) \<Rightarrow> string \<Rightarrow> string \<Rightarrow> snippet list \<Rightarrow> string \<Rightarrow> runbook list \<Rightarrow>
     string option \<times> runbook list" where
  "createRunbookFromCommand lc now uuid ss snippetId rs =
     (case List.find (\<lambda>s. s_id s = snippetId) ss of
        None \<Rightarrow> (None, rs)
      | Some s \<Rightarrow>
          let r = (createRunbookRecord now uuid \<lparr>rf_name = s_title s,
                rf_description = Some (s_description s), rf_steps = s_command s\<rparr> None)
              \<lparr>r_steps := [s_command s]\<rparr>
          in (Some (r_id r), sortRunbooks lc (rs @ [r])))"

interpretation runbooks: record_store r_id "sortRunbooks lc" for lc
  unfolding sortRunbooks_def by (rule record_store_newest)

subsection \<open>The cursor stays within the steps\<close>

definition runbook_ok :: "runbook \<Rightarrow> bool" where
  "runbook_ok r \<longleftrightarrow> 0 \<le> r_next r \<and> r_next r \<le> int (length (r_steps r))"

definition runbooks_ok :: "runbook list \<Rightarrow> bool" where
  "runbooks_ok rs \<longleftrightarrow> distinct (map r_id rs) \<and> list_all runbook_ok rs"

lemma createRunbookRecord_simps [simp]:
  "r_id (createRunbookRecord now u v None) = u" "r_id (createRunbookRecord now u v (Some r)) = r_id r"
  "r_next (createRunbookRecord now u v None) = 0"
  "r_steps (createRunbookRecord now u v cur) = splitStepLines (rf_steps v)"
  by (simp_all add: createRunbookRecord_def Let_def)

lemma createRunbookRecord_ok [simp]: "runbook_ok (createRunbookRecord now u v cur)"
  by (simp add: runbook_ok_def createRunbookRecord_def Let_def)

lemma length_move_at: "i < length xs \<Longrightarrow> length (move_at i j xs) = length xs"
  by (metis mset_move_at size_mset)

lemma reorder_steps_simps [simp]:
  "r_id (reorder_steps now a b r) = r_id r" "r_next (reorder_steps now a b r) = r_next r"
  "length (r_steps (reorder_steps now a b r)) = length (r_steps r)"
  "mset (r_steps (reorder_steps now a b r)) = mset (r_steps r)"
  by (auto simp: reorder_steps_def length_move_at mset_move_at)

lemma advance_simps [simp]:
  "r_id (advance now r) = r_id r" "r_steps (advance now r) = r_steps r"
  "r_name (advance now r) = r_name r"
  by (simp_all add: advance_def)

lemma runbook_ok_intros:
  "runbook_ok r \<Longrightarrow> runbook_ok (reorder_steps now a b r)"
  "runbook_ok r \<Longrightarrow> runbook_ok (advance now r)"
  "runbook_ok (r\<lparr>r_next := 0, r_updatedAt := now\<rparr>)"
  by (simp_all add: runbook_ok_def) (simp add: advance_def)

lemma sortRunbooks_set [simp]: "set (sortRunbooks lc rs) = set rs"
  by (simp add: sortRunbooks_def)

lemma runbooks_ok_update:
  "runbooks_ok rs \<Longrightarrow> (\<And>r. r_id (f r) = r_id r) \<Longrightarrow> (\<And>r. runbook_ok r \<Longrightarrow> runbook_ok (f r)) \<Longrightarrow>
   runbooks_ok (sortRunbooks lc (map_where p f rs))"
  by (simp add: runbooks_ok_def list_all_iff set_map_where map_map_where_id) auto

lemma runbooks_ok_add:
  "runbooks_ok rs \<Longrightarrow> runbook_ok r \<Longrightarrow> r_id r \<notin> r_id ` set rs \<Longrightarrow> runbooks_ok (sortRunbooks lc (rs @ [r]))"
  by (simp add: runbooks_ok_def list_all_iff)

lemma runbooks_ok_delete: "runbooks_ok rs \<Longrightarrow> runbooks_ok (deleteRunbook lc i rs)"
  by (simp add: runbooks_ok_def deleteRunbook_def list_all_iff distinct_map_filter)

text \<open>What one user action does to the list of runbooks.\<close>

inductive runbooks_step :: "runbook_world \<Rightarrow> runbook_world \<Rightarrow> bool" where
  create: "u \<notin> r_id ` set rs \<Longrightarrow> runbooks_step (rs, s, h) (snd (createRunbook lc now u v rs), s, h)"
| update: "runbooks_step (rs, s, h) (snd (updateRunbook lc now i v rs), s, h)"
| reorder: "runbooks_step (rs, s, h) (reorderRunbookSteps lc now i a b rs, s, h)"
| delete: "runbooks_step (rs, s, h) (deleteRunbook lc i rs, s, h)"
| run: "runbooks_step w (snd (runNextStep lc now u now' i w))"
| reset: "runbooks_step (rs, s, h) (resetRunbook lc now i rs, s, h)"
| from_snippet: "u \<notin> r_id ` set rs \<Longrightarrow>
    runbooks_step (rs, s, h) (snd (createRunbookFromCommand lc now u ss k rs), s, h)"
| elsewhere: "runbooks_step (rs, s, h) (rs, s', h')"

lemma runNextStep_ok:
  assumes "runbooks_ok rs"
  shows "runbooks_ok (fst (snd (runNextStep lc now u now' i (rs, s, h))))"
  using runbooks_ok_update[OF assms advance_simps(1) runbook_ok_intros(2)] assms
  by (simp add: runNextStep_def split: option.split prod.split)

lemma runbooks_step_ok: "runbooks_step w w' \<Longrightarrow> runbooks_ok (fst w) \<Longrightarrow> runbooks_ok (fst w')"
proof (induction rule: runbooks_step.induct)
  case (update rs s h lc now i v)
  then show ?case
    by (auto simp: updateRunbook_def intro!: runbooks_ok_update)
next
  case (run w lc now u now' i)
  then show ?case using runNextStep_ok by (cases w) auto
next
  case (from_snippet u rs s h lc now ss k)
  have "runbook_ok ((createRunbookRecord now u v None)\<lparr>r_steps := [c]\<rparr>)" for v c
    by (simp add: runbook_ok_def)
  then show ?case using from_snippet
    by (auto simp: createRunbookFromCommand_def Let_def intro!: runbooks_ok_add split: option.split)
qed (auto simp: createRunbook_def Let_def reorderRunbookSteps_def resetRunbook_def
      intro!: runbooks_ok_add runbooks_ok_update runbook_ok_intros runbooks_ok_delete)

text \<open>From an empty list of runbooks, whatever the user does, the cursor of every runbook stays
  between its first step and the end of its steps, and no two runbooks share an identifier. The
  state of the rest of the application may change in any way in between.\<close>

theorem runbook_cursor_in_bounds:
  assumes "runbooks_step\<^sup>*\<^sup>* ([], s0, h0) (rs, s, h)"
  shows "distinct (map r_id rs) \<and>
    (\<forall>r \<in> set rs. 0 \<le> r_next r \<and> r_next r \<le> int (length (r_steps r)))"
proof -
  have "runbooks_ok (fst w)" if "runbooks_step\<^sup>*\<^sup>* w0 w" "runbooks_ok (fst w0)" for w0 w
    using that by (induction rule: rtranclp_induct) (auto intro: runbooks_step_ok)
  from this[OF assms] show ?thesis
    by (auto simp: runbooks_ok_def list_all_iff runbook_ok_def)
qed

lemma runbook_cursor_in_bounds_witness:
  "distinct (map r_id (snd (createRunbook code_unit_compare ''t'' ''u''
      \<lparr>rf_name = ''n'', rf_description = None, rf_steps = ''ls''\<rparr> [])))"
  by (rule conjunct1[OF runbook_cursor_in_bounds[where s = sessions_initial and h = "[]"]])
    (rule r_into_rtranclp, rule runbooks_step.create, simp)

subsection \<open>Running a runbook to its end\<close>

text \<open>The pane that \<open>dispatchCommandToActivePane\<close> queues into.\<close>

definition active_pane :: "sessions \<Rightarrow> pane option" where
  "active_pane s =
     (case List.find (\<lambda>t. Some (t_id t) = ss_activeTabId s) (ss_tabs s) of
        None \<Rightarrow> None
      | Some t \<Rightarrow> obj_get (ss_panes s) (coalesce (t_activePaneId t) ''undefined''))"

lemma queueCommand_simps [simp]:
  "p_id (queueCommand now u p c l) = p_id p"
  "map qc_command (p_queue (queueCommand now u p c l)) = map qc_command (p_queue p) @ [c]"
  by (simp_all add: queueCommand_def touchPane_def)

lemma dispatch_active:
  assumes "active_pane s = Some p" "panes_wf (ss_panes s)"
  shows "\<exists>s' hosts'. dispatchCommandToActivePane lc now u c l (s, hosts) = (True, s', hosts') \<and>
    active_pane s' = Some (queueCommand now u p c l) \<and> panes_wf (ss_panes s')"
proof -
  obtain t where t: "List.find (\<lambda>t. Some (t_id t) = ss_activeTabId s) (ss_tabs s) = Some t"
    "obj_get (ss_panes s) (coalesce (t_activePaneId t) ''undefined'') = Some p"
    using assms(1) by (auto simp: active_pane_def split: option.splits)
  have p: "p_id p = coalesce (t_activePaneId t) ''undefined''" by (rule panes_wf_get[OF assms(2) t(2)])
  let ?s = "s\<lparr>ss_panes := obj_set (p_id p) (queueCommand now u p c l) (ss_panes s)\<rparr>"
  have "panes_wf (ss_panes ?s)"
    using assms(2) set_obj_set_subset[of "p_id p" "queueCommand now u p c l" "ss_panes s"]
    by (auto simp: panes_wf_def list_all_iff)
  moreover have "active_pane ?s = Some (queueCommand now u p c l)" using t p by (simp add: active_pane_def)
  ultimately show ?thesis
    using t p by (simp add: dispatchCommandToActivePane_def queuePaneCommand_def update_pane_def)
qed

lemma dispatch_inactive:
  "active_pane s = None \<Longrightarrow> dispatchCommandToActivePane lc now u c l (s, hosts) = (False, s, hosts)"
  by (auto simp: active_pane_def dispatchCommandToActivePane_def split: option.splits)

lemma find_updated:
  assumes "runbooks_ok rs" "List.find (\<lambda>r. r_id r = i) rs = Some r" "\<And>r. r_id (f r) = r_id r"
  shows "List.find (\<lambda>r. r_id r = i) (sortRunbooks lc (map_where (\<lambda>r. r_id r = i) f rs)) = Some (f r)"
proof (rule find_eqI)
  have r: "r \<in> set rs" "r_id r = i" using find_Some_set[OF assms(2)] by auto
  then show "f r \<in> set (sortRunbooks lc (map_where (\<lambda>r. r_id r = i) f rs))"
    by (auto simp: set_map_where)
  show "r_id (f r) = i" using r assms(3) by simp
  fix y assume y: "y \<in> set (sortRunbooks lc (map_where (\<lambda>r. r_id r = i) f rs))" "r_id y = i"
  then obtain x where x: "x \<in> set rs" "r_id x = i" "y = f x" by (auto simp: set_map_where assms(3))
  have "inj_on r_id (set rs)" using assms(1) by (simp add: runbooks_ok_def distinct_map)
  with x r have "x = r" by (auto simp: inj_on_def)
  with x show "y = f r" by simp
qed

lemma runNextStep_runs:
  assumes "runbooks_ok rs" "List.find (\<lambda>r. r_id r = i) rs = Some r" "r_next r < int (length (r_steps r))"
    and "active_pane s = Some p" "panes_wf (ss_panes s)"
  shows "\<exists>rs' s' h'. runNextStep lc now u now' i (rs, s, h) = (True, rs', s', h') \<and>
    runbooks_ok rs' \<and> List.find (\<lambda>r. r_id r = i) rs' = Some (advance now' r) \<and>
    active_pane s' = Some (queueCommand now u p (r_steps r ! nat (r_next r)) (Some (r_name r))) \<and>
    panes_wf (ss_panes s')"
proof -
  have "runbook_ok r" using find_Some_set[OF assms(2)] assms(1) by (auto simp: runbooks_ok_def list_all_iff)
  then have at: "step_at r = Some (r_steps r ! nat (r_next r))" "r_steps r \<noteq> []"
    using assms(3) by (auto simp: step_at_def runbook_ok_def)
  from dispatch_active[OF assms(4,5), of lc now u "r_steps r ! nat (r_next r)" "Some (r_name r)" h]
  show ?thesis
    using at assms(1-3) find_updated[OF assms(1,2), of "advance now'" lc]
      runbooks_ok_update[OF assms(1), of "advance now'" lc "\<lambda>e. r_id e = i"] runbook_ok_intros(2)
    by (auto simp: runNextStep_def)
qed

text \<open>The user runs the next step once for every entry of \<open>clock\<close>.\<close>

fun run_steps ::
    "(string \<Rightarrow> string \<Rightarrow> int) \<Rightarrow> (string \<times> string \<times> string) list \<Rightarrow> string \<Rightarrow> runbook_world \<Rightarrow>
     bool list \<times> runbook_world" where
  "run_steps lc [] i w = ([], w)"
| "run_steps lc ((now, u, now') # clock) i w =
     (case runNextStep lc now u now' i w of (ok, w') \<Rightarrow>
        (case run_steps lc clock i w' of (oks, w'') \<Rightarrow> (ok # oks, w'')))"

lemma runNextStep_finished:
  "List.find (\<lambda>r. r_id r = i) rs = Some r \<Longrightarrow> int (length (r_steps r)) \<le> r_next r \<Longrightarrow>
   runNextStep lc now u now' i (rs, s, h) = (False, rs, s, h)"
  by (simp add: runNextStep_def)

lemma run_steps_all:
  assumes "runbooks_ok rs" "List.find (\<lambda>r. r_id r = i) rs = Some r"
    and "length clock = length (r_steps r) - nat (r_next r)"
    and "active_pane s = Some p" "panes_wf (ss_panes s)"
  shows "\<exists>rs' s' h' r' p'. run_steps lc clock i (rs, s, h) = (replicate (length clock) True, rs', s', h') \<and>
    active_pane s' = Some p' \<and>
    map qc_command (p_queue p') = map qc_command (p_queue p) @ drop (nat (r_next r)) (r_steps r) \<and>
    List.find (\<lambda>r. r_id r = i) rs' = Some r' \<and> int (length (r_steps r')) \<le> r_next r'"
  using assms
proof (induction clock arbitrary: rs s h r p)
  case Nil
  then have "runbook_ok r" using find_Some_set[OF Nil.prems(2)] by (auto simp: runbooks_ok_def list_all_iff)
  with Nil show ?case by (auto simp: runbook_ok_def)
next
  case (Cons c clock)
  obtain now u now' where c: "c = (now, u, now')" by (cases c)
  have ok: "runbook_ok r"
    using find_Some_set[OF Cons.prems(2)] Cons.prems(1) by (auto simp: runbooks_ok_def list_all_iff)
  then have lt: "r_next r < int (length (r_steps r))" using Cons.prems(3) by (simp add: runbook_ok_def)
  from runNextStep_runs[OF Cons.prems(1,2) lt Cons.prems(4,5), of lc now u now' h]
  obtain rs' s' h' where run: "runNextStep lc now u now' i (rs, s, h) = (True, rs', s', h')"
    "runbooks_ok rs'" "List.find (\<lambda>r. r_id r = i) rs' = Some (advance now' r)"
    "active_pane s' = Some (queueCommand now u p (r_steps r ! nat (r_next r)) (Some (r_name r)))"
    "panes_wf (ss_panes s')" by blast
  have adv: "nat (r_next (advance now' r)) = Suc (nat (r_next r))"
    using ok lt by (simp add: advance_def runbook_ok_def)
  have "length clock = length (r_steps (advance now' r)) - nat (r_next (advance now' r))"
    using Cons.prems(3) adv by simp
  from Cons.IH[OF run(2,3) this run(4,5), of h']
  obtain rs'' s'' h'' r'' p'' where IH:
    "run_steps lc clock i (rs', s', h') = (replicate (length clock) True, rs'', s'', h'')"
    "active_pane s'' = Some p''"
    "map qc_command (p_queue p'') = map qc_command (p_queue p) @ [r_steps r ! nat (r_next r)] @
       drop (Suc (nat (r_next r))) (r_steps r)"
    "List.find (\<lambda>r. r_id r = i) rs'' = Some r''" "int (length (r_steps r'')) \<le> r_next r''"
    using adv by auto
  have "drop (nat (r_next r)) (r_steps r) =
      r_steps r ! nat (r_next r) # drop (Suc (nat (r_next r))) (r_steps r)"
    using lt ok by (intro Cons_nth_drop_Suc[symmetric]) (simp add: runbook_ok_def)
  then show ?case using IH run(1) by (simp add: c)
qed

text \<open>C23: With a live pane in front, running the next step once for every step that is left queues
  exactly the remaining commands in that pane, in their order, each once; then the runbook is at its
  end and running it again does nothing.\<close>

theorem runbook_runs_to_end:
  assumes "runbooks_ok rs" "List.find (\<lambda>r. r_id r = i) rs = Some r"
    and "length clock = length (r_steps r) - nat (r_next r)"
    and "active_pane s = Some p" "panes_wf (ss_panes s)"
  shows "\<exists>w' p'. run_steps lc clock i (rs, s, h) = (replicate (length clock) True, w') \<and>
    active_pane (fst (snd w')) = Some p' \<and>
    map qc_command (p_queue p') = map qc_command (p_queue p) @ drop (nat (r_next r)) (r_steps r) \<and>
    runNextStep lc now u now' i w' = (False, w')"
  using run_steps_all[OF assms, of lc h] by (auto simp: runNextStep_finished)

definition one_pane :: sessions where
  "one_pane = \<lparr>
     ss_tabs = [\<lparr>t_id = ''t'', t_title = '''', t_hostId = ''h'', t_paneIds = [''p''],
       t_activePaneId = Some ''p'', t_direction = Vertical, t_ratio = None, t_createdAt = '''',
       t_updatedAt = ''''\<rparr>],
     ss_panes = [(''p'', \<lparr>p_id = ''p'', p_hostId = ''h'', p_title = '''', p_state = Connected,
       p_error = None, p_transport = T_ssh, p_backend = None, p_queue = [], p_reconnect = False,
       p_persist = Some True, p_createdAt = '''', p_updatedAt = ''''\<rparr>)],
     ss_activeTabId = Some ''t'', ss_lastRestoredAt = None, ss_history = []\<rparr>"

definition deploy_runbook :: runbook where
  "deploy_runbook = \<lparr>r_id = ''r'', r_name = ''Deploy'', r_description = None,
     r_steps = [''make'', ''make deploy''], r_next = 0, r_createdAt = '''', r_updatedAt = '''',
     r_lastRunAt = None\<rparr>"

lemma runbook_runs_to_end_witness:
  "\<exists>w' p'. run_steps code_unit_compare [(''1'', ''a'', ''2''), (''3'', ''b'', ''4'')] ''r''
       ([deploy_runbook], one_pane, []) = ([True, True], w') \<and>
     active_pane (fst (snd w')) = Some p' \<and>
     map qc_command (p_queue p') = [''make'', ''make deploy'']"
proof -
  have "runbooks_ok [deploy_runbook]" "List.find (\<lambda>r. r_id r = ''r'') [deploy_runbook] = Some deploy_runbook"
    "active_pane one_pane = Some (snd (hd (ss_panes one_pane)))" "panes_wf (ss_panes one_pane)"
    by (simp_all add: deploy_runbook_def one_pane_def active_pane_def runbooks_ok_def runbook_ok_def
        panes_wf_def obj_wf_def)
  from runbook_runs_to_end[OF this(1,2) _ this(3,4),
      of "[(''1'', ''a'', ''2''), (''3'', ''b'', ''4'')]" code_unit_compare "[]" "[]" "[]" "[]"]
  show ?thesis by (auto simp: deploy_runbook_def one_pane_def numeral_2_eq_2 simp del: run_steps.simps)
qed

text \<open>Running the next step succeeds exactly when the runbook exists, its cursor is at a step and
  there is a pane in front. Otherwise nothing is dispatched and nothing changes, not even the
  cursor.\<close>

theorem runNextStep_refuses:
  assumes "runNextStep lc now u now' i (rs, s, h) = (ok, w')"
  shows "(ok \<longleftrightarrow> (\<exists>r. List.find (\<lambda>r. r_id r = i) rs = Some r \<and> step_at r \<noteq> None) \<and> active_pane s \<noteq> None) \<and>
    (\<not> ok \<longrightarrow> w' = (rs, s, h))"
proof (cases "active_pane s")
  case None
  with assms show ?thesis
    by (auto simp: runNextStep_def dispatch_inactive split: option.splits if_splits)
next
  case (Some p)
  then have d: "\<exists>s' h'. dispatchCommandToActivePane lc now u c l (s, h) = (True, s', h')" for c l
    by (auto simp: active_pane_def dispatchCommandToActivePane_def split: option.splits)
  show ?thesis
  proof (cases "\<exists>r c. List.find (\<lambda>r. r_id r = i) rs = Some r \<and> step_at r = Some c")
    case True
    then obtain r c where r: "List.find (\<lambda>r. r_id r = i) rs = Some r" "step_at r = Some c" by blast
    obtain s' h' where "dispatchCommandToActivePane lc now u c (Some (r_name r)) (s, h) = (True, s', h')"
      using d by blast
    with r assms Some show ?thesis by (auto simp: runNextStep_def step_at_def split: if_splits)
  next
    case False
    with assms show ?thesis by (auto simp: runNextStep_def split: option.splits if_splits)
  qed
qed

lemma runNextStep_refuses_witness:
  "\<not> fst (runNextStep code_unit_compare ''1'' ''a'' ''2'' ''r'' ([deploy_runbook], sessions_initial, []))"
  using runNextStep_refuses[of code_unit_compare "''1''" "''a''" "''2''" "''r''" "[deploy_runbook]"
      sessions_initial "[]"]
  by (simp add: sessions_initial_def active_pane_def split_paired_all[symmetric])
    (metis prod.collapse)

subsection \<open>The editor\<close>

definition step_line :: "string \<Rightarrow> bool" where
  "step_line s \<longleftrightarrow> s \<noteq> [] \<and> trimmed s \<and> CHR 0x0A \<notin> set s"

text \<open>Every step that the editor saves is a trimmed line.\<close>

lemma splitStepLines_parts: "list_all step_line (splitStepLines t)"
  using set_trim_subset by (fastforce simp: splitStepLines_def list_all_iff step_line_def dest: split_by_parts)

text \<open>Opening a runbook in the editor and saving it unchanged keeps its steps and its cursor, if
  every step is a trimmed line that is not blank.\<close>

theorem runbook_editor_roundtrip:
  assumes "list_all step_line (r_steps r)" "runbook_ok r"
  shows "r_steps (createRunbookRecord now u (runbookToFormValues r) (Some r)) = r_steps r \<and>
    r_next (createRunbookRecord now u (runbookToFormValues r) (Some r)) = r_next r"
proof -
  have "splitStepLines (join [CHR 0x0A] (r_steps r)) = r_steps r"
  proof (cases "r_steps r = []")
    case True
    then show ?thesis by (simp add: splitStepLines_def)
  next
    case False
    then have "split_on (CHR 0x0A) (join [CHR 0x0A] (r_steps r)) = r_steps r"
      using assms(1) by (intro split_on_join) (auto simp: list_all_iff step_line_def)
    moreover have "map trim (r_steps r) = r_steps r"
      using assms(1) by (intro map_idI trim_trimmed_id) (simp add: list_all_iff step_line_def)
    ultimately show ?thesis using assms(1)
      by (auto simp: splitStepLines_def list_all_iff step_line_def intro!: filter_True)
  qed
  then show ?thesis using assms(2)
    by (auto simp: createRunbookRecord_def runbookToFormValues_def runbook_ok_def Let_def)
qed

lemma runbook_editor_roundtrip_witness:
  "r_steps (createRunbookRecord ''5'' ''u'' (runbookToFormValues deploy_runbook) (Some deploy_runbook)) =
   [''make'', ''make deploy'']"
proof -
  have "list_all step_line (r_steps deploy_runbook)"
    by (simp add: deploy_runbook_def trimmed_def is_space_def step_line_def)
  moreover have "runbook_ok deploy_runbook" by (simp add: deploy_runbook_def runbook_ok_def)
  ultimately show ?thesis
    using runbook_editor_roundtrip[of deploy_runbook "''5''" "''u''"] by (simp add: deploy_runbook_def)
qed

end
