(* ===== verification/Transfers.thy ===== *)
theory Transfers
  imports Strings
begin

section \<open>File transfers (\<open>types/transfer.ts\<close>, \<open>store/transfers-store.ts\<close>)\<close>

text \<open>
  The transfer queue, newest first and bounded, the host whose files are shown and the remote
  directory last visited on each host. A \<open>Partial<TransferItem>\<close> is a record of options, \<open>None\<close>
  for a key that is absent; for the two optional fields the option holds an option.
\<close>

datatype remote_kind = Directory | RemoteFile
datatype transfer_direction = Upload | Download | Remote
datatype transfer_status = Queued_t | Running | Completed | Failed

record remote_entry =
  re_name :: string
  re_path :: string
  re_kind :: remote_kind
  re_size :: int
  re_modifiedAt :: "string option"
  re_permissions :: "string option"

record transfer =
  x_id :: string
  x_hostId :: string
  x_hostLabel :: string
  x_direction :: transfer_direction
  x_name :: string
  x_remotePath :: string
  x_status :: transfer_status
  x_bytes :: "int option"
  x_createdAt :: string
  x_updatedAt :: string
  x_error :: "string option"

record transfer_input =
  xi_hostId :: string
  xi_hostLabel :: string
  xi_direction :: transfer_direction
  xi_name :: string
  xi_remotePath :: string
  xi_bytes :: "int option"

record transfer_update =
  xu_id :: "string option"
  xu_hostId :: "string option"
  xu_hostLabel :: "string option"
  xu_direction :: "transfer_direction option"
  xu_name :: "string option"
  xu_remotePath :: "string option"
  xu_status :: "transfer_status option"
  xu_bytes :: "int option option"
  xu_createdAt :: "string option"
  xu_error :: "string option option"

definition no_update :: transfer_update where
  "no_update = \<lparr>xu_id = None, xu_hostId = None, xu_hostLabel = None, xu_direction = None,
     xu_name = None, xu_remotePath = None, xu_status = None, xu_bytes = None, xu_createdAt = None,
     xu_error = None\<rparr>"

definition createTransferItem :: "string \<Rightarrow> string \<Rightarrow> transfer_input \<Rightarrow> transfer" where
  "createTransferItem now uuid v = \<lparr>
     x_id = uuid, x_hostId = xi_hostId v, x_hostLabel = xi_hostLabel v,
     x_direction = xi_direction v, x_name = xi_name v, x_remotePath = xi_remotePath v,
     x_status = Queued_t, x_bytes = xi_bytes v, x_createdAt = now, x_updatedAt = now,
     x_error = None\<rparr>"

text \<open>The update is applied last to first: \<open>updatedAt\<close> of the update never survives.\<close>

definition touchTransferItem :: "string \<Rightarrow> transfer \<Rightarrow> transfer_update \<Rightarrow> transfer" where
  "touchTransferItem now x u = \<lparr>
     x_id = coalesce (xu_id u) (x_id x), x_hostId = coalesce (xu_hostId u) (x_hostId x),
     x_hostLabel = coalesce (xu_hostLabel u) (x_hostLabel x),
     x_direction = coalesce (xu_direction u) (x_direction x), x_name = coalesce (xu_name u) (x_name x),
     x_remotePath = coalesce (xu_remotePath u) (x_remotePath x),
     x_status = coalesce (xu_status u) (x_status x), x_bytes = coalesce (xu_bytes u) (x_bytes x),
     x_createdAt = coalesce (xu_createdAt u) (x_createdAt x), x_updatedAt = now,
     x_error = coalesce (xu_error u) (x_error x)\<rparr>"

record transfers =
  xs_activeHostId :: "string option"
  xs_paths :: "string obj"
  xs_queue :: "transfer list"

definition transfers_initial :: transfers where
  "transfers_initial = \<lparr>xs_activeHostId = None, xs_paths = [], xs_queue = []\<rparr>"

definition setActiveHost :: "string option \<Rightarrow> transfers \<Rightarrow> transfers" where
  "setActiveHost hostId s = s\<lparr>xs_activeHostId := hostId\<rparr>"

definition rememberRemotePath :: "string \<Rightarrow> string \<Rightarrow> transfers \<Rightarrow> transfers" where
  "rememberRemotePath hostId path s = s\<lparr>xs_paths := obj_set hostId path (xs_paths s)\<rparr>"

definition queueTransfer :: "string \<Rightarrow> string \<Rightarrow> transfer_input \<Rightarrow> transfers \<Rightarrow> string \<times> transfers" where
  "queueTransfer now uuid v s =
     (let x = createTransferItem now uuid v
      in (x_id x, s\<lparr>xs_queue := take 24 (x # xs_queue s)\<rparr>))"

definition update_transfer ::
    "string \<Rightarrow> string \<Rightarrow> transfer_update \<Rightarrow> transfers \<Rightarrow> transfers" where
  "update_transfer now i u s =
     s\<lparr>xs_queue := map_where (\<lambda>x. x_id x = i) (\<lambda>x. touchTransferItem now x u) (xs_queue s)\<rparr>"

definition markTransferRunning :: "string \<Rightarrow> string \<Rightarrow> transfers \<Rightarrow> transfers" where
  "markTransferRunning now i s = update_transfer now i (no_update\<lparr>xu_status := Some Running\<rparr>) s"

text \<open>\<open>{ status: "completed", errorMessage: undefined, ...update }\<close>\<close>

definition completion :: "transfer_update \<Rightarrow> transfer_update" where
  "completion u = u\<lparr>xu_status := Some (coalesce (xu_status u) Completed),
     xu_error := Some (coalesce (xu_error u) None)\<rparr>"

definition completeTransfer :: "string \<Rightarrow> string \<Rightarrow> transfer_update \<Rightarrow> transfers \<Rightarrow> transfers" where
  "completeTransfer now i u s = update_transfer now i (completion u) s"

definition failTransfer :: "string \<Rightarrow> string \<Rightarrow> string \<Rightarrow> transfers \<Rightarrow> transfers" where
  "failTransfer now i message s =
     update_transfer now i (no_update\<lparr>xu_status := Some Failed, xu_error := Some (Some message)\<rparr>) s"

definition clearCompleted :: "transfers \<Rightarrow> transfers" where
  "clearCompleted s = s\<lparr>xs_queue := filter (\<lambda>x. x_status x \<noteq> Completed) (xs_queue s)\<rparr>"

subsection \<open>Bounds and status\<close>

text \<open>
  A failed item carries a message and no other item does; that is what the file browser relies on
  when it shows the queue. \<open>completeTransfer\<close> takes an arbitrary update: the invariant is about
  updates that leave identifier, status and message alone, which is all the file browser passes.
\<close>

definition transfers_ok :: "transfers \<Rightarrow> bool" where
  "transfers_ok s \<longleftrightarrow> length (xs_queue s) \<le> 24 \<and> distinct (map x_id (xs_queue s)) \<and>
     obj_wf (xs_paths s) \<and> list_all (\<lambda>x. x_status x = Failed \<longrightarrow> x_error x \<noteq> None) (xs_queue s)"

definition plain_update :: "transfer_update \<Rightarrow> bool" where
  "plain_update u \<longleftrightarrow> xu_id u = None \<and> xu_status u = None \<and> xu_error u = None"

inductive transfers_step :: "transfers \<Rightarrow> transfers \<Rightarrow> bool" where
  activate: "transfers_step s (setActiveHost h s)"
| remember: "transfers_step s (rememberRemotePath h p s)"
| enqueue: "u \<notin> x_id ` set (xs_queue s) \<Longrightarrow> transfers_step s (snd (queueTransfer now u v s))"
| start: "transfers_step s (markTransferRunning now i s)"
| complete: "plain_update u \<Longrightarrow> transfers_step s (completeTransfer now i u s)"
| fail: "transfers_step s (failTransfer now i m s)"
| clear: "transfers_step s (clearCompleted s)"

lemma update_transfer_ok:
  assumes "transfers_ok s" "xu_id u = None"
    and "\<And>x. x_status (touchTransferItem now x u) = Failed \<Longrightarrow> x_error (touchTransferItem now x u) \<noteq> None"
  shows "transfers_ok (update_transfer now i u s)"
proof -
  have "x_id (touchTransferItem now x u) = x_id x" for x using assms(2) by (simp add: touchTransferItem_def)
  then show ?thesis using assms(1,3)
    by (auto simp: transfers_ok_def update_transfer_def map_map_where_id set_map_where list_all_iff)
qed

lemma queueTransfer_ok:
  assumes "transfers_ok s" "u \<notin> x_id ` set (xs_queue s)"
  shows "transfers_ok (snd (queueTransfer now u v s))"
proof -
  let ?q = "createTransferItem now u v # xs_queue s"
  have "distinct (map x_id ?q)" using assms by (simp add: transfers_ok_def createTransferItem_def)
  then have "distinct (map x_id (take 24 ?q))" by (metis distinct_take take_map)
  moreover have "list_all (\<lambda>x. x_status x = Failed \<longrightarrow> x_error x \<noteq> None) (take 24 ?q)"
    using assms by (auto simp: transfers_ok_def list_all_iff createTransferItem_def dest: in_set_takeD)
  ultimately show ?thesis using assms(1)
    by (simp add: transfers_ok_def queueTransfer_def Let_def del: take_Suc_Cons)
qed

lemma transfers_step_ok: "transfers_step s s' \<Longrightarrow> transfers_ok s \<Longrightarrow> transfers_ok s'"
proof (induction rule: transfers_step.induct)
  case (enqueue u s now v)
  then show ?case by (intro queueTransfer_ok)
next
  case (complete u s now i)
  have "xu_id (completion u) = None" using complete by (simp add: plain_update_def completion_def)
  moreover have "x_status (touchTransferItem now x (completion u)) \<noteq> Failed" for x
    using complete by (simp add: plain_update_def completion_def touchTransferItem_def)
  ultimately show ?case unfolding completeTransfer_def by (intro update_transfer_ok complete) blast+
next
  case (clear s)
  then show ?case by (auto simp: transfers_ok_def clearCompleted_def list_all_iff distinct_map_filter
        intro: le_trans[OF length_filter_le])
next
  case (start s now i)
  then show ?case unfolding markTransferRunning_def
    by (intro update_transfer_ok) (simp_all add: no_update_def touchTransferItem_def)
next
  case (fail s now i m)
  then show ?case unfolding failTransfer_def
    by (intro update_transfer_ok) (simp_all add: no_update_def touchTransferItem_def)
qed (simp_all add: setActiveHost_def rememberRemotePath_def transfers_ok_def)

text \<open>Whatever sequence of actions the transfer panel performs, the queue never holds more than 24
  items, no two items share an identifier, and every failed item says why it failed.\<close>

theorem transfer_queue_bounded:
  assumes "transfers_step\<^sup>*\<^sup>* transfers_initial s"
  shows "length (xs_queue s) \<le> 24 \<and> distinct (map x_id (xs_queue s)) \<and>
    (\<forall>x \<in> set (xs_queue s). x_status x = Failed \<longrightarrow> x_error x \<noteq> None)"
proof -
  from assms have "transfers_ok s"
  proof (induction rule: rtranclp_induct)
    case base
    show ?case by (simp add: transfers_ok_def transfers_initial_def)
  qed (rule transfers_step_ok)
  then show ?thesis by (simp add: transfers_ok_def list_all_iff)
qed

lemma transfer_queue_bounded_witness:
  "length (xs_queue (snd (queueTransfer ''t'' ''u'' \<lparr>xi_hostId = ''h'', xi_hostLabel = '''',
     xi_direction = Upload, xi_name = ''f'', xi_remotePath = ''/f'', xi_bytes = Some 3\<rparr>
     transfers_initial))) \<le> 24"
  by (rule conjunct1[OF transfer_queue_bounded])
    (rule r_into_rtranclp, rule transfers_step.enqueue, simp add: transfers_initial_def)

end
