(* ===== verification/Secrets.thy ===== *)
theory Secrets
  imports Identities
begin

section \<open>Connection secrets and the keychain (\<open>store/connection-secrets-store.ts\<close>)\<close>

text \<open>
  The passphrases and passwords of the hosts live in the operating system's keychain, reached by
  the commands of the desktop backend (\<open>src-tauri/src/main.rs\<close>), and in memory while the
  application runs. The keychain itself is not part of the repository: it is the argument \<open>os\<close>, a
  record of its three operations on a state of any type, and the locale \<open>lawful_keychain\<close> is what
  is documented of it. An asynchronous function runs without interruption here, except hydration,
  whose start and end are separate operations because the user can act in between.
\<close>

datatype keychain_read = Found string | Missing | Unavailable string

record 'k os_keychain =
  os_read :: "'k \<Rightarrow> string \<Rightarrow> string \<Rightarrow> keychain_read"
  os_add :: "'k \<Rightarrow> string \<Rightarrow> string \<Rightarrow> string \<Rightarrow> unit result \<times> 'k"
  os_delete :: "'k \<Rightarrow> string \<Rightarrow> string \<Rightarrow> unit result \<times> 'k"

text \<open>A call that may throw and may change the keychain even when it throws.\<close>

type_synonym ('k, 'a) native = "'k \<Rightarrow> 'a result \<times> 'k"

definition returns :: "'a \<Rightarrow> ('k, 'a) native" where
  "returns x k = (Inr x, k)"

definition throws :: "string \<Rightarrow> ('k, 'a) native" where
  "throws e k = (Inl e, k)"

definition awaits :: "('k, 'a) native \<Rightarrow> ('a \<Rightarrow> ('k, 'b) native) \<Rightarrow> ('k, 'b) native" where
  "awaits m f k = (case m k of (Inl e, k') \<Rightarrow> (Inl e, k') | (Inr x, k') \<Rightarrow> f x k')"

text \<open>\<open>try { await m } catch (error) { log }\<close>, and the same for a promise nobody waits for.\<close>

definition swallow :: "('k, unit) native \<Rightarrow> 'k \<Rightarrow> 'k" where
  "swallow m k = snd (m k)"

subsection \<open>The commands of the backend\<close>

definition KEYCHAIN_PASSWORD_SERVICE :: string where
  "KEYCHAIN_PASSWORD_SERVICE = ''com.termsnip.runtime.password''"
definition KEYCHAIN_PASSPHRASE_SERVICE :: string where
  "KEYCHAIN_PASSPHRASE_SERVICE = ''com.termsnip.runtime.passphrase''"
definition KEYCHAIN_KEY_PASSPHRASE_SERVICE :: string where
  "KEYCHAIN_KEY_PASSPHRASE_SERVICE = ''com.termsnip.runtime.key-passphrase''"
definition KEYCHAIN_IDENTITY_PASSPHRASE_SERVICE :: string where
  "KEYCHAIN_IDENTITY_PASSPHRASE_SERVICE = ''com.termsnip.runtime.identity-passphrase''"

lemmas services = KEYCHAIN_PASSWORD_SERVICE_def KEYCHAIN_PASSPHRASE_SERVICE_def
  KEYCHAIN_KEY_PASSPHRASE_SERVICE_def KEYCHAIN_IDENTITY_PASSPHRASE_SERVICE_def

definition load_keychain_secret :: "'k os_keychain \<Rightarrow> string \<Rightarrow> string \<Rightarrow> ('k, string option) native" where
  "load_keychain_secret os service account k =
     (case os_read os k service account of
        Found v \<Rightarrow> (Inr (Some v), k) | Missing \<Rightarrow> (Inr None, k) | Unavailable e \<Rightarrow> (Inl e, k))"

definition delete_keychain_secret :: "'k os_keychain \<Rightarrow> string \<Rightarrow> string \<Rightarrow> ('k, unit) native" where
  "delete_keychain_secret os service account k = os_delete os k service account"

definition line_break :: "char \<Rightarrow> bool" where
  "line_break c \<longleftrightarrow> c = CHR 0x0D \<or> c = CHR 0x0A"

definition store_keychain_secret ::
    "'k os_keychain \<Rightarrow> string \<Rightarrow> string \<Rightarrow> string \<Rightarrow> ('k, unit) native" where
  "store_keychain_secret os service account v k =
     (if v = [] then delete_keychain_secret os service account k
      else if list_ex line_break v then (Inl ''Keychain secrets cannot contain line breaks'', k)
      else os_add os k service account v)"

definition validate_identity_id :: "string \<Rightarrow> unit result" where
  "validate_identity_id i =
     (if trim i = [] then Inl ''Identity id is required''
      else if 256 < length (trim i) then Inl ''Identity id is unreasonably long'' else Inr ())"

definition validate_key_fingerprint :: "string \<Rightarrow> unit result" where
  "validate_key_fingerprint f =
     (if trim f = [] then Inl ''Key fingerprint is required''
      else case index_of '':'' (trim f) of
        None \<Rightarrow> Inl ''Key fingerprint must use ALGO:VALUE format''
      | Some n \<Rightarrow> if n = 0 \<or> trim (drop (Suc n) (trim f)) = []
          then Inl ''Key fingerprint algorithm and value must both be non-empty'' else Inr ())"

definition checked :: "unit result \<Rightarrow> ('k, 'a) native \<Rightarrow> ('k, 'a) native" where
  "checked c m k = (case c of Inl e \<Rightarrow> (Inl e, k) | Inr _ \<Rightarrow> m k)"

subsection \<open>The client's side of the commands (\<open>lib/native-secrets.ts\<close>)\<close>

record secret_values =
  sv_password :: string
  sv_passphrase :: string

definition emptySecrets :: secret_values where
  "emptySecrets = \<lparr>sv_password = [], sv_passphrase = []\<rparr>"

fun found :: "keychain_read \<Rightarrow> string" where
  "found (Found v) = v" | "found Missing = []" | "found (Unavailable _) = []"

fun unavailable :: "keychain_read \<Rightarrow> bool" where
  "unavailable (Unavailable _) = True" | "unavailable _ = False"

definition KEYCHAIN_LOCKED :: string where
  "KEYCHAIN_LOCKED = ''The keychain is locked or access was denied, so saved credentials could not be read. Unlock the keychain (or allow access) and try again.''"

definition loadNativeHostSecrets ::
    "'k os_keychain \<Rightarrow> bool \<Rightarrow> string \<Rightarrow> ('k, secret_values) native" where
  "loadNativeHostSecrets os tauri hostId k =
     (if \<not> tauri then (Inr emptySecrets, k)
      else let pw = os_read os k KEYCHAIN_PASSWORD_SERVICE hostId;
               pp = os_read os k KEYCHAIN_PASSPHRASE_SERVICE hostId
           in if unavailable pw \<or> unavailable pp then (Inl KEYCHAIN_LOCKED, k)
              else (Inr \<lparr>sv_password = found pw, sv_passphrase = found pp\<rparr>, k))"

definition storeNativeHostSecrets ::
    "'k os_keychain \<Rightarrow> bool \<Rightarrow> string \<Rightarrow> secret_values \<Rightarrow> ('k, unit) native" where
  "storeNativeHostSecrets os tauri hostId v =
     (if \<not> tauri then returns ()
      else awaits (store_keychain_secret os KEYCHAIN_PASSWORD_SERVICE hostId (sv_password v))
        (\<lambda>_. store_keychain_secret os KEYCHAIN_PASSPHRASE_SERVICE hostId (sv_passphrase v)))"

definition clearNativeHostSecrets :: "'k os_keychain \<Rightarrow> bool \<Rightarrow> string \<Rightarrow> ('k, unit) native" where
  "clearNativeHostSecrets os tauri hostId =
     (if \<not> tauri then returns ()
      else awaits (delete_keychain_secret os KEYCHAIN_PASSWORD_SERVICE hostId)
        (\<lambda>_. delete_keychain_secret os KEYCHAIN_PASSPHRASE_SERVICE hostId))"

definition loadNativeKeyPassphrase :: "'k os_keychain \<Rightarrow> bool \<Rightarrow> string \<Rightarrow> ('k, string) native" where
  "loadNativeKeyPassphrase os tauri fingerprint =
     (if \<not> tauri then returns []
      else checked (validate_key_fingerprint fingerprint)
        (awaits (load_keychain_secret os KEYCHAIN_KEY_PASSPHRASE_SERVICE fingerprint)
          (\<lambda>v. returns (coalesce v []))))"

definition storeNativeKeyPassphrase ::
    "'k os_keychain \<Rightarrow> bool \<Rightarrow> string \<Rightarrow> string \<Rightarrow> ('k, unit) native" where
  "storeNativeKeyPassphrase os tauri fingerprint passphrase =
     (if \<not> tauri then returns ()
      else checked (validate_key_fingerprint fingerprint)
        (store_keychain_secret os KEYCHAIN_KEY_PASSPHRASE_SERVICE fingerprint passphrase))"

definition clearNativeKeyPassphrase :: "'k os_keychain \<Rightarrow> bool \<Rightarrow> string \<Rightarrow> ('k, unit) native" where
  "clearNativeKeyPassphrase os tauri fingerprint =
     (if \<not> tauri then returns ()
      else checked (validate_key_fingerprint fingerprint)
        (delete_keychain_secret os KEYCHAIN_KEY_PASSPHRASE_SERVICE fingerprint))"

definition loadNativeIdentityPassphrase :: "'k os_keychain \<Rightarrow> bool \<Rightarrow> string \<Rightarrow> ('k, string) native" where
  "loadNativeIdentityPassphrase os tauri identityId =
     (if \<not> tauri then returns []
      else checked (validate_identity_id identityId)
        (awaits (load_keychain_secret os KEYCHAIN_IDENTITY_PASSPHRASE_SERVICE identityId)
          (\<lambda>v. returns (coalesce v []))))"

definition storeNativeIdentityPassphrase ::
    "'k os_keychain \<Rightarrow> bool \<Rightarrow> string \<Rightarrow> string \<Rightarrow> ('k, unit) native" where
  "storeNativeIdentityPassphrase os tauri identityId passphrase =
     (if \<not> tauri then returns ()
      else checked (validate_identity_id identityId)
        (store_keychain_secret os KEYCHAIN_IDENTITY_PASSPHRASE_SERVICE identityId passphrase))"

definition clearNativeIdentityPassphrase :: "'k os_keychain \<Rightarrow> bool \<Rightarrow> string \<Rightarrow> ('k, unit) native" where
  "clearNativeIdentityPassphrase os tauri identityId =
     (if \<not> tauri then returns ()
      else checked (validate_identity_id identityId)
        (delete_keychain_secret os KEYCHAIN_IDENTITY_PASSPHRASE_SERVICE identityId))"

subsection \<open>Loading, migrating and persisting\<close>

record secret_record =
  sr_password :: string
  sr_passphrase :: string
  sr_updatedAt :: string

definition hasConnectionSecrets :: "secret_values \<Rightarrow> bool" where
  "hasConnectionSecrets v \<longleftrightarrow> sv_password v \<noteq> [] \<or> sv_passphrase v \<noteq> []"

definition buildSecretRecord :: "string \<Rightarrow> secret_values \<Rightarrow> secret_record" where
  "buildSecretRecord now v =
     \<lparr>sr_password = sv_password v, sr_passphrase = sv_passphrase v, sr_updatedAt = now\<rparr>"

text \<open>Stage 3, the passphrase still stored with the host: move it forward, as far as that works.\<close>

definition migrate_host_passphrase ::
    "'k os_keychain \<Rightarrow> bool \<Rightarrow> string \<Rightarrow> string option \<Rightarrow> string option \<Rightarrow> secret_values \<Rightarrow> 'k \<Rightarrow> 'k" where
  "migrate_host_passphrase os tauri hostId identityId fingerprint perHost k =
     (if sv_passphrase perHost = [] then k
      else if truthy identityId then
        swallow (awaits (storeNativeIdentityPassphrase os tauri (the identityId) (sv_passphrase perHost))
          (\<lambda>_. storeNativeHostSecrets os tauri hostId
                 \<lparr>sv_password = sv_password perHost, sv_passphrase = []\<rparr>)) k
      else if truthy fingerprint then
        swallow (awaits (storeNativeKeyPassphrase os tauri (the fingerprint) (sv_passphrase perHost))
          (\<lambda>_. storeNativeHostSecrets os tauri hostId
                 \<lparr>sv_password = sv_password perHost, sv_passphrase = []\<rparr>)) k
      else k)"

definition load_from_host ::
    "'k os_keychain \<Rightarrow> bool \<Rightarrow> string \<Rightarrow> string option \<Rightarrow> string option \<Rightarrow> secret_values \<Rightarrow>
     ('k, secret_values) native" where
  "load_from_host os tauri hostId identityId fingerprint perHost k =
     (Inr perHost, migrate_host_passphrase os tauri hostId identityId fingerprint perHost k)"

text \<open>Stage 2, the passphrase of the key.\<close>

definition load_from_key ::
    "'k os_keychain \<Rightarrow> bool \<Rightarrow> string \<Rightarrow> string option \<Rightarrow> string option \<Rightarrow> secret_values \<Rightarrow>
     ('k, secret_values) native" where
  "load_from_key os tauri hostId identityId fingerprint perHost =
     (if truthy fingerprint then
        awaits (loadNativeKeyPassphrase os tauri (the fingerprint)) (\<lambda>keyed k.
          if keyed \<noteq> [] then
            (Inr \<lparr>sv_password = sv_password perHost, sv_passphrase = keyed\<rparr>,
             if truthy identityId
             then swallow (storeNativeIdentityPassphrase os tauri (the identityId) keyed) k else k)
          else load_from_host os tauri hostId identityId fingerprint perHost k)
      else load_from_host os tauri hostId identityId fingerprint perHost)"

definition loadSecretsWithMultiStageMigration ::
    "'k os_keychain \<Rightarrow> bool \<Rightarrow> string \<Rightarrow> string option \<Rightarrow> string option \<Rightarrow> ('k, secret_values) native" where
  "loadSecretsWithMultiStageMigration os tauri hostId identityId fingerprint =
     awaits (loadNativeHostSecrets os tauri hostId) (\<lambda>perHost.
       if truthy identityId then
         awaits (loadNativeIdentityPassphrase os tauri (the identityId)) (\<lambda>p.
           if p \<noteq> [] then returns \<lparr>sv_password = sv_password perHost, sv_passphrase = p\<rparr>
           else load_from_key os tauri hostId identityId fingerprint perHost)
       else load_from_key os tauri hostId identityId fingerprint perHost)"

definition persistSecretsWithIdentityRouting ::
    "'k os_keychain \<Rightarrow> bool \<Rightarrow> string \<Rightarrow> string option \<Rightarrow> string option \<Rightarrow> secret_values \<Rightarrow>
     ('k, unit) native" where
  "persistSecretsWithIdentityRouting os tauri hostId identityId fingerprint v =
     awaits (storeNativeHostSecrets os tauri hostId \<lparr>sv_password = sv_password v,
         sv_passphrase = (if truthy identityId \<or> truthy fingerprint then [] else sv_passphrase v)\<rparr>)
       (\<lambda>_. if truthy identityId then
              (if sv_passphrase v \<noteq> []
               then storeNativeIdentityPassphrase os tauri (the identityId) (sv_passphrase v)
               else returns ())
            else if truthy fingerprint \<and> sv_passphrase v \<noteq> [] then
              storeNativeKeyPassphrase os tauri (the fingerprint) (sv_passphrase v)
            else returns ())"

subsection \<open>The store\<close>

text \<open>The records in memory and the hosts whose hydration is under way.\<close>

record secrets_memory =
  sm_secrets :: "secret_record obj"
  sm_pending :: "string list"

definition secrets_initial :: secrets_memory where
  "secrets_initial = \<lparr>sm_secrets = [], sm_pending = []\<rparr>"

datatype hydration = Ready "secret_record option" | InFlight | Started

definition hydrate_start :: "bool \<Rightarrow> string \<Rightarrow> secrets_memory \<Rightarrow> hydration \<times> secrets_memory" where
  "hydrate_start tauri hostId m =
     (case obj_get (sm_secrets m) hostId of
        Some r \<Rightarrow> (Ready (Some r), m)
      | None \<Rightarrow> if \<not> tauri then (Ready None, m)
          else if hostId \<in> set (sm_pending m) then (InFlight, m)
          else (Started, m\<lparr>sm_pending := hostId # sm_pending m\<rparr>))"

definition hydrate_finish ::
    "string \<Rightarrow> string \<Rightarrow> secret_values result \<Rightarrow> secrets_memory \<Rightarrow> secret_record option \<times> secrets_memory" where
  "hydrate_finish now hostId loaded m =
     (let m' = m\<lparr>sm_pending := filter (\<lambda>h. h \<noteq> hostId) (sm_pending m)\<rparr> in
      case loaded of
        Inl _ \<Rightarrow> (None, m')
      | Inr v \<Rightarrow>
          if \<not> hasConnectionSecrets v then (None, m')
          else (case obj_get (sm_secrets m) hostId of
             Some r \<Rightarrow> (Some r, m')
           | None \<Rightarrow> let r = buildSecretRecord now v in
               (Some r, m'\<lparr>sm_secrets := obj_set hostId r (sm_secrets m)\<rparr>)))"

text \<open>
  A hydration nobody interferes with. A call that finds a load of the host under way gets the promise of
  that load and waits for it: the load reads the same entries of the keychain, comes back, and both calls
  have its record. How the two halves of several hydrations interleave is the subject of the step relation
  below.
\<close>

definition hydrateHostSecrets ::
    "'k os_keychain \<Rightarrow> bool \<Rightarrow> string \<Rightarrow> string option \<Rightarrow> string option \<Rightarrow> string \<Rightarrow>
     secrets_memory \<times> 'k \<Rightarrow> secret_record option \<times> secrets_memory \<times> 'k" where
  "hydrateHostSecrets os tauri now identityId fingerprint hostId w = (case w of (m, k) \<Rightarrow>
     (case hydrate_start tauri hostId m of
        (Ready r, m') \<Rightarrow> (r, m', k)
      | (_, m') \<Rightarrow>
          (case loadSecretsWithMultiStageMigration os tauri hostId identityId fingerprint k of
             (loaded, k') \<Rightarrow>
               (case hydrate_finish now hostId loaded m' of (r, m'') \<Rightarrow> (r, m'', k')))))"

definition set_memory :: "string \<Rightarrow> string \<Rightarrow> secret_values \<Rightarrow> secrets_memory \<Rightarrow> secrets_memory" where
  "set_memory now hostId v m = m\<lparr>sm_secrets :=
     (if hasConnectionSecrets v then obj_set hostId (buildSecretRecord now v) (sm_secrets m)
      else obj_del hostId (sm_secrets m))\<rparr>"

definition setHostSecrets ::
    "'k os_keychain \<Rightarrow> bool \<Rightarrow> string \<Rightarrow> string option \<Rightarrow> string option \<Rightarrow> string \<Rightarrow> secret_values \<Rightarrow>
     secrets_memory \<times> 'k \<Rightarrow> secrets_memory \<times> 'k" where
  "setHostSecrets os tauri now identityId fingerprint hostId v w = (case w of (m, k) \<Rightarrow>
     (set_memory now hostId v m,
      if \<not> tauri then k
      else swallow (if hasConnectionSecrets v
             then persistSecretsWithIdentityRouting os tauri hostId identityId fingerprint v
             else clearNativeHostSecrets os tauri hostId) k))"

definition clear_memory :: "string \<Rightarrow> secrets_memory \<Rightarrow> secrets_memory" where
  "clear_memory hostId m = m\<lparr>sm_secrets := obj_del hostId (sm_secrets m)\<rparr>"

definition clearHostSecrets ::
    "'k os_keychain \<Rightarrow> bool \<Rightarrow> string \<Rightarrow> secrets_memory \<times> 'k \<Rightarrow> secrets_memory \<times> 'k" where
  "clearHostSecrets os tauri hostId w = (case w of (m, k) \<Rightarrow>
     (clear_memory hostId m,
      if \<not> tauri then k else swallow (clearNativeHostSecrets os tauri hostId) k))"

definition clearKeyPassphraseByFingerprint ::
    "'k os_keychain \<Rightarrow> bool \<Rightarrow> string option \<Rightarrow> 'k \<Rightarrow> 'k" where
  "clearKeyPassphraseByFingerprint os tauri fingerprint k =
     (if \<not> truthy fingerprint \<or> \<not> contains '':'' (the fingerprint) \<or> \<not> tauri then k
      else swallow (clearNativeKeyPassphrase os tauri (the fingerprint)) k)"

definition clearIdentityPassphraseById ::
    "'k os_keychain \<Rightarrow> bool \<Rightarrow> string option \<Rightarrow> 'k \<Rightarrow> 'k" where
  "clearIdentityPassphraseById os tauri identityId k =
     (if trim (coalesce identityId []) = [] \<or> \<not> tauri then k
      else swallow (clearNativeIdentityPassphrase os tauri (the identityId)) k)"

definition getHostConnectionSecrets :: "secrets_memory \<Rightarrow> string \<Rightarrow> secret_values" where
  "getHostConnectionSecrets m hostId =
     (case obj_get (sm_secrets m) hostId of
        None \<Rightarrow> emptySecrets
      | Some r \<Rightarrow> \<lparr>sv_password = sr_password r, sv_passphrase = sr_passphrase r\<rparr>)"

subsection \<open>What the keychain of the operating system promises\<close>

text \<open>A call that fails leaves what can be read unchanged.\<close>

locale lawful_keychain =
  fixes os :: "'k os_keychain"
  assumes add_ok: "os_add os k s a v = (Inr (), k') \<Longrightarrow> v \<noteq> [] \<Longrightarrow>
      os_read os k' s' a' = (if s' = s \<and> a' = a then Found v else os_read os k s' a')"
    and delete_ok: "os_delete os k s a = (Inr (), k') \<Longrightarrow>
      os_read os k' s' a' = (if s' = s \<and> a' = a then Missing else os_read os k s' a')"
    and add_failed: "os_add os k s a v = (Inl e, k') \<Longrightarrow> os_read os k' s' a' = os_read os k s' a'"
    and delete_failed: "os_delete os k s a = (Inl e, k') \<Longrightarrow> os_read os k' s' a' = os_read os k s' a'"
begin

definition written :: "string \<Rightarrow> keychain_read" where
  "written v = (if v = [] then Missing else Found v)"

lemma store_ok:
  "store_keychain_secret os s a v k = (Inr u, k') \<Longrightarrow>
   os_read os k' s' a' = (if s' = s \<and> a' = a then written v else os_read os k s' a')"
  by (auto simp: store_keychain_secret_def delete_keychain_secret_def written_def add_ok delete_ok
      split: if_splits)

lemma store_failed:
  "store_keychain_secret os s a v k = (Inl e, k') \<Longrightarrow> os_read os k' s' a' = os_read os k s' a'"
  by (auto simp: store_keychain_secret_def delete_keychain_secret_def add_failed delete_failed
      split: if_splits)

text \<open>Storing either writes or leaves everything as it is.\<close>

lemma store_cases:
  assumes "store_keychain_secret os s a v k = (r, k')"
  obtains (stored) "r = Inr ()" "\<And>s' a'. os_read os k' s' a' =
      (if s' = s \<and> a' = a then written v else os_read os k s' a')"
    | (failed) e where "r = Inl e" "\<And>s' a'. os_read os k' s' a' = os_read os k s' a'"
proof (cases r)
  case (Inl e)
  with assms show ?thesis using store_failed failed by auto
next
  case (Inr u)
  with assms show ?thesis using store_ok stored by auto
qed

lemma storeHost_cases:
  assumes "storeNativeHostSecrets os True h v k = (r, k')"
  obtains (stored) "r = Inr ()" "\<And>s a. os_read os k' s a =
      (if a = h \<and> s = KEYCHAIN_PASSWORD_SERVICE then written (sv_password v)
       else if a = h \<and> s = KEYCHAIN_PASSPHRASE_SERVICE then written (sv_passphrase v)
       else os_read os k s a)"
    | (half) e where "r = Inl e" "\<And>s a. os_read os k' s a =
      (if a = h \<and> s = KEYCHAIN_PASSWORD_SERVICE then written (sv_password v) else os_read os k s a)"
    | (failed) e where "r = Inl e" "\<And>s a. os_read os k' s a = os_read os k s a"
proof -
  obtain r1 k1 where 1: "store_keychain_secret os KEYCHAIN_PASSWORD_SERVICE h (sv_password v) k = (r1, k1)"
    by (cases "store_keychain_secret os KEYCHAIN_PASSWORD_SERVICE h (sv_password v) k")
  obtain r2 k2 where 2: "store_keychain_secret os KEYCHAIN_PASSPHRASE_SERVICE h (sv_passphrase v) k1 = (r2, k2)"
    by (cases "store_keychain_secret os KEYCHAIN_PASSPHRASE_SERVICE h (sv_passphrase v) k1")
  from 1 show ?thesis
  proof (cases rule: store_cases)
    case stored
    note first = stored
    then have "(r, k') = (r2, k2)" using assms 1 2 by (simp add: storeNativeHostSecrets_def awaits_def)
    with 2 show ?thesis
    proof (cases rule: store_cases)
      case stored
      with first \<open>(r, k') = (r2, k2)\<close> show ?thesis by (intro that(1)) (auto simp: services)
    next
      case (failed e)
      with first \<open>(r, k') = (r2, k2)\<close> show ?thesis by (intro that(2)) auto
    qed
  next
    case (failed e)
    then have "(r, k') = (Inl e, k1)" using assms 1 by (simp add: storeNativeHostSecrets_def awaits_def)
    with failed show ?thesis by (intro that(3)) auto
  qed
qed

lemma storeIdentity_cases:
  assumes "storeNativeIdentityPassphrase os True i p k = (r, k')" "p \<noteq> []"
  obtains (stored) "r = Inr ()" "validate_identity_id i = Inr ()" "\<And>s a. os_read os k' s a =
      (if s = KEYCHAIN_IDENTITY_PASSPHRASE_SERVICE \<and> a = i then Found p else os_read os k s a)"
    | (failed) e where "r = Inl e" "\<And>s a. os_read os k' s a = os_read os k s a"
proof (cases "validate_identity_id i")
  case (Inl e)
  with assms(1) have "r = Inl e" "k' = k" by (simp_all add: storeNativeIdentityPassphrase_def checked_def)
  then show ?thesis by (intro that(2)) simp_all
next
  case (Inr u)
  then have "store_keychain_secret os KEYCHAIN_IDENTITY_PASSPHRASE_SERVICE i p k = (r, k')"
    using assms by (simp add: storeNativeIdentityPassphrase_def checked_def)
  then show ?thesis
  proof (cases rule: store_cases)
    case stored
    with Inr assms(2) show ?thesis by (intro that(1)) (auto simp: written_def)
  next
    case (failed e)
    then show ?thesis by (rule that(2))
  qed
qed

lemma storeKey_cases:
  assumes "storeNativeKeyPassphrase os True f p k = (r, k')" "p \<noteq> []"
  obtains (stored) "r = Inr ()" "validate_key_fingerprint f = Inr ()" "\<And>s a. os_read os k' s a =
      (if s = KEYCHAIN_KEY_PASSPHRASE_SERVICE \<and> a = f then Found p else os_read os k s a)"
    | (failed) e where "r = Inl e" "\<And>s a. os_read os k' s a = os_read os k s a"
proof (cases "validate_key_fingerprint f")
  case (Inl e)
  with assms(1) have "r = Inl e" "k' = k" by (simp_all add: storeNativeKeyPassphrase_def checked_def)
  then show ?thesis by (intro that(2)) simp_all
next
  case (Inr u)
  then have "store_keychain_secret os KEYCHAIN_KEY_PASSPHRASE_SERVICE f p k = (r, k')"
    using assms by (simp add: storeNativeKeyPassphrase_def checked_def)
  then show ?thesis
  proof (cases rule: store_cases)
    case stored
    with Inr assms(2) show ?thesis by (intro that(1)) (auto simp: written_def)
  next
    case (failed e)
    then show ?thesis by (rule that(2))
  qed
qed

end

subsection \<open>The contract: the first place that has a passphrase\<close>

definition entry :: "(string \<Rightarrow> string \<Rightarrow> keychain_read) \<Rightarrow> unit result \<Rightarrow> string \<Rightarrow> string \<Rightarrow> string result" where
  "entry R valid service account =
     (case valid of Inl e \<Rightarrow> Inl e
      | Inr _ \<Rightarrow> (case R service account of Unavailable e \<Rightarrow> Inl e | r \<Rightarrow> Inr (found r)))"

fun first_usable :: "string result list \<Rightarrow> string result" where
  "first_usable [] = Inr []"
| "first_usable (Inl e # _) = Inl e"
| "first_usable (Inr p # rest) = (if p \<noteq> [] then Inr p else first_usable rest)"

text \<open>The identity before the key before the host; a place that cannot be read is an error.\<close>

definition effective ::
    "(string \<Rightarrow> string \<Rightarrow> keychain_read) \<Rightarrow> string \<Rightarrow> string option \<Rightarrow> string option \<Rightarrow> secret_values result" where
  "effective R h i f =
     (if unavailable (R KEYCHAIN_PASSWORD_SERVICE h) \<or> unavailable (R KEYCHAIN_PASSPHRASE_SERVICE h)
      then Inl KEYCHAIN_LOCKED
      else map_sum id (\<lambda>p. \<lparr>sv_password = found (R KEYCHAIN_PASSWORD_SERVICE h), sv_passphrase = p\<rparr>)
        (first_usable
          ((if truthy i then
              [entry R (validate_identity_id (the i)) KEYCHAIN_IDENTITY_PASSPHRASE_SERVICE (the i)] else []) @
           (if truthy f then
              [entry R (validate_key_fingerprint (the f)) KEYCHAIN_KEY_PASSPHRASE_SERVICE (the f)] else []) @
           [Inr (found (R KEYCHAIN_PASSPHRASE_SERVICE h))])))"

lemma loadNative_entry:
  "loadNativeIdentityPassphrase os True i k =
     (entry (os_read os k) (validate_identity_id i) KEYCHAIN_IDENTITY_PASSPHRASE_SERVICE i, k)"
  "loadNativeKeyPassphrase os True f k =
     (entry (os_read os k) (validate_key_fingerprint f) KEYCHAIN_KEY_PASSPHRASE_SERVICE f, k)"
  by (simp_all add: loadNativeIdentityPassphrase_def loadNativeKeyPassphrase_def checked_def awaits_def
      returns_def load_keychain_secret_def entry_def split: sum.split keychain_read.split)

lemma loadNativeHostSecrets_ok:
  "loadNativeHostSecrets os True h k =
     (if unavailable (os_read os k KEYCHAIN_PASSWORD_SERVICE h) \<or>
         unavailable (os_read os k KEYCHAIN_PASSPHRASE_SERVICE h) then (Inl KEYCHAIN_LOCKED, k)
      else (Inr \<lparr>sv_password = found (os_read os k KEYCHAIN_PASSWORD_SERVICE h),
                sv_passphrase = found (os_read os k KEYCHAIN_PASSPHRASE_SERVICE h)\<rparr>, k))"
  by (simp add: loadNativeHostSecrets_def Let_def)

lemmas load_defs = loadSecretsWithMultiStageMigration_def load_from_key_def load_from_host_def
  awaits_def returns_def loadNativeHostSecrets_ok loadNative_entry

lemma load_contract:
  "fst (loadSecretsWithMultiStageMigration os True h i f k) = effective (os_read os k) h i f"
  by (auto simp: load_defs effective_def split: sum.split)

text \<open>C20: What the staged loading of the secrets returns, or that it fails, is what its contract says
  of the keychain it started with: the password of the host and the passphrase of the first place
  that has one, the identity before the key before the host. The migrations it performs on the way
  do not change the answer.\<close>

theorem secrets_load_refines_contract:
  "fst (loadSecretsWithMultiStageMigration os True h i f k) = effective (os_read os k) h i f"
  by (rule load_contract)

context lawful_keychain
begin

lemma entry_cong: "R s a = R' s a \<Longrightarrow> entry R v s a = entry R' v s a"
  by (simp only: entry_def)

lemma effective_cong:
  assumes "R KEYCHAIN_PASSWORD_SERVICE h = R' KEYCHAIN_PASSWORD_SERVICE h"
    and "R KEYCHAIN_PASSPHRASE_SERVICE h = R' KEYCHAIN_PASSPHRASE_SERVICE h"
    and "truthy i \<Longrightarrow> R KEYCHAIN_IDENTITY_PASSPHRASE_SERVICE (the i) = R' KEYCHAIN_IDENTITY_PASSPHRASE_SERVICE (the i)"
    and "truthy f \<Longrightarrow> R KEYCHAIN_KEY_PASSPHRASE_SERVICE (the f) = R' KEYCHAIN_KEY_PASSPHRASE_SERVICE (the f)"
  shows "effective R h i f = effective R' h i f"
  using assms entry_cong[of R KEYCHAIN_IDENTITY_PASSPHRASE_SERVICE "the i" R']
    entry_cong[of R KEYCHAIN_KEY_PASSPHRASE_SERVICE "the f" R']
  by (simp add: effective_def)

lemma effective_reads: "(\<And>s a. R s a = R' s a) \<Longrightarrow> effective R h i f = effective R' h i f"
  by (rule effective_cong) auto

text \<open>The password that is written back is the one that was read.\<close>

lemma written_found [simp]: "found (written p) = p" "\<not> unavailable (written p)"
  by (simp_all add: written_def)

text \<open>After the passphrase has been moved to the identity or to the key, it is found there.\<close>

lemma effective_identity:
  assumes "truthy i" "validate_identity_id (the i) = Inr ()" "p \<noteq> []"
    and "R KEYCHAIN_IDENTITY_PASSPHRASE_SERVICE (the i) = Found p"
    and "\<not> unavailable (R KEYCHAIN_PASSWORD_SERVICE h)" "\<not> unavailable (R KEYCHAIN_PASSPHRASE_SERVICE h)"
  shows "effective R h i f =
    Inr \<lparr>sv_password = found (R KEYCHAIN_PASSWORD_SERVICE h), sv_passphrase = p\<rparr>"
  using assms by (simp add: effective_def entry_def)

lemma effective_key:
  assumes "\<not> truthy i" "truthy f" "validate_key_fingerprint (the f) = Inr ()" "p \<noteq> []"
    and "R KEYCHAIN_KEY_PASSPHRASE_SERVICE (the f) = Found p"
    and "\<not> unavailable (R KEYCHAIN_PASSWORD_SERVICE h)" "\<not> unavailable (R KEYCHAIN_PASSPHRASE_SERVICE h)"
  shows "effective R h i f =
    Inr \<lparr>sv_password = found (R KEYCHAIN_PASSWORD_SERVICE h), sv_passphrase = p\<rparr>"
  using assms by (simp add: effective_def entry_def)

text \<open>What \<open>storeNativeHostSecrets\<close> may change, whether it fails or not.\<close>

lemma storeHost_reads:
  assumes "k' = snd (storeNativeHostSecrets os True h v k)"
  shows "\<And>s a. s \<noteq> KEYCHAIN_PASSWORD_SERVICE \<Longrightarrow> s \<noteq> KEYCHAIN_PASSPHRASE_SERVICE \<Longrightarrow>
      os_read os k' s a = os_read os k s a"
    and "\<And>s a. a \<noteq> h \<Longrightarrow> os_read os k' s a = os_read os k s a"
    and "os_read os k' KEYCHAIN_PASSWORD_SERVICE h \<in>
      {written (sv_password v), os_read os k KEYCHAIN_PASSWORD_SERVICE h}"
    and "os_read os k' KEYCHAIN_PASSPHRASE_SERVICE h \<in>
      {written (sv_passphrase v), os_read os k KEYCHAIN_PASSPHRASE_SERVICE h}"
proof -
  have "storeNativeHostSecrets os True h v k = (fst (storeNativeHostSecrets os True h v k), k')"
    using assms by (metis prod.collapse)
  then have "(\<forall>s a. s \<noteq> KEYCHAIN_PASSWORD_SERVICE \<longrightarrow> s \<noteq> KEYCHAIN_PASSPHRASE_SERVICE \<longrightarrow>
      os_read os k' s a = os_read os k s a) \<and> (\<forall>s a. a \<noteq> h \<longrightarrow> os_read os k' s a = os_read os k s a) \<and>
    os_read os k' KEYCHAIN_PASSWORD_SERVICE h \<in>
      {written (sv_password v), os_read os k KEYCHAIN_PASSWORD_SERVICE h} \<and>
    os_read os k' KEYCHAIN_PASSPHRASE_SERVICE h \<in>
      {written (sv_passphrase v), os_read os k KEYCHAIN_PASSPHRASE_SERVICE h}"
    by (cases rule: storeHost_cases) (auto simp: services)
  then show "\<And>s a. s \<noteq> KEYCHAIN_PASSWORD_SERVICE \<Longrightarrow> s \<noteq> KEYCHAIN_PASSPHRASE_SERVICE \<Longrightarrow>
      os_read os k' s a = os_read os k s a"
    and "\<And>s a. a \<noteq> h \<Longrightarrow> os_read os k' s a = os_read os k s a"
    and "os_read os k' KEYCHAIN_PASSWORD_SERVICE h \<in>
      {written (sv_password v), os_read os k KEYCHAIN_PASSWORD_SERVICE h}"
    and "os_read os k' KEYCHAIN_PASSPHRASE_SERVICE h \<in>
      {written (sv_passphrase v), os_read os k KEYCHAIN_PASSPHRASE_SERVICE h}"
    by blast+
qed

end

context lawful_keychain
begin

lemma host_copy_reads:
  fixes k :: 'k
  assumes "k' = snd (storeNativeHostSecrets os True h
      \<lparr>sv_password = found (os_read os k0 KEYCHAIN_PASSWORD_SERVICE h), sv_passphrase = []\<rparr> k)"
    and "os_read os k KEYCHAIN_PASSWORD_SERVICE h = os_read os k0 KEYCHAIN_PASSWORD_SERVICE h"
    and "os_read os k KEYCHAIN_PASSPHRASE_SERVICE h = os_read os k0 KEYCHAIN_PASSPHRASE_SERVICE h"
    and "\<not> unavailable (os_read os k0 KEYCHAIN_PASSWORD_SERVICE h)"
    and "\<not> unavailable (os_read os k0 KEYCHAIN_PASSPHRASE_SERVICE h)"
  shows "\<not> unavailable (os_read os k' KEYCHAIN_PASSWORD_SERVICE h)"
    and "\<not> unavailable (os_read os k' KEYCHAIN_PASSPHRASE_SERVICE h)"
    and "found (os_read os k' KEYCHAIN_PASSWORD_SERVICE h) = found (os_read os k0 KEYCHAIN_PASSWORD_SERVICE h)"
  using storeHost_reads(3,4)[OF assms(1)] assms(2-5) by auto

lemma migrate_effective:
  assumes v: "v = \<lparr>sv_password = found (os_read os k KEYCHAIN_PASSWORD_SERVICE h),
      sv_passphrase = found (os_read os k KEYCHAIN_PASSPHRASE_SERVICE h)\<rparr>"
    and av: "\<not> unavailable (os_read os k KEYCHAIN_PASSWORD_SERVICE h)"
      "\<not> unavailable (os_read os k KEYCHAIN_PASSPHRASE_SERVICE h)"
    and eff: "effective (os_read os k) h i f = Inr v"
  shows "effective (os_read os (migrate_host_passphrase os True h i f v k)) h i f = Inr v"
proof (cases "sv_passphrase v = [] \<or> (\<not> truthy i \<and> \<not> truthy f)")
  case True
  then show ?thesis using eff by (auto simp: migrate_host_passphrase_def)
next
  case ne: False
  let ?w = "\<lparr>sv_password = sv_password v, sv_passphrase = []\<rparr>"
  let ?k' = "migrate_host_passphrase os True h i f v k"
  show ?thesis
  proof (cases "truthy i")
    case True
    obtain r1 k1 where 1: "storeNativeIdentityPassphrase os True (the i) (sv_passphrase v) k = (r1, k1)"
      by (cases "storeNativeIdentityPassphrase os True (the i) (sv_passphrase v) k")
    have p: "sv_passphrase v \<noteq> []" using ne by simp
    from 1 p show ?thesis
    proof (cases rule: storeIdentity_cases)
      case stored
      then have k': "?k' = snd (storeNativeHostSecrets os True h ?w k1)"
        using True p 1 by (simp add: migrate_host_passphrase_def swallow_def awaits_def)
      note host = host_copy_reads[OF k'[unfolded v, simplified]] and keep = storeHost_reads(1)[OF k']
      have id: "os_read os ?k' KEYCHAIN_IDENTITY_PASSPHRASE_SERVICE (the i) = Found (sv_passphrase v)"
        using keep[of KEYCHAIN_IDENTITY_PASSPHRASE_SERVICE "the i"] stored(3) by (simp add: services)
      have "effective (os_read os ?k') h i f = Inr \<lparr>sv_password = found (os_read os ?k' KEYCHAIN_PASSWORD_SERVICE h),
          sv_passphrase = sv_passphrase v\<rparr>"
        by (rule effective_identity[where R = "os_read os ?k'", OF True stored(2) p id])
          (use host av v stored(3) in \<open>simp_all add: services\<close>)
      then show ?thesis using host(3) av v stored(3) by (simp add: services)
    next
      case (failed e)
      then have "?k' = k1" using True p 1 by (simp add: migrate_host_passphrase_def swallow_def awaits_def)
      then show ?thesis using effective_reads[of "os_read os k1" "os_read os k"] failed(2) eff by simp
    qed
  next
    case False
    then have f: "truthy f" using ne by simp
    obtain r1 k1 where 1: "storeNativeKeyPassphrase os True (the f) (sv_passphrase v) k = (r1, k1)"
      by (cases "storeNativeKeyPassphrase os True (the f) (sv_passphrase v) k")
    have p: "sv_passphrase v \<noteq> []" using ne by simp
    from 1 p show ?thesis
    proof (cases rule: storeKey_cases)
      case stored
      then have k': "?k' = snd (storeNativeHostSecrets os True h ?w k1)"
        using False f p 1 by (simp add: migrate_host_passphrase_def swallow_def awaits_def)
      note host = host_copy_reads[OF k'[unfolded v, simplified]] and keep = storeHost_reads(1)[OF k']
      have id: "os_read os ?k' KEYCHAIN_KEY_PASSPHRASE_SERVICE (the f) = Found (sv_passphrase v)"
        using keep[of KEYCHAIN_KEY_PASSPHRASE_SERVICE "the f"] stored(3) by (simp add: services)
      have "effective (os_read os ?k') h i f = Inr \<lparr>sv_password = found (os_read os ?k' KEYCHAIN_PASSWORD_SERVICE h),
          sv_passphrase = sv_passphrase v\<rparr>"
        by (rule effective_key[where R = "os_read os ?k'", OF False f stored(2) p id])
          (use host av v stored(3) in \<open>simp_all add: services\<close>)
      then show ?thesis using host(3) av v stored(3) by (simp add: services)
    next
      case (failed e)
      then have "?k' = k1" using False f p 1 by (simp add: migrate_host_passphrase_def swallow_def awaits_def)
      then show ?thesis using effective_reads[of "os_read os k1" "os_read os k"] failed(2) eff by simp
    qed
  qed
qed

end

context lawful_keychain
begin

text \<open>The keychain after a load: as before, or the passphrase of the key copied to the identity, or
  the passphrase of the host moved.\<close>

lemma load_from_key_cases:
  assumes "load_from_key os True h i f v0 k = (Inr v, k')"
  shows "(v = v0 \<and> k' = migrate_host_passphrase os True h i f v0 k) \<or>
    (sv_passphrase v \<noteq> [] \<and> sv_password v = sv_password v0 \<and>
     k' = (if truthy i then swallow (storeNativeIdentityPassphrase os True (the i) (sv_passphrase v)) k else k))"
proof (cases "truthy f")
  case False
  with assms show ?thesis by (auto simp: load_from_key_def load_from_host_def)
next
  case True
  define K where "K = entry (os_read os k) (validate_key_fingerprint (the f)) KEYCHAIN_KEY_PASSPHRASE_SERVICE (the f)"
  from assms True show ?thesis
    by (cases K) (auto simp: load_from_key_def load_from_host_def awaits_def loadNative_entry K_def[symmetric]
        split: if_splits)
qed

lemma load_state_cases:
  assumes "loadSecretsWithMultiStageMigration os True h i f k = (Inr v, k')"
  obtains (same) "k' = k"
    | (copied) "truthy i" "validate_identity_id (the i) = Inr ()" "sv_passphrase v \<noteq> []"
      "sv_password v = found (os_read os k KEYCHAIN_PASSWORD_SERVICE h)"
      "k' = swallow (storeNativeIdentityPassphrase os True (the i) (sv_passphrase v)) k"
    | (moved) "v = \<lparr>sv_password = found (os_read os k KEYCHAIN_PASSWORD_SERVICE h),
        sv_passphrase = found (os_read os k KEYCHAIN_PASSPHRASE_SERVICE h)\<rparr>"
      "k' = migrate_host_passphrase os True h i f v k"
proof -
  let ?v0 = "\<lparr>sv_password = found (os_read os k KEYCHAIN_PASSWORD_SERVICE h),
      sv_passphrase = found (os_read os k KEYCHAIN_PASSPHRASE_SERVICE h)\<rparr>"
  define E where "E = entry (os_read os k) (validate_identity_id (the i)) KEYCHAIN_IDENTITY_PASSPHRASE_SERVICE (the i)"
  have "k' = k \<or> (load_from_key os True h i f ?v0 k = (Inr v, k') \<and> (truthy i \<longrightarrow> E = Inr []))"
    using assms
    by (cases E) (auto simp: loadSecretsWithMultiStageMigration_def awaits_def returns_def loadNative_entry
        loadNativeHostSecrets_ok E_def[symmetric] split: if_splits)
  then consider "k' = k" | "load_from_key os True h i f ?v0 k = (Inr v, k')" "truthy i \<longrightarrow> E = Inr []" by blast
  then show ?thesis
  proof cases
    case 1
    then show ?thesis by (rule same)
  next
    case 2
    have "truthy i \<Longrightarrow> validate_identity_id (the i) = Inr ()"
      using 2(2) by (auto simp: E_def entry_def split: sum.splits)
    then show ?thesis
      using load_from_key_cases[OF 2(1)] same copied moved by (auto split: if_splits)
  qed
qed

lemma effective_available:
  "effective R h i f = Inr v \<Longrightarrow>
   \<not> unavailable (R KEYCHAIN_PASSWORD_SERVICE h) \<and> \<not> unavailable (R KEYCHAIN_PASSPHRASE_SERVICE h)"
  by (auto simp: effective_def split: if_splits)

lemma load_effective:
  assumes "loadSecretsWithMultiStageMigration os True h i f k = (Inr v, k')"
  shows "effective (os_read os k') h i f = Inr v"
proof -
  have eff: "effective (os_read os k) h i f = Inr v"
    using load_contract[of os h i f k] assms by simp
  note av = effective_available[OF eff, THEN conjunct1] effective_available[OF eff, THEN conjunct2]
  from assms show ?thesis
  proof (cases rule: load_state_cases)
    case same
    with eff show ?thesis by simp
  next
    case copied
    obtain r1 k1 where 1: "storeNativeIdentityPassphrase os True (the i) (sv_passphrase v) k = (r1, k1)"
      by (cases "storeNativeIdentityPassphrase os True (the i) (sv_passphrase v) k")
    then have k': "k' = k1" using copied(5) by (simp add: swallow_def)
    from 1 copied(3) show ?thesis
    proof (cases rule: storeIdentity_cases)
      case stored
      have "effective (os_read os k1) h i f = Inr \<lparr>sv_password = found (os_read os k1 KEYCHAIN_PASSWORD_SERVICE h),
          sv_passphrase = sv_passphrase v\<rparr>"
        by (rule effective_identity[where R = "os_read os k1", OF copied(1,2,3)])
          (use stored(3) av in \<open>simp_all add: services\<close>)
      then show ?thesis using copied(4) stored(3) k' by (simp add: services)
    next
      case (failed e)
      then show ?thesis using effective_reads[of "os_read os k1" "os_read os k"] eff k' by simp
    qed
  next
    case moved
    show ?thesis unfolding moved(2) by (rule migrate_effective[OF moved(1) av eff])
  qed
qed

end

context lawful_keychain
begin

definition touched :: "string \<Rightarrow> string option \<Rightarrow> string option \<Rightarrow> string \<Rightarrow> string \<Rightarrow> bool" where
  "touched h i f s a \<longleftrightarrow>
     (a = h \<and> (s = KEYCHAIN_PASSWORD_SERVICE \<or> s = KEYCHAIN_PASSPHRASE_SERVICE)) \<or>
     (truthy i \<and> s = KEYCHAIN_IDENTITY_PASSPHRASE_SERVICE \<and> a = the i) \<or>
     (truthy f \<and> s = KEYCHAIN_KEY_PASSPHRASE_SERVICE \<and> a = the f)"

lemma storeIdentity_untouched:
  "k' = snd (storeNativeIdentityPassphrase os True (the i) p k) \<Longrightarrow> p \<noteq> [] \<Longrightarrow> truthy i \<Longrightarrow>
   \<not> touched h i f s a \<Longrightarrow> os_read os k' s a = os_read os k s a"
  by (rule storeIdentity_cases[of "the i" p k "fst (storeNativeIdentityPassphrase os True (the i) p k)" k'])
    (auto simp: touched_def)

lemma storeKey_untouched:
  "k' = snd (storeNativeKeyPassphrase os True (the f) p k) \<Longrightarrow> p \<noteq> [] \<Longrightarrow> truthy f \<Longrightarrow>
   \<not> touched h i f s a \<Longrightarrow> os_read os k' s a = os_read os k s a"
  by (rule storeKey_cases[of "the f" p k "fst (storeNativeKeyPassphrase os True (the f) p k)" k'])
    (auto simp: touched_def)

lemma storeHost_untouched:
  assumes "k' = snd (storeNativeHostSecrets os True h v k)" "\<not> touched h i f s a"
  shows "os_read os k' s a = os_read os k s a"
proof (cases "a = h")
  case True
  with assms(2) have "s \<noteq> KEYCHAIN_PASSWORD_SERVICE" "s \<noteq> KEYCHAIN_PASSPHRASE_SERVICE"
    by (auto simp: touched_def)
  then show ?thesis by (rule storeHost_reads(1)[OF assms(1)])
next
  case False
  then show ?thesis by (rule storeHost_reads(2)[OF assms(1)])
qed

lemma swallow_awaits:
  "swallow (awaits m n) k = (case m k of (Inl e, k') \<Rightarrow> k' | (Inr x, k') \<Rightarrow> snd (n x k'))"
  by (simp add: swallow_def awaits_def split: sum.split prod.split)

lemma migrate_untouched:
  assumes "\<not> touched h i f s a"
  shows "os_read os (migrate_host_passphrase os True h i f v k) s a = os_read os k s a"
proof -
  let ?w = "\<lparr>sv_password = sv_password v, sv_passphrase = []\<rparr>"
  let ?n = "\<lambda>_ :: unit. storeNativeHostSecrets os True h ?w"
  have host: "os_read os (snd (?n u k1)) s a = os_read os k1 s a" for u k1
    by (rule storeHost_untouched[OF refl assms])
  consider "migrate_host_passphrase os True h i f v k = k"
    | "truthy i" "sv_passphrase v \<noteq> []" "migrate_host_passphrase os True h i f v k =
        swallow (awaits (storeNativeIdentityPassphrase os True (the i) (sv_passphrase v)) ?n) k"
    | "truthy f" "sv_passphrase v \<noteq> []" "migrate_host_passphrase os True h i f v k =
        swallow (awaits (storeNativeKeyPassphrase os True (the f) (sv_passphrase v)) ?n) k"
    by (cases "sv_passphrase v = []"; cases "truthy i"; cases "truthy f")
      (simp_all add: migrate_host_passphrase_def)
  then show ?thesis
  proof cases
    case 2
    obtain r1 k1 where 1: "storeNativeIdentityPassphrase os True (the i) (sv_passphrase v) k = (r1, k1)"
      by (cases "storeNativeIdentityPassphrase os True (the i) (sv_passphrase v) k")
    then have "os_read os k1 s a = os_read os k s a"
      using storeIdentity_untouched[OF _ 2(2,1) assms, of k1 k] by simp
    then show ?thesis using 2(3) 1 host by (cases r1) (simp_all add: swallow_awaits)
  next
    case 3
    obtain r1 k1 where 1: "storeNativeKeyPassphrase os True (the f) (sv_passphrase v) k = (r1, k1)"
      by (cases "storeNativeKeyPassphrase os True (the f) (sv_passphrase v) k")
    then have "os_read os k1 s a = os_read os k s a"
      using storeKey_untouched[OF _ 3(2,1) assms, of k1 k] by simp
    then show ?thesis using 3(3) 1 host by (cases r1) (simp_all add: swallow_awaits)
  qed simp
qed

lemma load_untouched:
  assumes "loadSecretsWithMultiStageMigration os True h i f k = (Inr v, k')" "\<not> touched h i f s a"
  shows "os_read os k' s a = os_read os k s a"
  using assms(1)
proof (cases rule: load_state_cases)
  case copied
  then show ?thesis using storeIdentity_untouched[OF _ copied(3,1) assms(2)] by (simp add: swallow_def)
next
  case moved
  show ?thesis unfolding moved(2) by (rule migrate_untouched[OF assms(2)])
qed simp

lemma load_other_hosts:
  assumes "loadSecretsWithMultiStageMigration os True h i f k = (Inr v, k')" "h' \<noteq> h"
    and "\<not> (truthy i \<and> i' = i)" "\<not> (truthy f \<and> f' = f)"
  shows "effective (os_read os k') h' i' f' = effective (os_read os k) h' i' f'"
proof (rule effective_cong)
  show "os_read os k' KEYCHAIN_PASSWORD_SERVICE h' = os_read os k KEYCHAIN_PASSWORD_SERVICE h'"
    "os_read os k' KEYCHAIN_PASSPHRASE_SERVICE h' = os_read os k KEYCHAIN_PASSPHRASE_SERVICE h'"
    by (rule load_untouched[OF assms(1)], use assms(2) in \<open>simp add: touched_def services\<close>)+
  show "truthy i' \<Longrightarrow> os_read os k' KEYCHAIN_IDENTITY_PASSPHRASE_SERVICE (the i') =
      os_read os k KEYCHAIN_IDENTITY_PASSPHRASE_SERVICE (the i')"
    by (rule load_untouched[OF assms(1)]) (use assms(3) in \<open>auto simp: touched_def services truthy_iff\<close>)
  show "truthy f' \<Longrightarrow> os_read os k' KEYCHAIN_KEY_PASSPHRASE_SERVICE (the f') =
      os_read os k KEYCHAIN_KEY_PASSPHRASE_SERVICE (the f')"
    by (rule load_untouched[OF assms(1)]) (use assms(4) in \<open>auto simp: touched_def services truthy_iff\<close>)
qed

end

text \<open>A keychain that is a map and is never locked.\<close>

definition map_keychain :: "(string \<times> string \<Rightarrow> string option) os_keychain" where
  "map_keychain = \<lparr>
     os_read = (\<lambda>k s a. case k (s, a) of None \<Rightarrow> Missing | Some v \<Rightarrow> Found v),
     os_add = (\<lambda>k s a v. (Inr (), k((s, a) \<mapsto> v))),
     os_delete = (\<lambda>k s a. (Inr (), k((s, a) := None)))\<rparr>"

interpretation map_keychain: lawful_keychain map_keychain
  by unfold_locales (auto simp: map_keychain_def)

text \<open>C19: Loading the secrets of a host moves passphrases between the places of the keychain, and any of
  its writes may fail half way. Still no secret is lost: the host's secrets afterwards are the ones
  that were returned, and those of a host that shares neither identity nor key with it are
  unchanged.\<close>

theorem migration_loses_no_secret:
  assumes "lawful_keychain os" "loadSecretsWithMultiStageMigration os True h i f k = (Inr v, k')"
  shows "effective (os_read os k') h i f = Inr v \<and>
    (\<forall>h' i' f'. h' \<noteq> h \<and> \<not> (truthy i \<and> i' = i) \<and> \<not> (truthy f \<and> f' = f) \<longrightarrow>
       effective (os_read os k') h' i' f' = effective (os_read os k) h' i' f')"
  using lawful_keychain.load_effective[OF assms] lawful_keychain.load_other_hosts[OF assms] by blast

lemma migration_loses_no_secret_witness:
  "effective (os_read map_keychain (snd (loadSecretsWithMultiStageMigration map_keychain True ''h''
      (Some ''i'') None [(KEYCHAIN_PASSPHRASE_SERVICE, ''h'') \<mapsto> ''pp'']))) ''h'' (Some ''i'') None =
   Inr \<lparr>sv_password = [], sv_passphrase = ''pp''\<rparr>"
proof (rule conjunct1[OF migration_loses_no_secret[OF map_keychain.lawful_keychain_axioms]])
  have "fst (loadSecretsWithMultiStageMigration map_keychain True ''h'' (Some ''i'') None
      [(KEYCHAIN_PASSPHRASE_SERVICE, ''h'') \<mapsto> ''pp'']) = Inr \<lparr>sv_password = [], sv_passphrase = ''pp''\<rparr>"
    unfolding load_contract
    by (simp add: effective_def entry_def map_keychain_def services validate_identity_id_def trim_def
        trim_start_def trim_end_def is_space_def)
  then show "loadSecretsWithMultiStageMigration map_keychain True ''h'' (Some ''i'') None
      [(KEYCHAIN_PASSPHRASE_SERVICE, ''h'') \<mapsto> ''pp''] =
    (Inr \<lparr>sv_password = [], sv_passphrase = ''pp''\<rparr>, snd (loadSecretsWithMultiStageMigration map_keychain
      True ''h'' (Some ''i'') None [(KEYCHAIN_PASSPHRASE_SERVICE, ''h'') \<mapsto> ''pp'']))"
    by (metis prod.collapse)
qed

context lawful_keychain
begin

lemma persist_effective:
  assumes "persistSecretsWithIdentityRouting os True h i f v k = (Inr u, k')"
    and "sv_passphrase v \<noteq> [] \<or> (\<not> truthy i \<and> \<not> truthy f)"
  shows "effective (os_read os k') h i f = Inr v"
proof -
  let ?w = "\<lparr>sv_password = sv_password v,
      sv_passphrase = (if truthy i \<or> truthy f then [] else sv_passphrase v)\<rparr>"
  obtain r1 k1 where 1: "storeNativeHostSecrets os True h ?w k = (r1, k1)"
    by (cases "storeNativeHostSecrets os True h ?w k")
  have r1: "r1 = Inr ()" using assms(1) 1
    by (auto simp: persistSecretsWithIdentityRouting_def awaits_def split: sum.splits)
  have host: "os_read os k1 KEYCHAIN_PASSWORD_SERVICE h = written (sv_password v)"
    "os_read os k1 KEYCHAIN_PASSPHRASE_SERVICE h = written (sv_passphrase ?w)"
    using 1 r1 by (auto elim!: storeHost_cases simp: services)
  consider "\<not> truthy i" "\<not> truthy f" | "truthy i" "sv_passphrase v \<noteq> []"
    | "\<not> truthy i" "truthy f" "sv_passphrase v \<noteq> []" using assms(2) by blast
  then show ?thesis
  proof cases
    case 1
    then have "k' = k1" using assms(1) \<open>storeNativeHostSecrets os True h ?w k = (r1, k1)\<close> r1
      by (simp add: persistSecretsWithIdentityRouting_def awaits_def returns_def)
    with 1 host show ?thesis by (simp add: effective_def)
  next
    case 2
    then have "storeNativeIdentityPassphrase os True (the i) (sv_passphrase v) k1 = (Inr (), k')"
      using assms(1) 1 r1 by (simp add: persistSecretsWithIdentityRouting_def awaits_def)
    from this 2(2) show ?thesis
      by (cases rule: storeIdentity_cases)
        (use 2 host in \<open>auto simp: services effective_def entry_def\<close>)
  next
    case 3
    then have "storeNativeKeyPassphrase os True (the f) (sv_passphrase v) k1 = (Inr (), k')"
      using assms(1) 1 r1 by (simp add: persistSecretsWithIdentityRouting_def awaits_def)
    from this 3(3) show ?thesis
      by (cases rule: storeKey_cases)
        (use 3 host in \<open>auto simp: services effective_def entry_def\<close>)
  qed
qed

end

text \<open>Secrets the user saves are the secrets that are loaded again, wherever they are routed, if the
  keychain accepted them. Only an empty passphrase does not replace the one that an identity or a key
  shares with other hosts.\<close>

theorem saved_secrets_load_again:
  assumes "lawful_keychain os"
    and "persistSecretsWithIdentityRouting os True h i f v k = (Inr (), k')"
    and "sv_passphrase v \<noteq> [] \<or> (\<not> truthy i \<and> \<not> truthy f)"
  shows "fst (loadSecretsWithMultiStageMigration os True h i f k') = Inr v"
  unfolding load_contract by (rule lawful_keychain.persist_effective[OF assms])

lemma saved_secrets_load_again_witness:
  "fst (loadSecretsWithMultiStageMigration map_keychain True ''h'' None (Some ''SHA256:x'')
     (snd (persistSecretsWithIdentityRouting map_keychain True ''h'' None (Some ''SHA256:x'')
        \<lparr>sv_password = ''a'', sv_passphrase = ''b''\<rparr> (\<lambda>_. None)))) =
   Inr \<lparr>sv_password = ''a'', sv_passphrase = ''b''\<rparr>"
  by (rule saved_secrets_load_again[OF map_keychain.lawful_keychain_axioms])
    (simp_all add: persistSecretsWithIdentityRouting_def awaits_def storeNativeHostSecrets_def
      storeNativeKeyPassphrase_def checked_def validate_key_fingerprint_def store_keychain_secret_def
      delete_keychain_secret_def map_keychain_def line_break_def trim_def trim_start_def trim_end_def
      is_space_def)

text \<open>A keychain that is locked, or that denies access, is never taken for a keychain without the
  secret: loading then fails with the message about the keychain, writes nothing, and leaves the
  secrets in memory as they are.\<close>

theorem locked_keychain_is_an_error:
  assumes "unavailable (os_read os k KEYCHAIN_PASSWORD_SERVICE h) \<or>
      unavailable (os_read os k KEYCHAIN_PASSPHRASE_SERVICE h)"
    and "obj_get (sm_secrets m) h = None" "h \<notin> set (sm_pending m)"
  shows "loadSecretsWithMultiStageMigration os True h i f k = (Inl KEYCHAIN_LOCKED, k) \<and>
    hydrateHostSecrets os True now i f h (m, k) = (None, m, k)"
proof -
  have "loadSecretsWithMultiStageMigration os True h i f k = (Inl KEYCHAIN_LOCKED, k)"
    using assms(1) by (simp add: load_defs)
  moreover have "filter (\<lambda>x. x \<noteq> h) (sm_pending m) = sm_pending m"
    using assms(3) by (auto intro: filter_True)
  ultimately show ?thesis using assms(2,3)
    by (simp add: hydrateHostSecrets_def hydrate_start_def hydrate_finish_def)
qed

definition locked_keychain :: "unit os_keychain" where
  "locked_keychain = \<lparr>os_read = (\<lambda>_ _ _. Unavailable ''locked''), os_add = (\<lambda>k _ _ _. (Inl ''locked'', k)),
     os_delete = (\<lambda>k _ _. (Inl ''locked'', k))\<rparr>"

lemma locked_keychain_is_an_error_witness:
  "hydrateHostSecrets locked_keychain True ''t'' (Some ''i'') None ''h'' (secrets_initial, ()) =
     (None, secrets_initial, ())"
  using locked_keychain_is_an_error[of locked_keychain "()" "''h''" secrets_initial "Some ''i''" None "''t''"]
  by (simp add: locked_keychain_def secrets_initial_def)

subsection \<open>Hydration and the user\<close>

text \<open>
  What can happen to the secrets in memory: hydrations of any host start and finish, with whatever
  they loaded, and the user sets or clears the secrets of some host.
\<close>

inductive memory_step :: "string set \<Rightarrow> secrets_memory \<Rightarrow> secrets_memory \<Rightarrow> bool" for A where
  starts: "memory_step A m (snd (hydrate_start tauri h m))"
| finishes: "memory_step A m (snd (hydrate_finish now h loaded m))"
| sets: "h \<in> A \<Longrightarrow> memory_step A m (set_memory now h v m)"
| clears: "h \<in> A \<Longrightarrow> memory_step A m (clear_memory h m)"

lemma hydrate_start_secrets [simp]: "sm_secrets (snd (hydrate_start tauri h m)) = sm_secrets m"
  by (simp add: hydrate_start_def split: option.split)

lemma hydrate_finish_keeps:
  "obj_get (sm_secrets m) j = Some r \<Longrightarrow> obj_get (sm_secrets (snd (hydrate_finish now h loaded m))) j = Some r"
  by (auto simp: hydrate_finish_def Let_def obj_get_set split: sum.split option.split)

lemma memory_step_keeps:
  "memory_step A m m' \<Longrightarrow> j \<notin> A \<Longrightarrow> obj_get (sm_secrets m) j = Some r \<Longrightarrow> obj_get (sm_secrets m') j = Some r"
  by (induction rule: memory_step.induct)
    (auto simp: set_memory_def clear_memory_def obj_get_set obj_get_del hydrate_finish_keeps)

text \<open>What the user typed wins over what is stored: once the secrets of a host are set, hydrations
  that were already under way, or that start later, and the secrets of other hosts never change
  what connecting to that host uses.\<close>

theorem typed_secrets_survive:
  assumes "hasConnectionSecrets v" "(memory_step (- {h}))\<^sup>*\<^sup>* (set_memory now h v m) m'"
  shows "getHostConnectionSecrets m' h = v"
proof -
  have "obj_get (sm_secrets m') h = Some (buildSecretRecord now v)"
    using assms(2)
  proof (induction rule: rtranclp_induct)
    case base
    show ?case using assms(1) by (simp add: set_memory_def)
  next
    case (step y z)
    then show ?case using memory_step_keeps[of "- {h}" y z h] by simp
  qed
  then show ?thesis by (simp add: getHostConnectionSecrets_def buildSecretRecord_def)
qed

lemma typed_secrets_survive_witness:
  "getHostConnectionSecrets (snd (hydrate_finish ''2'' ''h'' (Inr \<lparr>sv_password = ''old'', sv_passphrase = []\<rparr>)
     (set_memory ''1'' ''h'' \<lparr>sv_password = ''new'', sv_passphrase = []\<rparr> secrets_initial))) ''h'' =
   \<lparr>sv_password = ''new'', sv_passphrase = []\<rparr>"
  by (rule typed_secrets_survive[where m = secrets_initial and now = "''1''"])
    (simp add: hasConnectionSecrets_def, rule r_into_rtranclp, rule memory_step.finishes)

text \<open>
  Clearing is weaker: a hydration that is under way when the secrets of a host are cleared puts what
  it loaded back into memory when it ends.
\<close>

lemma late_hydration_restores_cleared:
  assumes "hasConnectionSecrets v"
  shows "getHostConnectionSecrets (snd (hydrate_finish now h (Inr v)
    (fst (clearHostSecrets os tauri h (m, k))))) h = v"
  using assms by (simp add: hydrate_finish_def clearHostSecrets_def clear_memory_def Let_def getHostConnectionSecrets_def
      buildSecretRecord_def)

end
