(* ===== verification/Connections.thy ===== *)
theory Connections
  imports KnownHosts Secrets
begin

section \<open>From a host to a connection request (\<open>lib/connections.ts\<close>)\<close>

text \<open>
  The request that goes to the backend is a tree with one branch: the connection of a host holds
  the connection of its jump host. It is built from the trusted keys, the secrets in memory, the
  identities and the inventory, which are arguments here, and fails with a message when a jump
  host is missing, a key is not trusted or the chain of jump hosts comes back to a host.
\<close>

datatype connection = Connection
  (bc_agentForwarding: bool) (bc_authMethod: host_auth) (bc_environment: "string obj")
  (bc_hostKeyPolicy: host_key_policy) (bc_hostname: string) (bc_jumpHost: "connection option")
  (bc_knownHostAlgorithm: "string option") (bc_knownHostPublicKey: "string option")
  (bc_password: string) (bc_passphrase: string) (bc_port: "int number") (bc_privateKeyPath: string)
  (bc_protocol: host_protocol) (bc_sftpRoot: "string option") (bc_username: string)

definition findKnownHostMatch :: "known_host list \<Rightarrow> string \<Rightarrow> int number \<Rightarrow> known_host option" where
  "findKnownHostMatch knownHosts hostname port =
     List.find (\<lambda>n. n_hostname n = hostname \<and> number_eq (n_port n) port) knownHosts"

text \<open>What the recursion reads from the other stores.\<close>

record connection_env =
  ce_knownHosts :: "known_host list"
  ce_secrets :: secrets_memory
  ce_identities :: "identity list"
  ce_hosts :: "host list"

definition known_of :: "connection_env \<Rightarrow> host \<Rightarrow> known_host option" where
  "known_of env h = findKnownHostMatch (ce_knownHosts env) (h_hostname h) (h_port h)"

definition needs_trust :: "host \<Rightarrow> bool" where
  "needs_trust h \<longleftrightarrow> hostSupportsTrustedKeys (h_protocol h) \<and> h_hostKeyPolicy h = RequireTrusted"

definition needs_jump :: "host \<Rightarrow> bool" where
  "needs_jump h \<longleftrightarrow> hostSupportsJumpHosts (h_protocol h) \<and> truthy (h_jumpHostId h)"

definition jump_target :: "connection_env \<Rightarrow> host \<Rightarrow> host option" where
  "jump_target env h = List.find (\<lambda>c. Some (h_id c) = h_jumpHostId h) (ce_hosts env)"

definition effective_username :: "connection_env \<Rightarrow> host \<Rightarrow> string" where
  "effective_username env h =
     (case resolveIdentityForHost h (ce_identities env) of
        None \<Rightarrow> h_username h
      | Some i \<Rightarrow> or_string (trim (i_username i)) (h_username h))"

definition effective_auth :: "connection_env \<Rightarrow> host \<Rightarrow> host_auth" where
  "effective_auth env h =
     (case resolveIdentityForHost h (ce_identities env) of
        None \<Rightarrow> h_authMethod h | Some i \<Rightarrow> i_authMethod i)"

definition effective_key_path :: "connection_env \<Rightarrow> host \<Rightarrow> string" where
  "effective_key_path env h =
     (case resolveIdentityForHost h (ce_identities env) of
        None \<Rightarrow> h_privateKeyPath h
      | Some i \<Rightarrow> if i_authMethod i = AuthPrivateKey
                  then or_string (i_privateKeyPath i) (h_privateKeyPath h) else [])"

definition assemble :: "connection_env \<Rightarrow> host \<Rightarrow> connection option \<Rightarrow> connection" where
  "assemble env h jump =
     (let secrets = getHostConnectionSecrets (ce_secrets env) (h_id h) in
      Connection (h_agentForwarding h) (effective_auth env h) (h_environment h) (h_hostKeyPolicy h)
        (h_hostname h) jump (map_option n_algorithm (known_of env h))
        (map_option n_publicKey (known_of env h)) (sv_password secrets) (sv_passphrase secrets)
        (h_port h) (effective_key_path env h) (h_protocol h)
        (if h_protocol h = Ssh then Some (h_sftpRoot h) else None) (effective_username env h))"

definition cycle_error :: "host \<Rightarrow> string" where
  "cycle_error h = ''Jump host cycle detected for '' @ h_label h @ ''.''"

definition trust_error :: "host \<Rightarrow> string" where
  "trust_error h = ''Trusted host key required for '' @ h_label h @ ''. Scan and trust '' @
     h_hostname h @ '':'' @ show_number (h_port h) @ '' in Keys before connecting.''"

definition missing_error :: "host \<Rightarrow> string" where
  "missing_error h = ''Jump host is missing for '' @ h_label h @ ''.''"

text \<open>Every call adds a host to the chain and goes on with a host of the inventory.\<close>

function buildBackendConnectionRecursive ::
    "connection_env \<Rightarrow> host \<Rightarrow> string list \<Rightarrow> connection result" where
  "buildBackendConnectionRecursive env h chain =
     (if h_id h \<in> set chain then Inl (cycle_error h)
      else if needs_trust h \<and> known_of env h = None then Inl (trust_error h)
      else if \<not> needs_jump h then Inr (assemble env h None)
      else (case jump_target env h of
          None \<Rightarrow> Inl (missing_error h)
        | Some j \<Rightarrow>
            (case buildBackendConnectionRecursive env j (chain @ [h_id h]) of
               Inl e \<Rightarrow> Inl e
             | Inr c \<Rightarrow> Inr (assemble env h (Some c)))))"
  by pat_completeness auto
termination
proof (relation "measure (\<lambda>(env, h, chain). card (insert (h_id h) (h_id ` set (ce_hosts env)) - set chain))")
  fix env h chain j
  assume new: "h_id h \<notin> set chain" and j: "jump_target env h = Some j"
  let ?ids = "h_id ` set (ce_hosts env)"
  have "h_id j \<in> ?ids" using j find_Some_set by (fastforce simp: jump_target_def)
  then have "insert (h_id j) ?ids - set (chain @ [h_id h]) \<subset> insert (h_id h) ?ids - set chain"
    using new by auto
  then show "((env, j, chain @ [h_id h]), env, h, chain)
      \<in> measure (\<lambda>(env, h, chain). card (insert (h_id h) (h_id ` set (ce_hosts env)) - set chain))"
    by (simp add: psubset_card_mono)
qed simp

declare buildBackendConnectionRecursive.simps [simp del]

definition buildBackendConnection :: "connection_env \<Rightarrow> host \<Rightarrow> connection result" where
  "buildBackendConnection env h = buildBackendConnectionRecursive env h []"

text \<open>The variant that the terminal and the session restore use: the only trusted key it knows is
  the one it is given for the host itself.\<close>

definition only_known :: "host \<Rightarrow> (string \<times> string) option \<Rightarrow> known_host list" where
  "only_known h k = (case k of None \<Rightarrow> []
     | Some (algorithm, publicKey) \<Rightarrow>
         [\<lparr>n_id = h_hostname h @ '':'' @ show_number (h_port h) @ '':known'', n_hostname = h_hostname h,
           n_port = h_port h, n_algorithm = algorithm, n_publicKey = publicKey, n_fingerprint = [],
           n_trustedAt = [], n_updatedAt = []\<rparr>])"

definition buildBackendConnectionFromKnownHost ::
    "connection_env \<Rightarrow> host \<Rightarrow> (string \<times> string) option \<Rightarrow> connection result" where
  "buildBackendConnectionFromKnownHost env h k =
     buildBackendConnectionRecursive (env\<lparr>ce_knownHosts := only_known h k\<rparr>) h []"

text \<open>The host that a terminal pane passes (\<open>terminal-pane-native-session.ts\<close>): the fields it lists
  include neither the jump host nor the identity.\<close>

definition terminal_host :: "host \<Rightarrow> host" where
  "terminal_host h = h\<lparr>h_jumpHostId := None, h_identityId := None\<rparr>"

subsection \<open>Routes\<close>

text \<open>The hosts a connection passes through, from the host itself to the last jump host.\<close>

inductive route :: "connection_env \<Rightarrow> host \<Rightarrow> host list \<Rightarrow> bool" for env where
  last_hop: "\<not> needs_jump h \<Longrightarrow> route env h [h]"
| next_hop: "needs_jump h \<Longrightarrow> jump_target env h = Some j \<Longrightarrow> route env j p \<Longrightarrow> route env h (h # p)"

inductive_simps route_end: "route env h [h']"
inductive_cases routeE: "route env h p"

fun assemble_route :: "connection_env \<Rightarrow> host list \<Rightarrow> connection option" where
  "assemble_route env [] = None"
| "assemble_route env (h # p) = Some (assemble env h (assemble_route env p))"

definition trusted_host :: "connection_env \<Rightarrow> host \<Rightarrow> bool" where
  "trusted_host env h \<longleftrightarrow> (needs_trust h \<longrightarrow> known_of env h \<noteq> None)"

definition good_route :: "connection_env \<Rightarrow> string list \<Rightarrow> host list \<Rightarrow> bool" where
  "good_route env chain p \<longleftrightarrow> distinct (chain @ map h_id p) \<and> list_all (trusted_host env) p"

lemma route_Cons: "route env h p \<Longrightarrow> \<exists>q. p = h # q"
  by (erule routeE) auto

lemma route_not_empty [simp]: "\<not> route env h []"
  by (auto elim: routeE)

lemma route_step:
  "needs_jump h \<Longrightarrow> jump_target env h = Some j \<Longrightarrow>
   route env h p \<longleftrightarrow> (\<exists>q. p = h # q \<and> route env j q)"
  by (auto elim: routeE intro: next_hop)

lemma good_route_Cons:
  "good_route env chain (h # q) \<longleftrightarrow>
   h_id h \<notin> set chain \<and> trusted_host env h \<and> good_route env (chain @ [h_id h]) q \<and> distinct chain"
  by (auto simp: good_route_def)

lemma build_route:
  assumes "distinct chain"
  shows "buildBackendConnectionRecursive env h chain = Inr c \<longleftrightarrow>
    (\<exists>p. route env h p \<and> good_route env chain p \<and> assemble_route env p = Some c)"
  using assms
proof (induction env h chain arbitrary: c rule: buildBackendConnectionRecursive.induct)
  case (1 env h chain)
  let ?b = "buildBackendConnectionRecursive env h chain"
  consider "h_id h \<in> set chain \<or> \<not> trusted_host env h" | "h_id h \<notin> set chain" "trusted_host env h" "\<not> needs_jump h"
    | "h_id h \<notin> set chain" "trusted_host env h" "needs_jump h" "jump_target env h = None"
    | j where "h_id h \<notin> set chain" "trusted_host env h" "needs_jump h" "jump_target env h = Some j" by blast
  then show ?case
  proof cases
    case 1
    then have "?b \<noteq> Inr c" by (subst buildBackendConnectionRecursive.simps) (auto simp: trusted_host_def)
    moreover have "\<not> good_route env chain p" if "route env h p" for p
      using 1 route_Cons[OF that] by (auto simp: good_route_Cons)
    ultimately show ?thesis by blast
  next
    case 2
    then have "?b = Inr (assemble env h None)"
      by (subst buildBackendConnectionRecursive.simps) (auto simp: trusted_host_def)
    moreover have "route env h p \<longleftrightarrow> p = [h]" for p using 2(3) by (auto elim: routeE intro: last_hop)
    moreover have "good_route env chain [h]" using 2 \<open>distinct chain\<close> by (simp add: good_route_def)
    ultimately show ?thesis by auto
  next
    case 3
    then have "?b = Inl (missing_error h)"
      by (subst buildBackendConnectionRecursive.simps) (auto simp: trusted_host_def)
    moreover have "\<not> route env h p" for p using 3 by (auto elim: routeE)
    ultimately show ?thesis by simp
  next
    case 4
    let ?j = "buildBackendConnectionRecursive env j (chain @ [h_id h])"
    have d: "distinct (chain @ [h_id h])" using 4(1) 1(2) by simp
    have "?b = (case ?j of Inl e \<Rightarrow> Inl e | Inr c \<Rightarrow> Inr (assemble env h (Some c)))"
      using 4 by (subst buildBackendConnectionRecursive.simps) (auto simp: trusted_host_def)
    then have "?b = Inr c \<longleftrightarrow> (\<exists>c'. ?j = Inr c' \<and> c = assemble env h (Some c'))"
      by (auto split: sum.split)
    also have "\<dots> \<longleftrightarrow> (\<exists>c' q. route env j q \<and> good_route env (chain @ [h_id h]) q \<and>
        assemble_route env q = Some c' \<and> c = assemble env h (Some c'))"
      using 1(1)[OF 4(1) _ _ 4(4) d] 4(2,3) by (simp add: trusted_host_def) blast
    also have "\<dots> \<longleftrightarrow> (\<exists>p. route env h p \<and> good_route env chain p \<and> assemble_route env p = Some c)"
    proof (rule iffI)
      assume "\<exists>c' q. route env j q \<and> good_route env (chain @ [h_id h]) q \<and>
        assemble_route env q = Some c' \<and> c = assemble env h (Some c')"
      then obtain c' q where q: "route env j q" "good_route env (chain @ [h_id h]) q"
        "assemble_route env q = Some c'" "c = assemble env h (Some c')" by blast
      then have "route env h (h # q)" "good_route env chain (h # q)" "assemble_route env (h # q) = Some c"
        using 4 1(2) by (simp_all add: route_step good_route_Cons)
      then show "\<exists>p. route env h p \<and> good_route env chain p \<and> assemble_route env p = Some c" by blast
    next
      assume "\<exists>p. route env h p \<and> good_route env chain p \<and> assemble_route env p = Some c"
      then obtain q where "route env j q" "good_route env chain (h # q)" "assemble_route env (h # q) = Some c"
        using 4 by (auto simp: route_step)
      moreover from this(1) obtain c' where "assemble_route env q = Some c'"
        using route_Cons[of env j q] by auto
      ultimately show "\<exists>c' q. route env j q \<and> good_route env (chain @ [h_id h]) q \<and>
        assemble_route env q = Some c' \<and> c = assemble env h (Some c')"
        by (auto simp: good_route_Cons)
    qed
    finally show ?thesis .
  qed
qed

text \<open>The hops of a connection, and their number.\<close>

primrec hops :: "connection \<Rightarrow> connection list" where
  "hops (Connection a b c d e jump f g h i j k l m n) =
     Connection a b c d e jump f g h i j k l m n # (case map_option hops jump of None \<Rightarrow> [] | Some hs \<Rightarrow> hs)"

lemma hops_assemble:
  "hops (assemble env h jump) = assemble env h jump # (case jump of None \<Rightarrow> [] | Some c \<Rightarrow> hops c)"
  by (simp add: assemble_def Let_def split: option.split)

lemma hops_route: "assemble_route env p = Some c \<Longrightarrow> map bc_hostname (hops c) = map h_hostname p"
proof (induction p arbitrary: c)
  case (Cons h p)
  then show ?case
    by (cases p) (auto simp: hops_assemble simp: assemble_def Let_def)
qed simp

text \<open>C5: A connection request is built exactly when following the jump hosts from the host comes to an
  end, meets no host twice, and every host on the way that asks for a trusted key has one; the request
  is then the one that route stands for, hop by hop. The recursion returns a request or an error for
  every inventory, cyclic or not.\<close>

theorem connection_built_iff_route:
  "(buildBackendConnection env h = Inr c \<longleftrightarrow>
     (\<exists>p. route env h p \<and> good_route env [] p \<and> assemble_route env p = Some c)) \<and>
   ((\<exists>e. buildBackendConnection env h = Inl e) \<or> (\<exists>c. buildBackendConnection env h = Inr c))"
  unfolding buildBackendConnection_def
  by (rule conjI, rule build_route, simp) (cases "buildBackendConnectionRecursive env h []", blast+)

lemma route_hosts: "route env h p \<Longrightarrow> h_id ` set (tl p) \<subseteq> h_id ` set (ce_hosts env)"
proof (induction rule: route.induct)
  case (next_hop h j p)
  obtain q where "p = j # q" using route_Cons[OF next_hop(3)] by blast
  moreover have "j \<in> set (ce_hosts env)"
    using next_hop(2) find_Some_set by (fastforce simp: jump_target_def)
  ultimately show ?case using next_hop(4) by auto
qed simp

lemma distinct_ids_length:
  assumes "distinct (map h_id p)" "h_id ` set p \<subseteq> h_id ` set hosts"
  shows "length p \<le> length hosts"
proof -
  have "length p = card (h_id ` set p)" using assms(1) by (metis distinct_card length_map list.set_map)
  also have "\<dots> \<le> card (h_id ` set hosts)" using assms(2) by (simp add: card_mono)
  also have "\<dots> \<le> length hosts" by (metis card_length length_map list.set_map)
  finally show ?thesis .
qed

lemma hop_trusted:
  assumes "assemble_route env p = Some c" "list_all (trusted_host env) p" "b \<in> set (hops c)"
    and "bc_hostKeyPolicy b = RequireTrusted" "hostSupportsTrustedKeys (bc_protocol b)"
  shows "\<exists>n \<in> set (ce_knownHosts env). n_hostname n = bc_hostname b \<and> number_eq (n_port n) (bc_port b) \<and>
    bc_knownHostPublicKey b = Some (n_publicKey n) \<and> bc_knownHostAlgorithm b = Some (n_algorithm n)"
  using assms
proof (induction p arbitrary: c)
  case (Cons h p)
  then have c: "c = assemble env h (assemble_route env p)" by simp
  then consider "b = c" | c' where "assemble_route env p = Some c'" "b \<in> set (hops c')"
    using Cons.prems(3) by (cases "assemble_route env p") (auto simp: hops_assemble)
  then show ?case
  proof cases
    case 1
    then have "needs_trust h" using c Cons.prems(4,5) by (simp add: needs_trust_def assemble_def Let_def)
    then obtain n where n: "known_of env h = Some n" using Cons.prems(2) by (auto simp: trusted_host_def)
    then have "n \<in> set (ce_knownHosts env) \<and> n_hostname n = h_hostname h \<and> number_eq (n_port n) (h_port h)"
      using find_Some_set by (fastforce simp: known_of_def findKnownHostMatch_def)
    with 1 n c show ?thesis by (auto simp: assemble_def Let_def)
  next
    case 2
    then show ?thesis using Cons.IH[OF 2(1) _ 2(2)] Cons.prems by simp
  qed
qed simp

text \<open>C6: No request passes through a host that asks for a trusted key without the public key and the
  algorithm of a record of the trusted keys for exactly that address; and no request has more hops
  than the inventory has hosts, plus the host itself.\<close>

theorem connection_hops_trusted:
  assumes "buildBackendConnection env h = Inr c"
  shows "(\<forall>b \<in> set (hops c). bc_hostKeyPolicy b = RequireTrusted \<and> hostSupportsTrustedKeys (bc_protocol b) \<longrightarrow>
      (\<exists>n \<in> set (ce_knownHosts env). n_hostname n = bc_hostname b \<and> number_eq (n_port n) (bc_port b) \<and>
         bc_knownHostPublicKey b = Some (n_publicKey n) \<and> bc_knownHostAlgorithm b = Some (n_algorithm n))) \<and>
    length (hops c) \<le> Suc (length (ce_hosts env))"
proof -
  obtain p where p: "route env h p" "good_route env [] p" "assemble_route env p = Some c"
    using assms by (auto simp: buildBackendConnection_def build_route)
  then have "length (tl p) \<le> length (ce_hosts env)"
    using route_hosts[OF p(1)] by (intro distinct_ids_length) (auto simp: good_route_def distinct_tl map_tl)
  moreover have "length (hops c) = length p" using hops_route[OF p(3)] by (metis length_map)
  ultimately show ?thesis using hop_trusted[OF p(3)] p(2) by (auto simp: good_route_def)
qed

definition demo_env :: connection_env where
  "demo_env = \<lparr>ce_knownHosts = sampleKnownHosts, ce_secrets = secrets_initial, ce_identities = [],
     ce_hosts = sampleHosts\<rparr>"

lemma connection_hops_trusted_witness:
  "\<exists>c. buildBackendConnection demo_env (hd sampleHosts) = Inr c \<and> length (hops c) \<le> 5"
proof -
  have "\<exists>c. buildBackendConnection demo_env (hd sampleHosts) = Inr c"
    unfolding buildBackendConnection_def
    by (subst buildBackendConnectionRecursive.simps)
      (simp add: needs_jump_def known_of_def findKnownHostMatch_def number_eq_def demo_env_def sampleHosts_def
        sampleKnownHosts_def)
  then obtain c where "buildBackendConnection demo_env (hd sampleHosts) = Inr c" by blast
  with connection_hops_trusted[OF this] show ?thesis by (auto simp: demo_env_def sampleHosts_def)
qed

subsection \<open>What the terminal builds\<close>

lemma only_known_other:
  "h_hostname j \<noteq> h_hostname h \<Longrightarrow> known_of (env\<lparr>ce_knownHosts := only_known h k\<rparr>) j = None"
  by (auto simp: known_of_def findKnownHostMatch_def only_known_def split: option.split)

text \<open>The variant of the builder that is given the trusted key of the host itself knows no other
  trusted key. So a host behind a jump host that asks for a trusted key can never be reached with
  it, however many keys the user has trusted: the request always fails with an error.\<close>

theorem restore_through_jump_host_fails:
  assumes "needs_jump h" "jump_target env h = Some j" "needs_trust j" "h_hostname j \<noteq> h_hostname h"
  shows "\<exists>e. buildBackendConnectionFromKnownHost env h k = Inl e"
proof (rule ccontr)
  let ?env = "env\<lparr>ce_knownHosts := only_known h k\<rparr>"
  assume "\<nexists>e. buildBackendConnectionFromKnownHost env h k = Inl e"
  then obtain c where "buildBackendConnectionFromKnownHost env h k = Inr c"
    by (cases "buildBackendConnectionFromKnownHost env h k") auto
  then obtain p where p: "route ?env h p" "good_route ?env [] p"
    by (auto simp: buildBackendConnectionFromKnownHost_def build_route)
  have "jump_target ?env h = Some j" using assms(2) by (simp add: jump_target_def)
  with p(1) obtain q where "p = h # q" "route ?env j q" using route_step[OF assms(1), of ?env j p] by auto
  moreover obtain r where "q = j # r" using route_Cons[OF \<open>route ?env j q\<close>] by blast
  ultimately have "trusted_host ?env j" using p(2) by (simp add: good_route_def)
  then show False using assms(3) only_known_other[OF assms(4)] by (simp add: trusted_host_def)
qed

text \<open>An inventory in which the billing host sits behind the gateway, both trusted.\<close>

definition behind_gateway :: host where
  "behind_gateway = (sampleHosts ! 1)\<lparr>h_jumpHostId := Some ''prod-gateway''\<rparr>"

lemma restore_through_jump_host_fails_witness:
  "(\<exists>c. buildBackendConnection demo_env behind_gateway = Inr c) \<and>
   (\<exists>e. buildBackendConnectionFromKnownHost demo_env behind_gateway (Some (''ssh-ed25519'', ''AAAA'')) = Inl e)"
proof
  have "needs_jump behind_gateway" "\<not> needs_jump (hd sampleHosts)"
    "jump_target demo_env behind_gateway = Some (hd sampleHosts)"
    by (simp_all add: behind_gateway_def sampleHosts_def needs_jump_def hostSupportsJumpHosts_def
        jump_target_def demo_env_def)
  then have "route demo_env behind_gateway [behind_gateway, hd sampleHosts]"
    using next_hop last_hop by blast
  moreover have "good_route demo_env [] [behind_gateway, hd sampleHosts]"
    by (simp add: good_route_def behind_gateway_def sampleHosts_def trusted_host_def known_of_def
        findKnownHostMatch_def number_eq_def demo_env_def sampleKnownHosts_def)
  moreover have "\<exists>c. assemble_route demo_env [behind_gateway, hd sampleHosts] = Some c" by simp
  ultimately show "\<exists>c. buildBackendConnection demo_env behind_gateway = Inr c"
    unfolding buildBackendConnection_def using build_route[of "[]" demo_env behind_gateway] by fastforce
  show "\<exists>e. buildBackendConnectionFromKnownHost demo_env behind_gateway (Some (''ssh-ed25519'', ''AAAA'')) = Inl e"
    by (rule restore_through_jump_host_fails[of _ _ "hd sampleHosts"])
      (simp_all add: behind_gateway_def sampleHosts_def needs_jump_def hostSupportsJumpHosts_def
        jump_target_def demo_env_def needs_trust_def hostSupportsTrustedKeys_def defaultHostKeyPolicy_def)
qed

text \<open>A terminal pane connects directly, as the host's own user, whatever jump host and identity the
  host has.\<close>

lemma terminal_connects_directly:
  assumes "buildBackendConnectionFromKnownHost env (terminal_host h) k = Inr c"
  shows "bc_jumpHost c = None \<and> bc_username c = h_username h \<and> bc_authMethod c = h_authMethod h"
proof -
  let ?env = "env\<lparr>ce_knownHosts := only_known (terminal_host h) k\<rparr>"
  have "\<not> needs_jump (terminal_host h)" by (simp add: needs_jump_def terminal_host_def)
  then have "c = assemble ?env (terminal_host h) None"
    using assms unfolding buildBackendConnectionFromKnownHost_def
    by (subst (asm) buildBackendConnectionRecursive.simps) (auto split: if_splits)
  then show ?thesis
    by (simp add: assemble_def Let_def effective_username_def effective_auth_def terminal_host_def
        resolveIdentityForHost_def)
qed

end
