(* ===== verification/Cascade.thy ===== *)
theory Cascade
  imports SessionsProps Keys Snippets Transfers Connections
begin

section \<open>Deleting a host everywhere (\<open>store/cascade-actions.ts\<close>)\<close>

text \<open>
  The stores that refer to hosts, together, and the action that deletes a host from all of them.
  The stores share one map of tombstones.
\<close>

record 'k app =
  a_hosts :: "host list"
  a_vault :: deletion_map
  a_keys :: "key list"
  a_snippets :: "snippet list"
  a_sessions :: sessions
  a_transfers :: transfers
  a_secrets :: secrets_memory
  a_keychain :: 'k

text \<open>The result also holds the backend sessions that are asked to close.\<close>

definition deleteHostAndCascade ::
    "(string \<Rightarrow> int option) \<Rightarrow> (string \<Rightarrow> string \<Rightarrow> int) \<Rightarrow> 'k os_keychain \<Rightarrow> bool \<Rightarrow> int \<Rightarrow> string \<Rightarrow>
     string \<Rightarrow> 'k app \<Rightarrow> string list \<times> 'k app" where
  "deleteHostAndCascade dp lc os tauri ms now hostId a =
     (let w = deleteHost dp lc ms now hostId (a_hosts a, a_vault a);
          c = clearHostSecrets os tauri hostId (a_secrets a, a_keychain a);
          p = closePanesForHost hostId (a_sessions a)
      in (fst p, a\<lparr>
        a_hosts := fst w, a_vault := snd w,
        a_secrets := fst c, a_keychain := snd c,
        a_keys := unassignHostFromAll lc hostId (a_keys a),
        a_snippets := removeHostFromAllTargets lc hostId (a_snippets a),
        a_sessions := snd p,
        a_transfers := (if xs_activeHostId (a_transfers a) = Some hostId
                        then setActiveHost None (a_transfers a) else a_transfers a)\<rparr>))"

text \<open>
  The host is gone and no other store names it. The field \<open>jumpHostId\<close> of the other hosts is left out:
  the action does not touch it.
\<close>

definition gone_from_stores :: "string \<Rightarrow> 'k app \<Rightarrow> bool" where
  "gone_from_stores hostId a \<longleftrightarrow>
     list_all (\<lambda>h. h_id h \<noteq> hostId) (a_hosts a) \<and>
     list_all (\<lambda>k. hostId \<notin> set (k_assignedHostIds k)) (a_keys a) \<and>
     list_all (\<lambda>s. hostId \<notin> set (s_targetHostIds s)) (a_snippets a) \<and>
     list_all (\<lambda>(i, p). p_hostId p \<noteq> hostId) (ss_panes (a_sessions a)) \<and>
     xs_activeHostId (a_transfers a) \<noteq> Some hostId \<and>
     obj_get (sm_secrets (a_secrets a)) hostId = None"

lemma closePanesForHost_gone:
  assumes "workspace_ok s"
  shows "list_all (\<lambda>(i, p). p_hostId p \<noteq> h) (ss_panes (snd (closePanesForHost h s)))"
proof -
  have "workspace_ok (snd (closePanesForHost h s))" using assms by (rule closePanesForHost_ok)
  then have wf: "obj_wf (ss_panes (snd (closePanesForHost h s)))" by (simp add: workspace_ok_def panes_wf_def)
  have "p_hostId p \<noteq> h" if "(i, p) \<in> set (ss_panes (snd (closePanesForHost h s)))" for i p
  proof -
    have "obj_get (ss_panes (snd (closePanesForHost h s))) i = Some p" using that obj_wf_get[OF wf] by simp
    then show ?thesis using closePanesForHost_panes[OF assms] set_panes_of_host[of s i h] assms
      by (auto simp: workspace_ok_def split: if_splits option.splits)
  qed
  then show ?thesis by (auto simp: list_all_iff)
qed

lemma unassign_gone: "k \<in> set (unassignHostFromAll lc h keys) \<Longrightarrow> h \<notin> set (k_assignedHostIds k)"
  by (auto simp: unassignHostFromAll_def sortKeys_def)

lemma delete_gone: "x \<in> set (deleteHostFromCollection lc hosts h) \<Longrightarrow> h_id x \<noteq> h"
  by (auto simp: deleteHostFromCollection_def sortHostCollection_def)

text \<open>C22: deleting a host with the cascade takes the host and everything filed under it, and nothing
  else. The host records that stay are the other ones, in their normal form; keys and saved commands
  stay, without the host among their assignments and targets; the panes of other hosts stay as they
  are, none of the host does, and the session workspace is consistent; the transfers no longer have it
  as their active host; its secrets are no longer in memory, those of other hosts are, and in the
  keychain no entry of another identifier has changed. Not covered are the \<open>jumpHostId\<close> fields of the
  other hosts: they keep naming the deleted host. The session workspace is consistent before, and the
  keychain keeps its entries apart.\<close>

theorem cascade_removes_exactly_the_host:
  assumes "workspace_ok (a_sessions a)" "lawful_keychain os"
  shows "let a' = snd (deleteHostAndCascade dp lc os tauri ms now hostId a);
      without = filter (\<lambda>i. i \<noteq> hostId) in
    gone_from_stores hostId a' \<and> workspace_ok (a_sessions a') \<and>
    set (a_hosts a') = normalize_host ` {h \<in> set (a_hosts a). h_id h \<noteq> hostId} \<and>
    set (a_keys a') = (\<lambda>k. k\<lparr>k_assignedHostIds := without (k_assignedHostIds k)\<rparr>) ` set (a_keys a) \<and>
    set (a_snippets a') = (\<lambda>s. s\<lparr>s_targetHostIds := without (s_targetHostIds s)\<rparr>) ` set (a_snippets a) \<and>
    (\<forall>i p. obj_get (ss_panes (a_sessions a')) i = Some p \<longleftrightarrow>
       obj_get (ss_panes (a_sessions a)) i = Some p \<and> p_hostId p \<noteq> hostId) \<and>
    (\<forall>i. i \<noteq> hostId \<longrightarrow> obj_get (sm_secrets (a_secrets a')) i = obj_get (sm_secrets (a_secrets a)) i) \<and>
    (\<forall>s i. i \<noteq> hostId \<longrightarrow> os_read os (a_keychain a') s i = os_read os (a_keychain a) s i)"
proof -
  have keychain: "os_read os (swallow (clearNativeHostSecrets os tauri hostId) k) s i = os_read os k s i"
    if "i \<noteq> hostId" for k s i
  proof -
    have del: "os_read os k2 s i = os_read os k1 s i" if "os_delete os k1 t hostId = (r, k2)" for t r k1 k2
      using that \<open>i \<noteq> hostId\<close> lawful_keychain.delete_ok[OF assms(2), of k1 t hostId k2 s i]
        lawful_keychain.delete_failed[OF assms(2), of k1 t hostId _ k2 s i] by (cases r) auto
    obtain r1 k1 where 1: "os_delete os k KEYCHAIN_PASSWORD_SERVICE hostId = (r1, k1)"
      by (cases "os_delete os k KEYCHAIN_PASSWORD_SERVICE hostId")
    obtain r2 k2 where 2: "os_delete os k1 KEYCHAIN_PASSPHRASE_SERVICE hostId = (r2, k2)"
      by (cases "os_delete os k1 KEYCHAIN_PASSPHRASE_SERVICE hostId")
    show ?thesis using 1 2 del[OF 1] del[OF 2]
      by (cases r1) (simp_all add: swallow_def clearNativeHostSecrets_def returns_def awaits_def
          delete_keychain_secret_def)
  qed
  let ?a = "snd (deleteHostAndCascade dp lc os tauri ms now hostId a)"
  have "gone_from_stores hostId ?a"
    using closePanesForHost_gone[OF assms(1), of hostId]
    by (auto simp: deleteHostAndCascade_def Let_def gone_from_stores_def deleteHost_def clearHostSecrets_def
        clear_memory_def setActiveHost_def list_all_iff dest: unassign_gone untargeted delete_gone)
  moreover have "workspace_ok (a_sessions ?a)"
    using closePanesForHost_ok[OF assms(1), of hostId] by (simp add: deleteHostAndCascade_def Let_def)
  moreover have "set (a_hosts ?a) = normalize_host ` {h \<in> set (a_hosts a). h_id h \<noteq> hostId}"
    by (auto simp: deleteHostAndCascade_def Let_def deleteHost_def deleteHostFromCollection_def)
  moreover have "set (a_keys ?a) =
      (\<lambda>k. k\<lparr>k_assignedHostIds := filter (\<lambda>i. i \<noteq> hostId) (k_assignedHostIds k)\<rparr>) ` set (a_keys a)"
    "set (a_snippets ?a) =
      (\<lambda>s. s\<lparr>s_targetHostIds := filter (\<lambda>i. i \<noteq> hostId) (s_targetHostIds s)\<rparr>) ` set (a_snippets a)"
    by (simp_all add: deleteHostAndCascade_def Let_def unassignHostFromAll_def removeHostFromAllTargets_def sortSnippets_def)
  moreover have "obj_get (ss_panes (a_sessions ?a)) i = Some p \<longleftrightarrow>
      obj_get (ss_panes (a_sessions a)) i = Some p \<and> p_hostId p \<noteq> hostId" for i p
    using closePanesForHost_panes[OF assms(1), of hostId i] set_panes_of_host[of "a_sessions a" i hostId] assms(1)
    by (auto simp: deleteHostAndCascade_def Let_def workspace_ok_def)
  moreover have "obj_get (sm_secrets (a_secrets ?a)) i = obj_get (sm_secrets (a_secrets a)) i" if "i \<noteq> hostId" for i
    using that by (simp add: deleteHostAndCascade_def Let_def clearHostSecrets_def clear_memory_def obj_get_del)
  moreover have "os_read os (a_keychain ?a) s i = os_read os (a_keychain a) s i" if "i \<noteq> hostId" for s i
    using keychain[OF that] by (cases tauri) (simp_all add: deleteHostAndCascade_def Let_def clearHostSecrets_def)
  ultimately show ?thesis unfolding Let_def by (intro conjI allI impI)
qed

definition fresh_app :: "(string \<times> string \<Rightarrow> string option) app" where
  "fresh_app = \<lparr>a_hosts = sampleHosts, a_vault = emptyDeletionMap, a_keys = sampleKeys,
     a_snippets = sampleSnippets, a_sessions = sessions_initial, a_transfers = transfers_initial,
     a_secrets = secrets_initial, a_keychain = (\<lambda>_. None)\<rparr>"

lemma initial_workspace_ok: "workspace_ok sessions_initial"
  by (simp add: workspace_ok_def sessions_initial_def tabs_wf_def panes_wf_def active_ok_def)

lemma cascade_removes_exactly_the_host_witness:
  "gone_from_stores ''billing-api'' (snd (deleteHostAndCascade (\<lambda>_. None) code_unit_compare map_keychain True 0
     ''t'' ''billing-api'' fresh_app))"
  using cascade_removes_exactly_the_host[OF _ map_keychain.lawful_keychain_axioms, of fresh_app]
    initial_workspace_ok by (simp add: Let_def fresh_app_def)

lemma jump_target_missing:
  assumes "needs_jump h" "jump_target env h = None"
  shows "\<exists>e. buildBackendConnection env h = Inl e"
  using assms unfolding buildBackendConnection_def
  by (subst buildBackendConnectionRecursive.simps) auto

lemma normalize_host_jump:
  "h_id (normalize_host h) = h_id h" "h_protocol (normalize_host h) = h_protocol h"
  "needs_jump h \<Longrightarrow> h_jumpHostId (normalize_host h) = h_jumpHostId h"
  by (simp_all add: normalize_host_def normalizeHostRecord_def as_raw_def Let_def needs_jump_def)

text \<open>The cascade does not reach the hosts behind a deleted jump host, although its comment promises
  that no stale reference is left: such a host still names the deleted host, and connecting to it is
  an error from then on.\<close>

theorem cascade_strands_jump_users:
  assumes "h \<in> set (a_hosts a)" "h_id h \<noteq> hostId" "needs_jump h" "h_jumpHostId h = Some hostId"
    and "a' = snd (deleteHostAndCascade dp lc os tauri ms now hostId a)"
  shows "\<exists>h' \<in> set (a_hosts a'). h_id h' = h_id h \<and> h_jumpHostId h' = Some hostId \<and>
    (\<exists>e. buildBackendConnection (env\<lparr>ce_hosts := a_hosts a'\<rparr>) h' = Inl e)"
proof (rule bexI[of _ "normalize_host h"])
  let ?h = "normalize_host h"
  show "?h \<in> set (a_hosts a')"
    using assms(1,2) by (auto simp: assms(5) deleteHostAndCascade_def Let_def deleteHost_def
        deleteHostFromCollection_def sortHostCollection_def)
  have "jump_target (env\<lparr>ce_hosts := a_hosts a'\<rparr>) ?h = None"
    using assms(3,4) delete_gone by (auto simp: jump_target_def find_None_set normalize_host_jump assms(5)
        deleteHostAndCascade_def Let_def deleteHost_def)
  moreover have "needs_jump ?h" using assms(3) by (simp add: needs_jump_def normalize_host_jump)
  ultimately show "h_id ?h = h_id h \<and> h_jumpHostId ?h = Some hostId \<and>
      (\<exists>e. buildBackendConnection (env\<lparr>ce_hosts := a_hosts a'\<rparr>) ?h = Inl e)"
    using assms(3,4) jump_target_missing by (simp add: normalize_host_jump)
qed

lemma cascade_strands_jump_users_witness:
  "\<exists>h' \<in> set (a_hosts (snd (deleteHostAndCascade (\<lambda>_. None) code_unit_compare map_keychain True 0 ''t''
      ''prod-gateway'' (fresh_app\<lparr>a_hosts := [behind_gateway, hd sampleHosts]\<rparr>)))).
    h_jumpHostId h' = Some ''prod-gateway''"
proof -
  have "needs_jump behind_gateway" "h_id behind_gateway \<noteq> ''prod-gateway''"
    "h_jumpHostId behind_gateway = Some ''prod-gateway''"
    by (simp_all add: behind_gateway_def sampleHosts_def needs_jump_def hostSupportsJumpHosts_def)
  from cascade_strands_jump_users[OF _ this(2,1,3) refl, of "fresh_app\<lparr>a_hosts := [behind_gateway, hd sampleHosts]\<rparr>"]
  show ?thesis by fastforce
qed

end
