(* ===== verification/Globs.thy ===== *)
theory Globs
  imports Strings
begin

section \<open>Patterns of an OpenSSH configuration (\<open>lib/ssh-config.ts\<close>)\<close>

text \<open>
  \<open>matchesGlob\<close> is the iterative matcher with one saved position, over indices as in the code;
  \<open>glob\<close> is what a pattern means. The matcher tests a literal match before it tests for \<open>*\<close>, so it
  agrees with the meaning for values without a \<open>*\<close>.
\<close>

subsection \<open>The matcher\<close>

text \<open>\<open>star\<close> is the pair \<open>(starP, starV)\<close>, \<open>None\<close> for \<open>starP = -1\<close>.\<close>

function glob_loop :: "string \<Rightarrow> string \<Rightarrow> nat \<Rightarrow> nat \<Rightarrow> (nat \<times> nat) option \<Rightarrow> bool" where
  "glob_loop p v pi vi star =
     (if vi < length v then
        if pi < length p \<and> (p ! pi = CHR ''?'' \<or> p ! pi = v ! vi) then
          glob_loop p v (Suc pi) (Suc vi) star
        else if pi < length p \<and> p ! pi = CHR ''*'' then glob_loop p v (Suc pi) vi (Some (pi, vi))
        else (case star of
            Some (sp, sv) \<Rightarrow> glob_loop p v (Suc sp) (Suc sv) (Some (sp, Suc sv))
          | None \<Rightarrow> False)
      else dropWhile (\<lambda>c. c = CHR ''*'') (drop pi p) = [])"
  by pat_completeness auto

text \<open>
  A state is regular when the saved star is before the position in the pattern; every other state
  becomes regular at its first step or reads on.
\<close>

fun glob_rank :: "string \<Rightarrow> nat \<Rightarrow> (nat \<times> nat) option \<Rightarrow> nat" where
  "glob_rank p pi None = Suc (length p)"
| "glob_rank p pi (Some (sp, sv)) = (if sp < pi then length p - sp else Suc (length p))"

termination glob_loop
proof (relation "measures
    [\<lambda>(p, v, pi, vi, star). glob_rank p pi star,
     \<lambda>(p, v, pi, vi, star). case star of None \<Rightarrow> 0 | Some (sp, sv) \<Rightarrow> length v - sv,
     \<lambda>(p, v, pi, vi, star). if vi < length v then Suc (length v - vi + (length p - pi)) else 0]",
    goal_cases)
  case 1
  show ?case by simp
next
  case (2 p v pi vi star)
  then show ?case by (cases star) (auto split: if_splits)
next
  case (3 p v pi vi star)
  then show ?case by (cases star) (auto split: if_splits)
next
  case (4 p v pi vi star x sp sv)
  then show ?case by (auto split: if_splits)
qed

declare glob_loop.simps [simp del]

definition matchesGlob :: "string \<Rightarrow> string \<Rightarrow> bool" where
  "matchesGlob pattern v = glob_loop pattern v 0 0 None"

fun pattern_list_loop :: "string list \<Rightarrow> string \<Rightarrow> bool \<Rightarrow> bool \<Rightarrow> bool" where
  "pattern_list_loop [] v hasPositive positiveHit = (if hasPositive then positiveHit else True)"
| "pattern_list_loop (p # ps) v hasPositive positiveHit =
     (if p = [] then pattern_list_loop ps v hasPositive positiveHit
      else if starts_with ''!'' p then
        if matchesGlob (drop 1 p) v then False else pattern_list_loop ps v hasPositive positiveHit
      else pattern_list_loop ps v True (if matchesGlob p v then True else positiveHit))"

definition patternListMatches :: "string list \<Rightarrow> string \<Rightarrow> bool" where
  "patternListMatches patterns v = pattern_list_loop patterns v False False"

subsection \<open>What a pattern means\<close>

fun glob :: "string \<Rightarrow> string \<Rightarrow> bool" where
  "glob [] v = (v = [])"
| "glob (c # p) v =
     (if c = CHR ''*'' then list_ex (\<lambda>k. glob p (drop k v)) [0..<Suc (length v)]
      else v \<noteq> [] \<and> (c = CHR ''?'' \<or> c = hd v) \<and> glob p (tl v))"

declare glob.simps(2) [simp del]

lemma glob_star: "glob (CHR ''*'' # p) v \<longleftrightarrow> (\<exists>k \<le> length v. glob p (drop k v))"
  by (auto simp: glob.simps(2) list_ex_iff less_Suc_eq_le simp del: upt_Suc)

lemma glob_char:
  "c \<noteq> CHR ''*'' \<Longrightarrow> glob (c # p) v \<longleftrightarrow> v \<noteq> [] \<and> (c = CHR ''?'' \<or> c = hd v) \<and> glob p (tl v)"
  by (simp add: glob.simps(2))

lemma glob_star_suffix: "glob (CHR ''*'' # p) (drop k v) \<Longrightarrow> j \<le> k \<Longrightarrow> glob (CHR ''*'' # p) (drop j v)"
proof -
  assume *: "glob (CHR ''*'' # p) (drop k v)" "j \<le> k"
  then obtain i where i: "i \<le> length v - k" "glob p (drop (i + k) v)" by (auto simp: glob_star)
  show "glob (CHR ''*'' # p) (drop j v)"
  proof (cases "k \<le> length v")
    case True
    then have "i + k - j \<le> length v - j" using i(1) by linarith
    moreover have "drop (i + k - j) (drop j v) = drop (i + k) v" using *(2) by (simp add: add.commute)
    ultimately show ?thesis using i(2) unfolding glob_star by (metis length_drop)
  next
    case False
    then have "glob p []" using i by simp
    then show ?thesis unfolding glob_star
      by (intro exI[of _ "length (drop j v)"]) (simp add: drop_all)
  qed
qed

text \<open>A part of a pattern without a star takes one character each.\<close>

lemma glob_append_plain:
  "CHR ''*'' \<notin> set s \<Longrightarrow> glob (s @ p) v \<Longrightarrow> length s \<le> length v \<and> glob p (drop (length s) v)"
proof (induction s arbitrary: v)
  case (Cons c s)
  then have "v \<noteq> []" "glob (s @ p) (tl v)" by (auto simp: glob_char)
  with Cons.IH[of "tl v"] Cons.prems(1) show ?case by (cases v) auto
qed simp

lemma glob_empty: "glob p [] \<longleftrightarrow> dropWhile (\<lambda>c. c = CHR ''*'') p = []"
proof (induction p)
  case (Cons c p)
  then show ?case by (cases "c = CHR ''*''") (simp_all add: glob_star glob_char)
qed simp

lemma glob_step:
  assumes "pi < length p" "vi < length v" "p ! pi = CHR ''?'' \<or> p ! pi = v ! vi" "CHR ''*'' \<notin> set v"
  shows "glob (drop pi p) (drop vi v) \<longleftrightarrow> glob (drop (Suc pi) p) (drop (Suc vi) v)"
proof -
  have "v ! vi \<in> set v" using assms(2) by simp
  then have "v ! vi \<noteq> CHR ''*''" using assms(4) by metis
  then have "p ! pi \<noteq> CHR ''*''" using assms(3) by auto
  then show ?thesis using assms(1-3)
    by (simp add: glob_char hd_drop_conv_nth Cons_nth_drop_Suc[symmetric, of pi p] drop_Suc tl_drop)
qed

lemma glob_mismatch:
  assumes "vi < length v" "\<not> (pi < length p \<and> (p ! pi = CHR ''?'' \<or> p ! pi = v ! vi))"
    and "\<not> (pi < length p \<and> p ! pi = CHR ''*'')"
  shows "\<not> glob (drop pi p) (drop vi v)"
proof (cases "pi < length p")
  case True
  then show ?thesis using assms
    by (simp add: glob_char hd_drop_conv_nth Cons_nth_drop_Suc[symmetric, of pi p])
qed (use assms(1) in simp)

subsection \<open>The matcher decides the meaning\<close>

text \<open>What is known of the saved star: the part of the pattern after it has no star and has taken the
  part of the value after it.\<close>

definition saved_ok :: "string \<Rightarrow> nat \<Rightarrow> nat \<Rightarrow> nat \<times> nat \<Rightarrow> bool" where
  "saved_ok p pi vi star \<longleftrightarrow> (case star of (sp, sv) \<Rightarrow>
     sp < pi \<and> pi \<le> length p \<and> sv \<le> vi \<and> pi - Suc sp = vi - sv \<and>
     CHR ''*'' \<notin> set (take (pi - Suc sp) (drop (Suc sp) p)))"

definition later_match :: "string \<Rightarrow> string \<Rightarrow> nat \<times> nat \<Rightarrow> bool" where
  "later_match p v star \<longleftrightarrow> (case star of (sp, sv) \<Rightarrow>
     \<exists>k. sv < k \<and> k \<le> length v \<and> glob (drop (Suc sp) p) (drop k v))"

lemma later_match_rest:
  assumes "saved_ok p pi vi (sp, sv)" "later_match p v (sp, sv)"
  shows "\<exists>k. vi < k \<and> k \<le> length v \<and> glob (drop pi p) (drop k v)"
proof -
  let ?s = "take (pi - Suc sp) (drop (Suc sp) p)"
  obtain k where k: "sv < k" "k \<le> length v" "glob (drop (Suc sp) p) (drop k v)"
    using assms(2) by (auto simp: later_match_def)
  have "sp < pi" using assms(1) by (simp add: saved_ok_def)
  then have "pi - Suc sp + Suc sp = pi" by simp
  then have "drop (pi - Suc sp) (drop (Suc sp) p) = drop pi p" by (simp only: drop_drop)
  then have split: "drop (Suc sp) p = ?s @ drop pi p" by (metis append_take_drop_id)
  have s: "CHR ''*'' \<notin> set ?s" "length ?s = vi - sv" "sv \<le> vi"
    using assms(1) by (auto simp: saved_ok_def)
  from k(3) have "glob (?s @ drop pi p) (drop k v)" by (simp only: split[symmetric])
  from glob_append_plain[OF s(1) this] k(1,2) s(2,3)
  show ?thesis by (intro exI[of _ "vi - sv + k"]) (auto simp: add.commute)
qed

lemma saved_ok_take:
  assumes "saved_ok p pi vi s" "pi < length p" "p ! pi \<noteq> CHR ''*''"
  shows "saved_ok p (Suc pi) (Suc vi) s"
proof -
  obtain sp sv where s: "s = (sp, sv)" by (cases s)
  let ?n = "pi - Suc sp"
  have lt: "sp < pi" using assms(1) s by (simp add: saved_ok_def)
  then have "take (Suc ?n) (drop (Suc sp) p) = take ?n (drop (Suc sp) p) @ [p ! pi]"
    using assms(2) by (subst take_Suc_conv_app_nth) auto
  moreover have "Suc pi - Suc sp = Suc ?n" using lt by simp
  ultimately show ?thesis using assms s by (auto simp add: saved_ok_def Suc_diff_le)
qed

text \<open>A star that has just been saved, and a star that takes one more character.\<close>

lemma later_match_now:
  assumes "pi < length p" "p ! pi = CHR ''*''" "vi \<le> length v"
  shows "glob (drop (Suc pi) p) (drop vi v) \<or> later_match p v (pi, vi) \<longleftrightarrow> glob (drop pi p) (drop vi v)"
proof -
  have d: "drop pi p = CHR ''*'' # drop (Suc pi) p" using assms by (metis Cons_nth_drop_Suc)
  have "glob (drop pi p) (drop vi v) \<longleftrightarrow> (\<exists>k \<ge> vi. k \<le> length v \<and> glob (drop (Suc pi) p) (drop k v))"
    unfolding d glob_star
  proof (intro iffI; elim exE conjE)
    fix j assume "j \<le> length (drop vi v)" "glob (drop (Suc pi) p) (drop j (drop vi v))"
    then show "\<exists>k\<ge>vi. k \<le> length v \<and> glob (drop (Suc pi) p) (drop k v)"
      using assms(3) by (intro exI[of _ "j + vi"]) auto
  next
    fix k assume "vi \<le> k" "k \<le> length v" "glob (drop (Suc pi) p) (drop k v)"
    then show "\<exists>j \<le> length (drop vi v). glob (drop (Suc pi) p) (drop j (drop vi v))"
      by (intro exI[of _ "k - vi"]) simp
  qed
  also have "\<dots> \<longleftrightarrow> glob (drop (Suc pi) p) (drop vi v) \<or>
      (\<exists>k. vi < k \<and> k \<le> length v \<and> glob (drop (Suc pi) p) (drop k v))"
    using assms(3) by (auto simp: le_less)
  finally show ?thesis by (simp add: later_match_def)
qed

lemma ex_greater_Suc: "(\<exists>k. n < k \<and> P k) \<longleftrightarrow> P (Suc n) \<or> (\<exists>k. Suc n < k \<and> P k)"
  by (metis Suc_lessD Suc_lessI lessI)

lemma later_match_Suc:
  assumes "Suc sv \<le> length v"
  shows "later_match p v (sp, sv) \<longleftrightarrow>
    glob (drop (Suc sp) p) (drop (Suc sv) v) \<or> later_match p v (sp, Suc sv)"
  using ex_greater_Suc[of sv "\<lambda>k. k \<le> length v \<and> glob (drop (Suc sp) p) (drop k v)"] assms
  by (simp only: later_match_def prod.case) blast

lemma glob_loop_correct:
  assumes "CHR ''*'' \<notin> set v" "vi \<le> length v" "\<And>s. star = Some s \<Longrightarrow> saved_ok p pi vi s"
  shows "glob_loop p v pi vi star \<longleftrightarrow>
    glob (drop pi p) (drop vi v) \<or> (\<exists>s. star = Some s \<and> later_match p v s)"
  using assms
proof (induction p v pi vi star rule: glob_loop.induct)
  case (1 p v pi vi star)
  let ?take = "pi < length p \<and> (p ! pi = CHR ''?'' \<or> p ! pi = v ! vi)"
  let ?star = "pi < length p \<and> p ! pi = CHR ''*''"
  consider (at_end) "\<not> vi < length v" | (take) "vi < length v" ?take | (star) "vi < length v" "\<not> ?take" ?star
    | (stop) "vi < length v" "\<not> ?take" "\<not> ?star" by blast
  then show ?case
  proof cases
    case at_end
    have "\<not> later_match p v s" if "star = Some s" for s
      using later_match_rest[of p pi vi "fst s" "snd s" v] 1(6)[OF that] at_end by auto
    moreover have "drop vi v = []" using at_end by simp
    ultimately show ?thesis using at_end by (subst glob_loop.simps) (auto simp: glob_empty simp del: dropWhile_eq_Nil_conv)
  next
    case take
    have "v ! vi \<in> set v" using take(1) by simp
    then have "v ! vi \<noteq> CHR ''*''" using 1(4) by metis
    then have "p ! pi \<noteq> CHR ''*''" using take(2) by auto
    then have "saved_ok p (Suc pi) (Suc vi) s" if "star = Some s" for s
      using 1(6)[OF that] take by (intro saved_ok_take) auto
    then have "glob_loop p v (Suc pi) (Suc vi) star \<longleftrightarrow>
        glob (drop (Suc pi) p) (drop (Suc vi) v) \<or> (\<exists>s. star = Some s \<and> later_match p v s)"
      using 1(1)[OF take 1(4)] take(1) by simp
    with take show ?thesis using glob_step[of pi p vi v] 1(4) by (subst glob_loop.simps) simp
  next
    case star
    have ok: "saved_ok p (Suc pi) vi (pi, vi)" using star by (simp add: saved_ok_def)
    then have "glob_loop p v (Suc pi) vi (Some (pi, vi)) \<longleftrightarrow>
        glob (drop (Suc pi) p) (drop vi v) \<or> later_match p v (pi, vi)"
      using 1(2)[OF star 1(4,5)] by simp
    also have "\<dots> \<longleftrightarrow> glob (drop pi p) (drop vi v)"
      using star 1(5) by (intro later_match_now) auto
    finally have now: "glob_loop p v (Suc pi) vi (Some (pi, vi)) \<longleftrightarrow> glob (drop pi p) (drop vi v)" .
    have "glob (drop pi p) (drop vi v)" if saved: "star = Some s" and later: "later_match p v s" for s
    proof -
      obtain k where k: "vi < k" "glob (drop pi p) (drop k v)"
        using later_match_rest[of p pi vi "fst s" "snd s" v] 1(6)[OF saved] later by auto
      have d: "drop pi p = CHR ''*'' # drop (Suc pi) p" using star by (metis Cons_nth_drop_Suc)
      show ?thesis using k glob_star_suffix unfolding d by (meson less_imp_le)
    qed
    with now star show ?thesis by (subst glob_loop.simps) auto
  next
    case stop
    have no: "\<not> glob (drop pi p) (drop vi v)" using glob_mismatch stop by blast
    show ?thesis
    proof (cases star)
      case None
      with stop no show ?thesis by (subst glob_loop.simps) auto
    next
      case (Some s)
      obtain sp sv where s: "s = (sp, sv)" by (cases s)
      have ok: "saved_ok p pi vi (sp, sv)" using 1(6)[OF Some] s by simp
      then have "Suc sv \<le> length v" "saved_ok p (Suc sp) (Suc sv) (sp, Suc sv)"
        using stop(1) by (auto simp: saved_ok_def)
      then have "glob_loop p v (Suc sp) (Suc sv) (Some (sp, Suc sv)) \<longleftrightarrow>
          glob (drop (Suc sp) p) (drop (Suc sv) v) \<or> later_match p v (sp, Suc sv)"
        using 1(3)[OF stop _ _ 1(4)] Some s by auto
      also have "\<dots> \<longleftrightarrow> later_match p v (sp, sv)"
        by (rule later_match_Suc[symmetric]) fact
      finally show ?thesis using stop no Some s by (subst glob_loop.simps) auto
    qed
  qed
qed

lemma matchesGlob_glob: "CHR ''*'' \<notin> set v \<Longrightarrow> matchesGlob p v = glob p v"
  using glob_loop_correct[of v 0 None p] by (simp add: matchesGlob_def)

text \<open>The iterative matcher with its single saved position always ends and decides what the pattern
  means, \<open>*\<close> any run of characters, \<open>?\<close> any one and every other character itself, for every value
  that does not itself contain a \<open>*\<close>.\<close>

theorem matchesGlob_decides_pattern:
  assumes "CHR ''*'' \<notin> set v"
  shows "matchesGlob p v = glob p v"
  by (rule matchesGlob_glob[OF assms])

lemma matchesGlob_decides_pattern_witness:
  "matchesGlob ''w*b?'' ''web-db1'' = True"
proof -
  have "glob ''w*b?'' ''web-db1''"
    by (simp add: glob_char glob_star) (rule exI[of _ 4], simp add: glob_char)
  then show ?thesis using matchesGlob_decides_pattern[of "''web-db1''" "''w*b?''"] by simp
qed

text \<open>With a \<open>*\<close> in the value the literal test hides the wildcard.\<close>

lemma matchesGlob_literal_star: "glob ''*'' ''*a'' \<and> \<not> matchesGlob ''*'' ''*a''"
proof
  show "glob ''*'' ''*a''" unfolding glob_star by (rule exI[of _ 2]) simp
  show "\<not> matchesGlob ''*'' ''*a''" by (simp add: matchesGlob_def glob_loop.simps)
qed

subsection \<open>Pattern lists\<close>

text \<open>The meaning of a list: no negated pattern matches, and some positive one does if there is one.\<close>

definition negated :: "string \<Rightarrow> bool" where
  "negated p \<longleftrightarrow> starts_with ''!'' p"

definition list_meaning :: "string list \<Rightarrow> string \<Rightarrow> bool" where
  "list_meaning ps v \<longleftrightarrow>
     \<not> list_ex (\<lambda>p. negated p \<and> glob (drop 1 p) v) ps \<and>
     (list_ex (\<lambda>p. p \<noteq> [] \<and> \<not> negated p) ps \<longrightarrow> list_ex (\<lambda>p. p \<noteq> [] \<and> \<not> negated p \<and> glob p v) ps)"

lemma pattern_list_loop_meaning:
  assumes "CHR ''*'' \<notin> set v"
  shows "pattern_list_loop ps v hasPositive positiveHit \<longleftrightarrow>
    \<not> list_ex (\<lambda>p. negated p \<and> glob (drop 1 p) v) ps \<and>
    (hasPositive \<or> list_ex (\<lambda>p. p \<noteq> [] \<and> \<not> negated p) ps \<longrightarrow>
       positiveHit \<or> list_ex (\<lambda>p. p \<noteq> [] \<and> \<not> negated p \<and> glob p v) ps)"
  by (induction ps arbitrary: hasPositive positiveHit)
    (auto simp: negated_def matchesGlob_glob[OF assms])

text \<open>A pattern list matches a value exactly when no pattern of the list that is negated matches it
  and, if the list has a pattern that is not negated, one of those does; in whatever order the
  patterns come. A list of negated patterns only matches everything else.\<close>

theorem patternListMatches_meaning:
  assumes "CHR ''*'' \<notin> set v"
  shows "patternListMatches ps v \<longleftrightarrow> list_meaning ps v"
  by (simp add: patternListMatches_def list_meaning_def pattern_list_loop_meaning[OF assms])

lemma patternListMatches_meaning_witness:
  "patternListMatches [''!db'', ''!?w''] ''web'' \<and> \<not> patternListMatches [''web'', ''!w*''] ''web''"
proof
  show "patternListMatches [''!db'', ''!?w''] ''web''"
    by (subst patternListMatches_meaning) (simp_all add: list_meaning_def negated_def glob_char)
  have "glob ''w*'' ''web''" by (simp add: glob_char glob_star) (rule exI[of _ 2], simp)
  then show "\<not> patternListMatches [''web'', ''!w*''] ''web''"
    by (subst patternListMatches_meaning) (simp_all add: list_meaning_def negated_def)
qed

end
