(* ===== verification/SshConfig.thy ===== *)
theory SshConfig
  imports Globs HostTypes
begin

section \<open>Importing an OpenSSH configuration (\<open>lib/ssh-config.ts\<close>)\<close>

text \<open>
  The parser goes once over the lines, with the open block, the defaults and the finished aliases
  as its state; the blocks of \<open>Match\<close> are applied to all aliases at the end. An option remembers
  the order number of its directive, and the earliest directive wins.
\<close>

record imported_host =
  im_alias :: string
  im_hostname :: string
  im_username :: string
  im_port :: int
  im_privateKeyPath :: string
  im_jump :: "string option"

datatype skip_reason = WildcardOnly | MatchBlock | IncludeDirective | Unparseable | MissingHostname

type_synonym skip = "skip_reason \<times> string"

record import_result =
  ir_hosts :: "imported_host list"
  ir_skipped :: "skip list"
  ir_defaultsApplied :: nat
  ir_unresolved :: "string list"

subsection \<open>Options\<close>

datatype option_key = K_hostname | K_identityFile | K_port | K_proxyJump | K_user

definition option_keys :: "option_key list" where
  "option_keys = [K_hostname, K_identityFile, K_port, K_proxyJump, K_user]"

text \<open>The order number and the value of each option that is set.\<close>

type_synonym ssh_options = "option_key \<Rightarrow> (nat \<times> string) option"

definition no_options :: ssh_options where
  "no_options = (\<lambda>_. None)"

definition setOptionIfUnset :: "ssh_options \<Rightarrow> option_key \<Rightarrow> string \<Rightarrow> nat \<Rightarrow> ssh_options" where
  "setOptionIfUnset o1 k v ord = (if o1 k = None then o1(k := Some (ord, v)) else o1)"

definition optionValue :: "ssh_options \<Rightarrow> option_key \<Rightarrow> string option" where
  "optionValue o1 k = map_option snd (o1 k)"

definition hasAnyOptions :: "ssh_options \<Rightarrow> bool" where
  "hasAnyOptions o1 \<longleftrightarrow> list_ex (\<lambda>k. o1 k \<noteq> None) option_keys"

definition mergeOptions :: "ssh_options option \<Rightarrow> ssh_options \<Rightarrow> ssh_options" where
  "mergeOptions existing nxt = (\<lambda>k.
     let cur = (case existing of None \<Rightarrow> None | Some e \<Rightarrow> e k) in
     case nxt k of
       None \<Rightarrow> cur
     | Some candidate \<Rightarrow> (case cur of
           None \<Rightarrow> Some candidate
         | Some c \<Rightarrow> if fst candidate < fst c then Some candidate else Some c))"

subsection \<open>Match blocks\<close>

datatype criterion = Crit_host "string list" | Crit_originalhost "string list" | Crit_user "string list"
  | Crit_all

record match_block =
  mb_criteria :: "criterion list"
  mb_options :: ssh_options

definition REJECTED_MATCH_KEYWORDS :: "string list" where
  "REJECTED_MATCH_KEYWORDS =
     [''exec'', ''localuser'', ''canonical'', ''final'', ''localnetwork'', ''tagged'']"

definition SUPPORTED_MATCH_KEYWORDS :: "string list" where
  "SUPPORTED_MATCH_KEYWORDS = [''host'', ''originalhost'', ''user'', ''all'']"

definition criterion_of :: "string \<Rightarrow> string list \<Rightarrow> criterion" where
  "criterion_of keyword ps =
     (if keyword = ''host'' then Crit_host ps
      else if keyword = ''originalhost'' then Crit_originalhost ps else Crit_user ps)"

text \<open>The left side is the reason for which the block is rejected.\<close>

fun match_criteria_loop :: "string list \<Rightarrow> criterion list \<Rightarrow> string + criterion list" where
  "match_criteria_loop [] criteria = Inr criteria"
| "match_criteria_loop (t # ts) criteria =
     (let keyword = lower t in
      if keyword \<in> set REJECTED_MATCH_KEYWORDS then Inl keyword
      else if keyword = ''all'' then match_criteria_loop ts (criteria @ [Crit_all])
      else if keyword \<notin> set SUPPORTED_MATCH_KEYWORDS then Inl (''unknown:'' @ keyword)
      else case ts of
          [] \<Rightarrow> Inl (keyword @ '':missing-pattern'')
        | raw # rest \<Rightarrow>
            let ps = filter (\<lambda>p. p \<noteq> []) (map trim (split_on (CHR '','') raw)) in
            if ps = [] then Inl (keyword @ '':empty-pattern'')
            else match_criteria_loop rest (criteria @ [criterion_of keyword ps]))"

definition parseMatchCriteria :: "string \<Rightarrow> string + criterion list" where
  "parseMatchCriteria v =
     (case match_criteria_loop (split_words v) [] of
        Inl r \<Rightarrow> Inl r
      | Inr criteria \<Rightarrow>
          if criteria = [] then Inl ''empty''
          else if list_ex (\<lambda>c. c = Crit_all) criteria \<and> 1 < length criteria then Inl ''all:combined''
          else Inr criteria)"

definition criterion_matches :: "string \<Rightarrow> string \<Rightarrow> criterion \<Rightarrow> bool" where
  "criterion_matches alias user c =
     (case c of
        Crit_all \<Rightarrow> True
      | Crit_user ps \<Rightarrow> patternListMatches ps user
      | Crit_host ps \<Rightarrow> patternListMatches ps alias
      | Crit_originalhost ps \<Rightarrow> patternListMatches ps alias)"

definition apply_block :: "match_block \<Rightarrow> string \<times> ssh_options \<Rightarrow> string \<times> ssh_options" where
  "apply_block b entry = (case entry of (alias, o1) \<Rightarrow>
     if list_all (criterion_matches alias (coalesce (optionValue o1 K_user) [])) (mb_criteria b)
     then (alias, mergeOptions (Some o1) (mb_options b)) else entry)"

definition applyMatchBlocks :: "match_block list \<Rightarrow> ssh_options obj \<Rightarrow> ssh_options obj" where
  "applyMatchBlocks blocks m =
     fold (\<lambda>b m. if hasAnyOptions (mb_options b) then map (apply_block b) m else m) blocks m"

subsection \<open>Lines\<close>

definition isWildcardAlias :: "string \<Rightarrow> bool" where
  "isWildcardAlias alias \<longleftrightarrow> contains ''*'' alias \<or> contains ''?'' alias \<or> starts_with ''!'' alias"

text \<open>\<open>rawValue.search(/\\s+#/)\<close>: a comment begins at white space that a \<open>#\<close> follows.\<close>

definition comment_starts :: "string \<Rightarrow> bool" where
  "comment_starts s \<longleftrightarrow> s \<noteq> [] \<and> is_space (hd s) \<and> starts_with ''#'' (dropWhile is_space s)"

fun before_comment :: "string \<Rightarrow> string" where
  "before_comment [] = []"
| "before_comment (c # cs) = (if comment_starts (c # cs) then [] else c # before_comment cs)"

definition normalizeDirectiveValue :: "string \<Rightarrow> string" where
  "normalizeDirectiveValue raw = trim (before_comment raw)"

definition letter :: "char \<Rightarrow> bool" where
  "letter c \<longleftrightarrow> (CHR ''A'' \<le> c \<and> c \<le> CHR ''Z'') \<or> (CHR ''a'' \<le> c \<and> c \<le> CHR ''z'')"

text \<open>\<open>/^\\s*([A-Za-z][A-Za-z0-9]*)\\s+(.*)$/\<close>; the dot does not match the ends of lines.\<close>

definition directive_match :: "string \<Rightarrow> (string \<times> string) option" where
  "directive_match line =
     (let s = dropWhile is_space line;
          word = takeWhile (\<lambda>c. letter c \<or> digit c) s;
          rest = dropWhile (\<lambda>c. letter c \<or> digit c) s;
          v = dropWhile is_space rest
      in if word = [] \<or> \<not> letter (hd word) \<or> rest = [] \<or> \<not> is_space (hd rest) \<or>
            CHR 0x0A \<in> set v \<or> CHR 0x0D \<in> set v
         then None else Some (word, v))"

subsection \<open>The parser\<close>

record parser =
  sp_global :: ssh_options
  sp_aliases :: "string list"
  sp_options :: ssh_options
  sp_inherits :: bool
  sp_match :: "match_block option"
  sp_skip :: bool
  sp_order :: nat
  sp_blocks :: "match_block list"
  sp_map :: "ssh_options obj"
  sp_inherited :: "string list"
  sp_skipped :: "skip list"

definition parser_initial :: parser where
  "parser_initial = \<lparr>sp_global = no_options, sp_aliases = [], sp_options = no_options,
     sp_inherits = False, sp_match = None, sp_skip = False, sp_order = 0, sp_blocks = [], sp_map = [],
     sp_inherited = [], sp_skipped = []\<rparr>"

definition flush_alias :: "parser \<Rightarrow> string \<Rightarrow> ssh_options obj \<Rightarrow> ssh_options obj" where
  "flush_alias s alias m = obj_set alias (mergeOptions (obj_get m alias) (sp_options s)) m"

definition flushCurrentBlock :: "parser \<Rightarrow> parser" where
  "flushCurrentBlock s =
     (if sp_aliases s \<noteq> [] then
        s\<lparr>sp_map := fold (flush_alias s) (sp_aliases s) (sp_map s),
          sp_inherited := (if sp_inherits s then dedup (sp_inherited s @ sp_aliases s) else sp_inherited s)\<rparr>
      else case sp_match s of
          Some b \<Rightarrow> s\<lparr>sp_blocks := sp_blocks s @ [b]\<rparr>
        | None \<Rightarrow> s)"

definition match_line :: "string \<Rightarrow> parser \<Rightarrow> parser" where
  "match_line v s =
     (let s1 = (flushCurrentBlock s)\<lparr>sp_aliases := [], sp_match := None, sp_skip := False\<rparr> in
      case parseMatchCriteria v of
        Inl r \<Rightarrow> s1\<lparr>sp_skipped := sp_skipped s1 @
            [(MatchBlock, ''Match '' @ v @ '' (skipped: '' @ r @ '')'')], sp_skip := True\<rparr>
      | Inr criteria \<Rightarrow> s1\<lparr>sp_match := Some \<lparr>mb_criteria = criteria, mb_options = no_options\<rparr>\<rparr>)"

definition host_line :: "string \<Rightarrow> parser \<Rightarrow> parser" where
  "host_line v s =
     (let s1 = (flushCurrentBlock s)\<lparr>sp_match := None, sp_skip := False\<rparr>;
          entries = filter (\<lambda>e. e \<noteq> []) (map trim (split_by is_space v));
          concrete = filter (\<lambda>a. \<not> isWildcardAlias a) entries;
          wildcards = filter isWildcardAlias entries;
          report = (if concrete = [] \<and> wildcards \<noteq> []
                    then map (\<lambda>w. (WildcardOnly, ''Host '' @ w)) wildcards else [])
      in s1\<lparr>sp_skipped := sp_skipped s1 @ report, sp_aliases := concrete,
           sp_inherits := hasAnyOptions (sp_global s1), sp_options := sp_global s1\<rparr>)"

definition option_of_directive :: "string \<Rightarrow> option_key option" where
  "option_of_directive d =
     (if d = ''hostname'' then Some K_hostname else if d = ''user'' then Some K_user
      else if d = ''port'' then Some K_port else if d = ''identityfile'' then Some K_identityFile
      else if d = ''proxyjump'' then Some K_proxyJump else None)"

definition set_option :: "string \<Rightarrow> string \<Rightarrow> nat \<Rightarrow> ssh_options \<Rightarrow> ssh_options" where
  "set_option d v ord o1 =
     (case option_of_directive d of None \<Rightarrow> o1 | Some k \<Rightarrow> setOptionIfUnset o1 k v ord)"

definition option_line :: "string \<Rightarrow> string \<Rightarrow> parser \<Rightarrow> parser" where
  "option_line d v s =
     (if sp_skip s then s
      else let ord = Suc (sp_order s); s1 = s\<lparr>sp_order := ord\<rparr> in
        if sp_aliases s \<noteq> [] then s1\<lparr>sp_options := set_option d v ord (sp_options s)\<rparr>
        else case sp_match s of
            Some b \<Rightarrow> s1\<lparr>sp_match := Some (b\<lparr>mb_options := set_option d v ord (mb_options b)\<rparr>)\<rparr>
          | None \<Rightarrow> s1\<lparr>sp_global := set_option d v ord (sp_global s)\<rparr>)"

definition parse_line :: "string \<Rightarrow> parser \<Rightarrow> parser" where
  "parse_line line s =
     (if trim line = [] \<or> starts_with ''#'' (trim line) then s
      else case directive_match line of
          None \<Rightarrow> s\<lparr>sp_skipped := sp_skipped s @ [(Unparseable, trim line)]\<rparr>
        | Some (word, raw) \<Rightarrow>
            let d = lower word; v = normalizeDirectiveValue raw in
            if v = [] then s
            else if d = ''match'' then match_line v s
            else if d = ''include'' then
              s\<lparr>sp_skipped := sp_skipped s @ [(IncludeDirective, ''Include '' @ v)]\<rparr>
            else if d = ''host'' then host_line v s
            else option_line d v s)"

definition parsePort :: "string option \<Rightarrow> int" where
  "parsePort v = (case parse_int (coalesce v []) of
      Finite n \<Rightarrow> if 0 < n then n else 22 | _ \<Rightarrow> 22)"

definition jump_alias :: "ssh_options \<Rightarrow> string option" where
  "jump_alias o1 = (case optionValue o1 K_proxyJump of
      None \<Rightarrow> None | Some v \<Rightarrow> some_if_nonempty (trim (hd (split_on (CHR '','') v))))"

definition import_host :: "string \<times> ssh_options \<Rightarrow> imported_host" where
  "import_host entry = (case entry of (alias, o1) \<Rightarrow> \<lparr>
     im_alias = alias,
     im_hostname = or_string (trim (coalesce (optionValue o1 K_hostname) [])) alias,
     im_username = trim (coalesce (optionValue o1 K_user) []),
     im_port = parsePort (optionValue o1 K_port),
     im_privateKeyPath = trim (coalesce (optionValue o1 K_identityFile) []),
     im_jump = jump_alias o1\<rparr>)"

definition finish_import :: "(string \<Rightarrow> string \<Rightarrow> int) \<Rightarrow> parser \<Rightarrow> import_result" where
  "finish_import lc s0 =
     (let s = flushCurrentBlock s0;
          m = applyMatchBlocks (sp_blocks s) (sp_map s);
          named = filter (\<lambda>e. im_hostname (import_host e) \<noteq> []) m;
          nameless = filter (\<lambda>e. im_hostname (import_host e) = []) m;
          refs = dedup (map (\<lambda>h. the (im_jump h)) (filter (\<lambda>h. im_jump h \<noteq> None) (map import_host named)))
      in \<lparr>ir_hosts = js_sort (\<lambda>l r. lc (im_alias l) (im_alias r)) (map import_host named),
          ir_skipped = sp_skipped s @ map (\<lambda>e. (MissingHostname, ''Host '' @ fst e)) nameless,
          ir_defaultsApplied = length (sp_inherited s),
          ir_unresolved = filter (\<lambda>t. t \<notin> fst ` set m) refs\<rparr>)"

definition parseSshConfig :: "(string \<Rightarrow> string \<Rightarrow> int) \<Rightarrow> string \<Rightarrow> import_result" where
  "parseSshConfig lc config = finish_import lc (fold parse_line (split_lines config) parser_initial)"

text \<open>The part of the editor's form that an imported host fills in.\<close>

definition toHostFormValues :: "imported_host \<Rightarrow> host_form" where
  "toHostFormValues h = emptyHostFormValues\<lparr>hf_label := im_alias h, hf_hostname := im_hostname h,
     hf_username := im_username h, hf_port := show_int (im_port h),
     hf_privateKeyPath := im_privateKeyPath h,
     hf_authMethod := (if im_privateKeyPath h \<noteq> [] then AuthPrivateKey
                       else hf_authMethod emptyHostFormValues)\<rparr>"

subsection \<open>What an import contains\<close>

definition concrete_alias :: "string \<Rightarrow> bool" where
  "concrete_alias a \<longleftrightarrow> a \<noteq> [] \<and> \<not> isWildcardAlias a"

definition parser_ok :: "parser \<Rightarrow> bool" where
  "parser_ok s \<longleftrightarrow> list_all concrete_alias (sp_aliases s) \<and> obj_wf (sp_map s) \<and>
     (\<forall>a \<in> fst ` set (sp_map s). concrete_alias a)"

lemma fold_flush_ok:
  "obj_wf m \<Longrightarrow> \<forall>a \<in> fst ` set m. concrete_alias a \<Longrightarrow> list_all concrete_alias as \<Longrightarrow>
   obj_wf (fold (flush_alias s) as m) \<and> (\<forall>a \<in> fst ` set (fold (flush_alias s) as m). concrete_alias a)"
proof (induction as arbitrary: m)
  case (Cons a as)
  have "obj_wf (flush_alias s a m)" "\<forall>b \<in> fst ` set (flush_alias s a m). concrete_alias b"
    using Cons.prems by (auto simp: flush_alias_def keys_obj_set simp del: fst_conv)
  with Cons.IH[OF this] Cons.prems(3) show ?case by simp
qed simp

lemma flush_ok:
  assumes "parser_ok s"
  shows "parser_ok (flushCurrentBlock s)"
  using assms fold_flush_ok[of "sp_map s" "sp_aliases s" s]
  by (simp add: parser_ok_def flushCurrentBlock_def split: option.split)

lemma host_line_ok:
  assumes "parser_ok s"
  shows "parser_ok (host_line v s)"
  using flush_ok[OF assms] by (auto simp: parser_ok_def host_line_def Let_def list_all_iff concrete_alias_def)

lemma match_line_ok: "parser_ok s \<Longrightarrow> parser_ok (match_line v s)"
  using flush_ok[of s] by (simp add: parser_ok_def match_line_def Let_def split: sum.split)

lemma option_line_ok: "parser_ok s \<Longrightarrow> parser_ok (option_line d v s)"
  by (simp add: parser_ok_def option_line_def Let_def split: option.split)

lemma skipped_ok: "parser_ok s \<Longrightarrow> parser_ok (s\<lparr>sp_skipped := x\<rparr>)"
  by (simp add: parser_ok_def)

lemma parse_line_ok:
  assumes "parser_ok s"
  shows "parser_ok (parse_line line s)"
proof (cases "directive_match line")
  case None
  with assms show ?thesis by (simp add: parse_line_def skipped_ok)
next
  case (Some w)
  obtain word raw where "w = (word, raw)" by (cases w)
  with Some show ?thesis
    using assms host_line_ok[OF assms] match_line_ok[OF assms] option_line_ok[OF assms] skipped_ok[OF assms]
    by (simp add: parse_line_def Let_def)
qed

lemma parse_lines_ok: "parser_ok (fold parse_line ls parser_initial)"
proof -
  have "parser_ok (fold parse_line ls s)" if "parser_ok s" for s
    using that by (induction ls arbitrary: s) (simp_all add: parse_line_ok)
  moreover have "parser_ok parser_initial" by (simp add: parser_ok_def parser_initial_def)
  ultimately show ?thesis by blast
qed

lemma apply_block_fst [simp]: "fst (apply_block b e) = fst e"
  by (simp add: apply_block_def split: prod.split)

lemma applyMatchBlocks_keys [simp]: "map fst (applyMatchBlocks bs m) = map fst m"
  unfolding applyMatchBlocks_def
proof (induction bs arbitrary: m)
  case (Cons b bs)
  have "map fst (if hasAnyOptions (mb_options b) then map (apply_block b) m else m) = map fst m"
    by simp
  with Cons show ?case by simp
qed simp

lemma import_host_simps [simp]:
  "im_alias (import_host e) = fst e" "0 < im_port (import_host e)"
  "fst e \<noteq> [] \<Longrightarrow> im_hostname (import_host e) \<noteq> []"
  by (cases e; simp add: import_host_def or_string_def parsePort_def split: number.split)+

text \<open>The finished aliases.\<close>

definition finished :: "parser \<Rightarrow> ssh_options obj" where
  "finished s0 = (let s = flushCurrentBlock s0 in applyMatchBlocks (sp_blocks s) (sp_map s))"

lemma finished_ok:
  assumes "parser_ok s"
  shows "distinct (map fst (finished s))" "\<And>e. e \<in> set (finished s) \<Longrightarrow> concrete_alias (fst e)"
proof -
  have ok: "parser_ok (flushCurrentBlock s)" by (rule flush_ok[OF assms])
  then show "distinct (map fst (finished s))" by (simp add: finished_def Let_def parser_ok_def obj_wf_def)
  have "fst ` set (finished s) = fst ` set (sp_map (flushCurrentBlock s))"
    unfolding finished_def Let_def by (metis applyMatchBlocks_keys list.set_map)
  then show "\<And>e. e \<in> set (finished s) \<Longrightarrow> concrete_alias (fst e)"
    using ok unfolding parser_ok_def by (metis imageI)
qed

lemma finish_import_simps:
  assumes "parser_ok s"
  shows "ir_hosts (finish_import lc s) =
      js_sort (\<lambda>l r. lc (im_alias l) (im_alias r)) (map import_host (finished s))"
    "ir_unresolved (finish_import lc s) = filter (\<lambda>t. t \<notin> fst ` set (finished s))
      (dedup (map (\<lambda>h. the (im_jump h)) (filter (\<lambda>h. im_jump h \<noteq> None) (map import_host (finished s)))))"
    "ir_skipped (finish_import lc s) = sp_skipped (flushCurrentBlock s)"
proof -
  have "im_hostname (import_host e) \<noteq> []" if "e \<in> set (finished s)" for e
    using finished_ok(2)[OF assms that] by (simp add: concrete_alias_def)
  then have "filter (\<lambda>e. im_hostname (import_host e) \<noteq> []) (finished s) = finished s"
    "filter (\<lambda>e. im_hostname (import_host e) = []) (finished s) = []"
    by (auto simp: filter_empty_conv)
  then show "ir_hosts (finish_import lc s) =
      js_sort (\<lambda>l r. lc (im_alias l) (im_alias r)) (map import_host (finished s))"
    "ir_unresolved (finish_import lc s) = filter (\<lambda>t. t \<notin> fst ` set (finished s))
      (dedup (map (\<lambda>h. the (im_jump h)) (filter (\<lambda>h. im_jump h \<noteq> None) (map import_host (finished s)))))"
    "ir_skipped (finish_import lc s) = sp_skipped (flushCurrentBlock s)"
    by (simp_all add: finish_import_def Let_def finished_def)
qed

definition import_ok :: "imported_host \<Rightarrow> bool" where
  "import_ok h \<longleftrightarrow> concrete_alias (im_alias h) \<and> im_hostname h \<noteq> [] \<and> 0 < im_port h"

text \<open>Whatever text is imported, every host it offers has an alias without wildcards, a host name
  and a positive port, no alias is offered twice, and the jump aliases reported as unresolved are
  exactly those that some offered host names and no offered host has.\<close>

theorem import_offers_concrete_hosts:
  "let r = parseSshConfig lc config in
    list_all import_ok (ir_hosts r) \<and> distinct (map im_alias (ir_hosts r)) \<and>
    set (ir_unresolved r) = {t. \<exists>h \<in> set (ir_hosts r). im_jump h = Some t} - im_alias ` set (ir_hosts r)"
proof -
  let ?s = "fold parse_line (split_lines config) parser_initial"
  have ok: "parser_ok ?s" by (rule parse_lines_ok)
  have aliases: "map im_alias (map import_host (finished ?s)) = map fst (finished ?s)" by (simp add: o_def)
  have "list_all import_ok (ir_hosts (finish_import lc ?s))"
    using finished_ok(2)[OF ok] by (auto simp: finish_import_simps(1)[OF ok] list_all_iff import_ok_def
        concrete_alias_def)
  moreover have "distinct (map im_alias (ir_hosts (finish_import lc ?s)))"
    unfolding finish_import_simps(1)[OF ok]
    by (metis aliases finished_ok(1)[OF ok] mset_eq_imp_distinct_iff mset_map_js_sort)
  moreover have "set (ir_unresolved (finish_import lc ?s)) =
      {t. \<exists>h \<in> set (ir_hosts (finish_import lc ?s)). im_jump h = Some t} -
      im_alias ` set (ir_hosts (finish_import lc ?s))"
    unfolding finish_import_simps(1,2)[OF ok] by (force simp: image_image)
  ultimately show ?thesis by (simp add: parseSshConfig_def Let_def)
qed

subsection \<open>Reading back a plain configuration\<close>

text \<open>How a host is written in a configuration file, one block per host.\<close>

definition option_text :: "string \<Rightarrow> string \<Rightarrow> string list" where
  "option_text d v = (if v = [] then [] else [d @ '' '' @ v])"

definition host_block :: "imported_host \<Rightarrow> string list" where
  "host_block h = [''Host '' @ im_alias h] @ option_text ''HostName'' (im_hostname h) @
     option_text ''User'' (im_username h) @ option_text ''Port'' (show_int (im_port h)) @
     option_text ''IdentityFile'' (im_privateKeyPath h) @
     option_text ''ProxyJump'' (coalesce (im_jump h) [])"

definition config_text :: "imported_host list \<Rightarrow> string" where
  "config_text hs = join [CHR 0x0A] (concat (map host_block hs))"

text \<open>Values that fit on a line: no line break, no comment, no white space around.\<close>

definition line_value :: "string \<Rightarrow> bool" where
  "line_value v \<longleftrightarrow> trimmed v \<and> CHR ''#'' \<notin> set v \<and> CHR 0x0A \<notin> set v \<and> CHR 0x0D \<notin> set v"

definition plain_host :: "imported_host \<Rightarrow> bool" where
  "plain_host h \<longleftrightarrow> concrete_alias (im_alias h) \<and> list_all (\<lambda>c. \<not> is_space c) (im_alias h) \<and>
     line_value (im_alias h) \<and> im_hostname h \<noteq> [] \<and> line_value (im_hostname h) \<and>
     line_value (im_username h) \<and> line_value (im_privateKeyPath h) \<and>
     0 < im_port h \<and> safe_integer (im_port h) \<and>
     (case im_jump h of None \<Rightarrow> True | Some j \<Rightarrow> j \<noteq> [] \<and> line_value j \<and> CHR '','' \<notin> set j)"

lemma before_comment_id: "CHR ''#'' \<notin> set v \<Longrightarrow> before_comment v = v"
proof (induction v)
  case (Cons c cs)
  have "\<not> starts_with ''#'' (dropWhile is_space (c # cs))"
    using Cons.prems set_dropWhileD[of _ is_space "c # cs"] by (cases "dropWhile is_space (c # cs)") auto
  then have "\<not> comment_starts (c # cs)" by (simp only: comment_starts_def) blast
  with Cons show ?case by simp
qed simp

lemma line_value_normal: "line_value v \<Longrightarrow> normalizeDirectiveValue v = v"
  by (simp add: normalizeDirectiveValue_def line_value_def before_comment_id trim_trimmed_id)

lemma letter_not_space: "letter c \<Longrightarrow> \<not> is_space c"
  by (auto simp: letter_def is_space_def less_eq_char_def)

lemma parse_plain_line:
  assumes "w \<noteq> []" "list_all letter w" "line_value v" "v \<noteq> []"
  shows "parse_line (w @ CHR '' '' # v) s =
    (let d = lower w in
      if d = ''match'' then match_line v s
      else if d = ''include'' then
        s\<lparr>sp_skipped := sp_skipped s @ [(IncludeDirective, ''Include '' @ v)]\<rparr>
      else if d = ''host'' then host_line v s
      else option_line d v s)"
proof -
  obtain c cs where w: "w = c # cs" using assms(1) by (cases w) auto
  have c: "letter c" "\<not> is_space c" "c \<noteq> CHR ''#''"
    using assms(2) w letter_not_space by (auto simp: letter_def less_eq_char_def)
  have sep: "\<not> (letter (CHR '' '') \<or> digit (CHR '' ''))"
    by (simp add: letter_def digit_def less_eq_char_def)
  have letters: "\<And>x. x \<in> set w \<Longrightarrow> letter x \<or> digit x" using assms(2) by (simp add: list_all_iff)
  have word: "takeWhile (\<lambda>c. letter c \<or> digit c) (w @ CHR '' '' # v) = w"
    "dropWhile (\<lambda>c. letter c \<or> digit c) (w @ CHR '' '' # v) = CHR '' '' # v"
    using sep letters by (subst takeWhile_append2, simp_all)
  have v: "\<not> is_space (hd v)" using assms(3,4) by (simp add: line_value_def trimmed_def)
  then have dv: "dropWhile is_space v = v" by (cases v) auto
  have sp: "is_space (CHR '' '')" by (simp add: is_space_def)
  have start: "dropWhile is_space (w @ CHR '' '' # v) = w @ CHR '' '' # v" using w c(2) by simp
  have "directive_match (w @ CHR '' '' # v) = Some (w, v)"
    using assms w c word dv sp start sep by (simp add: directive_match_def Let_def line_value_def)
  moreover have "trim (w @ CHR '' '' # v) = w @ CHR '' '' # v"
    using assms(3,4) w c(2) by (intro trim_trimmed_id) (auto simp: trimmed_def line_value_def)
  ultimately show ?thesis using w c(3) line_value_normal[OF assms(3)] assms(4)
    by (simp add: parse_line_def)
qed

text \<open>The options a block of text leaves in the parser.\<close>

lemma option_lines:
  assumes "sp_aliases s \<noteq> []" "\<not> sp_skip s" "w \<noteq> []" "list_all letter w" "line_value v"
    and "option_of_directive (lower w) = Some k" "sp_options s k = None" "lower w \<notin> {''match'', ''include'', ''host''}"
  shows "fold parse_line (option_text w v) s =
    s\<lparr>sp_order := (if v = [] then sp_order s else Suc (sp_order s)),
      sp_options := (if v = [] then sp_options s else (sp_options s)(k := Some (Suc (sp_order s), v)))\<rparr>"
  using assms by (simp add: option_text_def parse_plain_line option_line_def set_option_def setOptionIfUnset_def Let_def)

lemma directive_words:
  "list_all letter ''Host''" "list_all letter ''HostName''" "list_all letter ''User''"
  "list_all letter ''Port''" "list_all letter ''IdentityFile''" "list_all letter ''ProxyJump''"
  "lower ''Host'' = ''host''" "lower ''HostName'' = ''hostname''" "lower ''User'' = ''user''"
  "lower ''Port'' = ''port''" "lower ''IdentityFile'' = ''identityfile''"
  "lower ''ProxyJump'' = ''proxyjump''"
  by code_simp+

lemma show_int_line: "0 < i \<Longrightarrow> line_value (show_int i) \<and> show_int i \<noteq> []"
proof -
  assume "0 < i"
  then have "\<forall>c \<in> set (show_int i). digit c" using show_nat_digits by (simp add: show_int_def)
  moreover have "show_int i \<noteq> []" using \<open>0 < i\<close> by (simp add: show_int_def)
  moreover have "\<not> digit (CHR ''#'')" "\<not> digit (CHR 0x0A)" "\<not> digit (CHR 0x0D)"
    by (simp_all add: digit_def less_eq_char_def)
  ultimately show ?thesis
    using hd_in_set[of "show_int i"] last_in_set[of "show_int i"] digit_not_space
    by (auto simp: line_value_def trimmed_def)
qed

lemma host_line_plain:
  assumes "concrete_alias a" "list_all (\<lambda>c. \<not> is_space c) a" "sp_global s = no_options"
    "sp_inherits s = False"
  shows "host_line a s = (flushCurrentBlock s)\<lparr>sp_match := None, sp_skip := False,
    sp_aliases := [a], sp_inherits := False, sp_options := no_options\<rparr>"
proof -
  have a: "split_by is_space a = [a]" using assms(2) by (intro split_by_no_sep) (auto simp: list_all_iff)
  have "trimmed a" using assms(2) by (auto simp: trimmed_def list_all_iff dest: hd_in_set last_in_set)
  then have "trim a = a" by (rule trim_trimmed_id)
  moreover have "sp_global (flushCurrentBlock s) = no_options"
    using assms(3) by (simp add: flushCurrentBlock_def split: option.split)
  ultimately show ?thesis using assms(1) a
    by (simp add: host_line_def Let_def concrete_alias_def hasAnyOptions_def option_keys_def no_options_def)
qed

definition written_options :: "imported_host \<Rightarrow> option_key \<Rightarrow> string" where
  "written_options h k = (case k of K_hostname \<Rightarrow> im_hostname h | K_user \<Rightarrow> im_username h
     | K_port \<Rightarrow> show_int (im_port h) | K_identityFile \<Rightarrow> im_privateKeyPath h
     | K_proxyJump \<Rightarrow> coalesce (im_jump h) [])"

text \<open>The parser between two blocks of a plain configuration.\<close>

definition plain_state :: "parser \<Rightarrow> bool" where
  "plain_state s \<longleftrightarrow> sp_global s = no_options \<and> sp_match s = None \<and> \<not> sp_skip s \<and> \<not> sp_inherits s \<and>
     sp_blocks s = [] \<and> sp_skipped s = [] \<and> sp_inherited s = []"

lemma plain_flush:
  "plain_state s \<Longrightarrow> flushCurrentBlock s = s\<lparr>sp_map := fold (flush_alias s) (sp_aliases s) (sp_map s)\<rparr>"
  by (simp add: plain_state_def flushCurrentBlock_def)

lemma host_block_parsed:
  assumes "plain_state s" "plain_host h"
  shows "\<exists>os n. fold parse_line (host_block h) s = s\<lparr>sp_map := sp_map (flushCurrentBlock s),
      sp_aliases := [im_alias h], sp_options := os, sp_order := n\<rparr> \<and>
    (\<forall>k. optionValue os k = some_if_nonempty (written_options h k))"
proof -
  let ?s = "s\<lparr>sp_map := sp_map (flushCurrentBlock s), sp_aliases := [im_alias h], sp_options := no_options\<rparr>"
  have vals: "line_value (im_alias h)" "line_value (im_hostname h)" "line_value (im_username h)"
    "line_value (show_int (im_port h))" "line_value (im_privateKeyPath h)" "line_value (coalesce (im_jump h) [])"
    "concrete_alias (im_alias h)" "im_alias h \<noteq> []" "list_all (\<lambda>c. \<not> is_space c) (im_alias h)"
    using assms(2) show_int_line
    by (auto simp: plain_host_def concrete_alias_def line_value_def trimmed_def split: option.splits)
  have "parse_line (''Host '' @ im_alias h) s = host_line (im_alias h) s"
    using parse_plain_line[of "''Host''" "im_alias h" s] vals directive_words by simp
  also have "\<dots> = ?s"
    using host_line_plain[OF vals(7,9)] assms(1) plain_flush[OF assms(1)] by (simp add: plain_state_def)
  finally have first: "parse_line (''Host '' @ im_alias h) s = ?s" .
  let ?st = "\<lambda>os n. s\<lparr>sp_map := sp_map (flushCurrentBlock s), sp_aliases := [im_alias h], sp_options := os,
      sp_order := n\<rparr>"
  have step: "\<exists>os' n'. fold parse_line (option_text w v) (?st os n) = ?st os' n' \<and>
      (\<forall>j. optionValue os' j = (if j = k then some_if_nonempty v else optionValue os j))"
    if "w \<noteq> []" "list_all letter w" "line_value v" "option_of_directive (lower w) = Some k" "optionValue os k = None"
      "lower w \<notin> {''match'', ''include'', ''host''}" for w v k os n
  proof -
    have "os k = None" using that(5) by (simp add: optionValue_def)
    then have "fold parse_line (option_text w v) (?st os n) =
        ?st (if v = [] then os else os(k := Some (Suc n, v))) (if v = [] then n else Suc n)"
      using option_lines[where s = "?st os n" and w = w and v = v and k = k] that assms(1)
      by (simp add: plain_state_def)
    then show ?thesis using that(5)
      by (intro exI conjI) (assumption, auto simp: optionValue_def some_if_nonempty_def)
  qed
  note words = directive_words option_of_directive_def
  have no: "?s = ?st no_options (sp_order s)" "\<And>k. optionValue no_options k = None"
    by (simp_all add: optionValue_def no_options_def)
  obtain os1 n1 where 1: "fold parse_line (option_text ''HostName'' (im_hostname h)) ?s = ?st os1 n1"
    "\<And>j. optionValue os1 j = (if j = K_hostname then some_if_nonempty (im_hostname h) else None)"
    using step[of "''HostName''" "im_hostname h" K_hostname no_options "sp_order s"] vals no words by auto
  obtain os2 n2 where 2: "fold parse_line (option_text ''User'' (im_username h)) (?st os1 n1) = ?st os2 n2"
    "\<And>j. optionValue os2 j = (if j = K_user then some_if_nonempty (im_username h) else optionValue os1 j)"
    using step[of "''User''" "im_username h" K_user os1 n1] 1(2) vals words by auto
  obtain os3 n3 where 3: "fold parse_line (option_text ''Port'' (show_int (im_port h))) (?st os2 n2) = ?st os3 n3"
    "\<And>j. optionValue os3 j = (if j = K_port then some_if_nonempty (show_int (im_port h)) else optionValue os2 j)"
    using step[of "''Port''" "show_int (im_port h)" K_port os2 n2] 1(2) 2(2) vals words by auto
  obtain os4 n4 where 4: "fold parse_line (option_text ''IdentityFile'' (im_privateKeyPath h)) (?st os3 n3) = ?st os4 n4"
    "\<And>j. optionValue os4 j = (if j = K_identityFile then some_if_nonempty (im_privateKeyPath h) else optionValue os3 j)"
    using step[of "''IdentityFile''" "im_privateKeyPath h" K_identityFile os3 n3] 1(2) 2(2) 3(2) vals words by auto
  obtain os5 n5 where 5: "fold parse_line (option_text ''ProxyJump'' (coalesce (im_jump h) [])) (?st os4 n4) = ?st os5 n5"
    "\<And>j. optionValue os5 j = (if j = K_proxyJump then some_if_nonempty (coalesce (im_jump h) []) else optionValue os4 j)"
    using step[of "''ProxyJump''" "coalesce (im_jump h) []" K_proxyJump os4 n4] 1(2) 2(2) 3(2) 4(2) vals words by auto
  have "fold parse_line (host_block h) s = ?st os5 n5"
    using first 1(1) 2(1) 3(1) 4(1) 5(1) by (simp add: host_block_def)
  moreover have "optionValue os5 k = some_if_nonempty (written_options h k)" for k
    using 1(2) 2(2) 3(2) 4(2) 5(2) by (cases k) (simp_all add: written_options_def)
  ultimately show ?thesis by blast
qed

lemma coalesce_nonempty: "coalesce (some_if_nonempty v) [] = v"
  by (simp add: some_if_nonempty_def)

lemma import_plain_host:
  assumes "plain_host h" "\<And>k. optionValue os k = some_if_nonempty (written_options h k)"
  shows "import_host (im_alias h, os) = h"
proof -
  have port: "show_int (im_port h) \<noteq> []" "parse_int (show_int (im_port h)) = Finite (im_port h)" "0 < im_port h"
    using assms(1) show_int_line parse_int_show_int by (auto simp: plain_host_def)
  have jump: "jump_alias os = im_jump h"
  proof (cases "im_jump h")
    case None
    then show ?thesis by (simp add: jump_alias_def assms(2) written_options_def some_if_nonempty_def)
  next
    case (Some j)
    then have "j \<noteq> []" "trim j = j" "split_on (CHR '','') j = [j]"
      using assms(1) by (auto simp: plain_host_def line_value_def trim_trimmed_id intro!: split_by_no_sep)
    with Some show ?thesis by (simp add: jump_alias_def assms(2) written_options_def some_if_nonempty_def)
  qed
  have "trim (im_hostname h) = im_hostname h" "trim (im_username h) = im_username h"
    "trim (im_privateKeyPath h) = im_privateKeyPath h" "im_hostname h \<noteq> []"
    using assms(1) by (auto simp: plain_host_def line_value_def trim_trimmed_id)
  with port jump show ?thesis
    by (simp add: import_host_def parsePort_def assms(2) written_options_def coalesce_nonempty or_string_def)
qed

lemma flush_new_alias:
  assumes "plain_state s" "sp_aliases s = [a]" "a \<notin> fst ` set (sp_map s)"
  shows "sp_map (flushCurrentBlock s) = sp_map s @ [(a, sp_options s)]"
proof -
  have "mergeOptions None (sp_options s) = sp_options s"
    by (auto simp: mergeOptions_def fun_eq_iff split: option.split)
  then show ?thesis using assms
    by (simp add: plain_flush flush_alias_def obj_set_new obj_get_None_iff[THEN iffD2])
qed

lemma config_parsed:
  assumes "plain_state s" "list_all plain_host hs" "distinct (map im_alias hs)"
    and "im_alias ` set hs \<inter> fst ` set (sp_map (flushCurrentBlock s)) = {}"
  shows "plain_state (fold parse_line (concat (map host_block hs)) s) \<and>
    map import_host (sp_map (flushCurrentBlock (fold parse_line (concat (map host_block hs)) s))) =
      map import_host (sp_map (flushCurrentBlock s)) @ hs"
  using assms
proof (induction hs arbitrary: s)
  case (Cons h hs)
  let ?M = "sp_map (flushCurrentBlock s)"
  obtain os n where s': "fold parse_line (host_block h) s =
      s\<lparr>sp_map := ?M, sp_aliases := [im_alias h], sp_options := os, sp_order := n\<rparr>"
    "\<And>k. optionValue os k = some_if_nonempty (written_options h k)"
    using host_block_parsed[of s h] Cons.prems(1,2) by auto
  let ?s = "s\<lparr>sp_map := ?M, sp_aliases := [im_alias h], sp_options := os, sp_order := n\<rparr>"
  have plain: "plain_state ?s" using Cons.prems(1) by (simp add: plain_state_def)
  have map: "sp_map (flushCurrentBlock ?s) = ?M @ [(im_alias h, os)]"
    using flush_new_alias[OF plain] Cons.prems(4) by auto
  have "im_alias ` set hs \<inter> fst ` set (sp_map (flushCurrentBlock ?s)) = {}"
    unfolding map using Cons.prems(3,4) by auto
  from Cons.IH[OF plain _ _ this] Cons.prems(2,3) map import_plain_host[OF _ s'(2)] s'(1)
  show ?case by simp
qed simp

lemma host_block_lines:
  assumes "plain_host h" "l \<in> set (host_block h)"
  shows "CHR 0x0A \<notin> set l \<and> CHR 0x0D \<notin> set l"
  using assms show_int_line[of "im_port h"]
  by (auto simp: host_block_def option_text_def plain_host_def line_value_def split: if_splits option.splits)

lemma split_lines_join:
  assumes "ls \<noteq> []" "\<And>l. l \<in> set ls \<Longrightarrow> CHR 0x0A \<notin> set l \<and> CHR 0x0D \<notin> set l"
  shows "split_lines (join [CHR 0x0A] ls) = ls"
proof -
  have split: "split_on (CHR 0x0A) (join [CHR 0x0A] ls) = ls"
    using assms by (intro split_on_join) auto
  have "drop_cr l = l" if "l \<in> set ls" for l
    using assms(2)[OF that] by (auto simp: drop_cr_def dest: last_in_set)
  then have "map drop_cr (butlast ls) = butlast ls" by (intro map_idI) (auto dest: in_set_butlastD)
  then show ?thesis using assms(1) by (simp add: split_lines_def split Let_def)
qed

text \<open>Hosts that are written to a configuration file, one block each, are imported exactly as they
  were, sorted by alias, with nothing skipped and nothing inherited.\<close>

theorem plain_config_imports_back:
  assumes "hs \<noteq> []" "list_all plain_host hs" "distinct (map im_alias hs)"
  shows "ir_hosts (parseSshConfig lc (config_text hs)) = js_sort (\<lambda>l r. lc (im_alias l) (im_alias r)) hs \<and>
    ir_skipped (parseSshConfig lc (config_text hs)) = [] \<and>
    ir_defaultsApplied (parseSshConfig lc (config_text hs)) = 0"
proof -
  let ?ls = "concat (map host_block hs)" and ?s = "fold parse_line (concat (map host_block hs)) parser_initial"
  have "split_lines (config_text hs) = ?ls"
    unfolding config_text_def using assms(1,2) host_block_lines
    by (intro split_lines_join) (auto simp: host_block_def list_all_iff neq_Nil_conv)
  then have parse: "parseSshConfig lc (config_text hs) = finish_import lc ?s" by (simp add: parseSshConfig_def)
  have init: "plain_state parser_initial" "sp_map (flushCurrentBlock parser_initial) = []"
    by (simp_all add: plain_state_def parser_initial_def flushCurrentBlock_def)
  have plain: "plain_state ?s" and hosts: "map import_host (sp_map (flushCurrentBlock ?s)) = hs"
    using config_parsed[OF init(1) assms(2,3)] init(2) by simp_all
  have flushed: "sp_blocks (flushCurrentBlock ?s) = []" "sp_skipped (flushCurrentBlock ?s) = []"
    "sp_inherited (flushCurrentBlock ?s) = []"
    using plain plain_flush[OF plain] by (simp_all add: plain_state_def)
  then have "finished ?s = sp_map (flushCurrentBlock ?s)" by (simp add: finished_def applyMatchBlocks_def)
  with finish_import_simps(1,3)[OF parse_lines_ok, of lc ?ls] hosts flushed
  show ?thesis unfolding parse by (simp add: finish_import_def Let_def)
qed

lemma plain_config_imports_back_witness:
  "ir_skipped (parseSshConfig code_unit_compare (config_text
     [\<lparr>im_alias = ''web'', im_hostname = ''10.0.0.5'', im_username = ''root'', im_port = 22,
       im_privateKeyPath = '''', im_jump = Some ''gate''\<rparr>])) = []"
  by (rule plain_config_imports_back[THEN conjunct2, THEN conjunct1])
    (simp_all add: plain_host_def concrete_alias_def isWildcardAlias_def contains_def line_value_def
      trimmed_def is_space_def safe_integer_def)

end
