(* ===== verification/Json.thy ===== *)
theory Json
  imports Sorting
begin

section \<open>JavaScript values and their serialization\<close>

text \<open>
  The values that the code receives as \<open>unknown\<close>, and the two ways in which it writes them:
  \<open>JSON.stringify\<close> of a scalar and the \<open>stableSerialize\<close> of \<open>lib/local-config.ts\<close>. An object is
  the list of its own properties in the order in which they were added; a property may be there
  and hold \<open>undefined\<close>.
\<close>

datatype json =
    JNull
  | JUndefined
  | JBool bool
  | JNumber "int number"
  | JString string
  | JArray "json list"
  | JObject "(string \<times> json) list"

fun json_get :: "json \<Rightarrow> string \<Rightarrow> json" where
  "json_get (JObject m) k = (case obj_get m k of None \<Rightarrow> JUndefined | Some v \<Rightarrow> v)"
| "json_get _ k = JUndefined"

subsection \<open>\<open>JSON.stringify\<close>\<close>

definition hex_digit :: "nat \<Rightarrow> char" where
  "hex_digit d = (if d < 10 then char_of (48 + d) else char_of (87 + d))"

definition json_char :: "char \<Rightarrow> string" where
  "json_char c =
     (if c = CHR 0x22 then [CHR 0x5C, CHR 0x22] else if c = CHR 0x5C then [CHR 0x5C, CHR 0x5C]
      else if c = CHR 0x08 then [CHR 0x5C, CHR ''b''] else if c = CHR 0x0C then [CHR 0x5C, CHR ''f'']
      else if c = CHR 0x0A then [CHR 0x5C, CHR ''n''] else if c = CHR 0x0D then [CHR 0x5C, CHR ''r'']
      else if c = CHR 0x09 then [CHR 0x5C, CHR ''t'']
      else if c < CHR '' '' then [CHR 0x5C, CHR ''u'', CHR ''0'', CHR ''0'',
        hex_digit ((of_char c :: nat) div 16), hex_digit ((of_char c :: nat) mod 16)]
      else [c])"

definition json_string :: "string \<Rightarrow> string" where
  "json_string s = [CHR 0x22] @ concat (map json_char s) @ [CHR 0x22]"

fun json_number :: "int number \<Rightarrow> string" where
  "json_number (Finite i) = show_int i"
| "json_number _ = ''null''"

subsection \<open>\<open>stableSerialize\<close>\<close>

text \<open>
  The result is \<open>None\<close> where \<open>JSON.stringify\<close> returns \<open>undefined\<close>. In an array, \<open>join\<close> writes
  nothing for it; in an object, the template writes \<open>undefined\<close>. The values are serialized before
  the entries are sorted, which only looks at the keys.
\<close>

fun stableSerialize :: "(string \<Rightarrow> string \<Rightarrow> int) \<Rightarrow> json \<Rightarrow> string option" where
  "stableSerialize lc (JArray xs) =
     Some (''['' @ join '','' (map (\<lambda>x. coalesce (stableSerialize lc x) []) xs) @ '']'')"
| "stableSerialize lc (JObject m) =
     Some (''{'' @ join '','' (map (\<lambda>(k, t). json_string k @ '':'' @ coalesce t ''undefined'')
       (js_sort (\<lambda>l r. lc (fst l) (fst r))
         (obj_entries (map (\<lambda>(k, v). (k, stableSerialize lc v)) m)))) @ ''}'')"
| "stableSerialize lc JNull = Some ''null''"
| "stableSerialize lc JUndefined = None"
| "stableSerialize lc (JBool b) = Some (if b then ''true'' else ''false'')"
| "stableSerialize lc (JNumber n) = Some (json_number n)"
| "stableSerialize lc (JString s) = Some (json_string s)"

end
