(* ===== verification/SshInclude.thy ===== *)
theory SshInclude
  imports SshConfig Json
begin

section \<open>\<open>Include\<close> directives (\<open>lib/ssh-config-include.ts\<close>)\<close>

text \<open>
  Before a configuration is parsed, the files it includes are put in the place of the directives.
  Reading a file and expanding a pattern are done by the backend, so they are arguments. The
  recursion is bounded by \<open>maxDepth\<close>: the number of nested expansions that are still allowed is the
  argument the expansion recurses on.
\<close>

record include_file =
  if_cycleKey :: string
  if_name :: string
  if_content :: string

datatype file_read = ReadError string | ReadRejected | ReadOk string string

text \<open>The path, and for a relative path inside a file the key of that file and the path.\<close>

type_synonym include_context = "(string \<times> string) option"

record include_options =
  io_readFile :: "string \<Rightarrow> include_context \<Rightarrow> file_read"
  io_globFiles :: "(string \<Rightarrow> include_context \<Rightarrow> include_file list result) option"
  io_baseDir :: string
  io_maxDepth :: nat

definition DEFAULT_BASE_DIR :: string where "DEFAULT_BASE_DIR = ''~/.ssh''"
definition DEFAULT_MAX_DEPTH :: nat where "DEFAULT_MAX_DEPTH = 10"

subsection \<open>Paths\<close>

definition strip_slash :: "string \<Rightarrow> string" where
  "strip_slash s = (if ends_with ''/'' s then butlast s else s)"

definition normalizePath :: "string \<Rightarrow> string \<Rightarrow> string" where
  "normalizePath raw baseDir =
     (let t = trim raw in
      if t = [] \<or> starts_with ''/'' t \<or> starts_with ''~'' t then t
      else strip_slash baseDir @ ''/'' @ t)"

text \<open>What is before the last \<open>/\<close>, \<open>None\<close> if there is none.\<close>

definition before_last_slash :: "string \<Rightarrow> string option" where
  "before_last_slash s =
     (if CHR ''/'' \<in> set s then Some (rev (drop 1 (dropWhile (\<lambda>c. c \<noteq> CHR ''/'') (rev s)))) else None)"

definition dirnamePath :: "string \<Rightarrow> string" where
  "dirnamePath path =
     (case before_last_slash (strip_slash path) of
        None \<Rightarrow> ''.'' | Some d \<Rightarrow> if d = [] then ''/'' else d)"

definition hasGlobChar :: "string \<Rightarrow> bool" where
  "hasGlobChar v \<longleftrightarrow> contains ''*'' v \<or> contains ''?'' v \<or> contains ''['' v"

definition isRelativePath :: "string \<Rightarrow> bool" where
  "isRelativePath v \<longleftrightarrow> \<not> starts_with ''/'' v \<and> \<not> starts_with ''~'' v"

definition resolutionContext :: "string \<Rightarrow> string option \<Rightarrow> include_context" where
  "resolutionContext entry file =
     (case file of None \<Rightarrow> None
      | Some key \<Rightarrow> if isRelativePath entry then Some (key, entry) else None)"

subsection \<open>Directives\<close>

text \<open>\<open>/^\\s*word\\s+/i\<close>; the result is what follows.\<close>

definition after_word :: "string \<Rightarrow> string \<Rightarrow> string option" where
  "after_word word line =
     (let s = dropWhile is_space line; rest = drop (length word) s in
      if lower (take (length word) s) = word \<and> rest \<noteq> [] \<and> is_space (hd rest)
      then Some (dropWhile is_space rest) else None)"

definition block_directive :: "string \<Rightarrow> bool" where
  "block_directive line \<longleftrightarrow> after_word ''host'' line \<noteq> None \<or> after_word ''match'' line \<noteq> None"

definition one_line :: "string \<Rightarrow> bool" where
  "one_line s \<longleftrightarrow> CHR 0x0A \<notin> set s \<and> CHR 0x0D \<notin> set s"

text \<open>\<open>\\s*(?:#.*)?$\<close>\<close>

definition only_comment :: "string \<Rightarrow> bool" where
  "only_comment s \<longleftrightarrow> (let t = dropWhile is_space s in t = [] \<or> (hd t = CHR ''#'' \<and> one_line t))"

text \<open>\<open>(.*?)\\s*(?:#.*)?$\<close>: the shortest value in front of an optional comment.\<close>

definition lazy_value :: "string \<Rightarrow> string option" where
  "lazy_value s =
     (case List.find (\<lambda>i. one_line (take i s) \<and> only_comment (drop i s)) [0..<Suc (length s)] of
        None \<Rightarrow> None | Some i \<Rightarrow> Some (take i s))"

definition include_match :: "string \<Rightarrow> string option" where
  "include_match line = Option.bind (after_word ''include'' line) lazy_value"

subsection \<open>Expansion\<close>

text \<open>What has been written, and the skips in the order in which they are recorded.\<close>

type_synonym expansion = "string list \<times> skip list"

text \<open>The expansion of a nested text: its directory, its key and the keys visited so far.\<close>

type_synonym nested = "string \<Rightarrow> string \<Rightarrow> string option \<Rightarrow> string list \<Rightarrow> skip list \<Rightarrow> string \<times> skip list"

definition skip_include :: "string \<Rightarrow> skip list \<Rightarrow> skip list" where
  "skip_include detail skips = skips @ [(IncludeDirective, ''Include '' @ detail)]"

definition include_nested ::
    "nested \<Rightarrow> string list \<Rightarrow> string \<Rightarrow> string \<Rightarrow> string \<Rightarrow> string \<Rightarrow> expansion \<Rightarrow> expansion" where
  "include_nested rec visited key content dir cycle_detail ex = (case ex of (out, skips) \<Rightarrow>
     if key \<in> set visited then (out, skip_include cycle_detail skips)
     else case rec content dir (Some key) (key # visited) skips of
         (expanded, skips') \<Rightarrow> (out @ [expanded], skips'))"

definition include_glob ::
    "(string \<Rightarrow> string \<Rightarrow> int) \<Rightarrow> include_options \<Rightarrow> nested \<Rightarrow> string \<Rightarrow> string option \<Rightarrow>
     string list \<Rightarrow> string \<Rightarrow> expansion \<Rightarrow> expansion" where
  "include_glob lc opts rec base file visited entry ex = (case ex of (out, skips) \<Rightarrow>
     (case io_globFiles opts of
        None \<Rightarrow> (out, skip_include (entry @ '' (glob unsupported)'') skips)
      | Some globFiles \<Rightarrow>
          let pattern = normalizePath entry base in
          (case globFiles pattern (resolutionContext entry file) of
             Inl e \<Rightarrow> (out, skip_include (entry @ '' (glob error: '' @ e @ '')'') skips)
           | Inr files \<Rightarrow>
               if files = [] then (out, skip_include (entry @ '' (no matching files)'') skips)
               else fold (\<lambda>f. include_nested rec visited (if_cycleKey f) (if_content f)
                     (dirnamePath (normalizePath (if_name f) (dirnamePath pattern)))
                     (entry @ '' matched file '' @ json_string (if_name f) @ '' (cycle)''))
                 (js_sort (\<lambda>l r. lc (if_name l) (if_name r)) files) (out, skips))))"

definition include_entry ::
    "(string \<Rightarrow> string \<Rightarrow> int) \<Rightarrow> include_options \<Rightarrow> nested \<Rightarrow> string \<Rightarrow> string option \<Rightarrow>
     string list \<Rightarrow> string \<Rightarrow> expansion \<Rightarrow> expansion" where
  "include_entry lc opts rec base file visited entry ex = (case ex of (out, skips) \<Rightarrow>
     if hasGlobChar entry then include_glob lc opts rec base file visited entry ex
     else let path = normalizePath entry base in
       (case io_readFile opts path (resolutionContext entry file) of
          ReadError e \<Rightarrow> (out, skip_include (entry @ '' (read error: '' @ e @ '')'') skips)
        | ReadRejected \<Rightarrow> (out, skip_include (entry @ '' (not found or rejected)'') skips)
        | ReadOk key content \<Rightarrow>
            include_nested rec visited key content (dirnamePath path) (entry @ '' (cycle)'') ex))"

definition include_line ::
    "(string \<Rightarrow> string \<Rightarrow> int) \<Rightarrow> include_options \<Rightarrow> nested \<Rightarrow> string \<Rightarrow> string option \<Rightarrow>
     string list \<Rightarrow> string \<Rightarrow> bool \<times> expansion \<Rightarrow> bool \<times> expansion" where
  "include_line lc opts rec base file visited line st = (case st of (inside, out, skips) \<Rightarrow>
     if block_directive line then (True, out @ [line], skips)
     else case include_match line of
         None \<Rightarrow> (inside, out @ [line], skips)
       | Some v \<Rightarrow>
           if v = [] then (inside, out @ [line], skips)
           else if inside then
             (inside, out, skip_include (v @ '' (conditional block unsupported)'') skips)
           else (inside, fold (include_entry lc opts rec base file visited) (split_words v) (out, skips)))"

primrec expandText ::
    "(string \<Rightarrow> string \<Rightarrow> int) \<Rightarrow> include_options \<Rightarrow> nat \<Rightarrow> nested" where
  "expandText lc opts 0 config base file visited skips =
     ([], skips @ [(IncludeDirective,
       ''Include depth limit ('' @ show_nat (io_maxDepth opts) @ '') exceeded'')])"
| "expandText lc opts (Suc n) config base file visited skips =
     (case fold (include_line lc opts (expandText lc opts n) base file visited) (split_lines config)
             (False, [], skips) of
        (_, out, skips') \<Rightarrow> (join [CHR 0x0A] out, skips'))"

definition resolveSshIncludes ::
    "(string \<Rightarrow> string \<Rightarrow> int) \<Rightarrow> include_options \<Rightarrow> string \<Rightarrow> string \<times> skip list" where
  "resolveSshIncludes lc opts config =
     expandText lc opts (Suc (io_maxDepth opts)) config (io_baseDir opts) None [] []"

subsection \<open>The limit is never reached by a finite set of files\<close>

definition keys_in :: "include_options \<Rightarrow> string set \<Rightarrow> bool" where
  "keys_in opts K \<longleftrightarrow>
     (\<forall>p c k t. io_readFile opts p c = ReadOk k t \<longrightarrow> k \<in> K) \<and>
     (\<forall>g p c fs. io_globFiles opts = Some g \<longrightarrow> g p c = Inr fs \<longrightarrow> if_cycleKey ` set fs \<subseteq> K)"

text \<open>Two expansions of nested texts that agree on every file that is not yet visited.\<close>

definition agree :: "string set \<Rightarrow> string list \<Rightarrow> nested \<Rightarrow> nested \<Rightarrow> bool" where
  "agree K visited r1 r2 \<longleftrightarrow> (\<forall>content dir key skips. key \<in> K \<longrightarrow> key \<notin> set visited \<longrightarrow>
     r1 content dir (Some key) (key # visited) skips = r2 content dir (Some key) (key # visited) skips)"

lemma include_nested_agree:
  "agree K visited r1 r2 \<Longrightarrow> key \<in> K \<Longrightarrow>
   include_nested r1 visited key content dir d ex = include_nested r2 visited key content dir d ex"
  by (simp add: agree_def include_nested_def split: prod.split)

lemma include_glob_agree:
  assumes "agree K visited r1 r2" "keys_in opts K"
  shows "include_glob lc opts r1 base file visited entry ex = include_glob lc opts r2 base file visited entry ex"
proof -
  have "fold (\<lambda>f. include_nested r1 visited (if_cycleKey f) (if_content f) (dir f) (d f)) fs ex0 =
      fold (\<lambda>f. include_nested r2 visited (if_cycleKey f) (if_content f) (dir f) (d f)) fs ex0"
    if "if_cycleKey ` set fs \<subseteq> K" for fs dir d ex0
    using that by (intro fold_cong refl ext include_nested_agree[OF assms(1)]) auto
  note same = this
  obtain out skips where ex: "ex = (out, skips)" by (cases ex)
  show ?thesis
  proof (cases "io_globFiles opts")
    case None
    then show ?thesis by (simp add: include_glob_def ex)
  next
    case (Some g)
    show ?thesis
    proof (cases "g (normalizePath entry base) (resolutionContext entry file)")
      case (Inl e)
      with Some show ?thesis by (simp add: include_glob_def ex Let_def)
    next
      case (Inr fs)
      then have "if_cycleKey ` set (js_sort (\<lambda>l r. lc (if_name l) (if_name r)) fs) \<subseteq> K"
        using assms(2) Some by (simp add: keys_in_def)
      note same[OF this]
      then show ?thesis using Some Inr unfolding include_glob_def ex by (simp add: Let_def)
    qed
  qed
qed

lemma include_entry_agree:
  assumes "agree K visited r1 r2" "keys_in opts K"
  shows "include_entry lc opts r1 base file visited entry ex = include_entry lc opts r2 base file visited entry ex"
proof -
  have "k \<in> K" if "io_readFile opts p c = ReadOk k t" for p c k t
    using assms(2) that unfolding keys_in_def by blast
  then show ?thesis
    using include_glob_agree[OF assms] include_nested_agree[OF assms(1)]
    by (cases ex) (simp add: include_entry_def Let_def split: file_read.split)
qed

lemma include_line_agree:
  assumes "agree K visited r1 r2" "keys_in opts K"
  shows "include_line lc opts r1 base file visited line st = include_line lc opts r2 base file visited line st"
proof -
  have "include_entry lc opts r1 base file visited = include_entry lc opts r2 base file visited"
    using include_entry_agree[OF assms] by (intro ext)
  then show ?thesis by (simp only: include_line_def)
qed

lemma same_reader:
  "include_line lc (opts\<lparr>io_maxDepth := d\<rparr>) = include_line lc opts"
proof -
  have "include_glob lc (opts\<lparr>io_maxDepth := d\<rparr>) = include_glob lc opts"
    by (intro ext) (simp add: include_glob_def)
  moreover have "io_readFile (opts\<lparr>io_maxDepth := d\<rparr>) = io_readFile opts" by simp
  ultimately have "include_entry lc (opts\<lparr>io_maxDepth := d\<rparr>) = include_entry lc opts"
    by (intro ext) (simp only: include_entry_def)
  then show ?thesis by (intro ext) (simp only: include_line_def)
qed

lemma expandText_limit:
  assumes "finite K" "keys_in opts K"
    and "card (K - set visited) < n" "card (K - set visited) < m"
  shows "expandText lc (opts\<lparr>io_maxDepth := d\<rparr>) n config base file visited skips =
    expandText lc opts m config base file visited skips"
  using assms(3,4)
proof (induction n arbitrary: m config base "file" visited skips)
  case (Suc n)
  obtain m' where m: "m = Suc m'" using Suc.prems(2) by (cases m) auto
  have "agree K visited (expandText lc (opts\<lparr>io_maxDepth := d\<rparr>) n) (expandText lc opts m')"
    unfolding agree_def
  proof (intro allI impI)
    fix content dir key and sk :: "skip list"
    assume key: "key \<in> K" "key \<notin> set visited"
    have "card (K - set (key # visited)) < card (K - set visited)"
      using key assms(1) by (intro psubset_card_mono) auto
    then show "expandText lc (opts\<lparr>io_maxDepth := d\<rparr>) n content dir (Some key) (key # visited) sk =
        expandText lc opts m' content dir (Some key) (key # visited) sk"
      using Suc.prems m by (intro Suc.IH) linarith+
  qed
  then have "include_line lc opts (expandText lc (opts\<lparr>io_maxDepth := d\<rparr>) n) base file visited =
      include_line lc opts (expandText lc opts m') base file visited"
    using include_line_agree[OF _ assms(2)] by (intro ext) blast
  then show ?case by (simp add: m same_reader)
qed simp

text \<open>Include directives, cyclic ones too, are expanded in finitely many steps, and the keys of the
  visited files alone see to that: if no more than \<open>maxDepth\<close> distinct files can be read, a larger
  limit changes nothing, neither the text nor the report, so nothing is cut off.\<close>

theorem include_limit_not_reached:
  assumes "finite K" "keys_in opts K" "card K \<le> io_maxDepth opts" "card K \<le> d"
  shows "resolveSshIncludes lc (opts\<lparr>io_maxDepth := d\<rparr>) config = resolveSshIncludes lc opts config"
  unfolding resolveSshIncludes_def
  using expandText_limit[OF assms(1,2), of "[]" "Suc d" "Suc (io_maxDepth opts)" lc d config] assms(3,4)
  by simp

text \<open>A configuration that includes itself.\<close>

definition self_including :: include_options where
  "self_including = \<lparr>io_readFile = (\<lambda>p c. ReadOk ''k'' ''Include self''), io_globFiles = None,
     io_baseDir = DEFAULT_BASE_DIR, io_maxDepth = DEFAULT_MAX_DEPTH\<rparr>"

lemma include_limit_not_reached_witness:
  "resolveSshIncludes code_unit_compare (self_including\<lparr>io_maxDepth := 1000\<rparr>) ''Include self'' =
   resolveSshIncludes code_unit_compare self_including ''Include self''"
  by (rule include_limit_not_reached[of "{''k''}"])
    (simp_all add: keys_in_def self_including_def DEFAULT_MAX_DEPTH_def)

end
