(* ===== verification/MergeRecords.thy ===== *)
theory MergeRecords
  imports Json VaultSync
begin

section \<open>Merging one collection (\<open>lib/local-config.ts\<close>)\<close>

text \<open>
  An import can be merged into the local records: collection by collection, identifier by
  identifier, with the tombstones of the imported side. \<open>'a kind_ops\<close> holds what the merge needs
  to know of a kind of record: the identifier, the time stamp, and the objects behind a local and
  behind an imported record, which \<open>stableSerialize\<close> compares. The two views differ where a local
  record holds a property that is \<open>undefined\<close>, which no parsed file can.
\<close>

record 'a kind_ops =
  ko_id :: "'a \<Rightarrow> string"
  ko_stamp :: "'a \<Rightarrow> string"
  ko_local :: "'a \<Rightarrow> json"
  ko_imported :: "'a \<Rightarrow> json"

datatype resolution = Block | KeepLocal | PreferImported

record merge_section =
  ms_added :: nat
  ms_updated :: nat
  ms_removed :: nat
  ms_retainedLocal :: nat
  ms_unchanged :: nat
  ms_conflicts :: nat
  ms_conflictingIds :: "string list"

definition createEmptyMergeSection :: merge_section where
  "createEmptyMergeSection = \<lparr>ms_added = 0, ms_updated = 0, ms_removed = 0, ms_retainedLocal = 0,
     ms_unchanged = 0, ms_conflicts = 0, ms_conflictingIds = []\<rparr>"

text \<open>What the loop has done so far: the merged records and the counters.\<close>

type_synonym 'a merge_state = "'a list \<times> merge_section"

definition keep_record :: "(merge_section \<Rightarrow> merge_section) \<Rightarrow> 'a \<Rightarrow> 'a merge_state \<Rightarrow> 'a merge_state" where
  "keep_record tally r acc = (fst acc @ [r], tally (snd acc))"

definition drop_record :: "(merge_section \<Rightarrow> merge_section) \<Rightarrow> 'a merge_state \<Rightarrow> 'a merge_state" where
  "drop_record tally acc = (fst acc, tally (snd acc))"

definition count_added :: "merge_section \<Rightarrow> merge_section" where
  "count_added s = s\<lparr>ms_added := ms_added s + 1\<rparr>"

definition count_updated :: "merge_section \<Rightarrow> merge_section" where
  "count_updated s = s\<lparr>ms_updated := ms_updated s + 1\<rparr>"

definition count_removed :: "merge_section \<Rightarrow> merge_section" where
  "count_removed s = s\<lparr>ms_removed := ms_removed s + 1\<rparr>"

definition count_retained :: "merge_section \<Rightarrow> merge_section" where
  "count_retained s = s\<lparr>ms_retainedLocal := ms_retainedLocal s + 1\<rparr>"

definition count_unchanged :: "merge_section \<Rightarrow> merge_section" where
  "count_unchanged s = s\<lparr>ms_unchanged := ms_unchanged s + 1\<rparr>"

definition count_conflict :: "string \<Rightarrow> merge_section \<Rightarrow> merge_section" where
  "count_conflict i s = s\<lparr>ms_conflicts := ms_conflicts s + 1, ms_conflictingIds := ms_conflictingIds s @ [i]\<rparr>"

definition same_content :: "(string \<Rightarrow> string \<Rightarrow> int) \<Rightarrow> 'a kind_ops \<Rightarrow> 'a \<Rightarrow> 'a \<Rightarrow> bool" where
  "same_content lc K l r \<longleftrightarrow> stableSerialize lc (ko_local K l) = stableSerialize lc (ko_imported K r)"

text \<open>A local record whose identifier the imported side has deleted and does not hold.\<close>

definition merge_deleted ::
    "'a kind_ops \<Rightarrow> resolution \<Rightarrow> string \<Rightarrow> 'a \<Rightarrow> deletion \<Rightarrow> 'a merge_state \<Rightarrow> 'a merge_state" where
  "merge_deleted K res i l d acc =
     (if ko_stamp K l < d_deletedAt d then drop_record count_removed acc
      else if ko_stamp K l > d_deletedAt d then keep_record count_retained l acc
      else let acc = drop_record (count_conflict i) acc in
        if res = PreferImported then drop_record count_removed acc else keep_record id l acc)"

text \<open>A record that both sides hold.\<close>

definition merge_both ::
    "(string \<Rightarrow> string \<Rightarrow> int) \<Rightarrow> 'a kind_ops \<Rightarrow> resolution \<Rightarrow> string \<Rightarrow> 'a \<Rightarrow> 'a \<Rightarrow> 'a merge_state \<Rightarrow>
     'a merge_state" where
  "merge_both lc K res i l r acc =
     (if same_content lc K l r then keep_record count_unchanged l acc
      else if ko_stamp K r > ko_stamp K l then keep_record count_updated r acc
      else if ko_stamp K r < ko_stamp K l then keep_record count_retained l acc
      else keep_record (count_conflict i) (if res = PreferImported then r else l) acc)"

definition merge_id ::
    "(string \<Rightarrow> string \<Rightarrow> int) \<Rightarrow> 'a kind_ops \<Rightarrow> resolution \<Rightarrow> 'a obj \<Rightarrow> 'a obj \<Rightarrow> deletion obj \<Rightarrow>
     string \<Rightarrow> 'a merge_state \<Rightarrow> 'a merge_state" where
  "merge_id lc K res localById importedById deletionById i acc =
     (case (obj_get localById i, obj_get importedById i, obj_get deletionById i) of
        (None, None, _) \<Rightarrow> acc
      | (Some l, None, Some d) \<Rightarrow> merge_deleted K res i l d acc
      | (None, Some r, _) \<Rightarrow> keep_record count_added r acc
      | (Some l, None, None) \<Rightarrow> keep_record count_retained l acc
      | (Some l, Some r, _) \<Rightarrow> merge_both lc K res i l r acc)"

definition by_id :: "('a \<Rightarrow> string) \<Rightarrow> 'a list \<Rightarrow> 'a obj" where
  "by_id rid xs = from_entries (map (\<lambda>r. (rid r, r)) xs)"

definition merge_records ::
    "(string \<Rightarrow> string \<Rightarrow> int) \<Rightarrow> 'a kind_ops \<Rightarrow> 'a list \<Rightarrow> 'a list \<Rightarrow> deletion list \<Rightarrow> resolution \<Rightarrow>
     'a merge_state" where
  "merge_records lc K locals imported deletions res =
     (let localById = by_id (ko_id K) locals; importedById = by_id (ko_id K) imported;
          deletionById = by_id d_id deletions
      in fold (merge_id lc K res localById importedById deletionById)
           (dedup (map fst localById @ map fst importedById)) ([], createEmptyMergeSection))"

definition mergeCollection ::
    "(string \<Rightarrow> string \<Rightarrow> int) \<Rightarrow> 'a kind_ops \<Rightarrow> 'a list \<Rightarrow> 'a list \<Rightarrow> ('a list \<Rightarrow> 'a list) \<Rightarrow>
     deletion list \<Rightarrow> resolution \<Rightarrow> 'a merge_state" where
  "mergeCollection lc K locals imported sortRecords deletions res =
     (let m = merge_records lc K locals imported deletions res in (sortRecords (fst m), snd m))"

subsection \<open>Merging tombstones\<close>

definition merge_deletion :: "string set \<Rightarrow> deletion \<Rightarrow> deletion obj \<Rightarrow> deletion obj" where
  "merge_deletion surviving e m =
     (if d_id e \<in> surviving then m
      else case obj_get m (d_id e) of
             None \<Rightarrow> obj_set (d_id e) e m
           | Some ex \<Rightarrow> if d_deletedAt e > d_deletedAt ex then obj_set (d_id e) e m else m)"

definition mergeDeletionEntries ::
    "(string \<Rightarrow> string \<Rightarrow> int) \<Rightarrow> deletion list \<Rightarrow> deletion list \<Rightarrow> string set \<Rightarrow> deletion list" where
  "mergeDeletionEntries lc locals imported surviving =
     by_newest lc d_deletedAt (map snd (fold (merge_deletion surviving) (locals @ imported) []))"

subsection \<open>The outcome for one identifier\<close>

text \<open>
  What the merge promises, without the loop: the verdict on an identifier depends on what the two
  sides and the imported tombstones hold for it and on nothing else, and so does the record that
  survives.
\<close>

datatype verdict = Absent | Added | Updated | Removed | Retained | Unchanged | Conflict

definition verdict ::
    "(string \<Rightarrow> string \<Rightarrow> int) \<Rightarrow> 'a kind_ops \<Rightarrow> 'a option \<Rightarrow> 'a option \<Rightarrow> deletion option \<Rightarrow> verdict" where
  "verdict lc K lo io d =
     (case lo of
        None \<Rightarrow> (if io = None then Absent else Added)
      | Some l \<Rightarrow> (case io of
          None \<Rightarrow> (case d of
              None \<Rightarrow> Retained
            | Some t \<Rightarrow> if ko_stamp K l < d_deletedAt t then Removed
                        else if ko_stamp K l = d_deletedAt t then Conflict else Retained)
        | Some r \<Rightarrow> if same_content lc K l r then Unchanged
            else if ko_stamp K l < ko_stamp K r then Updated
            else if ko_stamp K l = ko_stamp K r then Conflict else Retained))"

definition survivor :: "resolution \<Rightarrow> verdict \<Rightarrow> 'a option \<Rightarrow> 'a option \<Rightarrow> 'a option" where
  "survivor res v lo io =
     (case v of
        Absent \<Rightarrow> None | Removed \<Rightarrow> None | Added \<Rightarrow> io | Updated \<Rightarrow> io
      | Retained \<Rightarrow> lo | Unchanged \<Rightarrow> lo
      | Conflict \<Rightarrow> (if res = PreferImported then io else lo))"

lemmas merge_count_defs = count_added_def count_updated_def count_removed_def count_retained_def
  count_unchanged_def count_conflict_def keep_record_def drop_record_def

text \<open>How often each verdict occurs, in the counters of a section.\<close>

definition section_of :: "resolution \<Rightarrow> (string \<Rightarrow> verdict) \<Rightarrow> (string \<Rightarrow> bool) \<Rightarrow> string list \<Rightarrow> merge_section" where
  "section_of res v gone ids =
     (let n = (\<lambda>x. length (filter (\<lambda>i. v i = x) ids)) in
      \<lparr>ms_added = n Added, ms_updated = n Updated,
       ms_removed = n Removed + length (filter (\<lambda>i. v i = Conflict \<and> gone i \<and> res = PreferImported) ids),
       ms_retainedLocal = n Retained, ms_unchanged = n Unchanged, ms_conflicts = n Conflict,
       ms_conflictingIds = filter (\<lambda>i. v i = Conflict) ids\<rparr>)"

lemma section_of_Nil [simp]: "section_of res v gone [] = createEmptyMergeSection"
  by (simp add: section_of_def createEmptyMergeSection_def Let_def)

definition step_section :: "resolution \<Rightarrow> verdict \<Rightarrow> bool \<Rightarrow> string \<Rightarrow> merge_section \<Rightarrow> merge_section" where
  "step_section res v gone i =
     (case v of
        Absent \<Rightarrow> id | Added \<Rightarrow> count_added | Updated \<Rightarrow> count_updated | Removed \<Rightarrow> count_removed
      | Retained \<Rightarrow> count_retained | Unchanged \<Rightarrow> count_unchanged
      | Conflict \<Rightarrow> (if gone \<and> res = PreferImported then count_removed else id) \<circ> count_conflict i)"

lemma section_of_snoc:
  "section_of res v gone (ids @ [i]) = step_section res (v i) (gone i) i (section_of res v gone ids)"
  by (cases "v i") (simp_all add: section_of_def step_section_def Let_def merge_count_defs)

lemma merge_id_step:
  fixes lc K L I D i
  defines "v \<equiv> verdict lc K (obj_get L i) (obj_get I i) (obj_get D i)"
  shows "merge_id lc K res L I D i acc =
    (fst acc @ (case survivor res v (obj_get L i) (obj_get I i) of None \<Rightarrow> [] | Some r \<Rightarrow> [r]),
     step_section res v (obj_get I i = None) i (snd acc))"
proof (cases "obj_get L i")
  case None
  then show ?thesis
    by (cases acc; cases "obj_get I i")
      (simp_all add: v_def merge_id_def verdict_def survivor_def step_section_def merge_count_defs)
next
  case l: (Some l)
  show ?thesis
  proof (cases "obj_get I i")
    case None
    with l show ?thesis
      by (cases acc; cases "obj_get D i")
        (auto simp: v_def merge_id_def verdict_def survivor_def step_section_def merge_count_defs
          merge_deleted_def Let_def)
  next
    case (Some r)
    with l show ?thesis
      by (cases acc)
        (auto simp: v_def merge_id_def verdict_def survivor_def step_section_def merge_count_defs
          merge_both_def)
  qed
qed

definition verdict_at ::
    "(string \<Rightarrow> string \<Rightarrow> int) \<Rightarrow> 'a kind_ops \<Rightarrow> 'a list \<Rightarrow> 'a list \<Rightarrow> deletion list \<Rightarrow> string \<Rightarrow> verdict" where
  "verdict_at lc K locals imported deletions i =
     verdict lc K (obj_get (by_id (ko_id K) locals) i) (obj_get (by_id (ko_id K) imported) i)
       (obj_get (by_id d_id deletions) i)"

definition survivor_at ::
    "(string \<Rightarrow> string \<Rightarrow> int) \<Rightarrow> 'a kind_ops \<Rightarrow> 'a list \<Rightarrow> 'a list \<Rightarrow> deletion list \<Rightarrow> resolution \<Rightarrow>
     string \<Rightarrow> 'a option" where
  "survivor_at lc K locals imported deletions res i =
     survivor res (verdict_at lc K locals imported deletions i)
       (obj_get (by_id (ko_id K) locals) i) (obj_get (by_id (ko_id K) imported) i)"

definition merge_ids :: "'a kind_ops \<Rightarrow> 'a list \<Rightarrow> 'a list \<Rightarrow> string list" where
  "merge_ids K locals imported =
     dedup (map fst (by_id (ko_id K) locals) @ map fst (by_id (ko_id K) imported))"

lemma merge_records_spec:
  "merge_records lc K locals imported deletions res =
    (concat (map (\<lambda>i. case survivor_at lc K locals imported deletions res i of None \<Rightarrow> [] | Some r \<Rightarrow> [r])
       (merge_ids K locals imported)),
     section_of res (verdict_at lc K locals imported deletions)
       (\<lambda>i. obj_get (by_id (ko_id K) imported) i = None) (merge_ids K locals imported))"
proof -
  let ?L = "by_id (ko_id K) locals" and ?I = "by_id (ko_id K) imported" and ?D = "by_id d_id deletions"
  let ?c = "\<lambda>i. case survivor_at lc K locals imported deletions res i of None \<Rightarrow> [] | Some r \<Rightarrow> [r]"
  let ?s = "section_of res (verdict_at lc K locals imported deletions) (\<lambda>i. obj_get ?I i = None)"
  have "fold (merge_id lc K res ?L ?I ?D) is (concat (map ?c pre), ?s pre) =
      (concat (map ?c (pre @ is)), ?s (pre @ is))" for "is" pre
  proof (induction "is" arbitrary: pre)
    case (Cons i "is")
    have "merge_id lc K res ?L ?I ?D i (concat (map ?c pre), ?s pre) =
        (concat (map ?c (pre @ [i])), ?s (pre @ [i]))"
      unfolding merge_id_step section_of_snoc by (simp add: survivor_at_def verdict_at_def)
    with Cons.IH[of "pre @ [i]"] show ?case by simp
  qed simp
  from this[of "merge_ids K locals imported" "[]"] show ?thesis
    by (simp add: merge_records_def merge_ids_def Let_def)
qed

subsection \<open>What survives a merge\<close>

lemma by_id_distinct: "distinct (map rid xs) \<Longrightarrow> by_id rid xs = map (\<lambda>r. (rid r, r)) xs"
  unfolding by_id_def from_entries_def by (subst fold_obj_set_new) (simp_all add: comp_def)

lemma fold_obj_set_keys: "fst ` set (fold (\<lambda>(k, v) m. obj_set k v m) es m) = fst ` set m \<union> fst ` set es"
  by (induction es arbitrary: m) (auto simp: keys_obj_set case_prod_beta)

lemma by_id_keys [simp]: "fst ` set (by_id rid xs) = rid ` set xs"
  by (simp add: by_id_def from_entries_def fold_obj_set_keys image_image)

lemma by_id_step: "by_id rid (xs @ [x]) = obj_set (rid x) x (by_id rid xs)"
  by (simp add: by_id_def from_entries_def)

lemma by_id_get_sound: "obj_get (by_id rid xs) i = Some r \<Longrightarrow> r \<in> set xs \<and> rid r = i"
  by (induction xs rule: rev_induct)
    (auto simp: by_id_step obj_get_set by_id_def[of rid "[]"] from_entries_def split: if_splits)

lemma by_id_get_None: "obj_get (by_id rid xs) i = None \<longleftrightarrow> i \<notin> rid ` set xs"
  by (simp add: obj_get_None_iff)

lemma by_id_get_distinct:
  "distinct (map rid xs) \<Longrightarrow> obj_get (by_id rid xs) i = Some r \<longleftrightarrow> r \<in> set xs \<and> rid r = i"
  by (auto simp: by_id_distinct comp_def map_of_eq_Some_iff)

lemma set_merge_ids [simp]: "set (merge_ids K locals imported) = ko_id K ` (set locals \<union> set imported)"
  by (simp add: merge_ids_def image_Un)

lemma distinct_merge_ids [simp]: "distinct (merge_ids K locals imported)"
  by (simp add: merge_ids_def)

lemma survivor_side: "survivor res v lo io = Some r \<Longrightarrow> lo = Some r \<or> io = Some r"
  by (auto simp: survivor_def split: verdict.splits if_splits)

lemma survivor_at_id:
  "survivor_at lc K locals imported deletions res i = Some r \<Longrightarrow>
   ko_id K r = i \<and> r \<in> set locals \<union> set imported"
  unfolding survivor_at_def by (drule survivor_side) (auto dest: by_id_get_sound)

lemma merge_records_set:
  "r \<in> set (fst (merge_records lc K locals imported deletions res)) \<longleftrightarrow>
   survivor_at lc K locals imported deletions res (ko_id K r) = Some r"
proof -
  have "r \<in> set (fst (merge_records lc K locals imported deletions res)) \<longleftrightarrow>
      (\<exists>i \<in> ko_id K ` (set locals \<union> set imported).
         survivor_at lc K locals imported deletions res i = Some r)"
    by (fastforce simp: merge_records_spec split: option.splits)
  also have "\<dots> \<longleftrightarrow> survivor_at lc K locals imported deletions res (ko_id K r) = Some r"
    using survivor_at_id by (metis imageI)
  finally show ?thesis .
qed

lemma distinct_concat_options:
  "distinct is \<Longrightarrow> (\<And>i r. f i = Some r \<Longrightarrow> rid r = i) \<Longrightarrow>
   distinct (map rid (concat (map (\<lambda>i. case f i of None \<Rightarrow> [] | Some r \<Rightarrow> [r]) is)))"
proof (induction "is")
  case (Cons i "is")
  then show ?case by (auto split: option.splits)
qed simp

lemma merge_records_distinct: "distinct (map (ko_id K) (fst (merge_records lc K locals imported deletions res)))"
  unfolding merge_records_spec fst_conv by (rule distinct_concat_options) (auto dest: survivor_at_id)

lemma merge_records_ids:
  "i \<in> ko_id K ` set (fst (merge_records lc K locals imported deletions res)) \<longleftrightarrow>
   survivor_at lc K locals imported deletions res i \<noteq> None"
proof
  assume "survivor_at lc K locals imported deletions res i \<noteq> None"
  then obtain r where r: "survivor_at lc K locals imported deletions res i = Some r" by blast
  with survivor_at_id[OF r] show "i \<in> ko_id K ` set (fst (merge_records lc K locals imported deletions res))"
    by (intro image_eqI[of _ _ r]) (simp_all add: merge_records_set)
qed (auto simp: merge_records_set)

lemma imported_ids_survive:
  "i \<in> ko_id K ` set imported \<Longrightarrow> survivor_at lc K locals imported deletions res i \<noteq> None"
proof -
  assume "i \<in> ko_id K ` set imported"
  then have "obj_get (by_id (ko_id K) imported) i \<noteq> None" by (simp add: by_id_get_None)
  then obtain r where "obj_get (by_id (ko_id K) imported) i = Some r" by blast
  then show ?thesis
    by (cases "obj_get (by_id (ko_id K) locals) i")
      (auto simp: survivor_at_def verdict_at_def survivor_def verdict_def split: if_splits)
qed

lemma mergeCollection_fst [simp]:
  "fst (mergeCollection lc K locals imported srt deletions res) =
   srt (fst (merge_records lc K locals imported deletions res))"
  by (simp add: mergeCollection_def Let_def)

lemma mergeCollection_snd [simp]:
  "snd (mergeCollection lc K locals imported srt deletions res) =
   snd (merge_records lc K locals imported deletions res)"
  by (simp add: mergeCollection_def Let_def)

text \<open>The section does not depend on the order of equal identifiers or on the sort; with no conflict
  the way conflicts are resolved does not matter.\<close>

lemma merge_no_conflict:
  assumes "ms_conflicts (snd (merge_records lc K locals imported deletions res)) = 0"
  shows "merge_records lc K locals imported deletions res' = merge_records lc K locals imported deletions res"
proof -
  let ?v = "verdict_at lc K locals imported deletions"
  have none: "\<And>i. i \<in> set (merge_ids K locals imported) \<Longrightarrow> ?v i \<noteq> Conflict"
    using assms by (auto simp: merge_records_spec section_of_def Let_def filter_empty_conv)
  have "survivor_at lc K locals imported deletions res' i = survivor_at lc K locals imported deletions res i"
    if "i \<in> set (merge_ids K locals imported)" for i
    using none[OF that] by (cases "?v i") (simp_all add: survivor_at_def survivor_def)
  moreover have "filter (\<lambda>i. ?v i = Conflict \<and> P i \<and> Q) (merge_ids K locals imported) = []" for P Q
    using none by (auto simp: filter_empty_conv)
  ultimately show ?thesis
    by (auto simp: merge_records_spec section_of_def Let_def intro!: arg_cong[of _ _ concat])
qed

subsection \<open>What the merged tombstones are\<close>

definition newest_inv :: "string set \<Rightarrow> deletion list \<Rightarrow> deletion obj \<Rightarrow> bool" where
  "newest_inv S es m \<longleftrightarrow> obj_wf m \<and>
     (\<forall>k v. obj_get m k = Some v \<longrightarrow> v \<in> set es \<and> d_id v = k \<and> k \<notin> S \<and>
        (\<forall>e \<in> set es. d_id e = k \<longrightarrow> d_deletedAt e \<le> d_deletedAt v)) \<and>
     (\<forall>e \<in> set es. d_id e \<notin> S \<longrightarrow> obj_get m (d_id e) \<noteq> None)"

lemma newest_inv_step:
  assumes "newest_inv S es m"
  shows "newest_inv S (es @ [e]) (merge_deletion S e m)"
proof (cases "d_id e \<in> S")
  case True
  with assms show ?thesis unfolding newest_inv_def merge_deletion_def by auto
next
  case r: False
  show ?thesis
  proof (cases "obj_get m (d_id e)")
    case None
    with assms r show ?thesis
      unfolding newest_inv_def merge_deletion_def by (auto simp: obj_get_set split: if_splits)
  next
    case (Some v)
    show ?thesis
    proof (cases "d_deletedAt v < d_deletedAt e")
      case True
      have "d_deletedAt f \<le> d_deletedAt e" if "f \<in> set es" "d_id f = d_id e" for f
        using assms Some that True unfolding newest_inv_def by (metis order.strict_implies_order order.trans)
      with True Some assms r show ?thesis
        unfolding newest_inv_def merge_deletion_def
        by (auto simp: obj_get_set split: if_splits)
    next
      case False
      with Some assms r show ?thesis unfolding newest_inv_def merge_deletion_def by auto
    qed
  qed
qed

definition newest_deletions :: "string set \<Rightarrow> deletion list \<Rightarrow> deletion obj" where
  "newest_deletions S es = fold (merge_deletion S) es []"

lemma newest_inv_fold: "newest_inv S es (newest_deletions S es)"
proof (induction es rule: rev_induct)
  case (snoc e es)
  from newest_inv_step[OF snoc] show ?case by (simp add: newest_deletions_def)
qed (simp add: newest_inv_def newest_deletions_def)

lemma newest_get:
  assumes "obj_get (newest_deletions S es) k = Some v"
  shows "v \<in> set es" "d_id v = k" "k \<notin> S"
    "\<And>f. f \<in> set es \<Longrightarrow> d_id f = k \<Longrightarrow> d_deletedAt f \<le> d_deletedAt v"
  using newest_inv_fold[of S es] assms unfolding newest_inv_def by blast+

lemma newest_complete:
  assumes "f \<in> set es" "d_id f \<notin> S"
  obtains v where "obj_get (newest_deletions S es) (d_id f) = Some v"
  using newest_inv_fold[of S es] assms unfolding newest_inv_def by blast

lemma newest_mem: "e \<in> snd ` set (newest_deletions S es) \<longleftrightarrow> obj_get (newest_deletions S es) (d_id e) = Some e"
proof -
  have wf: "obj_wf (newest_deletions S es)" using newest_inv_fold[of S es] by (simp add: newest_inv_def)
  show ?thesis
  proof
    assume "e \<in> snd ` set (newest_deletions S es)"
    then obtain k where "obj_get (newest_deletions S es) k = Some e" using obj_wf_get[OF wf] by force
    with newest_get(2)[OF this] show "obj_get (newest_deletions S es) (d_id e) = Some e" by simp
  qed (force simp: obj_wf_get[OF wf, symmetric] intro: image_eqI)
qed

lemma mergeDeletionEntries_mem:
  "e \<in> set (mergeDeletionEntries lc locals imported S) \<longleftrightarrow>
   obj_get (newest_deletions S (locals @ imported)) (d_id e) = Some e"
proof -
  have "set (mergeDeletionEntries lc locals imported S) = snd ` set (newest_deletions S (locals @ imported))"
    by (simp add: mergeDeletionEntries_def newest_deletions_def)
  then show ?thesis by (simp only: newest_mem)
qed

lemma mergeDeletionEntries_entry:
  assumes "e \<in> set (mergeDeletionEntries lc locals imported S)"
  shows "e \<in> set locals \<union> set imported" "d_id e \<notin> S"
    "f \<in> set locals \<union> set imported \<Longrightarrow> d_id f = d_id e \<Longrightarrow> d_deletedAt f \<le> d_deletedAt e"
proof -
  note g = newest_get[OF assms[unfolded mergeDeletionEntries_mem]]
  show "e \<in> set locals \<union> set imported" "d_id e \<notin> S" using g(1,3) by simp_all
  show "f \<in> set locals \<union> set imported \<Longrightarrow> d_id f = d_id e \<Longrightarrow> d_deletedAt f \<le> d_deletedAt e"
    by (rule g(4)) simp_all
qed

lemma mergeDeletionEntries_ids:
  "d_id ` set (mergeDeletionEntries lc locals imported S) = d_id ` (set locals \<union> set imported) - S"
proof (intro equalityI subsetI)
  fix i assume "i \<in> d_id ` (set locals \<union> set imported) - S"
  then obtain f where f: "f \<in> set (locals @ imported)" "d_id f \<notin> S" "i = d_id f" by auto
  obtain v where v: "obj_get (newest_deletions S (locals @ imported)) (d_id f) = Some v"
    using newest_complete[OF f(1,2)] .
  then have "d_id v = i" "v \<in> set (mergeDeletionEntries lc locals imported S)"
    using newest_get(2)[OF v] f(3) by (simp_all add: mergeDeletionEntries_mem)
  then show "i \<in> d_id ` set (mergeDeletionEntries lc locals imported S)" by auto
qed (use mergeDeletionEntries_entry(1,2) in auto)

subsection \<open>No edit is lost\<close>

lemma by_id_self: "distinct (map rid xs) \<Longrightarrow> x \<in> set xs \<Longrightarrow> obj_get (by_id rid xs) (rid x) = Some x"
  by (simp add: by_id_get_distinct)

text \<open>The tombstone of an identifier that counts, the last one listed.\<close>

definition last_deletion :: "deletion list \<Rightarrow> string \<Rightarrow> deletion option" where
  "last_deletion deletions i = find (\<lambda>d. d_id d = i) (rev deletions)"

lemma by_id_find: "obj_get (by_id rid xs) i = find (\<lambda>x. rid x = i) (rev xs)"
proof (induction xs rule: rev_induct)
  case (snoc x xs)
  then show ?case by (simp add: by_id_step obj_get_set)
qed (simp add: by_id_def from_entries_def)

lemma by_id_last_deletion: "obj_get (by_id d_id deletions) i = last_deletion deletions i"
  by (simp add: by_id_find last_deletion_def)

text \<open>What becomes of a record that only one side holds, and of one that both hold.\<close>

lemma only_local_fate:
  assumes "distinct (map (ko_id K) locals)" "l \<in> set locals" "ko_id K l \<notin> ko_id K ` set imported"
  shows "l \<in> set (fst (merge_records lc K locals imported deletions res)) \<longleftrightarrow>
    (case last_deletion deletions (ko_id K l) of None \<Rightarrow> True
     | Some d \<Rightarrow> d_deletedAt d < ko_stamp K l \<or> d_deletedAt d = ko_stamp K l \<and> res \<noteq> PreferImported)"
proof -
  have "obj_get (by_id (ko_id K) imported) (ko_id K l) = None" using assms(3) by (simp add: by_id_get_None)
  then show ?thesis
    using by_id_self[OF assms(1,2)]
    by (auto simp: merge_records_set survivor_at_def verdict_at_def verdict_def survivor_def by_id_last_deletion
        split: option.splits)
qed

lemma only_imported_fate:
  assumes "distinct (map (ko_id K) imported)" "r \<in> set imported" "ko_id K r \<notin> ko_id K ` set locals"
  shows "r \<in> set (fst (merge_records lc K locals imported deletions res))"
proof -
  have "obj_get (by_id (ko_id K) locals) (ko_id K r) = None" using assms(3) by (simp add: by_id_get_None)
  then show ?thesis
    using by_id_self[OF assms(1,2)]
    by (simp add: merge_records_set survivor_at_def verdict_at_def verdict_def survivor_def)
qed

lemma both_fate:
  assumes "distinct (map (ko_id K) locals)" "l \<in> set locals"
    and "distinct (map (ko_id K) imported)" "r \<in> set imported" "ko_id K r = ko_id K l"
  shows "(if same_content lc K l r \<or> ko_stamp K r < ko_stamp K l \<or> ko_stamp K r = ko_stamp K l \<and> res \<noteq> PreferImported
      then l else r) \<in> set (fst (merge_records lc K locals imported deletions res))"
proof -
  have "obj_get (by_id (ko_id K) imported) (ko_id K l) = Some r"
    using by_id_self[OF assms(3,4)] assms(5) by simp
  then show ?thesis
    using by_id_self[OF assms(1,2)] assms(5)
    by (auto simp: merge_records_set survivor_at_def verdict_at_def verdict_def survivor_def)
qed

text \<open>
  A tie: both sides hold different versions with one time stamp, or the imported side deleted the
  record at the very time of the local change.
\<close>

definition tie ::
    "(string \<Rightarrow> string \<Rightarrow> int) \<Rightarrow> 'a kind_ops \<Rightarrow> 'a list \<Rightarrow> 'a list \<Rightarrow> deletion list \<Rightarrow> string \<Rightarrow> bool" where
  "tie lc K locals imported deletions i \<longleftrightarrow>
     (\<exists>l \<in> set locals. ko_id K l = i \<and>
        ((\<exists>r \<in> set imported. ko_id K r = i \<and> \<not> same_content lc K l r \<and> ko_stamp K l = ko_stamp K r) \<or>
         i \<notin> ko_id K ` set imported \<and>
           (\<exists>d. last_deletion deletions i = Some d \<and> ko_stamp K l = d_deletedAt d)))"

lemma conflict_iff_tie:
  assumes "distinct (map (ko_id K) locals)" "distinct (map (ko_id K) imported)"
  shows "verdict_at lc K locals imported deletions i = Conflict \<longleftrightarrow> tie lc K locals imported deletions i"
proof -
  note L = by_id_get_distinct[OF assms(1), of i] and I = by_id_get_distinct[OF assms(2), of i]
  have t: "tie lc K locals imported deletions i \<longleftrightarrow>
      (\<exists>l. obj_get (by_id (ko_id K) locals) i = Some l \<and>
        ((\<exists>r. obj_get (by_id (ko_id K) imported) i = Some r \<and> \<not> same_content lc K l r \<and> ko_stamp K l = ko_stamp K r) \<or>
         obj_get (by_id (ko_id K) imported) i = None \<and>
           (\<exists>d. last_deletion deletions i = Some d \<and> ko_stamp K l = d_deletedAt d)))"
    unfolding tie_def L I by_id_get_None by blast
  show ?thesis
    unfolding t verdict_at_def verdict_def by_id_last_deletion by (auto split: option.splits)
qed

lemma merge_conflicts:
  assumes "distinct (map (ko_id K) locals)" "distinct (map (ko_id K) imported)"
    and "s = snd (merge_records lc K locals imported deletions res)"
  shows "set (ms_conflictingIds s) = {i. tie lc K locals imported deletions i}"
    and "distinct (ms_conflictingIds s)" and "ms_conflicts s = length (ms_conflictingIds s)"
proof -
  have "i \<in> ko_id K ` (set locals \<union> set imported)" if "tie lc K locals imported deletions i" for i
    using that by (auto simp: tie_def)
  then show "set (ms_conflictingIds s) = {i. tie lc K locals imported deletions i}"
    using conflict_iff_tie[OF assms(1,2), of lc deletions]
    by (auto simp: assms(3) merge_records_spec section_of_def Let_def)
qed (simp_all add: assms(3) merge_records_spec section_of_def Let_def)

lemma mset_srt_ids: "(\<And>xs. mset (srt xs) = mset xs) \<Longrightarrow> record_store rid srt"
  by unfold_locales simp

lemma mset_srt_set: "(\<And>xs. mset (srt xs) = mset xs) \<Longrightarrow> set (srt xs) = set xs"
  by (metis set_mset_mset)

text \<open>C3: merging a collection loses no edit and invents none, for two sides that hold no identifier
  twice each and a sort that only permutes. A local record that the imported side does not hold stays
  unless its last tombstone is later than the record; an imported record that is new is taken; of two
  versions the later one survives, the local one if they are equal. Only a tie is a conflict: the
  conflicting identifiers are exactly those with two different versions of one time stamp or with a
  tombstone of the very time of the local record, each listed and counted once, and a tie is resolved
  the way the caller asked for.\<close>

theorem merge_loses_no_edit:
  assumes "distinct (map (ko_id K) locals)" "distinct (map (ko_id K) imported)"
    and "\<And>xs. mset (srt xs) = mset xs"
    and "(out, s) = mergeCollection lc K locals imported srt deletions res"
  shows "distinct (map (ko_id K) out) \<and> set out \<subseteq> set locals \<union> set imported \<and>
    (\<forall>l \<in> set locals. ko_id K l \<notin> ko_id K ` set imported \<longrightarrow>
       (l \<in> set out \<longleftrightarrow>
          (case last_deletion deletions (ko_id K l) of None \<Rightarrow> True
           | Some d \<Rightarrow> d_deletedAt d < ko_stamp K l \<or> d_deletedAt d = ko_stamp K l \<and> res \<noteq> PreferImported))) \<and>
    (\<forall>r \<in> set imported. ko_id K r \<notin> ko_id K ` set locals \<longrightarrow> r \<in> set out) \<and>
    (\<forall>l \<in> set locals. \<forall>r \<in> set imported. ko_id K r = ko_id K l \<longrightarrow>
       (if same_content lc K l r \<or> ko_stamp K r < ko_stamp K l \<or> ko_stamp K r = ko_stamp K l \<and> res \<noteq> PreferImported
        then l else r) \<in> set out) \<and>
    set (ms_conflictingIds s) = {i. tie lc K locals imported deletions i} \<and>
    distinct (ms_conflictingIds s) \<and> ms_conflicts s = length (ms_conflictingIds s)"
proof -
  let ?m = "merge_records lc K locals imported deletions res"
  have eq: "set out = set (fst ?m)" "s = snd ?m" "out = srt (fst ?m)"
    using assms(4) mset_srt_set[of srt, OF assms(3)] by (simp_all add: mergeCollection_def Let_def)
  have "set (fst ?m) \<subseteq> set locals \<union> set imported"
    using survivor_at_id by (force simp: merge_records_set)
  moreover have "distinct (map (ko_id K) out)"
    using merge_records_distinct record_store.srt_distinct[OF mset_srt_ids[of srt]] assms(3) eq(3) by metis
  moreover note merge_conflicts[OF assms(1,2) eq(2)]
  ultimately show ?thesis
    using only_local_fate[OF assms(1)] only_imported_fate[OF assms(2)] both_fate[OF assms(1) _ assms(2)]
    unfolding eq(1) by (intro conjI ballI impI) auto
qed

definition pair_ops :: "(string \<times> string) kind_ops" where
  "pair_ops = \<lparr>ko_id = fst, ko_stamp = snd, ko_local = JString \<circ> snd, ko_imported = JString \<circ> snd\<rparr>"

lemma merge_loses_no_edit_witness:
  "let (out, s) = mergeCollection code_unit_compare pair_ops
       [(''a'', ''1''), (''b'', ''2''), (''c'', ''2''), (''d'', ''1'')] [(''a'', ''3'')] (\<lambda>xs. xs)
       [\<lparr>d_id = ''b'', d_deletedAt = ''2''\<rparr>, \<lparr>d_id = ''c'', d_deletedAt = ''3''\<rparr>] Block
   in (''a'', ''3'') \<in> set out \<and> (''b'', ''2'') \<in> set out \<and> (''c'', ''2'') \<notin> set out \<and> (''d'', ''1'') \<in> set out \<and>
      ''b'' \<in> set (ms_conflictingIds s) \<and> ''c'' \<notin> set (ms_conflictingIds s)"
proof -
  let ?L = "[(''a'', ''1''), (''b'', ''2''), (''c'', ''2''), (''d'', ''1'')]" and ?I = "[(''a'', ''3'')]"
  let ?D = "[\<lparr>d_id = ''b'', d_deletedAt = ''2''\<rparr>, \<lparr>d_id = ''c'', d_deletedAt = ''3''\<rparr>]"
  obtain out s where m: "(out, s) = mergeCollection code_unit_compare pair_ops ?L ?I (\<lambda>xs. xs) ?D Block"
    by (metis surj_pair)
  have less: "''1'' < ''3''" "\<not> ''3'' < ''1''" "\<not> ''2'' < ''2''" "\<not> ''3'' < ''2''" by code_simp+
  have same: "\<not> same_content code_unit_compare pair_ops (''a'', ''1'') (''a'', ''3'')" by code_simp
  have tie: "tie code_unit_compare pair_ops ?L ?I ?D ''b''" "\<not> tie code_unit_compare pair_ops ?L ?I ?D ''c''"
    by (simp_all add: tie_def pair_ops_def last_deletion_def)
  note t = merge_loses_no_edit[OF _ _ _ m]
  show ?thesis
    unfolding m[symmetric] using t tie less same
    by (simp add: pair_ops_def last_deletion_def)
qed

end
