(* ===== verification/AppStore.thy ===== *)
theory AppStore
  imports Strings
begin

section \<open>Application settings (\<open>store/app-store.ts\<close>, \<open>lib/auto-update.ts\<close>)\<close>

text \<open>
  The store holds the settings, the identity of the vault and of the device, the one-shot flags of
  the introduction and the result of the last update check. \<open>tauri\<close> says whether the application
  runs natively (\<open>isTauriRuntime()\<close>); \<open>vid\<close> and \<open>did\<close> are the identifiers \<open>crypto.randomUUID()\<close>
  returns for a missing vault and a missing device.
\<close>

datatype workspace_density = Compact | Comfortable
datatype app_shell_theme = SystemTheme | LightTheme | DarkTheme

definition TERMINAL_THEME_NAMES :: "string list" where
  "TERMINAL_THEME_NAMES = [''auto'', ''slate-emerald'', ''solarized-dark'', ''solarized-light'',
     ''monokai'', ''nord'', ''high-contrast-light'']"

definition DEFAULT_TERMINAL_THEME :: string where
  "DEFAULT_TERMINAL_THEME = ''auto''"

text \<open>The argument is \<open>None\<close> when the value is not a string.\<close>

definition isKnownTheme :: "string option \<Rightarrow> bool" where
  "isKnownTheme v = (case v of None \<Rightarrow> False | Some t \<Rightarrow> t \<in> set TERMINAL_THEME_NAMES)"

record update_result =
  ur_available :: bool
  ur_version :: "string option"
  ur_notes :: "string option"

record persisted_app =
  pa_demoModeEnabled :: bool
  pa_sectionShortcutsEnabled :: bool
  pa_workspaceDensity :: workspace_density
  pa_terminalTheme :: string
  pa_vaultId :: string
  pa_deviceId :: string
  pa_lastAppliedSnapshotId :: "string option"
  pa_sawImportCallout :: bool
  pa_sawFirstRunTour :: bool
  pa_appShellTheme :: app_shell_theme
  pa_notificationsEnabled :: bool
  pa_dockBadgeEnabled :: bool
  pa_autoUpdateCheckOnLaunch :: bool
  pa_dismissedUpdateVersion :: "string option"

text \<open>\<open>Partial<PersistedAppState>\<close>: what an older payload may lack.\<close>

record partial_app =
  pp_demoModeEnabled :: "bool option"
  pp_sectionShortcutsEnabled :: "bool option"
  pp_workspaceDensity :: "workspace_density option"
  pp_terminalTheme :: "string option"
  pp_vaultId :: "string option"
  pp_deviceId :: "string option"
  pp_lastAppliedSnapshotId :: "string option"
  pp_sawImportCallout :: "bool option"
  pp_sawFirstRunTour :: "bool option"
  pp_appShellTheme :: "app_shell_theme option"
  pp_notificationsEnabled :: "bool option"
  pp_dockBadgeEnabled :: "bool option"
  pp_autoUpdateCheckOnLaunch :: "bool option"
  pp_dismissedUpdateVersion :: "string option"

text \<open>The whole state: what is stored and what is not.\<close>

record app_state =
  as_stored :: persisted_app
  as_sidebarSearch :: string
  as_commandPaletteOpen :: bool
  as_cheatsheetOpen :: bool
  as_updateResult :: "update_result option"

subsection \<open>Defaults and migration\<close>

definition getDefaultDemoModeEnabled :: "bool \<Rightarrow> bool" where
  "getDefaultDemoModeEnabled tauri = (\<not> tauri)"

definition buildBaselineDefaults :: "bool \<Rightarrow> string \<Rightarrow> string \<Rightarrow> partial_app \<Rightarrow> persisted_app" where
  "buildBaselineDefaults tauri vid did s = \<lparr>
     pa_demoModeEnabled = coalesce (pp_demoModeEnabled s) (getDefaultDemoModeEnabled tauri),
     pa_sectionShortcutsEnabled = coalesce (pp_sectionShortcutsEnabled s) True,
     pa_workspaceDensity = coalesce (pp_workspaceDensity s) Compact,
     pa_terminalTheme =
       (if isKnownTheme (pp_terminalTheme s) then coalesce (pp_terminalTheme s) DEFAULT_TERMINAL_THEME
        else DEFAULT_TERMINAL_THEME),
     pa_vaultId = coalesce (pp_vaultId s) vid,
     pa_deviceId = coalesce (pp_deviceId s) did,
     pa_lastAppliedSnapshotId = pp_lastAppliedSnapshotId s,
     pa_sawImportCallout = coalesce (pp_sawImportCallout s) False,
     pa_sawFirstRunTour = coalesce (pp_sawFirstRunTour s) False,
     pa_appShellTheme = coalesce (pp_appShellTheme s) SystemTheme,
     pa_notificationsEnabled = coalesce (pp_notificationsEnabled s) tauri,
     pa_dockBadgeEnabled = coalesce (pp_dockBadgeEnabled s) tauri,
     pa_autoUpdateCheckOnLaunch = coalesce (pp_autoUpdateCheckOnLaunch s) tauri,
     pa_dismissedUpdateVersion = pp_dismissedUpdateVersion s\<rparr>"

definition empty_partial :: partial_app where
  "empty_partial = \<lparr>pp_demoModeEnabled = None, pp_sectionShortcutsEnabled = None,
     pp_workspaceDensity = None, pp_terminalTheme = None, pp_vaultId = None, pp_deviceId = None,
     pp_lastAppliedSnapshotId = None, pp_sawImportCallout = None, pp_sawFirstRunTour = None,
     pp_appShellTheme = None, pp_notificationsEnabled = None, pp_dockBadgeEnabled = None,
     pp_autoUpdateCheckOnLaunch = None, pp_dismissedUpdateVersion = None\<rparr>"

definition migrateAppState ::
    "bool \<Rightarrow> string \<Rightarrow> string \<Rightarrow> partial_app option \<Rightarrow> int \<Rightarrow> persisted_app" where
  "migrateAppState tauri vid did persisted version =
     (let baseline = buildBaselineDefaults tauri vid did (coalesce persisted empty_partial) in
      if version < 1 then baseline\<lparr>
        pa_demoModeEnabled := (if tauri then False else pa_demoModeEnabled baseline),
        pa_sawImportCallout := True, pa_sawFirstRunTour := True\<rparr>
      else if version < 5 then baseline\<lparr>pa_sawImportCallout := True, pa_sawFirstRunTour := True\<rparr>
      else baseline)"

text \<open>The state of a first start, before anything is stored.\<close>

definition app_initial :: "bool \<Rightarrow> string \<Rightarrow> string \<Rightarrow> app_state" where
  "app_initial tauri vid did = \<lparr>
     as_stored = \<lparr>pa_demoModeEnabled = getDefaultDemoModeEnabled tauri,
       pa_sectionShortcutsEnabled = True, pa_workspaceDensity = Compact,
       pa_terminalTheme = DEFAULT_TERMINAL_THEME, pa_vaultId = vid, pa_deviceId = did,
       pa_lastAppliedSnapshotId = None, pa_sawImportCallout = False, pa_sawFirstRunTour = False,
       pa_appShellTheme = SystemTheme, pa_notificationsEnabled = False,
       pa_dockBadgeEnabled = False, pa_autoUpdateCheckOnLaunch = False,
       pa_dismissedUpdateVersion = None\<rparr>,
     as_sidebarSearch = [], as_commandPaletteOpen = False, as_cheatsheetOpen = False,
     as_updateResult = None\<rparr>"

definition app_partialize :: "app_state \<Rightarrow> persisted_app" where
  "app_partialize s = as_stored s"

text \<open>A stored payload as it is read back: nothing is missing.\<close>

definition stored_app :: "persisted_app \<Rightarrow> partial_app" where
  "stored_app p = \<lparr>pp_demoModeEnabled = Some (pa_demoModeEnabled p),
     pp_sectionShortcutsEnabled = Some (pa_sectionShortcutsEnabled p),
     pp_workspaceDensity = Some (pa_workspaceDensity p),
     pp_terminalTheme = Some (pa_terminalTheme p), pp_vaultId = Some (pa_vaultId p),
     pp_deviceId = Some (pa_deviceId p), pp_lastAppliedSnapshotId = pa_lastAppliedSnapshotId p,
     pp_sawImportCallout = Some (pa_sawImportCallout p),
     pp_sawFirstRunTour = Some (pa_sawFirstRunTour p),
     pp_appShellTheme = Some (pa_appShellTheme p),
     pp_notificationsEnabled = Some (pa_notificationsEnabled p),
     pp_dockBadgeEnabled = Some (pa_dockBadgeEnabled p),
     pp_autoUpdateCheckOnLaunch = Some (pa_autoUpdateCheckOnLaunch p),
     pp_dismissedUpdateVersion = pa_dismissedUpdateVersion p\<rparr>"

subsection \<open>The actions\<close>

definition set_stored :: "(persisted_app \<Rightarrow> persisted_app) \<Rightarrow> app_state \<Rightarrow> app_state" where
  "set_stored f s = s\<lparr>as_stored := f (as_stored s)\<rparr>"

definition setSidebarSearch :: "string \<Rightarrow> app_state \<Rightarrow> app_state" where
  "setSidebarSearch q s = s\<lparr>as_sidebarSearch := q\<rparr>"

definition openCommandPalette :: "app_state \<Rightarrow> app_state" where
  "openCommandPalette s = s\<lparr>as_commandPaletteOpen := True\<rparr>"

definition closeCommandPalette :: "app_state \<Rightarrow> app_state" where
  "closeCommandPalette s = s\<lparr>as_commandPaletteOpen := False\<rparr>"

definition openCheatsheet :: "app_state \<Rightarrow> app_state" where
  "openCheatsheet s = s\<lparr>as_cheatsheetOpen := True\<rparr>"

definition closeCheatsheet :: "app_state \<Rightarrow> app_state" where
  "closeCheatsheet s = s\<lparr>as_cheatsheetOpen := False\<rparr>"

definition setWorkspaceDensity :: "workspace_density \<Rightarrow> app_state \<Rightarrow> app_state" where
  "setWorkspaceDensity d = set_stored (\<lambda>p. p\<lparr>pa_workspaceDensity := d\<rparr>)"

definition setSectionShortcutsEnabled :: "bool \<Rightarrow> app_state \<Rightarrow> app_state" where
  "setSectionShortcutsEnabled b = set_stored (\<lambda>p. p\<lparr>pa_sectionShortcutsEnabled := b\<rparr>)"

definition setDemoModeEnabled :: "bool \<Rightarrow> app_state \<Rightarrow> app_state" where
  "setDemoModeEnabled b = set_stored (\<lambda>p. p\<lparr>pa_demoModeEnabled := b\<rparr>)"

definition setTerminalTheme :: "string \<Rightarrow> app_state \<Rightarrow> app_state" where
  "setTerminalTheme t = set_stored (\<lambda>p. p\<lparr>pa_terminalTheme :=
     (if isKnownTheme (Some t) then t else DEFAULT_TERMINAL_THEME)\<rparr>)"

definition setVaultId :: "string \<Rightarrow> app_state \<Rightarrow> app_state" where
  "setVaultId v = set_stored (\<lambda>p. p\<lparr>pa_vaultId := v\<rparr>)"

definition setLastAppliedSnapshotId :: "string option \<Rightarrow> app_state \<Rightarrow> app_state" where
  "setLastAppliedSnapshotId v = set_stored (\<lambda>p. p\<lparr>pa_lastAppliedSnapshotId := v\<rparr>)"

definition markImportCalloutSeen :: "app_state \<Rightarrow> app_state" where
  "markImportCalloutSeen = set_stored (\<lambda>p. p\<lparr>pa_sawImportCallout := True\<rparr>)"

definition markFirstRunTourSeen :: "app_state \<Rightarrow> app_state" where
  "markFirstRunTourSeen = set_stored (\<lambda>p. p\<lparr>pa_sawFirstRunTour := True\<rparr>)"

definition setAppShellTheme :: "app_shell_theme \<Rightarrow> app_state \<Rightarrow> app_state" where
  "setAppShellTheme t = set_stored (\<lambda>p. p\<lparr>pa_appShellTheme := t\<rparr>)"

definition setNotificationsEnabled :: "bool \<Rightarrow> app_state \<Rightarrow> app_state" where
  "setNotificationsEnabled b = set_stored (\<lambda>p. p\<lparr>pa_notificationsEnabled := b\<rparr>)"

definition setDockBadgeEnabled :: "bool \<Rightarrow> app_state \<Rightarrow> app_state" where
  "setDockBadgeEnabled b = set_stored (\<lambda>p. p\<lparr>pa_dockBadgeEnabled := b\<rparr>)"

definition setAutoUpdateCheckOnLaunch :: "bool \<Rightarrow> app_state \<Rightarrow> app_state" where
  "setAutoUpdateCheckOnLaunch b = set_stored (\<lambda>p. p\<lparr>pa_autoUpdateCheckOnLaunch := b\<rparr>)"

definition setUpdateResult :: "update_result option \<Rightarrow> app_state \<Rightarrow> app_state" where
  "setUpdateResult r s = s\<lparr>as_updateResult := r\<rparr>"

definition dismissUpdate :: "app_state \<Rightarrow> app_state" where
  "dismissUpdate s =
     (let version = Option.bind (as_updateResult s) ur_version in
      if truthy version then set_stored (\<lambda>p. p\<lparr>pa_dismissedUpdateVersion := version\<rparr>) s else s)"

definition shouldShowUpdateBanner :: "update_result option \<Rightarrow> string option \<Rightarrow> bool" where
  "shouldShowUpdateBanner r dismissed =
     (case r of None \<Rightarrow> False
      | Some u \<Rightarrow> ur_available u \<and> truthy (ur_version u) \<and> ur_version u \<noteq> dismissed)"

text \<open>
  A native error that refuses an update carries the number of live sessions behind a marker;
  anything else, and a number that is not positive, is not such a refusal.
\<close>

definition LIVE_SESSIONS_MARKER :: string where
  "LIVE_SESSIONS_MARKER = ''live-sessions:''"

definition parseLiveSessionRefusal :: "string \<Rightarrow> int option" where
  "parseLiveSessionRefusal message =
     (case index_of LIVE_SESSIONS_MARKER message of
        None \<Rightarrow> None
      | Some i \<Rightarrow> (case parse_int (drop (i + length LIVE_SESSIONS_MARKER) message) of
            Finite n \<Rightarrow> if n > 0 then Some n else None
          | _ \<Rightarrow> None))"

text \<open>
  The check and the installation go to the native side, \<open>invoke\<close>, and to nothing at all in a
  browser: the result is then \<open>null\<close>, and a failure of the native side is passed on.
\<close>

definition checkForUpdates :: "bool \<Rightarrow> update_result option result \<Rightarrow> update_result option result" where
  "checkForUpdates tauri invoke = (if \<not> tauri then Inr None else invoke)"

definition installUpdateAndRestart :: "bool \<Rightarrow> (bool \<Rightarrow> unit result) \<Rightarrow> bool \<Rightarrow> unit result" where
  "installUpdateAndRestart tauri invoke force = (if \<not> tauri then Inr () else invoke force)"

subsection \<open>What the settings guarantee\<close>

lemma isKnownTheme_default [simp]: "isKnownTheme (Some DEFAULT_TERMINAL_THEME)"
  by (simp add: isKnownTheme_def DEFAULT_TERMINAL_THEME_def TERMINAL_THEME_NAMES_def)

lemma buildBaseline_theme: "isKnownTheme (Some (pa_terminalTheme (buildBaselineDefaults t v d s)))"
  by (cases "pp_terminalTheme s")
    (auto simp: buildBaselineDefaults_def coalesce_def isKnownTheme_def DEFAULT_TERMINAL_THEME_def
      TERMINAL_THEME_NAMES_def)

lemma baseline_stored:
  "isKnownTheme (Some (pa_terminalTheme p)) \<Longrightarrow> buildBaselineDefaults t v d (stored_app p) = p"
  by (cases p) (simp add: buildBaselineDefaults_def stored_app_def coalesce_def)

text \<open>A stored payload of any version becomes a complete state with a known theme and keeps the
  identifiers it had; what the current version stores comes back unchanged, so migrating again
  changes nothing, and an old payload of the native application never turns demo mode on.\<close>

theorem migration_is_safe:
  "let p = migrateAppState tauri vid did persisted version in
    isKnownTheme (Some (pa_terminalTheme p)) \<and>
    pa_vaultId p = coalesce (Option.bind persisted pp_vaultId) vid \<and>
    pa_deviceId p = coalesce (Option.bind persisted pp_deviceId) did \<and>
    migrateAppState tauri vid' did' (Some (stored_app p)) 6 = p \<and>
    \<not> (tauri \<and> version < 1 \<and> pa_demoModeEnabled p)"
proof -
  let ?p = "migrateAppState tauri vid did persisted version"
  have "isKnownTheme (Some (pa_terminalTheme ?p))"
    using buildBaseline_theme by (simp add: migrateAppState_def Let_def)
  moreover from this have "migrateAppState tauri vid' did' (Some (stored_app ?p)) 6 = ?p"
    by (simp add: migrateAppState_def[of _ _ _ _ 6] coalesce_def baseline_stored)
  moreover have "pa_vaultId ?p = coalesce (Option.bind persisted pp_vaultId) vid"
    "pa_deviceId ?p = coalesce (Option.bind persisted pp_deviceId) did"
    by (cases persisted; simp add: migrateAppState_def Let_def buildBaselineDefaults_def
        empty_partial_def coalesce_def)+
  moreover have "\<not> (tauri \<and> version < 1 \<and> pa_demoModeEnabled ?p)"
    by (simp add: migrateAppState_def Let_def)
  ultimately show ?thesis unfolding Let_def by blast
qed

lemma dismissed_update_stays_away:
  assumes "as_updateResult s = Some u" "truthy (ur_version u)"
  shows "\<not> shouldShowUpdateBanner (as_updateResult s) (pa_dismissedUpdateVersion (as_stored (dismissUpdate s)))"
    "\<not> shouldShowUpdateBanner (Some u')
       (pa_dismissedUpdateVersion (as_stored (dismissUpdate s))) \<or> ur_version u' \<noteq> ur_version u"
  using assms by (simp_all add: shouldShowUpdateBanner_def dismissUpdate_def set_stored_def Let_def)

end
