(* ===== verification/LocalConfig.thy ===== *)
theory LocalConfig
  imports MergeRecords Cascade KnownHosts Identities AppStore
begin

section \<open>Export, import and merge of the configuration (\<open>lib/local-config.ts\<close>)\<close>

text \<open>
  A bundle holds every collection, the tombstones and the lineage of the vault. It is read back as
  a file of one of six versions, inspected, and applied to the stores, either replacing them or
  merged into them. A file is modelled by what the code looks at: \<open>None\<close> where a field is absent or
  has another type, and records whose own fields have the types the interfaces give them (the code
  does not check those). \<open>fresh k i\<close> says of the local record \<open>i\<close> that its absent optional fields
  are own properties with the value \<open>undefined\<close>, as they are on a record made since the last start;
  records read from a file or from storage have no such properties.
\<close>

subsection \<open>The objects behind the records\<close>

definition opt_prop :: "bool \<Rightarrow> string \<Rightarrow> string option \<Rightarrow> (string \<times> json) list" where
  "opt_prop own k v =
     (case v of Some s \<Rightarrow> [(k, JString s)] | None \<Rightarrow> if own then [(k, JUndefined)] else [])"

fun auth_string :: "host_auth \<Rightarrow> string" where
  "auth_string AuthNone = ''none''"
| "auth_string AuthPassword = ''password''"
| "auth_string AuthPrivateKey = ''privateKey''"

fun protocol_string :: "host_protocol \<Rightarrow> string" where
  "protocol_string Ssh = ''ssh''"
| "protocol_string LocalShell = ''localShell''"
| "protocol_string Telnet = ''telnet''"
| "protocol_string Serial = ''serial''"
| "protocol_string Mosh = ''mosh''"

fun policy_string :: "host_key_policy \<Rightarrow> string" where
  "policy_string AllowUnknown = ''allowUnknown''"
| "policy_string RequireTrusted = ''requireTrusted''"

fun algorithm_string :: "key_algorithm \<Rightarrow> string" where
  "algorithm_string ED25519 = ''ED25519''"
| "algorithm_string ECDSA = ''ECDSA''"
| "algorithm_string RSA = ''RSA''"
| "algorithm_string UNKNOWN = ''UNKNOWN''"

fun key_source_string :: "key_source \<Rightarrow> string" where
  "key_source_string Imported = ''imported''"
| "key_source_string Generated = ''generated''"

fun identity_source_string :: "identity_source \<Rightarrow> string" where
  "identity_source_string ImportedIdentity = ''imported''"
| "identity_source_string DerivedIdentity = ''derived''"

definition strings :: "string list \<Rightarrow> json" where
  "strings xs = JArray (map JString xs)"

text \<open>Normalisation always writes \<open>jumpHostId\<close>, on both sides.\<close>

definition host_object :: "bool \<Rightarrow> host \<Rightarrow> json" where
  "host_object own h = JObject (
     [(''id'', JString (h_id h)), (''label'', JString (h_label h)),
      (''protocol'', JString (protocol_string (h_protocol h))),
      (''hostname'', JString (h_hostname h)), (''username'', JString (h_username h)),
      (''port'', JNumber (h_port h)), (''authMethod'', JString (auth_string (h_authMethod h))),
      (''privateKeyPath'', JString (h_privateKeyPath h)), (''group'', JString (h_group h)),
      (''tags'', strings (h_tags h)), (''note'', JString (h_note h)),
      (''favorite'', JBool (h_favorite h)), (''keyLabel'', JString (h_keyLabel h)),
      (''hostKeyPolicy'', JString (policy_string (h_hostKeyPolicy h))),
      (''agentForwarding'', JBool (h_agentForwarding h)),
      (''environment'', JObject (map (\<lambda>(k, v). (k, JString v)) (h_environment h)))] @
     opt_prop True ''jumpHostId'' (h_jumpHostId h) @
     [(''sftpRoot'', JString (h_sftpRoot h)),
      (''snippetCount'', JNumber (Finite (h_snippetCount h))),
      (''forwardingCount'', JNumber (Finite (h_forwardingCount h))),
      (''createdAt'', JString (h_createdAt h)), (''updatedAt'', JString (h_updatedAt h))] @
     opt_prop own ''lastConnectedAt'' (h_lastConnectedAt h) @
     opt_prop own ''identityId'' (h_identityId h))"

definition key_object :: "bool \<Rightarrow> key \<Rightarrow> json" where
  "key_object own k = JObject (
     [(''id'', JString (k_id k)), (''label'', JString (k_label k)),
      (''algorithm'', JString (algorithm_string (k_algorithm k))),
      (''bits'', JNumber (Finite (k_bits k))), (''fingerprint'', JString (k_fingerprint k)),
      (''comment'', JString (k_comment k)), (''privateKeyPath'', JString (k_privateKeyPath k))] @
     opt_prop own ''publicKeyPath'' (k_publicKeyPath k) @
     [(''source'', JString (key_source_string (k_source k))),
      (''hasPassphrase'', JBool (k_hasPassphrase k)),
      (''assignedHostIds'', strings (k_assignedHostIds k)),
      (''createdAt'', JString (k_createdAt k)), (''updatedAt'', JString (k_updatedAt k))])"

definition snippet_object :: "bool \<Rightarrow> snippet \<Rightarrow> json" where
  "snippet_object own s = JObject (
     [(''id'', JString (s_id s)), (''title'', JString (s_title s)),
      (''description'', JString (s_description s)), (''command'', JString (s_command s)),
      (''tags'', strings (s_tags s)), (''targetHostIds'', strings (s_targetHostIds s)),
      (''createdAt'', JString (s_createdAt s)), (''updatedAt'', JString (s_updatedAt s))] @
     opt_prop own ''lastRunAt'' (s_lastRunAt s))"

definition known_host_object :: "known_host \<Rightarrow> json" where
  "known_host_object n = JObject
     [(''id'', JString (n_id n)), (''hostname'', JString (n_hostname n)),
      (''port'', JNumber (n_port n)), (''algorithm'', JString (n_algorithm n)),
      (''publicKey'', JString (n_publicKey n)), (''fingerprint'', JString (n_fingerprint n)),
      (''trustedAt'', JString (n_trustedAt n)), (''updatedAt'', JString (n_updatedAt n))]"

definition identity_object :: "bool \<Rightarrow> identity \<Rightarrow> json" where
  "identity_object own i = JObject (
     [(''id'', JString (i_id i)), (''label'', JString (i_label i)),
      (''username'', JString (i_username i)),
      (''authMethod'', JString (auth_string (i_authMethod i))),
      (''privateKeyPath'', JString (i_privateKeyPath i))] @
     opt_prop own ''keyId'' (i_keyId i) @
     [(''hasPassphrase'', JBool (i_hasPassphrase i)), (''comment'', JString (i_comment i)),
      (''source'', JString (identity_source_string (i_source i))),
      (''createdAt'', JString (i_createdAt i)), (''updatedAt'', JString (i_updatedAt i))])"

type_synonym freshness = "entity_kind \<Rightarrow> string \<Rightarrow> bool"

definition host_ops :: "freshness \<Rightarrow> host kind_ops" where
  "host_ops fresh = \<lparr>ko_id = h_id, ko_stamp = h_updatedAt,
     ko_local = (\<lambda>h. host_object (fresh KHosts (h_id h)) h), ko_imported = host_object False\<rparr>"

definition key_ops :: "freshness \<Rightarrow> key kind_ops" where
  "key_ops fresh = \<lparr>ko_id = k_id, ko_stamp = k_updatedAt,
     ko_local = (\<lambda>k. key_object (fresh KKeys (k_id k)) k), ko_imported = key_object False\<rparr>"

definition snippet_ops :: "freshness \<Rightarrow> snippet kind_ops" where
  "snippet_ops fresh = \<lparr>ko_id = s_id, ko_stamp = s_updatedAt,
     ko_local = (\<lambda>s. snippet_object (fresh KSnippets (s_id s)) s), ko_imported = snippet_object False\<rparr>"

definition known_host_ops :: "known_host kind_ops" where
  "known_host_ops = \<lparr>ko_id = n_id, ko_stamp = n_updatedAt, ko_local = known_host_object,
     ko_imported = known_host_object\<rparr>"

definition identity_ops :: "freshness \<Rightarrow> identity kind_ops" where
  "identity_ops fresh = \<lparr>ko_id = i_id, ko_stamp = i_updatedAt,
     ko_local = (\<lambda>i. identity_object (fresh KIdentities (i_id i)) i),
     ko_imported = identity_object False\<rparr>"

subsection \<open>Bundles and files\<close>

record vault_metadata =
  vm_schema :: string
  vm_vaultId :: string
  vm_sourceDeviceId :: string
  vm_snapshotId :: string
  vm_baseSnapshotId :: "string option"

record config_bundle =
  b_exportedAt :: string
  b_vault :: vault_metadata
  b_hosts :: "host list"
  b_keys :: "key list"
  b_snippets :: "snippet list"
  b_knownHosts :: "known_host list"
  b_identities :: "identity list"
  b_deletions :: deletion_map

text \<open>An entry of a tombstone list in a file; the fields are \<open>None\<close> unless they are strings.\<close>

record raw_deletion =
  rd_id :: "string option"
  rd_deletedAt :: "string option"

type_synonym raw_deletions = "entity_kind \<Rightarrow> raw_deletion list option"

text \<open>
  \<open>rb_identities\<close> is \<open>None\<close> when the field is absent and \<open>Some None\<close> when it is not an array.
\<close>

record raw_bundle =
  rb_app :: "string option"
  rb_version :: "int option"
  rb_vault :: "vault_metadata option"
  rb_hosts :: "raw_host list option"
  rb_keys :: "key list option"
  rb_snippets :: "snippet list option"
  rb_knownHosts :: "known_host list option"
  rb_identities :: "identity list option option"
  rb_deletions :: "raw_deletions option"

record collections =
  c_hosts :: "host list"
  c_keys :: "key list"
  c_snippets :: "snippet list"
  c_knownHosts :: "known_host list"
  c_identities :: "identity list"

definition sortBundleIdentities :: "(string \<Rightarrow> string \<Rightarrow> int) \<Rightarrow> identity list \<Rightarrow> identity list" where
  "sortBundleIdentities lc is = by_newest lc i_updatedAt is"

definition well_typed_deletion :: "raw_deletion \<Rightarrow> deletion option" where
  "well_typed_deletion r =
     (case (rd_id r, rd_deletedAt r) of
        (Some i, Some tm) \<Rightarrow> Some \<lparr>d_id = i, d_deletedAt = tm\<rparr> | _ \<Rightarrow> None)"

definition normalizeDeletions ::
    "(string \<Rightarrow> int option) \<Rightarrow> (string \<Rightarrow> string \<Rightarrow> int) \<Rightarrow> int \<Rightarrow> raw_deletions option \<Rightarrow> deletion_map" where
  "normalizeDeletions dp lc ms ds =
     compactDeletionMap dp lc ms (\<lambda>k. Some (case Option.bind ds (\<lambda>d. d k) of
        None \<Rightarrow> [] | Some es \<Rightarrow> List.map_filter well_typed_deletion es))"

definition restrict_key :: "string set \<Rightarrow> key \<Rightarrow> key" where
  "restrict_key ids k = k\<lparr>k_assignedHostIds := filter (\<lambda>h. h \<in> ids) (k_assignedHostIds k)\<rparr>"

definition restrict_snippet :: "string set \<Rightarrow> snippet \<Rightarrow> snippet" where
  "restrict_snippet ids s = s\<lparr>s_targetHostIds := filter (\<lambda>h. h \<in> ids) (s_targetHostIds s)\<rparr>"

definition prepareImportedCollections ::
    "(string \<Rightarrow> string \<Rightarrow> int) \<Rightarrow> raw_bundle \<Rightarrow> collections" where
  "prepareImportedCollections lc rb =
     (let importedHosts = sortRawHosts lc (coalesce (rb_hosts rb) []);
          importedHostIds = h_id ` set importedHosts
      in \<lparr>c_hosts = importedHosts,
          c_keys = sortKeys lc (map (restrict_key importedHostIds) (coalesce (rb_keys rb) [])),
          c_snippets = sortSnippets lc
            (map (restrict_snippet importedHostIds) (coalesce (rb_snippets rb) [])),
          c_knownHosts = sortKnownHosts lc (coalesce (rb_knownHosts rb) []),
          c_identities =
            (if rb_version rb \<in> {Some 4, Some 5, Some 6}
             then case rb_identities rb of
                    Some (Some is) \<Rightarrow> sortBundleIdentities lc is | _ \<Rightarrow> []
             else [])\<rparr>)"

definition prepareImportedDeletions ::
    "(string \<Rightarrow> int option) \<Rightarrow> (string \<Rightarrow> string \<Rightarrow> int) \<Rightarrow> int \<Rightarrow> raw_bundle \<Rightarrow> deletion_map" where
  "prepareImportedDeletions dp lc ms rb =
     (if rb_version rb \<notin> {Some 3, Some 4, Some 5, Some 6} \<or> rb_deletions rb = None
      then normalizeDeletions dp lc ms None
      else normalizeDeletions dp lc ms (rb_deletions rb))"

definition VAULT_SCHEMA :: string where
  "VAULT_SCHEMA = ''local-first-vault''"

definition getImportedVaultMetadata :: "raw_bundle \<Rightarrow> vault_metadata option" where
  "getImportedVaultMetadata rb =
     (if rb_version rb \<in> {Some 2, Some 3, Some 4, Some 5, Some 6}
      then case rb_vault rb of
             Some v \<Rightarrow> if vm_schema v = VAULT_SCHEMA then Some v else None | None \<Rightarrow> None
      else None)"

subsection \<open>The merge of all collections\<close>

record merged_collections =
  m_hosts :: "host merge_state"
  m_keys :: "key merge_state"
  m_snippets :: "snippet merge_state"
  m_knownHosts :: "known_host merge_state"
  m_identities :: "identity merge_state"

record merge_plan =
  mp_applicable :: bool
  mp_hasConflicts :: bool
  mp_hosts :: merge_section
  mp_keys :: merge_section
  mp_snippets :: merge_section
  mp_knownHosts :: merge_section
  mp_identities :: merge_section

definition mergePreparedCollections ::
    "(string \<Rightarrow> string \<Rightarrow> int) \<Rightarrow> freshness \<Rightarrow> collections \<Rightarrow> collections \<Rightarrow> deletion_map \<Rightarrow> resolution \<Rightarrow>
     merged_collections" where
  "mergePreparedCollections lc fresh locals imported ds res =
     (let mergedHosts = mergeCollection lc (host_ops fresh) (c_hosts locals) (c_hosts imported)
            (sortHostCollection lc) (dm_hosts ds) res;
          ids = h_id ` set (fst mergedHosts)
      in \<lparr>m_hosts = mergedHosts,
          m_keys = mergeCollection lc (key_ops fresh)
            (sortKeys lc (map (restrict_key ids) (c_keys locals)))
            (sortKeys lc (map (restrict_key ids) (c_keys imported)))
            (sortKeys lc) (dm_keys ds) res,
          m_snippets = mergeCollection lc (snippet_ops fresh)
            (sortSnippets lc (map (restrict_snippet ids) (c_snippets locals)))
            (sortSnippets lc (map (restrict_snippet ids) (c_snippets imported)))
            (sortSnippets lc) (dm_snippets ds) res,
          m_knownHosts = mergeCollection lc known_host_ops (c_knownHosts locals)
            (c_knownHosts imported) (sortKnownHosts lc) (dm_knownHosts ds) res,
          m_identities = mergeCollection lc (identity_ops fresh) (c_identities locals)
            (c_identities imported) (sortBundleIdentities lc) (dm_identities ds) res\<rparr>)"

definition buildMergePlan ::
    "(string \<Rightarrow> string \<Rightarrow> int) \<Rightarrow> freshness \<Rightarrow> collections \<Rightarrow> collections \<Rightarrow> deletion_map \<Rightarrow> merge_plan" where
  "buildMergePlan lc fresh locals imported ds =
     (let mergedHosts = mergeCollection lc (host_ops fresh) (c_hosts locals) (c_hosts imported)
            (sortHostCollection lc) (dm_hosts ds) Block;
          ids = h_id ` set (fst mergedHosts);
          normalizedLocalKeys = sortKeys lc (map (restrict_key ids) (c_keys locals));
          normalizedImportedKeys = sortKeys lc (map (restrict_key ids) (c_keys imported));
          normalizedLocalSnippets = sortSnippets lc (map (restrict_snippet ids) (c_snippets locals));
          normalizedImportedSnippets =
            sortSnippets lc (map (restrict_snippet ids) (c_snippets imported));
          mergedKeys = mergeCollection lc (key_ops fresh) normalizedLocalKeys
            normalizedImportedKeys (sortKeys lc) (dm_keys ds) Block;
          mergedSnippets = mergeCollection lc (snippet_ops fresh) normalizedLocalSnippets
            normalizedImportedSnippets (sortSnippets lc) (dm_snippets ds) Block;
          mergedKnownHosts = mergeCollection lc known_host_ops (c_knownHosts locals)
            (c_knownHosts imported) (sortKnownHosts lc) (dm_knownHosts ds) Block;
          mergedIdentities = mergeCollection lc (identity_ops fresh) (c_identities locals)
            (c_identities imported) (sortBundleIdentities lc) (dm_identities ds) Block
      in \<lparr>mp_applicable = True,
          mp_hasConflicts = (ms_conflicts (snd mergedHosts) > 0 \<or> ms_conflicts (snd mergedKeys) > 0 \<or>
            ms_conflicts (snd mergedSnippets) > 0 \<or> ms_conflicts (snd mergedKnownHosts) > 0 \<or>
            ms_conflicts (snd mergedIdentities) > 0),
          mp_hosts = snd mergedHosts, mp_keys = snd mergedKeys, mp_snippets = snd mergedSnippets,
          mp_knownHosts = snd mergedKnownHosts, mp_identities = snd mergedIdentities\<rparr>)"

datatype import_mode = Replace | Merge

definition buildAppliedDeletionMap ::
    "(string \<Rightarrow> string \<Rightarrow> int) \<Rightarrow> import_mode \<Rightarrow> deletion_map \<Rightarrow> deletion_map \<Rightarrow> collections \<Rightarrow>
     deletion_map" where
  "buildAppliedDeletionMap lc mode localDeletions imported applied =
     (if mode = Replace then imported else \<lparr>
        dm_hosts = mergeDeletionEntries lc (dm_hosts localDeletions) (dm_hosts imported)
          (h_id ` set (c_hosts applied)),
        dm_keys = mergeDeletionEntries lc (dm_keys localDeletions) (dm_keys imported)
          (k_id ` set (c_keys applied)),
        dm_snippets = mergeDeletionEntries lc (dm_snippets localDeletions) (dm_snippets imported)
          (s_id ` set (c_snippets applied)),
        dm_knownHosts = mergeDeletionEntries lc (dm_knownHosts localDeletions)
          (dm_knownHosts imported) (n_id ` set (c_knownHosts applied)),
        dm_identities = mergeDeletionEntries lc (dm_identities localDeletions)
          (dm_identities imported) (i_id ` set (c_identities applied))\<rparr>)"

subsection \<open>Building a bundle\<close>

record 'k workspace = "'k app" +
  w_knownHosts :: "known_host list"
  w_identities :: "identity list"
  w_settings :: app_state

definition current_collections :: "'k workspace \<Rightarrow> collections" where
  "current_collections w = \<lparr>c_hosts = a_hosts w, c_keys = a_keys w, c_snippets = a_snippets w,
     c_knownHosts = w_knownHosts w, c_identities = w_identities w\<rparr>"

definition buildLocalConfigBundle ::
    "(string \<Rightarrow> int option) \<Rightarrow> (string \<Rightarrow> string \<Rightarrow> int) \<Rightarrow> int \<Rightarrow> string \<Rightarrow> string \<Rightarrow> 'k workspace \<Rightarrow>
     config_bundle" where
  "buildLocalConfigBundle dp lc ms now uuid w =
     (let settings = as_stored (w_settings w) in \<lparr>
        b_exportedAt = now,
        b_vault = \<lparr>vm_schema = VAULT_SCHEMA, vm_vaultId = pa_vaultId settings,
          vm_sourceDeviceId = pa_deviceId settings, vm_snapshotId = uuid,
          vm_baseSnapshotId = pa_lastAppliedSnapshotId settings\<rparr>,
        b_hosts = a_hosts w, b_keys = a_keys w, b_snippets = a_snippets w,
        b_knownHosts = w_knownHosts w, b_identities = w_identities w,
        b_deletions = compactDeletionMap dp lc ms (as_partial (a_vault w))\<rparr>)"

text \<open>
  The file a bundle is written to, as it is read back. \<open>routes/SettingsPage.tsx\<close> writes
  \<open>JSON.stringify(bundle)\<close> and reads the file with \<open>JSON.parse\<close>, so what this definition leaves out is
  the text between the two: it gives back every value of a bundle but a number that is not finite,
  which is written as \<open>null\<close>. A property that is \<open>undefined\<close> is left out and read back as absent, as
  \<open>None\<close> says here.
\<close>

definition bundle_file :: "config_bundle \<Rightarrow> raw_bundle" where
  "bundle_file b = \<lparr>rb_app = Some ''terminal-workspace'', rb_version = Some 6,
     rb_vault = Some (b_vault b), rb_hosts = Some (map as_raw (b_hosts b)),
     rb_keys = Some (b_keys b), rb_snippets = Some (b_snippets b),
     rb_knownHosts = Some (b_knownHosts b), rb_identities = Some (Some (b_identities b)),
     rb_deletions = Some (\<lambda>k. Some (map (\<lambda>d. \<lparr>rd_id = Some (d_id d),
       rd_deletedAt = Some (d_deletedAt d)\<rparr>) (dm_get k (b_deletions b))))\<rparr>"

subsection \<open>Inspecting a file\<close>

datatype import_strategy = Legacy | SameSnapshot | FastForward | Divergent | AdoptVault

record import_analysis =
  ia_strategy :: import_strategy
  ia_hostCount :: nat
  ia_keyCount :: nat
  ia_snippetCount :: nat
  ia_knownHostCount :: nat
  ia_identityCount :: nat
  ia_currentVaultId :: string
  ia_currentDeviceId :: string
  ia_currentSnapshotId :: "string option"
  ia_importedVaultId :: "string option"
  ia_importedDeviceId :: "string option"
  ia_importedSnapshotId :: "string option"
  ia_importedBaseSnapshotId :: "string option"
  ia_mergePlan :: "merge_plan option"

record prepared_import =
  pi_bundle :: raw_bundle
  pi_analysis :: import_analysis

definition import_strategy_of :: "vault_metadata option \<Rightarrow> persisted_app \<Rightarrow> import_strategy" where
  "import_strategy_of v s =
     (case v of None \<Rightarrow> Legacy
      | Some m \<Rightarrow>
          if Some (vm_snapshotId m) = pa_lastAppliedSnapshotId s then SameSnapshot
          else if vm_vaultId m \<noteq> pa_vaultId s then AdoptVault
          else if truthy (pa_lastAppliedSnapshotId s) \<and>
                  vm_baseSnapshotId m = pa_lastAppliedSnapshotId s then FastForward
          else Divergent)"

definition SUPPORTED_APPS :: "string list" where
  "SUPPORTED_APPS = [''TermSnip'', ''term-snip'', ''terminal-workspace'']"

definition bundle_problem :: "raw_bundle \<Rightarrow> string option" where
  "bundle_problem rb =
     (if rb_app rb \<notin> Some ` set SUPPORTED_APPS \<or> rb_version rb \<notin> Some ` {1, 2, 3, 4, 5, 6}
      then Some ''Config import failed: unsupported config version.''
      else if rb_hosts rb = None then Some ''Config import failed: hosts are missing or invalid.''
      else if rb_keys rb = None then Some ''Config import failed: keys are missing or invalid.''
      else if rb_snippets rb = None
        then Some ''Config import failed: snippets are missing or invalid.''
      else if rb_knownHosts rb = None
        then Some ''Config import failed: known hosts are missing or invalid.''
      else if rb_version rb \<in> {Some 4, Some 5, Some 6} \<and> rb_identities rb = Some None
        then Some ''Config import failed: identities are invalid.''
      else None)"

definition analyse_bundle ::
    "(string \<Rightarrow> int option) \<Rightarrow> (string \<Rightarrow> string \<Rightarrow> int) \<Rightarrow> freshness \<Rightarrow> int \<Rightarrow> 'k workspace \<Rightarrow>
     raw_bundle \<Rightarrow> import_analysis" where
  "analyse_bundle dp lc fresh ms w rb =
     (let settings = as_stored (w_settings w);
          imported = prepareImportedCollections lc rb;
          importedDeletions = prepareImportedDeletions dp lc ms rb;
          vault = getImportedVaultMetadata rb
      in \<lparr>ia_strategy = import_strategy_of vault settings,
          ia_hostCount = length (c_hosts imported), ia_keyCount = length (c_keys imported),
          ia_snippetCount = length (c_snippets imported),
          ia_knownHostCount = length (c_knownHosts imported),
          ia_identityCount = length (c_identities imported),
          ia_currentVaultId = pa_vaultId settings, ia_currentDeviceId = pa_deviceId settings,
          ia_currentSnapshotId = pa_lastAppliedSnapshotId settings,
          ia_importedVaultId = map_option vm_vaultId vault,
          ia_importedDeviceId = map_option vm_sourceDeviceId vault,
          ia_importedSnapshotId = map_option vm_snapshotId vault,
          ia_importedBaseSnapshotId = Option.bind vault vm_baseSnapshotId,
          ia_mergePlan =
            (if map_option vm_vaultId vault = Some (pa_vaultId settings)
             then Some (buildMergePlan lc fresh (current_collections w) imported importedDeletions)
             else None)\<rparr>)"

text \<open>The argument is \<open>None\<close> when the file does not hold an object.\<close>

definition parseImportedLocalConfigBundle ::
    "(string \<Rightarrow> int option) \<Rightarrow> (string \<Rightarrow> string \<Rightarrow> int) \<Rightarrow> freshness \<Rightarrow> int \<Rightarrow> 'k workspace \<Rightarrow>
     raw_bundle option \<Rightarrow> prepared_import result" where
  "parseImportedLocalConfigBundle dp lc fresh ms w value =
     (case value of
        None \<Rightarrow> Inl ''Config import failed: file does not contain a JSON object.''
      | Some rb \<Rightarrow> (case bundle_problem rb of
          Some e \<Rightarrow> Inl e
        | None \<Rightarrow> Inr \<lparr>pi_bundle = rb, pi_analysis = analyse_bundle dp lc fresh ms w rb\<rparr>))"

definition inspectImportedLocalConfigBundle ::
    "(string \<Rightarrow> int option) \<Rightarrow> (string \<Rightarrow> string \<Rightarrow> int) \<Rightarrow> freshness \<Rightarrow> int \<Rightarrow> 'k workspace \<Rightarrow>
     raw_bundle option \<Rightarrow> import_analysis result" where
  "inspectImportedLocalConfigBundle dp lc fresh ms w value =
     map_sum id pi_analysis (parseImportedLocalConfigBundle dp lc fresh ms w value)"

subsection \<open>Applying an import\<close>

datatype import_input = Unparsed "raw_bundle option" | Prepared prepared_import

record import_options =
  io_mode :: import_mode
  io_resolution :: "resolution option"

record import_summary =
  is_hostCount :: nat
  is_keyCount :: nat
  is_snippetCount :: nat
  is_knownHostCount :: nat
  is_identityCount :: nat
  is_strategy :: import_strategy
  is_mode :: import_mode
  is_mergePlan :: "merge_plan option"
  is_resolution :: "resolution option"
  is_snapshotId :: "string option"
  is_vaultId :: string

definition merge_conflicts :: "merged_collections \<Rightarrow> bool" where
  "merge_conflicts m \<longleftrightarrow> ms_conflicts (snd (m_hosts m)) > 0 \<or> ms_conflicts (snd (m_keys m)) > 0 \<or>
     ms_conflicts (snd (m_snippets m)) > 0 \<or> ms_conflicts (snd (m_knownHosts m)) > 0 \<or>
     ms_conflicts (snd (m_identities m)) > 0"

definition merged_records :: "merged_collections \<Rightarrow> collections" where
  "merged_records m = \<lparr>c_hosts = fst (m_hosts m), c_keys = fst (m_keys m),
     c_snippets = fst (m_snippets m), c_knownHosts = fst (m_knownHosts m),
     c_identities = fst (m_identities m)\<rparr>"

definition next_active_host :: "string option \<Rightarrow> host list \<Rightarrow> string option" where
  "next_active_host active hosts =
     (if truthy active \<and> active \<in> Some ` h_id ` set hosts then active
      else case hosts of [] \<Rightarrow> None | h # _ \<Rightarrow> Some (h_id h))"

definition reset_sessions :: "string \<Rightarrow> sessions \<Rightarrow> sessions" where
  "reset_sessions now s =
     s\<lparr>ss_tabs := [], ss_panes := [], ss_activeTabId := None, ss_lastRestoredAt := Some now\<rparr>"

text \<open>What the stores are set to once nothing is in the way.\<close>

definition adopt_lineage :: "vault_metadata option \<Rightarrow> app_state \<Rightarrow> app_state" where
  "adopt_lineage v s =
     (if truthy (map_option vm_vaultId v)
      then setLastAppliedSnapshotId (map_option vm_snapshotId v)
        (case v of None \<Rightarrow> s | Some m \<Rightarrow> setVaultId (vm_vaultId m) s)
      else setLastAppliedSnapshotId None s)"

definition install_collections ::
    "(string \<Rightarrow> int option) \<Rightarrow> (string \<Rightarrow> string \<Rightarrow> int) \<Rightarrow> int \<Rightarrow> string \<Rightarrow> vault_metadata option \<Rightarrow>
     collections \<Rightarrow> deletion_map \<Rightarrow> 'k workspace \<Rightarrow> 'k workspace" where
  "install_collections dp lc ms now v c ds w = w\<lparr>
     a_hosts := c_hosts c, a_keys := c_keys c, a_snippets := c_snippets c,
     w_knownHosts := c_knownHosts c, w_identities := c_identities c,
     a_vault := replaceDeletions dp lc ms ds,
     w_settings := adopt_lineage v (w_settings w),
     a_sessions := reset_sessions now (a_sessions w),
     a_transfers := (a_transfers w)\<lparr>
       xs_activeHostId := next_active_host (xs_activeHostId (a_transfers w)) (c_hosts c),
       xs_paths := [], xs_queue := []\<rparr>\<rparr>"

definition applyPrepared ::
    "(string \<Rightarrow> int option) \<Rightarrow> (string \<Rightarrow> string \<Rightarrow> int) \<Rightarrow> freshness \<Rightarrow> int \<Rightarrow> string \<Rightarrow>
     prepared_import \<Rightarrow> import_options \<Rightarrow> 'k workspace \<Rightarrow> (import_summary \<times> 'k workspace) result" where
  "applyPrepared dp lc fresh ms now p opts w =
     (let rb = pi_bundle p;
          mode = io_mode opts;
          imported = prepareImportedCollections lc rb;
          importedDeletions = prepareImportedDeletions dp lc ms rb;
          merged = mergePreparedCollections lc fresh (current_collections w) imported
            importedDeletions (coalesce (io_resolution opts) Block);
          hasConflicts = (mode = Merge \<and> merge_conflicts merged);
          strategy = ia_strategy (pi_analysis p)
      in if mode = Merge \<and> strategy \<notin> {FastForward, Divergent, SameSnapshot}
         then Inl ''Config import merge is only available for imports from the current vault lineage.''
         else if mode = Merge \<and> hasConflicts \<and> io_resolution opts = None
         then Inl ''Config import merge found record conflicts. Review the import preview and replace the local vault only if that overwrite is intentional.''
         else let applied = (if mode = Merge then merged_records merged else imported);
                  nextDeletions = buildAppliedDeletionMap lc mode (a_vault w) importedDeletions applied;
                  v = getImportedVaultMetadata rb;
                  w' = install_collections dp lc ms now v applied nextDeletions w
              in Inr (\<lparr>is_hostCount = length (c_hosts applied), is_keyCount = length (c_keys applied),
                   is_snippetCount = length (c_snippets applied),
                   is_knownHostCount = length (c_knownHosts applied),
                   is_identityCount = length (c_identities applied), is_strategy = strategy,
                   is_mode = mode, is_mergePlan = ia_mergePlan (pi_analysis p),
                   is_resolution =
                     (if hasConflicts then Some (coalesce (io_resolution opts) KeepLocal) else None),
                   is_snapshotId = map_option vm_snapshotId v,
                   is_vaultId = (case v of Some m \<Rightarrow> vm_vaultId m
                     | None \<Rightarrow> pa_vaultId (as_stored (w_settings w')))\<rparr>, w'))"

definition applyImportedLocalConfigBundle ::
    "(string \<Rightarrow> int option) \<Rightarrow> (string \<Rightarrow> string \<Rightarrow> int) \<Rightarrow> freshness \<Rightarrow> int \<Rightarrow> string \<Rightarrow>
     import_input \<Rightarrow> import_options \<Rightarrow> 'k workspace \<Rightarrow> (import_summary \<times> 'k workspace) result" where
  "applyImportedLocalConfigBundle dp lc fresh ms now input opts w =
     (case input of
        Prepared p \<Rightarrow> applyPrepared dp lc fresh ms now p opts w
      | Unparsed value \<Rightarrow> (case parseImportedLocalConfigBundle dp lc fresh ms w value of
          Inl e \<Rightarrow> Inl e
        | Inr p \<Rightarrow> applyPrepared dp lc fresh ms now p opts w))"

end
