(* ===== verification/LocalConfigProps.thy ===== *)
theory LocalConfigProps
  imports LocalConfig
begin

section \<open>What importing and merging guarantee\<close>

subsection \<open>The merged state\<close>

lemma as_record_store:
  "record_store h_id (sortHostCollection lc)" "record_store k_id (sortKeys lc)"
  "record_store s_id (sortSnippets lc)" "record_store n_id (sortKnownHosts lc)"
  "record_store i_id (sortBundleIdentities lc)"
  unfolding sortBundleIdentities_def
  by (rule hosts.record_store_axioms keys.record_store_axioms snippets.record_store_axioms
      known_hosts.record_store_axioms record_store_newest)+

lemma sort_bundle_set [simp]:
  "set (sortKeys lc ks) = set ks" "set (sortSnippets lc ss) = set ss"
  "set (sortBundleIdentities lc is) = set is"
  by (simp_all add: sortKeys_def sortSnippets_def sortBundleIdentities_def)

lemma ko_id_simps [simp]:
  "ko_id (host_ops f) = h_id" "ko_id (key_ops f) = k_id" "ko_id (snippet_ops f) = s_id"
  "ko_id known_host_ops = n_id" "ko_id (identity_ops f) = i_id"
  by (simp_all add: host_ops_def key_ops_def snippet_ops_def known_host_ops_def identity_ops_def)

lemma mergeCollection_distinct:
  assumes "record_store (ko_id K) srt"
  shows "distinct (map (ko_id K) (fst (mergeCollection lc K locals imported srt ds res)))"
  by (simp only: mergeCollection_fst record_store.srt_distinct[OF assms] merge_records_distinct)

lemma mergeCollection_ids:
  assumes "record_store (ko_id K) srt"
  shows "ko_id K ` set (fst (mergeCollection lc K locals imported srt ds res)) =
    {i. survivor_at lc K locals imported ds res i \<noteq> None}"
  using merge_records_ids[of _ K lc locals imported ds res]
  by (simp only: mergeCollection_fst record_store.srt_id_set[OF assms]) blast

lemma no_ghosts_merged:
  assumes "distinct (map rid out)"
  shows "no_ghosts rid (d_id ` set (compactDeletionEntries dp lc ms
    (mergeDeletionEntries lc L I (rid ` set out)))) out"
proof -
  have "d_id ` set (compactDeletionEntries dp lc ms (mergeDeletionEntries lc L I (rid ` set out))) \<subseteq>
      d_id ` (set L \<union> set I) - rid ` set out"
    using compact_ids_subset mergeDeletionEntries_ids by metis
  with assms show ?thesis by (auto simp: no_ghosts_def)
qed

lemma merged_no_ghosts:
  assumes "record_store (ko_id K) srt"
  shows "let out = fst (mergeCollection lc K locals imported srt ds res) in
    no_ghosts (ko_id K) (d_id ` set (compactDeletionEntries dp lc ms
      (mergeDeletionEntries lc L I (ko_id K ` set out)))) out"
  unfolding Let_def
  by (rule no_ghosts_merged[OF mergeCollection_distinct[OF assms]])

text \<open>What a successful merge leaves behind.\<close>

definition merge_for ::
    "(string \<Rightarrow> int option) \<Rightarrow> (string \<Rightarrow> string \<Rightarrow> int) \<Rightarrow> freshness \<Rightarrow> int \<Rightarrow> raw_bundle \<Rightarrow>
     resolution option \<Rightarrow> 'k workspace \<Rightarrow> merged_collections" where
  "merge_for dp lc fresh ms rb r w =
     mergePreparedCollections lc fresh (current_collections w) (prepareImportedCollections lc rb)
       (prepareImportedDeletions dp lc ms rb) (coalesce r Block)"

lemma applyPrepared_merge:
  assumes "applyPrepared dp lc fresh ms now p \<lparr>io_mode = Merge, io_resolution = r\<rparr> w = Inr (s, w')"
  shows "w' = install_collections dp lc ms now (getImportedVaultMetadata (pi_bundle p))
    (merged_records (merge_for dp lc fresh ms (pi_bundle p) r w))
    (buildAppliedDeletionMap lc Merge (a_vault w) (prepareImportedDeletions dp lc ms (pi_bundle p))
      (merged_records (merge_for dp lc fresh ms (pi_bundle p) r w))) w"
    "r = None \<Longrightarrow> \<not> merge_conflicts (merge_for dp lc fresh ms (pi_bundle p) r w)"
  using assms by (auto simp: applyPrepared_def merge_for_def Let_def split: if_splits)

lemma install_fields [simp]:
  "a_hosts (install_collections dp lc ms now v c ds w) = c_hosts c"
  "a_keys (install_collections dp lc ms now v c ds w) = c_keys c"
  "a_snippets (install_collections dp lc ms now v c ds w) = c_snippets c"
  "w_knownHosts (install_collections dp lc ms now v c ds w) = c_knownHosts c"
  "w_identities (install_collections dp lc ms now v c ds w) = c_identities c"
  "a_vault (install_collections dp lc ms now v c ds w) = replaceDeletions dp lc ms ds"
  "w_settings (install_collections dp lc ms now v c ds w) = adopt_lineage v (w_settings w)"
  by (simp_all add: install_collections_def)

lemma tombstones_replaced:
  "tombstone_ids (replaceDeletions dp lc ms ds) k = d_id ` set (compactDeletionEntries dp lc ms (dm_get k ds))"
  by (simp add: tombstone_ids_def replaceDeletions_def dm_get_compactDeletionMap as_partial_def coalesce_def)

lemma merged_records_fields [simp]:
  "c_hosts (merged_records m) = fst (m_hosts m)" "c_keys (merged_records m) = fst (m_keys m)"
  "c_snippets (merged_records m) = fst (m_snippets m)"
  "c_knownHosts (merged_records m) = fst (m_knownHosts m)"
  "c_identities (merged_records m) = fst (m_identities m)"
  by (simp_all add: merged_records_def)

lemma appliedDeletions [simp]:
  "dm_get KHosts (buildAppliedDeletionMap lc Merge L I c) =
     mergeDeletionEntries lc (dm_hosts L) (dm_hosts I) (h_id ` set (c_hosts c))"
  "dm_get KKeys (buildAppliedDeletionMap lc Merge L I c) =
     mergeDeletionEntries lc (dm_keys L) (dm_keys I) (k_id ` set (c_keys c))"
  "dm_get KSnippets (buildAppliedDeletionMap lc Merge L I c) =
     mergeDeletionEntries lc (dm_snippets L) (dm_snippets I) (s_id ` set (c_snippets c))"
  "dm_get KKnownHosts (buildAppliedDeletionMap lc Merge L I c) =
     mergeDeletionEntries lc (dm_knownHosts L) (dm_knownHosts I) (n_id ` set (c_knownHosts c))"
  "dm_get KIdentities (buildAppliedDeletionMap lc Merge L I c) =
     mergeDeletionEntries lc (dm_identities L) (dm_identities I) (i_id ` set (c_identities c))"
  by (simp_all add: buildAppliedDeletionMap_def)

lemma merge_records_subset:
  "set (fst (merge_records lc K locals imported ds res)) \<subseteq> set locals \<union> set imported"
  using survivor_at_id by (force simp: merge_records_set)

lemma merged_hosts_eq:
  "m_hosts (mergePreparedCollections lc fresh L I ds res) =
   mergeCollection lc (host_ops fresh) (c_hosts L) (c_hosts I) (sortHostCollection lc) (dm_hosts ds) res"
  by (simp only: mergePreparedCollections_def Let_def merged_collections.simps)

lemma merged_keys_eq:
  fixes fresh L I ds res lc
  defines "ids \<equiv> h_id ` set (fst (m_hosts (mergePreparedCollections lc fresh L I ds res)))"
  shows "m_keys (mergePreparedCollections lc fresh L I ds res) =
    mergeCollection lc (key_ops fresh) (sortKeys lc (map (restrict_key ids) (c_keys L)))
      (sortKeys lc (map (restrict_key ids) (c_keys I))) (sortKeys lc) (dm_keys ds) res"
  "m_snippets (mergePreparedCollections lc fresh L I ds res) =
    mergeCollection lc (snippet_ops fresh) (sortSnippets lc (map (restrict_snippet ids) (c_snippets L)))
      (sortSnippets lc (map (restrict_snippet ids) (c_snippets I))) (sortSnippets lc) (dm_snippets ds) res"
  unfolding ids_def merged_hosts_eq
  by (simp_all only: mergePreparedCollections_def Let_def merged_collections.simps)

lemma merged_others_eq:
  "m_knownHosts (mergePreparedCollections lc fresh L I ds res) =
   mergeCollection lc known_host_ops (c_knownHosts L) (c_knownHosts I) (sortKnownHosts lc) (dm_knownHosts ds) res"
  "m_identities (mergePreparedCollections lc fresh L I ds res) =
   mergeCollection lc (identity_ops fresh) (c_identities L) (c_identities I) (sortBundleIdentities lc) (dm_identities ds) res"
  by (simp_all only: mergePreparedCollections_def Let_def merged_collections.simps)

lemma restricted_key_refs:
  "k \<in> set (fst (mergeCollection lc K (sortKeys lc (map (restrict_key ids) ks))
     (sortKeys lc (map (restrict_key ids) ks')) (sortKeys lc) ds res)) \<Longrightarrow> set (k_assignedHostIds k) \<subseteq> ids"
  using merge_records_subset[of lc K "sortKeys lc (map (restrict_key ids) ks)"
      "sortKeys lc (map (restrict_key ids) ks')" ds res]
  by (auto simp: restrict_key_def)

lemma restricted_snippet_refs:
  "s \<in> set (fst (mergeCollection lc K (sortSnippets lc (map (restrict_snippet ids) ss))
     (sortSnippets lc (map (restrict_snippet ids) ss')) (sortSnippets lc) ds res)) \<Longrightarrow>
   set (s_targetHostIds s) \<subseteq> ids"
  using merge_records_subset[of lc K "sortSnippets lc (map (restrict_snippet ids) ss)"
      "sortSnippets lc (map (restrict_snippet ids) ss')" ds res]
  by (auto simp: restrict_snippet_def)

definition no_ghosts_anywhere :: "'k workspace \<Rightarrow> bool" where
  "no_ghosts_anywhere w \<longleftrightarrow>
     no_ghosts h_id (tombstone_ids (a_vault w) KHosts) (a_hosts w) \<and>
     no_ghosts k_id (tombstone_ids (a_vault w) KKeys) (a_keys w) \<and>
     no_ghosts s_id (tombstone_ids (a_vault w) KSnippets) (a_snippets w) \<and>
     no_ghosts n_id (tombstone_ids (a_vault w) KKnownHosts) (w_knownHosts w) \<and>
     no_ghosts i_id (tombstone_ids (a_vault w) KIdentities) (w_identities w)"

definition references_resolve :: "'k workspace \<Rightarrow> bool" where
  "references_resolve w \<longleftrightarrow>
     (\<forall>k \<in> set (a_keys w). set (k_assignedHostIds k) \<subseteq> h_id ` set (a_hosts w)) \<and>
     (\<forall>s \<in> set (a_snippets w). set (s_targetHostIds s) \<subseteq> h_id ` set (a_hosts w))"

lemma merge_state_ok:
  assumes "applyPrepared dp lc fresh ms now p \<lparr>io_mode = Merge, io_resolution = r\<rparr> w = Inr (s, w')"
  shows "no_ghosts_anywhere w'" "references_resolve w'"
proof -
  note w = applyPrepared_merge(1)[OF assms]
  note ng = no_ghosts_merged[OF mergeCollection_distinct]
  show "no_ghosts_anywhere w'"
    unfolding w no_ghosts_anywhere_def install_fields tombstones_replaced appliedDeletions
      merged_records_fields merge_for_def merged_hosts_eq merged_keys_eq merged_others_eq
    by (intro conjI;
      rule ng[of "host_ops fresh", unfolded ko_id_simps, OF as_record_store(1)]
        ng[of "key_ops fresh", unfolded ko_id_simps, OF as_record_store(2)]
        ng[of "snippet_ops fresh", unfolded ko_id_simps, OF as_record_store(3)]
        ng[of "known_host_ops", unfolded ko_id_simps, OF as_record_store(4)]
        ng[of "identity_ops fresh", unfolded ko_id_simps, OF as_record_store(5)])
  show "references_resolve w'"
    unfolding w references_resolve_def install_fields merged_records_fields merge_for_def
    by (intro conjI ballI; (unfold merged_keys_eq)?; erule restricted_key_refs restricted_snippet_refs)
qed

text \<open>C34: A merge that goes through leaves every collection consistent: identifiers are distinct, no
  record also has a tombstone, and keys and saved commands name only hosts that are there.\<close>

theorem merge_leaves_consistent_vault:
  assumes "applyPrepared dp lc fresh ms now p \<lparr>io_mode = Merge, io_resolution = r\<rparr> w = Inr (s, w')"
  shows "no_ghosts_anywhere w' \<and> references_resolve w'"
  using merge_state_ok[OF assms] by blast

subsection \<open>Worked examples\<close>

text \<open>A device with the vault \<open>v\<close> that last applied the snapshot \<open>s0\<close>, and files of the same vault.\<close>

definition example_device :: "host list \<Rightarrow> deletion list \<Rightarrow> unit workspace" where
  "example_device hosts deleted = \<lparr>
     a_hosts = hosts, a_vault = emptyDeletionMap\<lparr>dm_hosts := deleted\<rparr>, a_keys = [],
     a_snippets = [], a_sessions = sessions_initial, a_transfers = transfers_initial,
     a_secrets = secrets_initial, a_keychain = (),
     w_knownHosts = [], w_identities = [],
     w_settings = setLastAppliedSnapshotId (Some ''s0'') (app_initial True ''v'' ''d'')\<rparr>"

definition example_file :: "host list \<Rightarrow> raw_bundle" where
  "example_file hosts = bundle_file \<lparr>b_exportedAt = ''1'',
     b_vault = \<lparr>vm_schema = VAULT_SCHEMA, vm_vaultId = ''v'', vm_sourceDeviceId = ''e'',
       vm_snapshotId = ''s1'', vm_baseSnapshotId = Some ''s0''\<rparr>,
     b_hosts = hosts, b_keys = [], b_snippets = [], b_knownHosts = [], b_identities = [],
     b_deletions = emptyDeletionMap\<rparr>"

definition example_deletion :: deletion where
  "example_deletion = \<lparr>d_id = h_id (hd sampleHosts), d_deletedAt = ''2026-05-01T00:00:00.000Z''\<rparr>"

definition example_prepared :: "host list \<Rightarrow> unit workspace \<Rightarrow> prepared_import" where
  "example_prepared hosts w = \<lparr>pi_bundle = example_file hosts,
     pi_analysis = analyse_bundle (\<lambda>_. Some 0) code_unit_compare (\<lambda>_ _. False) 0 w (example_file hosts)\<rparr>"

lemma example_merges:
  "case applyPrepared (\<lambda>_. Some 0) code_unit_compare (\<lambda>_ _. False) 0 ''now''
     (example_prepared [hd sampleHosts] (example_device [] [example_deletion]))
     \<lparr>io_mode = Merge, io_resolution = None\<rparr> (example_device [] [example_deletion])
   of Inl e \<Rightarrow> False | Inr (s, w) \<Rightarrow> map h_id (a_hosts w) = [h_id (hd sampleHosts)] \<and> dm_hosts (a_vault w) = []"
  by code_simp

abbreviation example_run :: "(import_summary \<times> unit workspace) result" where
  "example_run \<equiv> applyPrepared (\<lambda>_. Some 0) code_unit_compare (\<lambda>_ _. False) 0 ''now''
     (example_prepared [hd sampleHosts] (example_device [] [example_deletion]))
     \<lparr>io_mode = Merge, io_resolution = None\<rparr> (example_device [] [example_deletion])"

lemma example_run_ok:
  obtains s w where "example_run = Inr (s, w)" "map h_id (a_hosts w) = [h_id (hd sampleHosts)]"
    "dm_hosts (a_vault w) = []"
  using example_merges by (auto split: sum.splits)

lemma merge_leaves_consistent_vault_witness:
  "\<exists>s w. example_run = Inr (s, w) \<and> no_ghosts_anywhere w \<and> references_resolve w"
proof -
  obtain s w where w: "example_run = Inr (s, w)" using example_run_ok .
  from merge_leaves_consistent_vault[OF w] w show ?thesis by blast
qed

subsection \<open>Deletions on this device\<close>

lemma prepared_hosts_ids:
  "rb_hosts rb = Some hs \<Longrightarrow> h_id ` set (c_hosts (prepareImportedCollections lc rb)) = (h_id \<circ> r_host) ` set hs"
  by (simp add: prepareImportedCollections_def Let_def coalesce_def sortRawHosts_def image_image
      normalizeHostRecord_def comp_def)

lemma merge_restores_hosts:
  assumes "applyPrepared dp lc fresh ms now p \<lparr>io_mode = Merge, io_resolution = r\<rparr> w = Inr (s, w')"
    and "rb_hosts (pi_bundle p) = Some hs" "h \<in> set hs"
  shows "h_id (r_host h) \<in> h_id ` set (a_hosts w')" "h_id (r_host h) \<notin> tombstone_ids (a_vault w') KHosts"
proof -
  have "h_id (r_host h) \<in> h_id ` set (c_hosts (prepareImportedCollections lc (pi_bundle p)))"
    using assms(3) by (simp add: prepared_hosts_ids[OF assms(2)])
  then have "h_id (r_host h) \<in> h_id ` set (a_hosts w')"
    unfolding applyPrepared_merge(1)[OF assms(1)] install_fields merged_records_fields merge_for_def
      merged_hosts_eq
    using mergeCollection_ids[of "host_ops fresh" "sortHostCollection lc", unfolded ko_id_simps, OF as_record_store(1)]
      imported_ids_survive[of _ "host_ops fresh", unfolded ko_id_simps] by simp
  then show "h_id (r_host h) \<in> h_id ` set (a_hosts w')"
    "h_id (r_host h) \<notin> tombstone_ids (a_vault w') KHosts"
    using merge_state_ok(1)[OF assms(1)] by (auto simp: no_ghosts_anywhere_def no_ghosts_def)
qed

text \<open>A merge does not look at the tombstones of this device: every host of the imported file is in
  the result and has no tombstone there. So a host that was deleted here comes back, even when the
  deletion is later than the last change the file knows (the example is such a case), and since its
  tombstone is gone the deletion does not reach other devices either.\<close>

theorem merge_resurrects_deleted_host:
  assumes "applyPrepared dp lc fresh ms now p \<lparr>io_mode = Merge, io_resolution = r\<rparr> w = Inr (s, w')"
    and "rb_hosts (pi_bundle p) = Some hs" "h \<in> set hs"
  shows "h_id (r_host h) \<in> h_id ` set (a_hosts w') \<and>
    h_id (r_host h) \<notin> tombstone_ids (a_vault w') KHosts"
  using merge_restores_hosts[OF assms(1,2,3)] by blast

lemma merge_resurrects_deleted_host_witness:
  "\<exists>s w. example_run = Inr (s, w) \<and> h_id (hd sampleHosts) \<in> h_id ` set (a_hosts w) \<and>
     d_id example_deletion = h_id (hd sampleHosts) \<and>
     h_updatedAt (hd sampleHosts) < d_deletedAt example_deletion \<and>
     h_id (hd sampleHosts) \<notin> tombstone_ids (a_vault w) KHosts"
proof -
  obtain s w where w: "example_run = Inr (s, w)" using example_run_ok .
  have late: "h_updatedAt (hd sampleHosts) < d_deletedAt example_deletion" by code_simp
  have "h_id (hd sampleHosts) \<in> h_id ` set (a_hosts w) \<and>
      h_id (hd sampleHosts) \<notin> tombstone_ids (a_vault w) KHosts"
    using merge_resurrects_deleted_host[OF w, of "[as_raw (hd sampleHosts)]" "as_raw (hd sampleHosts)"]
    by (simp add: example_prepared_def example_file_def bundle_file_def as_raw_def)
  with w late show ?thesis by (auto simp: example_deletion_def)
qed

subsection \<open>The preview\<close>

lemma merge_plan_eq:
  "buildMergePlan lc fresh L I ds = (let m = mergePreparedCollections lc fresh L I ds Block in
     \<lparr>mp_applicable = True, mp_hasConflicts = merge_conflicts m, mp_hosts = snd (m_hosts m),
      mp_keys = snd (m_keys m), mp_snippets = snd (m_snippets m), mp_knownHosts = snd (m_knownHosts m),
      mp_identities = snd (m_identities m)\<rparr>)"
  by (simp only: buildMergePlan_def mergePreparedCollections_def Let_def merge_conflicts_def
      merged_collections.simps)

lemma mergeCollection_no_conflict:
  assumes "ms_conflicts (snd (mergeCollection lc K L I srt ds Block)) = 0"
  shows "mergeCollection lc K L I srt ds res = mergeCollection lc K L I srt ds Block"
  using merge_no_conflict[of lc K L I ds Block res] assms by (simp add: mergeCollection_def Let_def)

lemma mergePrepared_no_conflict:
  assumes "\<not> merge_conflicts (mergePreparedCollections lc fresh L I ds Block)"
  shows "mergePreparedCollections lc fresh L I ds res = mergePreparedCollections lc fresh L I ds Block"
proof -
  let ?m = "mergePreparedCollections lc fresh L I ds"
  have z: "ms_conflicts (snd (m_hosts (?m Block))) = 0" "ms_conflicts (snd (m_keys (?m Block))) = 0"
    "ms_conflicts (snd (m_snippets (?m Block))) = 0" "ms_conflicts (snd (m_knownHosts (?m Block))) = 0"
    "ms_conflicts (snd (m_identities (?m Block))) = 0"
    using assms by (simp_all add: merge_conflicts_def)
  note nc = z[unfolded merged_hosts_eq merged_keys_eq merged_others_eq, THEN mergeCollection_no_conflict]
  have h: "m_hosts (?m res) = m_hosts (?m Block)" unfolding merged_hosts_eq by (rule nc(1))
  have "m_keys (?m res) = m_keys (?m Block)" "m_snippets (?m res) = m_snippets (?m Block)"
    "m_knownHosts (?m res) = m_knownHosts (?m Block)" "m_identities (?m res) = m_identities (?m Block)"
    unfolding merged_keys_eq h unfolding merged_hosts_eq merged_others_eq by (rule nc(2-5))+
  with h show ?thesis by (rule_tac merged_collections.equality) simp_all
qed

definition section_size :: "merge_section \<Rightarrow> nat" where
  "section_size s = ms_added s + ms_updated s + ms_retainedLocal s + ms_unchanged s"

lemma merge_size:
  assumes "ms_conflicts (snd (merge_records lc K L I ds res)) = 0"
  shows "length (fst (merge_records lc K L I ds res)) = section_size (snd (merge_records lc K L I ds res))"
proof -
  let ?v = "verdict_at lc K L I ds" and ?f = "survivor_at lc K L I ds res"
  have none: "\<forall>i \<in> set (merge_ids K L I). ?v i \<noteq> Conflict"
    using assms by (auto simp: merge_records_spec section_of_def Let_def filter_empty_conv)
  have surv: "?f i = None \<longleftrightarrow> ?v i \<in> {Absent, Removed}" if "?v i \<noteq> Conflict" for i
    using that by (auto simp: survivor_at_def verdict_at_def survivor_def verdict_def
        split: option.splits if_splits)
  have "length (concat (map (\<lambda>i. case ?f i of None \<Rightarrow> [] | Some r \<Rightarrow> [r]) is)) =
      length (filter (\<lambda>i. ?v i = Added) is) + length (filter (\<lambda>i. ?v i = Updated) is) +
      length (filter (\<lambda>i. ?v i = Retained) is) + length (filter (\<lambda>i. ?v i = Unchanged) is)"
    if "\<forall>i \<in> set is. ?v i \<noteq> Conflict" for "is"
    using that
  proof (induction "is")
    case (Cons i "is")
    then have "?v i \<noteq> Conflict" by simp
    with surv[OF this] Cons show ?case by (cases "?v i"; cases "?f i") simp_all
  qed simp
  from this[OF none] show ?thesis by (simp add: merge_records_spec section_of_def section_size_def Let_def)
qed

lemma mergeCollection_size:
  assumes "record_store rid srt" "ms_conflicts (snd (mergeCollection lc K L I srt ds res)) = 0"
  shows "length (fst (mergeCollection lc K L I srt ds res)) = section_size (snd (mergeCollection lc K L I srt ds res))"
  using merge_size[of lc K L I ds res] assms(2)
  by (simp add: record_store.srt_length[OF assms(1)])

lemma merged_sizes:
  assumes "\<not> merge_conflicts (mergePreparedCollections lc fresh L I ds Block)"
  shows "length (c_hosts (merged_records (mergePreparedCollections lc fresh L I ds Block))) =
      section_size (snd (m_hosts (mergePreparedCollections lc fresh L I ds Block)))"
    "length (c_keys (merged_records (mergePreparedCollections lc fresh L I ds Block))) =
      section_size (snd (m_keys (mergePreparedCollections lc fresh L I ds Block)))"
    "length (c_snippets (merged_records (mergePreparedCollections lc fresh L I ds Block))) =
      section_size (snd (m_snippets (mergePreparedCollections lc fresh L I ds Block)))"
    "length (c_knownHosts (merged_records (mergePreparedCollections lc fresh L I ds Block))) =
      section_size (snd (m_knownHosts (mergePreparedCollections lc fresh L I ds Block)))"
    "length (c_identities (merged_records (mergePreparedCollections lc fresh L I ds Block))) =
      section_size (snd (m_identities (mergePreparedCollections lc fresh L I ds Block)))"
proof -
  let ?m = "mergePreparedCollections lc fresh L I ds Block"
  have z: "ms_conflicts (snd (m_hosts ?m)) = 0" "ms_conflicts (snd (m_keys ?m)) = 0"
    "ms_conflicts (snd (m_snippets ?m)) = 0" "ms_conflicts (snd (m_knownHosts ?m)) = 0"
    "ms_conflicts (snd (m_identities ?m)) = 0"
    using assms by (simp_all add: merge_conflicts_def)
  note z' = z[unfolded merged_hosts_eq merged_keys_eq merged_others_eq]
  show "length (c_hosts (merged_records ?m)) = section_size (snd (m_hosts ?m))"
    unfolding merged_records_fields merged_hosts_eq by (rule mergeCollection_size[OF as_record_store(1) z'(1)])
  show "length (c_keys (merged_records ?m)) = section_size (snd (m_keys ?m))"
    unfolding merged_records_fields merged_keys_eq merged_hosts_eq
    by (rule mergeCollection_size[OF as_record_store(2) z'(2)])
  show "length (c_snippets (merged_records ?m)) = section_size (snd (m_snippets ?m))"
    unfolding merged_records_fields merged_keys_eq merged_hosts_eq
    by (rule mergeCollection_size[OF as_record_store(3) z'(3)])
  show "length (c_knownHosts (merged_records ?m)) = section_size (snd (m_knownHosts ?m))"
    unfolding merged_records_fields merged_others_eq by (rule mergeCollection_size[OF as_record_store(4) z'(4)])
  show "length (c_identities (merged_records ?m)) = section_size (snd (m_identities ?m))"
    unfolding merged_records_fields merged_others_eq by (rule mergeCollection_size[OF as_record_store(5) z'(5)])
qed

lemma same_vault_mergeable:
  "map_option vm_vaultId v = Some (pa_vaultId s) \<Longrightarrow>
   import_strategy_of v s \<in> {FastForward, Divergent, SameSnapshot}"
  by (auto simp: import_strategy_of_def split: option.splits)

definition MERGE_CONFLICTS :: string where
  "MERGE_CONFLICTS = ''Config import merge found record conflicts. Review the import preview and replace the local vault only if that overwrite is intentional.''"

lemma analysis_plan:
  assumes "parseImportedLocalConfigBundle dp lc fresh ms w value = Inr p"
    and "ia_mergePlan (pi_analysis p) = Some plan"
  shows "ia_strategy (pi_analysis p) \<in> {FastForward, Divergent, SameSnapshot}"
    "plan = buildMergePlan lc fresh (current_collections w) (prepareImportedCollections lc (pi_bundle p))
       (prepareImportedDeletions dp lc ms (pi_bundle p))"
proof -
  obtain rb where p: "p = \<lparr>pi_bundle = rb, pi_analysis = analyse_bundle dp lc fresh ms w rb\<rparr>"
    using assms(1) by (auto simp: parseImportedLocalConfigBundle_def split: option.splits)
  have v: "map_option vm_vaultId (getImportedVaultMetadata rb) = Some (pa_vaultId (as_stored (w_settings w)))"
    and plan: "plan = buildMergePlan lc fresh (current_collections w) (prepareImportedCollections lc rb)
      (prepareImportedDeletions dp lc ms rb)"
    using assms(2) unfolding p analyse_bundle_def Let_def by (simp_all split: if_splits)
  show "ia_strategy (pi_analysis p) \<in> {FastForward, Divergent, SameSnapshot}"
    using same_vault_mergeable[OF v] by (simp add: p analyse_bundle_def Let_def)
  show "plan = buildMergePlan lc fresh (current_collections w) (prepareImportedCollections lc (pi_bundle p))
       (prepareImportedDeletions dp lc ms (pi_bundle p))"
    by (simp add: plan p)
qed

lemma applyPrepared_merges:
  assumes "ia_strategy (pi_analysis p) \<in> {FastForward, Divergent, SameSnapshot}"
    and "\<not> merge_conflicts (merge_for dp lc fresh ms (pi_bundle p) r w) \<or> r \<noteq> None"
  shows "\<exists>s. applyPrepared dp lc fresh ms now p \<lparr>io_mode = Merge, io_resolution = r\<rparr> w = Inr (s,
    install_collections dp lc ms now (getImportedVaultMetadata (pi_bundle p))
    (merged_records (merge_for dp lc fresh ms (pi_bundle p) r w))
    (buildAppliedDeletionMap lc Merge (a_vault w) (prepareImportedDeletions dp lc ms (pi_bundle p))
      (merged_records (merge_for dp lc fresh ms (pi_bundle p) r w))) w)"
  using assms by (auto simp: applyPrepared_def merge_for_def Let_def)

lemma applyPrepared_conflicts:
  assumes "ia_strategy (pi_analysis p) \<in> {FastForward, Divergent, SameSnapshot}"
    and "merge_conflicts (merge_for dp lc fresh ms (pi_bundle p) None w)"
  shows "applyPrepared dp lc fresh ms now p \<lparr>io_mode = Merge, io_resolution = None\<rparr> w = Inl MERGE_CONFLICTS"
  using assms by (auto simp: applyPrepared_def merge_for_def Let_def MERGE_CONFLICTS_def)

text \<open>C4: The preview tells what the merge will do. If it announces conflicts, the merge is refused
  until the user says how to resolve them; if it does not, the merge goes through with every choice,
  with the same result, and each collection then has as many records as the preview counts as added,
  updated, retained and unchanged.\<close>

theorem preview_predicts_merge:
  assumes "parseImportedLocalConfigBundle dp lc fresh ms w value = Inr p"
    and "ia_mergePlan (pi_analysis p) = Some plan"
  shows "if mp_hasConflicts plan
    then applyPrepared dp lc fresh ms now p \<lparr>io_mode = Merge, io_resolution = None\<rparr> w = Inl MERGE_CONFLICTS
    else \<exists>w'. (\<forall>r. \<exists>s. applyPrepared dp lc fresh ms now p \<lparr>io_mode = Merge, io_resolution = r\<rparr> w = Inr (s, w')) \<and>
      length (a_hosts w') = section_size (mp_hosts plan) \<and>
      length (a_keys w') = section_size (mp_keys plan) \<and>
      length (a_snippets w') = section_size (mp_snippets plan) \<and>
      length (w_knownHosts w') = section_size (mp_knownHosts plan) \<and>
      length (w_identities w') = section_size (mp_identities plan)"
proof -
  note st = analysis_plan(1)[OF assms]
  let ?m = "merge_for dp lc fresh ms (pi_bundle p) None w"
  have plan: "plan = \<lparr>mp_applicable = True, mp_hasConflicts = merge_conflicts ?m, mp_hosts = snd (m_hosts ?m),
      mp_keys = snd (m_keys ?m), mp_snippets = snd (m_snippets ?m), mp_knownHosts = snd (m_knownHosts ?m),
      mp_identities = snd (m_identities ?m)\<rparr>"
    by (simp only: analysis_plan(2)[OF assms] merge_plan_eq Let_def merge_for_def coalesce_def option.case)
  show ?thesis
  proof (cases "merge_conflicts ?m")
    case True
    then have "mp_hasConflicts plan" by (simp add: plan)
    then show ?thesis using applyPrepared_conflicts[OF st True] by (simp only: if_True)
  next
    case False
    have same: "merge_for dp lc fresh ms (pi_bundle p) r w = ?m" for r
    proof -
      have "mergePreparedCollections lc fresh (current_collections w)
          (prepareImportedCollections lc (pi_bundle p)) (prepareImportedDeletions dp lc ms (pi_bundle p)) q =
        mergePreparedCollections lc fresh (current_collections w)
          (prepareImportedCollections lc (pi_bundle p)) (prepareImportedDeletions dp lc ms (pi_bundle p)) Block" for q
        using False unfolding merge_for_def coalesce_def option.case by (rule mergePrepared_no_conflict)
      then show ?thesis unfolding merge_for_def coalesce_def by (simp only: option.case)
    qed
    let ?w = "install_collections dp lc ms now (getImportedVaultMetadata (pi_bundle p)) (merged_records ?m)
      (buildAppliedDeletionMap lc Merge (a_vault w) (prepareImportedDeletions dp lc ms (pi_bundle p))
        (merged_records ?m)) w"
    have run: "\<exists>s. applyPrepared dp lc fresh ms now p \<lparr>io_mode = Merge, io_resolution = r\<rparr> w = Inr (s, ?w)" for r
      using applyPrepared_merges[OF st, of dp lc fresh ms r w now] False unfolding same[of r] by blast
    have Fm: "\<not> merge_conflicts (mergePreparedCollections lc fresh (current_collections w)
        (prepareImportedCollections lc (pi_bundle p)) (prepareImportedDeletions dp lc ms (pi_bundle p)) Block)"
      using False by (simp add: merge_for_def coalesce_def)
    have size: "length (a_hosts ?w) = section_size (mp_hosts plan)"
      "length (a_keys ?w) = section_size (mp_keys plan)"
      "length (a_snippets ?w) = section_size (mp_snippets plan)"
      "length (w_knownHosts ?w) = section_size (mp_knownHosts plan)"
      "length (w_identities ?w) = section_size (mp_identities plan)"
      unfolding install_fields plan merge_plan.simps merge_for_def coalesce_def option.case
      by (rule merged_sizes[OF Fm])+
    have "\<not> mp_hasConflicts plan" using False by (simp add: plan)
    then show ?thesis by (simp only: if_False) (rule exI[of _ ?w], intro conjI allI run size)
  qed
qed

definition example_plan :: merge_plan where
  "example_plan = buildMergePlan code_unit_compare (\<lambda>_ _. False)
     (current_collections (example_device [] [example_deletion]))
     (prepareImportedCollections code_unit_compare (example_file [hd sampleHosts]))
     (prepareImportedDeletions (\<lambda>_. Some 0) code_unit_compare 0 (example_file [hd sampleHosts]))"

lemma example_parses:
  "parseImportedLocalConfigBundle (\<lambda>_. Some 0) code_unit_compare (\<lambda>_ _. False) 0
     (example_device hosts ds) (Some (example_file hs)) = Inr (example_prepared hs (example_device hosts ds))"
  by (simp add: parseImportedLocalConfigBundle_def example_prepared_def bundle_problem_def
      example_file_def bundle_file_def SUPPORTED_APPS_def)

lemma example_lineage:
  "getImportedVaultMetadata (example_file hs) = Some \<lparr>vm_schema = VAULT_SCHEMA, vm_vaultId = ''v'',
     vm_sourceDeviceId = ''e'', vm_snapshotId = ''s1'', vm_baseSnapshotId = Some ''s0''\<rparr>"
  "as_stored (w_settings (example_device hosts ds)) =
     (as_stored (app_initial True ''v'' ''d''))\<lparr>pa_lastAppliedSnapshotId := Some ''s0''\<rparr>"
  by (simp_all add: getImportedVaultMetadata_def example_file_def bundle_file_def VAULT_SCHEMA_def
      example_device_def setLastAppliedSnapshotId_def set_stored_def)

lemma example_analysis:
  "ia_mergePlan (pi_analysis (example_prepared [hd sampleHosts] (example_device [] [example_deletion]))) =
     Some example_plan"
  by (simp only: example_prepared_def prepared_import.simps analyse_bundle_def Let_def
      import_analysis.simps example_lineage)
    (simp add: app_initial_def example_plan_def)

lemma preview_predicts_merge_witness:
  "mp_hosts example_plan = createEmptyMergeSection\<lparr>ms_added := 1\<rparr> \<and>
   (\<exists>w'. (\<forall>r. \<exists>s. applyPrepared (\<lambda>_. Some 0) code_unit_compare (\<lambda>_ _. False) 0 ''now''
      (example_prepared [hd sampleHosts] (example_device [] [example_deletion]))
      \<lparr>io_mode = Merge, io_resolution = r\<rparr> (example_device [] [example_deletion]) = Inr (s, w')) \<and>
     length (a_hosts w') = 1)"
proof -
  have c: "\<not> mp_hasConflicts example_plan"
    and h: "mp_hosts example_plan = createEmptyMergeSection\<lparr>ms_added := 1\<rparr>"
    by code_simp+
  from preview_predicts_merge[OF example_parses example_analysis, of "''now''"] c h show ?thesis
    by (auto simp: section_size_def createEmptyMergeSection_def)
qed

subsection \<open>Hosts made since the last start\<close>

lemma length_join: "xs \<noteq> [] \<Longrightarrow> Suc (length (join '','' xs)) = (\<Sum>x \<leftarrow> xs. Suc (length x))"
proof (induction xs rule: induct_list012)
  case (3 x y zs)
  then show ?case by simp
qed simp_all

definition entry_size :: "(string \<Rightarrow> string \<Rightarrow> int) \<Rightarrow> string \<times> json \<Rightarrow> nat" where
  "entry_size lc e = length (json_string (fst e) @ '':'' @ coalesce (stableSerialize lc (snd e)) ''undefined'')"

lemma object_length:
  assumes "m \<noteq> []"
  shows "\<exists>s. stableSerialize lc (JObject m) = Some s \<and> length s = Suc (\<Sum>e \<leftarrow> m. Suc (entry_size lc e))"
proof -
  let ?t = "\<lambda>(k, t). json_string k @ '':'' @ coalesce t ''undefined''"
  let ?f = "\<lambda>(k, v). (k, stableSerialize lc v)"
  let ?o = "js_sort (\<lambda>l r. lc (fst l) (fst r)) (obj_entries (map ?f m))"
  have ms: "mset ?o = mset (map ?f m)" by simp
  then have ne: "map ?t ?o \<noteq> []" using assms by (metis map_is_Nil_conv mset_zero_iff)
  have "(\<Sum>x \<leftarrow> map ?t ?o. Suc (length x)) = sum_mset (image_mset (\<lambda>x. Suc (length (?t x))) (mset ?o))"
    by (simp add: comp_def flip: sum_mset_sum_list)
  also have "\<dots> = (\<Sum>e \<leftarrow> m. Suc (entry_size lc e))"
    unfolding ms mset_map multiset.map_comp
    by (simp add: comp_def case_prod_beta entry_size_def flip: sum_mset_sum_list)
  finally have "Suc (length (join '','' (map ?t ?o))) = (\<Sum>e \<leftarrow> m. Suc (entry_size lc e))"
    using length_join[OF ne] by simp
  then show ?thesis by simp
qed

lemma same_object_size:
  "m \<noteq> [] \<Longrightarrow> m' \<noteq> [] \<Longrightarrow> stableSerialize lc (JObject m) = stableSerialize lc (JObject m') \<Longrightarrow>
   (\<Sum>e \<leftarrow> m. Suc (entry_size lc e)) = (\<Sum>e \<leftarrow> m'. Suc (entry_size lc e))"
  using object_length[of m lc] object_length[of m' lc] by fastforce

lemma fresh_host_differs:
  assumes "h_lastConnectedAt h = None \<or> h_identityId h = None"
  shows "stableSerialize lc (host_object True h) \<noteq> stableSerialize lc (host_object False h)"
proof
  assume "stableSerialize lc (host_object True h) = stableSerialize lc (host_object False h)"
  from same_object_size[OF _ _ this[unfolded host_object_def]] assms show False
    by (cases "h_lastConnectedAt h"; cases "h_identityId h") (simp_all add: opt_prop_def)
qed

lemma prepared_hosts_typed:
  "c_hosts (prepareImportedCollections lc (bundle_file b)) = sortHostCollection lc (b_hosts b)"
  by (simp add: prepareImportedCollections_def bundle_file_def Let_def coalesce_def sortRawHosts_typed)

lemma tie_conflicts:
  assumes "distinct (map (ko_id K) L)" "distinct (map (ko_id K) I)" "l \<in> set L" "r \<in> set I"
    and "ko_id K l = ko_id K r" "ko_stamp K l = ko_stamp K r" "\<not> same_content lc K l r"
  shows "ms_conflicts (snd (mergeCollection lc K L I srt ds res)) > 0"
proof -
  have "verdict_at lc K L I ds (ko_id K l) = Conflict"
    using by_id_self[OF assms(1,3)] by_id_self[OF assms(2,4)] assms(5-7)
    by (simp add: verdict_at_def verdict_def)
  moreover have "ko_id K l \<in> set (merge_ids K L I)" using assms(3) by simp
  ultimately have "filter (\<lambda>i. verdict_at lc K L I ds i = Conflict) (merge_ids K L I) \<noteq> []"
    by (auto simp: filter_empty_conv simp del: set_merge_ids)
  then show ?thesis by (simp add: merge_records_spec section_of_def Let_def)
qed

text \<open>A host made since the last start and never connected holds \<open>undefined\<close> for the missing
  fields, and a file cannot. Merging a bundle of the same vault that holds exactly that host, unchanged,
  is therefore refused as a conflict; on a host read from storage, with no such properties, nothing
  differs.\<close>

theorem unchanged_new_host_conflicts:
  assumes "ia_strategy (pi_analysis p) \<in> {FastForward, Divergent, SameSnapshot}"
    and "pi_bundle p = bundle_file b"
    and "distinct (map h_id (a_hosts w))" "distinct (map h_id (b_hosts b))"
    and "h \<in> set (a_hosts w)" "h \<in> set (b_hosts b)" "normalize_host h = h"
    and "h_lastConnectedAt h = None \<or> h_identityId h = None"
  shows "(fresh KHosts (h_id h) \<longrightarrow>
      applyPrepared dp lc fresh ms now p \<lparr>io_mode = Merge, io_resolution = None\<rparr> w = Inl MERGE_CONFLICTS) \<and>
    (\<not> fresh KHosts (h_id h) \<longrightarrow> same_content lc (host_ops fresh) h h)"
proof (intro conjI impI)
  assume f: "fresh KHosts (h_id h)"
  let ?I = "c_hosts (prepareImportedCollections lc (pi_bundle p))"
  have "\<not> same_content lc (host_ops fresh) h h"
    using fresh_host_differs[OF assms(8), of lc] f by (simp add: same_content_def host_ops_def)
  moreover have "h \<in> set ?I" using assms(6,7) by (force simp: assms(2) prepared_hosts_typed)
  moreover have "distinct (map h_id ?I)"
    unfolding assms(2) prepared_hosts_typed using assms(4) hosts.srt_distinct by blast
  ultimately have "ms_conflicts (snd (mergeCollection lc (host_ops fresh) (a_hosts w) ?I
      (sortHostCollection lc) ds Block)) > 0" for ds
    using tie_conflicts[of "host_ops fresh" "a_hosts w" ?I h h] assms(3,5) by simp
  then have "merge_conflicts (merge_for dp lc fresh ms (pi_bundle p) None w)"
    unfolding merge_conflicts_def merge_for_def merged_hosts_eq current_collections_def coalesce_def
    by simp
  then show "applyPrepared dp lc fresh ms now p \<lparr>io_mode = Merge, io_resolution = None\<rparr> w = Inl MERGE_CONFLICTS"
    by (rule applyPrepared_conflicts[OF assms(1)])
qed (simp add: same_content_def host_ops_def)

definition new_host :: host where
  "new_host = normalize_host ((hd sampleHosts)\<lparr>h_lastConnectedAt := None, h_environment := []\<rparr>)"

lemma unchanged_new_host_conflicts_witness:
  "applyPrepared (\<lambda>_. Some 0) code_unit_compare (\<lambda>_ _. True) 0 ''now''
     (example_prepared [new_host] (example_device [new_host] []))
     \<lparr>io_mode = Merge, io_resolution = None\<rparr> (example_device [new_host] []) = Inl MERGE_CONFLICTS"
proof -
  have strategy: "ia_strategy (pi_analysis (example_prepared [new_host] (example_device [new_host] []))) = FastForward"
    by (simp only: example_prepared_def prepared_import.simps analyse_bundle_def Let_def
        import_analysis.simps example_lineage)
      (simp add: import_strategy_of_def app_initial_def truthy_def)
  have normal: "normalize_host new_host = new_host" and none: "h_lastConnectedAt new_host = None" by code_simp+
  obtain b where b: "pi_bundle (example_prepared [new_host] (example_device [new_host] [])) = bundle_file b"
    "b_hosts b = [new_host]" by (simp add: example_prepared_def example_file_def)
  show ?thesis
    using unchanged_new_host_conflicts[of "example_prepared [new_host] (example_device [new_host] [])" b
        "example_device [new_host] []" new_host "\<lambda>_ _. True" "\<lambda>_. Some 0" code_unit_compare 0 "''now''"]
      strategy b normal none by (simp add: example_device_def)
qed

subsection \<open>Export and import\<close>

















end
