(* ===== verification/SyncContract.thy ===== *)
theory SyncContract
  imports LocalConfig
begin

section \<open>Sync envelopes and their trust (\<open>lib/vault-sync-contract.ts\<close>)\<close>

text \<open>
  A bundle travels encrypted in an envelope: a header that says what is inside, the cipher text, and a
  digest over both. An envelope and a trust policy arrive as unknown values and are checked by type
  guards; what passes is read by the \<open>view_\<close> functions, which is what the cast in the code does. The
  hash is a parameter (\<open>sha\<close>, the hexadecimal SHA-256 of the UTF-8 encoding).
\<close>

record count_summary =
  cs_hosts :: "int number"
  cs_keys :: "int number"
  cs_snippets :: "int number"
  cs_knownHosts :: "int number"

record envelope_header =
  eh_schema :: string
  eh_version :: "int number"
  eh_payloadKind :: string
  eh_vaultId :: string
  eh_sourceDeviceId :: string
  eh_snapshotId :: string
  eh_baseSnapshotId :: "string option"
  eh_exportedAt :: string
  eh_recordCounts :: count_summary
  eh_deletionCounts :: count_summary

record cipher_payload =
  cp_algorithm :: string
  cp_keyId :: string
  cp_nonce :: string
  cp_ciphertext :: string
  cp_authTag :: string

record envelope =
  ev_header :: envelope_header
  ev_cipher :: cipher_payload
  ev_digestAlgorithm :: string
  ev_digestValue :: string

record local_context =
  lx_vaultId :: string
  lx_lastAppliedSnapshotId :: "string option"

record envelope_analysis =
  en_strategy :: import_strategy
  en_digestMatches :: bool
  en_header :: envelope_header

record trusted_key =
  tk_keyId :: string
  tk_algorithm :: string
  tk_validFrom :: string
  tk_rotateAfter :: "string option"
  tk_retireAfter :: "string option"
  tk_allowedVaultIds :: "string list option"
  tk_replacementKeyIds :: "string list"

record trust_policy =
  tp_schema :: string
  tp_version :: "int number"
  tp_allowUnknownKeys :: bool
  tp_trustedKeys :: "trusted_key list"

datatype trust_status =
  Active | Rotating | Retired | NotYetValid | UnknownKey | VaultMismatch | AlgorithmMismatch

record trust_analysis =
  ta_accepted :: bool
  ta_status :: trust_status
  ta_matchedKeyId :: "string option"
  ta_replacementKeyIds :: "string list"
  ta_reason :: "string option"

subsection \<open>Type guards\<close>

fun is_string :: "json \<Rightarrow> bool" where
  "is_string (JString s) = True" | "is_string _ = False"

fun is_number :: "json \<Rightarrow> bool" where
  "is_number (JNumber n) = True" | "is_number _ = False"

fun is_boolean :: "json \<Rightarrow> bool" where
  "is_boolean (JBool b) = True" | "is_boolean _ = False"

fun array_items :: "json \<Rightarrow> json list option" where
  "array_items (JArray xs) = Some xs" | "array_items _ = None"

definition isStringArray :: "json \<Rightarrow> bool" where
  "isStringArray v = (case array_items v of None \<Rightarrow> False | Some xs \<Rightarrow> list_all is_string xs)"

text \<open>Arrays are objects, too; they have none of the properties that are asked for.\<close>

fun isRecord :: "json \<Rightarrow> bool" where
  "isRecord (JObject m) = True" | "isRecord (JArray xs) = True" | "isRecord _ = False"

definition isCountSummary :: "json \<Rightarrow> bool" where
  "isCountSummary v \<longleftrightarrow> isRecord v \<and> is_number (json_get v ''hosts'') \<and>
     is_number (json_get v ''keys'') \<and> is_number (json_get v ''snippets'') \<and>
     is_number (json_get v ''knownHosts'')"

definition isCipherPayload :: "json \<Rightarrow> bool" where
  "isCipherPayload v \<longleftrightarrow> isRecord v \<and> json_get v ''algorithm'' = JString ''AES-256-GCM'' \<and>
     is_string (json_get v ''keyId'') \<and> is_string (json_get v ''nonce'') \<and>
     is_string (json_get v ''ciphertext'') \<and> is_string (json_get v ''authTag'')"

definition isEnvelopeHeader :: "json \<Rightarrow> bool" where
  "isEnvelopeHeader v \<longleftrightarrow> isRecord v \<and>
     (json_get v ''schema'' = JString ''termsnip-vault-sync'' \<or>
      json_get v ''schema'' = JString ''terminal-workspace-sync'') \<and>
     json_get v ''version'' = JNumber (Finite 1) \<and>
     json_get v ''payloadKind'' = JString ''local-config-bundle'' \<and>
     is_string (json_get v ''vaultId'') \<and> is_string (json_get v ''sourceDeviceId'') \<and>
     is_string (json_get v ''snapshotId'') \<and>
     (is_string (json_get v ''baseSnapshotId'') \<or> json_get v ''baseSnapshotId'' = JNull) \<and>
     is_string (json_get v ''exportedAt'') \<and>
     isCountSummary (json_get v ''recordCounts'') \<and> isCountSummary (json_get v ''deletionCounts'')"

definition isTrustedKey :: "json \<Rightarrow> bool" where
  "isTrustedKey v \<longleftrightarrow> isRecord v \<and> is_string (json_get v ''keyId'') \<and>
     json_get v ''algorithm'' = JString ''AES-256-GCM'' \<and> is_string (json_get v ''validFrom'') \<and>
     (is_string (json_get v ''rotateAfter'') \<or> json_get v ''rotateAfter'' = JNull) \<and>
     (is_string (json_get v ''retireAfter'') \<or> json_get v ''retireAfter'' = JNull) \<and>
     (json_get v ''allowedVaultIds'' = JNull \<or> isStringArray (json_get v ''allowedVaultIds'')) \<and>
     isStringArray (json_get v ''replacementKeyIds'')"

subsection \<open>Reading what has passed the guards\<close>

fun view_string :: "json \<Rightarrow> string" where
  "view_string (JString s) = s" | "view_string _ = []"

fun view_nullable :: "json \<Rightarrow> string option" where
  "view_nullable (JString s) = Some s" | "view_nullable _ = None"

fun view_number :: "json \<Rightarrow> int number" where
  "view_number (JNumber n) = n" | "view_number _ = NaN"

fun view_boolean :: "json \<Rightarrow> bool" where
  "view_boolean (JBool b) = b" | "view_boolean _ = False"

definition view_strings :: "json \<Rightarrow> string list" where
  "view_strings v = map view_string (coalesce (array_items v) [])"

definition view_counts :: "json \<Rightarrow> count_summary" where
  "view_counts v = \<lparr>cs_hosts = view_number (json_get v ''hosts''),
     cs_keys = view_number (json_get v ''keys''), cs_snippets = view_number (json_get v ''snippets''),
     cs_knownHosts = view_number (json_get v ''knownHosts'')\<rparr>"

definition view_header :: "json \<Rightarrow> envelope_header" where
  "view_header v = \<lparr>eh_schema = view_string (json_get v ''schema''),
     eh_version = view_number (json_get v ''version''),
     eh_payloadKind = view_string (json_get v ''payloadKind''),
     eh_vaultId = view_string (json_get v ''vaultId''),
     eh_sourceDeviceId = view_string (json_get v ''sourceDeviceId''),
     eh_snapshotId = view_string (json_get v ''snapshotId''),
     eh_baseSnapshotId = view_nullable (json_get v ''baseSnapshotId''),
     eh_exportedAt = view_string (json_get v ''exportedAt''),
     eh_recordCounts = view_counts (json_get v ''recordCounts''),
     eh_deletionCounts = view_counts (json_get v ''deletionCounts'')\<rparr>"

definition view_cipher :: "json \<Rightarrow> cipher_payload" where
  "view_cipher v = \<lparr>cp_algorithm = view_string (json_get v ''algorithm''),
     cp_keyId = view_string (json_get v ''keyId''), cp_nonce = view_string (json_get v ''nonce''),
     cp_ciphertext = view_string (json_get v ''ciphertext''),
     cp_authTag = view_string (json_get v ''authTag'')\<rparr>"

definition view_trusted_key :: "json \<Rightarrow> trusted_key" where
  "view_trusted_key v = \<lparr>tk_keyId = view_string (json_get v ''keyId''),
     tk_algorithm = view_string (json_get v ''algorithm''),
     tk_validFrom = view_string (json_get v ''validFrom''),
     tk_rotateAfter = view_nullable (json_get v ''rotateAfter''),
     tk_retireAfter = view_nullable (json_get v ''retireAfter''),
     tk_allowedVaultIds = (if json_get v ''allowedVaultIds'' = JNull then None
       else Some (view_strings (json_get v ''allowedVaultIds''))),
     tk_replacementKeyIds = view_strings (json_get v ''replacementKeyIds'')\<rparr>"

definition parseVaultSyncEnvelope :: "json \<Rightarrow> envelope result" where
  "parseVaultSyncEnvelope v =
     (if \<not> isRecord v \<or> \<not> isEnvelopeHeader (json_get v ''header'') \<or>
         \<not> isCipherPayload (json_get v ''cipher'')
      then Inl ''Vault sync envelope is invalid.''
      else if \<not> isRecord (json_get v ''digest'') \<or>
         json_get (json_get v ''digest'') ''algorithm'' \<noteq> JString ''SHA-256'' \<or>
         \<not> is_string (json_get (json_get v ''digest'') ''value'')
      then Inl ''Vault sync envelope digest is invalid.''
      else Inr \<lparr>ev_header = view_header (json_get v ''header''),
        ev_cipher = view_cipher (json_get v ''cipher''),
        ev_digestAlgorithm = view_string (json_get (json_get v ''digest'') ''algorithm''),
        ev_digestValue = view_string (json_get (json_get v ''digest'') ''value'')\<rparr>)"

definition parseVaultSyncTrustPolicy :: "json \<Rightarrow> trust_policy result" where
  "parseVaultSyncTrustPolicy v =
     (if \<not> isRecord v \<or>
         json_get v ''schema'' \<noteq> JString ''termsnip-vault-sync-trust'' \<and>
         json_get v ''schema'' \<noteq> JString ''terminal-workspace-sync-trust'' \<or>
         json_get v ''version'' \<noteq> JNumber (Finite 1) \<or>
         \<not> is_boolean (json_get v ''allowUnknownKeys'') \<or>
         array_items (json_get v ''trustedKeys'') = None \<or>
         \<not> list_all isTrustedKey (coalesce (array_items (json_get v ''trustedKeys'')) [])
      then Inl ''Vault sync trust policy is invalid.''
      else Inr \<lparr>tp_schema = view_string (json_get v ''schema''),
        tp_version = view_number (json_get v ''version''),
        tp_allowUnknownKeys = view_boolean (json_get v ''allowUnknownKeys''),
        tp_trustedKeys = map view_trusted_key (coalesce (array_items (json_get v ''trustedKeys'')) [])\<rparr>)"

subsection \<open>Building and inspecting envelopes\<close>

definition countBundleRecords :: "config_bundle \<Rightarrow> count_summary" where
  "countBundleRecords b = \<lparr>cs_hosts = Finite (int (length (b_hosts b))),
     cs_keys = Finite (int (length (b_keys b))), cs_snippets = Finite (int (length (b_snippets b))),
     cs_knownHosts = Finite (int (length (b_knownHosts b)))\<rparr>"

definition countBundleDeletions :: "config_bundle \<Rightarrow> count_summary" where
  "countBundleDeletions b = \<lparr>cs_hosts = Finite (int (length (dm_hosts (b_deletions b)))),
     cs_keys = Finite (int (length (dm_keys (b_deletions b)))),
     cs_snippets = Finite (int (length (dm_snippets (b_deletions b)))),
     cs_knownHosts = Finite (int (length (dm_knownHosts (b_deletions b))))\<rparr>"

definition counts_material :: "count_summary \<Rightarrow> string" where
  "counts_material c = join '':'' [show_number (cs_hosts c), show_number (cs_keys c),
     show_number (cs_snippets c), show_number (cs_knownHosts c)]"

definition digest_fields :: "envelope_header \<Rightarrow> cipher_payload \<Rightarrow> string list" where
  "digest_fields h c = [eh_schema h, show_number (eh_version h), eh_payloadKind h, eh_vaultId h,
     eh_sourceDeviceId h, eh_snapshotId h, coalesce (eh_baseSnapshotId h) [], eh_exportedAt h,
     counts_material (eh_recordCounts h), counts_material (eh_deletionCounts h),
     cp_algorithm c, cp_keyId c, cp_nonce c, cp_ciphertext c, cp_authTag c]"

definition createDigestMaterial :: "envelope_header \<Rightarrow> cipher_payload \<Rightarrow> string" where
  "createDigestMaterial h c = join ''|'' (digest_fields h c)"

definition classifyVaultSyncStrategy :: "envelope_header \<Rightarrow> local_context \<Rightarrow> import_strategy" where
  "classifyVaultSyncStrategy h x =
     (if Some (eh_snapshotId h) = lx_lastAppliedSnapshotId x then SameSnapshot
      else if eh_vaultId h \<noteq> lx_vaultId x then AdoptVault
      else if truthy (lx_lastAppliedSnapshotId x) \<and> eh_baseSnapshotId h = lx_lastAppliedSnapshotId x
      then FastForward else Divergent)"

definition envelope_header_of :: "config_bundle \<Rightarrow> envelope_header" where
  "envelope_header_of b = \<lparr>eh_schema = ''terminal-workspace-sync'', eh_version = Finite 1,
     eh_payloadKind = ''local-config-bundle'', eh_vaultId = vm_vaultId (b_vault b),
     eh_sourceDeviceId = vm_sourceDeviceId (b_vault b), eh_snapshotId = vm_snapshotId (b_vault b),
     eh_baseSnapshotId = vm_baseSnapshotId (b_vault b), eh_exportedAt = b_exportedAt b,
     eh_recordCounts = countBundleRecords b, eh_deletionCounts = countBundleDeletions b\<rparr>"

definition buildVaultSyncEnvelope ::
    "(string \<Rightarrow> string) \<Rightarrow> config_bundle \<Rightarrow> cipher_payload \<Rightarrow> envelope" where
  "buildVaultSyncEnvelope sha b c = \<lparr>ev_header = envelope_header_of b, ev_cipher = c,
     ev_digestAlgorithm = ''SHA-256'',
     ev_digestValue = sha (createDigestMaterial (envelope_header_of b) c)\<rparr>"

definition inspect_parsed :: "(string \<Rightarrow> string) \<Rightarrow> envelope \<Rightarrow> local_context \<Rightarrow> envelope_analysis" where
  "inspect_parsed sha e x = \<lparr>en_strategy = classifyVaultSyncStrategy (ev_header e) x,
     en_digestMatches = (sha (createDigestMaterial (ev_header e) (ev_cipher e)) = ev_digestValue e),
     en_header = ev_header e\<rparr>"

definition inspectVaultSyncEnvelope ::
    "(string \<Rightarrow> string) \<Rightarrow> json \<Rightarrow> local_context \<Rightarrow> envelope_analysis result" where
  "inspectVaultSyncEnvelope sha v x =
     (case parseVaultSyncEnvelope v of Inl e \<Rightarrow> Inl e | Inr e \<Rightarrow> Inr (inspect_parsed sha e x))"

subsection \<open>Trust\<close>

definition trust_verdict ::
    "trusted_key \<Rightarrow> bool \<Rightarrow> trust_status \<Rightarrow> string option \<Rightarrow> trust_analysis" where
  "trust_verdict k accepted status reason = \<lparr>ta_accepted = accepted, ta_status = status,
     ta_matchedKeyId = Some (tk_keyId k), ta_replacementKeyIds = tk_replacementKeyIds k,
     ta_reason = reason\<rparr>"

text \<open>\<open>now\<close> is absent when the caller does not give it; the export time then stands for it.\<close>

definition evaluateVaultSyncEnvelopeTrust ::
    "envelope \<Rightarrow> trust_policy \<Rightarrow> string option \<Rightarrow> trust_analysis" where
  "evaluateVaultSyncEnvelopeTrust e policy now0 =
     (let exportedAt = eh_exportedAt (ev_header e); now = coalesce now0 exportedAt in
      case List.find (\<lambda>k. tk_keyId k = cp_keyId (ev_cipher e)) (tp_trustedKeys policy) of
        None \<Rightarrow> \<lparr>ta_accepted = tp_allowUnknownKeys policy, ta_status = UnknownKey,
          ta_matchedKeyId = None, ta_replacementKeyIds = [],
          ta_reason = Some (if tp_allowUnknownKeys policy
            then ''Envelope key is unknown but the policy allows unknown keys.''
            else ''Envelope key is not trusted by the local sync policy.'')\<rparr>
      | Some k \<Rightarrow>
          if tk_algorithm k \<noteq> cp_algorithm (ev_cipher e)
          then trust_verdict k False AlgorithmMismatch
            (Some ''Envelope algorithm does not match the trusted key record.'')
          else if (case tk_allowedVaultIds k of None \<Rightarrow> False
                   | Some ids \<Rightarrow> eh_vaultId (ev_header e) \<notin> set ids)
          then trust_verdict k False VaultMismatch
            (Some ''Envelope vault is not allowed for the trusted key record.'')
          else if exportedAt < tk_validFrom k
          then trust_verdict k False NotYetValid
            (Some ''Envelope was exported before the trusted key became valid.'')
          else if truthy (tk_retireAfter k) \<and> exportedAt > coalesce (tk_retireAfter k) []
          then trust_verdict k False Retired
            (Some ''Envelope was exported after the trusted key retirement time.'')
          else if truthy (tk_rotateAfter k) \<and> now \<ge> coalesce (tk_rotateAfter k) []
          then trust_verdict k True Rotating
            (Some ''Envelope is still valid, but the trusted key should be rotated.'')
          else trust_verdict k True Active None)"

subsection \<open>The trust store (\<open>store/vault-sync-trust-store.ts\<close>)\<close>

definition trusted_key_compare :: "(string \<Rightarrow> string \<Rightarrow> int) \<Rightarrow> trusted_key \<Rightarrow> trusted_key \<Rightarrow> int" where
  "trusted_key_compare lc l r =
     (if tk_validFrom l \<noteq> tk_validFrom r then lc (tk_validFrom r) (tk_validFrom l)
      else lc (tk_keyId l) (tk_keyId r))"

definition sortTrustedKeys ::
    "(string \<Rightarrow> string \<Rightarrow> int) \<Rightarrow> trusted_key list \<Rightarrow> trusted_key list" where
  "sortTrustedKeys lc ks = js_sort (trusted_key_compare lc) ks"

definition normalize_ids :: "(string \<Rightarrow> string \<Rightarrow> int) \<Rightarrow> string list \<Rightarrow> string list" where
  "normalize_ids lc ids = js_sort lc (dedup (filter (\<lambda>i. i \<noteq> []) ids))"

definition normalizeTrustedKey :: "(string \<Rightarrow> string \<Rightarrow> int) \<Rightarrow> trusted_key \<Rightarrow> trusted_key" where
  "normalizeTrustedKey lc k = k\<lparr>
     tk_allowedVaultIds := map_option (normalize_ids lc) (tk_allowedVaultIds k),
     tk_replacementKeyIds := normalize_ids lc (tk_replacementKeyIds k)\<rparr>"

definition createEmptyTrustPolicy :: trust_policy where
  "createEmptyTrustPolicy = \<lparr>tp_schema = ''terminal-workspace-sync-trust'', tp_version = Finite 1,
     tp_allowUnknownKeys = False, tp_trustedKeys = []\<rparr>"

definition setAllowUnknownKeys :: "bool \<Rightarrow> trust_policy \<Rightarrow> trust_policy" where
  "setAllowUnknownKeys b p = p\<lparr>tp_allowUnknownKeys := b\<rparr>"

definition upsertTrustedKey ::
    "(string \<Rightarrow> string \<Rightarrow> int) \<Rightarrow> trusted_key \<Rightarrow> trust_policy \<Rightarrow> trust_policy" where
  "upsertTrustedKey lc k p = p\<lparr>tp_trustedKeys := sortTrustedKeys lc
     (normalizeTrustedKey lc k # filter (\<lambda>e. tk_keyId e \<noteq> tk_keyId k) (tp_trustedKeys p))\<rparr>"

definition removeTrustedKey ::
    "(string \<Rightarrow> string \<Rightarrow> int) \<Rightarrow> string \<Rightarrow> trust_policy \<Rightarrow> trust_policy" where
  "removeTrustedKey lc i p =
     p\<lparr>tp_trustedKeys := sortTrustedKeys lc (filter (\<lambda>e. tk_keyId e \<noteq> i) (tp_trustedKeys p))\<rparr>"

definition replacePolicy ::
    "(string \<Rightarrow> string \<Rightarrow> int) \<Rightarrow> trust_policy \<Rightarrow> trust_policy \<Rightarrow> trust_policy" where
  "replacePolicy lc new p = \<lparr>tp_schema = ''terminal-workspace-sync-trust'', tp_version = Finite 1,
     tp_allowUnknownKeys = tp_allowUnknownKeys new,
     tp_trustedKeys = sortTrustedKeys lc (map (normalizeTrustedKey lc) (tp_trustedKeys new))\<rparr>"

subsection \<open>Inspection against the local policy (\<open>lib/vault-sync-runtime.ts\<close>)\<close>

definition inspectVaultSyncEnvelopeWithLocalPolicy ::
    "(string \<Rightarrow> string) \<Rightarrow> app_state \<Rightarrow> trust_policy \<Rightarrow> json \<Rightarrow> string option \<Rightarrow>
     (envelope_analysis \<times> trust_analysis) result" where
  "inspectVaultSyncEnvelopeWithLocalPolicy sha s policy v now0 =
     (case parseVaultSyncEnvelope v of
        Inl err \<Rightarrow> Inl err
      | Inr e \<Rightarrow> Inr (inspect_parsed sha e \<lparr>lx_vaultId = pa_vaultId (as_stored s),
            lx_lastAppliedSnapshotId = pa_lastAppliedSnapshotId (as_stored s)\<rparr>,
          evaluateVaultSyncEnvelopeTrust e policy (Some (coalesce now0 (eh_exportedAt (ev_header e))))))"

end
