(* ===== verification/SyncProps.thy ===== *)
theory SyncProps
  imports SyncContract
begin

section \<open>What envelopes and the trust policy guarantee\<close>

subsection \<open>The digest\<close>

lemma show_nat_inj: "show_nat m = show_nat n \<Longrightarrow> m = n"
  by (metis nat_of_digits_show_nat)

lemma show_nat_no_minus: "show_nat n \<noteq> CHR ''-'' # s"
  using show_nat_digits[of n] by (auto simp: digit_def)

lemma show_int_injective: "show_int i = show_int j \<Longrightarrow> i = j"
  using show_nat_no_minus[of "nat i"] show_nat_no_minus[of "nat j"]
  by (auto simp: show_int_def dest!: show_nat_inj split: if_splits)
    (metis show_nat_no_minus)+

lemma show_int_first: "show_int i = c # s \<Longrightarrow> digit c \<or> c = CHR ''-''"
  using show_int_chars[of c i] by simp

lemma show_number_inj: "show_number m = show_number n \<Longrightarrow> m = n"
proof -
  have f: "show_int i \<noteq> ''NaN''" "show_int i \<noteq> ''Infinity''" "show_int i \<noteq> ''-Infinity''" for i
    using show_int_first[of i "CHR ''N''"] show_int_first[of i "CHR ''I''"] show_int_chars[of "CHR ''I''" i]
    by (auto simp: digit_def)
  assume "show_number m = show_number n"
  with f f[symmetric] show ?thesis
    by (cases m; cases n) (auto dest: show_int_injective split: if_splits)
qed

lemma show_number_no_bar: "CHR ''|'' \<notin> set (show_number n)"
proof (cases n)
  case (Finite i)
  then show ?thesis using show_int_chars[of "CHR ''|''" i] by (auto simp: digit_def)
qed (auto split: if_splits)

lemma join_inj:
  assumes "xs \<noteq> []" "ys \<noteq> []" "\<forall>s \<in> set xs. c \<notin> set s" "\<forall>s \<in> set ys. c \<notin> set s"
    and "join [c] xs = join [c] ys"
  shows "xs = ys"
  using split_on_join[of xs c] split_on_join[of ys c] assms by metis

lemma counts_material_inj: "counts_material a = counts_material b \<Longrightarrow> a = b"
proof -
  assume "counts_material a = counts_material b"
  then have "[show_number (cs_hosts a), show_number (cs_keys a), show_number (cs_snippets a), show_number (cs_knownHosts a)] =
      [show_number (cs_hosts b), show_number (cs_keys b), show_number (cs_snippets b), show_number (cs_knownHosts b)]"
    unfolding counts_material_def by (rule join_inj[rotated -1]) (simp_all add: show_number_no_colon)
  then show ?thesis by (auto intro!: count_summary.equality dest: show_number_inj)
qed

lemma counts_material_no_bar: "CHR ''|'' \<notin> set (counts_material a)"
  by (simp add: counts_material_def show_number_no_bar)

text \<open>The free text of an envelope; nothing in the code keeps bars out of it.\<close>

definition no_bars :: "envelope_header \<Rightarrow> cipher_payload \<Rightarrow> bool" where
  "no_bars h c \<longleftrightarrow> (\<forall>s \<in> set [eh_schema h, eh_payloadKind h, eh_vaultId h, eh_sourceDeviceId h, eh_snapshotId h,
     coalesce (eh_baseSnapshotId h) [], eh_exportedAt h, cp_algorithm c, cp_keyId c, cp_nonce c,
     cp_ciphertext c, cp_authTag c]. CHR ''|'' \<notin> set s)"

lemma digest_fields_no_bar: "no_bars h c \<Longrightarrow> \<forall>s \<in> set (digest_fields h c). CHR ''|'' \<notin> set s"
  by (simp add: no_bars_def digest_fields_def counts_material_no_bar show_number_no_bar)

text \<open>The digest covers a header up to the difference between no base snapshot and an empty one.\<close>

lemma digest_material_inj:
  assumes "no_bars h c" "no_bars h' c'" "createDigestMaterial h c = createDigestMaterial h' c'"
  shows "h = h'\<lparr>eh_baseSnapshotId := eh_baseSnapshotId h\<rparr> \<and>
    coalesce (eh_baseSnapshotId h) [] = coalesce (eh_baseSnapshotId h') [] \<and> c = c'"
proof -
  have "digest_fields h c = digest_fields h' c'"
    by (rule join_inj[OF _ _ digest_fields_no_bar[OF assms(1)] digest_fields_no_bar[OF assms(2)]
          assms(3)[unfolded createDigestMaterial_def]])
      (simp_all add: digest_fields_def)
  then show ?thesis
    by (auto simp: digest_fields_def intro!: envelope_header.equality cipher_payload.equality
        dest!: show_number_inj counts_material_inj)
qed

text \<open>C35: the digest covers every field of an envelope. If the hash has no collisions, an envelope whose
  digest is the one its sender computed, and matches, has the cipher text that was sent and the header that
  was sent, counts included, as long as no text in them contains a bar. The one thing the digest does not
  tell apart is an absent base snapshot and an empty one, both of which enter it as the empty text; when
  neither side has an empty base snapshot the headers are equal altogether.\<close>

theorem digest_covers_envelope:
  assumes "inj sha" "en_digestMatches (inspect_parsed sha e x)"
    and "ev_digestValue e = ev_digestValue (buildVaultSyncEnvelope sha b c)"
    and "no_bars (ev_header e) (ev_cipher e)" "no_bars (envelope_header_of b) c"
  shows "ev_cipher e = c \<and>
    ev_header e = (envelope_header_of b)\<lparr>eh_baseSnapshotId := eh_baseSnapshotId (ev_header e)\<rparr> \<and>
    coalesce (eh_baseSnapshotId (ev_header e)) [] = coalesce (vm_baseSnapshotId (b_vault b)) [] \<and>
    (eh_baseSnapshotId (ev_header e) \<noteq> Some [] \<and> vm_baseSnapshotId (b_vault b) \<noteq> Some [] \<longrightarrow>
       ev_header e = envelope_header_of b)"
proof -
  have "createDigestMaterial (ev_header e) (ev_cipher e) = createDigestMaterial (envelope_header_of b) c"
    using assms(1-3) by (simp add: inspect_parsed_def buildVaultSyncEnvelope_def injD)
  note all = digest_material_inj[OF assms(4,5) this]
  note head = all[THEN conjunct1] and base = all[THEN conjunct2, THEN conjunct1] and cipher = all[THEN conjunct2, THEN conjunct2]
  let ?h = "envelope_header_of b"
  have snapshot: "eh_baseSnapshotId ?h = vm_baseSnapshotId (b_vault b)" by (simp add: envelope_header_of_def)
  have "ev_header e = ?h"
    if "eh_baseSnapshotId (ev_header e) \<noteq> Some []" "vm_baseSnapshotId (b_vault b) \<noteq> Some []"
  proof -
    have "eh_baseSnapshotId (ev_header e) = eh_baseSnapshotId ?h"
      using base that snapshot by (auto simp: coalesce_def split: option.splits)
    with head have "ev_header e = ?h\<lparr>eh_baseSnapshotId := eh_baseSnapshotId ?h\<rparr>" by (simp only:)
    then show ?thesis by simp
  qed
  with head base cipher show ?thesis unfolding snapshot by (intro conjI impI; blast)
qed

text \<open>An absent base snapshot and an empty one have the same digest.\<close>

lemma digest_ignores_empty_base:
  "createDigestMaterial (h\<lparr>eh_baseSnapshotId := None\<rparr>) c = createDigestMaterial (h\<lparr>eh_baseSnapshotId := Some []\<rparr>) c"
  by (simp add: createDigestMaterial_def digest_fields_def)

definition example_bundle :: config_bundle where
  "example_bundle = \<lparr>b_exportedAt = ''2026-05-01'',
     b_vault = \<lparr>vm_schema = VAULT_SCHEMA, vm_vaultId = ''v'', vm_sourceDeviceId = ''d'',
       vm_snapshotId = ''s'', vm_baseSnapshotId = None\<rparr>,
     b_hosts = [], b_keys = [], b_snippets = [], b_knownHosts = [], b_identities = [],
     b_deletions = emptyDeletionMap\<rparr>"

definition example_cipher :: cipher_payload where
  "example_cipher = \<lparr>cp_algorithm = ''AES-256-GCM'', cp_keyId = ''k'', cp_nonce = ''n'',
     cp_ciphertext = ''x'', cp_authTag = ''t''\<rparr>"

lemma digest_covers_envelope_witness:
  "ev_header (buildVaultSyncEnvelope id example_bundle example_cipher) = envelope_header_of example_bundle \<and>
   ev_cipher (buildVaultSyncEnvelope id example_bundle example_cipher) = example_cipher"
proof -
  let ?e = "buildVaultSyncEnvelope id example_bundle example_cipher"
  have "inj (id :: string \<Rightarrow> string)"
    "en_digestMatches (inspect_parsed id ?e \<lparr>lx_vaultId = [], lx_lastAppliedSnapshotId = None\<rparr>)"
    "no_bars (ev_header ?e) (ev_cipher ?e)" "no_bars (envelope_header_of example_bundle) example_cipher"
    "eh_baseSnapshotId (ev_header ?e) \<noteq> Some []" "vm_baseSnapshotId (b_vault example_bundle) \<noteq> Some []"
    by (simp_all add: inspect_parsed_def buildVaultSyncEnvelope_def no_bars_def envelope_header_of_def
      example_bundle_def example_cipher_def)
  with digest_covers_envelope[OF this(1,2) refl this(3,4)] show ?thesis by blast
qed

text \<open>With bars it does not: the boundary between two fields can be moved.\<close>

lemma digest_boundary_moves:
  "createDigestMaterial h (c\<lparr>cp_keyId := a, cp_nonce := b @ ''|'' @ d\<rparr>) =
   createDigestMaterial h (c\<lparr>cp_keyId := a @ ''|'' @ b, cp_nonce := d\<rparr>)"
  by (simp add: createDigestMaterial_def digest_fields_def)

text \<open>The digest does not cover the structure of an envelope whose text contains a bar: two
  envelopes with different key identifiers have the same digest under every hash, and inspection finds
  that the digest matches for both.\<close>

theorem digest_is_ambiguous:
  "\<exists>e e'. cp_keyId (ev_cipher e) \<noteq> cp_keyId (ev_cipher e') \<and>
     ev_digestValue e = ev_digestValue e' \<and>
     en_digestMatches (inspect_parsed sha e x) \<and> en_digestMatches (inspect_parsed sha e' x)"
proof (intro exI conjI)
  let ?c = "example_cipher\<lparr>cp_keyId := ''k'', cp_nonce := ''m'' @ ''|'' @ ''n''\<rparr>"
  let ?c' = "example_cipher\<lparr>cp_keyId := ''k'' @ ''|'' @ ''m'', cp_nonce := ''n''\<rparr>"
  let ?e = "buildVaultSyncEnvelope sha example_bundle ?c" and ?e' = "buildVaultSyncEnvelope sha example_bundle ?c'"
  show "cp_keyId (ev_cipher ?e) \<noteq> cp_keyId (ev_cipher ?e')" by (simp add: buildVaultSyncEnvelope_def)
  show "ev_digestValue ?e = ev_digestValue ?e'"
    by (simp only: buildVaultSyncEnvelope_def envelope.simps digest_boundary_moves)
  show "en_digestMatches (inspect_parsed sha ?e x)" "en_digestMatches (inspect_parsed sha ?e' x)"
    by (simp_all add: inspect_parsed_def buildVaultSyncEnvelope_def)
qed

subsection \<open>Envelopes on the wire\<close>

definition counts_json :: "count_summary \<Rightarrow> json" where
  "counts_json c = JObject [(''hosts'', JNumber (cs_hosts c)), (''keys'', JNumber (cs_keys c)),
     (''snippets'', JNumber (cs_snippets c)), (''knownHosts'', JNumber (cs_knownHosts c))]"

definition nullable_json :: "string option \<Rightarrow> json" where
  "nullable_json v = (case v of None \<Rightarrow> JNull | Some s \<Rightarrow> JString s)"

definition envelope_json :: "envelope \<Rightarrow> json" where
  "envelope_json e = (let h = ev_header e; c = ev_cipher e in JObject
     [(''header'', JObject [(''schema'', JString (eh_schema h)), (''version'', JNumber (eh_version h)),
        (''payloadKind'', JString (eh_payloadKind h)), (''vaultId'', JString (eh_vaultId h)),
        (''sourceDeviceId'', JString (eh_sourceDeviceId h)), (''snapshotId'', JString (eh_snapshotId h)),
        (''baseSnapshotId'', nullable_json (eh_baseSnapshotId h)),
        (''exportedAt'', JString (eh_exportedAt h)), (''recordCounts'', counts_json (eh_recordCounts h)),
        (''deletionCounts'', counts_json (eh_deletionCounts h))]),
      (''cipher'', JObject [(''algorithm'', JString (cp_algorithm c)), (''keyId'', JString (cp_keyId c)),
        (''nonce'', JString (cp_nonce c)), (''ciphertext'', JString (cp_ciphertext c)),
        (''authTag'', JString (cp_authTag c))]),
      (''digest'', JObject [(''algorithm'', JString (ev_digestAlgorithm e)),
        (''value'', JString (ev_digestValue e))])])"

lemma view_counts_json [simp]: "view_counts (counts_json c) = c" "isCountSummary (counts_json c)"
  by (simp_all add: view_counts_def counts_json_def isCountSummary_def)

lemma nullable_json_simps [simp]:
  "view_nullable (nullable_json v) = v" "is_string (nullable_json v) \<or> nullable_json v = JNull"
  by (cases v; simp add: nullable_json_def)+

lemma parse_built_envelope:
  assumes "cp_algorithm c = ''AES-256-GCM''"
  shows "parseVaultSyncEnvelope (envelope_json (buildVaultSyncEnvelope sha b c)) =
    Inr (buildVaultSyncEnvelope sha b c)"
  using assms by (simp add: parseVaultSyncEnvelope_def envelope_json_def buildVaultSyncEnvelope_def Let_def
      isEnvelopeHeader_def isCipherPayload_def view_header_def view_cipher_def envelope_header_of_def)

lemma classify_is_import_strategy:
  "classifyVaultSyncStrategy (envelope_header_of b) \<lparr>lx_vaultId = pa_vaultId s,
     lx_lastAppliedSnapshotId = pa_lastAppliedSnapshotId s\<rparr> = import_strategy_of (Some (b_vault b)) s"
  by (simp add: classifyVaultSyncStrategy_def import_strategy_of_def envelope_header_of_def)

text \<open>An envelope that a device builds is read back by every other device as it was sent: the guards
  let it pass, the digest matches, and its header alone already tells the strategy that importing the
  bundle itself would later report.\<close>

theorem envelope_roundtrip:
  assumes "cp_algorithm c = ''AES-256-GCM''" "vm_schema (b_vault b) = VAULT_SCHEMA"
  shows "\<exists>a. inspectVaultSyncEnvelope sha (envelope_json (buildVaultSyncEnvelope sha b c))
        \<lparr>lx_vaultId = pa_vaultId (as_stored (w_settings w)),
         lx_lastAppliedSnapshotId = pa_lastAppliedSnapshotId (as_stored (w_settings w))\<rparr> = Inr a \<and>
      en_digestMatches a \<and> en_header a = envelope_header_of b \<and>
      map_sum id ia_strategy (inspectImportedLocalConfigBundle dp lc fresh ms w (Some (bundle_file b))) =
        Inr (en_strategy a)"
proof -
  have "getImportedVaultMetadata (bundle_file b) = Some (b_vault b)"
    using assms(2) by (simp add: getImportedVaultMetadata_def bundle_file_def)
  moreover have "bundle_problem (bundle_file b) = None"
    by (simp add: bundle_problem_def bundle_file_def SUPPORTED_APPS_def)
  ultimately show ?thesis
    unfolding inspectVaultSyncEnvelope_def parse_built_envelope[OF assms(1)]
    by (simp add: inspect_parsed_def buildVaultSyncEnvelope_def inspectImportedLocalConfigBundle_def
        parseImportedLocalConfigBundle_def analyse_bundle_def Let_def flip: classify_is_import_strategy)
qed

lemma envelope_roundtrip_witness:
  "\<exists>a. inspectVaultSyncEnvelope id (envelope_json (buildVaultSyncEnvelope id example_bundle example_cipher))
       \<lparr>lx_vaultId = ''v'', lx_lastAppliedSnapshotId = Some ''s0''\<rparr> = Inr a \<and> en_digestMatches a"
proof -
  let ?w = "\<lparr>a_hosts = [], a_vault = emptyDeletionMap, a_keys = [], a_snippets = [], a_sessions = sessions_initial,
     a_transfers = transfers_initial, a_secrets = secrets_initial, a_keychain = (), w_knownHosts = [],
     w_identities = [], w_settings = setLastAppliedSnapshotId (Some ''s0'') (app_initial True ''v'' ''d'')\<rparr>"
  have "cp_algorithm example_cipher = ''AES-256-GCM''" "vm_schema (b_vault example_bundle) = VAULT_SCHEMA"
    by (simp_all add: example_cipher_def example_bundle_def)
  from envelope_roundtrip[OF this, of id ?w "\<lambda>_. None" code_unit_compare "\<lambda>_ _. False" 0] show ?thesis
    by (auto simp: setLastAppliedSnapshotId_def set_stored_def app_initial_def)
qed

subsection \<open>Trust\<close>

text \<open>The window in which a key is good for an envelope, independent of the order of the checks.\<close>

definition key_accepts :: "trusted_key \<Rightarrow> envelope \<Rightarrow> bool" where
  "key_accepts k e \<longleftrightarrow> tk_algorithm k = cp_algorithm (ev_cipher e) \<and>
     (\<forall>ids. tk_allowedVaultIds k = Some ids \<longrightarrow> eh_vaultId (ev_header e) \<in> set ids) \<and>
     tk_validFrom k \<le> eh_exportedAt (ev_header e) \<and>
     (\<forall>r. tk_retireAfter k = Some r \<and> r \<noteq> [] \<longrightarrow> eh_exportedAt (ev_header e) \<le> r)"

lemma evaluate_known:
  assumes "List.find (\<lambda>k. tk_keyId k = cp_keyId (ev_cipher e)) (tp_trustedKeys p) = Some k"
  shows "ta_accepted (evaluateVaultSyncEnvelopeTrust e p now) \<longleftrightarrow> key_accepts k e"
    "ta_matchedKeyId (evaluateVaultSyncEnvelopeTrust e p now) = Some (tk_keyId k)"
    "ta_status (evaluateVaultSyncEnvelopeTrust e p now) \<noteq> UnknownKey"
  using assms
  by (auto simp: evaluateVaultSyncEnvelopeTrust_def Let_def key_accepts_def trust_verdict_def truthy_def
      coalesce_def not_less split: option.splits)

lemma evaluate_unknown:
  assumes "List.find (\<lambda>k. tk_keyId k = cp_keyId (ev_cipher e)) (tp_trustedKeys p) = None"
  shows "ta_accepted (evaluateVaultSyncEnvelopeTrust e p now) \<longleftrightarrow> tp_allowUnknownKeys p"
    "ta_status (evaluateVaultSyncEnvelopeTrust e p now) = UnknownKey"
  using assms by (simp_all add: evaluateVaultSyncEnvelopeTrust_def Let_def)

lemma find_distinct_key:
  assumes "distinct (map f xs)" "x \<in> set xs"
  shows "List.find (\<lambda>y. f y = f x) xs = Some x"
  using assms by (induction xs) (auto simp: image_iff)

interpretation trusted_keys: record_store tk_keyId "sortTrustedKeys lc" for lc
  unfolding sortTrustedKeys_def by (rule record_store_js_sort)

lemma normalizeTrustedKey_simps [simp]:
  "tk_keyId (normalizeTrustedKey lc k) = tk_keyId k" "tk_algorithm (normalizeTrustedKey lc k) = tk_algorithm k"
  "tk_validFrom (normalizeTrustedKey lc k) = tk_validFrom k"
  "tk_retireAfter (normalizeTrustedKey lc k) = tk_retireAfter k"
  "tk_rotateAfter (normalizeTrustedKey lc k) = tk_rotateAfter k"
  by (simp_all add: normalizeTrustedKey_def)

lemma normalize_ids_set: "set (normalize_ids lc ids) = set ids - {[]}"
  by (auto simp: normalize_ids_def)

lemma key_accepts_normalized:
  "eh_vaultId (ev_header e) \<noteq> [] \<Longrightarrow> key_accepts (normalizeTrustedKey lc k) e = key_accepts k e"
  by (cases "tk_allowedVaultIds k") (simp_all add: key_accepts_def normalizeTrustedKey_def normalize_ids_set)

definition policy_ok :: "trust_policy \<Rightarrow> bool" where
  "policy_ok p \<longleftrightarrow> distinct (map tk_keyId (tp_trustedKeys p))"

lemma sortTrustedKeys_set [simp]: "set (sortTrustedKeys lc ks) = set ks"
  by (simp add: sortTrustedKeys_def)

lemma policy_steps_ok:
  "policy_ok createEmptyTrustPolicy"
  "policy_ok p \<Longrightarrow> policy_ok (setAllowUnknownKeys b p)"
  "policy_ok p \<Longrightarrow> policy_ok (upsertTrustedKey lc k p)"
  "policy_ok p \<Longrightarrow> policy_ok (removeTrustedKey lc i p)"
  "policy_ok new \<Longrightarrow> policy_ok (replacePolicy lc new p)"
proof -
  show "policy_ok createEmptyTrustPolicy" by (simp add: policy_ok_def createEmptyTrustPolicy_def)
  show "policy_ok p \<Longrightarrow> policy_ok (setAllowUnknownKeys b p)" by (simp add: policy_ok_def setAllowUnknownKeys_def)
  show "policy_ok p \<Longrightarrow> policy_ok (upsertTrustedKey lc k p)"
    using trusted_keys.srt_replace_distinct[of "tp_trustedKeys p" lc "normalizeTrustedKey lc k"]
    by (simp add: policy_ok_def upsertTrustedKey_def)
  show "policy_ok p \<Longrightarrow> policy_ok (removeTrustedKey lc i p)"
    using trusted_keys.srt_delete_distinct[of "tp_trustedKeys p" lc i] by (simp add: policy_ok_def removeTrustedKey_def)
  show "policy_ok new \<Longrightarrow> policy_ok (replacePolicy lc new p)" by (simp add: policy_ok_def replacePolicy_def comp_def)
qed

text \<open>The actions of the policy store; a policy that is imported has distinct keys.\<close>

inductive policy_step :: "(string \<Rightarrow> string \<Rightarrow> int) \<Rightarrow> trust_policy \<Rightarrow> trust_policy \<Rightarrow> bool" for lc where
  allow: "policy_step lc p (setAllowUnknownKeys b p)"
| upsert: "policy_step lc p (upsertTrustedKey lc k p)"
| remove: "policy_step lc p (removeTrustedKey lc i p)"
| replace: "policy_ok new \<Longrightarrow> policy_step lc p (replacePolicy lc new p)"

inductive_cases policy_stepE: "policy_step lc p q"

lemma policy_reachable_ok: "(policy_step lc)\<^sup>*\<^sup>* createEmptyTrustPolicy p \<Longrightarrow> policy_ok p"
  by (induction rule: rtranclp_induct) (auto elim!: policy_stepE simp: policy_steps_ok)

lemma find_none_key: "i \<notin> tk_keyId ` set ks \<Longrightarrow> List.find (\<lambda>k. tk_keyId k = i) ks = None"
  by (auto simp: find_None_iff image_iff)

text \<open>Acceptance, without the order of the keys: by the key of that identifier, or by the policy.\<close>

lemma accepted_by_key:
  assumes "policy_ok p" "k \<in> set (tp_trustedKeys p)" "tk_keyId k = cp_keyId (ev_cipher e)"
  shows "ta_accepted (evaluateVaultSyncEnvelopeTrust e p now) \<longleftrightarrow> key_accepts k e"
  using evaluate_known(1) find_distinct_key[of tk_keyId "tp_trustedKeys p" k] assms by (simp add: policy_ok_def)

lemma accepted_by_policy:
  assumes "cp_keyId (ev_cipher e) \<notin> tk_keyId ` set (tp_trustedKeys p)"
  shows "ta_accepted (evaluateVaultSyncEnvelopeTrust e p now) \<longleftrightarrow> tp_allowUnknownKeys p"
  using evaluate_unknown(1) find_none_key[OF assms] by blast

lemma accepted_as_in:
  assumes "policy_ok p" "policy_ok q" "eh_vaultId (ev_header e) \<noteq> []" "tp_allowUnknownKeys q = tp_allowUnknownKeys p"
    and "\<And>k. k \<in> set (tp_trustedKeys p) \<Longrightarrow> tk_keyId k = cp_keyId (ev_cipher e) \<Longrightarrow>
      k \<in> set (tp_trustedKeys q) \<or> normalizeTrustedKey lc k \<in> set (tp_trustedKeys q)"
    and "cp_keyId (ev_cipher e) \<in> tk_keyId ` set (tp_trustedKeys q) \<Longrightarrow> cp_keyId (ev_cipher e) \<in> tk_keyId ` set (tp_trustedKeys p)"
  shows "ta_accepted (evaluateVaultSyncEnvelopeTrust e q now) \<longleftrightarrow> ta_accepted (evaluateVaultSyncEnvelopeTrust e p now)"
proof (cases "cp_keyId (ev_cipher e) \<in> tk_keyId ` set (tp_trustedKeys p)")
  case True
  then obtain k where k: "k \<in> set (tp_trustedKeys p)" "tk_keyId k = cp_keyId (ev_cipher e)" by auto
  have "ta_accepted (evaluateVaultSyncEnvelopeTrust e q now) \<longleftrightarrow> key_accepts k e"
    using assms(5)[OF k] accepted_by_key[OF assms(2), of k e now]
      accepted_by_key[OF assms(2), of "normalizeTrustedKey lc k" e now] key_accepts_normalized[OF assms(3), of lc k] k(2)
    by auto
  with accepted_by_key[OF assms(1) k] show ?thesis by blast
next
  case False
  with assms(4,6) accepted_by_policy[of e p now] accepted_by_policy[of e q now] show ?thesis by auto
qed

text \<open>C36: acceptance follows exactly what was done to the policy, for every policy that the store's
  actions build from the empty one (an imported policy has distinct keys) and every envelope whose vault
  identifier is not empty. After a key is added or changed, envelopes of that key are accepted exactly when
  the key is of their algorithm, allows their vault, and was valid and not retired at the export; envelopes
  of other keys are accepted as before. After a key is removed, its envelopes are accepted exactly if unknown
  keys are allowed, all others as before. The switch for unknown keys decides for unknown keys and for no
  other, an imported policy decides as it says itself, and the empty policy accepts nothing.\<close>

theorem trust_follows_policy:
  fixes now :: "string option"
  assumes "(policy_step lc)\<^sup>*\<^sup>* createEmptyTrustPolicy p" "eh_vaultId (ev_header e) \<noteq> []" "policy_ok new"
  defines "accepted \<equiv> \<lambda>q. ta_accepted (evaluateVaultSyncEnvelopeTrust e q now)" and "sender \<equiv> cp_keyId (ev_cipher e)"
  shows "(accepted (upsertTrustedKey lc k p) \<longleftrightarrow> (if sender = tk_keyId k then key_accepts k e else accepted p)) \<and>
    (accepted (removeTrustedKey lc i p) \<longleftrightarrow> (if sender = i then tp_allowUnknownKeys p else accepted p)) \<and>
    (accepted (setAllowUnknownKeys b p) \<longleftrightarrow> (if sender \<in> tk_keyId ` set (tp_trustedKeys p) then accepted p else b)) \<and>
    (accepted (replacePolicy lc new p) \<longleftrightarrow> accepted new) \<and> \<not> accepted createEmptyTrustPolicy"
proof (intro conjI)
  note p = policy_reachable_ok[OF assms(1)] and defs = accepted_def sender_def
  note same = accepted_as_in[OF _ _ assms(2), where lc = lc and now = now]
  let ?up = "upsertTrustedKey lc k p" and ?rm = "removeTrustedKey lc i p" and ?al = "setAllowUnknownKeys b p"
  show "accepted ?up \<longleftrightarrow> (if sender = tk_keyId k then key_accepts k e else accepted p)"
  proof (cases "sender = tk_keyId k")
    case True
    have "normalizeTrustedKey lc k \<in> set (tp_trustedKeys ?up)" by (simp add: upsertTrustedKey_def)
    with accepted_by_key[OF policy_steps_ok(3)[OF p] this] key_accepts_normalized[OF assms(2)] True show ?thesis
      by (simp add: defs)
  next
    case False
    have "accepted ?up \<longleftrightarrow> accepted p" unfolding accepted_def
      by (rule same[OF p policy_steps_ok(3)[OF p]]) (use False in \<open>auto simp: upsertTrustedKey_def sender_def\<close>)
    with False show ?thesis by simp
  qed
  show "accepted ?rm \<longleftrightarrow> (if sender = i then tp_allowUnknownKeys p else accepted p)"
  proof (cases "sender = i")
    case True
    then have "cp_keyId (ev_cipher e) \<notin> tk_keyId ` set (tp_trustedKeys ?rm)"
      by (auto simp: removeTrustedKey_def sender_def)
    from accepted_by_policy[OF this, of now] True show ?thesis by (simp add: accepted_def removeTrustedKey_def)
  next
    case False
    have "accepted ?rm \<longleftrightarrow> accepted p" unfolding accepted_def
      by (rule same[OF p policy_steps_ok(4)[OF p]]) (use False in \<open>auto simp: removeTrustedKey_def sender_def\<close>)
    with False show ?thesis by simp
  qed
  show "accepted ?al \<longleftrightarrow> (if sender \<in> tk_keyId ` set (tp_trustedKeys p) then accepted p else b)"
  proof (cases "sender \<in> tk_keyId ` set (tp_trustedKeys p)")
    case True
    then obtain j where j: "j \<in> set (tp_trustedKeys p)" "tk_keyId j = cp_keyId (ev_cipher e)" by (auto simp: sender_def)
    then have "j \<in> set (tp_trustedKeys ?al)" by (simp add: setAllowUnknownKeys_def)
    with accepted_by_key[OF policy_steps_ok(2)[OF p] this j(2)] accepted_by_key[OF p j] True show ?thesis
      by (simp add: accepted_def)
  next
    case False
    with accepted_by_policy[of e ?al now] show ?thesis by (simp add: defs setAllowUnknownKeys_def)
  qed
  show "accepted (replacePolicy lc new p) \<longleftrightarrow> accepted new" unfolding accepted_def
    by (rule same[OF assms(3) policy_steps_ok(5)[OF assms(3)]]) (auto simp: replacePolicy_def image_image)
  show "\<not> accepted createEmptyTrustPolicy"
    using accepted_by_policy[of e createEmptyTrustPolicy now] by (simp add: accepted_def createEmptyTrustPolicy_def)
qed

definition example_key :: trusted_key where
  "example_key = \<lparr>tk_keyId = ''k'', tk_algorithm = ''AES-256-GCM'', tk_validFrom = ''2026-01-01'',
     tk_rotateAfter = None, tk_retireAfter = Some ''2026-12-31'', tk_allowedVaultIds = Some [''v''],
     tk_replacementKeyIds = []\<rparr>"

lemma trust_follows_policy_witness:
  "let e = buildVaultSyncEnvelope id example_bundle example_cipher; lc = code_unit_compare;
       p = upsertTrustedKey lc example_key createEmptyTrustPolicy; other = example_key\<lparr>tk_keyId := ''k2''\<rparr>;
       accepted = (\<lambda>q. ta_accepted (evaluateVaultSyncEnvelopeTrust e q None))
   in accepted p \<and> accepted (upsertTrustedKey lc other p) \<and> accepted (removeTrustedKey lc ''k2'' p) \<and>
      \<not> accepted (removeTrustedKey lc ''k'' p)"
proof -
  let ?e = "buildVaultSyncEnvelope id example_bundle example_cipher" and ?lc = code_unit_compare
  let ?p = "upsertTrustedKey ?lc example_key createEmptyTrustPolicy"
  have r: "(policy_step ?lc)\<^sup>*\<^sup>* createEmptyTrustPolicy createEmptyTrustPolicy" "(policy_step ?lc)\<^sup>*\<^sup>* createEmptyTrustPolicy ?p"
    by (auto intro: policy_step.upsert)
  have e: "eh_vaultId (ev_header ?e) \<noteq> []" "cp_keyId (ev_cipher ?e) = ''k''" "tk_keyId example_key = ''k''"
    "key_accepts example_key ?e" "\<not> tp_allowUnknownKeys ?p"
    by (simp_all add: key_accepts_def example_key_def buildVaultSyncEnvelope_def envelope_header_of_def
        example_bundle_def example_cipher_def upsertTrustedKey_def createEmptyTrustPolicy_def)
  note t = trust_follows_policy[OF _ e(1) policy_steps_ok(1), where now = None]
  have "ta_accepted (evaluateVaultSyncEnvelopeTrust ?e ?p None)" using t[OF r(1), of example_key] e by simp
  with t[OF r(2), of "example_key\<lparr>tk_keyId := ''k2''\<rparr>" "''k2''"] t[OF r(2), where i = "''k''"] e show ?thesis
    by (simp add: Let_def)
qed

end
