(* ===== verification/SessionSocket.thy ===== *)
theory SessionSocket
  imports Sessions Json
begin

section \<open>Session frames and the native session socket (\<open>lib/backend-runtime.ts\<close>)\<close>

subsection \<open>Frames\<close>

text \<open>
  Every message on a session socket is parsed and checked before the terminal sees it. The argument is
  what \<open>JSON.parse\<close> makes of the message, \<open>None\<close> if it throws.
\<close>

datatype session_frame = FrameData string | FrameStatus connection_state | FrameError string

definition SESSION_CONNECTION_STATES :: "(string \<times> connection_state) list" where
  "SESSION_CONNECTION_STATES = [(''connecting'', Connecting), (''connected'', Connected),
     (''disconnected'', Disconnected), (''pendingSecrets'', PendingSecrets), (''error'', ErrorState)]"

fun string_property :: "json \<Rightarrow> string \<Rightarrow> string option" where
  "string_property v k = (case json_get v k of JString s \<Rightarrow> Some s | _ \<Rightarrow> None)"

definition parseSessionFrame :: "json option \<Rightarrow> session_frame option" where
  "parseSessionFrame raw =
     (case raw of
        None \<Rightarrow> None
      | Some v \<Rightarrow>
          if string_property v ''type'' = Some ''data''
          then map_option FrameData (string_property v ''data'')
          else if string_property v ''type'' = Some ''status''
          then Option.bind (string_property v ''state'')
            (\<lambda>s. map_option FrameStatus (map_of SESSION_CONNECTION_STATES s))
          else if string_property v ''type'' = Some ''error''
          then map_option FrameError (string_property v ''message'')
          else None)"

subsection \<open>The socket\<close>

text \<open>
  The native application sends the output of all sessions as one stream of events; a socket picks the
  events of its session and its stream and hands them to its listeners. A listener is a number. What
  an operation emits, and what it asks the native side to do, are results; the answers of the native
  side are operations of their own (\<open>close_finished\<close>, \<open>send_failed\<close>, \<open>open_answered\<close>), so every
  interleaving of events and answers is a sequence of operations.
\<close>

datatype ready_state = SOCKET_CONNECTING | SOCKET_OPEN | SOCKET_CLOSING | SOCKET_CLOSED
datatype event_kind = KindClose | KindError | KindMessage
datatype listener_type = OnClose | OnError | OnMessage

record stream_event =
  sv_sessionId :: string
  sv_streamId :: string
  sv_kind :: event_kind
  sv_data :: "string option"
  sv_message :: "string option"

record socket =
  so_sessionId :: string
  so_readyState :: ready_state
  so_closed :: bool
  so_onClose :: "nat list"
  so_onError :: "nat list"
  so_onMessage :: "nat list"
  so_pending :: "stream_event list"
  so_streamId :: "string option"
  so_listening :: bool

datatype emission = EmitMessage nat string | EmitError nat "string option" | EmitClose nat
datatype native_request =
  ListenToStream | OpenStream string | CloseStream string "string option" | SendStream string string string

definition new_socket :: "string \<Rightarrow> socket" where
  "new_socket sessionId = \<lparr>so_sessionId = sessionId, so_readyState = SOCKET_CONNECTING,
     so_closed = False, so_onClose = [], so_onError = [], so_onMessage = [], so_pending = [],
     so_streamId = None, so_listening = False\<rparr>"

definition addEventListener :: "listener_type \<Rightarrow> nat \<Rightarrow> socket \<Rightarrow> socket" where
  "addEventListener t l s =
     (case t of
        OnMessage \<Rightarrow> s\<lparr>so_onMessage := List.insert l (so_onMessage s)\<rparr>
      | OnError \<Rightarrow> s\<lparr>so_onError := List.insert l (so_onError s)\<rparr>
      | OnClose \<Rightarrow> s\<lparr>so_onClose := List.insert l (so_onClose s)\<rparr>)"

definition emit_message :: "string \<Rightarrow> socket \<Rightarrow> emission list" where
  "emit_message d s = map (\<lambda>l. EmitMessage l d) (so_onMessage s)"

definition emit_error :: "string option \<Rightarrow> socket \<Rightarrow> emission list" where
  "emit_error m s = map (\<lambda>l. EmitError l m) (so_onError s)"

definition emit_close :: "socket \<Rightarrow> emission list" where
  "emit_close s = map EmitClose (so_onClose s)"

definition finishClose :: "socket \<Rightarrow> emission list \<times> socket" where
  "finishClose s =
     (if so_closed s then ([], s)
      else (emit_close s, s\<lparr>so_closed := True, so_readyState := SOCKET_CLOSED, so_pending := [],
        so_listening := False\<rparr>))"

definition handleStreamEvent :: "stream_event \<Rightarrow> socket \<Rightarrow> emission list \<times> socket" where
  "handleStreamEvent e s =
     (if sv_sessionId e \<noteq> so_sessionId s then ([], s)
      else if \<not> truthy (so_streamId s) then ([], s\<lparr>so_pending := so_pending s @ [e]\<rparr>)
      else if Some (sv_streamId e) \<noteq> so_streamId s then ([], s)
      else if sv_kind e = KindMessage \<and> truthy (sv_data e)
      then (emit_message (coalesce (sv_data e) []) s, s)
      else if sv_kind e = KindError then (emit_error (sv_message e) s, s)
      else finishClose s)"

fun handle_all :: "stream_event list \<Rightarrow> socket \<Rightarrow> emission list \<times> socket" where
  "handle_all [] s = ([], s)"
| "handle_all (e # es) s =
     (case handleStreamEvent e s of (o1, s1) \<Rightarrow> case handle_all es s1 of (o2, s2) \<Rightarrow> (o1 @ o2, s2))"

definition flushPendingEvents :: "socket \<Rightarrow> emission list \<times> socket" where
  "flushPendingEvents s =
     (if \<not> truthy (so_streamId s) \<or> so_pending s = [] then ([], s)
      else handle_all (so_pending s) (s\<lparr>so_pending := []\<rparr>))"

text \<open>\<open>initialize\<close>: first the subscription, then the request to open a stream, then its answer.\<close>

definition initialize :: "socket \<Rightarrow> native_request list \<times> socket" where
  "initialize s = ([ListenToStream], s)"

definition listening_answered :: "socket \<Rightarrow> native_request list \<times> socket" where
  "listening_answered s = ([OpenStream (so_sessionId s)], s\<lparr>so_listening := True\<rparr>)"

definition open_answered :: "string result \<Rightarrow> socket \<Rightarrow> emission list \<times> socket" where
  "open_answered r s =
     (case r of
        Inr streamId \<Rightarrow> flushPendingEvents (s\<lparr>so_streamId := Some streamId, so_readyState := SOCKET_OPEN\<rparr>)
      | Inl message \<Rightarrow> (case finishClose s of (out, s') \<Rightarrow> (emit_error (Some message) s @ out, s')))"

definition close_socket :: "socket \<Rightarrow> native_request list \<times> socket" where
  "close_socket s =
     (if so_readyState s = SOCKET_CLOSED \<or> so_readyState s = SOCKET_CLOSING then ([], s)
      else ([CloseStream (so_sessionId s) (so_streamId s)], s\<lparr>so_readyState := SOCKET_CLOSING\<rparr>))"

text \<open>The answer to the request to close: \<open>Some\<close> when it was rejected.\<close>

definition close_finished :: "string option \<Rightarrow> socket \<Rightarrow> emission list \<times> socket" where
  "close_finished err s =
     (case finishClose s of (out, s') \<Rightarrow>
        ((case err of None \<Rightarrow> [] | Some m \<Rightarrow> emit_error (Some m) s) @ out, s'))"

definition send_data :: "string \<Rightarrow> socket \<Rightarrow> native_request list \<times> socket" where
  "send_data d s =
     (if so_readyState s \<noteq> SOCKET_OPEN \<or> \<not> truthy (so_streamId s) then ([], s)
      else ([SendStream d (so_sessionId s) (coalesce (so_streamId s) [])], s))"

definition send_failed :: "string \<Rightarrow> socket \<Rightarrow> emission list \<times> socket" where
  "send_failed m s = (case finishClose s of (out, s') \<Rightarrow> (emit_error (Some m) s @ out, s'))"

subsection \<open>The life of a socket\<close>

text \<open>
  \<open>connect\<close> creates the socket and waits for \<open>initialize\<close>; only when it returns does the caller have
  the socket and can add listeners, close it or send. The third component is everything emitted so far.
\<close>

datatype socket_phase = Created | Subscribing | Opening | Returned | Thrown

inductive socket_step ::
  "socket_phase \<times> socket \<times> emission list \<Rightarrow> socket_phase \<times> socket \<times> emission list \<Rightarrow> bool" where
  start: "socket_step (Created, s, out) (Subscribing, snd (initialize s), out)"
| subscribed: "socket_step (Subscribing, s, out) (Opening, snd (listening_answered s), out)"
| opened: "open_answered (Inr i) s = (o', s') \<Longrightarrow> socket_step (Opening, s, out) (Returned, s', out @ o')"
| refused: "open_answered (Inl m) s = (o', s') \<Longrightarrow> socket_step (Opening, s, out) (Thrown, s', out @ o')"
| event: "p = Subscribing \<or> so_listening s \<Longrightarrow> handleStreamEvent e s = (o', s') \<Longrightarrow>
    socket_step (p, s, out) (p, s', out @ o')"
| listen: "socket_step (Returned, s, out) (Returned, addEventListener t l s, out)"
| close: "socket_step (Returned, s, out) (Returned, snd (close_socket s), out)"
| close_answered: "so_readyState s \<in> {SOCKET_CLOSING, SOCKET_CLOSED} \<Longrightarrow> close_finished err s = (o', s') \<Longrightarrow>
    socket_step (Returned, s, out) (Returned, s', out @ o')"
| send: "socket_step (Returned, s, out) (Returned, snd (send_data d s), out)"
| send_rejected: "send_failed m s = (o', s') \<Longrightarrow> socket_step (Returned, s, out) (Returned, s', out @ o')"

inductive_cases socket_stepE: "socket_step (p, s, out) c"

definition socket_start :: "string \<Rightarrow> socket_phase \<times> socket \<times> emission list" where
  "socket_start sessionId = (Created, new_socket sessionId, [])"

fun is_close :: "emission \<Rightarrow> bool" where
  "is_close (EmitClose l) = True" | "is_close _ = False"

fun is_message :: "emission \<Rightarrow> bool" where
  "is_message (EmitMessage l d) = True" | "is_message _ = False"

definition orderly :: "emission list \<Rightarrow> bool" where
  "orderly out \<longleftrightarrow> sorted_wrt (\<lambda>a b. \<not> (is_close a \<and> is_message b)) out \<and> distinct (filter is_close out)"

definition listeners_ok :: "socket \<Rightarrow> bool" where
  "listeners_ok s \<longleftrightarrow> distinct (so_onClose s) \<and> distinct (so_onMessage s) \<and> distinct (so_onError s)"

definition no_listeners :: "socket \<Rightarrow> bool" where
  "no_listeners s \<longleftrightarrow> so_onClose s = [] \<and> so_onMessage s = [] \<and> so_onError s = []"

lemma emit_kinds [simp]:
  "filter is_close (emit_message d s) = []" "filter is_close (emit_error m s) = []"
  "filter is_close (emit_close s) = emit_close s"
  "e \<in> set (emit_message d s) \<Longrightarrow> \<not> is_close e" "e \<in> set (emit_error m s) \<Longrightarrow> \<not> is_close e"
  "e \<in> set (emit_error m s) \<Longrightarrow> \<not> is_message e" "e \<in> set (emit_close s) \<Longrightarrow> \<not> is_message e"
  by (auto simp: emit_message_def emit_error_def emit_close_def filter_empty_conv filter_id_conv)

lemma distinct_emit_close [simp]: "distinct (emit_close s) \<longleftrightarrow> distinct (so_onClose s)"
  by (simp add: emit_close_def distinct_map inj_on_def)

lemma emit_nil [simp]:
  "no_listeners s \<Longrightarrow> emit_message d s = []" "no_listeners s \<Longrightarrow> emit_error m s = []"
  "no_listeners s \<Longrightarrow> emit_close s = []"
  by (simp_all add: no_listeners_def emit_message_def emit_error_def emit_close_def)

lemma sorted_wrt_free: "(\<And>a b. a \<in> set xs \<Longrightarrow> b \<in> set xs \<Longrightarrow> P a b) \<Longrightarrow> sorted_wrt P xs"
  by (induction xs) auto

lemma orderly_errors: "orderly out \<Longrightarrow> orderly (out @ emit_error m s)"
  by (auto simp: orderly_def sorted_wrt_append intro!: sorted_wrt_free)

lemma orderly_messages: "orderly out \<Longrightarrow> filter is_close out = [] \<Longrightarrow> orderly (out @ emit_message d s)"
  by (auto simp: orderly_def sorted_wrt_append filter_empty_conv intro!: sorted_wrt_free)

lemma orderly_closes:
  "orderly out \<Longrightarrow> filter is_close out = [] \<Longrightarrow> listeners_ok s \<Longrightarrow> orderly (out @ emit_close s)"
  by (auto simp: orderly_def sorted_wrt_append filter_empty_conv listeners_ok_def intro!: sorted_wrt_free)

lemma no_close_errors: "filter is_close out = [] \<Longrightarrow> filter is_close (out @ emit_error m s) = []"
  by simp

text \<open>The part of the invariant that does not mention the phase.\<close>

definition core_inv :: "socket \<Rightarrow> emission list \<Rightarrow> bool" where
  "core_inv s out \<longleftrightarrow> listeners_ok s \<and> orderly out \<and>
     (so_closed s \<longrightarrow> so_readyState s = SOCKET_CLOSED \<and> \<not> so_listening s \<and> so_pending s = []) \<and>
     (\<not> so_closed s \<longrightarrow> filter is_close out = [])"

lemma finishClose_core:
  assumes "core_inv s out" "finishClose s = (o', s')"
  shows "core_inv s' (out @ o')" "so_closed s'" "no_listeners s \<Longrightarrow> no_listeners s' \<and> o' = []"
  using assms orderly_closes[of out s]
  by (auto simp: finishClose_def core_inv_def listeners_ok_def no_listeners_def emit_close_def split: if_splits)

lemma core_errors: "core_inv s out \<Longrightarrow> core_inv s (out @ emit_error m s')"
  by (simp add: core_inv_def orderly_errors)

lemma finishClose_pair: obtains o' s' where "finishClose s = (o', s')" by (cases "finishClose s")

lemma failed_core:
  assumes "core_inv s out" "send_failed m s = (o', s')"
  shows "core_inv s' (out @ o')" "so_closed s'"
proof -
  obtain q t where f: "finishClose s = (q, t)" by (rule finishClose_pair)
  have c: "core_inv s (out @ emit_error (Some m) s)" by (rule core_errors[OF assms(1)])
  from assms(2) f have "o' = emit_error (Some m) s @ q" "s' = t" by (auto simp: send_failed_def)
  with finishClose_core(1,2)[OF c f] show "core_inv s' (out @ o')" "so_closed s'" by simp_all
qed

lemma close_finished_core:
  assumes "core_inv s out" "close_finished err s = (o', s')"
  shows "core_inv s' (out @ o')" "so_closed s'"
proof -
  obtain q t where f: "finishClose s = (q, t)" by (rule finishClose_pair)
  let ?e = "case err of None \<Rightarrow> [] | Some m \<Rightarrow> emit_error (Some m) s"
  have c: "core_inv s (out @ ?e)" using core_errors[OF assms(1)] assms(1) by (cases err) simp_all
  from assms(2) f have "o' = ?e @ q" "s' = t" by (auto simp: close_finished_def)
  with finishClose_core(1,2)[OF c f] show "core_inv s' (out @ o')" "so_closed s'" by simp_all
qed

lemma handle_core:
  assumes "core_inv s out" "handleStreamEvent e s = (o', s')" "\<not> so_closed s"
  shows "core_inv s' (out @ o')"
proof -
  have m: "core_inv s (out @ emit_message d s)" for d
    using assms(1,3) orderly_messages[of out d s] by (simp add: core_inv_def)
  have p: "core_inv (s\<lparr>so_pending := es\<rparr>) out" for es
    using assms(1,3) by (simp add: core_inv_def listeners_ok_def)
  show ?thesis
    using assms(1,2) m p core_errors[OF assms(1)] finishClose_core(1)[OF assms(1)]
    by (auto simp: handleStreamEvent_def split: if_splits)
qed

lemma handle_silent:
  assumes "no_listeners s" "handleStreamEvent e s = (o', s')"
  shows "o' = [] \<and> no_listeners s'" "so_streamId s = None \<Longrightarrow> so_streamId s' = None \<and> so_closed s' = so_closed s"
  using assms by (auto simp: handleStreamEvent_def finishClose_def no_listeners_def emit_message_def
      emit_error_def emit_close_def truthy_def split: if_splits)

lemma handle_closed_inert:
  assumes "so_closed s" "truthy (so_streamId s)" "no_listeners s" "handleStreamEvent e s = (o', s')"
  shows "s' = s"
  using assms by (auto simp: handleStreamEvent_def finishClose_def split: if_splits)

lemma handle_stream: "handleStreamEvent e s = (o', s') \<Longrightarrow> so_streamId s' = so_streamId s"
  by (auto simp: handleStreamEvent_def finishClose_def split: if_splits)

lemma handle_all_silent:
  assumes "no_listeners s" "core_inv s []" "truthy (so_streamId s)" "handle_all es s = (o', s')"
  shows "o' = [] \<and> no_listeners s' \<and> core_inv s' [] \<and> so_streamId s' = so_streamId s"
  using assms
proof (induction es arbitrary: s o' s')
  case Nil
  then show ?case by simp
next
  case (Cons e es)
  obtain o1 s1 where 1: "handleStreamEvent e s = (o1, s1)" by (cases "handleStreamEvent e s")
  obtain o2 s2 where 2: "handle_all es s1 = (o2, s2)" by (cases "handle_all es s1")
  have s1: "o1 = [] \<and> no_listeners s1" by (rule handle_silent(1)[OF Cons.prems(1) 1])
  have "core_inv s1 []"
  proof (cases "so_closed s")
    case True
    then show ?thesis using handle_closed_inert[OF True Cons.prems(3,1) 1] Cons.prems(2) by simp
  next
    case False
    then show ?thesis using handle_core[OF Cons.prems(2) 1] s1 by simp
  qed
  from Cons.IH[OF _ this _ 2] s1 handle_stream[OF 1] Cons.prems(3) Cons.prems(4)[unfolded handle_all.simps 1 2 prod.case]
  show ?case using 2 by (auto simp: 1)
qed

lemma open_answered_silent:
  assumes "no_listeners s" "core_inv s []" "open_answered (Inr i) s = (o', s')" "\<not> so_closed s"
  shows "o' = [] \<and> no_listeners s' \<and> core_inv s' []"
proof -
  let ?s = "s\<lparr>so_streamId := Some i, so_readyState := SOCKET_OPEN\<rparr>"
  have c: "core_inv (?s\<lparr>so_pending := ps\<rparr>) []" "no_listeners (?s\<lparr>so_pending := ps\<rparr>)" for ps
    using assms(1,2,4) by (simp_all add: core_inv_def listeners_ok_def no_listeners_def)
  show ?thesis
  proof (cases "\<not> truthy (Some i) \<or> so_pending s = []")
    case True
    then have "o' = []" "s' = ?s" using assms(3) by (auto simp: open_answered_def flushPendingEvents_def)
    then show ?thesis using c[of "so_pending s"] by simp
  next
    case False
    then have "handle_all (so_pending s) (?s\<lparr>so_pending := []\<rparr>) = (o', s')"
      using assms(3) by (simp add: open_answered_def flushPendingEvents_def)
    from handle_all_silent[OF c(2) c(1) _ this] False show ?thesis by simp
  qed
qed

fun socket_inv :: "socket_phase \<times> socket \<times> emission list \<Rightarrow> bool" where
  "socket_inv (p, s, out) \<longleftrightarrow> core_inv s out \<and>
     (p \<in> {Created, Subscribing, Opening} \<longrightarrow>
        so_streamId s = None \<and> \<not> so_closed s \<and> no_listeners s \<and> out = []) \<and>
     (p = Thrown \<longrightarrow> so_closed s \<and> no_listeners s)"

lemma socket_inv_start: "socket_inv (socket_start i)"
  by (simp add: socket_start_def new_socket_def core_inv_def listeners_ok_def no_listeners_def orderly_def)

lemma socket_inv_step: "socket_step c c' \<Longrightarrow> socket_inv c \<Longrightarrow> socket_inv c'"
proof (induction rule: socket_step.induct)
  case (start s out)
  then show ?case by (auto simp: initialize_def)
next
  case (subscribed s out)
  then show ?case by (auto simp: listening_answered_def core_inv_def listeners_ok_def no_listeners_def)
next
  case (opened i s o' s' out)
  then have "out = []" "o' = [] \<and> no_listeners s' \<and> core_inv s' []"
    using open_answered_silent[OF _ _ opened(1)] by auto
  then show ?case by simp
next
  case (refused m s o' s' out)
  obtain q t where f: "finishClose s = (q, t)" by (rule finishClose_pair)
  have c: "core_inv s []" "no_listeners s" "out = []" using refused.prems by auto
  have "o' = q" "s' = t" using refused.hyps f c(2) by (auto simp: open_answered_def)
  then show ?case using finishClose_core[OF c(1) f] c by simp
next
  case (event p s e o' s' out)
  show ?case
  proof (cases "so_closed s")
    case True
    then show ?thesis using event by (auto simp: core_inv_def)
  next
    case False
    then have "core_inv s' (out @ o')" using handle_core[OF _ event(2)] event.prems by simp
    then show ?thesis using event.prems False handle_silent[OF _ event(2)] by auto
  qed
next
  case (listen s out t l)
  then show ?case
    by (cases t) (auto simp: core_inv_def addEventListener_def listeners_ok_def)
next
  case (close s out)
  then show ?case by (auto simp: close_socket_def core_inv_def listeners_ok_def)
next
  case (close_answered s err o' s' out)
  then show ?case using close_finished_core[OF _ close_answered(2)] by auto
next
  case (send s out d)
  then show ?case by (simp add: send_data_def)
next
  case (send_rejected m s o' s' out)
  then show ?case using failed_core[OF _ send_rejected(1)] by auto
qed

lemma socket_inv_reachable: "socket_step\<^sup>*\<^sup>* (socket_start i) c \<Longrightarrow> socket_inv c"
  by (induction rule: rtranclp_induct) (use socket_inv_start socket_inv_step in blast)+

lemma closed_socket_silent:
  assumes "socket_step c c'" "socket_inv c" "fst c = Returned" "so_closed (fst (snd c))"
  shows "fst c' = Returned \<and> so_closed (fst (snd c')) \<and>
    filter is_close (snd (snd c')) = filter is_close (snd (snd c)) \<and>
    filter is_message (snd (snd c')) = filter is_message (snd (snd c))"
proof -
  have e: "filter is_message (emit_error m s) = []" for m s by (auto simp: filter_empty_conv)
  show ?thesis using assms e
    by (induction rule: socket_step.induct)
      (auto simp: core_inv_def finishClose_def close_finished_def send_failed_def addEventListener_def
        close_socket_def send_data_def split: listener_type.splits option.splits)
qed

lemma closed_socket_stays_silent:
  assumes "socket_step\<^sup>*\<^sup>* c c'" "socket_inv c" "fst c = Returned" "so_closed (fst (snd c))"
  shows "socket_inv c' \<and> fst c' = Returned \<and> so_closed (fst (snd c')) \<and>
    filter is_close (snd (snd c')) = filter is_close (snd (snd c)) \<and>
    filter is_message (snd (snd c')) = filter is_message (snd (snd c))"
  using assms
proof (induction rule: rtranclp_induct)
  case (step d e)
  then have d: "socket_inv d" "fst d = Returned" "so_closed (fst (snd d))" by auto
  from closed_socket_silent[OF step.hyps(2) d] socket_inv_step[OF step.hyps(2) d(1)] step show ?case by auto
qed simp

text \<open>C37: whatever order events, answers and calls come in, every listener hears at most once that the
  socket has closed, and once any listener has heard it no output is handed over to any.\<close>

theorem socket_closes_once:
  assumes "socket_step\<^sup>*\<^sup>* (socket_start i) (p, s, out)"
  shows "distinct (filter is_close out) \<and> sorted_wrt (\<lambda>a b. \<not> (is_close a \<and> is_message b)) out"
  using socket_inv_reachable[OF assms] by (simp add: core_inv_def orderly_def)

text \<open>Events that arrive before the answer to the open request are kept, but they are replayed
  before \<open>connect\<close> returns, when nobody can be listening: they reach no listener and are gone. If the end
  of the session is among them, the caller gets a closed socket and never hears a close.\<close>

theorem early_events_are_lost:
  assumes "socket_step\<^sup>*\<^sup>* (socket_start i) (Opening, s, out)" "open_answered (Inr stream) s = (o', s')"
    and "stream \<noteq> []"
  shows "out = [] \<and> o' = [] \<and> so_pending s' = [] \<and>
    (\<not> so_closed s' \<or> (\<forall>c. socket_step\<^sup>*\<^sup>* (Returned, s', o') c \<longrightarrow>
       filter is_close (snd (snd c)) = [] \<and> filter is_message (snd (snd c)) = []))"
proof -
  have inv: "core_inv s []" "no_listeners s" "out = []" "\<not> so_closed s" "so_streamId s = None"
    using socket_inv_reachable[OF assms(1)] by auto
  note silent = open_answered_silent[OF inv(2,1) assms(2) inv(4)]
  have pend: "so_pending t' = []" if "so_pending t = []" "truthy (so_streamId t)" "handle_all es t = (q, t')" for es t q t'
    using that
  proof (induction es arbitrary: t q t')
    case (Cons e es)
    obtain o1 s1 where 1: "handleStreamEvent e t = (o1, s1)" by (cases "handleStreamEvent e t")
    obtain o2 s2 where 2: "handle_all es s1 = (o2, s2)" by (cases "handle_all es s1")
    have "so_pending s1 = []" using 1 Cons.prems(1,2)
      by (auto simp: handleStreamEvent_def finishClose_def split: if_splits)
    from Cons.IH[OF this _ 2] Cons.prems handle_stream[OF 1] show ?case by (simp add: 1 2)
  qed simp
  have "so_pending s' = []"
    using assms(2,3) pend[of "s\<lparr>so_streamId := Some stream, so_readyState := SOCKET_OPEN, so_pending := []\<rparr>"]
    by (auto simp: open_answered_def flushPendingEvents_def truthy_def split: if_splits)
  moreover have "filter is_close (snd (snd c)) = [] \<and> filter is_message (snd (snd c)) = []"
    if "so_closed s'" "socket_step\<^sup>*\<^sup>* (Returned, s', o') c" for c
    using closed_socket_stays_silent[OF that(2)] silent that(1) by simp
  ultimately show ?thesis using inv(3) silent by blast
qed

subsection \<open>Delivery\<close>

definition mine :: "socket \<Rightarrow> stream_event \<Rightarrow> bool" where
  "mine s e \<longleftrightarrow> sv_sessionId e = so_sessionId s \<and> Some (sv_streamId e) = so_streamId s"

definition terminating :: "stream_event \<Rightarrow> bool" where
  "terminating e \<longleftrightarrow> \<not> (sv_kind e = KindMessage \<and> truthy (sv_data e)) \<and> sv_kind e \<noteq> KindError"

fun heard_by :: "nat \<Rightarrow> emission list \<Rightarrow> string list" where
  "heard_by l [] = []"
| "heard_by l (EmitMessage j d # es) = (if j = l then d # heard_by l es else heard_by l es)"
| "heard_by l (_ # es) = heard_by l es"

lemma heard_append [simp]: "heard_by l (xs @ ys) = heard_by l xs @ heard_by l ys"
  by (induction l xs rule: heard_by.induct) auto

lemma heard_emits [simp]: "heard_by l (emit_error m s) = []" "heard_by l (emit_close s) = []"
proof -
  have "heard_by l (map (\<lambda>j. EmitError j m) js) = []" "heard_by l (map EmitClose js) = []" for js
    by (induction js) auto
  then show "heard_by l (emit_error m s) = []" "heard_by l (emit_close s) = []"
    by (simp_all add: emit_error_def emit_close_def)
qed

lemma heard_message:
  assumes "distinct (so_onMessage s)"
  shows "heard_by l (emit_message d s) = (if l \<in> set (so_onMessage s) then [d] else [])"
proof -
  have "distinct js \<Longrightarrow> heard_by l (map (\<lambda>j. EmitMessage j d) js) = (if l \<in> set js then [d] else [])" for js
    by (induction js) auto
  then show ?thesis using assms by (simp add: emit_message_def)
qed

lemma handle_all_delivers:
  assumes "distinct (so_onMessage s)" "truthy (so_streamId s)" "\<forall>e \<in> set es. mine s e \<longrightarrow> \<not> terminating e"
  shows "handle_all es s = (concat (map (\<lambda>e. fst (handleStreamEvent e s)) es), s) \<and>
    (l \<in> set (so_onMessage s) \<longrightarrow> heard_by l (fst (handle_all es s)) =
      map (\<lambda>e. the (sv_data e)) (filter (\<lambda>e. mine s e \<and> sv_kind e = KindMessage) es))"
  using assms(3)
proof (induction es)
  case (Cons e es)
  have keep: "snd (handleStreamEvent e s) = s"
    using Cons.prems assms(2) by (auto simp: handleStreamEvent_def mine_def terminating_def)
  have heard: "heard_by l (fst (handleStreamEvent e s)) =
      (if mine s e \<and> sv_kind e = KindMessage then [the (sv_data e)] else [])" if "l \<in> set (so_onMessage s)"
    using Cons.prems assms(1,2) that
    by (cases "sv_data e")
      (auto simp: handleStreamEvent_def mine_def terminating_def heard_message coalesce_def truthy_def)
  obtain o1 where 1: "handleStreamEvent e s = (o1, s)" using keep by (metis prod.collapse)
  have IH: "handle_all es s = (concat (map (\<lambda>e. fst (handleStreamEvent e s)) es), s)"
    "l \<in> set (so_onMessage s) \<Longrightarrow> heard_by l (fst (handle_all es s)) =
      map (\<lambda>e. the (sv_data e)) (filter (\<lambda>e. mine s e \<and> sv_kind e = KindMessage) es)"
    using Cons by auto
  then show ?case using heard by (auto simp: 1)
qed simp

text \<open>On an open socket every listener hears exactly the output of its own stream, complete and in
  order, whatever events of other sessions and streams and whatever errors come in between.\<close>

theorem open_socket_delivers:
  assumes "socket_step\<^sup>*\<^sup>* (socket_start i) (Returned, s, out)" "l \<in> set (so_onMessage s)"
    and "truthy (so_streamId s)" "\<forall>e \<in> set es. mine s e \<longrightarrow> \<not> terminating e"
  shows "heard_by l (fst (handle_all es s)) =
    map (\<lambda>e. the (sv_data e)) (filter (\<lambda>e. mine s e \<and> sv_kind e = KindMessage) es)"
proof -
  have "distinct (so_onMessage s)"
    using socket_inv_reachable[OF assms(1)] by (simp add: core_inv_def listeners_ok_def)
  from handle_all_delivers[OF this assms(3,4)] assms(2) show ?thesis by blast
qed

text \<open>A message without text is taken for the end of the session.\<close>

lemma empty_message_closes:
  assumes "mine s e" "truthy (so_streamId s)" "sv_kind e = KindMessage" "sv_data e = Some []" "\<not> so_closed s"
  shows "so_readyState (snd (handleStreamEvent e s)) = SOCKET_CLOSED"
  using assms by (simp add: handleStreamEvent_def mine_def truthy_def finishClose_def)

text \<open>A run: the stream ends while the socket opens.\<close>

definition example_event :: "event_kind \<Rightarrow> string \<Rightarrow> stream_event" where
  "example_event k d = \<lparr>sv_sessionId = ''s'', sv_streamId = ''t'', sv_kind = k, sv_data = Some d, sv_message = None\<rparr>"

definition opening_socket :: "stream_event list \<Rightarrow> socket" where
  "opening_socket es = (new_socket ''s'')\<lparr>so_listening := True, so_pending := es\<rparr>"

lemma opening_run:
  "\<forall>e \<in> set es. sv_sessionId e = ''s'' \<Longrightarrow>
   socket_step\<^sup>*\<^sup>* (socket_start ''s'') (Opening, opening_socket es, [])"
proof (induction es rule: rev_induct)
  case Nil
  have "socket_step (socket_start ''s'') (Subscribing, new_socket ''s'', [])"
    using socket_step.start[of "new_socket ''s''" "[]"] by (simp add: socket_start_def initialize_def)
  moreover have "socket_step (Subscribing, new_socket ''s'', []) (Opening, opening_socket [], [])"
    using socket_step.subscribed[of "new_socket ''s''" "[]"]
    by (simp add: listening_answered_def opening_socket_def new_socket_def)
  ultimately show ?case by (rule rtranclp.rtrancl_into_rtrancl[OF r_into_rtranclp])
next
  case (snoc e es)
  have "handleStreamEvent e (opening_socket es) = ([], opening_socket (es @ [e]))"
    using snoc.prems by (simp add: handleStreamEvent_def opening_socket_def new_socket_def truthy_def)
  from socket_step.event[OF _ this, of Opening "[]"]
  have "socket_step (Opening, opening_socket es, []) (Opening, opening_socket (es @ [e]), [])"
    by (simp add: opening_socket_def)
  moreover have "socket_step\<^sup>*\<^sup>* (socket_start ''s'') (Opening, opening_socket es, [])"
    using snoc by simp
  ultimately show ?case by (rule rtranclp.rtrancl_into_rtrancl[rotated])
qed

text \<open>
  A run with three listeners: the answer to the open request, a message, the end of the stream, and the
  answer to a request to close that comes after it.
\<close>

definition heard_socket :: socket where
  "heard_socket = addEventListener OnClose 8 (addEventListener OnClose 7 (addEventListener OnMessage 7
     (snd (open_answered (Inr ''t'') (opening_socket [])))))"

lemma heard_socket_fields:
  "so_onMessage heard_socket = [7]" "so_onClose heard_socket = [8, 7]" "so_closed heard_socket = False"
  "so_sessionId heard_socket = ''s''" "so_streamId heard_socket = Some ''t''" "so_listening heard_socket = True"
  by (simp_all add: heard_socket_def addEventListener_def open_answered_def flushPendingEvents_def opening_socket_def
      new_socket_def truthy_def)

lemma heard_run: "socket_step\<^sup>*\<^sup>* (socket_start ''s'') (Returned, heard_socket, [])"
proof -
  have o: "open_answered (Inr ''t'') (opening_socket []) = ([], snd (open_answered (Inr ''t'') (opening_socket [])))"
    by (simp add: open_answered_def flushPendingEvents_def opening_socket_def del: prod.collapse)
  have "socket_step\<^sup>*\<^sup>* (socket_start ''s'') (Returned, snd (open_answered (Inr ''t'') (opening_socket [])), [])"
    using rtranclp.rtrancl_into_rtrancl[OF opening_run[of "[]"] socket_step.opened[OF o, of "[]"]] by simp
  then have "socket_step\<^sup>*\<^sup>* (socket_start ''s'') (Returned, addEventListener OnMessage 7 (snd (open_answered (Inr ''t'') (opening_socket []))), [])"
    by (rule rtranclp.rtrancl_into_rtrancl) (rule socket_step.listen)
  then have "socket_step\<^sup>*\<^sup>* (socket_start ''s'')
      (Returned, addEventListener OnClose 7 (addEventListener OnMessage 7 (snd (open_answered (Inr ''t'') (opening_socket [])))), [])"
    by (rule rtranclp.rtrancl_into_rtrancl) (rule socket_step.listen)
  then show ?thesis unfolding heard_socket_def
    by (rule rtranclp.rtrancl_into_rtrancl) (rule socket_step.listen)
qed

lemma socket_closes_once_witness:
  "\<exists>s. socket_step\<^sup>*\<^sup>* (socket_start ''s'') (Returned, s, [EmitMessage 7 ''a'', EmitClose 8, EmitClose 7]) \<and>
     so_closed s \<and> distinct (filter is_close [EmitMessage 7 ''a'', EmitClose 8, EmitClose 7]) \<and>
     sorted_wrt (\<lambda>a b. \<not> (is_close a \<and> is_message b)) [EmitMessage 7 ''a'', EmitClose 8, EmitClose 7]"
proof -
  let ?closed = "snd (finishClose heard_socket)"
  have m: "handleStreamEvent (example_event KindMessage ''a'') heard_socket = ([EmitMessage 7 ''a''], heard_socket)"
    by (simp add: handleStreamEvent_def example_event_def heard_socket_fields truthy_def emit_message_def)
  have c: "handleStreamEvent (example_event KindClose ''x'') heard_socket = ([EmitClose 8, EmitClose 7], ?closed)"
    by (simp add: handleStreamEvent_def example_event_def heard_socket_fields truthy_def emit_close_def finishClose_def)
  have closed: "so_closed ?closed" "so_readyState ?closed = SOCKET_CLOSED"
    by (simp_all add: finishClose_def heard_socket_fields)
  have 1: "socket_step (Returned, heard_socket, []) (Returned, heard_socket, [EmitMessage 7 ''a''])"
    using socket_step.event[OF _ m, of Returned "[]"] by (simp add: heard_socket_fields)
  have 2: "socket_step (Returned, heard_socket, [EmitMessage 7 ''a''])
      (Returned, ?closed, [EmitMessage 7 ''a'', EmitClose 8, EmitClose 7])"
    using socket_step.event[OF _ c, of Returned "[EmitMessage 7 ''a'']"] by (simp add: heard_socket_fields)
  obtain t where t: "close_finished None ?closed = ([], t)" "so_closed t"
    using closed by (simp add: close_finished_def finishClose_def)
  have 3: "socket_step (Returned, ?closed, [EmitMessage 7 ''a'', EmitClose 8, EmitClose 7])
      (Returned, t, [EmitMessage 7 ''a'', EmitClose 8, EmitClose 7])"
    using socket_step.close_answered[OF _ t(1)] closed(2) by fastforce
  have "socket_step\<^sup>*\<^sup>* (socket_start ''s'') (Returned, t, [EmitMessage 7 ''a'', EmitClose 8, EmitClose 7])"
    by (rule rtranclp.rtrancl_into_rtrancl[OF rtranclp.rtrancl_into_rtrancl[OF rtranclp.rtrancl_into_rtrancl[OF heard_run 1] 2] 3])
  from this socket_closes_once[OF this] t(2) show ?thesis by blast
qed

lemma early_events_are_lost_witness:
  "\<exists>s'. open_answered (Inr ''t'') (opening_socket [example_event KindMessage ''hello'', example_event KindClose []]) =
       ([], s') \<and> so_closed s' \<and>
     (\<forall>c. socket_step\<^sup>*\<^sup>* (Returned, s', []) c \<longrightarrow> filter is_close (snd (snd c)) = [])"
proof -
  let ?es = "[example_event KindMessage ''hello'', example_event KindClose []]"
  have run: "socket_step\<^sup>*\<^sup>* (socket_start ''s'') (Opening, opening_socket ?es, [])"
    by (rule opening_run) (simp add: example_event_def)
  obtain s' where s': "open_answered (Inr ''t'') (opening_socket ?es) = ([], s')" "so_closed s'"
    by (simp add: open_answered_def flushPendingEvents_def opening_socket_def new_socket_def truthy_def
        handleStreamEvent_def example_event_def emit_message_def finishClose_def emit_close_def)
  from early_events_are_lost[OF run s'(1)] s' show ?thesis by auto
qed

lemma open_socket_delivers_witness:
  "heard_by 7 (fst (handle_all [example_event KindMessage ''a'', example_event KindMessage ''b'']
     (addEventListener OnMessage 7 (snd (open_answered (Inr ''t'') (opening_socket [])))))) = [''a'', ''b'']"
proof -
  let ?base = "snd (open_answered (Inr ''t'') (opening_socket []))"
  let ?s = "addEventListener OnMessage 7 ?base"
  have o: "open_answered (Inr ''t'') (opening_socket []) = ([], ?base)"
    by (simp add: open_answered_def flushPendingEvents_def opening_socket_def del: prod.collapse)
  have 1: "socket_step (Opening, opening_socket [], []) (Returned, ?base, [])"
    using socket_step.opened[OF o, of "[]"] by simp
  have 2: "socket_step (Returned, ?base, []) (Returned, ?s, [])"
    using socket_step.listen[of ?base "[]" OnMessage 7] .
  have "socket_step\<^sup>*\<^sup>* (socket_start ''s'') (Returned, ?s, [])"
    using rtranclp.rtrancl_into_rtrancl[OF rtranclp.rtrancl_into_rtrancl[OF opening_run[of "[]"] 1] 2] by simp
  from open_socket_delivers[OF this, of 7 "[example_event KindMessage ''a'', example_event KindMessage ''b'']"]
  show ?thesis
    by (simp add: addEventListener_def open_answered_def flushPendingEvents_def opening_socket_def
        new_socket_def truthy_def terminating_def mine_def example_event_def)
qed

end
