(* ===== verification/Paths.thy ===== *)
theory Paths
  imports Strings
begin

section \<open>Absolute POSIX paths\<close>

text \<open>
  The path functions of several components split a path at its slashes, drop the empty parts and
  join the rest. Absolute paths without empty parts are the same as lists of segments; the lemmas
  translate prefixes of paths into prefixes of these lists.
\<close>

definition segments :: "string \<Rightarrow> string list" where
  "segments p = filter (\<lambda>s. s \<noteq> []) (split_on CHR ''/'' p)"

definition path_of :: "string list \<Rightarrow> string" where
  "path_of ss = (if ss = [] then ''/'' else ''/'' @ join ''/'' ss)"

definition below :: "string \<Rightarrow> string \<Rightarrow> bool" where
  "below p q \<longleftrightarrow> q = p \<or> starts_with (p @ ''/'') q"

definition seg_ok :: "string list \<Rightarrow> bool" where
  "seg_ok ss \<longleftrightarrow> (\<forall>s \<in> set ss. s \<noteq> [] \<and> CHR ''/'' \<notin> set s)"

lemma seg_ok_segments [simp]: "seg_ok (segments p)"
  by (auto simp: seg_ok_def segments_def dest: split_by_parts)

lemma seg_ok_simps [simp]:
  "seg_ok []"
  "seg_ok (s # ss) \<longleftrightarrow> s \<noteq> [] \<and> CHR ''/'' \<notin> set s \<and> seg_ok ss"
  "seg_ok (ss @ us) \<longleftrightarrow> seg_ok ss \<and> seg_ok us"
  by (auto simp: seg_ok_def)

lemma seg_ok_butlast [simp]: "seg_ok ss \<Longrightarrow> seg_ok (butlast ss)"
  by (auto simp: seg_ok_def dest: in_set_butlastD)

lemma segments_path_of [simp]:
  assumes "seg_ok ss" shows "segments (path_of ss) = ss"
proof (cases "ss = []")
  case False
  have "split_on CHR ''/'' (path_of ss) = [] # ss"
    using False split_on_join[OF False, of "CHR ''/''"] assms
    by (auto simp: path_of_def seg_ok_def)
  with assms show ?thesis by (simp add: segments_def seg_ok_def filter_id_conv)
qed (simp add: path_of_def segments_def)

lemma path_of_inj: "seg_ok ss \<Longrightarrow> seg_ok us \<Longrightarrow> path_of ss = path_of us \<longleftrightarrow> ss = us"
  by (metis segments_path_of)

lemma path_of_Nil [simp]: "path_of [] = ''/''"
  by (simp add: path_of_def)

lemma path_of_root [simp]: "seg_ok ss \<Longrightarrow> path_of ss = ''/'' \<longleftrightarrow> ss = []"
  using path_of_inj[of ss "[]"] by simp

lemma join_append: "us \<noteq> [] \<Longrightarrow> ss \<noteq> [] \<Longrightarrow> join s (us @ ss) = join s us @ s @ join s ss"
proof (induction us rule: induct_list012)
  case (2 x)
  then show ?case by (cases ss) auto
qed auto

lemma path_of_append:
  "us \<noteq> [] \<Longrightarrow> ss \<noteq> [] \<Longrightarrow> path_of (us @ ss) = path_of us @ ''/'' @ join ''/'' ss"
  by (simp add: path_of_def join_append)

text \<open>The path of the segments below a path, as text: what is cut off by a prefix.\<close>

definition suffix_of :: "string list \<Rightarrow> string" where
  "suffix_of ss = (if ss = [] then [] else ''/'' @ join ''/'' ss)"

lemma path_of_append_suffix: "us \<noteq> [] \<Longrightarrow> path_of (us @ ss) = path_of us @ suffix_of ss"
  by (simp add: suffix_of_def path_of_append)

lemma segments_append: "segments (v @ CHR ''/'' # w) = segments v @ segments w"
  by (simp add: segments_def split_on_cat)

lemma starts_with_path:
  assumes "seg_ok us" "seg_ok ss" "us \<noteq> []"
  shows "starts_with (path_of us @ ''/'') (path_of ss) \<longleftrightarrow> (\<exists>v vs. ss = us @ v # vs)"
proof
  assume "starts_with (path_of us @ ''/'') (path_of ss)"
  then obtain w where w: "path_of ss = path_of us @ CHR ''/'' # w" by (auto simp: starts_with_iff)
  then have "segments (path_of ss) = segments (path_of us) @ segments w" by (simp add: segments_append)
  with assms have ss: "ss = us @ segments w" by simp
  with w have "segments w \<noteq> []" by auto
  then obtain v vs where "segments w = v # vs" by (cases "segments w") auto
  with ss show "\<exists>v vs. ss = us @ v # vs" by simp
next
  assume "\<exists>v vs. ss = us @ v # vs"
  with assms show "starts_with (path_of us @ ''/'') (path_of ss)"
    by (auto simp: path_of_append starts_with_iff)
qed

lemma below_path:
  assumes "seg_ok us" "seg_ok ss" "us \<noteq> []"
  shows "below (path_of us) (path_of ss) \<longleftrightarrow> (\<exists>vs. ss = us @ vs)"
proof -
  have "below (path_of us) (path_of ss) \<longleftrightarrow> ss = us \<or> (\<exists>v vs. ss = us @ v # vs)"
    using assms by (auto simp: below_def starts_with_path path_of_inj)
  also have "\<dots> \<longleftrightarrow> (\<exists>vs. ss = us @ vs)"
    by (metis append_Nil2 neq_Nil_conv)
  finally show ?thesis .
qed

end
