(* ===== verification/DemoBackend.thy ===== *)
theory DemoBackend
  imports Paths Connections Keys KnownHosts SshInclude Transfers "HOL-Library.Word"
begin

section \<open>The demo backend (\<open>lib/demo-backend.ts\<close>)\<close>

text \<open>
  In demo mode the files of a host are a map from normalized paths to nodes, one map per host and
  port, seeded on first use. The state holds these maps and the port forwards. Every operation
  returns its result, an error or a value, with the new state; the state changes even when the
  operation fails, because the map of a host that was not yet seen is created first.
\<close>

record demo_node =
  dn_kind :: remote_kind
  dn_name :: string
  dn_path :: string
  dn_size :: int
  dn_permissions :: string
  dn_modifiedAt :: string
  dn_contents :: "string option"

type_synonym demo_tree = "demo_node obj"

record forward =
  pf_id :: string
  pf_remote :: bool
  pf_sessionId :: string
  pf_localHost :: string
  pf_localPort :: int
  pf_remoteHost :: string
  pf_remotePort :: int
  pf_createdAt :: string

record demo_state =
  ds_trees :: "demo_tree obj"
  ds_forwards :: "forward list"

definition demo_recent :: string where
  "demo_recent = ''2026-03-29T11:10:00.000Z''"

definition demo_today :: string where
  "demo_today = ''2026-04-01T09:15:00.000Z''"

subsection \<open>Paths\<close>

definition demoNormalizePath :: "string \<Rightarrow> string" where
  "demoNormalizePath p = path_of (segments p)"

definition demoDirname :: "string \<Rightarrow> string" where
  "demoDirname p =
     (let n = demoNormalizePath p in if n = ''/'' then ''/'' else path_of (butlast (segments n)))"

definition demoBasename :: "string \<Rightarrow> string" where
  "demoBasename p =
     (let ss = segments (demoNormalizePath p) in if ss = [] then [] else last ss)"

definition demoJoinPath :: "string \<Rightarrow> string \<Rightarrow> string" where
  "demoJoinPath base child =
     (let b = demoNormalizePath base; c = dropWhile (\<lambda>x. x = CHR ''/'') (trim child) in
      if c = [] then b
      else demoNormalizePath (if b = ''/'' then ''/'' @ c else b @ ''/'' @ c))"

subsection \<open>Nodes and trees\<close>

definition createDirectory :: "string \<Rightarrow> string \<Rightarrow> demo_node" where
  "createDirectory p modifiedAt = \<lparr>dn_kind = Directory, dn_name = or_string (demoBasename p) ''/'',
     dn_path = demoNormalizePath p, dn_size = 0, dn_permissions = ''755'',
     dn_modifiedAt = modifiedAt, dn_contents = None\<rparr>"

definition createFile :: "string \<Rightarrow> string \<Rightarrow> string \<Rightarrow> string \<Rightarrow> demo_node" where
  "createFile p contents modifiedAt permissions = \<lparr>dn_kind = RemoteFile, dn_name = demoBasename p,
     dn_path = demoNormalizePath p, dn_size = int (length contents), dn_permissions = permissions,
     dn_modifiedAt = modifiedAt, dn_contents = Some contents\<rparr>"

definition add_directory :: "string \<Rightarrow> demo_tree \<Rightarrow> demo_tree" where
  "add_directory p t = obj_set (demoNormalizePath p) (createDirectory (demoNormalizePath p) demo_recent) t"

text \<open>The paths of the directories on the way to the root path.\<close>

fun path_prefixes :: "string \<Rightarrow> string list \<Rightarrow> string list" where
  "path_prefixes cur [] = []"
| "path_prefixes cur (s # ss) = (cur @ ''/'' @ s) # path_prefixes (cur @ ''/'' @ s) ss"

definition buildDemoTree :: "string \<Rightarrow> demo_node list \<Rightarrow> demo_tree" where
  "buildDemoTree rootPath nodes =
     (let t0 = obj_set ''/'' (createDirectory ''/'' demo_recent) [];
          t1 = fold add_directory (path_prefixes [] (segments (demoNormalizePath rootPath))) t0
      in fold (\<lambda>n t. obj_set (dn_path n) (n\<lparr>dn_path := demoNormalizePath (dn_path n)\<rparr>) t) nodes t1)"

definition newline :: string where
  "newline = [CHR 0x0A]"

definition demoTreeSeeds :: "demo_tree obj" where
  "demoTreeSeeds = [
     (''bastion.acme.internal:22'', buildDemoTree ''/srv'' [
        createDirectory ''/srv/apps'' demo_today,
        createDirectory ''/srv/releases'' demo_today,
        createDirectory ''/srv/backups'' demo_recent,
        createFile ''/srv/deploy.log''
          (''2026-04-01T09:00:00Z release 2026.04.01 promoted to production'' @ newline) demo_today ''644'',
        createFile ''/srv/README.md''
          (''# Production Gateway'' @ newline @ ''Shared ingress host for the demo workspace.'' @ newline)
          demo_recent ''644'',
        createFile ''/srv/releases/2026.04.01.txt''
          (''release=2026.04.01'' @ newline @ ''status=healthy'' @ newline) demo_today ''644'']),
     (''billing-api-02.use1.internal:2222'', buildDemoTree ''/var/www'' [
        createDirectory ''/var/www/current'' demo_today,
        createDirectory ''/var/www/shared'' demo_recent,
        createFile ''/var/www/package.json''
          (''{'' @ newline @ ''  '' @ [CHR 0x22] @ ''name'' @ [CHR 0x22] @ '': '' @ [CHR 0x22] @
           ''billing-api'' @ [CHR 0x22] @ '','' @ newline @ ''  '' @ [CHR 0x22] @ ''version'' @ [CHR 0x22] @
           '': '' @ [CHR 0x22] @ ''2026.04.01'' @ [CHR 0x22] @ newline @ ''}'' @ newline) demo_today ''644'',
        createFile ''/var/www/current/.env.example''
          (''APP_ENV=staging'' @ newline @ ''LOG_LEVEL=debug'' @ newline) demo_today ''644'']),
     (''10.42.7.14:22'', buildDemoTree ''/cfg'' [
        createDirectory ''/cfg/backups'' demo_recent,
        createFile ''/cfg/running-config.txt''
          (''hostname edge-router-07'' @ newline @ ''interface vlan10'' @ newline @
           ''  ip address 10.42.7.14/24'' @ newline) demo_today ''644'',
        createFile ''/cfg/backups/last-known-good.txt''
          (''hostname edge-router-07'' @ newline @ ''failover enabled'' @ newline) demo_recent ''644''])]"

definition createDefaultTree :: "connection \<Rightarrow> demo_tree" where
  "createDefaultTree h =
     (let rootPath = demoNormalizePath (coalesce (bc_sftpRoot h) ''/'') in
      buildDemoTree rootPath [
        createDirectory (demoJoinPath rootPath ''logs'') demo_recent,
        createFile (demoJoinPath rootPath ''README.txt'')
          (''Demo workspace for '' @ bc_username h @ ''@'' @ bc_hostname h @ newline) demo_today ''644''])"

definition resetDemoBackend :: "demo_state \<Rightarrow> demo_state" where
  "resetDemoBackend s = \<lparr>ds_trees = demoTreeSeeds, ds_forwards = []\<rparr>"

definition demo_initial :: demo_state where
  "demo_initial = \<lparr>ds_trees = demoTreeSeeds, ds_forwards = []\<rparr>"

definition hostKey :: "connection \<Rightarrow> string" where
  "hostKey h = bc_hostname h @ '':'' @ show_number (bc_port h)"

definition ensureTree :: "connection \<Rightarrow> demo_state \<Rightarrow> demo_tree \<times> demo_state" where
  "ensureTree h s =
     (case obj_get (ds_trees s) (hostKey h) of
        Some t \<Rightarrow> (t, s)
      | None \<Rightarrow> let t = createDefaultTree h in
          (t, s\<lparr>ds_trees := obj_set (hostKey h) t (ds_trees s)\<rparr>))"

text \<open>The tree is changed in place: the state holds the changed tree afterwards.\<close>

definition with_tree ::
    "connection \<Rightarrow> (demo_tree \<Rightarrow> 'a result \<times> demo_tree) \<Rightarrow> demo_state \<Rightarrow> 'a result \<times> demo_state" where
  "with_tree h f s =
     (case ensureTree h s of (t, s') \<Rightarrow>
        case f t of (r, t') \<Rightarrow> (r, s'\<lparr>ds_trees := obj_set (hostKey h) t' (ds_trees s')\<rparr>))"

definition is_directory :: "demo_tree \<Rightarrow> string \<Rightarrow> bool" where
  "is_directory t p = (case obj_get t p of None \<Rightarrow> False | Some n \<Rightarrow> dn_kind n = Directory)"

definition directory_missing :: "string \<Rightarrow> string" where
  "directory_missing p = ''Directory not found: '' @ p"

definition assertDirectory :: "demo_tree \<Rightarrow> string \<Rightarrow> unit result" where
  "assertDirectory t p = (if is_directory t p then Inr () else Inl (directory_missing p))"

definition assertEntry :: "demo_tree \<Rightarrow> string \<Rightarrow> demo_node result" where
  "assertEntry t p =
     (case obj_get t p of None \<Rightarrow> Inl (''Remote entry not found: '' @ p) | Some n \<Rightarrow> Inr n)"

subsection \<open>Listing\<close>

definition compare_entries :: "(string \<Rightarrow> string \<Rightarrow> int) \<Rightarrow> demo_node \<Rightarrow> demo_node \<Rightarrow> int" where
  "compare_entries lc l r =
     (if dn_kind l \<noteq> dn_kind r then (if dn_kind l = Directory then -1 else 1)
      else lc (dn_name l) (dn_name r))"

definition remote_entry_of :: "demo_node \<Rightarrow> remote_entry" where
  "remote_entry_of n = \<lparr>re_name = dn_name n, re_path = dn_path n, re_kind = dn_kind n,
     re_size = dn_size n, re_modifiedAt = Some (dn_modifiedAt n),
     re_permissions = Some (dn_permissions n)\<rparr>"

definition children :: "demo_tree \<Rightarrow> string \<Rightarrow> demo_node list" where
  "children t p = filter (\<lambda>n. dn_path n \<noteq> p \<and> demoDirname (dn_path n) = p) (map snd t)"

definition listChildren :: "(string \<Rightarrow> string \<Rightarrow> int) \<Rightarrow> demo_tree \<Rightarrow> string \<Rightarrow> remote_entry list" where
  "listChildren lc t p = map remote_entry_of (js_sort (compare_entries lc) (children t p))"

text \<open>The entries and the path that was listed.\<close>

definition listDemoRemoteDirectory ::
    "(string \<Rightarrow> string \<Rightarrow> int) \<Rightarrow> connection \<Rightarrow> string \<Rightarrow> demo_state \<Rightarrow>
     (remote_entry list \<times> string) result \<times> demo_state" where
  "listDemoRemoteDirectory lc h path = with_tree h (\<lambda>t.
     let p = demoNormalizePath (if path \<noteq> [] then path else
               if truthy (bc_sftpRoot h) then the (bc_sftpRoot h) else ''/'')
     in (case assertDirectory t p of
           Inl e \<Rightarrow> Inl e
         | Inr _ \<Rightarrow> Inr (listChildren lc t p, p), t))"

subsection \<open>Changing the tree\<close>

definition make_directory :: "string \<Rightarrow> demo_tree \<Rightarrow> string result \<times> demo_tree" where
  "make_directory path t =
     (let p = demoNormalizePath path in
      case assertDirectory t (demoDirname p) of
        Inl e \<Rightarrow> (Inl e, t)
      | Inr _ \<Rightarrow> (Inr p, obj_set p (createDirectory p demo_today) t))"

definition createDemoRemoteDirectory ::
    "connection \<Rightarrow> string \<Rightarrow> demo_state \<Rightarrow> string result \<times> demo_state" where
  "createDemoRemoteDirectory h path = with_tree h (make_directory path)"

text \<open>
  The replacement text of \<open>s.replace(p, r)\<close> for strings: \<open>$$\<close>, \<open>$&\<close>, \<open>$`\<close> and \<open>$'\<close> stand for the
  dollar sign, the match, the text before it and the text after it.
\<close>

fun replacement_text :: "string \<Rightarrow> string \<Rightarrow> string \<Rightarrow> string \<Rightarrow> string" where
  "replacement_text m b a [] = []"
| "replacement_text m b a [c] = [c]"
| "replacement_text m b a (c # d # r) =
     (if c \<noteq> CHR 0x24 then c # replacement_text m b a (d # r)
      else if d = CHR 0x24 then CHR 0x24 # replacement_text m b a r
      else if d = CHR 0x26 then m @ replacement_text m b a r
      else if d = CHR 0x60 then b @ replacement_text m b a r
      else if d = CHR 0x27 then a @ replacement_text m b a r
      else c # replacement_text m b a (d # r))"

definition js_replace :: "string \<Rightarrow> string \<Rightarrow> string \<Rightarrow> string" where
  "js_replace p r s =
     (case index_of p s of
        None \<Rightarrow> s
      | Some i \<Rightarrow> let b = take i s; a = drop (i + length p) s in b @ replacement_text p b a r @ a)"

definition renamed_node :: "string \<Rightarrow> string \<Rightarrow> demo_node \<Rightarrow> demo_node" where
  "renamed_node src dst n =
     (let p = js_replace src dst (dn_path n)
      in n\<lparr>dn_name := demoBasename p, dn_path := p, dn_modifiedAt := demo_today\<rparr>)"

definition move_nodes :: "string \<Rightarrow> string \<Rightarrow> demo_tree \<Rightarrow> demo_tree" where
  "move_nodes src dst t =
     (let ns = filter (\<lambda>n. below src (dn_path n)) (map snd t)
      in fold (\<lambda>n t. let m = renamed_node src dst n in obj_set (dn_path m) m t) ns
           (obj_del_all (map dn_path ns) t))"

definition rename_entry :: "string \<Rightarrow> string \<Rightarrow> demo_tree \<Rightarrow> string result \<times> demo_tree" where
  "rename_entry currentPath nextPath t =
     (let src = demoNormalizePath currentPath; dst = demoNormalizePath nextPath in
      case assertEntry t src of
        Inl e \<Rightarrow> (Inl e, t)
      | Inr n \<Rightarrow>
          (case assertDirectory t (demoDirname dst) of
             Inl e \<Rightarrow> (Inl e, t)
           | Inr _ \<Rightarrow>
               let t' = move_nodes src dst t
               in (Inr dst, if dn_kind n = Directory \<and> obj_get t' dst = None
                            then obj_set dst (createDirectory dst demo_today) t' else t')))"

definition renameDemoRemoteEntry ::
    "connection \<Rightarrow> string \<Rightarrow> string \<Rightarrow> demo_state \<Rightarrow> string result \<times> demo_state" where
  "renameDemoRemoteEntry h currentPath nextPath = with_tree h (rename_entry currentPath nextPath)"

definition delete_entry :: "string \<Rightarrow> bool \<Rightarrow> demo_tree \<Rightarrow> unit result \<times> demo_tree" where
  "delete_entry path isDirectory t =
     (let p = demoNormalizePath path in
      case assertEntry t p of
        Inl e \<Rightarrow> (Inl e, t)
      | Inr n \<Rightarrow>
          if isDirectory \<and> dn_kind n \<noteq> Directory then (Inl (directory_missing p), t)
          else (Inr (), obj_del_all (filter (below p) (map fst t)) t))"

definition deleteDemoRemoteEntry ::
    "connection \<Rightarrow> string \<Rightarrow> bool \<Rightarrow> demo_state \<Rightarrow> unit result \<times> demo_state" where
  "deleteDemoRemoteEntry h path isDirectory = with_tree h (delete_entry path isDirectory)"

text \<open>The text of the uploaded file is an argument.\<close>

definition upload_file :: "string \<Rightarrow> string \<Rightarrow> demo_tree \<Rightarrow> string result \<times> demo_tree" where
  "upload_file remotePath contents t =
     (let p = demoNormalizePath remotePath in
      case assertDirectory t (demoDirname p) of
        Inl e \<Rightarrow> (Inl e, t)
      | Inr _ \<Rightarrow> (Inr p, obj_set p (createFile p contents demo_today ''644'') t))"

definition uploadDemoRemoteFile ::
    "connection \<Rightarrow> string \<Rightarrow> string \<Rightarrow> demo_state \<Rightarrow> string result \<times> demo_state" where
  "uploadDemoRemoteFile h remotePath contents = with_tree h (upload_file remotePath contents)"

text \<open>The contents and the name of the file.\<close>

definition download_file :: "string \<Rightarrow> demo_tree \<Rightarrow> (string \<times> string) result" where
  "download_file path t =
     (let p = demoNormalizePath path in
      case assertEntry t p of
        Inl e \<Rightarrow> Inl e
      | Inr n \<Rightarrow> if dn_kind n \<noteq> RemoteFile then Inl (''File not found: '' @ p)
                  else Inr (coalesce (dn_contents n) [], dn_name n))"

definition downloadDemoRemoteFile ::
    "connection \<Rightarrow> string \<Rightarrow> demo_state \<Rightarrow> (string \<times> string) result \<times> demo_state" where
  "downloadDemoRemoteFile h path = with_tree h (\<lambda>t. (download_file path t, t))"

subsection \<open>Keys and fingerprints\<close>

text \<open>
  \<open>(hash * 31 + code) >>> 0\<close>: the product is exact in double precision, the shift reduces it to
  32 bits.
\<close>

definition hash_step :: "32 word \<Rightarrow> char \<Rightarrow> 32 word" where
  "hash_step h c = h * 31 + of_nat (of_char c)"

definition hash_of :: "string \<Rightarrow> 32 word" where
  "hash_of s = foldl hash_step 0 s"

definition digit36 :: "nat \<Rightarrow> char" where
  "digit36 d = char_of (if d < 10 then 48 + d else 87 + d)"

fun show36 :: "nat \<Rightarrow> string" where
  "show36 n = (if n < 36 then [digit36 n] else show36 (n div 36) @ [digit36 (n mod 36)])"

declare show36.simps [simp del]

definition pad_start :: "nat \<Rightarrow> char \<Rightarrow> string \<Rightarrow> string" where
  "pad_start n c s = replicate (n - length s) c @ s"

definition hashText :: "string \<Rightarrow> string" where
  "hashText s = pad_start 8 CHR ''0'' (show36 (unat (hash_of s)))"

definition demo_fingerprint :: "string \<Rightarrow> string" where
  "demo_fingerprint s = ''SHA256:'' @ take 12 (hashText s)"

definition algorithmForPath :: "string \<Rightarrow> key_algorithm \<times> int" where
  "algorithmForPath path =
     (let n = lower path in
      if contains ''ed25519'' n then (ED25519, 256)
      else if contains ''ecdsa'' n then (ECDSA, 521) else (RSA, 4096))"

fun algorithmForType :: "key_generation \<Rightarrow> key_algorithm \<times> int" where
  "algorithmForType Gen_ed25519 = (ED25519, 256)"
| "algorithmForType Gen_ecdsa = (ECDSA, 521)"
| "algorithmForType Gen_rsa = (RSA, 4096)"

fun generation_string :: "key_generation \<Rightarrow> string" where
  "generation_string Gen_ed25519 = ''ed25519''"
| "generation_string Gen_ecdsa = ''ecdsa''"
| "generation_string Gen_rsa = ''rsa''"

definition demo_metadata :: "key_algorithm \<times> int \<Rightarrow> string \<Rightarrow> string \<Rightarrow> string \<Rightarrow> key_metadata" where
  "demo_metadata a comment print path = \<lparr>km_algorithm = fst a, km_bits = snd a,
     km_fingerprint = print, km_comment = comment, km_privateKeyPath = path,
     km_publicKeyPath = Some (path @ ''.pub'')\<rparr>"

definition inspectDemoPrivateKey :: "string \<Rightarrow> key_metadata result" where
  "inspectDemoPrivateKey path =
     (let p = trim path in
      if p = [] then Inl ''A private key path is required.''
      else Inr (demo_metadata (algorithmForPath p) (demoBasename p @ ''@demo'') (demo_fingerprint p) p))"

definition generateDemoPrivateKey ::
    "key_generation \<Rightarrow> string \<Rightarrow> string \<Rightarrow> key_metadata result" where
  "generateDemoPrivateKey type path comment =
     (let p = trim path in
      if p = [] then Inl ''A destination path is required.''
      else Inr (demo_metadata (algorithmForType type)
        (or_string (trim comment) ''terminal-workspace@demo'')
        (demo_fingerprint (generation_string type @ '':'' @ p @ '':'' @ comment)) p))"

definition importDemoPrivateKeyFromBody :: "string \<Rightarrow> string \<Rightarrow> key_metadata result" where
  "importDemoPrivateKeyFromBody path body =
     (let p = trim path in
      if p = [] then Inl ''A destination path is required.''
      else if trim body = [] then Inl ''A key body is required.''
      else Inr (demo_metadata (algorithmForPath p) (demoBasename p @ ''@demo'')
        (demo_fingerprint (''pasted:'' @ p @ '':'' @ show_nat (length body))) p))"

datatype copy_key_failure = Private_key_path_required | Target_host_required

text \<open>\<open>None\<close> is \<open>{ ok: true }\<close>, \<open>Some r\<close> is \<open>{ ok: false, failure: { reason: r } }\<close>.\<close>

definition copyDemoKeyToHost :: "string \<Rightarrow> string \<Rightarrow> copy_key_failure option" where
  "copyDemoKeyToHost privateKeyPath hostname =
     (if trim privateKeyPath = [] then Some Private_key_path_required
      else if trim hostname = [] then Some Target_host_required else None)"

subsection \<open>Host keys, snippets and forwards\<close>

text \<open>The pattern of the Include directive is ignored: two seeded files match every pattern.\<close>

definition globDemoSshConfigFiles :: "string \<Rightarrow> include_file list" where
  "globDemoSshConfigFiles pattern = [
     \<lparr>if_cycleKey = ''demo-ssh-config-10-staging'', if_name = ''10-staging'',
      if_content = ''Host demo-staging'' @ newline @ ''  HostName staging.demo.internal'' @ newline @
        ''  User deploy'' @ newline\<rparr>,
     \<lparr>if_cycleKey = ''demo-ssh-config-20-prod'', if_name = ''20-prod'',
      if_content = ''Host demo-prod'' @ newline @ ''  HostName prod.demo.internal'' @ newline @
        ''  User deploy'' @ newline\<rparr>]"

definition scanDemoKnownHost :: "string \<Rightarrow> int number \<Rightarrow> scan_result list" where
  "scanDemoKnownHost hostname port = [\<lparr>sc_hostname = hostname, sc_port = port,
     sc_algorithm = ''ssh-ed25519'',
     sc_publicKey = ''AAAAC3NzaC1lZDI1NTE5AAAAI'' @ hashText (hostname @ '':'' @ show_number port),
     sc_fingerprint = demo_fingerprint (hostname @ '':'' @ show_number port @ '':'' @ ''ssh-ed25519'')\<rparr>]"

record snippet_target =
  st_id :: string
  st_label :: string
  st_host :: connection

record snippet_result =
  sr_targetId :: string
  sr_label :: string
  sr_ok :: bool
  sr_stdout :: string
  sr_stderr :: string
  sr_exitCode :: int

definition executeDemoSnippetOnHosts :: "string \<Rightarrow> snippet_target list \<Rightarrow> snippet_result list" where
  "executeDemoSnippetOnHosts command targets = map (\<lambda>x. \<lparr>sr_targetId = st_id x, sr_label = st_label x,
     sr_ok = True, sr_stdout = ''Demo mode executed '' @ [CHR 0x22] @ command @ [CHR 0x22] @ '' on '' @
       bc_hostname (st_host x) @ ''.'', sr_stderr = [], sr_exitCode = 0\<rparr>) targets"

definition listDemoForwards :: "string \<Rightarrow> demo_state \<Rightarrow> forward list" where
  "listDemoForwards sessionId s = filter (\<lambda>f. pf_sessionId f = sessionId) (ds_forwards s)"

text \<open>The payload is a forward whose identifier and time are not yet set.\<close>

definition createDemoForward :: "string \<Rightarrow> forward \<Rightarrow> demo_state \<Rightarrow> forward \<times> demo_state" where
  "createDemoForward uuid payload s =
     (let f = payload\<lparr>pf_id := uuid, pf_createdAt := demo_today\<rparr>
      in (f, s\<lparr>ds_forwards := f # ds_forwards s\<rparr>))"

definition deleteDemoForward :: "string \<Rightarrow> demo_state \<Rightarrow> demo_state" where
  "deleteDemoForward i s = s\<lparr>ds_forwards := filter (\<lambda>f. pf_id f \<noteq> i) (ds_forwards s)\<rparr>"

end
