(* ===== verification/DemoProps.thy ===== *)
theory DemoProps
  imports DemoBackend
begin

section \<open>The demo file tree: well-formedness, moves, deletions and round trips\<close>

text \<open>
  A tree is well formed when it holds every node under its own normalized path, files carry their
  contents and every entry stands in a directory of the tree.
\<close>

subsection \<open>Paths are lists of segments\<close>

definition is_path :: "string \<Rightarrow> bool" where
  "is_path p \<longleftrightarrow> demoNormalizePath p = p"

lemma is_path_iff: "is_path p \<longleftrightarrow> (\<exists>ss. seg_ok ss \<and> p = path_of ss)"
  unfolding is_path_def demoNormalizePath_def by (metis seg_ok_segments segments_path_of)

lemma is_path_normalize [simp]: "is_path (demoNormalizePath p)"
  unfolding is_path_iff demoNormalizePath_def using seg_ok_segments by blast

lemma is_path_path_of [simp]: "seg_ok ss \<Longrightarrow> is_path (path_of ss)"
  unfolding is_path_iff by blast

lemma normalize_path_of [simp]: "seg_ok ss \<Longrightarrow> demoNormalizePath (path_of ss) = path_of ss"
  by (simp add: demoNormalizePath_def)

lemma dirname_path_of [simp]:
  "seg_ok ss \<Longrightarrow> demoDirname (path_of ss) = path_of (butlast ss)"
  by (auto simp: demoDirname_def Let_def)

lemma basename_path_of [simp]:
  "seg_ok ss \<Longrightarrow> demoBasename (path_of ss) = (if ss = [] then [] else last ss)"
  by (simp add: demoBasename_def Let_def)

lemma below_root: "is_path p \<Longrightarrow> below ''/'' p \<longleftrightarrow> p = ''/''"
proof -
  assume "is_path p"
  then obtain ss where ss: "seg_ok ss" "p = path_of ss" by (auto simp: is_path_iff)
  show ?thesis
  proof (cases ss)
    case (Cons s us)
    then have "path_of ss = CHR ''/'' # s @ suffix_of us"
      by (cases us) (auto simp: path_of_def suffix_of_def)
    moreover obtain c s' where "s = c # s'" "c \<noteq> CHR ''/''" using ss Cons by (cases s) auto
    ultimately show ?thesis using ss by (auto simp: below_def)
  qed (use ss in \<open>auto simp: below_def\<close>)
qed

subsection \<open>Well-formed trees\<close>

definition node_ok :: "string \<Rightarrow> demo_node \<Rightarrow> bool" where
  "node_ok p n \<longleftrightarrow> is_path p \<and> dn_path n = p \<and> dn_name n = or_string (demoBasename p) ''/'' \<and>
     (case dn_kind n of
        Directory \<Rightarrow> dn_size n = 0 \<and> dn_contents n = None
      | RemoteFile \<Rightarrow> dn_contents n \<noteq> None \<and> dn_size n = int (length (coalesce (dn_contents n) [])))"

definition tree_ok :: "demo_tree \<Rightarrow> bool" where
  "tree_ok t \<longleftrightarrow> obj_wf t \<and> (\<forall>p n. obj_get t p = Some n \<longrightarrow> node_ok p n \<and> is_directory t (demoDirname p)) \<and>
     is_directory t ''/''"

lemma is_directory_iff: "is_directory t p \<longleftrightarrow> (\<exists>n. obj_get t p = Some n \<and> dn_kind n = Directory)"
  by (auto simp: is_directory_def split: option.splits)

lemma node_ok_createDirectory [simp]: "is_path p \<Longrightarrow> node_ok p (createDirectory p now)"
  by (simp add: node_ok_def createDirectory_def is_path_def)

lemma node_ok_createFile [simp]:
  assumes "is_path p" "p \<noteq> ''/''" shows "node_ok p (createFile p c now perm)"
proof -
  obtain ss where "seg_ok ss" "p = path_of ss" using assms by (auto simp: is_path_iff)
  with assms show ?thesis by (auto simp: node_ok_def createFile_def seg_ok_def or_string_def)
qed

lemma is_directory_createDirectory:
  "is_directory (obj_set p (createDirectory p now) t) q \<longleftrightarrow> q = p \<or> is_directory t q"
  by (auto simp: is_directory_def obj_get_set createDirectory_def)

lemma is_directory_createFile:
  "is_directory (obj_set p (createFile p c now perm) t) q \<longleftrightarrow> q \<noteq> p \<and> is_directory t q"
  by (auto simp: is_directory_def obj_get_set createFile_def)

lemma tree_ok_createDirectory:
  "tree_ok t \<Longrightarrow> is_path p \<Longrightarrow> is_directory t (demoDirname p) \<Longrightarrow>
   tree_ok (obj_set p (createDirectory p now) t)"
  unfolding tree_ok_def by (auto simp: is_directory_createDirectory obj_get_set split: if_splits)

text \<open>A file may take the place of a file, not of a directory, which may have entries.\<close>

lemma tree_ok_createFile:
  assumes "tree_ok t" "is_path p" "is_directory t (demoDirname p)" "\<not> is_directory t p"
  shows "tree_ok (obj_set p (createFile p c now perm) t)"
proof -
  have "p \<noteq> ''/''" and "q \<noteq> p" if "is_directory t q" for q
    using assms that by (auto simp: tree_ok_def)
  with assms show ?thesis
    unfolding tree_ok_def is_directory_createFile by (auto simp: obj_get_set split: if_splits)
qed

lemma tree_ok_code:
  "tree_ok t \<longleftrightarrow> obj_wf t \<and> list_all (\<lambda>(p, n). node_ok p n \<and> is_directory t (demoDirname p)) t \<and>
     is_directory t ''/''"
  unfolding tree_ok_def list_all_iff by (auto simp: obj_wf_get)

lemma seeds_ok: "list_all (\<lambda>(k, t). tree_ok t) demoTreeSeeds"
  unfolding tree_ok_code node_ok_def is_path_def by code_simp

lemma obj_get_ok: "tree_ok t \<Longrightarrow> obj_get t p = Some n \<Longrightarrow> node_ok p n"
  by (auto simp: tree_ok_def)

lemma parent_ok: "tree_ok t \<Longrightarrow> obj_get t p = Some n \<Longrightarrow> is_directory t (demoDirname p)"
  by (auto simp: tree_ok_def)

lemma tree_path: "tree_ok t \<Longrightarrow> obj_get t p = Some n \<Longrightarrow> \<exists>ss. seg_ok ss \<and> p = path_of ss"
  by (auto dest!: obj_get_ok simp: node_ok_def is_path_iff)

text \<open>Every directory on the way to an entry is in the tree.\<close>

lemma ancestor_ok:
  assumes "tree_ok t" "seg_ok (us @ vs)" "obj_get t (path_of (us @ vs)) = Some n" "vs \<noteq> []"
  shows "is_directory t (path_of us)"
  using assms
proof (induction vs arbitrary: n rule: rev_induct)
  case (snoc v vs)
  have "is_directory t (demoDirname (path_of (us @ vs @ [v])))"
    using snoc.prems by (auto dest: parent_ok)
  then have d: "is_directory t (path_of (us @ vs))" using snoc.prems(2) by (simp add: butlast_append)
  show ?case
  proof (cases "vs = []")
    case False
    with d snoc show ?thesis by (auto simp: is_directory_iff)
  qed (use d in simp)
qed simp

lemma make_directory_ok: "tree_ok t \<Longrightarrow> tree_ok (snd (make_directory p t))"
  by (auto simp: make_directory_def assertDirectory_def Let_def intro!: tree_ok_createDirectory)

lemma upload_file_ok:
  "tree_ok t \<Longrightarrow> \<not> is_directory t (demoNormalizePath p) \<Longrightarrow> tree_ok (snd (upload_file p c t))"
  by (auto simp: upload_file_def assertDirectory_def Let_def intro!: tree_ok_createFile)

lemma obj_get_delete:
  "obj_get (obj_del_all (filter (below p) (map fst t)) t) q = (if below p q then None else obj_get t q)"
  by (auto simp: obj_get_del_all map_of_eq_None_iff)

lemma below_down:
  assumes "is_path p" "is_path q" "p \<noteq> ''/''" "q \<noteq> p" "below p q" shows "below p (demoDirname q)"
proof -
  obtain us ss where us: "seg_ok us" "p = path_of us" "seg_ok ss" "q = path_of ss"
    using assms by (auto simp: is_path_iff)
  with assms obtain vs where "ss = us @ vs" "vs \<noteq> []" "us \<noteq> []"
    by (auto simp: below_path path_of_inj)
  with us show ?thesis by (auto simp: below_path butlast_append)
qed

lemma below_up:
  assumes "is_path p" "is_path q" "p \<noteq> ''/''" "below p (demoDirname q)" shows "below p q"
proof -
  obtain us ss where us: "seg_ok us" "p = path_of us" "seg_ok ss" "q = path_of ss"
    using assms by (auto simp: is_path_iff)
  with assms obtain vs where "butlast ss = us @ vs" "us \<noteq> []" by (auto simp: below_path)
  then have "ss = us @ vs @ [last ss]" by (cases ss rule: rev_cases) auto
  with us \<open>us \<noteq> []\<close> show ?thesis by (auto simp: below_path)
qed

lemma delete_entry_ok:
  assumes "tree_ok t" "demoNormalizePath p \<noteq> ''/''"
  shows "tree_ok (snd (delete_entry p d t))"
proof -
  let ?q = "demoNormalizePath p"
  let ?t = "obj_del_all (filter (below ?q) (map fst t)) t"
  have dir: "is_directory ?t r \<longleftrightarrow> \<not> below ?q r \<and> is_directory t r" for r
    by (simp add: is_directory_def obj_get_delete)
  have "\<not> below ?q ''/''"
    using assms(2) by (auto simp: below_def demoNormalizePath_def path_of_def starts_with_iff)
  moreover have "\<not> below ?q (demoDirname r)" if "obj_get t r = Some n" "\<not> below ?q r" for r n
    using below_up[of ?q r] assms that obj_get_ok[OF assms(1) that(1)] by (auto simp: node_ok_def)
  ultimately have "tree_ok ?t"
    using assms(1) unfolding tree_ok_def dir by (auto simp: obj_get_delete)
  then show ?thesis
    using assms(1) by (auto simp: delete_entry_def Let_def assertEntry_def split: option.splits)
qed

subsection \<open>Moving an entry\<close>

lemma replacement_plain: "CHR 0x24 \<notin> set r \<Longrightarrow> replacement_text m b a r = r"
  by (induction m b a r rule: replacement_text.induct) auto

lemma index_of_prefix: "index_of p (p @ s) = Some 0"
proof (cases "p @ s")
  case (Cons c cs)
  moreover have "starts_with p (p @ s)" by (auto simp: starts_with_iff)
  ultimately show ?thesis by simp
qed simp

lemma js_replace_prefix: "CHR 0x24 \<notin> set r \<Longrightarrow> js_replace p r (p @ s) = r @ s"
  by (simp add: js_replace_def index_of_prefix replacement_plain)

lemma renamed_path:
  "us \<noteq> [] \<Longrightarrow> ds \<noteq> [] \<Longrightarrow> CHR 0x24 \<notin> set (path_of ds) \<Longrightarrow>
   js_replace (path_of us) (path_of ds) (path_of (us @ vs)) = path_of (ds @ vs)"
  by (simp add: path_of_append_suffix js_replace_prefix)

lemma obj_get_fold_set:
  assumes "inj_on f (set ns)"
  shows "obj_get (fold (\<lambda>n t. obj_set (f n) (g n) t) ns t) q =
    (case List.find (\<lambda>n. f n = q) ns of Some n \<Rightarrow> Some (g n) | None \<Rightarrow> obj_get t q)"
  using assms
proof (induction ns arbitrary: t)
  case (Cons n ns)
  have "m = n" if "List.find (\<lambda>m. f m = q) ns = Some m" "f n = q" for m
    using find_Some_set[OF that(1)] inj_onD[OF Cons.prems, of m n] that(2) by simp
  with Cons show ?case by (auto simp: obj_get_set split: option.splits)
qed simp

text \<open>The result of a move, by the segments of the paths.\<close>

definition move_ok :: "demo_tree \<Rightarrow> string list \<Rightarrow> string list \<Rightarrow> bool" where
  "move_ok t us ds \<longleftrightarrow> tree_ok t \<and> seg_ok us \<and> us \<noteq> [] \<and> seg_ok ds \<and>
     obj_get t (path_of us) \<noteq> None \<and> obj_get t (path_of ds) = None \<and>
     is_directory t (path_of (butlast ds)) \<and> CHR 0x24 \<notin> set (path_of ds) \<and>
     \<not> below (path_of us) (path_of ds)"

lemma move_okD:
  assumes "move_ok t us ds"
  shows "tree_ok t" "seg_ok us" "us \<noteq> []" "seg_ok ds" "obj_get t (path_of us) \<noteq> None"
    "obj_get t (path_of ds) = None" "is_directory t (path_of (butlast ds))"
    "CHR 0x24 \<notin> set (path_of ds)" "\<not> below (path_of us) (path_of ds)" "ds \<noteq> []"
  using assms by (auto simp: move_ok_def tree_ok_def is_directory_iff)

definition moving :: "demo_tree \<Rightarrow> string list \<Rightarrow> demo_node list" where
  "moving t us = filter (\<lambda>n. below (path_of us) (dn_path n)) (map snd t)"

lemma moving_path: "tree_ok t \<Longrightarrow> obj_get t p = Some n \<Longrightarrow> dn_path n = p"
  by (auto dest: obj_get_ok simp: node_ok_def)

lemma in_moving:
  assumes ok: "tree_ok t" and us: "seg_ok us" "us \<noteq> []"
  shows "n \<in> set (moving t us) \<longleftrightarrow> (\<exists>vs. seg_ok vs \<and> obj_get t (path_of (us @ vs)) = Some n)"
proof
  assume "n \<in> set (moving t us)"
  then obtain p where p: "obj_get t p = Some n" "below (path_of us) (dn_path n)"
    using ok by (auto simp: moving_def tree_ok_def obj_wf_get)
  then obtain ss where "seg_ok ss" "p = path_of ss" "dn_path n = p"
    using ok by (auto dest!: obj_get_ok simp: node_ok_def is_path_iff)
  with p us show "\<exists>vs. seg_ok vs \<and> obj_get t (path_of (us @ vs)) = Some n"
    by (auto simp: below_path)
next
  assume "\<exists>vs. seg_ok vs \<and> obj_get t (path_of (us @ vs)) = Some n"
  then obtain vs where vs: "seg_ok vs" "obj_get t (path_of (us @ vs)) = Some n" by auto
  then have "dn_path n = path_of (us @ vs)" using ok by (auto dest: moving_path)
  moreover have "n \<in> snd ` set t" using vs(2) by (force dest: map_of_SomeD)
  ultimately show "n \<in> set (moving t us)" using us vs by (auto simp: moving_def below_path)
qed

lemma target_path:
  "move_ok t us ds \<Longrightarrow> obj_get t (path_of (us @ vs)) = Some n \<Longrightarrow>
   dn_path (renamed_node (path_of us) (path_of ds) n) = path_of (ds @ vs)"
  using move_okD[of t us ds] by (simp add: renamed_node_def moving_path renamed_path Let_def)

lemma inj_target:
  assumes m: "move_ok t us ds"
  shows "inj_on (\<lambda>n. dn_path (renamed_node (path_of us) (path_of ds) n)) (set (moving t us))"
proof (rule inj_onI)
  fix a b
  assume "a \<in> set (moving t us)" "b \<in> set (moving t us)"
    and eq: "dn_path (renamed_node (path_of us) (path_of ds) a) = dn_path (renamed_node (path_of us) (path_of ds) b)"
  then obtain vs ws where "seg_ok vs" "obj_get t (path_of (us @ vs)) = Some a"
    "seg_ok ws" "obj_get t (path_of (us @ ws)) = Some b"
    using move_okD[OF m] by (auto simp: in_moving)
  with eq move_okD[OF m] show "a = b" by (simp add: target_path[OF m] path_of_inj)
qed

lemma fresh: "move_ok t us ds \<Longrightarrow> seg_ok vs \<Longrightarrow> obj_get t (path_of (ds @ vs)) = None"
  using ancestor_ok[of t ds vs] move_okD[of t us ds]
  by (cases "obj_get t (path_of (ds @ vs))"; cases "vs = []") (auto simp: is_directory_iff)

lemma find_moving:
  assumes m: "move_ok t us ds" and ss: "seg_ok ss"
  shows "find (\<lambda>n. dn_path (renamed_node (path_of us) (path_of ds) n) = path_of ss) (moving t us) =
     (if \<exists>vs. ss = ds @ vs then obj_get t (path_of (us @ drop (length ds) ss)) else None)"
proof -
  note D = move_okD[OF m]
  let ?P = "\<lambda>n. dn_path (renamed_node (path_of us) (path_of ds) n) = path_of ss"
  have P: "?P n \<longleftrightarrow> ss = ds @ vs"
    if "seg_ok vs" "obj_get t (path_of (us @ vs)) = Some n" for n vs
    using target_path[OF m that(2)] that ss D(4) by (auto simp: path_of_inj)
  show ?thesis
  proof (cases "find ?P (moving t us)")
    case None
    then have "obj_get t (path_of (us @ vs)) = None" if "ss = ds @ vs" for vs
      using that ss P[of vs] D(1-3) by (cases "obj_get t (path_of (us @ vs))")
        (auto simp: find_None_set in_moving)
    with None show ?thesis by auto
  next
    case (Some n)
    then have "n \<in> set (moving t us)" "?P n" by (auto dest: find_Some_set)
    then obtain vs where "seg_ok vs" "obj_get t (path_of (us @ vs)) = Some n" "ss = ds @ vs"
      using P D(1-3) by (auto simp: in_moving)
    with Some show ?thesis by auto
  qed
qed

lemma get_move_nodes:
  assumes m: "move_ok t us ds" and ss: "seg_ok ss"
  shows "obj_get (move_nodes (path_of us) (path_of ds) t) (path_of ss) =
    (if \<exists>vs. ss = ds @ vs
     then map_option (renamed_node (path_of us) (path_of ds)) (obj_get t (path_of (us @ drop (length ds) ss)))
     else if \<exists>vs. ss = us @ vs then None else obj_get t (path_of ss))"
proof -
  note D = move_okD[OF m]
  let ?t = "obj_del_all (map dn_path (moving t us)) t"
  have "path_of ss \<in> set (map dn_path (moving t us)) \<longleftrightarrow>
      (\<exists>vs. ss = us @ vs \<and> obj_get t (path_of ss) \<noteq> None)"
    using ss D by (force simp: in_moving moving_path path_of_inj)
  then have kept: "obj_get ?t (path_of ss) = (if \<exists>vs. ss = us @ vs then None else obj_get t (path_of ss))"
    by (auto simp: obj_get_del_all)
  moreover have "obj_get ?t (path_of ss) = None" if "\<exists>vs. ss = ds @ vs"
    using that fresh[OF m] ss unfolding kept by auto
  ultimately show ?thesis
    unfolding move_nodes_def Let_def moving_def[symmetric]
    using obj_get_fold_set[OF inj_target[OF m], of "renamed_node (path_of us) (path_of ds)"] find_moving[OF m ss]
    by (auto split: option.splits)
qed

lemma move_nodes_paths:
  assumes m: "move_ok t us ds" and q: "obj_get (move_nodes (path_of us) (path_of ds) t) q \<noteq> None"
  shows "is_path q"
proof (cases "find (\<lambda>n. dn_path (renamed_node (path_of us) (path_of ds) n) = q) (moving t us)")
  case None
  then have "obj_get (obj_del_all (map dn_path (moving t us)) t) q \<noteq> None"
    using q obj_get_fold_set[OF inj_target[OF m], of "renamed_node (path_of us) (path_of ds)"]
    unfolding move_nodes_def Let_def moving_def[symmetric] by simp
  then show ?thesis
    using move_okD(1)[OF m] by (auto simp: obj_get_del_all node_ok_def dest: obj_get_ok split: if_splits)
next
  case (Some n)
  then have n: "n \<in> set (moving t us)" "dn_path (renamed_node (path_of us) (path_of ds) n) = q"
    by (auto dest: find_Some_set)
  then obtain vs where "seg_ok vs" "obj_get t (path_of (us @ vs)) = Some n"
    using move_okD[OF m] by (auto simp: in_moving)
  with n target_path[OF m] move_okD(4)[OF m] show ?thesis by auto
qed

lemma renamed_node_ok:
  assumes "move_ok t us ds" "seg_ok vs" "obj_get t (path_of (us @ vs)) = Some n"
  shows "node_ok (path_of (ds @ vs)) (renamed_node (path_of us) (path_of ds) n)"
proof -
  note D = move_okD[OF assms(1)]
  have "dn_path n = path_of (us @ vs)" "node_ok (path_of (us @ vs)) n"
    using D assms(3) by (auto dest: obj_get_ok moving_path)
  moreover have "last (ds @ vs) \<noteq> []"
    using D(4,10) assms(2) last_in_set[of "ds @ vs"] seg_ok_simps(3)[of ds vs]
    unfolding seg_ok_def by blast
  ultimately show ?thesis
    using D assms(2) by (auto simp: node_ok_def renamed_node_def Let_def renamed_path or_string_def
      split: remote_kind.splits)
qed

lemma move_nodes_ok:
  assumes m: "move_ok t us ds"
  shows "tree_ok (move_nodes (path_of us) (path_of ds) t)"
proof -
  note D = move_okD[OF m]
  let ?r = "renamed_node (path_of us) (path_of ds)" and ?t = "move_nodes (path_of us) (path_of ds) t"
  have dir: "is_directory ?t (path_of ss) \<longleftrightarrow>
      (if \<exists>vs. ss = ds @ vs then is_directory t (path_of (us @ drop (length ds) ss))
       else (\<nexists>vs. ss = us @ vs) \<and> is_directory t (path_of ss))" if "seg_ok ss" for ss
    using that by (auto simp: is_directory_def get_move_nodes[OF m] renamed_node_def Let_def split: option.splits)
  have not_in: "\<not> is_directory t (path_of (ds @ vs))" if "seg_ok vs" for vs
    using fresh[OF m that] by (simp add: is_directory_def)
  have "node_ok p n \<and> is_directory ?t (demoDirname p)" if g: "obj_get ?t p = Some n" for p n
  proof -
    obtain ss where ss: "seg_ok ss" "p = path_of ss"
      using move_nodes_paths[OF m, of p] g by (auto simp: is_path_iff)
    show ?thesis
    proof (cases "\<exists>vs. ss = ds @ vs")
      case True
      then obtain vs n' where vs: "ss = ds @ vs" "seg_ok vs" "obj_get t (path_of (us @ vs)) = Some n'" "n = ?r n'"
        using g ss get_move_nodes[OF m ss(1)] by auto
      have "is_directory ?t (path_of (butlast ss))"
      proof (cases "vs = []")
        case True
        have "butlast ds \<noteq> us @ ws" for ws
        proof
          assume "butlast ds = us @ ws"
          then have "ds = us @ ws @ [last ds]" using D(10) by (metis append_assoc append_butlast_last_id)
          with D show False by (metis below_path)
        qed
        moreover have "butlast ds \<noteq> ds @ ws" for ws
          using D(10) by (metis append_butlast_last_id append_eq_append_conv append_is_Nil_conv
              append.assoc append_self_conv not_Cons_self2)
        ultimately show ?thesis using True vs D dir[of "butlast ds"] by simp
      next
        case False
        then have "is_directory t (path_of (us @ butlast vs))"
          using parent_ok[OF D(1) vs(3)] D vs(2) by (simp add: butlast_append)
        with False vs D dir[of "ds @ butlast vs"] show ?thesis by (simp add: butlast_append)
      qed
      with vs ss renamed_node_ok[OF m vs(2,3)] D show ?thesis by simp
    next
      case False
      then have n: "obj_get t p = Some n" "\<nexists>vs. ss = us @ vs"
        using g ss get_move_nodes[OF m ss(1)] by (auto split: if_splits)
      then have d: "is_directory t (path_of (butlast ss))" using parent_ok[OF D(1) n(1)] ss by simp
      have "butlast ss \<noteq> us @ vs" for vs
        using n(2) D(3) by (metis append_assoc append_butlast_last_id append_is_Nil_conv butlast.simps(1))
      moreover have "butlast ss \<noteq> ds @ vs" for vs
      proof
        assume "butlast ss = ds @ vs"
        moreover from this ss have "seg_ok vs" by (metis seg_ok_butlast seg_ok_simps(3))
        ultimately show False using d not_in by simp
      qed
      ultimately have "is_directory ?t (path_of (butlast ss))" using d ss dir[of "butlast ss"] by auto
      with n ss D(1) show ?thesis by (auto dest: obj_get_ok)
    qed
  qed
  moreover have "is_directory ?t ''/''"
    using dir[of "[]"] D by (simp add: tree_ok_def)
  moreover have "obj_wf (fold (\<lambda>n t. obj_set (dn_path (?r n)) (?r n) t) ns t')" if "obj_wf t'" for ns t'
    using that by (induction ns arbitrary: t') auto
  then have "obj_wf ?t" using D(1) by (simp add: move_nodes_def Let_def tree_ok_def)
  ultimately show ?thesis by (simp add: tree_ok_def)
qed

subsection \<open>The trees of new hosts\<close>

lemma path_prefixes_ok:
  assumes "tree_ok t" "seg_ok (us @ ss)" "is_directory t (path_of us)"
  shows "tree_ok (fold add_directory (path_prefixes (suffix_of us) ss) t) \<and>
    is_directory (fold add_directory (path_prefixes (suffix_of us) ss) t) (path_of (us @ ss)) \<and>
    (\<forall>q. obj_get (fold add_directory (path_prefixes (suffix_of us) ss) t) q \<noteq> None \<longrightarrow>
      obj_get t q \<noteq> None \<or> (\<exists>ws. seg_ok ws \<and> length ws \<le> length (us @ ss) \<and> q = path_of ws))"
  using assms
proof (induction ss arbitrary: us t)
  case (Cons s ss)
  have p: "suffix_of us @ ''/'' @ s = path_of (us @ [s])" "suffix_of (us @ [s]) = path_of (us @ [s])"
    by (cases "us = []"; simp add: suffix_of_def path_of_def join_append)
      (simp add: suffix_of_def path_of_def)
  let ?t = "add_directory (path_of (us @ [s])) t"
  have eq: "?t = obj_set (path_of (us @ [s])) (createDirectory (path_of (us @ [s])) demo_recent) t"
    using Cons.prems(2) by (simp add: add_directory_def)
  have ok: "tree_ok ?t"
    unfolding eq using Cons.prems by (intro tree_ok_createDirectory) auto
  have dir: "is_directory ?t (path_of (us @ [s]))" by (simp add: eq is_directory_createDirectory)
  have keys: "obj_get ?t q \<noteq> None \<Longrightarrow> obj_get t q \<noteq> None \<or> q = path_of (us @ [s])" for q
    by (auto simp: eq obj_get_set split: if_splits)
  have pre: "path_prefixes (suffix_of us) (s # ss) = path_of (us @ [s]) # path_prefixes (suffix_of (us @ [s])) ss"
    using p by simp
  have new: "\<exists>ws. seg_ok ws \<and> length ws \<le> length (us @ s # ss) \<and> path_of (us @ [s]) = path_of ws"
    using Cons.prems(2) by (intro exI[of _ "us @ [s]"]) auto
  have sg: "seg_ok ((us @ [s]) @ ss)" using Cons.prems(2) by simp
  have len: "us @ s # ss = (us @ [s]) @ ss" by simp
  let ?f = "fold add_directory (path_prefixes (suffix_of (us @ [s])) ss) ?t"
  note IH = Cons.IH[OF ok sg dir]
  have C: "obj_get t q \<noteq> None \<or> (\<exists>ws. seg_ok ws \<and> length ws \<le> length (us @ s # ss) \<and> q = path_of ws)"
    if "obj_get ?f q \<noteq> None" for q
  proof -
    have "obj_get ?t q \<noteq> None \<or> (\<exists>ws. seg_ok ws \<and> length ws \<le> length (us @ s # ss) \<and> q = path_of ws)"
      using IH that unfolding len by (elim conjE) (erule allE, erule mp)
    then show ?thesis
    proof
      assume "obj_get ?t q \<noteq> None"
      from keys[OF this] show ?thesis
      proof
        assume "q = path_of (us @ [s])"
        with new show ?thesis by blast
      qed blast
    qed blast
  qed
  show ?case
    unfolding pre fold_simps
  proof (intro conjI allI impI)
    show "tree_ok ?f" using IH by (elim conjE)
    show "is_directory ?f (path_of (us @ s # ss))" using IH unfolding len by (elim conjE)
  qed (rule C)
qed auto

lemma joinPath_of:
  "seg_ok ss \<Longrightarrow> trim c = c \<Longrightarrow> c \<noteq> [] \<Longrightarrow> CHR ''/'' \<notin> set c \<Longrightarrow>
   demoJoinPath (path_of ss) c = path_of (ss @ [c])"
proof -
  assume a: "seg_ok ss" "trim c = c" "c \<noteq> []" "CHR ''/'' \<notin> set c"
  then have "dropWhile (\<lambda>x. x = CHR ''/'') c = c" by (cases c) auto
  moreover have "(if path_of ss = ''/'' then ''/'' @ c else path_of ss @ ''/'' @ c) = path_of (ss @ [c])"
  proof (cases "ss = []")
    case True
    then show ?thesis by (simp add: path_of_def)
  next
    case False
    then show ?thesis using a by (simp add: path_of_append)
  qed
  ultimately show ?thesis using a by (simp add: demoJoinPath_def Let_def)
qed

lemma node_path_simps [simp]:
  "dn_path (createDirectory p now) = demoNormalizePath p"
  "dn_path (createFile p c now perm) = demoNormalizePath p"
  "is_path p \<Longrightarrow> createDirectory p now\<lparr>dn_path := p\<rparr> = createDirectory p now"
  "is_path p \<Longrightarrow> createFile p c now perm\<lparr>dn_path := p\<rparr> = createFile p c now perm"
  by (simp_all add: createDirectory_def createFile_def is_path_def)

lemma createDefaultTree_ok: "tree_ok (createDefaultTree h)"
proof -
  obtain ss where ss: "seg_ok ss" "demoNormalizePath (coalesce (bc_sftpRoot h) ''/'') = path_of ss"
    by (metis demoNormalizePath_def seg_ok_segments)
  let ?t0 = "obj_set ''/'' (createDirectory ''/'' demo_recent) []"
  let ?t1 = "fold add_directory (path_prefixes [] ss) ?t0"
  have t0: "tree_ok ?t0" unfolding tree_ok_code node_ok_def is_path_def by code_simp
  have t1: "tree_ok ?t1" "is_directory ?t1 (path_of ss)"
    "\<And>q. obj_get ?t1 q \<noteq> None \<Longrightarrow> \<exists>ws. seg_ok ws \<and> length ws \<le> length ss \<and> q = path_of ws"
  proof -
    have f: "?t1 = fold add_directory (path_prefixes (suffix_of []) ss) ?t0" by (simp add: suffix_of_def)
    note P = path_prefixes_ok[of ?t0 "[]" ss, folded f]
    show "tree_ok ?t1" "is_directory ?t1 (path_of ss)"
      using P t0 ss by (simp_all add: is_directory_createDirectory)
    fix q assume "obj_get ?t1 q \<noteq> None"
    then have "obj_get ?t0 q \<noteq> None \<or> (\<exists>ws. seg_ok ws \<and> length ws \<le> length ss \<and> q = path_of ws)"
      using P t0 ss by (simp add: is_directory_createDirectory)
    moreover have "q = path_of []" if "obj_get ?t0 q \<noteq> None"
      using that by (auto simp: obj_get_set split: if_splits)
    ultimately show "\<exists>ws. seg_ok ws \<and> length ws \<le> length ss \<and> q = path_of ws"
      using seg_ok_simps(1) le0 list.size(3) by metis
  qed
  have join: "demoJoinPath (path_of ss) ''logs'' = path_of (ss @ [''logs''])"
    "demoJoinPath (path_of ss) ''README.txt'' = path_of (ss @ [''README.txt''])"
    using ss by (simp_all add: joinPath_of trim_def trim_start_def trim_end_def is_space_def)
  let ?t2 = "obj_set (path_of (ss @ [''logs''])) (createDirectory (path_of (ss @ [''logs''])) demo_recent) ?t1"
  have t2: "tree_ok ?t2" using t1 ss by (intro tree_ok_createDirectory) auto
  have "\<not> is_directory ?t2 (path_of (ss @ [''README.txt'']))"
  proof
    assume "is_directory ?t2 (path_of (ss @ [''README.txt'']))"
    then have "obj_get ?t1 (path_of (ss @ [''README.txt''])) \<noteq> None"
      using ss by (auto simp: path_of_inj is_directory_iff obj_get_set)
    then obtain ws where "seg_ok ws" "length ws \<le> length ss" "path_of (ss @ [''README.txt'']) = path_of ws"
      using t1(3) by blast
    then show False using ss path_of_inj[of "ss @ [''README.txt'']" ws] by auto
  qed
  with t2 t1(2) ss have "tree_ok (obj_set (path_of (ss @ [''README.txt'']))
      (createFile (path_of (ss @ [''README.txt''])) c now perm) ?t2)" for c now perm
    by (intro tree_ok_createFile) (auto simp: is_directory_createDirectory)
  with ss join show ?thesis
    by (simp add: createDefaultTree_def buildDemoTree_def Let_def)
qed

subsection \<open>The whole backend\<close>

definition state_ok :: "demo_state \<Rightarrow> bool" where
  "state_ok s \<longleftrightarrow> obj_wf (ds_trees s) \<and> (\<forall>k t. obj_get (ds_trees s) k = Some t \<longrightarrow> tree_ok t)"

abbreviation tree_at :: "connection \<Rightarrow> demo_state \<Rightarrow> demo_tree" where
  "tree_at h s \<equiv> fst (ensureTree h s)"

lemma initial_state_ok: "state_ok \<lparr>ds_trees = demoTreeSeeds, ds_forwards = fs\<rparr>"
proof -
  have "obj_wf demoTreeSeeds" by (simp add: demoTreeSeeds_def obj_wf_def)
  moreover from this have "obj_get demoTreeSeeds k = Some t \<Longrightarrow> tree_ok t" for k t
    using seeds_ok by (auto simp: list_all_iff obj_wf_get[symmetric])
  ultimately show ?thesis by (simp add: state_ok_def)
qed

lemma tree_at_ok [simp]: "state_ok s \<Longrightarrow> tree_ok (tree_at h s)"
  by (auto simp: ensureTree_def state_ok_def createDefaultTree_ok Let_def split: option.splits)

lemma with_tree_simps:
  "fst (with_tree h f s) = fst (f (tree_at h s))"
  "tree_at h (snd (with_tree h f s)) = snd (f (tree_at h s))"
  "hostKey g \<noteq> hostKey h \<Longrightarrow> tree_at g (snd (with_tree h f s)) = tree_at g s"
  "ds_forwards (snd (with_tree h f s)) = ds_forwards s"
  by (auto simp: with_tree_def ensureTree_def obj_get_set Let_def split: option.splits prod.splits)

lemma with_tree_ok:
  "state_ok s \<Longrightarrow> tree_ok (snd (f (tree_at h s))) \<Longrightarrow> state_ok (snd (with_tree h f s))"
  by (auto simp: with_tree_def ensureTree_def obj_get_set Let_def state_ok_def
      split: option.splits prod.splits if_splits)

subsection \<open>Properties\<close>

lemma rename_entry_move:
  assumes ok: "tree_ok t" and "obj_get t (demoNormalizePath p) = Some n"
    and "is_directory t (demoDirname (demoNormalizePath q))" "obj_get t (demoNormalizePath q) = None"
    and "demoNormalizePath p \<noteq> ''/''" "CHR 0x24 \<notin> set (demoNormalizePath q)"
    and "\<not> below (demoNormalizePath p) (demoNormalizePath q)"
  shows "move_ok t (segments p) (segments q)"
    and "rename_entry p q t = (Inr (demoNormalizePath q), move_nodes (demoNormalizePath p) (demoNormalizePath q) t)"
proof -
  show m: "move_ok t (segments p) (segments q)"
    using assms by (auto simp: move_ok_def demoNormalizePath_def)
  have "obj_get (move_nodes (demoNormalizePath p) (demoNormalizePath q) t) (demoNormalizePath q) \<noteq> None"
    using get_move_nodes[OF m, of "segments q"] assms(2) by (simp add: demoNormalizePath_def)
  then show "rename_entry p q t = (Inr (demoNormalizePath q), move_nodes (demoNormalizePath p) (demoNormalizePath q) t)"
    using assms(2,3) by (auto simp: rename_entry_def Let_def assertEntry_def assertDirectory_def)
qed

lemma rename_entry_ok:
  assumes "tree_ok t" "demoNormalizePath p \<noteq> ''/''" "CHR 0x24 \<notin> set (demoNormalizePath q)"
    and "obj_get t (demoNormalizePath q) = None" "\<not> below (demoNormalizePath p) (demoNormalizePath q)"
  shows "tree_ok (snd (rename_entry p q t))"
proof (cases "\<exists>n. obj_get t (demoNormalizePath p) = Some n \<and> is_directory t (demoDirname (demoNormalizePath q))")
  case True
  then obtain n where "obj_get t (demoNormalizePath p) = Some n" "is_directory t (demoDirname (demoNormalizePath q))"
    by blast
  from rename_entry_move[OF assms(1) this(1,2) assms(4,2,3,5)] move_nodes_ok show ?thesis
    by (simp add: demoNormalizePath_def)
next
  case False
  with assms(1) show ?thesis
    by (auto simp: rename_entry_def Let_def assertEntry_def assertDirectory_def split: option.splits)
qed

inductive demo_step :: "demo_state \<Rightarrow> demo_state \<Rightarrow> bool" where
  reset: "demo_step s (resetDemoBackend s)"
| list: "demo_step s (snd (listDemoRemoteDirectory lc h p s))"
| mkdir: "demo_step s (snd (createDemoRemoteDirectory h p s))"
| rename: "demoNormalizePath p \<noteq> ''/'' \<Longrightarrow> CHR 0x24 \<notin> set (demoNormalizePath q) \<Longrightarrow>
    obj_get (tree_at h s) (demoNormalizePath q) = None \<Longrightarrow>
    \<not> below (demoNormalizePath p) (demoNormalizePath q) \<Longrightarrow>
    demo_step s (snd (renameDemoRemoteEntry h p q s))"
| delete: "demoNormalizePath p \<noteq> ''/'' \<Longrightarrow> demo_step s (snd (deleteDemoRemoteEntry h p d s))"
| upload: "\<not> is_directory (tree_at h s) (demoNormalizePath p) \<Longrightarrow>
    demo_step s (snd (uploadDemoRemoteFile h p c s))"
| download: "demo_step s (snd (downloadDemoRemoteFile h p s))"
| forward: "uuid \<notin> pf_id ` set (ds_forwards s) \<Longrightarrow> demo_step s (snd (createDemoForward uuid f s))"
| unforward: "demo_step s (deleteDemoForward i s)"

definition demo_reachable :: "demo_state \<Rightarrow> bool" where
  "demo_reachable s \<longleftrightarrow> demo_step\<^sup>*\<^sup>* demo_initial s"

definition demo_ok :: "demo_state \<Rightarrow> bool" where
  "demo_ok s \<longleftrightarrow> state_ok s \<and> distinct (map pf_id (ds_forwards s))"

lemma distinct_filter_map: "distinct (map f xs) \<Longrightarrow> distinct (map f (filter p xs))"
  by (induction xs) auto

lemma demo_step_ok: "demo_step s s' \<Longrightarrow> demo_ok s \<Longrightarrow> demo_ok s'"
proof (induction rule: demo_step.induct)
  case (reset s)
  then show ?case by (simp add: demo_ok_def resetDemoBackend_def initial_state_ok)
next
  case (list s lc h p)
  then show ?case
    by (auto simp: demo_ok_def listDemoRemoteDirectory_def with_tree_simps Let_def intro!: with_tree_ok)
next
  case (mkdir s h p)
  then show ?case
    by (auto simp: demo_ok_def createDemoRemoteDirectory_def with_tree_simps intro!: with_tree_ok make_directory_ok)
next
  case (rename p q h s)
  then show ?case
    by (auto simp: demo_ok_def renameDemoRemoteEntry_def with_tree_simps intro!: with_tree_ok rename_entry_ok)
next
  case (delete p s h d)
  then show ?case
    by (auto simp: demo_ok_def deleteDemoRemoteEntry_def with_tree_simps intro!: with_tree_ok delete_entry_ok)
next
  case (upload h s p c)
  then show ?case
    by (auto simp: demo_ok_def uploadDemoRemoteFile_def with_tree_simps intro!: with_tree_ok upload_file_ok)
next
  case (download s h p)
  then show ?case
    by (auto simp: demo_ok_def downloadDemoRemoteFile_def with_tree_simps intro!: with_tree_ok)
next
  case (forward uuid s f)
  then show ?case by (auto simp: demo_ok_def createDemoForward_def Let_def state_ok_def)
next
  case (unforward s i)
  then show ?case by (auto simp: demo_ok_def deleteDemoForward_def state_ok_def intro: distinct_filter_map)
qed

text \<open>the trees of the demo backend stay well formed over every sequence of operations in which
  no rename goes to a path that is taken, lies below its source or contains a dollar sign, the root
  is neither renamed nor deleted and no upload replaces a directory: every entry stands under its
  own normalized path with its own name, files have contents of their size, and every entry's
  parent is a directory of the tree, so nothing is out of reach of the file browser; the
  identifiers of the port forwards are distinct.\<close>

theorem demo_trees_stay_well_formed: "demo_reachable s \<Longrightarrow> demo_ok s"
  unfolding demo_reachable_def
proof (induction rule: rtranclp_induct)
  case base
  show ?case using initial_state_ok[of "[]"] by (simp add: demo_ok_def demo_initial_def)
next
  case (step s s')
  then show ?case using demo_step_ok by blast
qed

definition demo_host :: connection where
  "demo_host = Connection False AuthPrivateKey [] RequireTrusted ''bastion.acme.internal'' None None None [] []
     (Finite 22) [] Ssh (Some ''/srv'') ''ops''"

lemma demo_trees_stay_well_formed_witness:
  "demo_ok (snd (deleteDemoRemoteEntry demo_host ''/srv/releases'' True
     (snd (createDemoRemoteDirectory demo_host ''/srv/new'' demo_initial))))"
proof (rule demo_trees_stay_well_formed)
  show "demo_reachable (snd (deleteDemoRemoteEntry demo_host ''/srv/releases'' True
     (snd (createDemoRemoteDirectory demo_host ''/srv/new'' demo_initial))))"
    unfolding demo_reachable_def
    by (rule rtranclp.rtrancl_into_rtrancl, rule rtranclp.rtrancl_into_rtrancl, rule rtranclp.rtrancl_refl,
        rule mkdir, rule delete) code_simp
qed

text \<open>renaming an entry to a free path moves exactly its subtree: afterwards the path of every node
  that was below the old path starts with the new one, with its contents and size, the old paths
  are gone and every other node is as before; the operation returns the new path.\<close>

theorem rename_moves_subtree:
  assumes "tree_ok t" "is_path src" "is_path dst" "obj_get t src \<noteq> None" "obj_get t dst = None"
    and "is_directory t (demoDirname dst)" "src \<noteq> ''/''" "CHR 0x24 \<notin> set dst" "\<not> below src dst"
    and "is_path q"
  shows "fst (rename_entry src dst t) = Inr dst \<and>
    obj_get (snd (rename_entry src dst t)) q =
      (if below dst q
       then map_option (\<lambda>n. n\<lparr>dn_name := demoBasename q, dn_path := q, dn_modifiedAt := demo_today\<rparr>)
              (obj_get t (src @ drop (length dst) q))
       else if below src q then None else obj_get t q)"
proof -
  obtain us ds ss where p: "src = path_of us" "seg_ok us" "dst = path_of ds" "seg_ok ds" "q = path_of ss" "seg_ok ss"
    using assms by (auto simp: is_path_iff)
  have n: "demoNormalizePath src = src" "demoNormalizePath dst = dst" "segments src = us" "segments dst = ds"
    using p by simp_all
  obtain n where "obj_get t src = Some n" using assms(4) by blast
  then have m: "move_ok t us ds" and r: "rename_entry src dst t = (Inr dst, move_nodes src dst t)"
    using rename_entry_move[of t src n dst] assms(1,5-9) by (simp_all add: n)
  note D = move_okD[OF m]
  have below: "below dst q \<longleftrightarrow> (\<exists>vs. ss = ds @ vs)" "below src q \<longleftrightarrow> (\<exists>vs. ss = us @ vs)"
    using p D by (simp_all add: below_path)
  note G = get_move_nodes[OF m p(6), folded p(1,3,5)]
  have kept: "map_option (renamed_node src dst) (obj_get t (path_of (us @ vs))) =
      map_option (\<lambda>n. n\<lparr>dn_name := demoBasename q, dn_path := q, dn_modifiedAt := demo_today\<rparr>)
        (obj_get t (src @ drop (length dst) q))" if vs: "ss = ds @ vs" for vs
  proof -
    have "src @ drop (length dst) q = path_of (us @ vs)"
      using p D vs by (simp add: path_of_append_suffix)
    moreover have "renamed_node src dst n = n\<lparr>dn_name := demoBasename q, dn_path := q, dn_modifiedAt := demo_today\<rparr>"
      if "obj_get t (path_of (us @ vs)) = Some n" for n
      using that p D vs by (simp add: renamed_node_def Let_def moving_path renamed_path)
    ultimately show ?thesis by (simp split: option.splits cong: map_option_cong)
  qed
  have moved: "obj_get (move_nodes src dst t) q =
      map_option (\<lambda>n. n\<lparr>dn_name := demoBasename q, dn_path := q, dn_modifiedAt := demo_today\<rparr>)
        (obj_get t (src @ drop (length dst) q))" if b: "below dst q"
  proof -
    obtain vs where vs: "ss = ds @ vs" using b below by blast
    then show ?thesis using G kept[OF vs] by simp
  qed
  have "obj_get (move_nodes src dst t) q = (if below src q then None else obj_get t q)" if "\<not> below dst q"
    using that G below by simp
  with moved show ?thesis unfolding r by simp
qed

lemma rename_moves_subtree_witness:
  "obj_get (snd (rename_entry ''/srv/releases'' ''/srv/old'' (tree_at demo_host demo_initial)))
      ''/srv/old/2026.04.01.txt'' \<noteq> None"
proof -
  let ?t = "tree_at demo_host demo_initial"
  have ok: "tree_ok ?t" using initial_state_ok[of "[]"] by (simp add: demo_initial_def)
  have g: "obj_get ?t ''/srv/releases'' \<noteq> None" "obj_get ?t ''/srv/old'' = None"
    "is_directory ?t (demoDirname ''/srv/old'')" "obj_get ?t ''/srv/releases/2026.04.01.txt'' \<noteq> None"
    by code_simp+
  have p: "is_path ''/srv/releases''" "is_path ''/srv/old''" "is_path ''/srv/old/2026.04.01.txt''"
    unfolding is_path_def by code_simp+
  have "\<not> below ''/srv/releases'' ''/srv/old''" "below ''/srv/old'' ''/srv/old/2026.04.01.txt''"
    by (simp_all add: below_def)
  with rename_moves_subtree[OF ok p(1,2) g(1,2,3) _ _ _ p(3)] g(4) show ?thesis by simp
qed

text \<open>an uploaded file is downloaded again with its contents, under the last part of its path; the
  upload changes no other file of the host and no file of another host.\<close>

theorem upload_then_download:
  assumes "fst (uploadDemoRemoteFile h p c s) = Inr q"
  shows "q = demoNormalizePath p \<and>
    fst (downloadDemoRemoteFile h p (snd (uploadDemoRemoteFile h p c s))) = Inr (c, demoBasename q) \<and>
    (demoNormalizePath r \<noteq> q \<longrightarrow>
      fst (downloadDemoRemoteFile h r (snd (uploadDemoRemoteFile h p c s))) = fst (downloadDemoRemoteFile h r s)) \<and>
    (hostKey g \<noteq> hostKey h \<longrightarrow>
      fst (downloadDemoRemoteFile g r (snd (uploadDemoRemoteFile h p c s))) = fst (downloadDemoRemoteFile g r s))"
proof -
  let ?t = "tree_at h s"
  have up: "upload_file p c ?t = (Inr (demoNormalizePath p),
      obj_set (demoNormalizePath p) (createFile (demoNormalizePath p) c demo_today ''644'') ?t)" and q: "q = demoNormalizePath p"
    using assms by (auto simp: uploadDemoRemoteFile_def with_tree_simps upload_file_def Let_def
      assertDirectory_def split: if_splits)
  have "download_file p (snd (upload_file p c ?t)) = Inr (c, demoBasename q)"
    by (simp add: up q download_file_def Let_def assertEntry_def createFile_def)
  moreover have "download_file r (snd (upload_file p c ?t)) = download_file r ?t" if "demoNormalizePath r \<noteq> q"
    using that by (simp add: up q download_file_def Let_def assertEntry_def obj_get_set)
  ultimately show ?thesis
    by (simp add: q downloadDemoRemoteFile_def uploadDemoRemoteFile_def with_tree_simps)
qed

lemma upload_then_download_witness:
  "fst (downloadDemoRemoteFile demo_host ''srv//notes.txt/''
     (snd (uploadDemoRemoteFile demo_host ''srv//notes.txt/'' ''hello'' demo_initial))) = Inr (''hello'', ''notes.txt'')"
proof -
  have "fst (uploadDemoRemoteFile demo_host ''srv//notes.txt/'' ''hello'' demo_initial) = Inr ''/srv/notes.txt''"
    by code_simp
  moreover have "demoBasename ''/srv/notes.txt'' = ''notes.txt''" by code_simp
  ultimately show ?thesis using upload_then_download[of demo_host "''srv//notes.txt/''" "''hello''" demo_initial] by simp
qed

subsection \<open>Where the guards matter\<close>

text \<open>Deleting the root removes only its own node: the directory is gone, every other entry is still there.\<close>

lemma delete_root_keeps_entries:
  assumes "tree_ok t"
  shows "fst (delete_entry ''/'' d t) = Inr ()"
    and "assertDirectory (snd (delete_entry ''/'' d t)) ''/'' = Inl ''Directory not found: /''"
    and "q \<noteq> ''/'' \<Longrightarrow> obj_get (snd (delete_entry ''/'' d t)) q = obj_get t q"
proof -
  have n: "demoNormalizePath ''/'' = ''/''" by code_simp
  obtain n where root: "obj_get t ''/'' = Some n" "dn_kind n = Directory"
    using assms by (auto simp: tree_ok_def is_directory_iff)
  then have eq: "delete_entry ''/'' d t = (Inr (), obj_del_all (filter (below ''/'') (map fst t)) t)"
    by (simp add: delete_entry_def n Let_def assertEntry_def)
  then show "fst (delete_entry ''/'' d t) = Inr ()"
    and "assertDirectory (snd (delete_entry ''/'' d t)) ''/'' = Inl ''Directory not found: /''"
    by (simp_all add: assertDirectory_def is_directory_def obj_get_delete below_def directory_missing_def)
  show "q \<noteq> ''/'' \<Longrightarrow> obj_get (snd (delete_entry ''/'' d t)) q = obj_get t q"
    using assms below_root[of q] tree_path[OF assms, of q]
    by (cases "obj_get t q") (auto simp: eq obj_get_delete)
qed

text \<open>
  A directory renamed to a path inside itself takes its entries out of reach: the target does not
  stand in a directory any more.
\<close>

lemma rename_into_itself_orphans:
  "let t = tree_at demo_host demo_initial; t' = snd (rename_entry ''/srv'' ''/srv/backups/x'' t) in
   fst (rename_entry ''/srv'' ''/srv/backups/x'' t) = Inr ''/srv/backups/x'' \<and>
   is_directory t' ''/srv/backups/x'' \<and> \<not> is_directory t' ''/srv/backups'' \<and> \<not> is_directory t' ''/srv''"
  by code_simp

text \<open>A dollar sign in the new name is read as a replacement pattern: the path returned is not the path used.\<close>

lemma rename_expands_dollars:
  "let t = tree_at demo_host demo_initial; r = rename_entry ''/srv/README.md'' ''/srv/a$$b'' t in
   fst r = Inr ''/srv/a$$b'' \<and> obj_get (snd r) ''/srv/a$$b'' = None \<and> obj_get (snd r) ''/srv/a$b'' \<noteq> None"
  by code_simp

text \<open>An upload onto a directory turns it into a file and leaves the entries below it behind.\<close>

lemma upload_replaces_directory:
  "let t = tree_at demo_host demo_initial; t' = snd (upload_file ''/srv'' ''x'' t) in
   fst (upload_file ''/srv'' ''x'' t) = Inr ''/srv'' \<and> \<not> is_directory t' ''/srv'' \<and>
   obj_get t' ''/srv/README.md'' \<noteq> None"
  by code_simp

subsection \<open>Fingerprints\<close>

lemma show36_length: "n < 36 ^ k \<Longrightarrow> 0 < k \<Longrightarrow> length (show36 n) \<le> k"
proof (induction k arbitrary: n)
  case (Suc k)
  show ?case
  proof (cases "n < 36")
    case False
    then have "0 < k" using Suc.prems by (cases k) auto
    moreover have "n div 36 < 36 ^ k" using Suc.prems by (simp add: div_less_iff_less_mult mult.commute)
    ultimately show ?thesis using Suc.IH[of "n div 36"] False by (subst show36.simps) simp
  qed (simp add: show36.simps)
qed simp

text \<open>The hash has at most seven digits: the padding makes every hash eight characters long and the cut
  to twelve characters never cuts.\<close>

lemma hashText_length: "length (hashText s) = 8"
proof -
  have "unat (hash_of s) < 2 ^ 32" using unsigned_less[of "hash_of s"] by simp
  then have "length (show36 (unat (hash_of s))) \<le> 7" by (intro show36_length) simp_all
  then show ?thesis by (simp add: hashText_def pad_start_def)
qed

lemma demo_fingerprint_full: "demo_fingerprint s = ''SHA256:'' @ hashText s"
  by (simp add: demo_fingerprint_def hashText_length)

text \<open>The hash of a string is its value as a number in base 31, reduced to 32 bits.\<close>

lemma hash_of_polynomial:
  "unat (hash_of s) = foldl (\<lambda>h c. h * 31 + of_char c) 0 s mod 2 ^ 32"
proof -
  have "unat (foldl hash_step (of_nat n) s) = foldl (\<lambda>h c. h * 31 + of_char c) n s mod 2 ^ 32" for n
  proof (induction s arbitrary: n)
    case Nil
    show ?case by (simp add: unat_of_nat)
  next
    case (Cons c s)
    have "hash_step (of_nat n) c = of_nat (n * 31 + of_char c)" by (simp add: hash_step_def)
    with Cons show ?case by (simp only: foldl_Cons)
  qed
  from this[of 0] show ?thesis by (simp add: hash_of_def)
qed

end
