(* ===== verification/Bytes.thy ===== *)
theory Bytes
  imports Strings
begin

section \<open>Bytes, UTF-8 and base 64\<close>

text \<open>
  A buffer is a list of bytes; a byte is the \<^typ>\<open>char\<close> of its value. The strings of the model have
  code units below 256, so one or two bytes encode a character; longer sequences stand for
  characters outside the model and do not decode.
\<close>

type_synonym bytes = "char list"

abbreviation byte :: "nat \<Rightarrow> char" where
  "byte n \<equiv> char_of n"

abbreviation value_of :: "char \<Rightarrow> nat" where
  "value_of c \<equiv> of_char c"

subsection \<open>UTF-8\<close>

definition utf8_char :: "char \<Rightarrow> bytes" where
  "utf8_char c = (if value_of c < 128 then [c]
     else [byte (192 + value_of c div 64), byte (128 + value_of c mod 64)])"

definition utf8_encode :: "string \<Rightarrow> bytes" where
  "utf8_encode s = concat (map utf8_char s)"

fun utf8_decode :: "bytes \<Rightarrow> string option" where
  "utf8_decode [] = Some []"
| "utf8_decode (b # bs) =
     (if value_of b < 128 then map_option ((#) b) (utf8_decode bs)
      else case bs of
        [] \<Rightarrow> None
      | c # cs \<Rightarrow>
          if (value_of b = 194 \<or> value_of b = 195) \<and> 128 \<le> value_of c \<and> value_of c < 192
          then map_option ((#) (byte ((value_of b - 192) * 64 + (value_of c - 128)))) (utf8_decode cs)
          else None)"

lemma of_char_less [simp]: "value_of c < 256"
  by (cases c) (simp add: of_char_def horner_sum_simps split: bool.splits)

lemma utf8_encode_simps [simp]:
  "utf8_encode [] = []" "utf8_encode (c # s) = utf8_char c @ utf8_encode s"
  "utf8_encode (s @ t) = utf8_encode s @ utf8_encode t"
  by (simp_all add: utf8_encode_def)

text \<open>
  \<open>buffer.toString("utf8")\<close>: bytes that are not UTF-8 are read with replacement characters, which are outside the
  strings of the model; \<open>lossy\<close> gives the text in that case.
\<close>

definition text_of :: "(bytes \<Rightarrow> string) \<Rightarrow> bytes \<Rightarrow> string" where
  "text_of lossy b = (case utf8_decode b of Some s \<Rightarrow> s | None \<Rightarrow> lossy b)"

lemma utf8_roundtrip_append: "utf8_decode (utf8_encode s @ bs) = map_option ((@) s) (utf8_decode bs)"
proof (induction s)
  case Nil
  show ?case by (cases "utf8_decode bs") auto
next
  case (Cons c s)
  have lt: "value_of c div 64 < 4" "value_of c mod 64 < 64"
    using of_char_less[of c] by (simp_all add: div_less_iff_less_mult)
  have ge: "2 \<le> value_of c div 64" if "\<not> value_of c < 128" using that by simp
  have "value_of c div 64 = 2 \<or> value_of c div 64 = 3" if "\<not> value_of c < 128"
    using ge[OF that] lt(1) by linarith
  moreover have "64 * (value_of c div 64) + value_of c mod 64 = value_of c" by simp
  ultimately show ?case
    using Cons lt by (auto simp: utf8_char_def option.map_comp comp_def)
qed

lemma utf8_roundtrip: "utf8_decode (utf8_encode s) = Some s"
  using utf8_roundtrip_append[of s "[]"] by simp

lemma utf8_ascii: "(\<And>c. c \<in> set s \<Longrightarrow> value_of c < 128) \<Longrightarrow> utf8_encode s = s"
  by (induction s) (auto simp: utf8_char_def)

lemma utf8_decode_append:
  "utf8_decode a = Some s \<Longrightarrow> utf8_decode (a @ b) = map_option ((@) s) (utf8_decode b)"
proof (induction a arbitrary: s rule: utf8_decode.induct)
  case 1
  then show ?case by (cases "utf8_decode b") auto
next
  case (2 x xs)
  then show ?case
    by (cases "utf8_decode b") (auto simp: option.map_comp comp_def split: if_splits list.splits)
qed

subsection \<open>Base 64\<close>

definition digit64 :: "nat \<Rightarrow> char" where
  "digit64 i = byte (if i < 26 then 65 + i else if i < 52 then 71 + i else if i < 62 then i - 4
     else if i = 62 then 43 else 47)"

fun base64 :: "bytes \<Rightarrow> string" where
  "base64 [] = []"
| "base64 [a] = [digit64 (value_of a div 4), digit64 (value_of a mod 4 * 16), CHR ''='', CHR ''='']"
| "base64 [a, b] = [digit64 (value_of a div 4), digit64 (value_of a mod 4 * 16 + value_of b div 16),
     digit64 (value_of b mod 16 * 4), CHR ''='']"
| "base64 (a # b # c # r) = [digit64 (value_of a div 4), digit64 (value_of a mod 4 * 16 + value_of b div 16),
     digit64 (value_of b mod 16 * 4 + value_of c div 64), digit64 (value_of c mod 64)] @ base64 r"

lemma value_digit64:
  "i < 64 \<Longrightarrow> value_of (digit64 i) = (if i < 26 then 65 + i else if i < 52 then 71 + i
     else if i < 62 then i - 4 else if i = 62 then 43 else 47)"
  by (simp add: digit64_def)

lemma digit64_inj:
  assumes "i < 64" "j < 64" "digit64 i = digit64 j" shows "i = j"
  using arg_cong[OF assms(3), of value_of] assms(1,2) by (simp add: value_digit64 split: if_splits)

lemma digit64_chars:
  assumes "i < 64"
  shows "digit64 i \<noteq> CHR ''=''" "value_of (digit64 i) < 128" "\<not> is_space (digit64 i)" "digit64 i \<noteq> CHR ''#''"
proof -
  have "value_of (digit64 i) \<notin> {61, 9, 10, 11, 12, 13, 32, 160, 35} \<and> value_of (digit64 i) < 128"
    using assms by (auto simp: value_digit64)
  then show "digit64 i \<noteq> CHR ''=''" "value_of (digit64 i) < 128" "\<not> is_space (digit64 i)" "digit64 i \<noteq> CHR ''#''"
    by (auto simp: is_space_def)
qed

lemma byte_parts:
  "value_of a div 4 < 64" "value_of a mod 4 * 16 < 64" "value_of a mod 4 * 16 + value_of b div 16 < 64"
  "value_of a mod 16 * 4 < 64" "value_of a mod 16 * 4 + value_of b div 64 < 64" "value_of a mod 64 < 64"
proof -
  have "value_of a < 256" "value_of b < 256" by simp_all
  then show "value_of a div 4 < 64" "value_of a mod 4 * 16 < 64" "value_of a mod 4 * 16 + value_of b div 16 < 64"
    "value_of a mod 16 * 4 < 64" "value_of a mod 16 * 4 + value_of b div 64 < 64" "value_of a mod 64 < 64"
    by linarith+
qed

lemma byte_eqI: "value_of a div k = value_of b div k \<Longrightarrow> value_of a mod k = value_of b mod k \<Longrightarrow> a = b"
  by (metis div_mult_mod_eq of_char_eq_iff)

lemma parts_eq: "x * k + u = y * k + v \<Longrightarrow> u < k \<Longrightarrow> v < k \<Longrightarrow> x = y \<and> u = v" for x y u v k :: nat
proof -
  assume eq: "x * k + u = y * k + v" and lt: "u < k" "v < k"
  have "(x * k + u) div k = x" "(y * k + v) div k = y" using lt by simp_all
  with eq show ?thesis by simp
qed

text \<open>Different bytes have different texts, so comparing the texts of two keys compares the keys.\<close>

lemma base64_quad:
  assumes "base64 (a # b # c # r) = base64 (a' # b' # c' # r')"
  shows "a = a' \<and> b = b' \<and> c = c' \<and> base64 r = base64 r'"
proof -
  have d: "digit64 (value_of a div 4) = digit64 (value_of a' div 4)"
    "digit64 (value_of a mod 4 * 16 + value_of b div 16) = digit64 (value_of a' mod 4 * 16 + value_of b' div 16)"
    "digit64 (value_of b mod 16 * 4 + value_of c div 64) = digit64 (value_of b' mod 16 * 4 + value_of c' div 64)"
    "digit64 (value_of c mod 64) = digit64 (value_of c' mod 64)" and r: "base64 r = base64 r'"
    using assms by simp_all
  note eq = digit64_inj[OF byte_parts(1) byte_parts(1) d(1)] digit64_inj[OF byte_parts(3) byte_parts(3) d(2)]
    digit64_inj[OF byte_parts(5) byte_parts(5) d(3)] digit64_inj[OF byte_parts(6) byte_parts(6) d(4)]
  have lt: "value_of b div 16 < 16" "value_of b' div 16 < 16" "value_of c div 64 < 4" "value_of c' div 64 < 4"
    using of_char_less[of b] of_char_less[of b'] of_char_less[of c] of_char_less[of c'] by linarith+
  have q: "value_of a mod 4 = value_of a' mod 4" "value_of b div 16 = value_of b' div 16"
    "value_of b mod 16 = value_of b' mod 16" "value_of c div 64 = value_of c' div 64"
    using parts_eq[OF eq(2) lt(1,2)] parts_eq[OF eq(3) lt(3,4)] by blast+
  show ?thesis
    using byte_eqI[OF eq(1) q(1)] byte_eqI[OF q(2,3)] byte_eqI[OF q(4) eq(4)] r by blast
qed

lemma base64_one: "base64 [a] = base64 [a'] \<Longrightarrow> a = a'"
proof -
  assume "base64 [a] = base64 [a']"
  then have d: "digit64 (value_of a div 4) = digit64 (value_of a' div 4)"
    "digit64 (value_of a mod 4 * 16) = digit64 (value_of a' mod 4 * 16)" by simp_all
  note eq = digit64_inj[OF byte_parts(1) byte_parts(1) d(1)] digit64_inj[OF byte_parts(2) byte_parts(2) d(2)]
  show ?thesis using byte_eqI[OF eq(1)] eq(2) by simp
qed

lemma base64_two: "base64 [a, b] = base64 [a', b'] \<Longrightarrow> a = a' \<and> b = b'"
proof -
  assume "base64 [a, b] = base64 [a', b']"
  then have d: "digit64 (value_of a div 4) = digit64 (value_of a' div 4)"
    "digit64 (value_of a mod 4 * 16 + value_of b div 16) = digit64 (value_of a' mod 4 * 16 + value_of b' div 16)"
    "digit64 (value_of b mod 16 * 4) = digit64 (value_of b' mod 16 * 4)" by simp_all
  note eq = digit64_inj[OF byte_parts(1) byte_parts(1) d(1)] digit64_inj[OF byte_parts(3) byte_parts(3) d(2)]
    digit64_inj[OF byte_parts(4) byte_parts(4) d(3)]
  have lt: "value_of b div 16 < 16" "value_of b' div 16 < 16"
    using of_char_less[of b] of_char_less[of b'] by linarith+
  have q: "value_of a mod 4 = value_of a' mod 4" "value_of b div 16 = value_of b' div 16" "value_of b mod 16 = value_of b' mod 16"
    using parts_eq[OF eq(2) lt] eq(3) by auto
  show ?thesis using byte_eqI[OF eq(1) q(1)] byte_eqI[OF q(2,3)] by blast
qed

lemma base64_inj: "base64 x = base64 y \<Longrightarrow> x = y"
proof (induction x arbitrary: y rule: base64.induct)
  case 1
  then show ?case by (cases y rule: base64.cases) auto
next
  case (2 a)
  show ?case
  proof (cases y rule: base64.cases)
    case (2 a')
    with \<open>base64 [a] = base64 y\<close> show ?thesis using base64_one[of a a'] by blast
  qed (use 2 in \<open>auto simp: digit64_chars digit64_chars(1)[symmetric] byte_parts\<close>)
next
  case (3 a b)
  show ?case
  proof (cases y rule: base64.cases)
    case (3 a' b')
    with \<open>base64 [a, b] = base64 y\<close> show ?thesis using base64_two[of a b a' b'] by blast
  qed (use 3 in \<open>auto simp: digit64_chars digit64_chars(1)[symmetric] byte_parts\<close>)
next
  case (4 a b c r)
  note IH = "4.IH" and eq = "4.prems"
  show ?case
  proof (cases y rule: base64.cases)
    case (4 a' b' c' r')
    with base64_quad[of a b c r a' b' c' r'] eq IH[of r'] show ?thesis by blast
  qed (use eq in \<open>auto simp: digit64_chars digit64_chars(1)[symmetric] byte_parts\<close>)
qed

lemma pad_char: "\<not> is_space (CHR ''='')" "value_of (CHR ''='') < 128"
  by (simp_all add: is_space_def)

text \<open>The text is ASCII without white space, so it can be a field of a line.\<close>

lemma base64_chars: "c \<in> set (base64 x) \<Longrightarrow> value_of c < 128 \<and> \<not> is_space c"
proof (induction x rule: base64.induct)
qed (auto simp: digit64_chars byte_parts pad_char)

lemma base64_Nil_iff [simp]: "base64 x = [] \<longleftrightarrow> x = []"
  by (cases x rule: base64.cases) auto

end
