(* ===== verification/HostKeys.thy ===== *)
theory HostKeys
  imports Bytes Connections
begin

section \<open>Trust on first use (\<open>server/backend-host-keys.mjs\<close>)\<close>

text \<open>
  The store of host keys of the Node backend is a file of lines \<open>pattern algorithm key\<close>. The state
  is that file. What the operating system answers to the calls of one operation (a lock that
  cannot be taken, a read that fails, a write that stores only some bytes) is an argument of the
  operation, so every theorem is about all of these answers. Errors are the constructors of
  \<open>host_key_error\<close>; their texts stay inside the process.
\<close>

datatype host_key_error =
  No_hostname | Unsafe_hostname string | Invalid_port "int number" | Unusable_key | Not_regular_file
| Store_unreadable | Malformed_line nat | Store_unwritable | Partial_write
| Lock_failed | Store_locked | Release_failed

datatype verdict = Pinned | Matches | Mismatch string

subsection \<open>Patterns and algorithm names\<close>

definition unsafe_hostname_char :: "char \<Rightarrow> bool" where
  "unsafe_hostname_char c \<longleftrightarrow> is_space c \<or> c = CHR ''#''"

definition knownHostsHostPattern :: "string option \<Rightarrow> int number \<Rightarrow> host_key_error + string" where
  "knownHostsHostPattern hostname port =
     (let name = trim (coalesce hostname []) in
      if name = [] then Inl No_hostname
      else if list_ex unsafe_hostname_char name then Inl (Unsafe_hostname name)
      else case port of
        Finite n \<Rightarrow>
          if n < 1 \<or> n > 65535 then Inl (Invalid_port port)
          else Inr (if n = 22 then name else ''['' @ name @ '']:'' @ show_int n)
      | _ \<Rightarrow> Inl (Invalid_port port))"

text \<open>The label of a refused host: no control characters reach the terminal that shows it.\<close>

definition safeHostLabel :: "string option \<Rightarrow> int number \<Rightarrow> string" where
  "safeHostLabel hostname port =
     (let name = filter (\<lambda>c. \<not> (value_of c < 32 \<or> value_of c = 127) \<and>
                             \<not> (128 \<le> value_of c \<and> value_of c \<le> 159)) (coalesce hostname [])
      in case port of Finite n \<Rightarrow> name @ '':'' @ show_int n | _ \<Rightarrow> name)"

definition read_u32 :: "bytes \<Rightarrow> nat" where
  "read_u32 b = ((value_of (b ! 0) * 256 + value_of (b ! 1)) * 256 + value_of (b ! 2)) * 256 + value_of (b ! 3)"

definition hostKeyAlgorithmName :: "(bytes \<Rightarrow> string) \<Rightarrow> bytes \<Rightarrow> string option" where
  "hostKeyAlgorithmName lossy blob =
     (if length blob < 4 then None
      else let len = read_u32 blob in
        if len = 0 \<or> len > length blob - 4 then None
        else let name = text_of lossy (take len (drop 4 blob)) in
          if trim name = [] then None else Some name)"

subsection \<open>The store file\<close>

datatype store_file = Missing | Symlink | Special | Regular bytes

text \<open>
  The answers of the operating system to one operation: the outcome of taking the lock, whether
  reading, preparing the directory, opening for writing, looking at the last byte, syncing or
  closing and releasing the lock fails, and how many bytes the write stores (\<open>None\<close>: it fails).
\<close>

record store_answers =
  sa_lock :: "host_key_error option"
  sa_read :: bool
  sa_dir :: bool
  sa_open :: bool
  sa_tail :: bool
  sa_write :: "nat option"
  sa_sync :: bool
  sa_release :: bool

type_synonym records = "(string \<times> string) obj"

fun load_lines :: "nat \<Rightarrow> string list \<Rightarrow> records \<Rightarrow> host_key_error + records" where
  "load_lines i [] m = Inr m"
| "load_lines i (l # ls) m =
     (let line = trim l in
      if line = [] \<or> starts_with ''#'' line then load_lines (Suc i) ls m
      else let fields = split_words line in
        if length fields < 3 then Inl (Malformed_line (Suc i))
        else load_lines (Suc i) ls (obj_set (fields ! 0) (fields ! 1, fields ! 2) m))"

definition newline_char :: char where
  "newline_char = CHR 0x0A"

definition parse_store :: "bytes \<Rightarrow> host_key_error + records" where
  "parse_store b =
     (case utf8_decode b of
        None \<Rightarrow> Inl Store_unreadable
      | Some contents \<Rightarrow> load_lines 0 (split_on newline_char contents) [])"

definition load_store :: "store_answers \<Rightarrow> store_file \<Rightarrow> host_key_error + records" where
  "load_store a d =
     (case d of
        Missing \<Rightarrow> if sa_read a then Inl Store_unreadable else Inr []
      | Symlink \<Rightarrow> Inl Not_regular_file
      | Special \<Rightarrow> Inl Not_regular_file
      | Regular b \<Rightarrow> if sa_read a then Inl Store_unreadable else parse_store b)"

text \<open>
  One write of the whole record. A file that does not end in a line feed gets one first, so that
  the record is not welded to a line that another writer left unfinished.
\<close>

definition record_line :: "string \<Rightarrow> string \<Rightarrow> string \<Rightarrow> string" where
  "record_line pattern algorithm key = pattern @ '' '' @ algorithm @ '' '' @ key"

definition needs_separator :: "bytes \<Rightarrow> bool" where
  "needs_separator b \<longleftrightarrow> b \<noteq> [] \<and> last b \<noteq> newline_char"

definition pin_payload :: "bytes \<Rightarrow> string \<Rightarrow> string \<Rightarrow> string \<Rightarrow> bytes" where
  "pin_payload b pattern algorithm key =
     utf8_encode ((if needs_separator b then [newline_char] else []) @
       record_line pattern algorithm key @ [newline_char])"

definition file_bytes :: "store_file \<Rightarrow> bytes" where
  "file_bytes d = (case d of Regular b \<Rightarrow> b | _ \<Rightarrow> [])"

definition appendPin ::
    "store_answers \<Rightarrow> string \<Rightarrow> string \<Rightarrow> string \<Rightarrow> store_file \<Rightarrow> (host_key_error + unit) \<times> store_file" where
  "appendPin a pattern algorithm key d =
     (if sa_dir a then (Inl Store_unwritable, d)
      else if d = Symlink \<or> d = Special then (Inl Not_regular_file, d)
      else if sa_open a then (Inl Store_unwritable, d)
      else let b = file_bytes d; payload = pin_payload b pattern algorithm key in
        if sa_tail a then (Inl Store_unwritable, Regular b)
        else case sa_write a of
          None \<Rightarrow> (Inl Store_unwritable, Regular b)
        | Some n \<Rightarrow> (if n < length payload then Inl Partial_write
                    else if sa_sync a then Inl Store_unwritable else Inr (),
                    Regular (b @ take n payload)))"

definition verifyOrPin ::
    "(bytes \<Rightarrow> string) \<Rightarrow> store_answers \<Rightarrow> string option \<Rightarrow> int number \<Rightarrow> bytes \<Rightarrow> store_file \<Rightarrow>
     (host_key_error + verdict) \<times> store_file" where
  "verifyOrPin lossy a hostname port blob d =
     (case knownHostsHostPattern hostname port of
        Inl e \<Rightarrow> (Inl e, d)
      | Inr pattern \<Rightarrow>
          (case hostKeyAlgorithmName lossy blob of
             None \<Rightarrow> (Inl Unusable_key, d)
           | Some algorithm \<Rightarrow>
               (case sa_lock a of
                  Some e \<Rightarrow> (Inl e, d)
                | None \<Rightarrow>
                    let presented = base64 blob;
                        (r, d') = (case load_store a d of
                          Inl e \<Rightarrow> (Inl e, d)
                        | Inr records \<Rightarrow>
                            (case obj_get records pattern of
                               Some (_, key) \<Rightarrow>
                                 (Inr (if key = presented then Matches else Mismatch key), d)
                             | None \<Rightarrow>
                                 (case appendPin a pattern algorithm presented d of
                                    (Inl e, d') \<Rightarrow> (Inl e, d')
                                  | (Inr _, d') \<Rightarrow> (Inr Pinned, d'))))
                    in (if sa_release a then Inl Release_failed else r, d'))))"

subsection \<open>The verifier\<close>

text \<open>
  What the client is told about a refused host: the label and one of two fixed explanations. The
  error behind it stays in the process.
\<close>

datatype host_key_rejection = Key_changed string | Key_unverifiable string host_key_error

definition createHostKeyVerifier ::
    "(bytes \<Rightarrow> string) \<Rightarrow> store_answers \<Rightarrow> string option \<Rightarrow> int number \<Rightarrow> bytes \<Rightarrow> store_file \<Rightarrow>
     (bool \<times> host_key_rejection option) \<times> store_file" where
  "createHostKeyVerifier lossy a hostname port key d =
     (case verifyOrPin lossy a hostname port key d of
        (Inr (Mismatch k), d') \<Rightarrow> ((False, Some (Key_changed (safeHostLabel hostname port))), d')
      | (Inr _, d') \<Rightarrow> ((True, None), d')
      | (Inl e, d') \<Rightarrow> ((False, Some (Key_unverifiable (safeHostLabel hostname port) e)), d'))"

subsection \<open>The lock file\<close>

text \<open>
  One round of the loop that takes the lock. The create answers first; when the file exists, what
  can be seen of it decides whether it is stale. The holder is alive when the signal 0 can be
  sent to it or is refused for lack of permission.
\<close>

datatype kill_answer = Kill_ok | Kill_eperm | Kill_gone

datatype lock_view =
  Lock_unreadable
| Lock_not_a_file
| Lock_file (lv_content: string) (lv_age: int) (lv_kill: kill_answer) (lv_removal_fails: bool)

datatype lock_try = Lock_created | Lock_refused | Lock_exists lock_view

record lock_round =
  lr_try :: lock_try
  lr_now :: int

definition LOCK_TIMEOUT_MS :: int where "LOCK_TIMEOUT_MS = 5000"
definition LOCK_POLL_MS :: int where "LOCK_POLL_MS = 25"
definition LOCK_STALE_MS :: int where "LOCK_STALE_MS = 60000"

definition isProcessAlive :: "int number \<Rightarrow> kill_answer \<Rightarrow> bool" where
  "isProcessAlive pid k = (case pid of Finite n \<Rightarrow> n > 0 \<and> k \<noteq> Kill_gone | _ \<Rightarrow> False)"

definition is_integer :: "int number \<Rightarrow> bool" where
  "is_integer n = (case n of Finite _ \<Rightarrow> True | _ \<Rightarrow> False)"

definition lock_stale :: "lock_view \<Rightarrow> bool" where
  "lock_stale v =
     (case v of
        Lock_file content age k _ \<Rightarrow>
          age > LOCK_STALE_MS \<or> is_integer (parse_int content) \<and> \<not> isProcessAlive (parse_int content) k
      | _ \<Rightarrow> False)"

definition removal_fails :: "lock_view \<Rightarrow> bool" where
  "removal_fails v = (case v of Lock_file _ _ _ f \<Rightarrow> f | _ \<Rightarrow> False)"

text \<open>
  The rounds are given as a list; \<open>None\<close> says that the loop is still running after the last of them.
\<close>

fun acquireLock :: "int \<Rightarrow> lock_round list \<Rightarrow> (host_key_error + unit) option" where
  "acquireLock deadline [] = None"
| "acquireLock deadline (r # rs) =
     (case lr_try r of
        Lock_created \<Rightarrow> Some (Inr ())
      | Lock_refused \<Rightarrow> Some (Inl Lock_failed)
      | Lock_exists v \<Rightarrow>
          if lock_stale v \<and> \<not> removal_fails v then acquireLock deadline rs
          else if lr_now r \<ge> deadline then Some (Inl Store_locked)
          else acquireLock deadline rs)"

end
