(* ===== verification/HostKeysProps.thy ===== *)
theory HostKeysProps
  imports HostKeys
begin

section \<open>The host-key store: records, torn writes, first key wins\<close>

subsection \<open>Fields and lines\<close>

definition word_ok :: "string \<Rightarrow> bool" where
  "word_ok w \<longleftrightarrow> w \<noteq> [] \<and> (\<forall>c \<in> set w. \<not> is_space c)"

lemma newline_is_space [simp]: "is_space newline_char"
  by (simp add: newline_char_def is_space_def)

lemma blank_is_space [simp]: "is_space CHR '' ''"
  by (simp add: is_space_def)

lemma word_no_newline: "word_ok w \<Longrightarrow> newline_char \<notin> set w"
  using newline_is_space by (auto simp: word_ok_def)

lemma split_words_word: "word_ok w \<Longrightarrow> split_words w = [w]"
  by (simp add: split_words_def word_ok_def split_by_no_sep)

lemma split_words_cons:
  "word_ok w \<Longrightarrow> is_space c \<Longrightarrow> split_words (w @ c # s) = w # split_words s"
  by (simp add: split_words_def word_ok_def split_by_append)

lemma split_words_record:
  "word_ok p \<Longrightarrow> word_ok a \<Longrightarrow> word_ok k \<Longrightarrow> split_words (record_line p a k) = [p, a, k]"
  by (simp add: record_line_def split_words_cons split_words_word)

lemma split_words_trim_start: "split_words (trim_start s) = split_words s"
  by (induction s) (auto simp: trim_start_def split_words_def)

lemma split_by_cat: "p c \<Longrightarrow> split_by p (v @ c # w) = split_by p v @ split_by p w"
proof (induction v)
  case (Cons a v)
  obtain x xs where "split_by p v = x # xs" by (metis neq_Nil_conv split_by_ne)
  with Cons show ?case by auto
qed simp

lemma split_words_append_space: "is_space c \<Longrightarrow> split_words (s @ [c]) = split_words s"
  by (simp add: split_words_def split_by_cat)

lemma split_words_trim: "split_words (trim s) = split_words s"
proof -
  have "split_words (trim_end s) = split_words s" for s
  proof (induction s rule: rev_induct)
    case (snoc c s)
    then show ?case by (cases "is_space c") (auto simp: trim_end_def split_words_append_space)
  qed (simp add: trim_end_def)
  then show ?thesis by (simp add: trim_def split_words_trim_start)
qed

lemma trimmed_record:
  assumes "word_ok p" "word_ok k" shows "trimmed (record_line p a k)"
proof -
  have "hd (record_line p a k) \<in> set p" "last (record_line p a k) \<in> set k"
    using assms by (auto simp: record_line_def word_ok_def)
  with assms show ?thesis by (auto simp: trimmed_def word_ok_def)
qed

subsection \<open>Reading the lines\<close>

lemma load_lines_append:
  "load_lines i (xs @ ys) m =
     (case load_lines i xs m of Inl e \<Rightarrow> Inl e | Inr m' \<Rightarrow> load_lines (i + length xs) ys m')"
  by (induction i xs m rule: load_lines.induct) (auto simp: Let_def split: sum.split)

lemma load_blank: "load_lines i [[]] m = Inr m"
  by (simp add: trim_def trim_start_def trim_end_def)

text \<open>The lines of a file up to the place where the next record goes.\<close>

definition lines_before :: "string \<Rightarrow> string list" where
  "lines_before s = (if s = [] then [] else if last s = newline_char then split_on newline_char (butlast s)
     else split_on newline_char s)"

definition separator :: "string \<Rightarrow> string" where
  "separator s = (if s \<noteq> [] \<and> last s \<noteq> newline_char then [newline_char] else [])"

lemma split_tail:
  assumes "newline_char \<notin> set l"
  shows "split_on newline_char (s @ separator s @ l) = lines_before s @ [l]"
proof -
  have l: "split_on newline_char l = [l]"
    using split_by_no_sep[of l "\<lambda>x. x = newline_char"] assms by auto
  show ?thesis
  proof (cases "s = [] \<or> last s \<noteq> newline_char")
    case True
    then show ?thesis
      using l split_on_cat[of newline_char s l] by (auto simp: separator_def lines_before_def)
  next
    case False
    then obtain t where s: "s = t @ [newline_char]" by (metis append_butlast_last_id)
    then show ?thesis
      using l split_on_cat[of newline_char t l] by (simp add: separator_def lines_before_def)
  qed
qed

lemma load_split: "load_lines 0 (split_on newline_char s) m = load_lines 0 (lines_before s) m"
proof (cases "s \<noteq> [] \<and> last s = newline_char")
  case True
  then obtain t where s: "s = t @ [newline_char]" by (metis append_butlast_last_id)
  have "split_on newline_char s = lines_before s @ [[]]"
    using split_on_cat[of newline_char t "[]"] by (simp add: s lines_before_def)
  moreover have "load_lines i [[]] m' = Inr m'" for i m'
    by (simp add: trim_def trim_start_def trim_end_def)
  ultimately show ?thesis by (simp only: load_lines_append) (simp split: sum.split)
qed (auto simp: lines_before_def trim_def trim_start_def trim_end_def)

lemma decode_last:
  assumes "utf8_decode b = Some s"
  shows "(b = [] \<longleftrightarrow> s = []) \<and> (b \<noteq> [] \<longrightarrow> (last b = newline_char \<longleftrightarrow> last s = newline_char))"
  using assms
proof (induction b arbitrary: s rule: utf8_decode.induct)
  case (2 x xs)
  show ?case
  proof (cases "value_of x < 128")
    case True
    then obtain t where "utf8_decode xs = Some t" "s = x # t" using "2.prems" by auto
    with 2(1)[OF True] show ?thesis by (cases xs; cases t) auto
  next
    case False
    then obtain c cs t where xs: "xs = c # cs" "128 \<le> value_of c" "value_of c < 192"
      "utf8_decode cs = Some t" "s = byte ((value_of x - 192) * 64 + (value_of c - 128)) # t"
      "value_of x = 194 \<or> value_of x = 195"
      using "2.prems" by (auto split: list.splits if_splits)
    have nl: "value_of newline_char = 10" by (simp add: newline_char_def)
    have "c \<noteq> newline_char" using xs(2) nl by auto
    moreover have "value_of (byte ((value_of x - 192) * 64 + (value_of c - 128))) \<noteq> 10" using xs by auto
    then have "byte ((value_of x - 192) * 64 + (value_of c - 128)) \<noteq> newline_char" using nl by metis
    moreover have "(cs = [] \<longleftrightarrow> t = []) \<and> (cs \<noteq> [] \<longrightarrow> (last cs = newline_char \<longleftrightarrow> last t = newline_char))"
      using 2(2)[OF False xs(1)] xs by auto
    ultimately show ?thesis using xs by (cases cs; cases t) auto
  qed
qed simp

lemma needs_separator_text:
  "utf8_decode b = Some s \<Longrightarrow> (if needs_separator b then [newline_char] else []) = separator s"
  using decode_last[of b s] by (auto simp: needs_separator_def separator_def)

lemma decode_payload:
  "utf8_decode b = Some s \<Longrightarrow>
   utf8_decode (b @ pin_payload b p a k) = Some (s @ separator s @ record_line p a k @ [newline_char])"
  by (simp add: pin_payload_def utf8_decode_append needs_separator_text utf8_roundtrip del: utf8_encode_simps)

text \<open>A complete record is read back.\<close>

lemma load_record:
  assumes "word_ok p" "word_ok a" "word_ok k" "CHR ''#'' \<notin> set p"
  shows "load_lines i [record_line p a k, []] m = Inr (obj_set p (a, k) m)"
proof -
  have "trim (record_line p a k) = record_line p a k" using assms by (simp add: trim_trimmed_id trimmed_record)
  moreover have "record_line p a k \<noteq> []" by (simp add: record_line_def)
  moreover have "\<not> starts_with ''#'' (record_line p a k)"
    using assms by (cases p) (auto simp: record_line_def word_ok_def)
  moreover have "load_lines j [[]] m' = Inr m'" for j m'
    by (simp add: trim_def trim_start_def trim_end_def)
  ultimately show ?thesis using split_words_record[OF assms(1-3)] by (simp add: Let_def del: load_lines.simps(1))
qed

lemma parse_append:
  assumes "parse_store b = Inr m" "word_ok p" "word_ok a" "word_ok k" "CHR ''#'' \<notin> set p"
  shows "parse_store (b @ pin_payload b p a k) = Inr (obj_set p (a, k) m)"
proof -
  obtain s where s: "utf8_decode b = Some s" "load_lines 0 (split_on newline_char s) [] = Inr m"
    using assms(1) by (auto simp: parse_store_def split: option.splits)
  have "newline_char \<notin> set (record_line p a k)"
    using assms word_no_newline by (auto simp: record_line_def newline_char_def)
  then have "split_on newline_char ((s @ separator s @ record_line p a k) @ newline_char # [])
      = lines_before s @ [record_line p a k, []]"
    using split_tail[of "record_line p a k" s] by (simp only: split_on_cat) simp
  moreover have "load_lines 0 (lines_before s) [] = Inr m" using s(2) by (simp add: load_split)
  ultimately show ?thesis
    using load_record[OF assms(2-5)] decode_payload[OF s(1), of p a k]
    by (simp add: parse_store_def load_lines_append del: load_lines.simps)
qed

subsection \<open>Torn records\<close>

lemma decode_prefix: "utf8_decode (take n (utf8_encode t)) = Some u \<Longrightarrow> \<exists>k. u = take k t"
proof (induction t arbitrary: n u)
  case (Cons c t)
  show ?case
  proof (cases "value_of c < 128")
    case True
    show ?thesis
    proof (cases n)
      case (Suc n')
      then obtain v where "utf8_decode (take n' (utf8_encode t)) = Some v" "u = c # v"
        using Cons.prems True by (auto simp: utf8_char_def)
      with Cons.IH show ?thesis by (metis take_Suc_Cons)
    qed (use Cons.prems in \<open>auto intro: exI[of _ 0]\<close>)
  next
    case False
    have lt: "value_of c div 64 < 4" using of_char_less[of c] by (simp add: div_less_iff_less_mult)
    show ?thesis
    proof (cases n)
      case (Suc n')
      show ?thesis
      proof (cases n')
        case 0
        with Suc Cons.prems False lt show ?thesis by (auto simp: utf8_char_def)
      next
        case (Suc n'')
        have "utf8_decode (take n (utf8_encode (c # t))) =
            utf8_decode (utf8_encode [c] @ take n'' (utf8_encode t))"
          using \<open>n = Suc n'\<close> Suc False by (simp add: utf8_char_def)
        then obtain v where "utf8_decode (take n'' (utf8_encode t)) = Some v" "u = c # v"
          using Cons.prems unfolding utf8_roundtrip_append by auto
        with Cons.IH show ?thesis by (metis take_Suc_Cons)
      qed
    qed (use Cons.prems in \<open>auto intro: exI[of _ 0]\<close>)
  qed
qed (auto intro: exI[of _ 0])

text \<open>A line that begins like a record and has three fields is a record of the same host.\<close>

lemma split_words_prefix:
  assumes "word_ok p" "3 \<le> length (split_words (take k (p @ CHR '' '' # r)))"
  shows "split_words (take k (p @ CHR '' '' # r)) ! 0 = p"
proof (cases "k \<le> length p")
  case True
  then have "take k (p @ CHR '' '' # r) = take k p" by simp
  moreover have "length (split_words (take k p)) \<le> 1"
  proof (cases "take k p = []")
    case False
    moreover have "\<forall>c \<in> set (take k p). \<not> is_space c"
      using assms(1) by (auto simp: word_ok_def dest: in_set_takeD)
    ultimately have "word_ok (take k p)" by (simp add: word_ok_def)
    then show ?thesis by (simp add: split_words_word)
  qed (simp only:, simp add: split_words_def)
  ultimately show ?thesis using assms(2) by simp
next
  case False
  then obtain j where "k = length p + Suc j" by (metis add_Suc_right less_imp_Suc_add not_le)
  then have "take k (p @ CHR '' '' # r) = p @ CHR '' '' # take j r" by simp
  then show ?thesis using assms(1) by (simp only: split_words_cons blank_is_space) simp
qed

lemma load_torn_line:
  assumes "word_ok p" "load_lines i [take k (p @ CHR '' '' # r)] m = Inr m'"
  shows "m' = m \<or> (\<exists>v. m' = obj_set p v m)"
  using assms(2) split_words_prefix[OF assms(1), of k r]
  by (auto simp: Let_def split_words_trim split: if_splits)

lemma parse_torn:
  assumes b: "parse_store b = Inr m" and p: "word_ok p" "word_ok a" "word_ok k" "CHR ''#'' \<notin> set p"
    and t: "parse_store (b @ take n (pin_payload b p a k)) = Inr m'"
  shows "m' = m \<or> (\<exists>v. m' = obj_set p v m)"
proof -
  obtain s where s: "utf8_decode b = Some s" "load_lines 0 (lines_before s) [] = Inr m"
    using b by (auto simp: parse_store_def load_split split: option.splits)
  let ?l = "record_line p a k" and ?sep = "separator s"
  obtain u where u: "utf8_decode (take n (pin_payload b p a k)) = Some u"
    using t by (auto simp: parse_store_def utf8_decode_append[OF s(1)] split: option.splits)
  then obtain j where j: "u = take j (?sep @ ?l @ [newline_char])"
    using decode_prefix unfolding pin_payload_def needs_separator_text[OF s(1)] by blast
  have load: "load_lines 0 (split_on newline_char (s @ u)) [] = Inr m'"
    using t u by (auto simp: parse_store_def utf8_decode_append[OF s(1)])
  have l: "newline_char \<notin> set ?l"
    using p word_no_newline by (auto simp: record_line_def newline_char_def)
  show ?thesis
  proof (cases "u = [] \<and> ?sep \<noteq> []")
    case True
    then show ?thesis using load s(2) by (simp add: load_split)
  next
    case False
    show ?thesis
    proof (cases "length ?sep + length ?l < j")
      case True
      then have "u = ?sep @ ?l @ [newline_char]" using j by simp
      then have "parse_store (b @ pin_payload b p a k) = Inr m'"
        using load decode_payload[OF s(1), of p a k] by (simp add: parse_store_def)
      then show ?thesis using parse_append[OF b p] by auto
    next
      case short: False
      have "u = ?sep @ take (j - length ?sep) ?l"
      proof (cases "?sep = []")
        case False
        then have "length ?sep = 1" by (simp add: separator_def split: if_splits)
        moreover have "j \<noteq> 0" using \<open>\<not> (u = [] \<and> ?sep \<noteq> [])\<close> j False by auto
        ultimately show ?thesis using short unfolding j by (cases j) auto
      qed (use short j in auto)
      moreover have "newline_char \<notin> set (take (j - length ?sep) ?l)" using l by (auto dest: in_set_takeD)
      ultimately have "split_on newline_char (s @ u) = lines_before s @ [take (j - length ?sep) ?l]"
        using split_tail by simp
      with load s(2) have "load_lines (length (lines_before s)) [take (j - length ?sep) (p @ CHR '' '' # (a @ '' '' @ k))] m = Inr m'"
        by (simp add: load_lines_append record_line_def del: load_lines.simps)
      then show ?thesis using load_torn_line[OF p(1)] by blast
    qed
  qed
qed

subsection \<open>Patterns\<close>

lemma show_int_safe: "c \<in> set (show_int n) \<Longrightarrow> \<not> is_space c \<and> c \<noteq> CHR ''#''"
  using show_int_chars[of c n] by (auto simp: digit_def is_space_def)

lemma pattern_cases:
  assumes "knownHostsHostPattern h p = Inr q"
  obtains name n where "name = trim (coalesce h [])" "name \<noteq> []" "list_all (\<lambda>c. \<not> unsafe_hostname_char c) name"
    "p = Finite n" "1 \<le> n" "n \<le> 65535" "q = (if n = 22 then name else ''['' @ name @ '']:'' @ show_int n)"
  using assms
  by (auto simp: knownHostsHostPattern_def Let_def list_all_iff list_ex_iff split: if_splits number.splits)

lemma pattern_word:
  assumes "knownHostsHostPattern h p = Inr q" shows "word_ok q \<and> CHR ''#'' \<notin> set q"
proof -
  obtain name n where q: "name \<noteq> []" "list_all (\<lambda>c. \<not> unsafe_hostname_char c) name" "1 \<le> n"
    "q = (if n = 22 then name else ''['' @ name @ '']:'' @ show_int n)"
    using assms by (rule pattern_cases) blast
  have "\<forall>c \<in> set name. \<not> is_space c \<and> c \<noteq> CHR ''#''"
    using q(2) by (auto simp: list_all_iff unsafe_hostname_char_def)
  moreover have "\<forall>c \<in> set (show_int n). \<not> is_space c \<and> c \<noteq> CHR ''#''"
    using show_int_safe by blast
  ultimately show ?thesis using q(1,4) by (auto simp: word_ok_def is_space_def)
qed

lemma bracket_name: "CHR ''['' \<notin> set name \<Longrightarrow> name \<noteq> CHR ''['' # x \<and> CHR ''['' # x \<noteq> name"
  by auto

text \<open>
  Without brackets in the names, a pattern belongs to one host and port. (A name \<open>[h]:2222\<close> on port
  22 has the pattern of \<open>h\<close> on port 2222.)
\<close>

lemma pattern_identifies_host:
  assumes "knownHostsHostPattern h p = Inr q" "knownHostsHostPattern h' p' = Inr q"
    and "CHR ''['' \<notin> set (coalesce h [])" "CHR ''['' \<notin> set (coalesce h' [])"
    and "CHR '']'' \<notin> set (coalesce h [])" "CHR '']'' \<notin> set (coalesce h' [])"
  shows "trim (coalesce h []) = trim (coalesce h' []) \<and> p = p'"
proof -
  obtain n where 1: "trim (coalesce h []) \<noteq> []" "p = Finite n" "1 \<le> n"
    "q = (if n = 22 then trim (coalesce h []) else ''['' @ trim (coalesce h []) @ '']:'' @ show_int n)" "n \<le> 65535"
    using assms(1) by (rule pattern_cases) blast
  obtain n' where 2: "trim (coalesce h' []) \<noteq> []" "p' = Finite n'" "1 \<le> n'"
    "q = (if n' = 22 then trim (coalesce h' []) else ''['' @ trim (coalesce h' []) @ '']:'' @ show_int n')" "n' \<le> 65535"
    using assms(2) by (rule pattern_cases) blast
  have sub: "set (trim s) \<subseteq> set s" for s
    by (auto simp: trim_def trim_start_def trim_end_def dest!: set_dropWhileD)
  have nb: "CHR ''['' \<notin> set (trim (coalesce h []))" "CHR ''['' \<notin> set (trim (coalesce h' []))"
    "CHR '']'' \<notin> set (trim (coalesce h []))" "CHR '']'' \<notin> set (trim (coalesce h' []))"
    using sub assms(3-6) by blast+
  have iff: "n = 22 \<longleftrightarrow> n' = 22"
  proof
    assume "n = 22"
    with 1(4) 2(4) bracket_name[OF nb(1)] show "n' = 22" by (auto split: if_splits)
  next
    assume "n' = 22"
    with 1(4) 2(4) bracket_name[OF nb(2)] show "n = 22" by (auto split: if_splits)
  qed
  show ?thesis
  proof (cases "n = 22")
    case False
    then have eq: "trim (coalesce h []) @ CHR '']'' # CHR '':'' # show_int n = trim (coalesce h' []) @ CHR '']'' # CHR '':'' # show_int n'"
      using 1(4) 2(4) iff by simp
    have split: "split_on CHR '']'' (w @ CHR '']'' # x) = w # split_on CHR '']'' x" if "CHR '']'' \<notin> set w" for w x
      using split_on_append[OF that] .
    have "trim (coalesce h []) = trim (coalesce h' [])"
      using arg_cong[OF eq, of "split_on CHR '']''"] unfolding split[OF nb(3)] split[OF nb(4)] by simp
    moreover from this eq have "show_int n = show_int n'" by simp
    then have "n = n'" using 1(3,5) 2(3,5) by (intro show_int_inj) (auto simp: safe_integer_def)
    ultimately show ?thesis using 1 2 by simp
  qed (use 1 2 iff in auto)
qed

subsection \<open>The first accepted key\<close>

text \<open>The algorithm name can be a field of a line.\<close>

definition algorithm_clean :: "(bytes \<Rightarrow> string) \<Rightarrow> bytes \<Rightarrow> bool" where
  "algorithm_clean lossy blob \<longleftrightarrow>
     (case hostKeyAlgorithmName lossy blob of None \<Rightarrow> True | Some a \<Rightarrow> word_ok a)"

definition accepts :: "host_key_error + verdict \<Rightarrow> bool" where
  "accepts r \<longleftrightarrow> r = Inr Pinned \<or> r = Inr Matches"

definition pins :: "string \<Rightarrow> string \<Rightarrow> store_file \<Rightarrow> bool" where
  "pins pattern key d \<longleftrightarrow> (\<exists>b m a. d = Regular b \<and> parse_store b = Inr m \<and> obj_get m pattern = Some (a, key))"

definition broken :: "store_file \<Rightarrow> bool" where
  "broken d \<longleftrightarrow> (\<exists>b e. d = Regular b \<and> parse_store b = Inl e)"

lemma base64_word: "blob \<noteq> [] \<Longrightarrow> word_ok (base64 blob)"
  using base64_chars by (auto simp: word_ok_def)

lemma algorithm_blob: "hostKeyAlgorithmName lossy blob = Some a \<Longrightarrow> blob \<noteq> []"
  by (auto simp: hostKeyAlgorithmName_def)

lemma parse_empty: "parse_store [] = Inr []"
  by (simp add: parse_store_def trim_def trim_start_def trim_end_def)

lemma load_store_bytes:
  assumes "load_store a d = Inr m" shows "parse_store (file_bytes d) = Inr m \<and> (d = Missing \<or> d = Regular (file_bytes d))"
  using assms parse_empty by (auto simp: load_store_def file_bytes_def split: store_file.splits if_splits)

lemma appendPin_file:
  assumes "appendPin a p alg k d = (r, d')" "d \<noteq> Symlink" "d \<noteq> Special"
  shows "(d' = d \<and> r \<noteq> Inr ()) \<or>
    (\<exists>n. d' = Regular (file_bytes d @ take n (pin_payload (file_bytes d) p alg k)) \<and>
      (r = Inr () \<longrightarrow> length (pin_payload (file_bytes d) p alg k) \<le> n))"
proof (cases "sa_dir a \<or> sa_open a")
  case True
  with assms show ?thesis by (auto simp: appendPin_def Let_def split: if_splits)
next
  case open_ok: False
  show ?thesis
  proof (cases "sa_tail a \<or> sa_write a = None")
    case True
    with assms open_ok have "d' = Regular (file_bytes d @ take 0 (pin_payload (file_bytes d) p alg k)) \<and> r \<noteq> Inr ()"
      by (auto simp: appendPin_def Let_def split: if_splits)
    then show ?thesis by blast
  next
    case False
    then obtain n where "sa_write a = Some n" "\<not> sa_tail a" by auto
    with assms open_ok have "d' = Regular (file_bytes d @ take n (pin_payload (file_bytes d) p alg k)) \<and>
        (r = Inr () \<longrightarrow> length (pin_payload (file_bytes d) p alg k) \<le> n)"
      by (auto simp: appendPin_def Let_def split: if_splits)
    then show ?thesis by blast
  qed
qed

text \<open>What one call of \<open>verifyOrPin\<close> does to the file: nothing, or it appends a part of a record.\<close>

lemma verifyOrPin_file:
  assumes "verifyOrPin lossy a h p blob d = (r, d')"
  obtains (same) "d' = d" "r \<noteq> Inr Pinned"
  | (append) pattern algorithm m n where "knownHostsHostPattern h p = Inr pattern"
      "hostKeyAlgorithmName lossy blob = Some algorithm" "load_store a d = Inr m" "obj_get m pattern = None"
      "d' = Regular (file_bytes d @ take n (pin_payload (file_bytes d) pattern algorithm (base64 blob)))"
      "r = Inr Pinned \<longrightarrow> length (pin_payload (file_bytes d) pattern algorithm (base64 blob)) \<le> n" "r \<noteq> Inr Matches"
proof (cases "\<exists>pattern algorithm m. knownHostsHostPattern h p = Inr pattern \<and>
    hostKeyAlgorithmName lossy blob = Some algorithm \<and> sa_lock a = None \<and> load_store a d = Inr m \<and> obj_get m pattern = None")
  case False
  have "d' = d \<and> r \<noteq> Inr Pinned"
    using assms False
    by (auto simp: verifyOrPin_def Let_def split: sum.splits option.splits if_splits)
  then show thesis using same by blast
next
  case True
  then obtain pattern algorithm m where T: "knownHostsHostPattern h p = Inr pattern"
    "hostKeyAlgorithmName lossy blob = Some algorithm" "sa_lock a = None" "load_store a d = Inr m" "obj_get m pattern = None"
    by blast
  obtain r1 d1 where A: "appendPin a pattern algorithm (base64 blob) d = (r1, d1)" by fastforce
  have d: "d \<noteq> Symlink" "d \<noteq> Special" using T(4) by (auto simp: load_store_def)
  have r: "d' = d1" "r = (if sa_release a then Inl Release_failed else case r1 of Inl e \<Rightarrow> Inl e | Inr _ \<Rightarrow> Inr Pinned)"
    using assms T A by (auto simp: verifyOrPin_def split: sum.splits)
  from appendPin_file[OF A d] show thesis
  proof (elim disjE exE conjE)
    assume "d1 = d" "r1 \<noteq> Inr ()"
    then have "r \<noteq> Inr Pinned" using r(2) by (auto split: sum.splits if_splits)
    then show thesis using same r \<open>d1 = d\<close> by blast
  next
    fix n
    assume n: "d1 = Regular (file_bytes d @ take n (pin_payload (file_bytes d) pattern algorithm (base64 blob)))"
      "r1 = Inr () \<longrightarrow> length (pin_payload (file_bytes d) pattern algorithm (base64 blob)) \<le> n"
    have "r = Inr Pinned \<longrightarrow> r1 = Inr ()" "r \<noteq> Inr Matches" using r(2) by (auto split: sum.splits if_splits)
    then show thesis using append[OF T(1,2,4,5)] n r(1) by blast
  qed
qed

lemma verify_keeps_pin:
  assumes v: "verifyOrPin lossy a h p blob d = (r, d')" and clean: "algorithm_clean lossy blob"
    and pins: "pins q key d \<or> broken d"
  shows "pins q key d' \<or> broken d'"
  using v
proof (cases rule: verifyOrPin_file)
  case same
  with pins show ?thesis by simp
next
  case (append pattern algorithm m n)
  note b = load_store_bytes[OF append(3)]
  with pins obtain b' v where d: "d = Regular b'" "parse_store b' = Inr m" "obj_get m q = Some (v, key)"
    by (auto simp: pins_def broken_def file_bytes_def)
  have w: "word_ok pattern" "CHR ''#'' \<notin> set pattern" "word_ok algorithm" "word_ok (base64 blob)"
    using pattern_word[OF append(1)] clean append(2) algorithm_blob[OF append(2)] base64_word
    by (auto simp: algorithm_clean_def)
  have q: "q \<noteq> pattern" using append(4) d(3) by auto
  let ?b = "b' @ take n (pin_payload b' pattern algorithm (base64 blob))"
  have d': "d' = Regular ?b" using append(5) d(1) by (simp add: file_bytes_def)
  show ?thesis
  proof (cases "parse_store ?b")
    case (Inl e)
    then show ?thesis using d' by (auto simp: broken_def)
  next
    case (Inr m')
    from parse_torn[OF d(2) w(1,3,4,2) Inr] have "obj_get m' q = obj_get m q"
      using q by (auto simp: obj_get_set)
    then show ?thesis using d(3) Inr d' by (auto simp: pins_def)
  qed
qed

lemma accepted_is_pinned:
  assumes v: "verifyOrPin lossy a h p blob d = (r, d')" and clean: "algorithm_clean lossy blob" and r: "accepts r"
  obtains pattern where "knownHostsHostPattern h p = Inr pattern" "pins pattern (base64 blob) d'"
  using v
proof (cases rule: verifyOrPin_file)
  case same
  then have "r = Inr Matches" using r by (auto simp: accepts_def)
  with v same obtain pattern m x where m: "knownHostsHostPattern h p = Inr pattern" "load_store a d = Inr m"
    "obj_get m pattern = Some (x, base64 blob)"
    by (auto simp: verifyOrPin_def Let_def split: sum.splits option.splits prod.splits if_splits)
  moreover have "d = Regular (file_bytes d)" "parse_store (file_bytes d) = Inr m"
    using load_store_bytes[OF m(2)] m(2,3) by (auto simp: load_store_def split: if_splits)
  ultimately show thesis using that[of pattern] same by (auto simp: pins_def)
next
  case (append pattern algorithm m n)
  then have "r = Inr Pinned" using r by (auto simp: accepts_def)
  with append(5,6) have d': "d' = Regular (file_bytes d @ pin_payload (file_bytes d) pattern algorithm (base64 blob))"
    by simp
  have w: "word_ok pattern" "CHR ''#'' \<notin> set pattern" "word_ok algorithm" "word_ok (base64 blob)"
    using pattern_word[OF append(1)] clean append(2) algorithm_blob[OF append(2)] base64_word
    by (auto simp: algorithm_clean_def)
  have "parse_store (file_bytes d) = Inr m" using load_store_bytes[OF append(3)] by blast
  from parse_append[OF this w(1,3,4,2)] d' have "pins pattern (base64 blob) d'"
    by (auto simp: pins_def)
  then show thesis using that append(1) by blast
qed

text \<open>
  What may happen to the file between two connections to a host: connections to any host, with any
  answers of the operating system, and complete records that another program appends for other
  hosts.
\<close>

inductive store_step :: "(bytes \<Rightarrow> string) \<Rightarrow> string \<Rightarrow> store_file \<Rightarrow> store_file \<Rightarrow> bool" for lossy q where
  verify: "algorithm_clean lossy blob \<Longrightarrow> store_step lossy q d (snd (verifyOrPin lossy a h p blob d))"
| other: "word_ok p \<Longrightarrow> word_ok alg \<Longrightarrow> word_ok k \<Longrightarrow> CHR ''#'' \<notin> set p \<Longrightarrow> p \<noteq> q \<Longrightarrow>
    store_step lossy q (Regular b) (Regular (b @ pin_payload b p alg k))"

lemma decode_None_append:
  assumes "utf8_decode b = None" "b \<noteq> [] \<and> value_of (last b) < 128 \<or> x = [] \<or> value_of (hd x) < 128"
  shows "utf8_decode (b @ x) = None"
  using assms
proof (induction b rule: utf8_decode.induct)
  case (2 y ys)
  show ?case
  proof (cases "value_of y < 128")
    case True
    with 2 show ?thesis by (cases ys) (auto split: if_splits)
  next
    case False
    show ?thesis
    proof (cases ys)
      case Nil
      with False "2.prems" show ?thesis by (cases x) auto
    next
      case (Cons c cs)
      with False 2 show ?thesis by (cases cs) (auto split: if_splits)
    qed
  qed
qed simp

lemma payload_head:
  "(b \<noteq> [] \<and> value_of (last b) < 128) \<or> b = [] \<or> value_of (hd (pin_payload b p a k)) < 128"
  by (auto simp: pin_payload_def needs_separator_def newline_char_def utf8_char_def)

lemma load_lines_error: "load_lines i xs m = Inl e \<Longrightarrow> load_lines i (xs @ ys) m = Inl e"
  by (simp add: load_lines_append)

lemma broken_append:
  assumes "parse_store b = Inl e" "word_ok p" "word_ok a" "word_ok k"
  shows "\<exists>e. parse_store (b @ pin_payload b p a k) = Inl e"
proof (cases "utf8_decode b")
  case None
  then have "utf8_decode (b @ pin_payload b p a k) = None"
    using decode_None_append[OF None, of "pin_payload b p a k"] payload_head[of b p a k] by auto
  then show ?thesis by (simp add: parse_store_def)
next
  case (Some s)
  then have e: "load_lines 0 (lines_before s) [] = Inl e"
    using assms(1) by (simp add: parse_store_def load_split)
  have "newline_char \<notin> set (record_line p a k)"
    using assms word_no_newline by (auto simp: record_line_def newline_char_def)
  then have "split_on newline_char ((s @ separator s @ record_line p a k) @ newline_char # [])
      = lines_before s @ [record_line p a k, []]"
    using split_tail[of "record_line p a k" s] by (simp only: split_on_cat) simp
  then show ?thesis
    using load_lines_error[OF e] decode_payload[OF Some, of p a k] by (simp add: parse_store_def)
qed

lemma step_keeps_pin:
  assumes "store_step lossy q d d'" "pins q key d \<or> broken d" shows "pins q key d' \<or> broken d'"
  using assms
proof (induction rule: store_step.induct)
  case (verify blob d a h p)
  then show ?case using verify_keeps_pin[of lossy a h p blob d] by (metis prod.collapse)
next
  case (other p alg k b)
  then show ?case
  proof (elim disjE)
    assume "pins q key (Regular b)"
    then obtain m v where m: "parse_store b = Inr m" "obj_get m q = Some (v, key)" by (auto simp: pins_def)
    with parse_append[OF m(1) other(1-4)] other(5) show ?thesis by (auto simp: pins_def obj_get_set)
  next
    assume "broken (Regular b)"
    then show ?thesis using broken_append other(1-3) by (fastforce simp: broken_def)
  qed
qed

text \<open>C7: Trust on first use, for keys whose algorithm name is a word (no white space in it): once a connection to
  a host has been accepted with such a key, no later connection to that host is accepted with another such
  key, whatever connections to other hosts and failures of reads and writes, torn records included, come
  between, and although other programs append records of other hosts to the same file. For a key whose
  algorithm name holds a line feed this is false: its record forges a second one.\<close>

theorem first_accepted_key_wins:
  assumes "fst (verifyOrPin lossy a h p blob d) = v" "accepts v"
    and "knownHostsHostPattern h p = Inr q" "knownHostsHostPattern h' p' = Inr q"
    and "(store_step lossy q)\<^sup>*\<^sup>* (snd (verifyOrPin lossy a h p blob d)) d'"
    and "accepts (fst (verifyOrPin lossy a' h' p' blob' d'))"
    and "algorithm_clean lossy blob" "algorithm_clean lossy blob'"
  shows "blob' = blob"
proof -
  let ?d1 = "snd (verifyOrPin lossy a h p blob d)" and ?d2 = "snd (verifyOrPin lossy a' h' p' blob' d')"
  have "verifyOrPin lossy a h p blob d = (v, ?d1)" using assms(1) by (metis prod.collapse)
  from accepted_is_pinned[OF this assms(7,2)] have "pins q (base64 blob) ?d1"
    using assms(3) by (metis sum.inject(2))
  moreover have "pins q key d' \<or> broken d'" if "pins q key ?d1" for key
    using assms(5) that by (induction rule: rtranclp_induct) (auto dest: step_keeps_pin)
  ultimately have d': "pins q (base64 blob) d' \<or> broken d'" by blast
  have v2: "verifyOrPin lossy a' h' p' blob' d' = (fst (verifyOrPin lossy a' h' p' blob' d'), ?d2)" by simp
  from verify_keeps_pin[OF v2 assms(8) d'] have d2: "pins q (base64 blob) ?d2 \<or> broken ?d2" .
  from accepted_is_pinned[OF v2 assms(8,6)] have "pins q (base64 blob') ?d2"
    using assms(4) by (metis sum.inject(2))
  with d2 have "base64 blob' = base64 blob" by (auto simp: pins_def broken_def)
  then show ?thesis by (rule base64_inj)
qed

definition fine :: store_answers where
  "fine = \<lparr>sa_lock = None, sa_read = False, sa_dir = False, sa_open = False, sa_tail = False,
     sa_write = Some 1000, sa_sync = False, sa_release = False\<rparr>"

definition sample_key :: "string \<Rightarrow> bytes" where
  "sample_key rest = map byte [0, 0, 0, 11] @ ''ssh-ed25519'' @ rest"

lemma first_accepted_key_wins_witness:
  "\<not> accepts (fst (verifyOrPin id fine (Some ''db'') (Finite 22) (sample_key ''B'')
     (snd (verifyOrPin id fine (Some ''db'') (Finite 22) (sample_key ''A'') Missing))))"
proof
  assume "accepts (fst (verifyOrPin id fine (Some ''db'') (Finite 22) (sample_key ''B'')
     (snd (verifyOrPin id fine (Some ''db'') (Finite 22) (sample_key ''A'') Missing))))"
  moreover have "fst (verifyOrPin id fine (Some ''db'') (Finite 22) (sample_key ''A'') Missing) = Inr Pinned"
    by code_simp
  moreover have "knownHostsHostPattern (Some ''db'') (Finite 22) = Inr ''db''" by code_simp
  moreover have "algorithm_clean id (sample_key ''A'')" "algorithm_clean id (sample_key ''B'')"
    unfolding algorithm_clean_def word_ok_def by code_simp+
  ultimately have "sample_key ''B'' = sample_key ''A''"
    using first_accepted_key_wins[of id fine "Some ''db''" "Finite 22" "sample_key ''A''" Missing "Inr Pinned" "''db''"
      "Some ''db''" "Finite 22"] by (auto simp: accepts_def)
  then show False by (simp add: sample_key_def)
qed

subsection \<open>Waiting for the lock\<close>

definition waits :: "lock_round \<Rightarrow> bool" where
  "waits r \<longleftrightarrow> (case lr_try r of Lock_exists v \<Rightarrow> \<not> (lock_stale v \<and> \<not> removal_fails v) | _ \<Rightarrow> False)"

text \<open>The loop sleeps before the next round whenever it neither got nor removed the lock.\<close>

definition polled :: "int \<Rightarrow> lock_round list \<Rightarrow> bool" where
  "polled start rs \<longleftrightarrow>
     (\<forall>i < length (filter waits rs). start + LOCK_POLL_MS * int i \<le> lr_now (filter waits rs ! i))"

lemma acquireLock_None:
  "acquireLock deadline rs = None \<Longrightarrow> \<forall>r \<in> set (filter waits rs). lr_now r < deadline"
  by (induction deadline rs rule: acquireLock.induct) (auto simp: waits_def split: lock_try.splits if_splits)

text \<open>the wait for the lock of the host-key store ends: after at most two hundred rounds in which
  another process holds the lock, the loop has taken the lock or refused the connection; rounds in
  which a stale lock is removed do not count.\<close>

theorem lock_wait_is_bounded:
  assumes "polled start rs" "length (filter waits rs) > 200"
  shows "\<exists>r. acquireLock (start + LOCK_TIMEOUT_MS) rs = Some r"
proof (rule ccontr)
  assume "\<nexists>r. acquireLock (start + LOCK_TIMEOUT_MS) rs = Some r"
  then have "acquireLock (start + LOCK_TIMEOUT_MS) rs = None" by (cases "acquireLock (start + LOCK_TIMEOUT_MS) rs") auto
  then have "lr_now (filter waits rs ! 200) < start + LOCK_TIMEOUT_MS"
    using acquireLock_None assms(2) nth_mem by blast
  moreover have "start + LOCK_POLL_MS * 200 \<le> lr_now (filter waits rs ! 200)"
    using assms unfolding polled_def by (metis of_nat_numeral)
  ultimately show False by (simp add: LOCK_POLL_MS_def LOCK_TIMEOUT_MS_def)
qed

lemma lock_wait_is_bounded_witness:
  "\<exists>r. acquireLock (7 + LOCK_TIMEOUT_MS)
     (map (\<lambda>i. \<lparr>lr_try = Lock_exists Lock_not_a_file, lr_now = 7 + 25 * int i\<rparr>) [0..<201]) = Some r"
proof (rule lock_wait_is_bounded)
  let ?rs = "map (\<lambda>i. \<lparr>lr_try = Lock_exists Lock_not_a_file, lr_now = 7 + 25 * int i\<rparr>) [0..<201]"
  have f: "filter waits ?rs = ?rs"
    by (rule filter_True) (auto simp: waits_def lock_stale_def)
  show "200 < length (filter waits ?rs)" unfolding f by simp
  show "polled 7 ?rs" unfolding polled_def f by (simp add: LOCK_POLL_MS_def del: upt_rec_numeral)
qed

text \<open>The lock is taken only by creating the file.\<close>

lemma acquired_by_creation: "acquireLock deadline rs = Some (Inr ()) \<Longrightarrow> \<exists>r \<in> set rs. lr_try r = Lock_created"
  by (induction deadline rs rule: acquireLock.induct) (auto split: lock_try.splits if_splits)

subsection \<open>The verifier\<close>

lemma verifier_fails_closed:
  "createHostKeyVerifier lossy a h p key d = ((ok, why), d') \<Longrightarrow>
   ok \<longleftrightarrow> accepts (fst (verifyOrPin lossy a h p key d))"
  "createHostKeyVerifier lossy a h p key d = ((ok, why), d') \<Longrightarrow> ok \<longleftrightarrow> why = None"
  "snd (createHostKeyVerifier lossy a h p key d) = snd (verifyOrPin lossy a h p key d)"
  by (auto simp: createHostKeyVerifier_def accepts_def split: prod.splits sum.splits verdict.splits)

lemma label_has_no_controls:
  "c \<in> set (safeHostLabel h p) \<Longrightarrow> 32 \<le> value_of c \<and> \<not> (127 \<le> value_of c \<and> value_of c \<le> 159)"
  using show_int_chars by (fastforce simp: safeHostLabel_def Let_def digit_def split: number.splits)

subsection \<open>Where the guards end\<close>

text \<open>
  The hostname may not contain white space, the algorithm name may: a key whose algorithm name
  holds a line feed writes a second record, here a pin of another host.
\<close>

definition forging_key :: bytes where
  "forging_key = map byte [0, 0, 0, 21] @ ''x y'' @ [newline_char] @ ''bank ssh-rsa FAKE'' @ ''..''"

lemma algorithm_name_forges_pin:
  "let (r, d) = verifyOrPin id fine (Some ''evil'') (Finite 22) forging_key Missing in
   r = Inr Pinned \<and> pins ''bank'' ''FAKE'' d"
proof -
  have "fst (verifyOrPin id fine (Some ''evil'') (Finite 22) forging_key Missing) = Inr Pinned" by code_simp
  moreover have "(case snd (verifyOrPin id fine (Some ''evil'') (Finite 22) forging_key Missing) of
      Regular b \<Rightarrow> (case parse_store b of Inr m \<Rightarrow> obj_get m ''bank'' = Some (''ssh-rsa'', ''FAKE'') | _ \<Rightarrow> False) | _ \<Rightarrow> False)"
    by code_simp
  ultimately show ?thesis
    by (auto simp: pins_def Let_def split: prod.splits store_file.splits sum.splits)
qed

text \<open>
  A write torn before the key is not read as a mismatch of that host: the line has too few fields,
  so every later verification of every host fails.
\<close>

lemma torn_record_refuses_every_host:
  assumes "broken d" "knownHostsHostPattern h p = Inr q" "hostKeyAlgorithmName lossy blob = Some alg" "sa_lock a = None"
  shows "\<not> accepts (fst (verifyOrPin lossy a h p blob d)) \<and> snd (verifyOrPin lossy a h p blob d) = d"
  using assms by (auto simp: broken_def verifyOrPin_def load_store_def accepts_def split: if_splits)

lemma torn_record_breaks_store:
  "let (r, d) = verifyOrPin id (fine\<lparr>sa_write := Some 10\<rparr>) (Some ''db'') (Finite 22) (sample_key ''A'') Missing in
   r = Inl Partial_write \<and> broken d"
proof -
  have "fst (verifyOrPin id (fine\<lparr>sa_write := Some 10\<rparr>) (Some ''db'') (Finite 22) (sample_key ''A'') Missing)
      = Inl Partial_write" by code_simp
  moreover have "(case snd (verifyOrPin id (fine\<lparr>sa_write := Some 10\<rparr>) (Some ''db'') (Finite 22) (sample_key ''A'') Missing) of
      Regular b \<Rightarrow> (case parse_store b of Inl e \<Rightarrow> True | _ \<Rightarrow> False) | _ \<Rightarrow> False)"
    by code_simp
  ultimately show ?thesis
    by (auto simp: broken_def Let_def split: prod.splits store_file.splits sum.splits)
qed

end
