(* ===== verification/BackendAuth.thy ===== *)
theory BackendAuth
  imports Strings "HOL-Library.Word"
begin

unbundle bit_operations_syntax

section \<open>The authorization of requests (\<open>server/auth.mjs\<close>)\<close>

text \<open>
  A request is accepted when it carries the token of the process or comes from an allowed origin.
  A header is a string or, when it was sent more than once, a list of strings. The token is read
  from the environment, from the sidecar file, or made from random bytes, which are an argument.
\<close>

datatype header_value = One_header string | Many_headers "string list"

type_synonym headers = "header_value obj"

definition DEFAULT_ALLOWED_ORIGINS :: "string list" where
  "DEFAULT_ALLOWED_ORIGINS = [''http://127.0.0.1:5173'', ''http://localhost:5173'',
     ''tauri://localhost'', ''http://tauri.localhost'']"

definition TOKEN_HEADER_NAMES :: "string list" where
  "TOKEN_HEADER_NAMES = [''x-termsnip-token'', ''authorization'']"

definition MIN_TOKEN_LENGTH :: nat where
  "MIN_TOKEN_LENGTH = 32"

definition parseAllowedOrigins :: "string option \<Rightarrow> string list" where
  "parseAllowedOrigins v =
     (if \<not> truthy v then DEFAULT_ALLOWED_ORIGINS
      else let parsed = filter (\<lambda>e. e \<noteq> []) (map trim (split_on CHR '','' (coalesce v [])))
           in if parsed = [] then DEFAULT_ALLOWED_ORIGINS else parsed)"

text \<open>The string of a header; a list of none has no string.\<close>

definition header_string :: "header_value \<Rightarrow> string option" where
  "header_string h = (case h of One_header s \<Rightarrow> Some s | Many_headers ss \<Rightarrow> (case ss of [] \<Rightarrow> None | s # _ \<Rightarrow> Some s))"

text \<open>\<open>/^Bearer\\s+(\\S+)$/i\<close>.\<close>

definition bearer_token :: "string \<Rightarrow> string option" where
  "bearer_token s =
     (let after = drop 6 s; token = trim_start after in
      if lower (take 6 s) = ''bearer'' \<and> token \<noteq> after \<and> token \<noteq> [] \<and> list_all (\<lambda>c. \<not> is_space c) token
      then Some token else None)"

definition header_token :: "headers \<Rightarrow> string \<Rightarrow> string option" where
  "header_token hs name =
     (case obj_get hs name of
        None \<Rightarrow> None
      | Some h \<Rightarrow>
          (case header_string h of
             None \<Rightarrow> None
           | Some s \<Rightarrow>
               if name = ''authorization'' then bearer_token s
               else some_if_nonempty (trim s)))"

fun first_some :: "('a \<Rightarrow> 'b option) \<Rightarrow> 'a list \<Rightarrow> 'b option" where
  "first_some f [] = None"
| "first_some f (x # xs) = (case f x of None \<Rightarrow> first_some f xs | Some y \<Rightarrow> Some y)"

definition extractTokenFromHeaders :: "headers \<Rightarrow> string option" where
  "extractTokenFromHeaders hs = first_some (header_token hs) TOKEN_HEADER_NAMES"

text \<open>
  The bitwise comparison: every position is looked at and the differences are collected in one
  number of 32 bits.
\<close>

definition char_word :: "char \<Rightarrow> 32 word" where
  "char_word c = of_nat (of_char c)"

definition difference :: "string \<Rightarrow> string \<Rightarrow> 32 word" where
  "difference l r = fold (\<lambda>(a, b) d. d OR (char_word a XOR char_word b)) (zip l r) 0"

definition safeStringEquals :: "string \<Rightarrow> string \<Rightarrow> bool" where
  "safeStringEquals l r = (if length l \<noteq> length r then False else difference l r = 0)"

datatype auth_decision = Via_token | Via_origin | Denied string

definition isRequestAuthorized :: "headers option \<Rightarrow> string list \<Rightarrow> string option \<Rightarrow> auth_decision" where
  "isRequestAuthorized headers allowedOrigins expectedToken =
     (case headers of
        None \<Rightarrow> Denied ''missing-headers''
      | Some hs \<Rightarrow>
          let candidate = extractTokenFromHeaders hs in
          if truthy expectedToken \<and> truthy candidate \<and> safeStringEquals (the candidate) (the expectedToken)
          then Via_token
          else
            (case Option.bind (obj_get hs ''origin'') header_string of
               Some origin \<Rightarrow>
                 if origin = [] then Denied (if truthy candidate then ''token-mismatch'' else ''no-credentials'')
                 else if origin \<in> set allowedOrigins then Via_origin
                 else Denied ''origin-not-allowed''
             | None \<Rightarrow> Denied (if truthy candidate then ''token-mismatch'' else ''no-credentials'')))"

datatype token_source = From_env | From_sidecar | From_random

text \<open>\<open>None\<close>: the sidecar file does not exist or cannot be read. The write of the new token is the result's file.\<close>

definition loadOrCreateBackendToken ::
    "string option \<Rightarrow> string \<Rightarrow> string option \<Rightarrow> (string \<times> token_source) \<times> string option" where
  "loadOrCreateBackendToken env random sidecar =
     (let fromEnv = trim (coalesce env []) in
      if env \<noteq> None \<and> fromEnv \<noteq> [] \<and> length fromEnv \<ge> MIN_TOKEN_LENGTH then ((fromEnv, From_env), sidecar)
      else case sidecar of
        Some contents \<Rightarrow>
          if length (trim contents) \<ge> MIN_TOKEN_LENGTH then ((trim contents, From_sidecar), sidecar)
          else ((random, From_random), Some (random @ [CHR 0x0A]))
      | None \<Rightarrow> ((random, From_random), Some (random @ [CHR 0x0A])))"

subsection \<open>The comparison decides equality\<close>

lemma char_word_inj: "char_word a = char_word b \<longleftrightarrow> a = b"
proof
  assume eq: "char_word a = char_word b"
  have "unat (char_word c) = of_char c" for c
    by (simp add: char_word_def unat_of_nat) (simp add: of_char_def horner_sum_simps take_bit_eq_mod split: bool.splits)
  with eq show "a = b" by (metis of_char_eq_iff)
qed simp

lemma word_or_zero: "x OR y = 0 \<longleftrightarrow> x = 0 \<and> y = (0 :: 32 word)"
  by (auto simp: bit_eq_iff bit_or_iff)

lemma word_xor_zero: "x XOR y = 0 \<longleftrightarrow> x = (y :: 32 word)"
  by (metis bit.xor_cancel_right bit.xor_self xor.assoc xor.left_neutral xor.right_neutral)

lemma difference_zero:
  "fold (\<lambda>(a, b) d. d OR (char_word a XOR char_word b)) ps e = 0 \<longleftrightarrow> e = 0 \<and> (\<forall>(a, b) \<in> set ps. a = b)"
  by (induction ps arbitrary: e) (auto simp: word_or_zero word_xor_zero char_word_inj)

lemma safeStringEquals_iff: "safeStringEquals l r \<longleftrightarrow> l = r"
proof (cases "length l = length r")
  case True
  have "(\<forall>(a, b) \<in> set (zip l r). a = b) \<longleftrightarrow> l = r"
    using True by (induction l r rule: list_induct2) auto
  with True show ?thesis by (simp add: safeStringEquals_def difference_def difference_zero)
qed (auto simp: safeStringEquals_def)

subsection \<open>Properties\<close>

text \<open>The origin of a request, when it has one.\<close>

definition request_origin :: "headers \<Rightarrow> string option" where
  "request_origin hs = Option.bind (obj_get hs ''origin'') header_string"

text \<open>The text of a header, and what a bearer header looks like: the word, white space, the token to the end.\<close>

definition header_text :: "headers \<Rightarrow> string \<Rightarrow> string option" where
  "header_text hs name = Option.bind (obj_get hs name) header_string"

definition own_text :: "headers \<Rightarrow> string" where
  "own_text hs = trim (coalesce (header_text hs ''x-termsnip-token'') [])"

definition bearer_of :: "string \<Rightarrow> string \<Rightarrow> bool" where
  "bearer_of s t \<longleftrightarrow> (\<exists>word gap. s = word @ gap @ t \<and> lower word = ''bearer'' \<and> gap \<noteq> [] \<and> list_all is_space gap \<and>
     t \<noteq> [] \<and> (\<forall>c \<in> set t. \<not> is_space c))"

lemma trim_start_gap: "\<exists>gap. s = gap @ trim_start s \<and> list_all is_space gap"
  unfolding trim_start_def by (metis (mono_tags, lifting) list_all_iff set_takeWhileD takeWhile_dropWhile_id)

lemma bearer_token_iff: "bearer_token s = Some t \<longleftrightarrow> bearer_of s t"
proof
  assume b: "bearer_token s = Some t"
  obtain gap where gap: "drop 6 s = gap @ trim_start (drop 6 s)" "list_all is_space gap" using trim_start_gap by blast
  from b have t: "lower (take 6 s) = ''bearer''" "t = trim_start (drop 6 s)" "t \<noteq> drop 6 s" "t \<noteq> []" "list_all (\<lambda>c. \<not> is_space c) t"
    by (auto simp: bearer_token_def Let_def split: if_splits)
  have "s = take 6 s @ gap @ t" using gap(1) t(2) by (metis append_take_drop_id)
  moreover have "gap \<noteq> []" using gap(1) t(2,3) by auto
  ultimately show "bearer_of s t" using gap(2) t unfolding bearer_of_def list_all_iff by blast
next
  assume "bearer_of s t"
  then obtain word gap where s: "s = word @ gap @ t" "lower word = ''bearer''" "gap \<noteq> []" "list_all is_space gap" "t \<noteq> []"
      "\<forall>c \<in> set t. \<not> is_space c" by (auto simp: bearer_of_def)
  have "length word = 6" using arg_cong[OF s(2), of length] by simp
  then have d: "take 6 s = word" "drop 6 s = gap @ t" by (simp_all add: s(1))
  have "trim_start (gap @ t) = t"
    using s(4-6) by (induction gap) (auto simp: trim_start_def neq_Nil_conv)
  moreover have "trim_start (gap @ t) \<noteq> gap @ t" using calculation s(3) by simp
  ultimately show "bearer_token s = Some t"
    using s(2,5,6) unfolding bearer_token_def Let_def d by (simp add: list_all_iff)
qed

lemma extracted_token:
  "extractTokenFromHeaders hs =
     (if own_text hs \<noteq> [] then Some (own_text hs) else Option.bind (header_text hs ''authorization'') bearer_token)"
proof -
  have "header_token hs ''x-termsnip-token'' = some_if_nonempty (own_text hs)"
    by (auto simp: header_token_def own_text_def header_text_def coalesce_def some_if_nonempty_def trim_def trim_start_def trim_end_def
        split: option.splits)
  moreover have "header_token hs ''authorization'' = Option.bind (header_text hs ''authorization'') bearer_token"
    by (auto simp: header_token_def header_text_def split: option.splits)
  ultimately show ?thesis
    by (simp add: extractTokenFromHeaders_def TOKEN_HEADER_NAMES_def some_if_nonempty_def split: option.split)
qed

lemma extracted_token_iff:
  "extractTokenFromHeaders hs = Some t \<longleftrightarrow>
     (if own_text hs \<noteq> [] then t = own_text hs
      else \<exists>s. header_text hs ''authorization'' = Some s \<and> bearer_of s t)"
  unfolding bearer_token_iff[symmetric] extracted_token by (auto split: option.splits bind_splits)

text \<open>C17: A request with headers is accepted exactly when its token is the token of the process or its origin is
  one of the allowed origins, an empty token or origin being worth nothing. Its token is the trimmed text of
  its own header when that is not blank, whatever else was sent; only without such a text it is the token of a
  bearer header: the word in any case, white space, and a token without white space up to the end.\<close>

theorem request_accepted_iff:
  "(\<forall>reason. isRequestAuthorized (Some hs) allowed expected \<noteq> Denied reason) \<longleftrightarrow>
     (\<exists>t. expected = Some t \<and> t \<noteq> [] \<and>
        (if own_text hs \<noteq> [] then t = own_text hs
         else \<exists>s. header_text hs ''authorization'' = Some s \<and> bearer_of s t)) \<or>
     (\<exists>g. request_origin hs = Some g \<and> g \<noteq> [] \<and> g \<in> set allowed)"
  unfolding extracted_token_iff[symmetric]
  by (auto simp: isRequestAuthorized_def request_origin_def Let_def safeStringEquals_iff truthy_iff
      split: option.splits if_splits)

lemma token_first:
  "isRequestAuthorized (Some hs) allowed (Some t) = Via_token \<longleftrightarrow> t \<noteq> [] \<and> extractTokenFromHeaders hs = Some t"
  by (auto simp: isRequestAuthorized_def Let_def safeStringEquals_iff truthy_iff split: option.splits)

lemma bearer_token_chars: "bearer_token s = Some t \<Longrightarrow> t \<noteq> [] \<and> list_all (\<lambda>c. \<not> is_space c) t"
  by (auto simp: bearer_token_def Let_def split: if_splits)

lemma extracted_token_not_empty: "extractTokenFromHeaders hs = Some t \<Longrightarrow> t \<noteq> []"
  using bearer_token_chars
  by (auto simp: extractTokenFromHeaders_def TOKEN_HEADER_NAMES_def header_token_def split: option.splits if_splits)

lemma bearer_roundtrip:
  assumes "t \<noteq> []" "list_all (\<lambda>c. \<not> is_space c) t"
  shows "bearer_token (''Bearer '' @ t) = Some t"
proof -
  have "trim_start (CHR '' '' # t) = t"
    using assms by (cases t) (auto simp: trim_start_def is_space_def)
  moreover have "lower ''Bearer'' = ''bearer''" by code_simp
  ultimately show ?thesis using assms by (simp add: bearer_token_def Let_def)
qed

text \<open>every process that starts with the same sidecar file, and none in its environment, uses the
  same token as the first one, and the token is never shorter than the minimum.\<close>

theorem token_is_handed_over:
  assumes "length random \<ge> MIN_TOKEN_LENGTH" "list_all (\<lambda>c. \<not> is_space c) random"
    and "loadOrCreateBackendToken env random sidecar = ((token, source), sidecar')"
  shows "MIN_TOKEN_LENGTH \<le> length token \<and>
    (source \<noteq> From_env \<longrightarrow>
      loadOrCreateBackendToken None random' sidecar' = ((token, From_sidecar), sidecar'))"
proof -
  have ne: "random \<noteq> []" using assms(1) by (auto simp: MIN_TOKEN_LENGTH_def)
  then have ends: "\<not> is_space (hd random)" "\<not> is_space (last random)" using assms(2) by (auto simp: list_all_iff)
  have "trim_start (random @ [CHR 0x0A]) = random @ [CHR 0x0A]"
    using ne ends by (cases random) (auto simp: trim_start_def)
  moreover have "trim_end (random @ [CHR 0x0A]) = trim_end random" by (simp add: trim_end_def is_space_def)
  moreover have "trim_end random = random" using ne ends by (simp add: trim_end_def dropWhile_hd_eq hd_rev)
  ultimately have t: "trim (random @ [CHR 0x0A]) = random" by (simp add: trim_def)
  with assms(1,3) show ?thesis
    by (auto simp: loadOrCreateBackendToken_def Let_def split: if_splits option.splits)
qed

definition sample_token :: string where
  "sample_token = replicate 64 CHR ''a''"

lemma token_is_handed_over_witness:
  "loadOrCreateBackendToken None ''later'' (snd (loadOrCreateBackendToken None sample_token None)) =
     ((sample_token, From_sidecar), Some (sample_token @ [CHR 0x0A]))"
proof -
  have "loadOrCreateBackendToken None sample_token None = ((sample_token, From_random), Some (sample_token @ [CHR 0x0A]))"
    by (simp add: loadOrCreateBackendToken_def)
  moreover have "MIN_TOKEN_LENGTH \<le> length sample_token" "list_all (\<lambda>c. \<not> is_space c) sample_token"
    by (simp_all add: MIN_TOKEN_LENGTH_def sample_token_def is_space_def list_all_iff)
  ultimately show ?thesis
    using token_is_handed_over[of sample_token None None sample_token From_random] by simp
qed

end
