(* ===== verification/BackendPaths.thy ===== *)
theory BackendPaths
  imports Paths
begin

section \<open>Paths of the Node backend (\<open>server/backend-paths.mjs\<close>)\<close>

text \<open>
  Remote paths are canonicalised with a stack of segments, the paths of static files are resolved
  under a root and compared with it by components, lexically and after following symbolic links.
  The functions \<open>normalize\<close>, \<open>join\<close> and \<open>relative\<close> of the POSIX path library are modelled for what
  the code uses of them; \<open>realpath\<close> belongs to the file system and is a parameter, \<open>None\<close> where it
  fails.
\<close>

subsection \<open>Remote paths\<close>

definition push_segment :: "string \<Rightarrow> string list \<Rightarrow> string list" where
  "push_segment s ss = (if s = [] \<or> s = ''.'' then ss else if s = ''..'' then butlast ss else ss @ [s])"

definition remote_segments :: "string \<Rightarrow> string list" where
  "remote_segments p = fold push_segment (split_on CHR ''/'' p) []"

definition normalizeRemotePath :: "string option \<Rightarrow> string" where
  "normalizeRemotePath p = path_of (remote_segments (coalesce p []))"

definition strip_slashes :: "string \<Rightarrow> string" where
  "strip_slashes s = rev (dropWhile (\<lambda>c. c = CHR ''/'') (rev s))"

text \<open>The root has the default \<open>/\<close>, which applies when it is absent.\<close>

definition resolveRemotePath :: "string option \<Rightarrow> string option \<Rightarrow> string" where
  "resolveRemotePath rootPath pathname =
     (let root = coalesce rootPath ''/'' in
      if \<not> truthy pathname \<or> trim (the pathname) = [] then normalizeRemotePath (Some root)
      else let v = the pathname in
        if starts_with ''/'' v then normalizeRemotePath (Some v)
        else let base = strip_slashes root in
          normalizeRemotePath (Some (if base = [] then ''/'' @ v else base @ ''/'' @ v)))"

definition filename_char :: "char \<Rightarrow> bool" where
  "filename_char c \<longleftrightarrow>
     c \<in> set ''._-'' \<or> list_ex (\<lambda>(lo, hi). lo \<le> c \<and> c \<le> hi) [(CHR ''0'', CHR ''9''), (CHR ''A'', CHR ''Z''), (CHR ''a'', CHR ''z'')]"

definition sanitizeFilename :: "string option \<Rightarrow> string" where
  "sanitizeFilename v =
     or_string (map (\<lambda>c. if filename_char c then c else CHR ''_'') (coalesce v [])) ''download''"

subsection \<open>Static files\<close>

text \<open>
  \<open>normalize(join(root, path))\<close> for an absolute root. A slash at the end is kept; the root itself
  has none.
\<close>

definition join_normalized :: "string \<Rightarrow> string \<Rightarrow> string" where
  "join_normalized root p =
     (let whole = (if p = [] then root else root @ ''/'' @ p);
          ss = remote_segments whole
      in if ss = [] then ''/'' else path_of ss @ (if ends_with ''/'' whole then ''/'' else []))"

text \<open>\<open>relative(from, to)\<close> of two absolute paths.\<close>

fun drop_common :: "string list \<Rightarrow> string list \<Rightarrow> string list \<times> string list" where
  "drop_common (x # xs) (y # ys) = (if x = y then drop_common xs ys else (x # xs, y # ys))"
| "drop_common xs ys = (xs, ys)"

definition relative_path :: "string \<Rightarrow> string \<Rightarrow> string" where
  "relative_path f t =
     (case drop_common (remote_segments f) (remote_segments t) of
        (up, down) \<Rightarrow> join ''/'' (map (\<lambda>_. ''..'') up @ down))"

definition escapesRoot :: "string \<Rightarrow> string \<Rightarrow> bool" where
  "escapesRoot root target =
     (let r = relative_path root target in r = ''..'' \<or> starts_with ''../'' r \<or> starts_with ''/'' r)"

definition resolvePathInsideRoot :: "(string \<Rightarrow> string option) \<Rightarrow> string \<Rightarrow> string \<Rightarrow> string option" where
  "resolvePathInsideRoot realpath root requested =
     (let target = join_normalized root requested; r = relative_path root target in
      if escapesRoot root target then None
      else case realpath root of
        None \<Rightarrow> None
      | Some canonicalRoot \<Rightarrow>
          (case realpath target of
             None \<Rightarrow> None
           | Some canonicalTarget \<Rightarrow>
               if escapesRoot canonicalRoot canonicalTarget then None
               else Some (if r = [] \<and> ends_with ''/'' target then canonicalTarget @ ''/''
                          else canonicalTarget)))"

subsection \<open>Canonical paths\<close>

text \<open>No part of a canonical path is empty, a dot or two dots.\<close>

definition dotless :: "string list \<Rightarrow> bool" where
  "dotless ss \<longleftrightarrow> seg_ok ss \<and> ''.'' \<notin> set ss \<and> ''..'' \<notin> set ss"

lemma dotless_simps [simp]:
  "dotless []" "dotless (ss @ us) \<longleftrightarrow> dotless ss \<and> dotless us"
  "dotless (s # us) \<longleftrightarrow> s \<noteq> [] \<and> CHR ''/'' \<notin> set s \<and> s \<noteq> ''.'' \<and> s \<noteq> ''..'' \<and> dotless us"
  by (auto simp: dotless_def)

lemma dotless_butlast: "dotless ss \<Longrightarrow> dotless (butlast ss)"
  by (cases ss rule: rev_cases) auto

lemma dotless_seg_ok [simp]: "dotless ss \<Longrightarrow> seg_ok ss"
  by (simp add: dotless_def)

lemma fold_push_dotless:
  "dotless acc \<Longrightarrow> \<forall>s \<in> set ss. CHR ''/'' \<notin> set s \<Longrightarrow> dotless (fold push_segment ss acc)"
  by (induction ss arbitrary: acc) (auto simp: push_segment_def dotless_butlast)

lemma remote_segments_dotless [simp]: "dotless (remote_segments p)"
  unfolding remote_segments_def by (rule fold_push_dotless) (auto dest: split_by_parts)

lemma fold_push_segments: "fold push_segment (filter (\<lambda>s. s \<noteq> []) ss) acc = fold push_segment ss acc"
  by (induction ss arbitrary: acc) (auto simp: push_segment_def)

lemma remote_segments_eq: "remote_segments p = fold push_segment (segments p) []"
  by (simp add: remote_segments_def segments_def fold_push_segments)

lemma fold_push_id: "dotless ss \<Longrightarrow> fold push_segment ss acc = acc @ ss"
  by (induction ss arbitrary: acc) (auto simp: push_segment_def)

lemma remote_segments_path_of [simp]: "dotless ss \<Longrightarrow> remote_segments (path_of ss) = ss"
  by (simp add: remote_segments_eq fold_push_id)

lemma segments_path_of_append: "seg_ok ss \<Longrightarrow> segments (path_of ss @ ''/'' @ p) = ss @ segments p"
  by (simp add: segments_append)

lemma drop_common_append: "drop_common (xs @ us) (xs @ vs) = drop_common us vs"
  by (induction xs) auto

lemma drop_common_prefix: "fst (drop_common xs ys) = [] \<longleftrightarrow> (\<exists>vs. ys = xs @ vs)"
  by (induction xs ys rule: drop_common.induct) auto

lemma drop_common_snd: "\<exists>zs. ys = zs @ snd (drop_common xs ys)"
proof (induction xs ys rule: drop_common.induct)
  case (1 x xs y ys)
  then show ?case by (auto intro: exI[of _ "[]"]) (metis append_Cons)
qed auto

lemma join_first:
  assumes "ss \<noteq> []" "seg_ok ss" shows "starts_with (s @ ''/'') (join ''/'' ss) \<Longrightarrow> CHR ''/'' \<notin> set s \<Longrightarrow> hd ss = s"
    and "join ''/'' ss = s \<Longrightarrow> CHR ''/'' \<notin> set s \<Longrightarrow> ss = [s]"
proof -
  assume s: "starts_with (s @ ''/'') (join ''/'' ss)" "CHR ''/'' \<notin> set s"
  then obtain w where "join ''/'' ss = s @ CHR ''/'' # w" by (auto simp: starts_with_iff)
  then have "split_on CHR ''/'' (join ''/'' ss) = s # split_on CHR ''/'' w" using split_on_append[OF s(2)] by simp
  moreover have "split_on CHR ''/'' (join ''/'' ss) = ss" using assms by (intro split_on_join) (auto simp: seg_ok_def)
  ultimately show "hd ss = s" by simp
next
  assume s: "join ''/'' ss = s" "CHR ''/'' \<notin> set s"
  have "split_on CHR ''/'' (join ''/'' ss) = ss" using assms by (intro split_on_join) (auto simp: seg_ok_def)
  moreover have "split_on CHR ''/'' s = [s]" using s(2) by (intro split_by_no_sep) auto
  ultimately show "ss = [s]" using s(1) by simp
qed

text \<open>A path escapes the root exactly when the root's segments are not a prefix of its own.\<close>

lemma escapesRoot_iff:
  assumes "dotless rs" "dotless ts"
  shows "escapesRoot (path_of rs) (path_of ts) \<longleftrightarrow> (\<nexists>vs. ts = rs @ vs)"
proof -
  obtain up down where ud: "drop_common rs ts = (up, down)" by fastforce
  have up: "up = [] \<longleftrightarrow> (\<exists>vs. ts = rs @ vs)" using drop_common_prefix[of rs ts] ud by simp
  have down: "dotless down" using drop_common_snd[of ts rs] ud assms(2) by auto
  have r: "relative_path (path_of rs) (path_of ts) = join ''/'' (map (\<lambda>_. ''..'') up @ down)"
    using assms ud by (simp add: relative_path_def)
  show ?thesis
  proof (cases up)
    case Nil
    have "\<not> (join ''/'' down = ''..'' \<or> starts_with ''../'' (join ''/'' down) \<or> starts_with ''/'' (join ''/'' down))"
    proof (cases "down = []")
      case False
      have hd: "hd down \<in> set down" "hd down \<noteq> ''..''" "hd down \<noteq> []"
        using False down by (cases down; simp)+
      have seg: "seg_ok down" using down by simp
      have "join ''/'' down \<noteq> ''..''" using join_first(2)[OF False seg, of "''..''"] hd by auto
      moreover have "\<not> starts_with ''../'' (join ''/'' down)" using join_first(1)[OF False seg, of "''..''"] hd by auto
      moreover have "\<not> starts_with ''/'' (join ''/'' down)" using join_first(1)[OF False seg, of "[]"] hd by auto
      ultimately show ?thesis by blast
    qed simp
    then have "\<not> escapesRoot (path_of rs) (path_of ts)" using Nil r by (simp add: escapesRoot_def Let_def)
    with Nil up show ?thesis by blast
  next
    case (Cons x xs)
    have "join ''/'' (''..'' # ys) = ''..'' \<or> starts_with ''../'' (join ''/'' (''..'' # ys))" for ys
      by (cases ys) auto
    note claim = this[of "map (\<lambda>_. ''..'') xs @ down"]
    have eq: "relative_path (path_of rs) (path_of ts) = join ''/'' (''..'' # (map (\<lambda>_. ''..'') xs @ down))"
      using r Cons by simp
    have "escapesRoot (path_of rs) (path_of ts)"
      unfolding escapesRoot_def Let_def eq using claim by blast
    with Cons up show ?thesis by blast
  qed
qed

subsection \<open>Properties\<close>

text \<open>C18: a static file is served only from inside the root: when a request resolves to a path, the
  canonical path of the root is made of the first segments of that path, and no segment of it is
  empty, a dot or two dots; this holds whatever the request contains and wherever symbolic links
  point, and for directories whose names only begin like the root's.\<close>

theorem static_file_inside_root:
  assumes canonical: "\<And>q r. realpath q = Some r \<Longrightarrow> \<exists>ss. dotless ss \<and> r = path_of ss"
    and found: "resolvePathInsideRoot realpath root requested = Some p"
  shows "\<exists>rs vs. realpath root = Some (path_of rs) \<and> dotless (rs @ vs) \<and>
    (p = path_of (rs @ vs) \<or> p = path_of (rs @ vs) @ ''/'')"
proof -
  obtain R T where RT: "realpath root = Some R" "realpath (join_normalized root requested) = Some T"
    "\<not> escapesRoot R T" "p = T \<or> p = T @ ''/''"
    using found by (auto simp: resolvePathInsideRoot_def Let_def split: if_splits option.splits)
  obtain rs ts where s: "dotless rs" "R = path_of rs" "dotless ts" "T = path_of ts"
    using canonical RT(1,2) by blast
  with RT(3) obtain vs where "ts = rs @ vs" by (auto simp: escapesRoot_iff)
  with RT s show ?thesis by auto
qed

text \<open>A file system in which the directory of the build output is behind a symbolic link.\<close>

definition linked_root :: "string \<Rightarrow> string option" where
  "linked_root p =
     (if p = ''/app/dist'' then Some ''/build/out''
      else if p = ''/app/dist/index.html'' then Some ''/build/out/index.html''
      else if p = ''/app/dist/leak'' then Some ''/build/out-secret/key'' else None)"

lemma static_file_inside_root_witness:
  "resolvePathInsideRoot linked_root ''/app/dist'' ''/a/../index.html'' = Some ''/build/out/index.html'' \<and>
   resolvePathInsideRoot linked_root ''/app/dist'' ''/leak'' = None \<and>
   (\<exists>rs vs. linked_root ''/app/dist'' = Some (path_of rs) \<and> dotless (rs @ vs) \<and>
     (''/build/out/index.html'' = path_of (rs @ vs) \<or> ''/build/out/index.html'' = path_of (rs @ vs) @ ''/''))"
proof -
  have c: "linked_root q = Some r \<Longrightarrow> \<exists>ss. dotless ss \<and> r = path_of ss" for q r
  proof -
    have p: "''/build/out'' = path_of [''build'', ''out'']" "''/build/out/index.html'' = path_of [''build'', ''out'', ''index.html'']"
      "''/build/out-secret/key'' = path_of [''build'', ''out-secret'', ''key'']" by (simp_all add: path_of_def)
    assume "linked_root q = Some r"
    then have "r \<in> {path_of [''build'', ''out''], path_of [''build'', ''out'', ''index.html''], path_of [''build'', ''out-secret'', ''key'']}"
      unfolding p[symmetric] by (auto simp: linked_root_def split: if_splits)
    moreover have "dotless [''build'', ''out'']" "dotless [''build'', ''out'', ''index.html'']"
      "dotless [''build'', ''out-secret'', ''key'']" by simp_all
    ultimately show ?thesis by blast
  qed
  have r: "resolvePathInsideRoot linked_root ''/app/dist'' ''/a/../index.html'' = Some ''/build/out/index.html''"
    "resolvePathInsideRoot linked_root ''/app/dist'' ''/leak'' = None" by code_simp+
  have "\<exists>rs vs. linked_root ''/app/dist'' = Some (path_of rs) \<and> dotless (rs @ vs) \<and>
     (''/build/out/index.html'' = path_of (rs @ vs) \<or> ''/build/out/index.html'' = path_of (rs @ vs) @ ''/'')"
    by (rule static_file_inside_root[OF _ r(1)]) (rule c)
  with r show ?thesis by blast
qed

text \<open>The name of an entry of a directory.\<close>

definition entry_name :: "string \<Rightarrow> bool" where
  "entry_name w \<longleftrightarrow> w \<noteq> ''.'' \<and> w \<noteq> ''..'' \<and> CHR ''/'' \<notin> set w \<and> trim w \<noteq> []"

lemma strip_slashes_path:
  assumes "seg_ok ss" "ss \<noteq> []" shows "strip_slashes (path_of ss) = path_of ss"
proof -
  obtain us s where ss: "ss = us @ [s]" using assms(2) by (metis append_butlast_last_id)
  have "path_of ss = (if us = [] then ''/'' else path_of us @ ''/'') @ s"
    using path_of_append[of us "[s]"] by (simp add: ss path_of_def)
  moreover have "s \<noteq> []" "last s \<noteq> CHR ''/''" using assms(1) last_in_set[of s] by (simp_all add: ss, metis)
  ultimately have "hd (rev (path_of ss)) \<noteq> CHR ''/''" by (simp add: hd_rev)
  then show ?thesis by (simp add: strip_slashes_def dropWhile_hd_eq)
qed

lemma resolve_absolute:
  assumes "dotless ss" shows "resolveRemotePath root (Some (path_of ss)) = path_of ss"
proof -
  have "CHR ''/'' \<in> set (path_of ss)" by (simp add: path_of_def)
  moreover have "\<not> is_space CHR ''/''" by (simp add: is_space_def)
  ultimately have "trim (path_of ss) \<noteq> []" using trim_Nil_iff by blast
  moreover have "starts_with ''/'' (path_of ss)" by (simp add: path_of_def)
  moreover have "path_of ss \<noteq> []" by (simp add: path_of_def)
  ultimately show ?thesis using assms by (simp add: resolveRemotePath_def Let_def normalizeRemotePath_def)
qed

lemma resolve_relative:
  assumes "dotless ss" "trim v \<noteq> []" "\<not> starts_with ''/'' v"
  shows "resolveRemotePath (Some (path_of ss)) (Some v) = path_of (fold push_segment (segments v) ss)"
proof -
  have base: "strip_slashes (path_of ss) = (if ss = [] then [] else path_of ss)"
    using assms(1) strip_slashes_path[of ss] by (simp add: strip_slashes_def)
  let ?p = "if ss = [] then ''/'' @ v else path_of ss @ ''/'' @ v"
  have ne: "v \<noteq> []" using assms(2) by auto
  have empty: "path_of ss \<noteq> []" by (simp add: path_of_def)
  have res: "resolveRemotePath (Some (path_of ss)) (Some v) = path_of (remote_segments ?p)"
    using assms(2,3) ne empty unfolding resolveRemotePath_def normalizeRemotePath_def Let_def coalesce_simps base
    by simp
  have "segments ?p = ss @ segments v"
    using segments_append[of "[]" v] segments_path_of_append[of ss v] assms(1) by (simp add: segments_def)
  then have "remote_segments ?p = fold push_segment (segments v) ss"
    using assms(1) fold_push_id[of ss "[]"] unfolding remote_segments_eq by simp
  then show ?thesis unfolding res by simp
qed

lemma resolve_from_root:
  assumes "starts_with ''/'' u" shows "resolveRemotePath root (Some u) = path_of (fold push_segment (segments u) [])"
proof -
  have "CHR ''/'' \<in> set u" using assms by (auto simp: starts_with_iff)
  moreover have "\<not> is_space CHR ''/''" by (simp add: is_space_def)
  ultimately have "trim u \<noteq> []" "u \<noteq> []" using trim_Nil_iff by fastforce+
  then show ?thesis
    using assms by (simp add: resolveRemotePath_def Let_def normalizeRemotePath_def remote_segments_eq)
qed

lemma segments_single: "w \<noteq> [] \<Longrightarrow> CHR ''/'' \<notin> set w \<Longrightarrow> segments w = [w]"
proof -
  assume w: "w \<noteq> []" "CHR ''/'' \<notin> set w"
  have "split_on CHR ''/'' w = [w]" by (rule split_by_no_sep) (use w(2) in auto)
  with w(1) show ?thesis by (simp add: segments_def)
qed

lemma resolve_entry:
  assumes "dotless ss" "entry_name w" shows "resolveRemotePath (Some (path_of ss)) (Some w) = path_of (ss @ [w])"
proof -
  have w: "trim w \<noteq> []" "w \<noteq> []" "CHR ''/'' \<notin> set w" "w \<noteq> ''.''" "w \<noteq> ''..''"
    using assms(2) by (auto simp: entry_name_def)
  moreover from w have "\<not> starts_with ''/'' w" by (cases w) simp_all
  ultimately show ?thesis
    using resolve_relative[OF assms(1), of w] by (simp add: segments_single push_segment_def)
qed

lemma resolve_dots:
  assumes "dotless ss"
  shows "resolveRemotePath (Some (path_of ss)) (Some ''.'') = path_of ss"
    and "resolveRemotePath (Some (path_of ss)) (Some ''..'') = path_of (butlast ss)"
proof -
  have "trim ''.'' \<noteq> []" "trim ''..'' \<noteq> []" by code_simp+
  then show "resolveRemotePath (Some (path_of ss)) (Some ''.'') = path_of ss"
    "resolveRemotePath (Some (path_of ss)) (Some ''..'') = path_of (butlast ss)"
    using resolve_relative[OF assms, of "''.''"] resolve_relative[OF assms, of "''..''"]
    by (simp_all add: segments_single push_segment_def)
qed

lemma resolve_part_by_part:
  assumes "dotless ss" "trim u \<noteq> []" "trim v \<noteq> []" "\<not> starts_with ''/'' v"
  shows "resolveRemotePath (Some (path_of ss)) (Some (u @ ''/'' @ v)) =
    resolveRemotePath (Some (resolveRemotePath (Some (path_of ss)) (Some u))) (Some v)"
proof -
  let ?acc = "if starts_with ''/'' u then [] else ss"
  have "\<not> is_space CHR ''/''" by (simp add: is_space_def)
  then have t: "trim (u @ ''/'' @ v) \<noteq> []" by (simp add: trim_Nil_iff)
  have u: "u \<noteq> []" using assms(2) by auto
  then have abs: "starts_with ''/'' (u @ ''/'' @ v) = starts_with ''/'' u" by (cases u) simp_all
  have dot: "dotless (fold push_segment (segments u) ?acc)"
    using assms(1) seg_ok_segments[of u] by (intro fold_push_dotless) (auto simp: seg_ok_def)
  have one: "resolveRemotePath (Some (path_of ss)) (Some u) = path_of (fold push_segment (segments u) ?acc)"
    using resolve_from_root[of u] resolve_relative[OF assms(1,2)] by simp
  have "resolveRemotePath (Some (path_of ss)) (Some (u @ ''/'' @ v)) =
      path_of (fold push_segment (segments u @ segments v) ?acc)"
    using resolve_from_root[of "u @ ''/'' @ v"] resolve_relative[OF assms(1) t] abs by (simp add: segments_append)
  then show ?thesis using resolve_relative[OF dot assms(3,4)] unfolding one by simp
qed

text \<open>C33: every remote path the backend uses is canonical, an absolute path without empty parts, dots
  and two dots, and resolving a canonical path again gives the same path. Below a canonical path a
  dot stays, two dots go up by one part and stop at the root, the name of an entry (not blank, without
  a slash, neither dot nor two dots) is added at the end, and a longer path \<open>u/v\<close> is resolved part by
  part: first \<open>u\<close>, then \<open>v\<close> below it, for every \<open>u\<close> and \<open>v\<close> that are not blank and a \<open>v\<close> that does not
  start with a slash.\<close>

theorem remote_paths_canonical:
  "\<exists>ss. dotless ss \<and> resolveRemotePath root p = path_of ss \<and>
    normalizeRemotePath (Some (path_of ss)) = path_of ss \<and>
    resolveRemotePath other (Some (path_of ss)) = path_of ss \<and>
    resolveRemotePath (Some (path_of ss)) (Some ''.'') = path_of ss \<and>
    resolveRemotePath (Some (path_of ss)) (Some ''..'') = path_of (butlast ss) \<and>
    (entry_name w \<longrightarrow> resolveRemotePath (Some (path_of ss)) (Some w) = path_of (ss @ [w])) \<and>
    (trim u \<noteq> [] \<and> trim v \<noteq> [] \<and> \<not> starts_with ''/'' v \<longrightarrow>
       resolveRemotePath (Some (path_of ss)) (Some (u @ ''/'' @ v)) =
       resolveRemotePath (Some (resolveRemotePath (Some (path_of ss)) (Some u))) (Some v))"
proof -
  have "\<exists>ss. dotless ss \<and> resolveRemotePath root p = path_of ss"
    unfolding resolveRemotePath_def normalizeRemotePath_def Let_def by (auto intro: remote_segments_dotless)
  then obtain ss where ss: "dotless ss" "resolveRemotePath root p = path_of ss" by blast
  have "normalizeRemotePath (Some (path_of ss)) = path_of ss" using ss(1) by (simp add: normalizeRemotePath_def)
  with ss show ?thesis
    using resolve_absolute[OF ss(1)] resolve_dots[OF ss(1)] resolve_entry[OF ss(1)] resolve_part_by_part[OF ss(1)]
    by blast
qed

lemma remote_paths_canonical_witness:
  "\<exists>ss. dotless ss \<and> resolveRemotePath (Some ''/srv/'') (Some ''a/../../../etc//.'') = path_of ss \<and>
     resolveRemotePath (Some (path_of ss)) (Some ''..'') = path_of (butlast ss) \<and>
     resolveRemotePath (Some (path_of ss)) (Some ''passwd'') = path_of (ss @ [''passwd'']) \<and>
     resolveRemotePath (Some (path_of ss)) (Some ''ssh/../hosts'') =
       resolveRemotePath (Some (resolveRemotePath (Some (path_of ss)) (Some ''ssh''))) (Some ''../hosts'')"
proof -
  have "entry_name ''passwd''" "trim ''ssh'' \<noteq> []" "trim ''../hosts'' \<noteq> []" "\<not> starts_with ''/'' ''../hosts''"
    "''ssh'' @ ''/'' @ ''../hosts'' = ''ssh/../hosts''" by code_simp+
  then show ?thesis
    using remote_paths_canonical[of "Some ''/srv/''" "Some ''a/../../../etc//.''" None "''passwd''" "''ssh''" "''../hosts''"]
    by metis
qed

text \<open>An entry whose name is blank gets the path of the directory it stands in.\<close>

lemma blank_entry_is_its_directory:
  "resolveRemotePath (Some ''/srv/data'') (Some ''  '') = ''/srv/data''"
  by code_simp

text \<open>A file name for a download has no slash and is not empty.\<close>

lemma sanitized_name: "sanitizeFilename v \<noteq> [] \<and> list_all filename_char (sanitizeFilename v)"
proof -
  have "list_all filename_char ''download''" "filename_char CHR ''_''" by code_simp+
  then show ?thesis by (auto simp: sanitizeFilename_def or_string_def list_all_iff)
qed

end
