(* ===== verification/BackendShell.thy ===== *)
theory BackendShell
  imports Sorting
begin

section \<open>Shell words and remote commands (\<open>server/backend-shell.mjs\<close>, \<open>server/backend-command-operations.mjs\<close>)\<close>

text \<open>
  Commands for the remote shell are built from values that a user typed, so each value is quoted as
  one word. How a POSIX shell reads a word is the specification here; the theorems say that the
  shell reads back what was quoted. The result of a remote command is built from what the
  transport reported.
\<close>

subsection \<open>Quoting\<close>

definition quote_char :: char where
  "quote_char = CHR 0x27"

definition escape_quotes :: "string \<Rightarrow> string" where
  "escape_quotes s = concat (map (\<lambda>c. if c = quote_char then [quote_char, CHR 0x5C, quote_char, quote_char] else [c]) s)"

definition shellSingleQuote :: "string option \<Rightarrow> string" where
  "shellSingleQuote v = [quote_char] @ escape_quotes (coalesce v []) @ [quote_char]"

subsection \<open>Environments\<close>

definition key_start :: "char \<Rightarrow> bool" where
  "key_start c \<longleftrightarrow> CHR ''A'' \<le> c \<and> c \<le> CHR ''Z'' \<or> CHR ''a'' \<le> c \<and> c \<le> CHR ''z'' \<or> c = CHR ''_''"

definition isValidEnvironmentKey :: "string \<Rightarrow> bool" where
  "isValidEnvironmentKey k \<longleftrightarrow> k \<noteq> [] \<and> key_start (hd k) \<and>
     list_all (\<lambda>c. key_start c \<or> CHR ''0'' \<le> c \<and> c \<le> CHR ''9'') (tl k)"

text \<open>The entries of the result, which has them in this order because no key is an array index.\<close>

definition getChannelEnvironment :: "string obj option \<Rightarrow> (string \<times> string) list option" where
  "getChannelEnvironment environment =
     (case environment of
        None \<Rightarrow> None
      | Some env \<Rightarrow>
          let entries = js_sort (\<lambda>l r. code_unit_compare (fst l) (fst r))
                (filter (\<lambda>(k, v). isValidEnvironmentKey k) (obj_entries env))
          in if entries = [] then None else Some entries)"

definition export_text :: "string \<times> string \<Rightarrow> string" where
  "export_text e = ''export '' @ fst e @ ''='' @ shellSingleQuote (Some (snd e))"

definition buildEnvironmentExportPrefix :: "string obj option \<Rightarrow> string" where
  "buildEnvironmentExportPrefix environment =
     (case getChannelEnvironment environment of
        None \<Rightarrow> []
      | Some entries \<Rightarrow> join ''; '' (map export_text entries))"

definition buildInteractiveShellCommand :: "string obj option \<Rightarrow> string option" where
  "buildInteractiveShellCommand environment =
     (let p = buildEnvironmentExportPrefix environment in
      if p = [] then None
      else Some (p @ ''; exec '' @ [CHR 0x22] @ ''${SHELL:-/bin/sh}'' @ [CHR 0x22] @ '' -l''))"

definition buildExecCommand :: "string \<Rightarrow> string obj option \<Rightarrow> string" where
  "buildExecCommand command environment =
     (let p = buildEnvironmentExportPrefix environment in
      if p = [] then command else p @ ''; '' @ command)"

subsection \<open>How the shell reads a word\<close>

text \<open>The text of a quotation, whose opening quote is already read, and the rest.\<close>

fun sh_quoted :: "string \<Rightarrow> (string \<times> string) option" where
  "sh_quoted [] = None"
| "sh_quoted (c # s) =
     (if c = quote_char then Some ([], s) else map_option (\<lambda>(w, r). (c # w, r)) (sh_quoted s))"

lemma sh_quoted_shorter: "sh_quoted s = Some (w, r) \<Longrightarrow> length r < length s"
  by (induction s arbitrary: w) (auto split: if_splits intro: less_SucI)

definition sh_special :: "char \<Rightarrow> bool" where
  "sh_special c \<longleftrightarrow> c \<in> {CHR '' '', CHR 0x09, CHR 0x0A, CHR '';'', CHR ''&'', CHR ''|'', CHR ''<'', CHR ''>'',
     CHR ''('', CHR '')'', CHR ''$'', CHR 0x60, CHR 0x22, CHR ''*'', CHR ''?'', CHR ''['', CHR ''#'', CHR ''~''}"

text \<open>A word up to the first character that is not literal; \<open>None\<close> for an unfinished quotation.\<close>

function sh_word :: "string \<Rightarrow> (string \<times> string) option" where
  "sh_word s =
     (case s of
        [] \<Rightarrow> Some ([], [])
      | c # cs \<Rightarrow>
          if c = quote_char then
            (case sh_quoted cs of
               None \<Rightarrow> None
             | Some (w, r) \<Rightarrow> map_option (\<lambda>(w', r'). (w @ w', r')) (sh_word r))
          else if c = CHR 0x5C then
            (case cs of [] \<Rightarrow> None | d # ds \<Rightarrow> map_option (\<lambda>(w, r). (d # w, r)) (sh_word ds))
          else if sh_special c then Some ([], s)
          else map_option (\<lambda>(w, r). (c # w, r)) (sh_word cs))"
  by auto

termination
  by (relation "measure length") (auto dest: sh_quoted_shorter)

declare sh_word.simps [simp del]

lemma sh_word_quoted:
  "sh_word (quote_char # escape_quotes v @ quote_char # r) =
     map_option (\<lambda>(w, r'). (v @ w, r')) (sh_word r)"
proof (induction v)
  case Nil
  show ?case by (subst sh_word.simps) (cases "sh_word r"; auto simp: escape_quotes_def)
next
  case (Cons c v)
  show ?case
  proof (cases "c = quote_char")
    case True
    have ne: "CHR 0x5C \<noteq> quote_char" by (simp add: quote_char_def)
    let ?t = "quote_char # escape_quotes v @ quote_char # r"
    have "sh_word (quote_char # escape_quotes (c # v) @ quote_char # r) = sh_word (quote_char # quote_char # CHR 0x5C # quote_char # ?t)"
      using True by (simp add: escape_quotes_def)
    also have "\<dots> = map_option (\<lambda>(w, r). (quote_char # w, r)) (sh_word ?t)"
      using ne by (subst sh_word.simps, simp) (subst sh_word.simps, simp add: option.map_comp comp_def case_prod_unfold)
    finally show ?thesis using Cons True by (simp add: option.map_comp comp_def case_prod_unfold)
  next
    case False
    have step: "sh_word (quote_char # c # s) = map_option (\<lambda>(w, r). (c # w, r)) (sh_word (quote_char # s))" for s
      using False by (subst (1 2) sh_word.simps) (auto simp: option.map_comp comp_def case_prod_unfold split: option.splits)
    have "escape_quotes (c # v) = c # escape_quotes v" using False by (simp add: escape_quotes_def)
    then show ?thesis using Cons step by (simp add: option.map_comp comp_def case_prod_unfold)
  qed
qed

text \<open>One \<open>export K=V\<close> at the front of a command, and as many as a number says.\<close>

definition read_export :: "string \<Rightarrow> ((string \<times> string) \<times> string) option" where
  "read_export s =
     (if \<not> starts_with ''export '' s then None
      else let b = drop 7 s; k = takeWhile (\<lambda>c. c \<noteq> CHR ''='') b in
        case sh_word (drop (Suc (length k)) b) of
          None \<Rightarrow> None
        | Some (v, r) \<Rightarrow> if starts_with ''; '' r then Some ((k, v), drop 2 r) else None)"

fun read_exports :: "nat \<Rightarrow> string \<Rightarrow> ((string \<times> string) list \<times> string) option" where
  "read_exports 0 s = Some ([], s)"
| "read_exports (Suc n) s =
     (case read_export s of
        None \<Rightarrow> None
      | Some (e, r) \<Rightarrow> map_option (\<lambda>(es, r'). (e # es, r')) (read_exports n r))"

lemma takeWhile_append_stop: "\<forall>c \<in> set k. p c \<Longrightarrow> \<not> p x \<Longrightarrow> takeWhile p (k @ x # s) = k"
  by (induction k) auto

lemma read_export_text:
  assumes "CHR ''='' \<notin> set k"
  shows "read_export (export_text (k, v) @ ''; '' @ s) = Some ((k, v), s)"
proof -
  have k: "takeWhile (\<lambda>c. c \<noteq> CHR ''='') (k @ CHR ''='' # t) = k" for t
    using assms by (intro takeWhile_append_stop) auto
  have w: "sh_word (CHR '';'' # t) = Some ([], CHR '';'' # t)" for t
    by (subst sh_word.simps) (simp add: sh_special_def quote_char_def)
  have q: "sh_word (shellSingleQuote (Some v) @ CHR '';'' # t) = Some (v, CHR '';'' # t)" for t
    using sh_word_quoted[of v "CHR '';'' # t"] by (simp add: shellSingleQuote_def w)
  show ?thesis using k q by (simp add: read_export_def export_text_def Let_def)
qed

lemma read_exports_join:
  "es \<noteq> [] \<Longrightarrow> \<forall>(k, v) \<in> set es. CHR ''='' \<notin> set k \<Longrightarrow>
   read_exports (length es) (join ''; '' (map export_text es) @ ''; '' @ s) = Some (es, s)"
proof (induction es rule: induct_list012)
  case (2 e)
  then show ?case using read_export_text[of "fst e" "snd e" s] by (cases e) auto
next
  case (3 e f es)
  let ?rest = "join ''; '' (map export_text (f # es)) @ ''; '' @ s"
  have "read_export (join ''; '' (map export_text (e # f # es)) @ ''; '' @ s) = Some (e, ?rest)"
    using read_export_text[of "fst e" "snd e" ?rest] "3.prems"(2) by (cases e) auto
  then show ?case using 3 by simp
qed simp

lemma valid_key_plain: "isValidEnvironmentKey k \<Longrightarrow> CHR ''='' \<notin> set k \<and> \<not> array_index k"
  by (cases k) (auto simp: isValidEnvironmentKey_def list_all_iff key_start_def array_index_def digit_def less_eq_char_def)

lemma channel_entries:
  assumes "getChannelEnvironment environment = Some es"
  shows "es \<noteq> [] \<and> (\<forall>(k, v) \<in> set es. isValidEnvironmentKey k)"
  using assms by (auto simp: getChannelEnvironment_def Let_def split: option.splits if_splits)

lemma export_prefix_ne: "getChannelEnvironment environment = Some es \<Longrightarrow> buildEnvironmentExportPrefix environment \<noteq> []"
proof -
  assume "getChannelEnvironment environment = Some es"
  moreover from this obtain e es' where "es = e # es'" using channel_entries by (cases es) fastforce+
  ultimately show ?thesis by (cases es') (simp_all add: buildEnvironmentExportPrefix_def export_text_def)
qed

subsection \<open>Properties\<close>

text \<open>C32: The remote shell reads back exactly what the backend meant: when an environment has a variable whose name
  is an identifier, the command begins with one export for each such variable and no other, sorted by name,
  with the value the user gave, whatever quotes, blanks, semicolons or dollar signs it holds, and ends with
  the command unchanged; it is the command alone only when there is no such variable.\<close>

theorem exec_command_reads_back:
  "case getChannelEnvironment environment of
     None \<Rightarrow> buildExecCommand command environment = command \<and>
       (\<forall>env. environment = Some env \<longrightarrow> filter (\<lambda>(k, v). isValidEnvironmentKey k) env = [])
   | Some es \<Rightarrow> es \<noteq> [] \<and>
       read_exports (length es) (buildExecCommand command environment) = Some (es, command) \<and>
       sorted_wrt (\<lambda>l r. code_unit_compare (fst l) (fst r) \<le> 0) es \<and>
       (\<forall>env. environment = Some env \<longrightarrow>
          mset es = mset (filter (\<lambda>(k, v). isValidEnvironmentKey k) env))"
proof (cases "getChannelEnvironment environment")
  case None
  have "filter (\<lambda>(k, v). isValidEnvironmentKey k) env = []" if env: "environment = Some env" for env
  proof (rule ccontr)
    assume "filter (\<lambda>(k, v). isValidEnvironmentKey k) env \<noteq> []"
    then obtain k v where kv: "(k, v) \<in> set env" "isValidEnvironmentKey k" by (auto simp: filter_empty_conv)
    then have "(k, v) \<in> set (filter (\<lambda>(k, v). isValidEnvironmentKey k) (obj_entries env))"
      using valid_key_plain[OF kv(2)] by (auto simp: obj_entries_def)
    then have "filter (\<lambda>(k, v). isValidEnvironmentKey k) (obj_entries env) \<noteq> []" by (metis list.set(1) empty_iff)
    with None env show False by (auto simp: getChannelEnvironment_def Let_def split: if_splits)
  qed
  with None show ?thesis by (simp add: buildExecCommand_def buildEnvironmentExportPrefix_def)
next
  case (Some es)
  have plain: "\<forall>(k, v) \<in> set es. CHR ''='' \<notin> set k"
    using channel_entries[OF Some] valid_key_plain by fastforce
  have "buildExecCommand command environment = join ''; '' (map export_text es) @ ''; '' @ command"
    using Some export_prefix_ne[OF Some] by (simp add: buildExecCommand_def buildEnvironmentExportPrefix_def Let_def)
  moreover have "sorted_wrt (\<lambda>l r. code_unit_compare (fst l) (fst r) \<le> 0) es"
    using Some code_units.by_name_sorted[of fst]
    by (auto simp: getChannelEnvironment_def by_name_def Let_def split: option.splits if_splits)
  moreover have "mset es = mset (filter (\<lambda>(k, v). isValidEnvironmentKey k) env)" if env: "environment = Some env" for env
  proof -
    have none: "filter (\<lambda>(k, v). isValidEnvironmentKey k) (sort_key f (filter (\<lambda>e. array_index (fst e)) env)) = []" for f :: "_ \<Rightarrow> nat"
      using valid_key_plain by (auto simp: filter_empty_conv)
    have "filter (\<lambda>(k, v). isValidEnvironmentKey k) (filter (\<lambda>e. \<not> array_index (fst e)) env) =
        filter (\<lambda>(k, v). isValidEnvironmentKey k) env"
      using valid_key_plain by (auto simp: filter_filter intro!: filter_cong)
    then show ?thesis using Some env none
      by (auto simp: getChannelEnvironment_def obj_entries_def Let_def split: if_splits)
  qed
  ultimately show ?thesis
    using Some read_exports_join[OF _ plain, of command] channel_entries[OF Some] by simp
qed

lemma quoted_value_is_one_word:
  "sh_word (shellSingleQuote v) = Some (coalesce v [], [])"
  using sh_word_quoted[of "coalesce v []" "[]"] by (simp add: shellSingleQuote_def sh_word.simps)

lemma exec_command_reads_back_witness:
  "read_exports 2 (buildExecCommand ''ls'' (Some [(''B'', ''it's; rm -rf $HOME''), (''1'', ''x''), (''A'', [])])) =
     Some ([(''A'', []), (''B'', ''it's; rm -rf $HOME'')], ''ls'')"
proof -
  let ?env = "Some [(''B'', ''it's; rm -rf $HOME''), (''1'', ''x''), (''A'', [])]"
  have "getChannelEnvironment ?env = Some [(''A'', []), (''B'', ''it's; rm -rf $HOME'')]"
  proof -
    have "obj_entries [(''B'', ''it's; rm -rf $HOME''), (''1'', ''x''), (''A'', [])] =
        [(''1'', ''x''), (''B'', ''it's; rm -rf $HOME''), (''A'', [])]"
      by (simp add: obj_entries_def array_index_def digit_def nat_of_digits_def digit_value_def)
    moreover have "isValidEnvironmentKey ''A''" "isValidEnvironmentKey ''B''" "\<not> isValidEnvironmentKey ''1''"
      "code_unit_compare ''B'' ''A'' = 1" by code_simp+
    ultimately show ?thesis by (simp add: getChannelEnvironment_def Let_def)
  qed
  with exec_command_reads_back[of "''ls''" ?env] show ?thesis by (simp add: numeral_2_eq_2)
qed

subsection \<open>Remote commands\<close>

text \<open>
  What a run reports: the stages it went through and its end. A deadline carries the milliseconds
  of its budget.
\<close>

datatype command_end =
  Command_closed (ce_stdout: string) (ce_stderr: string) (ce_code: "int option")
| Command_deadline int
| Command_error

record command_run =
  cr_stages :: "string list"
  cr_end :: command_end

datatype command_failure =
  Remote_command_exited "int option"
| Timed_out int
| Ssh_failed string

record command_target =
  ct_id :: string
  ct_label :: string

record command_result =
  cx_targetId :: string
  cx_label :: string
  cx_ok :: bool
  cx_stdout :: string
  cx_stderr :: string
  cx_exitCode :: "int option"
  cx_failure :: "command_failure option"

definition commandResult ::
    "command_target \<Rightarrow> bool \<Rightarrow> string \<Rightarrow> string \<Rightarrow> int option \<Rightarrow> command_failure option \<Rightarrow> command_result" where
  "commandResult t ok out err code failure = \<lparr>cx_targetId = ct_id t, cx_label = ct_label t, cx_ok = ok,
     cx_stdout = out, cx_stderr = err, cx_exitCode = code, cx_failure = failure\<rparr>"

text \<open>\<open>Math.round(ms / 1000)\<close>.\<close>

definition round_seconds :: "int \<Rightarrow> int" where
  "round_seconds ms = (ms + 500) div 1000"

definition executeRemoteCommand :: "command_target \<Rightarrow> command_run \<Rightarrow> command_result" where
  "executeRemoteCommand t r =
     (case cr_end r of
        Command_closed out err code \<Rightarrow>
          let ok = (code = Some 0) in
          commandResult t ok out err code (if ok then None else Some (Remote_command_exited code))
      | Command_deadline ms \<Rightarrow> commandResult t False [] [] None (Some (Timed_out (round_seconds ms)))
      | Command_error \<Rightarrow>
          commandResult t False [] [] None (Some (Ssh_failed (last (''configuration'' # cr_stages r)))))"

text \<open>Errors of the transport: whether the host key was refused, the level and the message.\<close>

record transport_error =
  te_rejected :: bool
  te_level :: "string option"
  te_message :: string

definition sshFailureStage :: "transport_error \<Rightarrow> string option" where
  "sshFailureStage e =
     (if te_rejected e then Some ''host-key-verification''
      else if te_level e = Some ''handshake'' then
        Some (if te_message e = ''Host denied (verification failed)'' then ''host-key-verification'' else ''handshake'')
      else if te_level e = Some ''client-authentication'' \<or> te_level e = Some ''agent'' then Some ''authentication''
      else if te_level e = Some ''client-timeout'' then Some ''handshake''
      else if te_level e = Some ''client-socket'' \<or> te_level e = Some ''client-dns'' then Some ''connect''
      else None)"

subsection \<open>Copying a public key\<close>

datatype copy_failure =
  Copy_path_required
| Copy_host_required
| Public_key_unreadable string
| Public_key_empty string
| Remote_command_failed string command_failure

definition copy_command :: "string \<Rightarrow> string" where
  "copy_command publicKey = ''mkdir -p ~/.ssh && chmod 700 ~/.ssh && '' @
     ''printf '' @ [quote_char] @ ''%s'' @ [CHR 0x5C] @ ''n'' @ [quote_char] @ '' '' @ shellSingleQuote (Some publicKey) @
     '' >> ~/.ssh/authorized_keys && '' @ ''chmod 600 ~/.ssh/authorized_keys && echo OK''"

text \<open>
  \<open>readFile\<close> is the content of the public key, if it can be read; \<open>run\<close> is what the remote command
  reports. \<open>None\<close> as result is success.
\<close>

definition copyKeyToHostBackend ::
    "(string \<Rightarrow> string option) \<Rightarrow> (string \<Rightarrow> command_run) \<Rightarrow> string option \<Rightarrow> string option \<Rightarrow> copy_failure option" where
  "copyKeyToHostBackend readFile run privateKeyPath hostname =
     (if \<not> truthy privateKeyPath then Some Copy_path_required
      else if \<not> truthy hostname then Some Copy_host_required
      else let publicKeyPath = the privateKeyPath @ ''.pub'' in
        case readFile publicKeyPath of
          None \<Rightarrow> Some (Public_key_unreadable publicKeyPath)
        | Some content \<Rightarrow>
            let publicKey = trim content in
            if publicKey = [] then Some (Public_key_empty publicKeyPath)
            else let r = executeRemoteCommand \<lparr>ct_id = the hostname, ct_label = the hostname\<rparr> (run (copy_command publicKey))
              in if cx_ok r \<and> ends_with ''OK'' (trim (cx_stdout r)) then None
                 else Some (Remote_command_failed (the hostname)
                   (case cx_failure r of Some f \<Rightarrow> f | None \<Rightarrow> Remote_command_exited (cx_exitCode r))))"

text \<open>A result is ok exactly when it has no failure, and then the exit code is zero.\<close>

lemma command_result_ok:
  "cx_ok (executeRemoteCommand t r) \<longleftrightarrow> cx_failure (executeRemoteCommand t r) = None"
  "cx_ok (executeRemoteCommand t r) \<Longrightarrow> cx_exitCode (executeRemoteCommand t r) = Some 0"
  by (auto simp: executeRemoteCommand_def commandResult_def Let_def split: command_end.splits)

text \<open>In the command that installs a key, the words after \<open>printf\<close> are the format and the key.\<close>

lemma copy_command_words:
  "\<exists>before after. copy_command k = before @ shellSingleQuote (Some k) @ after \<and>
     sh_word (shellSingleQuote (Some k) @ after) = Some (k, after)"
proof -
  let ?after = "'' >> ~/.ssh/authorized_keys && chmod 600 ~/.ssh/authorized_keys && echo OK''"
  have "sh_word ?after = Some ([], ?after)"
    by (subst sh_word.simps) (simp add: sh_special_def quote_char_def)
  then have "sh_word (shellSingleQuote (Some k) @ ?after) = Some (k, ?after)"
    using sh_word_quoted[of k ?after] by (simp add: shellSingleQuote_def)
  moreover have "copy_command k = (''mkdir -p ~/.ssh && chmod 700 ~/.ssh && '' @ ''printf '' @ [quote_char] @ ''%s'' @
      [CHR 0x5C] @ ''n'' @ [quote_char] @ '' '') @ shellSingleQuote (Some k) @ ?after"
    by (simp add: copy_command_def)
  ultimately show ?thesis by blast
qed

end
