(* ===== verification/Deadline.thy ===== *)
theory Deadline
  imports Main
begin

section \<open>Operation deadlines (\<open>server/backend-deadline.mjs\<close>)\<close>

text \<open>
  \<open>withDeadline\<close> races an operation against a timer. The state holds what the closure holds: the
  state of the race, the registered clean-ups, the timer with the time it is due and the budget
  it reports, the clean-ups that have run, in order, and the outcome. Times are milliseconds. A
  clean-up is a number; that it may throw does not matter, because each one is isolated.
\<close>

definition REMOTE_COMMAND_TIMEOUT_MS :: int where "REMOTE_COMMAND_TIMEOUT_MS = 60000"
definition SFTP_CONTROL_TIMEOUT_MS :: int where "SFTP_CONTROL_TIMEOUT_MS = 30000"
definition SFTP_UPLOAD_TIMEOUT_MS :: int where "SFTP_UPLOAD_TIMEOUT_MS = 222000"
definition SFTP_DOWNLOAD_IDLE_TIMEOUT_MS :: int where "SFTP_DOWNLOAD_IDLE_TIMEOUT_MS = 30000"
definition SFTP_DOWNLOAD_TOTAL_TIMEOUT_MS :: int where "SFTP_DOWNLOAD_TOTAL_TIMEOUT_MS = 1800000"

datatype race_state = Active | Completed | Timed_out_race

datatype race_outcome = Settled_ok | Settled_error | Expired int

record race =
  rc_state :: race_state
  rc_cleanups :: "nat list"
  rc_timer :: "(int \<times> int) option"
  rc_ran :: "nat list"
  rc_outcome :: "race_outcome option"

text \<open>The budgets and the time of the start.\<close>

record budget =
  bg_timeout :: int
  bg_total :: "int option"
  bg_start :: int

definition fire :: "int \<Rightarrow> race \<Rightarrow> race" where
  "fire expiredMs r =
     (if rc_state r \<noteq> Active then r
      else r\<lparr>rc_state := Timed_out_race, rc_ran := rc_ran r @ rev (rc_cleanups r),
             rc_cleanups := rev (rc_cleanups r), rc_outcome := Some (Expired expiredMs)\<rparr>)"

definition armTimer :: "budget \<Rightarrow> int \<Rightarrow> race \<Rightarrow> race" where
  "armTimer b now r =
     (case bg_total b of
        None \<Rightarrow> r\<lparr>rc_timer := Some (now + bg_timeout b, bg_timeout b)\<rparr>
      | Some limit \<Rightarrow>
          let remainingTotal = limit - (now - bg_start b) in
          if remainingTotal \<le> 0 then fire limit r
          else if remainingTotal < bg_timeout b then r\<lparr>rc_timer := Some (now + remainingTotal, limit)\<rparr>
          else r\<lparr>rc_timer := Some (now + bg_timeout b, bg_timeout b)\<rparr>)"

definition resetDeadline :: "budget \<Rightarrow> int \<Rightarrow> race \<Rightarrow> race" where
  "resetDeadline b now r =
     (if rc_state r \<noteq> Active then r else armTimer b now (r\<lparr>rc_timer := None\<rparr>))"

definition onTimeout :: "nat \<Rightarrow> race \<Rightarrow> race" where
  "onTimeout c r =
     (if rc_state r = Timed_out_race then r\<lparr>rc_ran := rc_ran r @ [c]\<rparr>
      else r\<lparr>rc_cleanups := rc_cleanups r @ [c]\<rparr>)"

text \<open>The operation settles: the timer is cleared, and the outcome is its own if it is the first.\<close>

definition settle :: "bool \<Rightarrow> race \<Rightarrow> race" where
  "settle ok r =
     (let r' = r\<lparr>rc_state := (if rc_state r = Active then Completed else rc_state r), rc_timer := None\<rparr>
      in case rc_outcome r of
           None \<Rightarrow> r'\<lparr>rc_outcome := Some (if ok then Settled_ok else Settled_error)\<rparr>
         | Some _ \<Rightarrow> r')"

definition timer_due :: "int \<Rightarrow> race \<Rightarrow> race" where
  "timer_due now r =
     (case rc_timer r of
        None \<Rightarrow> r
      | Some (t, expiredMs) \<Rightarrow> if t \<le> now then fire expiredMs (r\<lparr>rc_timer := None\<rparr>) else r)"

definition start_race :: "budget \<Rightarrow> race" where
  "start_race b = armTimer b (bg_start b)
     \<lparr>rc_state = Active, rc_cleanups = [], rc_timer = None, rc_ran = [], rc_outcome = None\<rparr>"

subsection \<open>Runs\<close>

datatype race_event = Registered nat | Progressed | Settled bool | Timer_due

definition handle :: "budget \<Rightarrow> int \<Rightarrow> race_event \<Rightarrow> race \<Rightarrow> race" where
  "handle b now e r =
     (case e of
        Registered c \<Rightarrow> onTimeout c r
      | Progressed \<Rightarrow> resetDeadline b now r
      | Settled ok \<Rightarrow> settle ok r
      | Timer_due \<Rightarrow> timer_due now r)"

text \<open>A run: the events with their times, in order, from the start; the operation settles at most once.\<close>

inductive run :: "budget \<Rightarrow> (int \<times> race_event) list \<Rightarrow> race \<Rightarrow> bool" for b where
  start: "run b [] (start_race b)"
| event: "run b es r \<Longrightarrow> (\<And>t f. (t, f) \<in> set es \<Longrightarrow> t \<le> now) \<Longrightarrow> bg_start b \<le> now \<Longrightarrow>
    run b (es @ [(now, e)]) (handle b now e r)"

definition registered :: "(int \<times> race_event) list \<Rightarrow> nat list" where
  "registered es = concat (map (\<lambda>(t, e). case e of Registered c \<Rightarrow> [c] | _ \<Rightarrow> []) es)"

text \<open>The last time the idle budget began: the start or the last progress.\<close>

definition last_progress :: "budget \<Rightarrow> (int \<times> race_event) list \<Rightarrow> int" where
  "last_progress b es = last (bg_start b # map fst (filter (\<lambda>e. snd e = Progressed) es))"

lemma registered_simps [simp]:
  "registered [] = []"
  "registered (es @ [(t, e)]) = registered es @ (case e of Registered c \<Rightarrow> [c] | _ \<Rightarrow> [])"
  by (auto simp: registered_def split: race_event.splits)

lemma last_progress_simps [simp]:
  "last_progress b [] = bg_start b"
  "last_progress b (es @ [(t, e)]) = (if e = Progressed then t else last_progress b es)"
  by (auto simp: last_progress_def)

subsection \<open>The invariant\<close>

text \<open>
  While the race is on, a timer is set, it is due no later than both budgets allow and reports a
  budget that will have run out by then. After the deadline every registered clean-up has run
  exactly once, those registered before it in reverse order; otherwise none has.
\<close>

definition budget_spent :: "budget \<Rightarrow> int \<Rightarrow> int \<Rightarrow> int \<Rightarrow> bool" where
  "budget_spent b since due expiredMs \<longleftrightarrow>
     (expiredMs = bg_timeout b \<and> since + bg_timeout b \<le> due) \<or>
     (bg_total b = Some expiredMs \<and> bg_start b + expiredMs \<le> due)"

definition cleaned :: "nat list \<Rightarrow> nat list \<Rightarrow> bool" where
  "cleaned reg executed \<longleftrightarrow> (\<exists>before after. reg = before @ after \<and> executed = rev before @ after)"

definition race_ok :: "budget \<Rightarrow> (int \<times> race_event) list \<Rightarrow> race \<Rightarrow> bool" where
  "race_ok b es r \<longleftrightarrow>
     (case rc_state r of
        Active \<Rightarrow> rc_ran r = [] \<and> rc_outcome r = None \<and> rc_cleanups r = registered es \<and>
          (\<exists>t m. rc_timer r = Some (t, m) \<and> t \<le> last_progress b es + bg_timeout b \<and>
             (\<forall>limit. bg_total b = Some limit \<longrightarrow> t \<le> bg_start b + limit) \<and>
             budget_spent b (last_progress b es) t m)
      | Completed \<Rightarrow> rc_ran r = [] \<and> rc_timer r = None \<and> rc_outcome r \<in> {Some Settled_ok, Some Settled_error}
      | Timed_out_race \<Rightarrow> cleaned (registered es) (rc_ran r) \<and> (\<exists>m. rc_outcome r = Some (Expired m) \<and> (m = bg_timeout b \<or> bg_total b = Some m)))"

lemma cleaned_all: "cleaned xs (rev xs)"
  by (auto simp: cleaned_def intro: exI[of _ "[]"])

lemma cleaned_late: "cleaned xs ys \<Longrightarrow> cleaned (xs @ [c]) (ys @ [c])"
  unfolding cleaned_def by (metis append_assoc)

lemma armed:
  assumes "rc_state r = Active" "bg_start b \<le> now"
  shows "(rc_state (armTimer b now r) = Active \<longrightarrow>
      (\<exists>t m. armTimer b now r = r\<lparr>rc_timer := Some (t, m)\<rparr> \<and> t \<le> now + bg_timeout b \<and>
         (\<forall>limit. bg_total b = Some limit \<longrightarrow> t \<le> bg_start b + limit) \<and> budget_spent b now t m)) \<and>
    (rc_state (armTimer b now r) \<noteq> Active \<longrightarrow>
      (\<exists>m. bg_total b = Some m \<and> bg_start b + m \<le> now \<and> armTimer b now r = fire m r))"
proof (cases "bg_total b")
  case None
  then show ?thesis using assms by (auto simp: armTimer_def budget_spent_def intro: exI[of _ "now + bg_timeout b"])
next
  case (Some limit)
  define rest where "rest = limit - (now - bg_start b)"
  consider "rest \<le> 0" | "0 < rest" "rest < bg_timeout b" | "0 < rest" "bg_timeout b \<le> rest" by linarith
  then show ?thesis
  proof cases
    case 1
    then have "armTimer b now r = fire limit r" using Some by (simp add: armTimer_def rest_def)
    then show ?thesis using assms Some 1 by (auto simp: fire_def rest_def)
  next
    case 2
    then have "armTimer b now r = r\<lparr>rc_timer := Some (now + rest, limit)\<rparr>"
      using Some by (simp add: armTimer_def rest_def)
    moreover have eq: "now + rest = bg_start b + limit" by (simp add: rest_def)
    ultimately have "\<exists>t m. armTimer b now r = r\<lparr>rc_timer := Some (t, m)\<rparr> \<and> t \<le> now + bg_timeout b \<and>
        (\<forall>limit. bg_total b = Some limit \<longrightarrow> t \<le> bg_start b + limit) \<and> budget_spent b now t m"
      using Some 2 by (intro exI[of _ "now + rest"] exI[of _ limit]) (auto simp: budget_spent_def)
    moreover have "rc_state (armTimer b now r) = Active"
      using assms Some 2 by (simp add: armTimer_def rest_def)
    ultimately show ?thesis by simp
  next
    case 3
    then have "armTimer b now r = r\<lparr>rc_timer := Some (now + bg_timeout b, bg_timeout b)\<rparr>"
      using Some by (simp add: armTimer_def rest_def)
    moreover have "now + bg_timeout b \<le> bg_start b + limit" using 3 by (simp add: rest_def)
    ultimately show ?thesis using assms Some by (auto simp: budget_spent_def)
  qed
qed

lemma fire_active:
  "rc_state r = Active \<Longrightarrow> rc_state (fire m r) = Timed_out_race \<and> rc_ran (fire m r) = rc_ran r @ rev (rc_cleanups r) \<and>
     rc_outcome (fire m r) = Some (Expired m)"
  by (simp add: fire_def)

lemma race_ok_fire:
  assumes "rc_state r = Active" "rc_ran r = []" "rc_cleanups r = registered es" "m = bg_timeout b \<or> bg_total b = Some m"
  shows "race_ok b es (fire m r)"
  using assms by (auto simp: race_ok_def fire_def cleaned_all)

lemma race_ok_start: "race_ok b [] (start_race b)"
proof -
  let ?r = "\<lparr>rc_state = Active, rc_cleanups = [], rc_timer = None, rc_ran = [], rc_outcome = None\<rparr>"
  note a = armed[of ?r b "bg_start b"]
  show ?thesis
  proof (cases "rc_state (start_race b) = Active")
    case True
    with a show ?thesis by (auto simp: race_ok_def start_race_def)
  next
    case False
    with a obtain m where "bg_total b = Some m" "start_race b = fire m ?r" by (auto simp: start_race_def)
    then show ?thesis using race_ok_fire[of ?r "[]" m b] by simp
  qed
qed

lemma race_ok_progress:
  assumes "race_ok b es r" "bg_start b \<le> now"
  shows "race_ok b (es @ [(now, Progressed)]) (resetDeadline b now r)"
proof (cases "rc_state r = Active")
  case True
  let ?r = "r\<lparr>rc_timer := None\<rparr>"
  have r: "rc_ran ?r = []" "rc_outcome ?r = None" "rc_cleanups ?r = registered es" "rc_state ?r = Active"
    using assms(1) True by (auto simp: race_ok_def)
  have eq: "resetDeadline b now r = armTimer b now ?r" using True by (simp add: resetDeadline_def)
  note a = armed[OF r(4) assms(2)]
  show ?thesis
  proof (cases "rc_state (armTimer b now ?r) = Active")
    case True
    with a obtain t m where "armTimer b now ?r = ?r\<lparr>rc_timer := Some (t, m)\<rparr>" "t \<le> now + bg_timeout b"
      "\<forall>limit. bg_total b = Some limit \<longrightarrow> t \<le> bg_start b + limit" "budget_spent b now t m" by blast
    with eq r show ?thesis by (simp add: race_ok_def)
  next
    case False
    with a obtain m where "bg_total b = Some m" "armTimer b now ?r = fire m ?r" by blast
    then show ?thesis using race_ok_fire[of ?r "es @ [(now, Progressed)]" m b] r eq by simp
  qed
qed (use assms in \<open>auto simp: race_ok_def resetDeadline_def split: race_state.splits\<close>)

lemma race_ok_register: "race_ok b es r \<Longrightarrow> race_ok b (es @ [(now, Registered c)]) (onTimeout c r)"
  by (cases "rc_state r") (auto simp: race_ok_def onTimeout_def cleaned_late)

lemma race_ok_settle: "race_ok b es r \<Longrightarrow> race_ok b (es @ [(now, Settled ok)]) (settle ok r)"
  by (cases "rc_state r") (auto simp: race_ok_def settle_def Let_def)

lemma race_ok_timer: "race_ok b es r \<Longrightarrow> race_ok b (es @ [(now, Timer_due)]) (timer_due now r)"
proof (cases "rc_state r = Active")
  case True
  assume ok: "race_ok b es r"
  with True obtain t m where t: "rc_timer r = Some (t, m)" "budget_spent b (last_progress b es) t m"
    "rc_ran r = []" "rc_cleanups r = registered es" by (auto simp: race_ok_def)
  show ?thesis
  proof (cases "t \<le> now")
    case True
    with t \<open>rc_state r = Active\<close> show ?thesis
      using race_ok_fire[of "r\<lparr>rc_timer := None\<rparr>" "es @ [(now, Timer_due)]" m b]
      by (auto simp: timer_due_def budget_spent_def)
  next
    case False
    with ok t show ?thesis by (auto simp: timer_due_def race_ok_def split: race_state.splits)
  qed
next
  case False
  assume "race_ok b es r"
  with False show ?thesis
    by (cases "rc_state r") (auto simp: race_ok_def timer_due_def fire_def split: option.splits)
qed

lemma race_ok_run: "run b es r \<Longrightarrow> race_ok b es r"
proof (induction rule: run.induct)
  case start
  show ?case by (rule race_ok_start)
next
  case (event es r now e)
  then show ?case
    by (cases e) (simp_all add: handle_def race_ok_progress race_ok_register race_ok_settle race_ok_timer)
qed

text \<open>C31: after every sequence of registrations, progress, settling and timer events, an operation that
  is still racing has a timer that is due within the idle budget from the last progress and within
  the total budget from the start; when the deadline has won, every registered clean-up has run
  exactly once, those registered before it in reverse order and the later ones at once, and the
  caller got the timeout; when the operation finished first, no clean-up has run.\<close>

theorem deadline_invariant: "run b es r \<Longrightarrow> race_ok b es r"
  by (rule race_ok_run)

definition download_budget :: budget where
  "download_budget = \<lparr>bg_timeout = SFTP_DOWNLOAD_IDLE_TIMEOUT_MS, bg_total = Some SFTP_DOWNLOAD_TOTAL_TIMEOUT_MS,
     bg_start = 0\<rparr>"

definition sample_events :: "(int \<times> race_event) list" where
  "sample_events = [(10, Registered 1), (20, Registered 2), (29000, Progressed), (59000, Timer_due), (59001, Registered 3)]"

lemma sample_run: "run b es (fold (\<lambda>(t, e). handle b t e) es (start_race b))"
  if "sorted (bg_start b # map fst es)" for es
  using that
proof (induction es rule: rev_induct)
  case Nil
  show ?case using start by simp
next
  case (snoc x es)
  obtain t e where x: "x = (t, e)" by fastforce
  have s: "sorted (map fst es)" "\<forall>u \<in> fst ` set es. u \<le> t" "bg_start b \<le> t" "\<forall>u \<in> fst ` set es. bg_start b \<le> u"
    using snoc.prems by (auto simp: x sorted_append)
  then have "run b es (fold (\<lambda>(t, e). handle b t e) es (start_race b))"
    using snoc.IH by (auto)
  from event[OF this, of t e] s show ?case by (force simp: x)
qed

lemma deadline_invariant_witness:
  "race_ok download_budget sample_events (fold (\<lambda>(t, e). handle download_budget t e) sample_events (start_race download_budget)) \<and>
   rc_ran (fold (\<lambda>(t, e). handle download_budget t e) sample_events (start_race download_budget)) = [2, 1, 3]"
proof
  show "race_ok download_budget sample_events (fold (\<lambda>(t, e). handle download_budget t e) sample_events (start_race download_budget))"
    by (rule deadline_invariant, rule sample_run) (simp add: download_budget_def sample_events_def)
  show "rc_ran (fold (\<lambda>(t, e). handle download_budget t e) sample_events (start_race download_budget)) = [2, 1, 3]"
    by code_simp
qed

text \<open>a peer that sends a byte just inside every idle interval cannot hold an operation: once the
  total budget has passed, the next progress or timer event ends the race; and the budget that the
  error reports is one that has really run out, the idle budget since the last progress or the
  total budget since the start.\<close>

theorem expiry_is_truthful:
  assumes "run b es r" "rc_state r = Active" "\<And>t f. (t, f) \<in> set es \<Longrightarrow> t \<le> now" "bg_start b \<le> now"
  shows "(rc_state (handle b now e r) = Timed_out_race \<longrightarrow>
      (\<exists>m. rc_outcome (handle b now e r) = Some (Expired m) \<and>
        (m = bg_timeout b \<and> last_progress b es + m \<le> now \<or> bg_total b = Some m \<and> bg_start b + m \<le> now))) \<and>
    (\<forall>limit. bg_total b = Some limit \<and> bg_start b + limit \<le> now \<and> e \<in> {Progressed, Timer_due} \<longrightarrow>
      rc_state (handle b now e r) = Timed_out_race)"
proof -
  have ok: "race_ok b es r" by (rule race_ok_run[OF assms(1)])
  then obtain t m where t: "rc_timer r = Some (t, m)" "budget_spent b (last_progress b es) t m"
    "\<forall>limit. bg_total b = Some limit \<longrightarrow> t \<le> bg_start b + limit"
    using assms(2) by (auto simp: race_ok_def)
  show ?thesis
  proof (cases e)
    case Progressed
    then show ?thesis
      using assms(2,4) by (auto simp: handle_def resetDeadline_def armTimer_def fire_def Let_def split: option.splits)
  next
    case Timer_due
    then show ?thesis
      using assms(2) t by (auto simp: handle_def timer_due_def fire_def budget_spent_def)
  qed (use assms(2) in \<open>auto simp: handle_def onTimeout_def settle_def Let_def split: option.splits\<close>)
qed

lemma expiry_is_truthful_witness:
  "rc_state (handle download_budget 1800000 Progressed (start_race download_budget)) = Timed_out_race"
proof -
  have "run download_budget [] (start_race download_budget)" by (rule start)
  moreover have "rc_state (start_race download_budget) = Active" by code_simp
  ultimately show ?thesis
    using expiry_is_truthful[of download_budget "[]" "start_race download_budget" 1800000 Progressed]
    by (simp add: download_budget_def SFTP_DOWNLOAD_TOTAL_TIMEOUT_MS_def)
qed

end
