(* ===== verification/BackendBuffers.thy ===== *)
theory BackendBuffers
  imports Bytes
begin

section \<open>Bounded memory (\<open>server/backend-buffers.mjs\<close>) and error responses (\<open>server/backend-responses.mjs\<close>)\<close>

text \<open>
  The body of a request is read in chunks up to a limit, the output of a session that no client is
  attached to is kept up to a limit, oldest chunks dropped first. An error is answered with a
  status and a text that is never taken from the error, with two exceptions.
\<close>

definition REQUEST_BODY_MAX_BYTES :: nat where "REQUEST_BODY_MAX_BYTES = 1048576"
definition SFTP_UPLOAD_MAX_BYTES :: nat where "SFTP_UPLOAD_MAX_BYTES = 67108864"
definition SESSION_BUFFER_MAX_BYTES :: nat where "SESSION_BUFFER_MAX_BYTES = 262144"

subsection \<open>Reading a body\<close>

datatype read_error = Payload_too_large nat | Malformed_body | Stream_error

text \<open>What the stream delivers: chunks of bytes, then its end or an error.\<close>

datatype stream_end = Stream_ended | Stream_failed

record reading =
  rd_chunks :: "bytes list"
  rd_total :: nat
  rd_settled :: "(read_error + bytes) option"

definition read_chunk :: "nat \<Rightarrow> bytes \<Rightarrow> reading \<Rightarrow> reading" where
  "read_chunk maxBytes c r =
     (if rd_settled r \<noteq> None then r
      else let tot = rd_total r + length c in
        if tot > maxBytes then r\<lparr>rd_total := tot, rd_settled := Some (Inl (Payload_too_large maxBytes))\<rparr>
        else r\<lparr>rd_total := tot, rd_chunks := rd_chunks r @ [c]\<rparr>)"

definition read_end :: "stream_end \<Rightarrow> reading \<Rightarrow> reading" where
  "read_end e r =
     (if rd_settled r \<noteq> None then r
      else r\<lparr>rd_settled := Some (case e of Stream_ended \<Rightarrow> Inr (concat (rd_chunks r)) | Stream_failed \<Rightarrow> Inl Stream_error)\<rparr>)"

definition reading_start :: reading where
  "reading_start = \<lparr>rd_chunks = [], rd_total = 0, rd_settled = None\<rparr>"

definition read_body :: "nat \<Rightarrow> int option \<Rightarrow> bytes list \<Rightarrow> stream_end \<Rightarrow> reading" where
  "read_body maxBytes declared chunks e =
     (case declared of
        Some n \<Rightarrow>
          if n > int maxBytes then reading_start\<lparr>rd_settled := Some (Inl (Payload_too_large maxBytes))\<rparr>
          else read_end e (fold (read_chunk maxBytes) chunks reading_start)
      | None \<Rightarrow> read_end e (fold (read_chunk maxBytes) chunks reading_start))"

text \<open>\<open>JSON.parse\<close> of the text is a parameter.\<close>

definition readJson ::
    "(bytes \<Rightarrow> 'j option) \<Rightarrow> nat \<Rightarrow> int option \<Rightarrow> bytes list \<Rightarrow> stream_end \<Rightarrow> read_error + 'j" where
  "readJson parse maxBytes declared chunks e =
     (case rd_settled (read_body maxBytes declared chunks e) of
        Some (Inr b) \<Rightarrow> (case parse b of None \<Rightarrow> Inl Malformed_body | Some j \<Rightarrow> Inr j)
      | Some (Inl err) \<Rightarrow> Inl err
      | None \<Rightarrow> Inl Stream_error)"

subsection \<open>The replay buffer\<close>

record replay =
  rb_buffer :: "string list"
  rb_bytes :: nat
  rb_dropped :: nat

definition byteLength :: "string \<Rightarrow> nat" where
  "byteLength s = length (utf8_encode s)"

fun evict :: "nat \<Rightarrow> string list \<Rightarrow> nat \<Rightarrow> nat \<Rightarrow> replay" where
  "evict maxBytes [] b d = \<lparr>rb_buffer = [], rb_bytes = b, rb_dropped = d\<rparr>"
| "evict maxBytes [x] b d = \<lparr>rb_buffer = [x], rb_bytes = b, rb_dropped = d\<rparr>"
| "evict maxBytes (x # y # ys) b d =
     (if b > maxBytes then evict maxBytes (y # ys) (b - byteLength x) (d + byteLength x)
      else \<lparr>rb_buffer = x # y # ys, rb_bytes = b, rb_dropped = d\<rparr>)"

definition bufferDetachedOutput :: "nat \<Rightarrow> string \<Rightarrow> replay \<Rightarrow> replay" where
  "bufferDetachedOutput maxBytes data r =
     evict maxBytes (rb_buffer r @ [data]) (rb_bytes r + byteLength data) (rb_dropped r)"

definition replay_empty :: replay where
  "replay_empty = \<lparr>rb_buffer = [], rb_bytes = 0, rb_dropped = 0\<rparr>"

subsection \<open>Error responses\<close>

datatype backend_error =
  Host_key_rejected string
| Body_too_large nat
| Operation_timed_out
| Other_error (be_status: "int option") (be_text: string)

definition error_status :: "backend_error \<Rightarrow> int option" where
  "error_status e =
     (case e of Host_key_rejected _ \<Rightarrow> Some 403 | Body_too_large _ \<Rightarrow> Some 413 | Operation_timed_out \<Rightarrow> Some 504
      | Other_error s _ \<Rightarrow> s)"

text \<open>The status and the text of the answer; \<open>show\<close> writes a number.\<close>

definition respondError :: "backend_error \<Rightarrow> int \<Rightarrow> int \<times> string" where
  "respondError e status =
     (let code = coalesce (error_status e) status;
          generic = (if 400 \<le> code \<and> code < 500 then ''Invalid request.'' else ''Internal server error.'')
      in (code,
          case e of
            Host_key_rejected m \<Rightarrow> m
          | Body_too_large n \<Rightarrow>
              if n > 0 \<and> n \<le> 9007199254740991 then ''Request body exceeds the '' @ show_nat n @ ''-byte limit.'' else generic
          | _ \<Rightarrow> generic))"

subsection \<open>Properties\<close>

definition replay_ok :: "nat \<Rightarrow> replay \<Rightarrow> bool" where
  "replay_ok maxBytes r \<longleftrightarrow> rb_bytes r = sum_list (map byteLength (rb_buffer r)) \<and>
     (rb_bytes r \<le> maxBytes \<or> length (rb_buffer r) = 1)"

lemma evict_props:
  "b = sum_list (map byteLength xs) \<Longrightarrow>
   replay_ok maxBytes (evict maxBytes xs b d) \<and>
   (\<exists>out. xs = out @ rb_buffer (evict maxBytes xs b d) \<and>
      rb_dropped (evict maxBytes xs b d) = d + sum_list (map byteLength out)) \<and>
   (xs \<noteq> [] \<longrightarrow> rb_buffer (evict maxBytes xs b d) \<noteq> [])"
proof (induction maxBytes xs b d rule: evict.induct)
  case (3 maxBytes x y ys b d)
  show ?case
  proof (cases "b > maxBytes")
    case True
    have "b - byteLength x = sum_list (map byteLength (y # ys))" using "3.prems" by simp
    from "3.IH"[OF True this] obtain out where
      "replay_ok maxBytes (evict maxBytes (y # ys) (b - byteLength x) (d + byteLength x))"
      "y # ys = out @ rb_buffer (evict maxBytes (y # ys) (b - byteLength x) (d + byteLength x))"
      "rb_dropped (evict maxBytes (y # ys) (b - byteLength x) (d + byteLength x)) = d + byteLength x + sum_list (map byteLength out)"
      "rb_buffer (evict maxBytes (y # ys) (b - byteLength x) (d + byteLength x)) \<noteq> []" by blast
    with True show ?thesis by (auto intro!: exI[of _ "x # out"])
  next
    case False
    with "3.prems" show ?thesis by (auto simp: replay_ok_def)
  qed
qed (auto simp: replay_ok_def)

text \<open>the output kept for a session without a client is bounded and honest: after every chunk the
  byte count is the size of what is kept, which is within the limit unless the last chunk alone
  exceeds it, only oldest chunks were dropped, their bytes are added to the count that the client is
  told, and the newest chunk is always kept.\<close>

theorem replay_buffer_bounded:
  assumes "replay_ok maxBytes r"
  shows "replay_ok maxBytes (bufferDetachedOutput maxBytes data r) \<and>
    (\<exists>out. rb_buffer r @ [data] = out @ rb_buffer (bufferDetachedOutput maxBytes data r) \<and>
      rb_dropped (bufferDetachedOutput maxBytes data r) = rb_dropped r + sum_list (map byteLength out)) \<and>
    last (rb_buffer (bufferDetachedOutput maxBytes data r)) = data"
proof -
  have "rb_bytes r + byteLength data = sum_list (map byteLength (rb_buffer r @ [data]))"
    using assms by (simp add: replay_ok_def)
  note ev = evict_props[OF this, of maxBytes "rb_dropped r", folded bufferDetachedOutput_def]
  then obtain out where o: "rb_buffer r @ [data] = out @ rb_buffer (bufferDetachedOutput maxBytes data r)"
    "rb_dropped (bufferDetachedOutput maxBytes data r) = rb_dropped r + sum_list (map byteLength out)"
    by (elim conjE exE)
  have ne: "rb_buffer (bufferDetachedOutput maxBytes data r) \<noteq> []" using ev by simp
  moreover have "last (rb_buffer (bufferDetachedOutput maxBytes data r)) = data"
    using arg_cong[OF o(1), of last] ne by simp
  ultimately show ?thesis using ev o by blast
qed

lemma replay_buffer_bounded_witness:
  "rb_dropped (bufferDetachedOutput 4 ''cd'' (bufferDetachedOutput 4 ''ab'' (bufferDetachedOutput 4 ''xyz'' replay_empty))) = 3 \<and>
   replay_ok 4 (bufferDetachedOutput 4 ''cd'' (bufferDetachedOutput 4 ''ab'' (bufferDetachedOutput 4 ''xyz'' replay_empty)))"
proof
  show "rb_dropped (bufferDetachedOutput 4 ''cd'' (bufferDetachedOutput 4 ''ab'' (bufferDetachedOutput 4 ''xyz'' replay_empty))) = 3"
    by code_simp
  have "replay_ok 4 (bufferDetachedOutput 4 ''ab'' (bufferDetachedOutput 4 ''xyz'' replay_empty))" by code_simp
  from replay_buffer_bounded[OF this, of "''cd''"]
  show "replay_ok 4 (bufferDetachedOutput 4 ''cd'' (bufferDetachedOutput 4 ''ab'' (bufferDetachedOutput 4 ''xyz'' replay_empty)))"
    by blast
qed

lemma settled_stays: "rd_settled r = Some x \<Longrightarrow> fold (read_chunk maxBytes) cs r = r"
  by (induction cs) (simp_all add: read_chunk_def)

lemma read_chunks:
  "rd_settled r = None \<Longrightarrow> rd_total r = length (concat (rd_chunks r)) \<Longrightarrow> rd_total r \<le> maxBytes \<Longrightarrow>
   (if rd_total r + length (concat cs) \<le> maxBytes
    then rd_settled (fold (read_chunk maxBytes) cs r) = None \<and> rd_chunks (fold (read_chunk maxBytes) cs r) = rd_chunks r @ cs
    else rd_settled (fold (read_chunk maxBytes) cs r) = Some (Inl (Payload_too_large maxBytes)) \<and>
         length (concat (rd_chunks (fold (read_chunk maxBytes) cs r))) \<le> maxBytes)"
proof (induction cs arbitrary: r)
  case (Cons c cs)
  show ?case
  proof (cases "rd_total r + length c > maxBytes")
    case True
    let ?r = "r\<lparr>rd_total := rd_total r + length c, rd_settled := Some (Inl (Payload_too_large maxBytes))\<rparr>"
    have "fold (read_chunk maxBytes) (c # cs) r = ?r"
      using True Cons.prems settled_stays[of ?r] by (simp add: read_chunk_def)
    with True Cons.prems show ?thesis by simp
  next
    case False
    let ?r = "r\<lparr>rd_total := length (concat (rd_chunks r)) + length c, rd_chunks := rd_chunks r @ [c]\<rparr>"
    have "fold (read_chunk maxBytes) (c # cs) r = fold (read_chunk maxBytes) cs ?r"
      using False Cons.prems by (simp add: read_chunk_def)
    moreover note Cons.IH[of ?r]
    ultimately show ?thesis using Cons.prems(1,3) False by (simp add: Cons.prems(2) add.assoc)
  qed
qed simp

text \<open>reading a request never holds more than the limit in memory, and a body is either refused as
  too large, lost with its connection, or read completely: what is parsed is exactly the
  concatenation of the chunks, and a body within the limit is never refused as too large unless it
  was declared larger.\<close>

theorem request_body_bounded:
  "length (concat (rd_chunks (read_body maxBytes declared chunks e))) \<le> maxBytes \<and>
   (case rd_settled (read_body maxBytes declared chunks e) of
      None \<Rightarrow> False
    | Some (Inr b) \<Rightarrow> b = concat chunks \<and> length b \<le> maxBytes
    | Some (Inl err) \<Rightarrow>
        err = Stream_error \<and> e = Stream_failed \<or>
        err = Payload_too_large maxBytes \<and>
          (length (concat chunks) > maxBytes \<or> (\<exists>n. declared = Some n \<and> n > int maxBytes)))"
proof -
  have body: "length (concat (rd_chunks r)) \<le> maxBytes \<and>
      (case rd_settled r of
         None \<Rightarrow> False
       | Some (Inr b) \<Rightarrow> b = concat chunks \<and> length b \<le> maxBytes
       | Some (Inl err) \<Rightarrow> err = Stream_error \<and> e = Stream_failed \<or>
           err = Payload_too_large maxBytes \<and> length (concat chunks) > maxBytes)"
    if r: "r = read_end e (fold (read_chunk maxBytes) chunks reading_start)" for r
    using read_chunks[of reading_start maxBytes chunks]
    by (cases "length (concat chunks) \<le> maxBytes")
      (auto simp: r reading_start_def read_end_def split: stream_end.splits)
  show ?thesis
  proof (cases "\<exists>n. declared = Some n \<and> n > int maxBytes")
    case True
    then show ?thesis by (auto simp: read_body_def reading_start_def)
  next
    case False
    then have "read_body maxBytes declared chunks e = read_end e (fold (read_chunk maxBytes) chunks reading_start)"
      by (auto simp: read_body_def split: option.splits)
    with body[OF this] False show ?thesis by (auto split: option.splits sum.splits)
  qed
qed

text \<open>the text of an error answer is one of three fixed texts, the size limit written out or the
  message of a refused host key, which is built from the label of the host; no other error text
  reaches a client.\<close>

theorem error_text_is_trusted:
  "snd (respondError e status) \<in> {''Invalid request.'', ''Internal server error.''} \<or>
   (\<exists>n. e = Body_too_large n \<and> snd (respondError e status) = ''Request body exceeds the '' @ show_nat n @ ''-byte limit.'') \<or>
   (\<exists>m. e = Host_key_rejected m \<and> respondError e status = (403, m))"
  by (cases e) (auto simp: respondError_def error_status_def Let_def)

end
