(* ===== verification/ServerSessions.thy ===== *)
theory ServerSessions
  imports BackendBuffers Json
begin

section \<open>Sessions and forwards of the Node backend (\<open>server/backend.mjs\<close>)\<close>

text \<open>
  A session of the backend: its phase, whether the shell stream is open, the attached web socket
  with its ready state, the replay buffer and the remembered failure. What was sent to sockets,
  written to the shell and asked of its window is kept in the state, in order. The transport and
  the sockets are the events: each handler of the code is one function.
\<close>

datatype session_phase = Ph_connecting | Ph_connected | Ph_disconnected | Ph_error

datatype server_message = M_status session_phase | M_data string | M_error string

record backend_session =
  bs_phase :: session_phase
  bs_stream :: bool
  bs_ws :: "(nat \<times> bool) option"
  bs_replay :: replay
  bs_failure :: "string option"
  bs_sent :: "(nat \<times> server_message) list"
  bs_input :: "string list"
  bs_window :: "(int number \<times> int number) option"

definition new_backend_session :: backend_session where
  "new_backend_session = \<lparr>bs_phase = Ph_connecting, bs_stream = False, bs_ws = None, bs_replay = replay_empty,
     bs_failure = None, bs_sent = [], bs_input = [], bs_window = None\<rparr>"

definition send_to :: "nat \<Rightarrow> server_message \<Rightarrow> backend_session \<Rightarrow> backend_session" where
  "send_to k m s = s\<lparr>bs_sent := bs_sent s @ [(k, m)]\<rparr>"

definition broadcast :: "server_message \<Rightarrow> backend_session \<Rightarrow> backend_session" where
  "broadcast m s =
     (case bs_ws s of
        Some (k, True) \<Rightarrow> send_to k m s
      | _ \<Rightarrow>
          (case m of
             M_data d \<Rightarrow> s\<lparr>bs_replay := bufferDetachedOutput SESSION_BUFFER_MAX_BYTES d (bs_replay s)\<rparr>
           | _ \<Rightarrow> s))"

definition failSession :: "string \<Rightarrow> backend_session \<Rightarrow> backend_session" where
  "failSession message s =
     broadcast (M_error message) (s\<lparr>bs_phase := Ph_error, bs_failure := Some message\<rparr>)"

definition onShellReady :: "string option \<Rightarrow> backend_session \<Rightarrow> backend_session" where
  "onShellReady error s =
     (case error of
        Some e \<Rightarrow> failSession e s
      | None \<Rightarrow> broadcast (M_status Ph_connected) (s\<lparr>bs_stream := True, bs_phase := Ph_connected\<rparr>))"

definition onStreamClose :: "backend_session \<Rightarrow> backend_session" where
  "onStreamClose s = broadcast (M_status Ph_disconnected) (s\<lparr>bs_phase := Ph_disconnected\<rparr>)"

text \<open>A refused host key is reported with its reason instead of the transport's message.\<close>

definition onClientError :: "string option \<Rightarrow> string \<Rightarrow> backend_session \<Rightarrow> backend_session" where
  "onClientError hostKeyFailure error s = failSession (coalesce hostKeyFailure error) s"

definition onClientClose :: "backend_session \<Rightarrow> backend_session" where
  "onClientClose s = (if bs_phase s \<noteq> Ph_disconnected then onStreamClose s else s)"

definition crlf :: string where
  "crlf = [CHR 0x0D, CHR 0x0A]"

definition dropped_notice :: "nat \<Rightarrow> string" where
  "dropped_notice n = crlf @ ''[terminal-workspace: '' @ show_nat n @
     '' bytes of earlier output were dropped while disconnected]'' @ crlf"

definition replay_text :: "replay \<Rightarrow> string" where
  "replay_text r = (if rb_dropped r > 0 then dropped_notice (rb_dropped r) else []) @ concat (rb_buffer r)"

definition attachSocket :: "nat \<Rightarrow> backend_session \<Rightarrow> backend_session" where
  "attachSocket k s =
     (let s1 = send_to k (M_status (bs_phase s)) (s\<lparr>bs_ws := Some (k, True)\<rparr>);
          s2 = (if truthy (bs_failure s1) then send_to k (M_error (the (bs_failure s1))) s1 else s1)
      in if rb_buffer (bs_replay s2) \<noteq> [] \<or> rb_dropped (bs_replay s2) \<noteq> 0
         then (send_to k (M_data (replay_text (bs_replay s2))) s2)\<lparr>bs_replay := replay_empty\<rparr>
         else s2)"

text \<open>A frame of a client; \<open>JSON.parse\<close> of the text is a parameter.\<close>

definition WS_MESSAGE_MAX :: nat where "WS_MESSAGE_MAX = 65536"

definition json_number :: "json \<Rightarrow> int number" where
  "json_number j = (case j of JNumber n \<Rightarrow> n | _ \<Rightarrow> NaN)"

definition onSocketMessage :: "(string \<Rightarrow> json option) \<Rightarrow> string \<Rightarrow> backend_session \<Rightarrow> backend_session" where
  "onSocketMessage parse raw s =
     (if length raw > WS_MESSAGE_MAX then s
      else case parse raw of
        None \<Rightarrow> s
      | Some m \<Rightarrow>
          if json_get m ''type'' = JString ''input'' \<and> bs_stream s then
            (case json_get m ''data'' of JString d \<Rightarrow> s\<lparr>bs_input := bs_input s @ [d]\<rparr> | _ \<Rightarrow> s)
          else if json_get m ''type'' = JString ''resize'' \<and> bs_stream s then
            s\<lparr>bs_window := Some (json_number (json_get m ''rows''), json_number (json_get m ''cols''))\<rparr>
          else s)"

definition onSocketClosing :: "nat \<Rightarrow> backend_session \<Rightarrow> backend_session" where
  "onSocketClosing k s = (case bs_ws s of Some (j, _) \<Rightarrow> if j = k then s\<lparr>bs_ws := Some (k, False)\<rparr> else s | None \<Rightarrow> s)"

definition onSocketClose :: "nat \<Rightarrow> backend_session \<Rightarrow> backend_session" where
  "onSocketClose k s = (case bs_ws s of Some (j, _) \<Rightarrow> if j = k then s\<lparr>bs_ws := None\<rparr> else s | None \<Rightarrow> s)"

datatype session_event =
  Shell_ready "string option" | Stream_data bytes | Stream_close
| Client_error "string option" string | Client_close
| Socket_attached nat | Socket_message string | Socket_closing nat | Socket_closed nat

text \<open>Every chunk of the shell is decoded alone (\<open>text_of\<close>).\<close>

definition handle_session :: "(bytes \<Rightarrow> string) \<Rightarrow> (string \<Rightarrow> json option) \<Rightarrow> session_event \<Rightarrow> backend_session \<Rightarrow> backend_session" where
  "handle_session lossy parse e s =
     (case e of
        Shell_ready err \<Rightarrow> onShellReady err s
      | Stream_data b \<Rightarrow> broadcast (M_data (text_of lossy b)) s
      | Stream_close \<Rightarrow> onStreamClose s
      | Client_error h err \<Rightarrow> onClientError h err s
      | Client_close \<Rightarrow> onClientClose s
      | Socket_attached k \<Rightarrow> attachSocket k s
      | Socket_message raw \<Rightarrow> onSocketMessage parse raw s
      | Socket_closing k \<Rightarrow> onSocketClosing k s
      | Socket_closed k \<Rightarrow> onSocketClose k s)"

definition run_session :: "(bytes \<Rightarrow> string) \<Rightarrow> (string \<Rightarrow> json option) \<Rightarrow> session_event list \<Rightarrow> backend_session \<Rightarrow> backend_session" where
  "run_session lossy parse es s = fold (handle_session lossy parse) es s"

subsection \<open>Output is complete and in order\<close>

definition chunks :: "session_event list \<Rightarrow> bytes list" where
  "chunks es = concat (map (\<lambda>e. case e of Stream_data b \<Rightarrow> [b] | _ \<Rightarrow> []) es)"

definition produced :: "(bytes \<Rightarrow> string) \<Rightarrow> session_event list \<Rightarrow> string list" where
  "produced lossy es = map (text_of lossy) (chunks es)"

definition sent_data :: "backend_session \<Rightarrow> string" where
  "sent_data s = concat (map (\<lambda>(k, m). case m of M_data d \<Rightarrow> d | _ \<Rightarrow> []) (bs_sent s))"

lemma produced_simps [simp]:
  "produced lossy [] = []" "produced lossy (es @ [e]) = produced lossy es @ (case e of Stream_data b \<Rightarrow> [text_of lossy b] | _ \<Rightarrow> [])"
  by (auto simp: produced_def chunks_def split: session_event.splits)

lemma evict_within: "b \<le> maxBytes \<Longrightarrow> evict maxBytes xs b d = \<lparr>rb_buffer = xs, rb_bytes = b, rb_dropped = d\<rparr>"
  by (cases "(maxBytes, xs, b, d)" rule: evict.cases) auto

text \<open>
  What was sent and what is kept together are the output, while nothing had to be dropped; an open
  socket leaves nothing to keep.
\<close>

definition output_ok :: "string list \<Rightarrow> backend_session \<Rightarrow> bool" where
  "output_ok ps s \<longleftrightarrow>
     rb_bytes (bs_replay s) = sum_list (map byteLength (rb_buffer (bs_replay s))) \<and>
     rb_bytes (bs_replay s) \<le> sum_list (map byteLength ps) \<and> rb_dropped (bs_replay s) = 0 \<and>
     sent_data s @ concat (rb_buffer (bs_replay s)) = concat ps \<and>
     (\<forall>k. bs_ws s = Some (k, True) \<longrightarrow> bs_replay s = replay_empty)"

lemma sent_data_send [simp]:
  "sent_data (send_to k m s) = sent_data s @ (case m of M_data d \<Rightarrow> d | _ \<Rightarrow> [])"
  by (simp add: sent_data_def send_to_def)

lemma send_to_simps [simp]:
  "bs_replay (send_to k m s) = bs_replay s" "bs_ws (send_to k m s) = bs_ws s" "bs_failure (send_to k m s) = bs_failure s"
  "bs_phase (send_to k m s) = bs_phase s"
  by (simp_all add: send_to_def)

lemma sent_data_updates [simp]:
  "sent_data (s\<lparr>bs_phase := p\<rparr>) = sent_data s" "sent_data (s\<lparr>bs_stream := t\<rparr>) = sent_data s"
  "sent_data (s\<lparr>bs_ws := w\<rparr>) = sent_data s" "sent_data (s\<lparr>bs_replay := r\<rparr>) = sent_data s"
  "sent_data (s\<lparr>bs_failure := f\<rparr>) = sent_data s" "sent_data (s\<lparr>bs_input := i\<rparr>) = sent_data s"
  "sent_data (s\<lparr>bs_window := x\<rparr>) = sent_data s"
  by (simp_all add: sent_data_def)

lemma output_ok_updates [simp]:
  "output_ok ps (s\<lparr>bs_phase := p\<rparr>) = output_ok ps s" "output_ok ps (s\<lparr>bs_stream := t\<rparr>) = output_ok ps s"
  "output_ok ps (s\<lparr>bs_failure := f\<rparr>) = output_ok ps s" "output_ok ps (s\<lparr>bs_input := i\<rparr>) = output_ok ps s"
  "output_ok ps (s\<lparr>bs_window := x\<rparr>) = output_ok ps s"
  by (simp_all add: output_ok_def)

lemma broadcast_other: "(\<And>d. m \<noteq> M_data d) \<Longrightarrow> output_ok ps s \<Longrightarrow> output_ok ps (broadcast m s)"
  by (cases m) (auto simp: broadcast_def output_ok_def split: option.splits prod.splits bool.splits)

lemma broadcast_data:
  assumes ok: "output_ok ps s" and small: "sum_list (map byteLength (ps @ [d])) \<le> SESSION_BUFFER_MAX_BYTES"
  shows "output_ok (ps @ [d]) (broadcast (M_data d) s)"
proof (cases "\<exists>k. bs_ws s = Some (k, True)")
  case True
  then obtain k where k: "bs_ws s = Some (k, True)" by blast
  then have "bs_replay s = replay_empty" using ok by (simp add: output_ok_def)
  with ok k show ?thesis by (auto simp: broadcast_def output_ok_def replay_empty_def)
next
  case False
  have "bufferDetachedOutput SESSION_BUFFER_MAX_BYTES d (bs_replay s) =
      \<lparr>rb_buffer = rb_buffer (bs_replay s) @ [d], rb_bytes = rb_bytes (bs_replay s) + byteLength d, rb_dropped = 0\<rparr>"
    unfolding bufferDetachedOutput_def using ok small by (subst evict_within) (auto simp: output_ok_def)
  moreover have "broadcast (M_data d) s = s\<lparr>bs_replay := bufferDetachedOutput SESSION_BUFFER_MAX_BYTES d (bs_replay s)\<rparr>"
    using False by (auto simp: broadcast_def split: option.splits prod.splits bool.splits)
  ultimately show ?thesis using ok False by (auto simp: output_ok_def simp flip: append_assoc)
qed

lemma attached_socket: "bs_ws (attachSocket k s) = Some (k, True)" "bs_ws (broadcast m s) = bs_ws s"
  by (auto simp: attachSocket_def broadcast_def Let_def split: option.splits bool.splits server_message.splits)

lemma attach_output: "output_ok ps s \<Longrightarrow> output_ok ps (attachSocket k s)"
  by (auto simp: attachSocket_def output_ok_def Let_def replay_text_def replay_empty_def)

lemma output_ok_event:
  assumes "output_ok (produced lossy es) s" "sum_list (map byteLength (produced lossy (es @ [e]))) \<le> SESSION_BUFFER_MAX_BYTES"
  shows "output_ok (produced lossy (es @ [e])) (handle_session lossy parse e s)"
proof (cases e)
  case (Stream_data d)
  with assms broadcast_data show ?thesis by (simp add: handle_session_def)
next
  case (Socket_message raw)
  with assms show ?thesis
    by (auto simp: handle_session_def onSocketMessage_def split: option.splits json.splits)
next
  case (Socket_attached k)
  with assms attach_output show ?thesis by (simp add: handle_session_def)
next
  case (Shell_ready err)
  with assms show ?thesis
    by (auto simp: handle_session_def onShellReady_def failSession_def intro!: broadcast_other split: option.splits)
next
  case Stream_close
  with assms show ?thesis by (auto simp: handle_session_def onStreamClose_def intro!: broadcast_other)
next
  case (Client_error h err)
  with assms show ?thesis
    by (auto simp: handle_session_def onClientError_def failSession_def intro!: broadcast_other)
next
  case Client_close
  with assms show ?thesis
    by (auto simp: handle_session_def onClientClose_def onStreamClose_def intro!: broadcast_other)
next
  case (Socket_closing k)
  with assms show ?thesis
    by (auto simp: handle_session_def onSocketClosing_def output_ok_def split: option.splits prod.splits)
next
  case (Socket_closed k)
  with assms show ?thesis
    by (auto simp: handle_session_def onSocketClose_def output_ok_def split: option.splits prod.splits)
qed

lemma run_session_snoc [simp]: "run_session lossy parse (es @ [e]) s = handle_session lossy parse e (run_session lossy parse es s)"
  by (simp add: run_session_def)

lemma output_ok_run:
  "sum_list (map byteLength (produced lossy es)) \<le> SESSION_BUFFER_MAX_BYTES \<Longrightarrow>
   output_ok (produced lossy es) (run_session lossy parse es new_backend_session)"
proof (induction es rule: rev_induct)
  case Nil
  show ?case
    by (simp add: run_session_def output_ok_def new_backend_session_def replay_empty_def sent_data_def)
next
  case (snoc e es)
  then have "sum_list (map byteLength (produced lossy es)) \<le> SESSION_BUFFER_MAX_BYTES"
    by (auto split: session_event.splits)
  with snoc have "output_ok (produced lossy es) (run_session lossy parse es new_backend_session)" by blast
  from output_ok_event [OF this snoc.prems] show ?case by simp
qed

text \<open>Chunks that are each well formed decode alone as they do together.\<close>

lemma decode_chunks:
  "list_all (\<lambda>b. utf8_decode b \<noteq> None) bs \<Longrightarrow> utf8_decode (concat bs) = Some (concat (map (text_of lossy) bs))"
proof (induction bs)
  case (Cons b bs)
  then obtain t where t: "utf8_decode b = Some t" by auto
  with Cons utf8_decode_append[OF t, of "concat bs"] show ?case by (simp add: text_of_def)
qed simp

text \<open>C30: The terminal output of a session is complete and in order, chunk by chunk: as long as the decoded chunks
  fit the replay buffer, what the sockets of the session were sent so far, taken together, followed by what
  is kept for the next socket, is the texts of the chunks of the shell, whatever sockets came and went; while
  a socket is open nothing is kept. When every chunk is well-formed UTF-8, that is the output decoded as a
  whole; a character whose bytes are split over two chunks is not (every chunk is decoded alone).\<close>

theorem output_complete_in_order:
  assumes "sum_list (map byteLength (map (text_of lossy) (chunks es))) \<le> SESSION_BUFFER_MAX_BYTES"
    and s: "s = run_session lossy parse es new_backend_session"
  shows "sent_data s @ concat (rb_buffer (bs_replay s)) = concat (map (text_of lossy) (chunks es)) \<and>
    (\<forall>k. bs_ws s = Some (k, True) \<longrightarrow> rb_buffer (bs_replay s) = []) \<and>
    (list_all (\<lambda>b. utf8_decode b \<noteq> None) (chunks es) \<longrightarrow>
       utf8_decode (concat (chunks es)) = Some (sent_data s @ concat (rb_buffer (bs_replay s))))"
proof -
  have ok: "output_ok (produced lossy es) s" using output_ok_run assms unfolding produced_def by blast
  then have "sent_data s @ concat (rb_buffer (bs_replay s)) = concat (map (text_of lossy) (chunks es))"
    by (simp add: output_ok_def produced_def)
  moreover have "\<forall>k. bs_ws s = Some (k, True) \<longrightarrow> rb_buffer (bs_replay s) = []"
    using ok by (simp add: output_ok_def replay_empty_def)
  ultimately show ?thesis using decode_chunks[of "chunks es" lossy] by simp
qed

theorem output_complete_in_order_witness:
  "sent_data (run_session id (\<lambda>_. None)
     [Stream_data ''a'', Socket_attached 1, Stream_data ''b'', Socket_closing 1, Stream_data [CHR 0xC3, CHR 0xA9],
      Socket_closed 1, Socket_attached 2, Stream_data ''d''] new_backend_session) = ''ab'' @ [CHR 0xE9] @ ''d''"
proof -
  let ?es = "[Stream_data ''a'', Socket_attached 1, Stream_data ''b'', Socket_closing 1, Stream_data [CHR 0xC3, CHR 0xA9],
      Socket_closed 1, Socket_attached 2, Stream_data ''d'']"
  let ?s = "run_session id (\<lambda>_. None) ?es new_backend_session"
  have "sum_list (map byteLength (map (text_of id) (chunks ?es))) = 5" by code_simp
  then have small: "sum_list (map byteLength (map (text_of id) (chunks ?es))) \<le> SESSION_BUFFER_MAX_BYTES"
    by (simp only: SESSION_BUFFER_MAX_BYTES_def)
  have open2: "bs_ws ?s = Some (2, True)" by (simp add: run_session_def handle_session_def attached_socket)
  note out = output_complete_in_order [OF small refl, of "\<lambda>_. None"]
  have "rb_buffer (bs_replay ?s) = []" using out open2 by blast
  then have "sent_data ?s = concat (map (text_of id) (chunks ?es))" using conjunct1[OF out] by (metis append_Nil2 concat.simps(1))
  also have "\<dots> = ''ab'' @ [CHR 0xE9] @ ''d''" by code_simp
  finally show ?thesis .
qed

text \<open>
  The transport hands over bytes in chunks and each chunk is decoded alone: a character whose bytes arrive
  in two chunks is none in either.
\<close>

lemma split_character_is_lost:
  "utf8_decode [CHR 0xC3, CHR 0xA9] = Some [CHR 0xE9] \<and>
   utf8_decode [CHR 0xC3] = None \<and> utf8_decode [CHR 0xA9] = None"
  by code_simp

end
