(* ===== verification/ServerForwards.thy ===== *)
theory ServerForwards
  imports Prelude
begin

section \<open>Port forwards of the Node backend (\<open>server/backend.mjs\<close>)\<close>

text \<open>
  The tables of sessions and forwards with what is in flight. A handler that awaits the operating
  system or the SSH connection is one function up to the await and one after it, so the events of
  other requests may come in between. \<open>bt_serving\<close> holds the forwards that accept connections now,
  with their sessions: a local forward whose server listens, a remote forward whose handler is
  attached to the client of its session.
\<close>

datatype forward_direction = Local_forward | Remote_forward

record server_forward =
  sf_id :: string
  sf_direction :: forward_direction
  sf_sessionId :: string
  sf_localHost :: string
  sf_localPort :: int
  sf_remoteHost :: string
  sf_remotePort :: int
  sf_createdAt :: string

record forward_request =
  fr_sessionId :: string
  fr_localHost :: string
  fr_localPort :: int
  fr_remoteHost :: string
  fr_remotePort :: int

record backend_tables =
  bt_sessions :: "string list"
  bt_forwards :: "server_forward obj"
  bt_serving :: "(string \<times> string) list"
  bt_local :: "forward_request list"
  bt_remote :: "server_forward list"
  bt_closing :: "string list"
  bt_ending :: "(string \<times> string list) list"

definition empty_tables :: backend_tables where
  "empty_tables = \<lparr>bt_sessions = [], bt_forwards = [], bt_serving = [], bt_local = [], bt_remote = [],
     bt_closing = [], bt_ending = []\<rparr>"

definition forward_of :: "string \<Rightarrow> string \<Rightarrow> forward_direction \<Rightarrow> forward_request \<Rightarrow> server_forward" where
  "forward_of i createdAt d r = \<lparr>sf_id = i, sf_direction = d, sf_sessionId = fr_sessionId r,
     sf_localHost = fr_localHost r, sf_localPort = fr_localPort r, sf_remoteHost = fr_remoteHost r,
     sf_remotePort = fr_remotePort r, sf_createdAt = createdAt\<rparr>"

definition stop_serving :: "string \<Rightarrow> backend_tables \<Rightarrow> backend_tables" where
  "stop_serving i st = st\<lparr>bt_serving := filter (\<lambda>p. fst p \<noteq> i) (bt_serving st)\<rparr>"

subsection \<open>Creating a forward\<close>

definition createLocalForward :: "forward_request \<Rightarrow> backend_tables \<Rightarrow> (string + unit) \<times> backend_tables" where
  "createLocalForward r st =
     (if fr_sessionId r \<notin> set (bt_sessions st) then (Inl ''Session not found'', st)
      else (Inr (), st\<lparr>bt_local := bt_local st @ [r]\<rparr>))"

text \<open>The server listens, with the port it got, or fails to.\<close>

definition local_listening ::
    "string \<Rightarrow> string \<Rightarrow> forward_request \<Rightarrow> string + int option \<Rightarrow> backend_tables \<Rightarrow> (string + server_forward) \<times> backend_tables" where
  "local_listening i createdAt r answer st =
     (let st = st\<lparr>bt_local := remove1 r (bt_local st)\<rparr> in
      case answer of
        Inl e \<Rightarrow> (Inl e, st)
      | Inr bound \<Rightarrow>
          let f = (forward_of i createdAt Local_forward r)\<lparr>sf_localPort := coalesce bound (fr_localPort r)\<rparr>
          in (Inr f, st\<lparr>bt_forwards := obj_set i f (bt_forwards st),
                        bt_serving := bt_serving st @ [(i, fr_sessionId r)]\<rparr>))"

definition createRemoteForward ::
    "string \<Rightarrow> string \<Rightarrow> forward_request \<Rightarrow> backend_tables \<Rightarrow> (string + unit) \<times> backend_tables" where
  "createRemoteForward i createdAt r st =
     (if fr_sessionId r \<notin> set (bt_sessions st) then (Inl ''Session not found'', st)
      else (Inr (), st\<lparr>bt_remote := bt_remote st @ [forward_of i createdAt Remote_forward r],
                       bt_serving := bt_serving st @ [(i, fr_sessionId r)]\<rparr>))"

text \<open>The answer to \<open>forwardIn\<close>.\<close>

definition remote_answered ::
    "server_forward \<Rightarrow> string + int option \<Rightarrow> backend_tables \<Rightarrow> (string + server_forward) \<times> backend_tables" where
  "remote_answered f answer st =
     (let st = st\<lparr>bt_remote := remove1 f (bt_remote st)\<rparr> in
      case answer of
        Inl e \<Rightarrow> (Inl e, stop_serving (sf_id f) st)
      | Inr bound \<Rightarrow>
          let f' = f\<lparr>sf_remotePort := coalesce bound (sf_remotePort f)\<rparr>
          in (Inr f', st\<lparr>bt_forwards := obj_set (sf_id f) f' (bt_forwards st)\<rparr>))"

text \<open>
  A connection to a remote port of a session: the event reaches the handler of every remote forward
  attached to the client, and each of them accepts or rejects it.
\<close>

datatype reply = Accepted string | Rejected string

definition onConnection :: "string \<Rightarrow> int \<Rightarrow> server_forward \<Rightarrow> reply" where
  "onConnection destIP destPort f =
     (if destIP \<noteq> sf_remoteHost f \<or> destPort \<noteq> sf_remotePort f then Rejected (sf_id f) else Accepted (sf_id f))"

definition tcp_connection :: "string \<Rightarrow> string \<Rightarrow> int \<Rightarrow> backend_tables \<Rightarrow> reply list" where
  "tcp_connection sid destIP destPort st =
     map (onConnection destIP destPort)
       (List.map_filter (\<lambda>(i, s). if s \<noteq> sid then None else
           case obj_get (bt_forwards st) i of
             Some f \<Rightarrow> if sf_direction f = Remote_forward then Some f else None
           | None \<Rightarrow> List.find (\<lambda>f. sf_id f = i) (bt_remote st)) (bt_serving st))"

subsection \<open>Closing forwards\<close>

text \<open>
  What closing answers. The server of a local forward stops listening at once; its close returns
  when the last connection is gone, so it may wait, and it fails only when the server was closed
  already.
\<close>

datatype close_answer = Close_done | Close_failed | Close_waits

datatype closing = No_forward | Closed_forward | Close_error | Still_closing

definition closeLocalForward :: "close_answer \<Rightarrow> string \<Rightarrow> backend_tables \<Rightarrow> closing \<times> backend_tables" where
  "closeLocalForward a i st =
     (case obj_get (bt_forwards st) i of
        None \<Rightarrow> (No_forward, st)
      | Some f \<Rightarrow>
          let gone = (\<lambda>s. s\<lparr>bt_forwards := obj_del i (bt_forwards s)\<rparr>);
              waits = (\<lambda>s. s\<lparr>bt_closing := bt_closing s @ [i]\<rparr>)
          in case sf_direction f of
            Local_forward \<Rightarrow>
              if i \<notin> fst ` set (bt_serving st) then (Close_error, st)
              else if a = Close_waits then (Still_closing, waits (stop_serving i st))
              else (Closed_forward, gone (stop_serving i st))
          | Remote_forward \<Rightarrow>
              if sf_sessionId f \<notin> set (bt_sessions st) then (Closed_forward, gone st)
              else (case a of
                  Close_failed \<Rightarrow> (Close_error, stop_serving i st)
                | Close_waits \<Rightarrow> (Still_closing, waits (stop_serving i st))
                | Close_done \<Rightarrow> (Closed_forward, gone (stop_serving i st))))"

text \<open>The awaited close returns.\<close>

definition close_returned :: "string \<Rightarrow> bool \<Rightarrow> backend_tables \<Rightarrow> backend_tables" where
  "close_returned i ok st =
     (let st = st\<lparr>bt_closing := remove1 i (bt_closing st)\<rparr>
      in if ok then st\<lparr>bt_forwards := obj_del i (bt_forwards st)\<rparr> else st)"

text \<open>All forwards of a session are closed together; a failure counts as closed.\<close>

definition forwards_of :: "string \<Rightarrow> backend_tables \<Rightarrow> string list" where
  "forwards_of sid st = map sf_id (filter (\<lambda>f. sf_sessionId f = sid) (map snd (bt_forwards st)))"

definition close_each :: "(string \<Rightarrow> close_answer) \<Rightarrow> string list \<Rightarrow> backend_tables \<Rightarrow> backend_tables" where
  "close_each ans ids st = fold (\<lambda>i s. snd (closeLocalForward (ans i) i s)) ids st"

definition closeForwardsForSession ::
    "(string \<Rightarrow> close_answer) \<Rightarrow> string \<Rightarrow> backend_tables \<Rightarrow> string list \<times> backend_tables" where
  "closeForwardsForSession ans sid st =
     (let st' = close_each ans (forwards_of sid st) st
      in (filter (\<lambda>i. i \<in> set (bt_closing st')) (forwards_of sid st), st'))"

subsection \<open>The end of a session\<close>

definition forget_session :: "string \<Rightarrow> backend_tables \<Rightarrow> backend_tables" where
  "forget_session sid st = st\<lparr>bt_sessions := removeAll sid (bt_sessions st)\<rparr>"

text \<open>The forwards are awaited before the session leaves the table.\<close>

definition end_session :: "(string \<Rightarrow> close_answer) \<Rightarrow> string \<Rightarrow> backend_tables \<Rightarrow> backend_tables" where
  "end_session ans sid st =
     (case closeForwardsForSession ans sid st of
        ([], st') \<Rightarrow> forget_session sid st'
      | (ws, st') \<Rightarrow> st'\<lparr>bt_ending := bt_ending st' @ [(sid, ws)]\<rparr>)"

definition deleteSession :: "(string \<Rightarrow> close_answer) \<Rightarrow> string \<Rightarrow> backend_tables \<Rightarrow> backend_tables" where
  "deleteSession ans sid st = (if sid \<in> set (bt_sessions st) then end_session ans sid st else st)"

text \<open>The await of an ending returns once none of its closes is left.\<close>

definition end_returned :: "string \<Rightarrow> string list \<Rightarrow> backend_tables \<Rightarrow> backend_tables" where
  "end_returned sid ws st =
     (if (sid, ws) \<in> set (bt_ending st) \<and> (\<forall>w \<in> set ws. w \<notin> set (bt_closing st))
      then forget_session sid (st\<lparr>bt_ending := remove1 (sid, ws) (bt_ending st)\<rparr>) else st)"

definition listForwards :: "string option \<Rightarrow> backend_tables \<Rightarrow> server_forward list" where
  "listForwards sid st =
     filter (\<lambda>f. \<not> truthy sid \<or> Some (sf_sessionId f) = sid) (map snd (bt_forwards st))"

subsection \<open>Runs of the backend\<close>

text \<open>
  Every event of the tables. Identifiers come from \<open>randomUUID\<close>: a new one is used nowhere.
\<close>

definition known_ids :: "backend_tables \<Rightarrow> string set" where
  "known_ids st = fst ` set (bt_forwards st) \<union> fst ` set (bt_serving st) \<union> sf_id ` set (bt_remote st) \<union> set (bt_closing st)"

inductive tables_reachable :: "backend_tables \<Rightarrow> bool" where
  start: "tables_reachable empty_tables"
| new_session: "tables_reachable st \<Longrightarrow> sid \<notin> snd ` set (bt_serving st) \<Longrightarrow>
    tables_reachable (st\<lparr>bt_sessions := bt_sessions st @ [sid]\<rparr>)"
| create_local: "tables_reachable st \<Longrightarrow> tables_reachable (snd (createLocalForward r st))"
| listening: "tables_reachable st \<Longrightarrow> r \<in> set (bt_local st) \<Longrightarrow> i \<notin> known_ids st \<Longrightarrow>
    tables_reachable (snd (local_listening i createdAt r answer st))"
| create_remote: "tables_reachable st \<Longrightarrow> i \<notin> known_ids st \<Longrightarrow>
    tables_reachable (snd (createRemoteForward i createdAt r st))"
| answered: "tables_reachable st \<Longrightarrow> f \<in> set (bt_remote st) \<Longrightarrow>
    tables_reachable (snd (remote_answered f answer st))"
| close: "tables_reachable st \<Longrightarrow> tables_reachable (snd (closeLocalForward a i st))"
| returned: "tables_reachable st \<Longrightarrow> i \<in> set (bt_closing st) \<Longrightarrow> tables_reachable (close_returned i ok st)"
| client_closed: "tables_reachable st \<Longrightarrow> tables_reachable (snd (closeForwardsForSession ans sid st))"
| stream_closed: "tables_reachable st \<Longrightarrow> tables_reachable (end_session ans sid st)"
| deleted: "tables_reachable st \<Longrightarrow> tables_reachable (deleteSession ans sid st)"
| end_done: "tables_reachable st \<Longrightarrow> tables_reachable (end_returned sid ws st)"

text \<open>
  What accepts connections can be found: it is listed, or still being created, or its session is
  gone and its client with it. A forward that is being closed accepts nothing more.
\<close>

definition tables_ok :: "backend_tables \<Rightarrow> bool" where
  "tables_ok st \<longleftrightarrow>
     (\<forall>(i, s) \<in> set (bt_serving st).
        (case obj_get (bt_forwards st) i of
           Some f \<Rightarrow> sf_sessionId f = s
         | None \<Rightarrow> list_ex (\<lambda>f. sf_id f = i) (bt_remote st) \<or> s \<notin> set (bt_sessions st)) \<and>
        list_all (\<lambda>f. sf_id f = i \<longrightarrow> sf_sessionId f = s) (bt_remote st)) \<and>
     (\<forall>i \<in> set (bt_closing st). list_all (\<lambda>p. fst p \<noteq> i) (bt_serving st)) \<and>
     (\<forall>f \<in> set (bt_remote st). obj_get (bt_forwards st) (sf_id f) = None) \<and>
     distinct (map sf_id (bt_remote st)) \<and> obj_wf (bt_forwards st) \<and>
     list_all (\<lambda>(i, f). sf_id f = i) (bt_forwards st)"

lemma stop_serving_simps [simp]:
  "bt_sessions (stop_serving i st) = bt_sessions st" "bt_forwards (stop_serving i st) = bt_forwards st"
  "bt_remote (stop_serving i st) = bt_remote st" "bt_closing (stop_serving i st) = bt_closing st"
  "bt_local (stop_serving i st) = bt_local st" "bt_ending (stop_serving i st) = bt_ending st"
  "(j, s) \<in> set (bt_serving (stop_serving i st)) \<longleftrightarrow> (j, s) \<in> set (bt_serving st) \<and> j \<noteq> i"
  by (auto simp: stop_serving_def)

text \<open>The invariant as rules on the members of the tables.\<close>

lemma tables_okI:
  assumes "\<And>i s. (i, s) \<in> set (bt_serving st) \<Longrightarrow> obj_get (bt_forwards st) i = None \<Longrightarrow> s \<in> set (bt_sessions st) \<Longrightarrow>
      \<exists>f \<in> set (bt_remote st). sf_id f = i"
    and "\<And>i s f. (i, s) \<in> set (bt_serving st) \<Longrightarrow> obj_get (bt_forwards st) i = Some f \<Longrightarrow> sf_sessionId f = s"
    and "\<And>s f. (sf_id f, s) \<in> set (bt_serving st) \<Longrightarrow> f \<in> set (bt_remote st) \<Longrightarrow> sf_sessionId f = s"
    and "\<And>i s. i \<in> set (bt_closing st) \<Longrightarrow> (i, s) \<notin> set (bt_serving st)"
    and "\<And>f. f \<in> set (bt_remote st) \<Longrightarrow> obj_get (bt_forwards st) (sf_id f) = None"
    and "distinct (map sf_id (bt_remote st))" "obj_wf (bt_forwards st)"
    and "\<And>i f. obj_get (bt_forwards st) i = Some f \<Longrightarrow> sf_id f = i"
  shows "tables_ok st"
proof -
  have "(i, f) \<in> set (bt_forwards st) \<Longrightarrow> sf_id f = i" for i f using assms(7,8) by (simp add: obj_wf_get)
  then show ?thesis unfolding tables_ok_def
    using assms(1-7) by (auto simp: list_ex_iff list_all_iff split: option.splits)
qed

lemma tables_okD:
  assumes "tables_ok st"
  shows "(i, s) \<in> set (bt_serving st) \<Longrightarrow> obj_get (bt_forwards st) i = None \<Longrightarrow> s \<in> set (bt_sessions st) \<Longrightarrow>
      \<exists>f \<in> set (bt_remote st). sf_id f = i"
    and "(i, s) \<in> set (bt_serving st) \<Longrightarrow> obj_get (bt_forwards st) i = Some f \<Longrightarrow> sf_sessionId f = s"
    and "(sf_id f, s) \<in> set (bt_serving st) \<Longrightarrow> f \<in> set (bt_remote st) \<Longrightarrow> sf_sessionId f = s"
    and "i \<in> set (bt_closing st) \<Longrightarrow> (i, s) \<notin> set (bt_serving st)"
    and "f \<in> set (bt_remote st) \<Longrightarrow> obj_get (bt_forwards st) (sf_id f) = None"
    and "distinct (map sf_id (bt_remote st))" "obj_wf (bt_forwards st)"
    and "obj_get (bt_forwards st) i = Some f \<Longrightarrow> sf_id f = i"
proof -
  note ok = assms[unfolded tables_ok_def list_all_iff list_ex_iff]
  note sv = bspec[OF conjunct1[OF ok], of "(i, s)"] bspec[OF conjunct1[OF ok], of "(sf_id f, s)"]
  show "(i, s) \<in> set (bt_serving st) \<Longrightarrow> obj_get (bt_forwards st) i = None \<Longrightarrow> s \<in> set (bt_sessions st) \<Longrightarrow>
      \<exists>f \<in> set (bt_remote st). sf_id f = i"
    and "(i, s) \<in> set (bt_serving st) \<Longrightarrow> obj_get (bt_forwards st) i = Some f \<Longrightarrow> sf_sessionId f = s"
    and "(sf_id f, s) \<in> set (bt_serving st) \<Longrightarrow> f \<in> set (bt_remote st) \<Longrightarrow> sf_sessionId f = s"
    using sv by auto
  show "i \<in> set (bt_closing st) \<Longrightarrow> (i, s) \<notin> set (bt_serving st)"
    using bspec[OF conjunct1[OF conjunct2[OF ok]], of i] by auto
  show "f \<in> set (bt_remote st) \<Longrightarrow> obj_get (bt_forwards st) (sf_id f) = None"
    "distinct (map sf_id (bt_remote st))" "obj_wf (bt_forwards st)" using ok by simp_all
  show "obj_get (bt_forwards st) i = Some f \<Longrightarrow> sf_id f = i"
    using ok map_of_SomeD[of "bt_forwards st" i f] by fastforce
qed

lemma stop_ok: "tables_ok st \<Longrightarrow> tables_ok (stop_serving i st)"
  by (rule tables_okI) (auto dest: tables_okD)

lemma drop_forward_ok:
  assumes ok: "tables_ok st" and un: "\<And>s. (i, s) \<in> set (bt_serving st) \<Longrightarrow> s \<notin> set (bt_sessions st)"
  shows "tables_ok (st\<lparr>bt_forwards := obj_del i (bt_forwards st)\<rparr>)"
  by (rule tables_okI) (use tables_okD[OF ok] un in \<open>auto simp: obj_get_del split: if_splits\<close>)

lemma closing_ok:
  "tables_ok st \<Longrightarrow> (\<And>s. (i, s) \<notin> set (bt_serving st)) \<Longrightarrow> tables_ok (st\<lparr>bt_closing := bt_closing st @ [i]\<rparr>)"
  by (rule tables_okI) (auto dest: tables_okD)

lemma close_ok: "tables_ok st \<Longrightarrow> tables_ok (snd (closeLocalForward a i st))"
proof (cases "obj_get (bt_forwards st) i")
  case (Some f)
  assume ok: "tables_ok st"
  have gone: "tables_ok ((stop_serving i st)\<lparr>bt_forwards := obj_del i (bt_forwards st)\<rparr>)"
    using drop_forward_ok[OF stop_ok[OF ok], of i i] by simp
  have waits: "tables_ok ((stop_serving i st)\<lparr>bt_closing := bt_closing st @ [i]\<rparr>)"
    using closing_ok[OF stop_ok[OF ok], of i i] by simp
  have "sf_sessionId f \<notin> set (bt_sessions st) \<Longrightarrow> tables_ok (st\<lparr>bt_forwards := obj_del i (bt_forwards st)\<rparr>)"
    using tables_okD(2)[OF ok _ Some] by (intro drop_forward_ok ok) blast
  with gone waits stop_ok[OF ok, of i] ok Some show ?thesis
    by (auto simp: closeLocalForward_def Let_def split: forward_direction.splits close_answer.splits)
qed (simp add: closeLocalForward_def)

lemma fresh_id:
  "i \<notin> known_ids st \<longleftrightarrow> obj_get (bt_forwards st) i = None \<and> (\<forall>s. (i, s) \<notin> set (bt_serving st)) \<and>
     (\<forall>f \<in> set (bt_remote st). sf_id f \<noteq> i) \<and> i \<notin> set (bt_closing st)"
  by (auto simp: known_ids_def obj_get_None_iff image_iff)

lemma forward_of_simps [simp]:
  "sf_id (forward_of i t d r) = i" "sf_sessionId (forward_of i t d r) = fr_sessionId r"
  "sf_direction (forward_of i t d r) = d"
  by (simp_all add: forward_of_def)

lemma local_listening_ok:
  assumes ok: "tables_ok st" and new: "i \<notin> known_ids st"
  shows "tables_ok (snd (local_listening i createdAt r answer st))"
proof (cases answer)
  case (Inl e)
  then show ?thesis using tables_okD[OF ok] by (auto simp: local_listening_def intro!: tables_okI)
next
  case (Inr b)
  show ?thesis unfolding local_listening_def Inr Let_def
    by (rule tables_okI)
      (use tables_okD[OF ok] new in
        \<open>auto simp: fresh_id obj_get_set split: if_splits\<close>)
qed

lemma createRemoteForward_ok:
  assumes ok: "tables_ok st" and new: "i \<notin> known_ids st"
  shows "tables_ok (snd (createRemoteForward i createdAt r st))"
proof (cases "fr_sessionId r \<in> set (bt_sessions st)")
  case True
  note D = tables_okD[OF ok]
  show ?thesis unfolding createRemoteForward_def if_not_P[OF not_not[THEN iffD2, OF True]] snd_conv
  proof (rule tables_okI, goal_cases)
    case (3 s f)
    then consider "f \<in> set (bt_remote st)" | "f = forward_of i createdAt Remote_forward r" by auto
    then show ?case
    proof cases
      case 1
      then show ?thesis using 3 D(3)[of f s] new by (auto simp: fresh_id)
    next
      case 2
      show ?thesis using 3(1) new unfolding 2 by (auto simp: fresh_id)
    qed
  qed (use D new in \<open>auto simp: fresh_id\<close>)
qed (simp add: createRemoteForward_def ok)

lemma remote_answered_ok:
  assumes ok: "tables_ok st" and f: "f \<in> set (bt_remote st)"
  shows "tables_ok (snd (remote_answered f answer st))"
proof -
  note D = tables_okD[OF ok]
  have "distinct (bt_remote st)" using D(6) by (simp add: distinct_map)
  then have rest: "set (remove1 f (bt_remote st)) = set (bt_remote st) - {f}" by (rule set_remove1_eq)
  have other: "g \<in> set (bt_remote st) - {f} \<Longrightarrow> sf_id g \<noteq> sf_id f" for g
    using D(6) f by (auto simp: distinct_map dest: inj_onD)
  have dis: "distinct (map sf_id (remove1 f (bt_remote st)))"
    using D(6) \<open>distinct (bt_remote st)\<close> by (auto simp: distinct_map inj_on_def rest)
  show ?thesis
  proof (cases answer)
    case (Inl e)
    show ?thesis unfolding remote_answered_def Inl Let_def sum.case snd_conv
    proof (rule tables_okI, goal_cases)
      case (1 i s)
      then show ?case using D(1)[of i s] rest by auto
    qed (use D(2-8) rest dis in auto)
  next
    case (Inr b)
    show ?thesis unfolding remote_answered_def Inr Let_def sum.case snd_conv
    proof (rule tables_okI, goal_cases)
      case (1 i s)
      then show ?case using D(1)[of i s] rest by (auto simp: obj_get_set split: if_splits)
    next
      case (2 i s g)
      then show ?case using D(2)[of i s g] D(3)[of f s] f by (auto simp: obj_get_set split: if_splits)
    next
      case (3 s g)
      then show ?case using D(3)[of g s] rest by simp
    next
      case (4 i s)
      then show ?case using D(4)[of i s] by simp
    next
      case (5 g)
      then show ?case using D(5)[of g] rest other[of g] by (simp add: obj_get_set)
    next
      case (8 i g)
      then show ?case using D(8)[of i g] by (auto simp: obj_get_set split: if_splits)
    qed (use D(7) dis in simp_all)
  qed
qed

lemma close_each_ok: "tables_ok st \<Longrightarrow> tables_ok (close_each ans ids st)"
  unfolding close_each_def by (induction ids arbitrary: st) (auto simp: close_ok)

lemma close_each_simps [simp]:
  "close_each ans [] st = st"
  "close_each ans (i # ids) st = close_each ans ids (snd (closeLocalForward (ans i) i st))"
  by (simp_all add: close_each_def)

lemma forget_ok: "tables_ok st \<Longrightarrow> tables_ok (forget_session sid st)"
  by (rule tables_okI) (auto simp: forget_session_def dest: tables_okD)

lemma ending_ok: "tables_ok st \<Longrightarrow> tables_ok (st\<lparr>bt_ending := es\<rparr>)"
  by (rule tables_okI) (auto dest: tables_okD)

lemma end_session_ok: "tables_ok st \<Longrightarrow> tables_ok (end_session ans sid st)"
  by (auto simp: end_session_def closeForwardsForSession_def Let_def close_each_ok forget_ok ending_ok split: list.splits)

lemma tables_reachable_ok: "tables_reachable st \<Longrightarrow> tables_ok st"
proof (induction rule: tables_reachable.induct)
  case start
  show ?case by (rule tables_okI) (auto simp: empty_tables_def)
next
  case (new_session st sid)
  show ?case
  proof (rule tables_okI, goal_cases)
    case (1 i s)
    then have "s \<in> set (bt_sessions st)" using new_session.hyps(2) by force
    then show ?case using 1 tables_okD(1)[OF new_session.IH, of i s] by simp
  qed (use tables_okD(2-8)[OF new_session.IH] in auto)
next
  case (create_local st r)
  then show ?case
    unfolding createLocalForward_def tables_ok_def
    by (cases "fr_sessionId r \<in> set (bt_sessions st)") (simp_all cong: option.case_cong)
next
  case (returned st i ok)
  have "tables_ok (st\<lparr>bt_closing := remove1 i (bt_closing st)\<rparr>)"
    by (rule tables_okI) (use tables_okD[OF returned.IH] in \<open>auto dest: subsetD[OF set_remove1_subset]\<close>)
  then show ?case
    using drop_forward_ok[of "st\<lparr>bt_closing := remove1 i (bt_closing st)\<rparr>" i] tables_okD(4)[OF returned.IH returned.hyps(2)]
    by (auto simp: close_returned_def Let_def)
next
  case (end_done st sid ws)
  then show ?case using forget_ok[OF ending_ok] by (auto simp: end_returned_def)
qed (auto simp: local_listening_ok createRemoteForward_ok remote_answered_ok close_ok closeForwardsForSession_def
    Let_def close_each_ok end_session_ok deleteSession_def)

subsection \<open>Properties\<close>

text \<open>nothing listens unseen. Whatever requests, answers and closings come in whatever order, a
  forward of a live session that accepts connections is in the list of the forwards of that
  session, or it is a remote forward whose creation is still being answered.\<close>

theorem listeners_can_be_found:
  assumes "tables_reachable st" "(i, s) \<in> set (bt_serving st)" "s \<in> set (bt_sessions st)"
  shows "(\<exists>f \<in> set (listForwards (Some s) st). sf_id f = i) \<or> (\<exists>f \<in> set (bt_remote st). sf_id f = i)"
proof (cases "obj_get (bt_forwards st) i")
  case None
  then show ?thesis using tables_okD(1)[OF tables_reachable_ok[OF assms(1)] assms(2)] assms(3) by blast
next
  case (Some f)
  note D = tables_okD(2,8)[OF tables_reachable_ok[OF assms(1)]]
  have "sf_sessionId f = s" "sf_id f = i" using D Some assms(2) by blast+
  moreover have "f \<in> set (map snd (bt_forwards st))" using map_of_SomeD[OF Some] by force
  ultimately show ?thesis by (auto simp: listForwards_def)
qed

definition sample_request :: forward_request where
  "sample_request = \<lparr>fr_sessionId = ''s'', fr_localHost = ''127.0.0.1'', fr_localPort = 0,
     fr_remoteHost = ''db'', fr_remotePort = 5432\<rparr>"

definition one_session :: backend_tables where
  "one_session = empty_tables\<lparr>bt_sessions := [''s'']\<rparr>"

definition one_forward :: backend_tables where
  "one_forward = snd (local_listening ''f'' ''t'' sample_request (Inr (Some 40000)) (snd (createLocalForward sample_request one_session)))"

lemma one_forward_reachable: "tables_reachable one_forward"
proof -
  have "tables_reachable (empty_tables\<lparr>bt_sessions := bt_sessions empty_tables @ [''s'']\<rparr>)"
    by (rule new_session[OF start]) (simp add: empty_tables_def)
  then have "tables_reachable one_session" by (simp add: one_session_def empty_tables_def)
  then have c: "tables_reachable (snd (createLocalForward sample_request one_session))" by (rule create_local)
  show ?thesis unfolding one_forward_def
    by (rule listening[OF c]) (simp_all add: createLocalForward_def one_session_def sample_request_def
        empty_tables_def known_ids_def)
qed

lemma one_forward_simps:
  "bt_serving one_forward = [(''f'', ''s'')]" "bt_sessions one_forward = [''s'']" "bt_remote one_forward = []"
  "bt_closing one_forward = []"
  "bt_forwards one_forward = [(''f'', (forward_of ''f'' ''t'' Local_forward sample_request)\<lparr>sf_localPort := 40000\<rparr>)]"
  by (simp_all add: one_forward_def createLocalForward_def local_listening_def Let_def one_session_def empty_tables_def
      sample_request_def obj_set_def)

theorem listeners_can_be_found_witness:
  "\<exists>f \<in> set (listForwards (Some ''s'') one_forward). sf_id f = ''f''"
  using listeners_can_be_found[OF one_forward_reachable, of "''f''" "''s''"] by (simp add: one_forward_simps)

text \<open>Closing the forward of a live session, and several of them.\<close>

lemma close_live:
  assumes "obj_get (bt_forwards st) i = Some f" "sf_sessionId f \<in> set (bt_sessions st)" "a \<noteq> Close_waits"
  shows "snd (closeLocalForward a i st) =
    (if sf_direction f = Local_forward \<and> i \<notin> fst ` set (bt_serving st) then st
     else if sf_direction f = Remote_forward \<and> a = Close_failed then stop_serving i st
     else (stop_serving i st)\<lparr>bt_forwards := obj_del i (bt_forwards st)\<rparr>)"
  using assms unfolding closeLocalForward_def Let_def by (cases "sf_direction f"; cases a) simp_all

lemma close_one:
  assumes f: "obj_get (bt_forwards st) i = Some f" "sf_sessionId f \<in> set (bt_sessions st)" and a: "a \<noteq> Close_waits"
    and st': "st' = snd (closeLocalForward a i st)"
  shows "bt_sessions st' = bt_sessions st" "bt_closing st' = bt_closing st"
    "j \<noteq> i \<Longrightarrow> obj_get (bt_forwards st') j = obj_get (bt_forwards st) j"
    "set (bt_serving st') \<subseteq> set (bt_serving st)" "(i, s) \<notin> set (bt_serving st')"
    "obj_get (bt_forwards st') i = None \<or> a = Close_failed \<or> i \<notin> fst ` set (bt_serving st)"
proof -
  have "j \<noteq> i \<Longrightarrow> obj_get (bt_forwards st') j = obj_get (bt_forwards st) j"
    unfolding st' close_live[OF f a] by (simp add: obj_get_del)
  moreover have "bt_sessions st' = bt_sessions st" "bt_closing st' = bt_closing st" "set (bt_serving st') \<subseteq> set (bt_serving st)"
    unfolding st' close_live[OF f a] by (auto simp: stop_serving_def)
  moreover have "(i, s) \<notin> set (bt_serving st')"
    unfolding st' close_live[OF f a] by (auto simp: stop_serving_def image_iff)
  moreover have "obj_get (bt_forwards st') i = None \<or> a = Close_failed \<or> i \<notin> fst ` set (bt_serving st)"
    unfolding st' close_live[OF f a] by (cases "sf_direction f") auto
  ultimately show "bt_sessions st' = bt_sessions st" "bt_closing st' = bt_closing st"
    "j \<noteq> i \<Longrightarrow> obj_get (bt_forwards st') j = obj_get (bt_forwards st) j"
    "set (bt_serving st') \<subseteq> set (bt_serving st)" "(i, s) \<notin> set (bt_serving st')"
    "obj_get (bt_forwards st') i = None \<or> a = Close_failed \<or> i \<notin> fst ` set (bt_serving st)" by blast+
qed

lemma close_each_effect:
  assumes "distinct ids" "\<forall>i \<in> set ids. \<exists>f. obj_get (bt_forwards st) i = Some f \<and> sf_sessionId f = sid"
    "sid \<in> set (bt_sessions st)" "\<forall>i \<in> set ids. ans i \<noteq> Close_waits" "st' = close_each ans ids st"
  shows "bt_sessions st' = bt_sessions st \<and> bt_closing st' = bt_closing st \<and>
    (\<forall>j. j \<notin> set ids \<longrightarrow> obj_get (bt_forwards st') j = obj_get (bt_forwards st) j) \<and>
    set (bt_serving st') \<subseteq> set (bt_serving st) \<and> (\<forall>i \<in> set ids. \<forall>s. (i, s) \<notin> set (bt_serving st')) \<and>
    (\<forall>i \<in> set ids. obj_get (bt_forwards st') i = None \<or> ans i = Close_failed \<or> i \<notin> fst ` set (bt_serving st))"
  using assms
proof (induction ids arbitrary: st)
  case (Cons i ids)
  obtain f where f: "obj_get (bt_forwards st) i = Some f" "sf_sessionId f \<in> set (bt_sessions st)"
    using Cons.prems(2,3) by auto
  define t where "t = snd (closeLocalForward (ans i) i st)"
  note one = close_one[OF f _ t_def]
  have a: "ans i \<noteq> Close_waits" using Cons.prems(4) by simp
  have "\<forall>j \<in> set ids. \<exists>f. obj_get (bt_forwards t) j = Some f \<and> sf_sessionId f = sid"
    using Cons.prems(1,2) one(3)[OF a] by (metis distinct.simps(2) list.set_intros(2))
  then have ih: "bt_sessions st' = bt_sessions t \<and> bt_closing st' = bt_closing t \<and>
    (\<forall>j. j \<notin> set ids \<longrightarrow> obj_get (bt_forwards st') j = obj_get (bt_forwards t) j) \<and>
    set (bt_serving st') \<subseteq> set (bt_serving t) \<and> (\<forall>i \<in> set ids. \<forall>s. (i, s) \<notin> set (bt_serving st')) \<and>
    (\<forall>i \<in> set ids. obj_get (bt_forwards st') i = None \<or> ans i = Close_failed \<or> i \<notin> fst ` set (bt_serving t))"
    using Cons.prems one(1)[OF a] by (intro Cons.IH) (simp_all add: t_def)
  have i: "i \<notin> set ids" using Cons.prems(1) by simp
  have sv: "set (bt_serving st') \<subseteq> set (bt_serving st)" "\<And>s. (i, s) \<notin> set (bt_serving st')"
    using ih one(4,5)[OF a] by blast+
  have sub: "j \<notin> fst ` set (bt_serving st)" if "j \<notin> fst ` set (bt_serving t)" "j \<noteq> i" for j
  proof
    assume "j \<in> fst ` set (bt_serving st)"
    moreover have "(j, s) \<in> set (bt_serving t)" if "(j, s) \<in> set (bt_serving st)" for s
      using that \<open>j \<noteq> i\<close> unfolding t_def close_live[OF f a] by (auto simp: stop_serving_def)
    ultimately show False using that(1) by force
  qed
  have left: "obj_get (bt_forwards st') j = None \<or> ans j = Close_failed \<or> j \<notin> fst ` set (bt_serving st)"
    if "j \<in> set (i # ids)" for j
  proof (cases "j = i")
    case True
    then show ?thesis using ih i one(6)[OF a] by auto
  next
    case False
    then have "j \<in> set ids" using that by simp
    then have "obj_get (bt_forwards st') j = None \<or> ans j = Close_failed \<or> j \<notin> fst ` set (bt_serving t)"
      using ih by (elim conjE) (erule (1) bspec)
    then show ?thesis using sub[OF _ False] by metis
  qed
  show ?case using ih one(1-3)[OF a] sv left by auto
qed simp

text \<open>the end of a session releases its forwards. When no close waits for an open connection, the
  session is gone, none of its forwards accepts a connection, those left in the table are the ones
  whose close failed or that were not listening any more, and the forwards of other sessions are
  as they were.\<close>

theorem ended_session_releases_forwards:
  assumes "tables_reachable st" and live: "sid \<in> set (bt_sessions st)"
    and quick: "\<forall>i \<in> set (forwards_of sid st). ans i \<noteq> Close_waits"
    and idle: "\<forall>i \<in> set (forwards_of sid st). i \<notin> set (bt_closing st)"
    and st': "st' = deleteSession ans sid st"
  shows "sid \<notin> set (bt_sessions st') \<and>
    (\<forall>i \<in> set (forwards_of sid st). (\<forall>s. (i, s) \<notin> set (bt_serving st')) \<and>
       (obj_get (bt_forwards st') i = None \<or> ans i = Close_failed \<or> i \<notin> fst ` set (bt_serving st))) \<and>
    (\<forall>i. i \<notin> set (forwards_of sid st) \<longrightarrow> obj_get (bt_forwards st') i = obj_get (bt_forwards st) i)"
proof -
  note D = tables_okD[OF tables_reachable_ok[OF assms(1)]]
  let ?is = "forwards_of sid st"
  have keys: "map sf_id (map snd (bt_forwards st)) = map fst (bt_forwards st)"
    unfolding map_map by (rule map_cong) (use D(7,8) in \<open>auto simp: obj_wf_get\<close>)
  have "distinct (map sf_id (map snd (bt_forwards st)))" unfolding keys using D(7) by (simp add: obj_wf_def)
  then have dis: "distinct ?is" unfolding forwards_of_def by (rule distinct_map_filter)
  have mem: "\<forall>i \<in> set ?is. \<exists>f. obj_get (bt_forwards st) i = Some f \<and> sf_sessionId f = sid"
    using D(7,8) by (fastforce simp: forwards_of_def obj_wf_get)
  define t where "t = close_each ans ?is st"
  note E = close_each_effect[OF dis mem live quick t_def]
  have "filter (\<lambda>i. i \<in> set (bt_closing t)) ?is = []" using E idle by (simp add: filter_empty_conv)
  then have "st' = forget_session sid t"
    using st' live by (simp add: deleteSession_def end_session_def closeForwardsForSession_def t_def)
  then show ?thesis using E by (auto simp: forget_session_def)
qed

theorem ended_session_releases_forwards_witness:
  "bt_sessions (deleteSession (\<lambda>_. Close_done) ''s'' one_forward) = [] \<and>
   obj_get (bt_forwards (deleteSession (\<lambda>_. Close_done) ''s'' one_forward)) ''f'' = None"
proof -
  have ids: "forwards_of ''s'' one_forward = [''f'']"
    by (simp add: forwards_of_def one_forward_simps sample_request_def)
  have "bt_sessions (deleteSession (\<lambda>_. Close_done) ''s'' one_forward) = []"
    by (simp add: deleteSession_def end_session_def closeForwardsForSession_def Let_def ids closeLocalForward_def
        one_forward_simps stop_serving_def forget_session_def split: list.splits)
  then show ?thesis
    using ended_session_releases_forwards[OF one_forward_reachable, of "''s''" "\<lambda>_. Close_done"]
    by (simp add: ids one_forward_simps)
qed

text \<open>
  The hypotheses are needed. A connection that stays open through a local forward holds up the end
  of its session: the client of the session is not ended before its server has closed.
\<close>

lemma open_connection_holds_session:
  "bt_sessions (deleteSession (\<lambda>_. Close_waits) ''s'' one_forward) = [''s'']"
proof -
  have ids: "forwards_of ''s'' one_forward = [''f'']"
    by (simp add: forwards_of_def one_forward_simps sample_request_def)
  show ?thesis
    by (simp add: deleteSession_def end_session_def closeForwardsForSession_def Let_def ids closeLocalForward_def
        one_forward_simps stop_serving_def)
qed

text \<open>
  A server that starts to listen after its session was deleted is registered all the same: the
  session is looked up before the await only.
\<close>

lemma late_forward_outlives_session:
  assumes "st = deleteSession (\<lambda>_. Close_done) ''s'' (snd (createLocalForward sample_request one_session))"
    and "st' = snd (local_listening ''f'' ''t'' sample_request (Inr (Some 40000)) st)"
  shows "bt_sessions st' = []" "bt_serving st' = [(''f'', ''s'')]" "obj_get (bt_forwards st') ''f'' \<noteq> None"
  unfolding assms
  by (simp_all add: one_session_def empty_tables_def createLocalForward_def sample_request_def deleteSession_def
      end_session_def closeForwardsForSession_def forwards_of_def forget_session_def local_listening_def Let_def)

text \<open>
  With two remote forwards in one session the handler of the first one rejects the connections of
  the second before the handler of the second sees them.
\<close>

lemma second_remote_forward_rejected:
  assumes "st1 = snd (createRemoteForward ''a'' ''t'' sample_request one_session)"
    and "st2 = snd (remote_answered (forward_of ''a'' ''t'' Remote_forward sample_request) (Inr None) st1)"
    and "st3 = snd (createRemoteForward ''b'' ''t'' (sample_request\<lparr>fr_remotePort := 80\<rparr>) st2)"
    and "st4 = snd (remote_answered (forward_of ''b'' ''t'' Remote_forward (sample_request\<lparr>fr_remotePort := 80\<rparr>)) (Inr None) st3)"
  shows "tcp_connection ''s'' ''db'' 80 st4 = [Rejected ''a'', Accepted ''b'']"
  unfolding assms
  by (simp add: one_session_def empty_tables_def createRemoteForward_def sample_request_def remote_answered_def
      forward_of_def tcp_connection_def onConnection_def map_filter_simps obj_set_def Let_def)

end
