(* ===== verification/SshConfigServer.thy ===== *)
theory SshConfigServer
  imports Globs BackendPaths Sorting
begin

section \<open>Include files of an OpenSSH configuration on the backend\<close>

text \<open>
  \<open>server/ssh-config-resolution.mjs\<close> keeps the canonical paths that were handed out under salted
  keys, the most recently used ones only; \<open>server/backend-glob.mjs\<close> translates a pattern to a
  regular expression; \<open>globSshConfigFiles\<close> of \<open>server/backend.mjs\<close> lists the files a pattern
  selects, all of them under the SSH directory of the user. The salted hash and the file system are
  parameters.
\<close>

subsection \<open>The registry of canonical paths\<close>

definition SSH_CONFIG_RESOLUTION_MAX_ENTRIES :: nat where
  "SSH_CONFIG_RESOLUTION_MAX_ENTRIES = 4096"

text \<open>Keys with paths, the least recently used first.\<close>

type_synonym registry = "string obj"

definition remember :: "(string \<Rightarrow> string) \<Rightarrow> nat \<Rightarrow> string \<Rightarrow> registry \<Rightarrow> string \<times> registry" where
  "remember cycleKey maxEntries path r =
     (let k = cycleKey path;
          r' = (if obj_get r k \<noteq> None then obj_del k r
                else if length r \<ge> maxEntries then obj_del (fst (hd r)) r else r)
      in (k, obj_set k path r'))"

definition canonicalPath :: "(string \<Rightarrow> string) \<Rightarrow> string \<Rightarrow> registry \<Rightarrow> string option \<times> registry" where
  "canonicalPath cycleKey k r =
     (case obj_get r k of
        None \<Rightarrow> (None, r)
      | Some path \<Rightarrow> if cycleKey path \<noteq> k then (None, r) else (Some path, obj_set k path (obj_del k r)))"

subsection \<open>Paths\<close>

text \<open>\<open>dirname\<close> and \<open>basename\<close> of the POSIX path library.\<close>

definition posix_dirname :: "string \<Rightarrow> string" where
  "posix_dirname s =
     (case s of
        [] \<Rightarrow> ''.''
      | h # t \<Rightarrow>
          let u = dropWhile (\<lambda>c. c \<noteq> CHR ''/'') (rev (strip_slashes t)) in
          if u = [] then (if h = CHR ''/'' then ''/'' else ''.'')
          else if h = CHR ''/'' \<and> length u = 1 then ''//'' else take (length u) s)"

definition posix_basename :: "string \<Rightarrow> string" where
  "posix_basename s = rev (takeWhile (\<lambda>c. c \<noteq> CHR ''/'') (rev (strip_slashes s)))"

definition expandHome :: "string \<Rightarrow> string \<Rightarrow> string" where
  "expandHome home p = (if starts_with ''~/'' p then join_normalized home (drop 2 p) else p)"

definition root_prefix :: "string \<Rightarrow> string" where
  "root_prefix root = (if ends_with ''/'' root then root else root @ ''/'')"

definition inside_root :: "string \<Rightarrow> string \<Rightarrow> bool" where
  "inside_root root p \<longleftrightarrow> p = root \<or> starts_with (root_prefix root) p"

text \<open>A field of the request: absent, a string, or something else.\<close>

datatype context_field = Absent | Text string | Not_text

record resolution_context =
  rc_parentCycleKey :: context_field
  rc_relativePath :: context_field

datatype glob_failure =
  Invalid_context string | No_ssh_root | Glob_in_directory | No_directory | Directory_outside string | Unreadable_directory

definition resolveSshConfigPath ::
    "(string \<Rightarrow> string) \<Rightarrow> string \<Rightarrow> string \<Rightarrow> resolution_context \<Rightarrow> string \<Rightarrow> registry \<Rightarrow>
     (glob_failure + string) \<times> registry" where
  "resolveSshConfigPath cycleKey home requested ctx sshRoot r =
     (case (rc_parentCycleKey ctx, rc_relativePath ctx) of
        (Absent, Absent) \<Rightarrow> (Inr (expandHome home requested), r)
      | (Text k, Text rel) \<Rightarrow>
          if starts_with ''/'' rel \<or> starts_with ''~'' rel then (Inl (Invalid_context requested), r)
          else (case canonicalPath cycleKey k r of
              (None, r') \<Rightarrow> (Inl (Invalid_context requested), r')
            | (Some parent, r') \<Rightarrow>
                if \<not> inside_root sshRoot parent then (Inl (Invalid_context requested), r')
                else (Inr (join_normalized (posix_dirname parent) rel), r'))
      | _ \<Rightarrow> (Inl (Invalid_context requested), r))"

subsection \<open>Patterns of file names\<close>

text \<open>
  The regular expression a pattern is translated to, anchored at both ends: every character is one
  atom. With its flags the dot stands for every character.
\<close>

datatype atom = Any_run | Any_char | Literal char

definition globMatcher :: "string \<Rightarrow> atom list" where
  "globMatcher pattern = map (\<lambda>c. if c = CHR ''*'' then Any_run else if c = CHR ''?'' then Any_char else Literal c) pattern"

fun matcher_test :: "atom list \<Rightarrow> string \<Rightarrow> bool" where
  "matcher_test [] s = (s = [])"
| "matcher_test (Any_run # m) s = list_ex (\<lambda>k. matcher_test m (drop k s)) [0..<Suc (length s)]"
| "matcher_test (Any_char # m) s = (s \<noteq> [] \<and> matcher_test m (tl s))"
| "matcher_test (Literal c # m) s = (s \<noteq> [] \<and> hd s = c \<and> matcher_test m (tl s))"

definition globMatches :: "string \<Rightarrow> string \<Rightarrow> bool" where
  "globMatches pattern t = matcher_test (globMatcher pattern) t"

text \<open>The matcher of the native backend (\<open>glob_match\<close> in \<open>src-tauri/src/main.rs\<close>), a loop with one saved star.\<close>

definition glob_match :: "string \<Rightarrow> string \<Rightarrow> bool" where
  "glob_match pattern t = glob_loop pattern t 0 0 None"

subsection \<open>Files a pattern selects\<close>

definition SSH_CONFIG_GLOB_MAX_MATCHES :: nat where
  "SSH_CONFIG_GLOB_MAX_MATCHES = 256"

text \<open>
  The file system: real paths, the names in a directory, and the content of a regular file of at
  most a megabyte, each \<open>None\<close> where it fails.
\<close>

record files =
  fs_realpath :: "string \<Rightarrow> string option"
  fs_readdir :: "string \<Rightarrow> string list option"
  fs_read :: "string \<Rightarrow> string option"

record glob_entry =
  ge_cycleKey :: string
  ge_name :: string
  ge_content :: string

definition glob_dir_char :: "char \<Rightarrow> bool" where
  "glob_dir_char c \<longleftrightarrow> c \<in> set ''*?[''"

fun collect_matches ::
    "(string \<Rightarrow> string) \<Rightarrow> files \<Rightarrow> string \<Rightarrow> string \<Rightarrow> string \<Rightarrow> string list \<Rightarrow> glob_entry list \<Rightarrow> registry \<Rightarrow>
     glob_entry list \<times> registry" where
  "collect_matches cycleKey fs sshRoot parent pattern [] ms r = (ms, r)"
| "collect_matches cycleKey fs sshRoot parent pattern (name # names) ms r =
     (if \<not> globMatches pattern name then collect_matches cycleKey fs sshRoot parent pattern names ms r
      else case fs_realpath fs (join_normalized parent name) of
        None \<Rightarrow> collect_matches cycleKey fs sshRoot parent pattern names ms r
      | Some real \<Rightarrow>
          if \<not> inside_root sshRoot real then collect_matches cycleKey fs sshRoot parent pattern names ms r
          else case fs_read fs real of
            None \<Rightarrow> collect_matches cycleKey fs sshRoot parent pattern names ms r
          | Some content \<Rightarrow>
              let (k, r') = remember cycleKey SSH_CONFIG_RESOLUTION_MAX_ENTRIES real r;
                  ms' = ms @ [\<lparr>ge_cycleKey = k, ge_name = name, ge_content = content\<rparr>]
              in if length ms' \<ge> SSH_CONFIG_GLOB_MAX_MATCHES then (ms', r')
                 else collect_matches cycleKey fs sshRoot parent pattern names ms' r')"

definition globSshConfigFiles ::
    "(string \<Rightarrow> string \<Rightarrow> int) \<Rightarrow> (string \<Rightarrow> string) \<Rightarrow> files \<Rightarrow> string \<Rightarrow> string \<Rightarrow> resolution_context \<Rightarrow> registry \<Rightarrow>
     (glob_failure + glob_entry list) \<times> registry" where
  "globSshConfigFiles lc cycleKey fs home pattern ctx r =
     (case fs_realpath fs (join_normalized home ''.ssh'') of
        None \<Rightarrow> (Inl No_ssh_root, r)
      | Some sshRoot \<Rightarrow>
          (case resolveSshConfigPath cycleKey home pattern ctx sshRoot r of
             (Inl e, r') \<Rightarrow> (Inl e, r')
           | (Inr expanded, r') \<Rightarrow>
               let parent = posix_dirname expanded; filePattern = posix_basename expanded in
               if list_ex glob_dir_char parent then (Inl Glob_in_directory, r')
               else case fs_realpath fs parent of
                 None \<Rightarrow> (Inl No_directory, r')
               | Some parentReal \<Rightarrow>
                   if \<not> inside_root sshRoot parentReal then (Inl (Directory_outside parentReal), r')
                   else case fs_readdir fs parentReal of
                     None \<Rightarrow> (Inl Unreadable_directory, r')
                   | Some names \<Rightarrow>
                       (case collect_matches cycleKey fs sshRoot parentReal filePattern names [] r' of
                          (ms, r'') \<Rightarrow> (Inr (js_sort (\<lambda>a b. lc (ge_name a) (ge_name b)) ms), r''))))"

subsection \<open>Patterns\<close>

lemma matcher_test_glob: "matcher_test (globMatcher p) t = glob p t"
proof (induction p arbitrary: t)
  case Nil
  show ?case by (simp add: globMatcher_def)
next
  case (Cons c p)
  have m: "globMatcher (c # p) = (if c = CHR ''*'' then Any_run else if c = CHR ''?'' then Any_char else Literal c) # globMatcher p"
    by (simp add: globMatcher_def)
  show ?case
  proof (cases "c = CHR ''*''")
    case True
    show ?thesis unfolding m glob.simps(2) using Cons.IH True by (simp del: upt_Suc)
  next
    case False
    then show ?thesis unfolding m glob_char[OF False] using Cons.IH by auto
  qed
qed

text \<open>the two backends select the same files: for a name without a star the regular expression of
  the Node backend matches exactly when the loop of the native backend does, and both when the
  pattern means that name.\<close>

theorem backends_agree_on_globs:
  assumes "CHR ''*'' \<notin> set name"
  shows "globMatches pattern name = glob_match pattern name \<and> globMatches pattern name = glob pattern name"
  using matchesGlob_glob[OF assms, of pattern] by (simp add: globMatches_def matcher_test_glob glob_match_def matchesGlob_def)

theorem backends_agree_on_globs_witness:
  "globMatches ''10-*'' ''10-a'' = glob_match ''10-*'' ''10-a''"
  using backends_agree_on_globs[of "''10-a''" "''10-*''"] by simp

text \<open>For a name with a star they differ: the loop compares the characters before it sees the star.\<close>

lemma backends_disagree_on_star: "globMatches ''*'' ''*a'' \<and> \<not> glob_match ''*'' ''*a''"
  using matchesGlob_literal_star by (simp add: globMatches_def matcher_test_glob glob_match_def matchesGlob_def)

subsection \<open>The registry\<close>

definition registry_ok :: "(string \<Rightarrow> string) \<Rightarrow> nat \<Rightarrow> registry \<Rightarrow> bool" where
  "registry_ok cycleKey maxEntries r \<longleftrightarrow> obj_wf r \<and> length r \<le> maxEntries \<and> list_all (\<lambda>(k, p). k = cycleKey p) r"

lemma length_obj_del: "obj_wf r \<Longrightarrow> length (obj_del k r) = length r - (if k \<in> fst ` set r then 1 else 0)"
proof (induction r)
  case (Cons a r)
  have "k \<in> fst ` set r \<Longrightarrow> r \<noteq> []" by auto
  with Cons show ?case by (cases a; cases r) (auto simp: obj_del_def obj_wf_def)
qed (simp add: obj_del_def)

lemma obj_del_absent: "k \<notin> fst ` set r \<Longrightarrow> obj_del k r = r"
  unfolding obj_del_def AList.delete_eq by (induction r) auto

text \<open>Remembering a path puts it at the end; what leaves is the first entry, and only of a full registry.\<close>

lemma remember_eq:
  assumes "registry_ok cycleKey m r" "m > 0"
  shows "remember cycleKey m p r = (cycleKey p,
    (if cycleKey p \<in> fst ` set r then obj_del (cycleKey p) r else if length r = m then tl r else r) @ [(cycleKey p, p)])"
proof (cases "cycleKey p \<in> fst ` set r")
  case True
  then show ?thesis
    by (simp add: remember_def Let_def obj_get_None_iff obj_set_new keys_obj_del)
next
  case False
  have hd: "obj_del (fst (hd r)) r = tl r" if "r \<noteq> []"
    using that assms(1) by (cases r) (auto simp: obj_del_def registry_ok_def obj_wf_def obj_del_absent[unfolded obj_del_def])
  have tl: "cycleKey p \<notin> fst ` set (tl r)" using False by (cases r) auto
  have none: "obj_get r (cycleKey p) = None" using False by (simp add: obj_get_None_iff)
  have "length r \<le> m" using assms(1) by (simp add: registry_ok_def)
  moreover have "length r = m \<Longrightarrow> r \<noteq> []" using assms(2) by auto
  ultimately show ?thesis using False hd tl
    by (simp add: remember_def Let_def none obj_set_new)
qed

lemma remember_ok: "registry_ok cycleKey m r \<Longrightarrow> m > 0 \<Longrightarrow> registry_ok cycleKey m (snd (remember cycleKey m p r))"
proof -
  assume ok: "registry_ok cycleKey m r" and m: "m > 0"
  have "cycleKey p \<in> fst ` set r \<Longrightarrow> length r > 0" by (cases r) auto
  moreover have "obj_wf (obj_del (cycleKey p) r)" "obj_wf (tl r)" using ok
    by (auto simp: registry_ok_def obj_wf_def map_tl distinct_tl intro!: obj_wf_del[unfolded obj_wf_def])
  moreover have "set (tl r) \<subseteq> set r" "set (obj_del (cycleKey p) r) \<subseteq> set r"
    using set_obj_del_subset by (cases r; force)+
  moreover have "cycleKey p \<notin> fst ` set r \<Longrightarrow> cycleKey p \<notin> fst ` set (tl r)" by (cases r) auto
  ultimately show ?thesis using ok m
    by (auto simp: remember_eq[OF ok m] registry_ok_def obj_wf_def length_obj_del[unfolded obj_wf_def] keys_obj_del list_all_iff)
qed

definition remember_all :: "(string \<Rightarrow> string) \<Rightarrow> nat \<Rightarrow> string list \<Rightarrow> registry \<Rightarrow> registry" where
  "remember_all cycleKey maxEntries ps r = fold (\<lambda>q r. snd (remember cycleKey maxEntries q r)) ps r"

lemma remember_all_simps [simp]:
  "remember_all cycleKey m [] r = r"
  "remember_all cycleKey m (q # qs) r = remember_all cycleKey m qs (snd (remember cycleKey m q r))"
  by (simp_all add: remember_all_def)

text \<open>An entry with at most \<open>K\<close> behind it stays while there is room for \<open>K\<close> and it.\<close>

lemma behind_step:
  assumes ok: "registry_ok key m (xs @ (key p, p) # ys)" and m: "m > 0"
    and ys: "fst ` set ys \<subseteq> K" "finite K" "card (insert (key q) K - {key p}) < m"
    and same: "key q = key p \<Longrightarrow> q = p"
  shows "\<exists>xs' ys'. snd (remember key m q (xs @ (key p, p) # ys)) = xs' @ (key p, p) # ys' \<and> fst ` set ys' \<subseteq> insert (key q) K"
proof -
  let ?r = "xs @ (key p, p) # ys"
  have wf: "distinct (map fst ?r)" using ok by (simp add: registry_ok_def obj_wf_def)
  have del: "obj_del k ?r = filter (\<lambda>e. fst e \<noteq> k) xs @ (if key p = k then [] else [(key p, p)]) @ filter (\<lambda>e. fst e \<noteq> k) ys" for k
  proof -
    have "(\<lambda>(k', _). k \<noteq> k') = (\<lambda>e :: string \<times> string. fst e \<noteq> k)" by auto
    then show ?thesis by (auto simp: obj_del_def AList.delete_eq)
  qed
  note eq = remember_eq[OF ok m, of q]
  show ?thesis
  proof (cases "key q = key p")
    case True
    have qp: "q = p" by (rule same[OF True])
    have "snd (remember key m q ?r) = filter (\<lambda>e. fst e \<noteq> key p) xs @ filter (\<lambda>e. fst e \<noteq> key p) ys @ [(key p, p)]"
      unfolding qp eq[unfolded qp] by (simp add: del)
    then show ?thesis by (metis append.assoc empty_subsetI image_empty list.set(1))
  next
    case other: False
    show ?thesis
    proof (cases "key q \<in> fst ` set ?r")
      case True
      then have "snd (remember key m q ?r) =
          filter (\<lambda>e. fst e \<noteq> key q) xs @ (key p, p) # (filter (\<lambda>e. fst e \<noteq> key q) ys @ [(key q, q)])"
        using other by (simp add: eq del)
      moreover have "fst ` set (filter (\<lambda>e. fst e \<noteq> key q) ys @ [(key q, q)]) \<subseteq> insert (key q) K" using ys(1) by auto
      ultimately show ?thesis by blast
    next
      case False
      have tail: "fst ` set (ys @ [(key q, q)]) \<subseteq> insert (key q) K" using ys(1) by auto
      show ?thesis
      proof (cases "length ?r = m")
        case True
        have "xs \<noteq> []"
        proof
          assume "xs = []"
          have d: "distinct (map fst (ys @ [(key q, q)]))" using wf False by auto
          have "key p \<notin> fst ` set ys" using wf by auto
          then have sub: "set (map fst (ys @ [(key q, q)])) \<subseteq> insert (key q) K - {key p}"
            using ys(1) other by (simp, blast)
          have "m = length (map fst (ys @ [(key q, q)]))" using True \<open>xs = []\<close> by simp
          also have "\<dots> = card (set (map fst (ys @ [(key q, q)])))" by (rule distinct_card[OF d, symmetric])
          also have "\<dots> \<le> card (insert (key q) K - {key p})"
            using ys(2) sub by (intro card_mono) simp_all
          finally show False using ys(3) by simp
        qed
        then have "snd (remember key m q ?r) = tl xs @ (key p, p) # (ys @ [(key q, q)])"
          using False True by (simp add: eq del: length_append)
        with tail show ?thesis by blast
      next
        case room: False
        then have "snd (remember key m q ?r) = xs @ (key p, p) # (ys @ [(key q, q)])"
          using False by (simp add: eq del: length_append)
        with tail show ?thesis by blast
      qed
    qed
  qed
qed

lemma behind_all:
  assumes "registry_ok key m (xs @ (key p, p) # ys)" "m > 0" "fst ` set ys \<subseteq> K" "finite K"
    "card (K \<union> key ` set qs - {key p}) < m" "\<forall>q \<in> set qs. key q = key p \<longrightarrow> q = p"
  shows "\<exists>xs' ys'. remember_all key m qs (xs @ (key p, p) # ys) = xs' @ (key p, p) # ys' \<and>
    registry_ok key m (xs' @ (key p, p) # ys')"
  using assms
proof (induction qs arbitrary: xs ys K)
  case (Cons q qs)
  have "card (insert (key q) K - {key p}) \<le> card (K \<union> key ` set (q # qs) - {key p})"
    using Cons.prems(4) by (intro card_mono) auto
  then obtain xs' ys' where s: "snd (remember key m q (xs @ (key p, p) # ys)) = xs' @ (key p, p) # ys'"
    "fst ` set ys' \<subseteq> insert (key q) K"
    using behind_step[of key m xs p ys K q] Cons.prems by auto
  have "registry_ok key m (xs' @ (key p, p) # ys')"
    using remember_ok[OF Cons.prems(1,2), of q] s(1) by simp
  moreover have "insert (key q) K \<union> key ` set qs = K \<union> key ` set (q # qs)" by auto
  ultimately show ?case using Cons.IH[of xs' ys' "insert (key q) K"] Cons.prems s by simp
qed auto

text \<open>an Include is not refused because others came in between: a path that the backend handed
  out resolves again as long as fewer other paths were used since than the registry holds, and the
  registry never grows beyond its limit. The salted hash must not map another of those paths to
  the same key.\<close>

theorem recent_path_resolves:
  assumes "registry_ok cycleKey maxEntries r" "maxEntries > 0"
    and "\<forall>q \<in> set others. cycleKey q = cycleKey path \<longrightarrow> q = path"
    and "card (cycleKey ` set others - {cycleKey path}) < maxEntries"
    and "r' = remember_all cycleKey maxEntries others (snd (remember cycleKey maxEntries path r))"
  shows "fst (canonicalPath cycleKey (cycleKey path) r') = Some path \<and> length r' \<le> maxEntries"
proof -
  obtain xs where xs: "snd (remember cycleKey maxEntries path r) = xs @ (cycleKey path, path) # []"
    using remember_eq[OF assms(1,2)] by auto
  have ok: "registry_ok cycleKey maxEntries (xs @ (cycleKey path, path) # [])"
    using remember_ok[OF assms(1,2), of path] xs by simp
  obtain as bs where r': "r' = as @ (cycleKey path, path) # bs" "registry_ok cycleKey maxEntries r'"
    using behind_all[OF ok assms(2), of "{}" others] assms(3,4,5) xs by auto
  then have "obj_get r' (cycleKey path) = Some path"
    by (subst obj_wf_get[symmetric]) (simp_all add: registry_ok_def)
  with r'(2) show ?thesis by (simp add: canonicalPath_def registry_ok_def)
qed

theorem recent_path_resolves_witness:
  "fst (canonicalPath id ''/r/a'' (remember_all id 2 [''/r/b''] (snd (remember id 2 ''/r/a'' [])))) = Some ''/r/a''"
  using recent_path_resolves[of id 2 "[]" "[''/r/b'']" "''/r/a''" "remember_all id 2 [''/r/b''] (snd (remember id 2 ''/r/a'' []))"]
  by (simp add: registry_ok_def)

subsection \<open>Files a pattern selects\<close>

text \<open>An entry the client gets: its name matches, its real path is under the root and has its key.\<close>

definition entry_ok :: "(string \<Rightarrow> string) \<Rightarrow> files \<Rightarrow> string \<Rightarrow> string \<Rightarrow> string \<Rightarrow> glob_entry \<Rightarrow> bool" where
  "entry_ok cycleKey fs sshRoot parent pattern e =
     (globMatches pattern (ge_name e) \<and>
      (case fs_realpath fs (join_normalized parent (ge_name e)) of
         None \<Rightarrow> False
       | Some real \<Rightarrow> inside_root sshRoot real \<and> fs_read fs real = Some (ge_content e) \<and> ge_cycleKey e = cycleKey real))"

lemma collect_matches_ok:
  "list_all (entry_ok cycleKey fs sshRoot parent pattern) ms \<Longrightarrow> length ms < SSH_CONFIG_GLOB_MAX_MATCHES \<Longrightarrow>
   registry_ok cycleKey SSH_CONFIG_RESOLUTION_MAX_ENTRIES r \<Longrightarrow>
   collect_matches cycleKey fs sshRoot parent pattern names ms r = (ms', r') \<Longrightarrow>
   list_all (entry_ok cycleKey fs sshRoot parent pattern) ms' \<and> length ms' \<le> SSH_CONFIG_GLOB_MAX_MATCHES \<and>
   registry_ok cycleKey SSH_CONFIG_RESOLUTION_MAX_ENTRIES r'"
proof (induction names arbitrary: ms r)
  case (Cons name names)
  have max: "SSH_CONFIG_RESOLUTION_MAX_ENTRIES > 0" by (simp add: SSH_CONFIG_RESOLUTION_MAX_ENTRIES_def)
  show ?case
  proof (cases "globMatches pattern name")
    case True
    show ?thesis
    proof (cases "fs_realpath fs (join_normalized parent name)")
      case None
      with Cons True show ?thesis by simp
    next
      case (Some real)
      show ?thesis
      proof (cases "inside_root sshRoot real \<and> fs_read fs real \<noteq> None")
        case False
        with Cons True Some show ?thesis by (auto split: if_splits)
      next
        case inside: True
        then obtain c where c: "fs_read fs real = Some c" by auto
        define r1 where "r1 = snd (remember cycleKey SSH_CONFIG_RESOLUTION_MAX_ENTRIES real r)"
        let ?e = "\<lparr>ge_cycleKey = cycleKey real, ge_name = name, ge_content = c\<rparr>"
        have rem: "remember cycleKey SSH_CONFIG_RESOLUTION_MAX_ENTRIES real r = (cycleKey real, r1)"
          by (simp add: r1_def remember_def Let_def)
        have r1: "registry_ok cycleKey SSH_CONFIG_RESOLUTION_MAX_ENTRIES r1"
          using remember_ok[OF Cons.prems(3) max, of real] by (simp add: r1_def)
        have "entry_ok cycleKey fs sshRoot parent pattern ?e"
          using True Some inside c by (simp add: entry_ok_def)
        then have all: "list_all (entry_ok cycleKey fs sshRoot parent pattern) (ms @ [?e])" using Cons.prems(1) by simp
        show ?thesis
        proof (cases "length (ms @ [?e]) \<ge> SSH_CONFIG_GLOB_MAX_MATCHES")
          case True
          have "(ms', r') = (ms @ [?e], r1)"
            using Cons.prems(4) \<open>globMatches pattern name\<close> Some inside c rem True by simp
          with all r1 Cons.prems(2) show ?thesis by simp
        next
          case False
          then have "collect_matches cycleKey fs sshRoot parent pattern names (ms @ [?e]) r1 = (ms', r')"
            using Cons.prems(4) \<open>globMatches pattern name\<close> Some inside c rem by simp
          from Cons.IH[OF all _ r1 this] False show ?thesis by simp
        qed
      qed
    qed
  qed (use Cons in simp)
qed auto

text \<open>The entries come from the names given, and unless the limit is reached all of them are there.\<close>

lemma collect_matches_exact:
  "collect_matches cycleKey fs sshRoot parent pattern names ms r = (ms', r') \<Longrightarrow>
   set ms \<subseteq> set ms' \<and> ge_name ` set ms' \<subseteq> ge_name ` set ms \<union> set names \<and>
   (length ms' < SSH_CONFIG_GLOB_MAX_MATCHES \<longrightarrow>
      (\<forall>e :: glob_entry. ge_name e \<in> set names \<and> entry_ok cycleKey fs sshRoot parent pattern e \<longrightarrow> e \<in> set ms'))"
proof (induction names arbitrary: ms r)
  case (Cons name names)
  have skip: ?case if s: "collect_matches cycleKey fs sshRoot parent pattern names ms r = (ms', r')"
    and n: "\<And>e :: glob_entry. ge_name e = name \<Longrightarrow> \<not> entry_ok cycleKey fs sshRoot parent pattern e"
    using Cons.IH[OF s] n by auto
  show ?case
  proof (cases "globMatches pattern name")
    case False
    show ?thesis by (rule skip) (use Cons.prems False in \<open>auto simp: entry_ok_def\<close>)
  next
    case True
    show ?thesis
    proof (cases "fs_realpath fs (join_normalized parent name)")
      case None
      show ?thesis by (rule skip) (use Cons.prems True None in \<open>auto simp: entry_ok_def\<close>)
    next
      case (Some real)
      show ?thesis
      proof (cases "inside_root sshRoot real \<and> fs_read fs real \<noteq> None")
        case False
        show ?thesis by (rule skip) (use Cons.prems True Some False in \<open>auto simp: entry_ok_def split: if_splits\<close>)
      next
        case inside: True
        then obtain c where c: "fs_read fs real = Some c" by auto
        let ?e = "\<lparr>ge_cycleKey = cycleKey real, ge_name = name, ge_content = c\<rparr>"
        obtain r1 where rem: "remember cycleKey SSH_CONFIG_RESOLUTION_MAX_ENTRIES real r = (cycleKey real, r1)"
          by (simp add: remember_def Let_def)
        have only: "e = ?e" if "ge_name e = name" "entry_ok cycleKey fs sshRoot parent pattern e" for e :: glob_entry
          using that Some c by (simp add: entry_ok_def)
        show ?thesis
        proof (cases "length (ms @ [?e]) \<ge> SSH_CONFIG_GLOB_MAX_MATCHES")
          case full: True
          have "ms' = ms @ [?e]" using Cons.prems True Some inside c rem full by simp
          with full show ?thesis by auto
        next
          case False
          then have "collect_matches cycleKey fs sshRoot parent pattern names (ms @ [?e]) r1 = (ms', r')"
            using Cons.prems True Some inside c rem by simp
          from Cons.IH[OF this] only show ?thesis by auto
        qed
      qed
    qed
  qed
qed auto

text \<open>
  What a request asks for. Without a context it is the pattern with the home directory filled in;
  with one it is a relative path beside a file whose key was handed out and which is under the root.
\<close>

definition requested_target ::
    "string \<Rightarrow> string \<Rightarrow> resolution_context \<Rightarrow> string \<Rightarrow> registry \<Rightarrow> string \<Rightarrow> bool" where
  "requested_target home pattern ctx root r expanded \<longleftrightarrow>
     ctx = \<lparr>rc_parentCycleKey = Absent, rc_relativePath = Absent\<rparr> \<and> expanded = expandHome home pattern \<or>
     (\<exists>(k, p) \<in> set r. \<exists>rel. ctx = \<lparr>rc_parentCycleKey = Text k, rc_relativePath = Text rel\<rparr> \<and>
        \<not> starts_with ''/'' rel \<and> \<not> starts_with ''~'' rel \<and> inside_root root p \<and>
        expanded = join_normalized (posix_dirname p) rel)"

lemma resolve_target:
  assumes "resolveSshConfigPath cycleKey home pattern ctx root r = (Inr expanded, r')"
  shows "requested_target home pattern ctx root r expanded"
proof -
  have mem: "(k, p) \<in> set r" if "canonicalPath cycleKey k r = (Some p, r1)" for k p r1
    using that by (auto simp: canonicalPath_def dest: map_of_SomeD split: option.splits if_splits)
  obtain a b where "ctx = \<lparr>rc_parentCycleKey = a, rc_relativePath = b\<rparr>" by (cases ctx) auto
  with assms show ?thesis
    by (auto simp: resolveSshConfigPath_def requested_target_def dest!: mem
        split: context_field.splits if_splits prod.splits option.splits)
qed

lemma resolve_registry_ok:
  "registry_ok cycleKey m r \<Longrightarrow> resolveSshConfigPath cycleKey home requested ctx root r = (x, r') \<Longrightarrow> registry_ok cycleKey m r'"
proof -
  assume ok: "registry_ok cycleKey m r" and eq: "resolveSshConfigPath cycleKey home requested ctx root r = (x, r')"
  have "registry_ok cycleKey m (snd (canonicalPath cycleKey k r))" for k
  proof (cases "obj_get r k")
    case (Some p)
    then have mem: "(k, p) \<in> set r" by (rule map_of_SomeD)
    then have "length r > 0" "k \<in> fst ` set r" by force+
    then have "length (obj_del k r) < length r" using ok by (simp add: length_obj_del registry_ok_def)
    moreover have "k \<notin> fst ` set (obj_del k r)" by (simp add: keys_obj_del)
    moreover have "distinct (map fst (obj_del k r))" using obj_wf_del[of r k] ok by (simp add: registry_ok_def obj_wf_def)
    ultimately show ?thesis using ok mem set_obj_del_subset[of k r] Some
      by (auto simp: canonicalPath_def registry_ok_def obj_set_new list_all_iff obj_wf_def[of "_ @ _"])
  qed (simp add: canonicalPath_def ok)
  then have c: "canonicalPath cycleKey k r = (y, s) \<Longrightarrow> registry_ok cycleKey m s" for k y s by (metis snd_conv)
  show ?thesis using eq ok
    by (auto simp: resolveSshConfigPath_def split: context_field.splits if_splits prod.splits option.splits dest: c)
qed

text \<open>C24: an Include lists the files its pattern selects and never reads outside the SSH directory. The
  target of a request is its pattern with the home directory filled in, or a relative path beside a
  file under the SSH directory whose key was handed out before. The directory of the target is really
  under the real SSH directory, and the entries come from its names: each name is matched by the last
  part of the target, and its real path, the one whose content is sent and whose key is handed out, is
  under the SSH directory too. Below the limit of 256 entries every such file is listed; a registry that
  was well-formed and within its bound stays so.\<close>

theorem included_files_stay_under_root:
  assumes "registry_ok cycleKey SSH_CONFIG_RESOLUTION_MAX_ENTRIES r"
    and "globSshConfigFiles lc cycleKey fs home pattern ctx r = (Inr ms, r')"
  shows "length ms \<le> SSH_CONFIG_GLOB_MAX_MATCHES \<and> registry_ok cycleKey SSH_CONFIG_RESOLUTION_MAX_ENTRIES r' \<and>
    (\<exists>root expanded parent names. fs_realpath fs (join_normalized home ''.ssh'') = Some root \<and>
       requested_target home pattern ctx root r expanded \<and>
       fs_realpath fs (posix_dirname expanded) = Some parent \<and> inside_root root parent \<and>
       fs_readdir fs parent = Some names \<and>
       set ms \<subseteq> {e. ge_name e \<in> set names \<and> entry_ok cycleKey fs root parent (posix_basename expanded) e} \<and>
       (length ms < SSH_CONFIG_GLOB_MAX_MATCHES \<longrightarrow>
          set ms = {e. ge_name e \<in> set names \<and> entry_ok cycleKey fs root parent (posix_basename expanded) e}))"
proof -
  obtain root where root: "fs_realpath fs (join_normalized home ''.ssh'') = Some root"
    using assms(2) by (auto simp: globSshConfigFiles_def split: option.splits)
  obtain x r1 where res: "resolveSshConfigPath cycleKey home pattern ctx root r = (x, r1)" by fastforce
  then obtain expanded where x: "x = Inr expanded"
    using assms(2) root by (auto simp: globSshConfigFiles_def split: sum.splits)
  obtain parent names where p: "fs_realpath fs (posix_dirname expanded) = Some parent" "inside_root root parent"
    "fs_readdir fs parent = Some names"
    using assms(2) root res x by (auto simp: globSshConfigFiles_def Let_def split: option.splits if_splits)
  let ?pattern = "posix_basename expanded"
  obtain ms0 r2 where c: "collect_matches cycleKey fs root parent ?pattern names [] r1 = (ms0, r2)" by fastforce
  have ms: "ms = js_sort (\<lambda>a b. lc (ge_name a) (ge_name b)) ms0" "r' = r2"
    using assms(2) root res x p c by (auto simp: globSshConfigFiles_def Let_def split: if_splits)
  then have same: "set ms = set ms0" "length ms = length ms0" by simp_all
  have "list_all (entry_ok cycleKey fs root parent ?pattern) ms0 \<and> length ms0 \<le> SSH_CONFIG_GLOB_MAX_MATCHES \<and>
      registry_ok cycleKey SSH_CONFIG_RESOLUTION_MAX_ENTRIES r2"
    using collect_matches_ok[OF _ _ resolve_registry_ok[OF assms(1) res] c] by (simp add: SSH_CONFIG_GLOB_MAX_MATCHES_def)
  moreover have "ge_name ` set ms0 \<subseteq> set names"
    "length ms0 < SSH_CONFIG_GLOB_MAX_MATCHES \<Longrightarrow>
      {e. ge_name e \<in> set names \<and> entry_ok cycleKey fs root parent ?pattern e} \<subseteq> set ms0"
    using collect_matches_exact[OF c] by auto
  ultimately show ?thesis using root p resolve_target[OF res[unfolded x]] ms(2) same
    by (intro conjI exI[of _ root] exI[of _ expanded] exI[of _ parent] exI[of _ names]) (auto simp: list_all_iff)
qed

definition sample_files :: files where
  "sample_files = \<lparr>fs_realpath = (\<lambda>p. if p = ''/u/.ssh/evil.conf'' then Some ''/etc/passwd'' else Some p),
     fs_readdir = (\<lambda>p. Some [''a.conf'', ''evil.conf'', ''key'']),
     fs_read = (\<lambda>p. Some ''Host x'')\<rparr>"

lemma sample_glob:
  "globSshConfigFiles (\<lambda>a b. 0) id sample_files ''/u'' ''~/.ssh/*.conf'' \<lparr>rc_parentCycleKey = Absent, rc_relativePath = Absent\<rparr> [] =
   (Inr [\<lparr>ge_cycleKey = ''/u/.ssh/a.conf'', ge_name = ''a.conf'', ge_content = ''Host x''\<rparr>], [(''/u/.ssh/a.conf'', ''/u/.ssh/a.conf'')])"
proof -
  have j: "join_normalized ''/u'' ''.ssh'' = ''/u/.ssh''" "join_normalized ''/u'' ''.ssh/*.conf'' = ''/u/.ssh/*.conf''"
    "join_normalized ''/u/.ssh'' ''a.conf'' = ''/u/.ssh/a.conf''" "join_normalized ''/u/.ssh'' ''evil.conf'' = ''/u/.ssh/evil.conf''"
    "posix_dirname ''/u/.ssh/*.conf'' = ''/u/.ssh''" "posix_basename ''/u/.ssh/*.conf'' = ''*.conf''"
    "globMatches ''*.conf'' ''a.conf''" "globMatches ''*.conf'' ''evil.conf''" "\<not> globMatches ''*.conf'' ''key''"
    by code_simp+
  have i: "inside_root ''/u/.ssh'' ''/u/.ssh''" "inside_root ''/u/.ssh'' ''/u/.ssh/a.conf''" "\<not> inside_root ''/u/.ssh'' ''/etc/passwd''"
    "list_ex glob_dir_char ''/u/.ssh'' = False" "starts_with ''~/'' ''~/.ssh/*.conf''" by code_simp+
  show ?thesis
    by (simp add: globSshConfigFiles_def sample_files_def resolveSshConfigPath_def expandHome_def j i glob_dir_char_def Let_def
        remember_def SSH_CONFIG_GLOB_MAX_MATCHES_def SSH_CONFIG_RESOLUTION_MAX_ENTRIES_def obj_set_def)
qed

theorem included_files_stay_under_root_witness:
  "requested_target ''/u'' ''~/.ssh/*.conf'' \<lparr>rc_parentCycleKey = Absent, rc_relativePath = Absent\<rparr> ''/u/.ssh'' [] ''/u/.ssh/*.conf'' \<and>
   {e. ge_name e \<in> set [''a.conf'', ''evil.conf'', ''key''] \<and> entry_ok id sample_files ''/u/.ssh'' ''/u/.ssh'' ''*.conf'' e} =
     {\<lparr>ge_cycleKey = ''/u/.ssh/a.conf'', ge_name = ''a.conf'', ge_content = ''Host x''\<rparr>}"
proof -
  have reg: "registry_ok id SSH_CONFIG_RESOLUTION_MAX_ENTRIES []" by (simp add: registry_ok_def)
  have real: "fs_realpath sample_files (join_normalized ''/u'' ''.ssh'') = Some ''/u/.ssh''"
    unfolding sample_files_def by code_simp
  have e: "expandHome ''/u'' ''~/.ssh/*.conf'' = ''/u/.ssh/*.conf''" "posix_dirname ''/u/.ssh/*.conf'' = ''/u/.ssh''"
    "posix_basename ''/u/.ssh/*.conf'' = ''*.conf''" "fs_realpath sample_files ''/u/.ssh'' = Some ''/u/.ssh''"
    unfolding sample_files_def by code_simp+
  have n: "fs_readdir sample_files ''/u/.ssh'' = Some [''a.conf'', ''evil.conf'', ''key'']" by (simp add: sample_files_def)
  have "(1::nat) < SSH_CONFIG_GLOB_MAX_MATCHES" by (simp add: SSH_CONFIG_GLOB_MAX_MATCHES_def)
  then show ?thesis using included_files_stay_under_root[OF reg sample_glob] real e n
    by (auto simp: requested_target_def)
qed

end
