(* ===== verification/SshErrors.thy ===== *)
theory SshErrors
  imports Strings
begin

section \<open>Categories of connection errors (\<open>lib/ssh-error-classifier.ts\<close>)\<close>

text \<open>
  A thrown value has a message and, when it is an error of a typed command, a code. The rules are a
  list in the order of the code; each matches its texts without regard to case. An ellipsis, a dash
  and an arrow of the advice are outside the characters of the model and written in ASCII.
\<close>

datatype ssh_error_category =
  Auth_failed | Host_key_mismatch | Network_unreachable | Timeout | Refused | Dns_failure | Unknown_error

record thrown =
  th_code :: "string option"
  th_message :: string

record classified =
  ce_category :: ssh_error_category
  ce_message :: string
  ce_hint :: "string option"
  ce_raw :: string

record classifier_rule =
  cr_category :: ssh_error_category
  cr_match :: "string \<Rightarrow> bool"
  cr_message :: string
  cr_hint :: string

definition mentions :: "string \<Rightarrow> string \<Rightarrow> bool" where
  "mentions needle s = contains (lower needle) (lower s)"

text \<open>\<open>/host key.*does not match/i\<close>: the dot stays on one line.\<close>

definition line_end :: "char \<Rightarrow> bool" where
  "line_end c \<longleftrightarrow> c = CHR 0x0A \<or> c = CHR 0x0D"

definition mentions_then :: "string \<Rightarrow> string \<Rightarrow> string \<Rightarrow> bool" where
  "mentions_then a b s =
     list_ex (\<lambda>l. case index_of (lower a) (lower l) of None \<Rightarrow> False | Some i \<Rightarrow> mentions b (drop (i + length a) l))
       (split_by line_end s)"

definition RULES :: "classifier_rule list" where
  "RULES = [
     \<lparr>cr_category = Auth_failed, cr_match = mentions ''All configured authentication methods failed'',
      cr_message = ''Authentication failed.'',
      cr_hint = ''Check the username, key path, and passphrase. If you're using a key, make sure the matching public key is in the remote ~/.ssh/authorized_keys.''\<rparr>,
     \<lparr>cr_category = Auth_failed, cr_match = mentions ''Permission denied (publickey'',
      cr_message = ''Server rejected the public key.'',
      cr_hint = ''Install your public key on the host (use the Copy to host... action in Keys) and try again.''\<rparr>,
     \<lparr>cr_category = Auth_failed,
      cr_match = (\<lambda>s. mentions ''Encrypted private OpenSSH key detected'' s \<or>
         mentions ''Cannot parse privateKey: Unsupported key format'' s \<or> mentions ''bad decrypt'' s),
      cr_message = ''Couldn't decrypt the private key.'',
      cr_hint = ''The passphrase you stored for this key didn't match. Re-enter it in the host editor and retry.''\<rparr>,
     \<lparr>cr_category = Host_key_mismatch,
      cr_match = (\<lambda>s. mentions ''Host key verification failed'' s \<or>
         mentions ''server presented a different host key'' s \<or> mentions_then ''host key'' ''does not match'' s),
      cr_message = ''Host key has changed.'',
      cr_hint = ''The server's key no longer matches the one you trusted. Either the host was rebuilt, or this is a MITM. Re-scan the host in Keys > Known hosts and confirm the new fingerprint before reconnecting.''\<rparr>,
     \<lparr>cr_category = Network_unreachable,
      cr_match = (\<lambda>s. mentions ''ENETUNREACH'' s \<or> mentions ''EHOSTUNREACH'' s \<or> mentions ''no route to host'' s),
      cr_message = ''Network unreachable.'',
      cr_hint = ''Your machine couldn't reach the host's network. Check VPN, Wi-Fi, or firewall - the address resolves but the route doesn't.''\<rparr>,
     \<lparr>cr_category = Refused, cr_match = (\<lambda>s. mentions ''ECONNREFUSED'' s \<or> mentions ''Connection refused'' s),
      cr_message = ''Connection refused.'',
      cr_hint = ''The host is reachable but nothing's listening on that port. Verify sshd is running and the port number matches the server config.''\<rparr>,
     \<lparr>cr_category = Timeout, cr_match = (\<lambda>s. mentions ''ETIMEDOUT'' s \<or> mentions ''connection timed out'' s),
      cr_message = ''Connection timed out.'',
      cr_hint = ''Reached the host but never got a response. Check the firewall and any cloud security-group rules. If this host is behind a bastion, configure it in Jump host.''\<rparr>,
     \<lparr>cr_category = Dns_failure,
      cr_match = (\<lambda>s. mentions ''ENOTFOUND'' s \<or> mentions ''EAI_AGAIN'' s \<or> mentions ''getaddrinfo'' s),
      cr_message = ''Hostname did not resolve.'',
      cr_hint = ''DNS lookup failed. Confirm the hostname is spelled correctly. If it's an internal name, you may need VPN or split DNS.''\<rparr>]"

definition KNOWN_CATEGORIES :: "(string \<times> ssh_error_category) list" where
  "KNOWN_CATEGORIES = [(''auth_failed'', Auth_failed), (''host_key_mismatch'', Host_key_mismatch),
     (''network_unreachable'', Network_unreachable), (''timeout'', Timeout), (''refused'', Refused),
     (''dns_failure'', Dns_failure)]"

definition categoryFromErrorCode :: "thrown \<Rightarrow> ssh_error_category option" where
  "categoryFromErrorCode e =
     (case th_code e of
        None \<Rightarrow> None
      | Some code \<Rightarrow> if code = ''internal'' then None else map_of KNOWN_CATEGORIES code)"

definition classified_by :: "classifier_rule \<Rightarrow> ssh_error_category \<Rightarrow> string \<Rightarrow> classified" where
  "classified_by r c raw = \<lparr>ce_category = c, ce_message = cr_message r, ce_hint = Some (cr_hint r), ce_raw = raw\<rparr>"

definition classifySshError :: "thrown \<Rightarrow> classified" where
  "classifySshError e =
     (let raw = th_message e in
      case categoryFromErrorCode e of
        Some coded \<Rightarrow>
          (case List.find (\<lambda>r. cr_category r = coded \<and> cr_match r raw) RULES of
             Some r \<Rightarrow> classified_by r coded raw
           | None \<Rightarrow>
               (case List.find (\<lambda>r. cr_category r = coded) RULES of
                  Some r \<Rightarrow> classified_by r coded raw
                | None \<Rightarrow> \<lparr>ce_category = coded, ce_message = ''Connection failed.'', ce_hint = None, ce_raw = raw\<rparr>))
      | None \<Rightarrow>
          if trim raw = [] then \<lparr>ce_category = Unknown_error, ce_message = ''Connection failed.'', ce_hint = None, ce_raw = raw\<rparr>
          else (case List.find (\<lambda>r. cr_match r (trim raw)) RULES of
              Some r \<Rightarrow> classified_by r (cr_category r) raw
            | None \<Rightarrow> \<lparr>ce_category = Unknown_error, ce_message = ''Connection failed.'',
                ce_hint = Some ''We couldn't classify this error. The full message is shown below.'', ce_raw = raw\<rparr>))"

subsection \<open>What the category means\<close>

text \<open>The typed code of a command decides, whatever its text says.\<close>

lemma coded_error_keeps_category:
  "categoryFromErrorCode e = Some c \<Longrightarrow> ce_category (classifySshError e) = c"
  by (simp add: classifySshError_def classified_by_def Let_def split: option.splits)

lemma uncoded_category:
  assumes "categoryFromErrorCode e = None"
  shows "ce_category (classifySshError e) =
    (case List.find (\<lambda>r. cr_match r (trim (th_message e))) (if trim (th_message e) = [] then [] else RULES) of
       Some r \<Rightarrow> cr_category r | None \<Rightarrow> Unknown_error)"
  using assms by (simp add: classifySshError_def classified_by_def Let_def split: option.splits)

text \<open>Every known category has a rule, so a coded error always comes with advice.\<close>

lemma coded_error_has_hint: "categoryFromErrorCode e = Some c \<Longrightarrow> ce_hint (classifySshError e) \<noteq> None"
proof -
  assume c: "categoryFromErrorCode e = Some c"
  then have "c \<in> snd ` set KNOWN_CATEGORIES"
    by (auto simp: categoryFromErrorCode_def split: option.splits if_splits dest!: map_of_SomeD intro: rev_image_eqI)
  then have "List.find (\<lambda>r. cr_category r = c) RULES \<noteq> None"
    by (auto simp: KNOWN_CATEGORIES_def RULES_def)
  with c show ?thesis by (auto simp: classifySshError_def classified_by_def Let_def split: option.splits)
qed

end
