(* ===== verification/Reconnect.thy ===== *)
theory Reconnect
  imports SshErrors SessionSocket
begin

section \<open>Connecting and reconnecting a terminal pane (\<open>components/terminal/terminal-pane-native-session.ts\<close>)\<close>

text \<open>
  The controller of a pane that is connected to a backend session: the references it shares with
  the pane, its timer, and every call of \<open>connectNativeSession\<close> that is in flight, by the await it
  stands at. A call is one function from each await to the next, so other calls, events of the
  socket, the timer and the unmounting of the pane may come in between. What was asked of the
  backend and written to the terminal is kept in order.
\<close>

datatype terminal_output = Write string | Writeln string

text \<open>The options of a call.\<close>

record connect_options =
  co_announce :: bool
  co_allowPending :: bool
  co_prompt :: bool

text \<open>
  Where a call waits: for the status of the protocol, for the saved secrets, for the prompt, for the
  new backend session, for its socket (with the flag \<open>reusedExistingSession\<close>); and a disconnect that
  waits for the backend to close the session, and a mounted pane that looks for its secrets.
\<close>

datatype connect_call =
  At_status connect_options
| At_restore connect_options
| At_prompt connect_options
| At_create connect_options
| At_socket string bool
| At_disconnect
| At_initial

text \<open>The socket with its backend session, whether that was reused, and whether it is open.\<close>

record pane_socket =
  ps_session :: string
  ps_reused :: bool
  ps_open :: bool

record pane_connection =
  pc_backend :: "string option"
  pc_socket :: "pane_socket option"
  pc_connecting :: bool
  pc_connectedOnce :: bool
  pc_reconnectOnRestore :: bool
  pc_intentional :: bool
  pc_timer :: "nat option"
  pc_attempt :: nat
  pc_state :: connection_state
  pc_pane :: connection_state
  pc_transport :: session_transport
  pc_notice :: bool
  pc_disposed :: bool
  pc_status :: "(bool \<times> string \<times> string option) option"
  pc_entry :: "string option"
  pc_calls :: "connect_call list"
  pc_created :: "string list"
  pc_closed :: "string list"
  pc_opened :: "string list"
  pc_shut :: "string list"
  pc_terminal :: "terminal_output list"
  pc_appended :: "(string \<times> string) list"

record pane_env =
  pe_protocol :: host_protocol
  pe_label :: string
  pe_hostname :: string
  pe_auth :: host_auth
  pe_mock :: bool
  pe_unsupported :: bool

definition resolveNativeSessionTransport :: "host_protocol \<Rightarrow> session_transport" where
  "resolveNativeSessionTransport p =
     (case p of LocalShell \<Rightarrow> T_localShell | Telnet \<Rightarrow> T_telnet | Serial \<Rightarrow> T_serial | Mosh \<Rightarrow> T_mosh | Ssh \<Rightarrow> T_ssh)"

definition crlf_text :: "string \<Rightarrow> string" where
  "crlf_text t = [CHR 0x0D, CHR 0x0A] @ t"

definition writeln :: "string \<Rightarrow> pane_connection \<Rightarrow> pane_connection" where
  "writeln t s = s\<lparr>pc_terminal := pc_terminal s @ [Writeln t]\<rparr>"

definition set_states :: "connection_state \<Rightarrow> pane_connection \<Rightarrow> pane_connection" where
  "set_states c s = s\<lparr>pc_state := c, pc_pane := c\<rparr>"

definition setPendingSecretsState :: "bool \<Rightarrow> pane_connection \<Rightarrow> pane_connection" where
  "setPendingSecretsState announce s =
     (let s1 = set_states PendingSecrets s in
      if \<not> announce \<or> pc_notice s1 then s1
      else (writeln (crlf_text ''Session restore is waiting for runtime credentials. Click Resume when you are ready to continue.'') s1)
        \<lparr>pc_notice := True\<rparr>)"

definition clearBackendSession :: "pane_connection \<Rightarrow> pane_connection" where
  "clearBackendSession s = (if pc_disposed s then s else s\<lparr>pc_backend := None\<rparr>)"

definition clearReconnectTimer :: "pane_connection \<Rightarrow> pane_connection" where
  "clearReconnectTimer s = s\<lparr>pc_timer := None\<rparr>"

subsection \<open>Scheduling a reconnect\<close>

definition reconnectDelayMs :: "nat \<Rightarrow> nat" where
  "reconnectDelayMs attempt = min 8000 (if attempt \<le> 1 then 1500 else attempt * 2000)"

definition scheduleReconnect :: "pane_env \<Rightarrow> string option \<Rightarrow> pane_connection \<Rightarrow> pane_connection" where
  "scheduleReconnect env message s =
     (if pc_disposed s \<or> pc_intentional s \<or> pe_mock env \<or> pe_unsupported env \<or>
         \<not> pc_connectedOnce s \<and> \<not> pc_reconnectOnRestore s then s
      else if pc_timer s \<noteq> None \<or> pc_connecting s then s
      else let attempt = Suc (pc_attempt s); delay = reconnectDelayMs attempt in
        (writeln (crlf_text (coalesce message (pe_label env @ '' connection interrupted.'') @ '' Reconnecting in '' @
             show_nat ((delay + 999) div 1000) @ ''s...''))
           (set_states Disconnected (s\<lparr>pc_attempt := attempt\<rparr>)))\<lparr>pc_timer := Some delay\<rparr>)"

subsection \<open>A call of \<open>connectNativeSession\<close>\<close>

definition begin_call :: "connect_call \<Rightarrow> pane_connection \<Rightarrow> pane_connection" where
  "begin_call c s = s\<lparr>pc_calls := pc_calls s @ [c]\<rparr>"

definition requiresSecrets :: "pane_env \<Rightarrow> bool" where
  "requiresSecrets env \<longleftrightarrow> (pe_protocol env = Ssh \<or> pe_protocol env = Mosh) \<and> pe_auth env \<noteq> AuthNone"

definition opening_text :: "pane_env \<Rightarrow> string" where
  "opening_text env =
     (case pe_protocol env of
        LocalShell \<Rightarrow> crlf_text ''Opening local shell...''
      | Serial \<Rightarrow> crlf_text (''Opening serial session for '' @ pe_hostname env @ ''...'')
      | _ \<Rightarrow> crlf_text (''Opening '' @ pe_label env @ '' session to '' @ pe_hostname env @ ''...''))"

text \<open>From the decision to connect to the next await.\<close>

definition connect_commit :: "pane_env \<Rightarrow> connect_options \<Rightarrow> pane_connection \<Rightarrow> pane_connection" where
  "connect_commit env opts s =
     (let s1 = s\<lparr>pc_notice := False, pc_connecting := True,
                 pc_transport := resolveNativeSessionTransport (pe_protocol env), pc_pane := Connecting\<rparr>;
          s2 = (if co_announce opts then writeln (opening_text env) s1 else s1)\<lparr>pc_connectedOnce := False\<rparr>
      in case pc_backend s2 of
           None \<Rightarrow> begin_call (At_create opts) s2
         | Some sid \<Rightarrow> begin_call (At_socket sid True) s2)"

definition after_restore :: "pane_env \<Rightarrow> connect_options \<Rightarrow> bool \<Rightarrow> pane_connection \<Rightarrow> pane_connection" where
  "after_restore env opts canConnectWithoutPrompt s =
     (if \<not> co_prompt opts \<and> \<not> canConnectWithoutPrompt then
        (if co_allowPending opts
         then setPendingSecretsState (co_announce opts \<or> pc_state s \<noteq> PendingSecrets) s
         else set_states Disconnected s)
      else if co_prompt opts \<and> requiresSecrets env then begin_call (At_prompt opts) s
      else connect_commit env opts s)"

definition status_known :: "pane_env \<Rightarrow> connect_options \<Rightarrow> bool \<times> string \<times> string option \<Rightarrow> pane_connection \<Rightarrow> pane_connection" where
  "status_known env opts status s =
     (let s = s\<lparr>pc_status := Some status\<rparr> in
      case status of (available, message, hint) \<Rightarrow>
        if \<not> available then
          let s1 = set_states ErrorState s in
          if co_announce opts then
            let s2 = writeln (crlf_text message) s1 in if truthy hint then writeln (the hint) s2 else s2
          else s1
        else if pc_backend s \<noteq> None then connect_commit env opts s
        else if \<not> requiresSecrets env then after_restore env opts True s
        else begin_call (At_restore opts) s)"

text \<open>The start of a call; a status that is known already is not asked for again.\<close>

definition connectNativeSession :: "pane_env \<Rightarrow> connect_options \<Rightarrow> pane_connection \<Rightarrow> pane_connection" where
  "connectNativeSession env opts s =
     (if pc_connecting s \<or> (case pc_socket s of Some k \<Rightarrow> ps_open k | None \<Rightarrow> False) then s
      else if pc_disposed s then s
      else let s1 = clearReconnectTimer (s\<lparr>pc_intentional := False\<rparr>) in
        case pc_status s1 of
          Some status \<Rightarrow> status_known env opts status s1
        | None \<Rightarrow> begin_call (At_status opts) s1)"

definition prompt_answered :: "pane_env \<Rightarrow> connect_options \<Rightarrow> bool \<Rightarrow> pane_connection \<Rightarrow> pane_connection" where
  "prompt_answered env opts ready s =
     (if pc_disposed s then s
      else if \<not> ready then
        (if co_allowPending opts then setPendingSecretsState True s
         else let s1 = set_states Disconnected s in
           if co_announce opts then writeln (crlf_text ''Connection cancelled.'') s1 else s1)
      else connect_commit env opts s)"

definition shouldScheduleReconnect :: "ssh_error_category \<Rightarrow> bool \<Rightarrow> bool \<Rightarrow> bool" where
  "shouldScheduleReconnect category connectedOnce reconnectOnRestore =
     (if category = Host_key_mismatch then False else connectedOnce \<or> reconnectOnRestore)"

text \<open>The connect failed; the flag \<open>connecting\<close> is cleared last.\<close>

definition connect_failed :: "pane_env \<Rightarrow> thrown \<Rightarrow> pane_connection \<Rightarrow> pane_connection" where
  "connect_failed env e s =
     (let c = classifySshError e;
          raw = or_string (ce_raw c) (th_message e);
          friendly = (if truthy (ce_hint c) then ce_message c @ '' '' @ the (ce_hint c) else ce_message c);
          s1 = clearBackendSession s;
          s2 = (if shouldScheduleReconnect (ce_category c) (pc_connectedOnce s1) (pc_reconnectOnRestore s1)
                then scheduleReconnect env (Some (pe_label env @ '' connect failed: '' @ friendly)) s1
                else let t = writeln (crlf_text friendly) (writeln (crlf_text (pe_label env @ '' connect failed.'')) (clearReconnectTimer s1));
                         t = (if raw \<noteq> [] \<and> raw \<noteq> ce_message c then writeln (crlf_text (''(raw: '' @ raw @ '')'')) t else t)
                     in set_states ErrorState t)
      in s2\<lparr>pc_connecting := False\<rparr>)"

definition session_created :: "pane_env \<Rightarrow> thrown + string \<Rightarrow> pane_connection \<Rightarrow> pane_connection" where
  "session_created env answer s =
     (case answer of
        Inl e \<Rightarrow> connect_failed env e s
      | Inr sid \<Rightarrow> begin_call (At_socket sid False) (s\<lparr>pc_backend := Some sid, pc_created := pc_created s @ [sid]\<rparr>))"

definition socket_opened :: "pane_env \<Rightarrow> string \<Rightarrow> bool \<Rightarrow> thrown option \<Rightarrow> pane_connection \<Rightarrow> pane_connection" where
  "socket_opened env sid reused answer s =
     (case answer of
        Some e \<Rightarrow> connect_failed env e s
      | None \<Rightarrow> s\<lparr>pc_socket := Some \<lparr>ps_session = sid, ps_reused = reused, ps_open = True\<rparr>,
                   pc_opened := pc_opened s @ [sid], pc_connecting := False\<rparr>)"

subsection \<open>Events of a socket\<close>

text \<open>
  The listeners know the session of their socket and whether that session was reused. A frame that
  cannot be parsed is dropped.
\<close>

definition on_error_message :: "pane_env \<Rightarrow> string \<Rightarrow> pane_connection \<Rightarrow> pane_connection" where
  "on_error_message env message s =
     (let s1 = clearBackendSession s in
      if pc_connectedOnce s1 \<or> pc_reconnectOnRestore s1 then scheduleReconnect env (Some message) s1
      else set_states ErrorState (writeln (crlf_text message) s1))"

definition on_message :: "pane_env \<Rightarrow> session_frame option \<Rightarrow> pane_connection \<Rightarrow> pane_connection" where
  "on_message env frame s =
     (if pc_disposed s then s
      else case frame of
        None \<Rightarrow> s
      | Some (FrameData d) \<Rightarrow>
          let s1 = s\<lparr>pc_terminal := pc_terminal s @ [Write d]\<rparr> in
          (case pc_entry s1 of
             Some i \<Rightarrow> if i \<noteq> [] then s1\<lparr>pc_appended := pc_appended s1 @ [(i, d)]\<rparr> else s1
           | None \<Rightarrow> s1)
      | Some (FrameStatus c) \<Rightarrow>
          set_states c
            (if c = Connected then s\<lparr>pc_connectedOnce := True, pc_reconnectOnRestore := True, pc_attempt := 0\<rparr> else s)
      | Some (FrameError m) \<Rightarrow> on_error_message env m s)"

definition on_close :: "pane_env \<Rightarrow> string \<Rightarrow> bool \<Rightarrow> pane_connection \<Rightarrow> pane_connection" where
  "on_close env sid reused s =
     (if pc_disposed s then s
      else let s1 = s\<lparr>pc_socket := None\<rparr>;
               s2 = (if pc_backend s1 = Some sid then clearBackendSession s1 else s1)
           in if \<not> pc_connectedOnce s2 \<and> reused \<and> requiresSecrets env
              then connectNativeSession env \<lparr>co_announce = False, co_allowPending = True, co_prompt = False\<rparr> s2
              else scheduleReconnect env None s2)"

definition on_socket_error :: "pane_env \<Rightarrow> pane_connection \<Rightarrow> pane_connection" where
  "on_socket_error env s =
     (if pc_disposed s then s else on_error_message env (pe_label env @ '' session transport failed.'') s)"

definition socket_closing :: "pane_connection \<Rightarrow> pane_connection" where
  "socket_closing s = s\<lparr>pc_socket := map_option (\<lambda>k. k\<lparr>ps_open := False\<rparr>) (pc_socket s)\<rparr>"

subsection \<open>Disconnecting, controls and clean-up\<close>

definition shut_socket :: "pane_connection \<Rightarrow> pane_connection" where
  "shut_socket s =
     (case pc_socket s of None \<Rightarrow> s | Some k \<Rightarrow> s\<lparr>pc_shut := pc_shut s @ [ps_session k], pc_socket := None\<rparr>)"

definition disconnect_finished :: "pane_env \<Rightarrow> pane_connection \<Rightarrow> pane_connection" where
  "disconnect_finished env s = writeln (crlf_text (pe_label env @ '' session closed.'')) (set_states Disconnected s)"

definition disconnectNativeSession :: "pane_env \<Rightarrow> pane_connection \<Rightarrow> pane_connection" where
  "disconnectNativeSession env s =
     (let s1 = clearBackendSession (shut_socket (clearReconnectTimer (s\<lparr>pc_intentional := True\<rparr>)));
          s2 = s1\<lparr>pc_connectedOnce := False, pc_attempt := 0, pc_notice := False, pc_reconnectOnRestore := False\<rparr>
      in case pc_backend s of
           Some sid \<Rightarrow> begin_call At_disconnect (s2\<lparr>pc_closed := pc_closed s2 @ [sid]\<rparr>)
         | None \<Rightarrow> disconnect_finished env s2)"

text \<open>The controls for a pane with a backend; the demo transport has its own.\<close>

definition toggleConnection :: "pane_env \<Rightarrow> pane_connection \<Rightarrow> pane_connection" where
  "toggleConnection env s =
     (if pe_unsupported env then
        writeln (crlf_text ''This saved protocol is not executable yet.'') (set_states ErrorState (s\<lparr>pc_transport := T_unsupported\<rparr>))
      else if \<not> pe_mock env then
        (if pc_state s = Connected then disconnectNativeSession env s
         else connectNativeSession env \<lparr>co_announce = True, co_allowPending = (pc_state s = PendingSecrets), co_prompt = True\<rparr> s)
      else let s1 = s\<lparr>pc_transport := T_mock\<rparr> in
        if pc_state s1 = Connected then
          writeln (crlf_text ''Mock session disconnected.'')
            ((set_states Disconnected (clearReconnectTimer (s1\<lparr>pc_intentional := True\<rparr>)))\<lparr>pc_notice := False, pc_reconnectOnRestore := False\<rparr>)
        else
          writeln (if pe_protocol env = LocalShell then crlf_text ''Local shell demo session connected.''
                   else crlf_text ''Mock session connected.'') (set_states Connected s1))"

definition ensureConnected :: "pane_env \<Rightarrow> pane_connection \<Rightarrow> pane_connection" where
  "ensureConnected env s =
     (if pe_mock env then (if pc_state s \<noteq> Connected then set_states Connected (s\<lparr>pc_transport := T_mock\<rparr>) else s)
      else if pe_unsupported env then s
      else if pc_state s \<noteq> Connected then
        connectNativeSession env
          \<lparr>co_announce = True, co_allowPending = (pc_state s = PendingSecrets \<or> pc_reconnectOnRestore s), co_prompt = True\<rparr> s
      else s)"

definition timer_fired :: "pane_env \<Rightarrow> pane_connection \<Rightarrow> pane_connection" where
  "timer_fired env s =
     (case pc_timer s of
        None \<Rightarrow> s
      | Some _ \<Rightarrow> connectNativeSession env \<lparr>co_announce = True, co_allowPending = True, co_prompt = False\<rparr> (s\<lparr>pc_timer := None\<rparr>))"

definition cleanup :: "pane_connection \<Rightarrow> pane_connection" where
  "cleanup s = shut_socket (clearReconnectTimer (s\<lparr>pc_disposed := True\<rparr>))"

text \<open>The secrets of a restored pane are looked for before its first call.\<close>

definition initial_restore :: "pane_env \<Rightarrow> bool \<Rightarrow> pane_connection \<Rightarrow> pane_connection" where
  "initial_restore env canRestore s =
     (if canRestore then connectNativeSession env \<lparr>co_announce = False, co_allowPending = True, co_prompt = False\<rparr> s
      else if \<not> pc_disposed s then setPendingSecretsState True s else s)"

definition initializeTransport :: "pane_env \<Rightarrow> pane_connection \<Rightarrow> pane_connection" where
  "initializeTransport env s =
     (if pe_unsupported env then set_states Disconnected (s\<lparr>pc_transport := T_unsupported\<rparr>)
      else if pe_mock env then set_states Connected (s\<lparr>pc_transport := T_mock\<rparr>)
      else if pc_backend s \<noteq> None then
        connectNativeSession env \<lparr>co_announce = False, co_allowPending = True, co_prompt = False\<rparr> s
      else if pc_reconnectOnRestore s \<or> pc_state s = PendingSecrets then
        (if pe_protocol env \<in> {LocalShell, Telnet, Serial} \<or> pe_auth env = AuthNone
         then connectNativeSession env \<lparr>co_announce = False, co_allowPending = True, co_prompt = False\<rparr> s
         else begin_call (At_initial) s)
      else if pc_state s \<noteq> Disconnected then
        connectNativeSession env \<lparr>co_announce = False, co_allowPending = False, co_prompt = True\<rparr> s
      else s)"

subsection \<open>Runs\<close>

text \<open>
  What answers an await; \<open>None\<close> where the awaited promise is rejected outside the \<open>try\<close> of the call,
  which then ends there.
\<close>

datatype await_answer =
  Status_is "(bool \<times> string \<times> string option) option"
| Can_restore "bool option"
| Prompt_ready "bool option"
| Session_is "thrown + string"
| Socket_is "thrown option"
| Session_closed bool

datatype pane_event =
  Toggle | Ensure | Timer_fires | Unmount
| Answered nat await_answer
| Frame "session_frame option" | Socket_closing | Socket_closed string bool | Socket_error

definition resume :: "pane_env \<Rightarrow> connect_call \<Rightarrow> await_answer \<Rightarrow> (pane_connection \<Rightarrow> pane_connection) option" where
  "resume env c a =
     (case (c, a) of
        (At_status opts, Status_is (Some st)) \<Rightarrow> Some (status_known env opts st)
      | (At_status opts, Status_is None) \<Rightarrow> Some id
      | (At_restore opts, Can_restore (Some b)) \<Rightarrow> Some (after_restore env opts b)
      | (At_restore opts, Can_restore None) \<Rightarrow> Some id
      | (At_prompt opts, Prompt_ready (Some b)) \<Rightarrow> Some (prompt_answered env opts b)
      | (At_prompt opts, Prompt_ready None) \<Rightarrow> Some id
      | (At_create opts, Session_is r) \<Rightarrow> Some (session_created env r)
      | (At_socket sid reused, Socket_is r) \<Rightarrow> Some (socket_opened env sid reused r)
      | (At_initial, Can_restore (Some b)) \<Rightarrow> Some (initial_restore env b)
      | (At_initial, Can_restore None) \<Rightarrow> Some id
      | (At_disconnect, Session_closed ok) \<Rightarrow> Some (if ok then disconnect_finished env else id)
      | _ \<Rightarrow> None)"

definition handle_pane :: "pane_env \<Rightarrow> pane_event \<Rightarrow> pane_connection \<Rightarrow> pane_connection" where
  "handle_pane env e s =
     (case e of
        Toggle \<Rightarrow> if pc_disposed s then s else toggleConnection env s
      | Ensure \<Rightarrow> if pc_disposed s then s else ensureConnected env s
      | Timer_fires \<Rightarrow> timer_fired env s
      | Unmount \<Rightarrow> cleanup s
      | Answered n a \<Rightarrow>
          if n < length (pc_calls s) then
            (case resume env (pc_calls s ! n) a of
               None \<Rightarrow> s
             | Some k \<Rightarrow> k (s\<lparr>pc_calls := take n (pc_calls s) @ drop (Suc n) (pc_calls s)\<rparr>))
          else s
      | Frame f \<Rightarrow> on_message env f s
      | Socket_closing \<Rightarrow> socket_closing s
      | Socket_closed sid reused \<Rightarrow> on_close env sid reused s
      | Socket_error \<Rightarrow> on_socket_error env s)"

definition run_pane :: "pane_env \<Rightarrow> pane_event list \<Rightarrow> pane_connection \<Rightarrow> pane_connection" where
  "run_pane env es s = fold (handle_pane env) es s"

text \<open>A pane that was just mounted.\<close>

definition mounted :: "connection_state \<Rightarrow> bool \<Rightarrow> string option \<Rightarrow> pane_connection" where
  "mounted c restore backend = \<lparr>pc_backend = backend, pc_socket = None, pc_connecting = False, pc_connectedOnce = False,
     pc_reconnectOnRestore = restore, pc_intentional = False, pc_timer = None, pc_attempt = 0, pc_state = c, pc_pane = c,
     pc_transport = T_ssh, pc_notice = False, pc_disposed = False, pc_status = None, pc_entry = None, pc_calls = [],
     pc_created = [], pc_closed = [], pc_opened = [], pc_shut = [], pc_terminal = [], pc_appended = []\<rparr>"

subsection \<open>The reconnect timer\<close>

definition timer_ok :: "pane_env \<Rightarrow> pane_connection \<Rightarrow> bool" where
  "timer_ok env s \<longleftrightarrow> pc_timer s = None \<or>
     1500 \<le> the (pc_timer s) \<and> the (pc_timer s) \<le> 8000 \<and> \<not> pc_intentional s \<and> \<not> pc_disposed s \<and>
     \<not> pe_mock env \<and> \<not> pe_unsupported env"

lemma delay_bounds: "1500 \<le> reconnectDelayMs n \<and> reconnectDelayMs n \<le> 8000"
  by (auto simp: reconnectDelayMs_def)

text \<open>The fields the timer depends on, and what does not touch them.\<close>

lemma quiet_simps [simp]:
  "pc_timer (writeln t s) = pc_timer s" "pc_intentional (writeln t s) = pc_intentional s" "pc_disposed (writeln t s) = pc_disposed s"
  "pc_timer (set_states cs s) = pc_timer s" "pc_intentional (set_states cs s) = pc_intentional s" "pc_disposed (set_states cs s) = pc_disposed s"
  "pc_timer (setPendingSecretsState b s) = pc_timer s" "pc_intentional (setPendingSecretsState b s) = pc_intentional s"
  "pc_disposed (setPendingSecretsState b s) = pc_disposed s"
  "pc_timer (clearBackendSession s) = pc_timer s" "pc_intentional (clearBackendSession s) = pc_intentional s"
  "pc_disposed (clearBackendSession s) = pc_disposed s"
  "pc_timer (begin_call c s) = pc_timer s" "pc_intentional (begin_call c s) = pc_intentional s" "pc_disposed (begin_call c s) = pc_disposed s"
  "pc_timer (shut_socket s) = pc_timer s" "pc_intentional (shut_socket s) = pc_intentional s" "pc_disposed (shut_socket s) = pc_disposed s"
  "pc_timer (clearReconnectTimer s) = None" "pc_intentional (clearReconnectTimer s) = pc_intentional s"
  "pc_disposed (clearReconnectTimer s) = pc_disposed s"
  by (simp_all add: writeln_def set_states_def setPendingSecretsState_def clearBackendSession_def begin_call_def
      shut_socket_def clearReconnectTimer_def Let_def split: option.splits)

lemma calls_simps [simp]:
  "pc_calls (writeln t s) = pc_calls s" "pc_created (writeln t s) = pc_created s"
  "pc_calls (set_states cs s) = pc_calls s" "pc_created (set_states cs s) = pc_created s"
  "pc_calls (setPendingSecretsState b s) = pc_calls s" "pc_created (setPendingSecretsState b s) = pc_created s"
  "pc_calls (clearBackendSession s) = pc_calls s" "pc_created (clearBackendSession s) = pc_created s"
  "pc_calls (begin_call c s) = pc_calls s @ [c]" "pc_created (begin_call c s) = pc_created s"
  "pc_calls (shut_socket s) = pc_calls s" "pc_created (shut_socket s) = pc_created s"
  "pc_calls (clearReconnectTimer s) = pc_calls s" "pc_created (clearReconnectTimer s) = pc_created s"
  by (simp_all add: writeln_def set_states_def setPendingSecretsState_def clearBackendSession_def begin_call_def
      shut_socket_def clearReconnectTimer_def Let_def split: option.splits)

lemma timer_ok_cong:
  "pc_timer s = pc_timer t \<Longrightarrow> pc_intentional s = pc_intentional t \<Longrightarrow> pc_disposed s = pc_disposed t \<Longrightarrow>
   timer_ok env s = timer_ok env t"
  by (simp add: timer_ok_def)

lemma timer_ok_None: "pc_timer s = None \<Longrightarrow> timer_ok env s"
  by (simp add: timer_ok_def)

lemma timer_ok_simps [simp]:
  "timer_ok env (writeln t s) = timer_ok env s" "timer_ok env (set_states cs s) = timer_ok env s"
  "timer_ok env (clearBackendSession s) = timer_ok env s" "timer_ok env (begin_call c s) = timer_ok env s"
  "timer_ok env (setPendingSecretsState b s) = timer_ok env s" "timer_ok env (clearReconnectTimer s)"
  "timer_ok env (s\<lparr>pc_transport := tr\<rparr>) = timer_ok env s" "timer_ok env (s\<lparr>pc_calls := cs'\<rparr>) = timer_ok env s"
  "timer_ok env (s\<lparr>pc_connecting := b\<rparr>) = timer_ok env s" "timer_ok env (s\<lparr>pc_socket := k\<rparr>) = timer_ok env s"
  "timer_ok env (s\<lparr>pc_notice := b\<rparr>) = timer_ok env s" "timer_ok env (s\<lparr>pc_reconnectOnRestore := b\<rparr>) = timer_ok env s"
  "timer_ok env (s\<lparr>pc_timer := None\<rparr>)"
  by (simp_all add: timer_ok_def)

lemma schedule_timer_ok: "timer_ok env s \<Longrightarrow> timer_ok env (scheduleReconnect env m s)"
  using delay_bounds[of "Suc (pc_attempt s)"] by (auto simp: scheduleReconnect_def timer_ok_def Let_def)

text \<open>From an await to the next the timer is not touched.\<close>

lemma commit_quiet:
  "pc_timer (connect_commit env opts s) = pc_timer s" "pc_intentional (connect_commit env opts s) = pc_intentional s"
  "pc_disposed (connect_commit env opts s) = pc_disposed s" "pc_created (connect_commit env opts s) = pc_created s"
  by (simp_all add: connect_commit_def Let_def split: option.splits)

lemma restore_quiet:
  "pc_timer (after_restore env opts b s) = pc_timer s" "pc_intentional (after_restore env opts b s) = pc_intentional s"
  "pc_disposed (after_restore env opts b s) = pc_disposed s"
  by (simp_all add: after_restore_def commit_quiet)

lemma status_quiet:
  "pc_timer (status_known env opts st s) = pc_timer s" "pc_intentional (status_known env opts st s) = pc_intentional s"
  "pc_disposed (status_known env opts st s) = pc_disposed s"
  by (simp_all add: status_known_def Let_def commit_quiet restore_quiet split: prod.splits)

lemma prompt_quiet:
  "pc_timer (prompt_answered env opts b s) = pc_timer s" "pc_intentional (prompt_answered env opts b s) = pc_intentional s"
  "pc_disposed (prompt_answered env opts b s) = pc_disposed s"
  by (simp_all add: prompt_answered_def Let_def commit_quiet)

lemma connect_timer_ok: "timer_ok env s \<Longrightarrow> timer_ok env (connectNativeSession env opts s)"
  by (auto simp: connectNativeSession_def Let_def status_quiet split: option.splits intro!: timer_ok_None)

lemma failed_timer_ok: "timer_ok env s \<Longrightarrow> timer_ok env (connect_failed env e s)"
proof -
  assume ok: "timer_ok env s"
  have c: "timer_ok env (clearBackendSession s)" using ok by (simp add: timer_ok_def)
  have k: "timer_ok env (t\<lparr>pc_connecting := False\<rparr>) = timer_ok env t" for t by (simp add: timer_ok_def)
  show ?thesis unfolding connect_failed_def Let_def k
    using schedule_timer_ok[OF c] by (simp add: timer_ok_None)
qed

lemma resume_timer_ok:
  "resume env c a = Some k \<Longrightarrow> timer_ok env s \<Longrightarrow> timer_ok env (k s)"
  by (auto simp: resume_def timer_ok_cong[OF status_quiet] timer_ok_cong[OF restore_quiet] timer_ok_cong[OF prompt_quiet]
      session_created_def socket_opened_def initial_restore_def disconnect_finished_def failed_timer_ok connect_timer_ok
      timer_ok_cong[where t = s and s = "begin_call _ _"] timer_ok_def[of env "_\<lparr>pc_socket := _, pc_opened := _, pc_connecting := _\<rparr>"]
      split: connect_call.splits await_answer.splits option.splits sum.splits) (auto simp: timer_ok_def)

lemma error_message_timer_ok: "timer_ok env s \<Longrightarrow> timer_ok env (on_error_message env m s)"
proof -
  assume ok: "timer_ok env s"
  have c: "timer_ok env (clearBackendSession s)" using ok by (simp add: timer_ok_def)
  then show ?thesis
    using schedule_timer_ok[OF c] by (simp add: on_error_message_def Let_def timer_ok_def)
qed

lemma timer_ok_step: "timer_ok env s \<Longrightarrow> timer_ok env (handle_pane env e s)"
proof (cases e)
  case (Answered n a)
  assume ok: "timer_ok env s"
  then have "timer_ok env (s\<lparr>pc_calls := cs\<rparr>)" for cs by (simp add: timer_ok_def)
  then show ?thesis using Answered ok resume_timer_ok by (auto simp: handle_pane_def split: option.splits)
next
  case (Frame f)
  assume ok: "timer_ok env s"
  then show ?thesis using Frame error_message_timer_ok[OF ok]
    by (auto simp: handle_pane_def on_message_def Let_def timer_ok_def split: option.splits session_frame.splits)
next
  case (Socket_closed sid r)
  assume ok: "timer_ok env s"
  define t where "t = (if pc_backend s = Some sid then clearBackendSession (s\<lparr>pc_socket := None\<rparr>) else s\<lparr>pc_socket := None\<rparr>)"
  have "timer_ok env t" using ok by (simp add: t_def timer_ok_def)
  then show ?thesis using Socket_closed ok connect_timer_ok schedule_timer_ok
    by (simp add: handle_pane_def on_close_def Let_def flip: t_def)
next
  case Socket_error
  assume "timer_ok env s"
  then show ?thesis using Socket_error error_message_timer_ok by (simp add: handle_pane_def on_socket_error_def)
next
  case Socket_closing
  assume "timer_ok env s"
  then show ?thesis using Socket_closing by (simp add: handle_pane_def socket_closing_def timer_ok_def)
next
  case Timer_fires
  assume ok: "timer_ok env s"
  have "timer_ok env (s\<lparr>pc_timer := None\<rparr>)" by (simp add: timer_ok_def)
  then show ?thesis using Timer_fires ok connect_timer_ok by (auto simp: handle_pane_def timer_fired_def split: option.splits)
next
  case Unmount
  then show ?thesis by (simp add: handle_pane_def cleanup_def timer_ok_def)
next
  case Toggle
  assume ok: "timer_ok env s"
  have "timer_ok env (disconnectNativeSession env s)"
    by (simp add: disconnectNativeSession_def disconnect_finished_def Let_def timer_ok_def split: option.splits)
  then show ?thesis using Toggle ok connect_timer_ok[OF ok]
    by (auto simp: handle_pane_def toggleConnection_def Let_def timer_ok_None)
next
  case Ensure
  assume ok: "timer_ok env s"
  then show ?thesis using Ensure connect_timer_ok[OF ok]
    by (auto simp: handle_pane_def ensureConnected_def)
qed

lemma timer_ok_run: "timer_ok env s \<Longrightarrow> timer_ok env (run_pane env es s)"
  unfolding run_pane_def by (induction es arbitrary: s) (auto simp: timer_ok_step)

text \<open>C26: reconnecting backs off within bounds and never outlives the pane. After any events from the
  moment a pane was mounted a pending reconnect is due between one and a half and eight seconds
  after it was scheduled, and none is pending for a pane that is unmounted, that the user
  disconnected or that has no backend.\<close>

theorem reconnect_timer_bounded:
  "timer_ok env (run_pane env es (initializeTransport env (mounted c restore backend)))"
proof (rule timer_ok_run)
  have "timer_ok env (mounted c restore backend)" by (simp add: timer_ok_def mounted_def)
  from connect_timer_ok[OF this] this show "timer_ok env (initializeTransport env (mounted c restore backend))"
    by (simp add: initializeTransport_def)
qed

subsection \<open>After a disconnect\<close>

definition user_action :: "pane_event \<Rightarrow> bool" where
  "user_action e \<longleftrightarrow> e = Toggle \<or> e = Ensure"

text \<open>Nothing is on its way that could connect, and nothing will be scheduled.\<close>

definition at_rest :: "pane_connection \<Rightarrow> bool" where
  "at_rest s \<longleftrightarrow> pc_intentional s \<and> pc_timer s = None \<and> set (pc_calls s) \<subseteq> {At_disconnect}"

lemma schedule_rest: "pc_intentional s \<Longrightarrow> scheduleReconnect env m s = s"
  by (simp add: scheduleReconnect_def)

lemma error_message_rest:
  "at_rest s \<Longrightarrow> at_rest (on_error_message env m s) \<and> pc_created (on_error_message env m s) = pc_created s"
  by (simp add: on_error_message_def Let_def schedule_rest at_rest_def)

lemma rest_step:
  assumes rest: "at_rest s" and e: "\<not> user_action e" "\<And>sid. e = Socket_closed sid True \<Longrightarrow> \<not> requiresSecrets env"
  shows "at_rest (handle_pane env e s) \<and> pc_created (handle_pane env e s) = pc_created s"
proof (cases e)
  case (Answered n a)
  show ?thesis
  proof (cases "n < length (pc_calls s)")
    case True
    have "set (pc_calls s) \<subseteq> {At_disconnect}" using rest by (simp add: at_rest_def)
    then have "pc_calls s ! n = At_disconnect" using nth_mem[OF True] by blast
    moreover have "set (take n (pc_calls s) @ drop (Suc n) (pc_calls s)) \<subseteq> {At_disconnect}"
      using rest set_take_subset[of n "pc_calls s"] set_drop_subset[of "Suc n" "pc_calls s"] by (auto simp: at_rest_def)
    ultimately show ?thesis using Answered True rest
      by (cases a) (auto simp: handle_pane_def resume_def disconnect_finished_def at_rest_def)
  qed (use Answered rest in \<open>simp add: handle_pane_def\<close>)
next
  case (Frame f)
  then show ?thesis using rest error_message_rest[OF rest]
    by (auto simp: handle_pane_def on_message_def Let_def at_rest_def split: option.splits session_frame.splits)
next
  case (Socket_closed sid r)
  then have "\<not> (r \<and> requiresSecrets env)" using e(2) by auto
  then show ?thesis using Socket_closed rest
    by (auto simp: handle_pane_def on_close_def Let_def schedule_rest at_rest_def)
next
  case Socket_error
  then show ?thesis using rest error_message_rest[OF rest] by (simp add: handle_pane_def on_socket_error_def)
qed (use e rest in \<open>auto simp: user_action_def handle_pane_def timer_fired_def cleanup_def socket_closing_def at_rest_def shut_socket_def
    clearReconnectTimer_def split: option.splits\<close>)

lemma rest_run:
  "at_rest s \<Longrightarrow> \<forall>e \<in> set es. \<not> user_action e \<Longrightarrow> \<forall>sid. Socket_closed sid True \<in> set es \<longrightarrow> \<not> requiresSecrets env \<Longrightarrow>
   at_rest (run_pane env es s) \<and> pc_created (run_pane env es s) = pc_created s"
  unfolding run_pane_def
proof (induction es arbitrary: s)
  case (Cons e es)
  have "at_rest (handle_pane env e s) \<and> pc_created (handle_pane env e s) = pc_created s"
    using Cons.prems by (intro rest_step) auto
  moreover have "\<forall>sid. Socket_closed sid True \<in> set es \<longrightarrow> \<not> requiresSecrets env" using Cons.prems(3) by simp
  ultimately show ?case using Cons.IH[of "handle_pane env e s"] Cons.prems(2) by simp
qed simp

lemma toggle_rest:
  assumes "pc_calls s = []" "pc_state s = Connected" "\<not> pc_disposed s" "\<not> pe_mock env" "\<not> pe_unsupported env"
  shows "at_rest (handle_pane env Toggle s) \<and> pc_created (handle_pane env Toggle s) = pc_created s"
  using assms
  by (simp add: handle_pane_def toggleConnection_def disconnectNativeSession_def disconnect_finished_def Let_def at_rest_def
      split: option.splits)

text \<open>C25: a session the user disconnected stays disconnected: whatever frames, errors, closings and
  answers of the disconnect arrive afterwards, no new backend session is created, no reconnect is
  pending and none is on its way, until the user connects again. The socket must not belong to a
  backend session that the pane took over when it was restored, if its host needs secrets.\<close>

theorem disconnect_is_final:
  assumes "pc_calls s = []" "pc_state s = Connected" "\<not> pc_disposed s" "\<not> pe_mock env" "\<not> pe_unsupported env"
    and "\<forall>e \<in> set es. \<not> user_action e"
    and "\<forall>sid. Socket_closed sid True \<in> set es \<longrightarrow> \<not> requiresSecrets env"
    and "t = run_pane env (Toggle # es) s"
  shows "pc_created t = pc_created s \<and> pc_timer t = None \<and> set (pc_calls t) \<subseteq> {At_disconnect}"
proof -
  have "t = run_pane env es (handle_pane env Toggle s)" by (simp add: assms(8) run_pane_def)
  with rest_run[of "handle_pane env Toggle s" es env] toggle_rest[OF assms(1-5)] assms(6,7)
  show ?thesis by (simp add: at_rest_def)
qed

definition ssh_env :: pane_env where
  "ssh_env = \<lparr>pe_protocol = Ssh, pe_label = ''SSH'', pe_hostname = ''db'', pe_auth = AuthPassword, pe_mock = False,
     pe_unsupported = False\<rparr>"

definition connected_pane :: "bool \<Rightarrow> pane_connection" where
  "connected_pane reused = (mounted Connected True (Some ''b1''))
     \<lparr>pc_socket := Some \<lparr>ps_session = ''b1'', ps_reused = reused, ps_open = True\<rparr>, pc_connectedOnce := True,
      pc_status := Some (True, [], None)\<rparr>"

theorem disconnect_is_final_witness:
  "pc_created (run_pane ssh_env [Toggle, Socket_closed ''b1'' False, Answered 0 (Session_closed True)] (connected_pane False)) = []"
  using disconnect_is_final[of "connected_pane False" ssh_env "[Socket_closed ''b1'' False, Answered 0 (Session_closed True)]"]
  by (simp add: connected_pane_def mounted_def ssh_env_def user_action_def)

text \<open>
  The last hypothesis is needed: the close of a reused socket looks like a reused session that never
  answered, and the pane connects again although the user has just disconnected it.
\<close>

lemma disconnect_of_restored_session_reconnects:
  "pc_created (run_pane ssh_env [Toggle, Socket_closed ''b1'' True, Answered 1 (Can_restore (Some True)),
     Answered 1 (Session_is (Inr ''b2''))] (connected_pane True)) = [''b2'']"
  by code_simp

subsection \<open>Failed reconnects\<close>

text \<open>A dropped connection is noticed and a reconnect is scheduled.\<close>

lemma dropped_connection_is_scheduled:
  assumes "pc_connectedOnce s" "\<not> pc_disposed s" "\<not> pc_intentional s" "pc_timer s = None" "\<not> pc_connecting s"
    "\<not> pe_mock env" "\<not> pe_unsupported env"
  shows "pc_timer (handle_pane env (Socket_closed sid False) s) = Some (reconnectDelayMs (Suc (pc_attempt s))) \<and>
    pc_pane (handle_pane env (Socket_closed sid False) s) = Disconnected"
  using assms by (auto simp: handle_pane_def on_close_def scheduleReconnect_def Let_def clearBackendSession_def set_states_def writeln_def)





text \<open>
  A changed host key is not retried when the call fails, but the same refusal that arrives as a frame
  of the session is: the frame is not classified.
\<close>

lemma mismatch_frame_is_retried:
  "pc_timer (run_pane ssh_env [Frame (Some (FrameError ''Host key verification failed for db:22''))] (connected_pane False)) = Some 1500 \<and>
   ce_category (classifySshError \<lparr>th_code = None, th_message = ''Host key verification failed for db:22''\<rparr>) = Host_key_mismatch"
proof
  show "pc_timer (run_pane ssh_env [Frame (Some (FrameError ''Host key verification failed for db:22''))] (connected_pane False)) = Some 1500"
    by (simp add: run_pane_def handle_pane_def on_message_def on_error_message_def connected_pane_def mounted_def ssh_env_def
        scheduleReconnect_def Let_def clearBackendSession_def writeln_def set_states_def reconnectDelayMs_def)
  show "ce_category (classifySshError \<lparr>th_code = None, th_message = ''Host key verification failed for db:22''\<rparr>) = Host_key_mismatch"
    by code_simp
qed

text \<open>
  The flag of a running attempt is set after the awaits for secrets, so two attempts that both wait
  there both create a backend session, and the first one is never closed.
\<close>

lemma double_connect_leaks_session:
  "let t = run_pane ssh_env [Toggle, Toggle, Answered 0 (Can_restore (Some True)), Answered 0 (Can_restore (Some True)),
       Answered 0 (Prompt_ready (Some True)), Answered 0 (Prompt_ready (Some True)),
       Answered 0 (Session_is (Inr ''b1'')), Answered 0 (Session_is (Inr ''b2''))]
       ((mounted Disconnected False None)\<lparr>pc_status := Some (True, [], None)\<rparr>)
   in pc_created t = [''b1'', ''b2''] \<and> pc_backend t = Some ''b2'' \<and> pc_closed t = []"
  by code_simp

text \<open>A pane that is unmounted while its socket is being opened leaves the socket open.\<close>

lemma unmount_during_connect_leaks_socket:
  "let t = run_pane ssh_env [Toggle, Unmount, Answered 0 (Socket_is None)]
       ((mounted Disconnected False (Some ''b1''))\<lparr>pc_status := Some (True, [], None)\<rparr>)
   in pc_disposed t \<and> pc_opened t = [''b1''] \<and> pc_shut t = [] \<and> pc_socket t \<noteq> None"
  by code_simp

end
