(* ===== verification/Launch.thy ===== *)
theory Launch
  imports Connections SessionsProps
begin

section \<open>Opening a host (\<open>lib/launch-host-session.ts\<close>)\<close>

text \<open>
  Every way to open a host leads here: first its key must be trusted, which may need a scan and the
  consent of the user (\<open>lib/ensure-trusted-host-key.ts\<close>,
  \<open>store/fingerprint-trust-prompt-store.ts\<close>), then its tab is opened; a failure is shown in a banner
  (\<open>store/connect-error-store.ts\<close>). The state holds the stores, the prompt and the launches under way
  with what each waits for; an event is an answer, a click or a change by the user, with everything
  it resolves. The answers of the launches are kept in order, and so is a record of every host a tab
  was opened for, with the trusted keys at that moment. The dash of a message is written in ASCII.
\<close>

subsection \<open>State\<close>

datatype trust_reason =
  Policy_allows_unknown | Protocol_does_not_need_trust | Already_trusted | User_rejected
| User_non_interactive | Scan_failed | Scan_empty

record trust_outcome =
  to_ok :: bool
  to_reason :: "trust_reason option"
  to_key :: "scan_result option"

datatype error_tone = Tone_error | Tone_warning

record connect_error =
  er_message :: "string option"
  er_tone :: error_tone

record trust_request =
  tr_hostId :: string
  tr_hostLabel :: string
  tr_hostname :: string
  tr_port :: "int number"
  tr_candidates :: "scan_result list"

datatype launch_reason =
  Rejected_fingerprint | Launch_scan_failed | Launch_scan_empty | Trust_scan_threw | Launch_non_interactive

record launch_result =
  lr_ok :: bool
  lr_tabId :: "string option"
  lr_reason :: "launch_reason option"
  lr_message :: "string option"

datatype flight_stage = Scanning | Prompting

record launcher =
  lx_known :: "known_host list"
  lx_vault :: deletion_map
  lx_hosts :: "host list"
  lx_sessions :: sessions
  lx_error :: connect_error
  lx_prompt :: "trust_request option"
  lx_flights :: "(host \<times> flight_stage) list"
  lx_results :: "(string \<times> launch_result) list"
  lx_opened :: "(host \<times> known_host list) list"

text \<open>The clock, the collation and fresh identifiers, one pair for each host.\<close>

record launch_env =
  le_parse :: "string \<Rightarrow> int option"
  le_compare :: "string \<Rightarrow> string \<Rightarrow> int"
  le_ms :: int
  le_now :: string
  le_pane :: "string \<Rightarrow> string"
  le_tab :: "string \<Rightarrow> string"

subsection \<open>The banner\<close>

definition clearConnectError :: connect_error where
  "clearConnectError = \<lparr>er_message = None, er_tone = Tone_error\<rparr>"

definition setConnectError :: "string \<Rightarrow> error_tone \<Rightarrow> connect_error" where
  "setConnectError message tone = \<lparr>er_message = Some message, er_tone = tone\<rparr>"

definition reportConnectError :: "string option \<Rightarrow> error_tone \<Rightarrow> connect_error \<Rightarrow> connect_error" where
  "reportConnectError message tone e =
     (if truthy message then setConnectError (the message) tone else e)"

definition reportFailure :: "string \<Rightarrow> error_tone \<Rightarrow> launcher \<Rightarrow> launcher" where
  "reportFailure message tone s = s\<lparr>lx_error := reportConnectError (Some message) tone (lx_error s)\<rparr>"

subsection \<open>Trust in the key of a host\<close>

definition outcome :: "bool \<Rightarrow> trust_reason \<Rightarrow> trust_outcome" where
  "outcome ok reason = \<lparr>to_ok = ok, to_reason = Some reason, to_key = None\<rparr>"

text \<open>Up to the scan; \<open>None\<close> where the scan is awaited.\<close>

definition ensureTrustedHostKey :: "bool \<Rightarrow> host \<Rightarrow> known_host list \<Rightarrow> trust_outcome option" where
  "ensureTrustedHostKey interactive h knownHosts =
     (if \<not> hostSupportsTrustedKeys (h_protocol h) then Some (outcome True Protocol_does_not_need_trust)
      else if h_hostKeyPolicy h \<noteq> RequireTrusted then Some (outcome True Policy_allows_unknown)
      else if findKnownHostMatch knownHosts (h_hostname h) (h_port h) \<noteq> None then Some (outcome True Already_trusted)
      else if \<not> interactive then Some (outcome False User_non_interactive)
      else None)"

definition trust_request_of :: "host \<Rightarrow> scan_result list \<Rightarrow> trust_request" where
  "trust_request_of h candidates = \<lparr>tr_hostId = h_id h, tr_hostLabel = h_label h, tr_hostname = h_hostname h,
     tr_port = h_port h, tr_candidates = candidates\<rparr>"

definition getPromptKey :: "trust_request \<Rightarrow> string" where
  "getPromptKey r = tr_hostId r @ '':'' @ tr_hostname r @ '':'' @ show_number (tr_port r)"

text \<open>Whether the caller waits for the prompt (the one that is open, or a new one), or is refused.\<close>

definition openPrompt :: "trust_request \<Rightarrow> trust_request option \<Rightarrow> bool \<times> trust_request option" where
  "openPrompt r active =
     (case active of
        None \<Rightarrow> (True, Some r)
      | Some a \<Rightarrow> (getPromptKey a = getPromptKey r, Some a))"

subsection \<open>A launch\<close>

definition failure_message :: "host \<Rightarrow> trust_reason option \<Rightarrow> string \<times> error_tone \<times> launch_reason" where
  "failure_message h reason =
     (let address = h_hostname h @ '':'' @ show_number (h_port h) in
      case reason of
        Some User_rejected \<Rightarrow>
          (''Connection cancelled - host key for '' @ h_label h @ '' was not trusted.'',
           Tone_warning, Rejected_fingerprint)
      | Some Scan_failed \<Rightarrow>
          (''Could not scan '' @ address @ ''. Check that the host is reachable and try again.'', Tone_error, Launch_scan_failed)
      | Some Scan_empty \<Rightarrow> (address @ '' returned no host keys to trust.'', Tone_error, Launch_scan_empty)
      | Some User_non_interactive \<Rightarrow>
          (''Could not prompt for the host key of '' @ h_label h @ ''. Open the host from the Hosts page to approve it.'',
           Tone_error, Launch_non_interactive)
      | _ \<Rightarrow> (''Connection cancelled.'', Tone_warning, Launch_non_interactive))"

text \<open>
  What follows when the trust is decided; \<open>None\<close> when the decision itself failed with an exception.
\<close>

definition settle_launch :: "host \<Rightarrow> launch_result \<Rightarrow> launcher \<Rightarrow> launcher" where
  "settle_launch h r s = s\<lparr>lx_flights := filter (\<lambda>(g, _). h_id g \<noteq> h_id h) (lx_flights s),
     lx_results := lx_results s @ [(h_id h, r)]\<rparr>"

definition fail_launch :: "host \<Rightarrow> string \<Rightarrow> error_tone \<Rightarrow> launch_reason \<Rightarrow> launcher \<Rightarrow> launcher" where
  "fail_launch h message tone reason s =
     settle_launch h \<lparr>lr_ok = False, lr_tabId = None, lr_reason = Some reason, lr_message = Some message\<rparr>
       (reportFailure message tone s)"

definition launchHostSessionInner :: "launch_env \<Rightarrow> host \<Rightarrow> trust_outcome option \<Rightarrow> launcher \<Rightarrow> launcher" where
  "launchHostSessionInner env h decided s =
     (case decided of
        None \<Rightarrow> fail_launch h (''Could not reach '' @ h_hostname h @ '':'' @ show_number (h_port h) @
            ''. Check that the host is reachable and try again.'') Tone_error Trust_scan_threw s
      | Some o' \<Rightarrow>
          if \<not> to_ok o' then
            (case failure_message h (to_reason o') of (message, tone, reason) \<Rightarrow> fail_launch h message tone reason s)
          else
            (case openSession (le_now env) (le_pane env (h_id h)) (le_tab env (h_id h)) h (lx_sessions s) of
               (tabId, sessions) \<Rightarrow>
                 settle_launch h \<lparr>lr_ok = True, lr_tabId = Some tabId, lr_reason = None, lr_message = None\<rparr>
                   (s\<lparr>lx_error := clearConnectError,
                      lx_hosts := markHostConnectedInCollection (le_compare env) (le_now env) (lx_hosts s) (h_id h),
                      lx_sessions := sessions,
                      lx_opened := lx_opened s @ [(h, lx_known s)]\<rparr>)))"

definition set_stage :: "host \<Rightarrow> flight_stage \<Rightarrow> launcher \<Rightarrow> launcher" where
  "set_stage h stage s =
     s\<lparr>lx_flights := filter (\<lambda>(g, _). h_id g \<noteq> h_id h) (lx_flights s) @ [(h, stage)]\<rparr>"

text \<open>A second launch of a host that is under way shares its answer.\<close>

definition launchHostSession :: "launch_env \<Rightarrow> host \<Rightarrow> launcher \<Rightarrow> launcher" where
  "launchHostSession env h s =
     (if list_ex (\<lambda>(g, _). h_id g = h_id h) (lx_flights s) then s
      else case ensureTrustedHostKey True h (lx_known s) of
             None \<Rightarrow> set_stage h Scanning s
           | Some o' \<Rightarrow> launchHostSessionInner env h (Some o') s)"

text \<open>The answer of the prompt; it is the answer \<open>null\<close> where another prompt is open.\<close>

definition trust_answered :: "launch_env \<Rightarrow> scan_result option \<Rightarrow> host \<Rightarrow> launcher \<Rightarrow> launcher" where
  "trust_answered env accepted h s =
     (case accepted of
        None \<Rightarrow> launchHostSessionInner env h (Some (outcome False User_rejected)) s
      | Some e \<Rightarrow>
          (case trustKnownHost (le_compare env) (le_now env) e (lx_known s, lx_vault s) of (known, vault) \<Rightarrow>
             launchHostSessionInner env h (Some \<lparr>to_ok = True, to_reason = None, to_key = Some e\<rparr>)
               (s\<lparr>lx_known := known, lx_vault := vault\<rparr>)))"

definition scan_answered :: "launch_env \<Rightarrow> host \<Rightarrow> scan_result list option \<Rightarrow> launcher \<Rightarrow> launcher" where
  "scan_answered env h answer s =
     (case answer of
        None \<Rightarrow> launchHostSessionInner env h (Some (outcome False Scan_failed)) s
      | Some candidates \<Rightarrow>
          if candidates = [] then launchHostSessionInner env h (Some (outcome False Scan_empty)) s
          else case openPrompt (trust_request_of h candidates) (lx_prompt s) of
                 (True, prompt) \<Rightarrow> set_stage h Prompting (s\<lparr>lx_prompt := prompt\<rparr>)
               | (False, _) \<Rightarrow> trust_answered env None h s)"

definition waiting_for_prompt :: "launcher \<Rightarrow> host list" where
  "waiting_for_prompt s = map fst (filter (\<lambda>(_, stage). stage = Prompting) (lx_flights s))"

definition clearPrompt :: "launch_env \<Rightarrow> scan_result option \<Rightarrow> launcher \<Rightarrow> launcher" where
  "clearPrompt env accepted s =
     fold (trust_answered env accepted) (waiting_for_prompt s) (s\<lparr>lx_prompt := None\<rparr>)"

subsection \<open>Runs\<close>

text \<open>Meanwhile the user may forget a key or delete a host.\<close>

datatype launch_event =
  Launch host
| Scanned string "scan_result list option"
| Cleared "scan_result option"
| Key_forgotten string
| Host_deleted string

definition forget_key :: "launch_env \<Rightarrow> string \<Rightarrow> launcher \<Rightarrow> launcher" where
  "forget_key env i s =
     (case removeKnownHost (le_parse env) (le_compare env) (le_ms env) (le_now env) i (lx_known s, lx_vault s) of
        (known, vault) \<Rightarrow> s\<lparr>lx_known := known, lx_vault := vault\<rparr>)"

definition delete_host :: "launch_env \<Rightarrow> string \<Rightarrow> launcher \<Rightarrow> launcher" where
  "delete_host env i s =
     (case deleteHost (le_parse env) (le_compare env) (le_ms env) (le_now env) i (lx_hosts s, lx_vault s) of
        (hosts, vault) \<Rightarrow> s\<lparr>lx_hosts := hosts, lx_vault := vault, lx_sessions := snd (closePanesForHost i (lx_sessions s))\<rparr>)"

definition handle_launch :: "launch_env \<Rightarrow> launch_event \<Rightarrow> launcher \<Rightarrow> launcher" where
  "handle_launch env e s =
     (case e of
        Launch h \<Rightarrow> launchHostSession env h s
      | Scanned i answer \<Rightarrow>
          (case List.find (\<lambda>(g, stage). h_id g = i \<and> stage = Scanning) (lx_flights s) of
             None \<Rightarrow> s
           | Some (h, _) \<Rightarrow> scan_answered env h answer s)
      | Cleared accepted \<Rightarrow> clearPrompt env accepted s
      | Key_forgotten i \<Rightarrow> forget_key env i s
      | Host_deleted i \<Rightarrow> delete_host env i s)"

definition run_launches :: "launch_env \<Rightarrow> launch_event list \<Rightarrow> launcher \<Rightarrow> launcher" where
  "run_launches env es s = fold (handle_launch env) es s"

definition launcher_initial :: "known_host list \<Rightarrow> deletion_map \<Rightarrow> host list \<Rightarrow> sessions \<Rightarrow> launcher" where
  "launcher_initial known vault hosts sessions = \<lparr>lx_known = known, lx_vault = vault, lx_hosts = hosts,
     lx_sessions = sessions, lx_error = clearConnectError, lx_prompt = None, lx_flights = [], lx_results = [],
     lx_opened = []\<rparr>"

subsection \<open>Effects of the parts\<close>

definition trusts :: "known_host list \<Rightarrow> host \<Rightarrow> bool" where
  "trusts known h \<longleftrightarrow> findKnownHostMatch known (h_hostname h) (h_port h) \<noteq> None"

definition echoes :: "scan_result \<Rightarrow> host \<Rightarrow> bool" where
  "echoes e h \<longleftrightarrow> sc_hostname e = h_hostname h \<and> sc_port e = h_port h"

lemma trustKnownHost_trusts:
  assumes "trustKnownHost lc now e (known, vault) = (known', vault')" "echoes e h" "h_port h \<noteq> NaN"
  shows "trusts known' h"
proof -
  have "createKnownHostRecord now e \<in> set known'"
    using assms(1) by (auto simp: trustKnownHost_def Let_def sortKnownHosts_def)
  then have "\<exists>n \<in> set known'. n_hostname n = h_hostname h \<and> number_eq (n_port n) (h_port h)"
    using assms(2,3) by (intro bexI[of _ "createKnownHostRecord now e"])
      (auto simp: createKnownHostRecord_def echoes_def number_eq_def)
  then show ?thesis by (auto simp: trusts_def findKnownHostMatch_def find_None_iff)
qed

text \<open>A decision that lets a launch go on.\<close>

definition justified :: "trust_outcome option \<Rightarrow> host \<Rightarrow> launcher \<Rightarrow> bool" where
  "justified decided h s \<longleftrightarrow>
     (\<forall>t. decided = Some t \<longrightarrow> to_ok t \<longrightarrow> needs_trust h \<longrightarrow> h_port h \<noteq> NaN \<longrightarrow> trusts (lx_known s) h)"

lemma ensureTrustedHostKey_justified:
  "ensureTrustedHostKey interactive h (lx_known s) = Some t \<Longrightarrow> justified (Some t) h s"
  by (auto simp: ensureTrustedHostKey_def justified_def needs_trust_def trusts_def outcome_def split: if_splits)

lemma ensureTrustedHostKey_scans:
  "ensureTrustedHostKey True h known = None \<longleftrightarrow> needs_trust h \<and> \<not> trusts known h"
  by (auto simp: ensureTrustedHostKey_def needs_trust_def trusts_def)

definition result_ok :: "launch_result \<Rightarrow> bool" where
  "result_ok r \<longleftrightarrow> (lr_ok r \<longleftrightarrow> lr_tabId r \<noteq> None) \<and> (\<not> lr_ok r \<longrightarrow> truthy (lr_message r) \<and> lr_reason r \<noteq> None)"

text \<open>What holds of the launches apart from the prompt.\<close>

definition flights_ok :: "launcher \<Rightarrow> bool" where
  "flights_ok s \<longleftrightarrow> distinct (map (\<lambda>(h, _). h_id h) (lx_flights s)) \<and>
     list_all (\<lambda>(h, _). CHR '':'' \<notin> set (h_id h)) (lx_flights s) \<and>
     list_all (\<lambda>(h, known). needs_trust h \<longrightarrow> h_port h \<noteq> NaN \<longrightarrow> trusts known h) (lx_opened s) \<and>
     list_all (\<lambda>(_, r). result_ok r) (lx_results s)"

lemma inner_keeps [simp]:
  "lx_prompt (launchHostSessionInner env h d s) = lx_prompt s"
  "lx_known (launchHostSessionInner env h d s) = lx_known s"
  "lx_vault (launchHostSessionInner env h d s) = lx_vault s"
  "lx_flights (launchHostSessionInner env h d s) = filter (\<lambda>(g, _). h_id g \<noteq> h_id h) (lx_flights s)"
  by (auto simp: launchHostSessionInner_def settle_launch_def fail_launch_def reportFailure_def split: option.splits prod.splits)

lemma distinct_flights_filter:
  "distinct (map f xs) \<Longrightarrow> distinct (map f (filter P xs))"
  by (induction xs) auto

lemma inner_ok:
  assumes "flights_ok s" "justified d h s"
  shows "flights_ok (launchHostSessionInner env h d s)"
proof -
  have "result_ok \<lparr>lr_ok = False, lr_tabId = None, lr_reason = Some k, lr_message = Some m\<rparr> \<longleftrightarrow> m \<noteq> []" for k m
    by (simp add: result_ok_def)
  moreover have "failure_message h r \<noteq> ([], a)" for r a
    by (auto simp: failure_message_def Let_def split: option.splits trust_reason.splits)
  ultimately show ?thesis using assms unfolding flights_ok_def inner_keeps
    by (auto simp: launchHostSessionInner_def settle_launch_def fail_launch_def reportFailure_def justified_def
        result_ok_def list_all_iff distinct_flights_filter split: option.splits prod.splits)
qed

lemma flights_ok_updates [simp]:
  "flights_ok (s\<lparr>lx_known := known, lx_vault := vault\<rparr>) = flights_ok s"
  "flights_ok (s\<lparr>lx_prompt := p\<rparr>) = flights_ok s"
  "flights_ok (s\<lparr>lx_hosts := hs, lx_vault := vault, lx_sessions := w\<rparr>) = flights_ok s"
  by (simp_all add: flights_ok_def)

lemma trust_answered_ok:
  assumes "flights_ok s" "\<And>e. accepted = Some e \<Longrightarrow> echoes e h"
  shows "flights_ok (trust_answered env accepted h s)"
proof (cases accepted)
  case None
  then show ?thesis using assms(1) by (auto simp: trust_answered_def outcome_def justified_def intro!: inner_ok)
next
  case (Some e)
  obtain known vault where t: "trustKnownHost (le_compare env) (le_now env) e (lx_known s, lx_vault s) = (known, vault)"
    by fastforce
  with trustKnownHost_trusts[OF t assms(2)[OF Some]] Some assms(1) show ?thesis
    by (auto simp: trust_answered_def justified_def intro!: inner_ok)
qed

lemma trust_answered_keeps [simp]:
  "lx_prompt (trust_answered env a h s) = lx_prompt s"
  "lx_flights (trust_answered env a h s) = filter (\<lambda>(g, _). h_id g \<noteq> h_id h) (lx_flights s)"
  by (auto simp: trust_answered_def split: option.splits prod.splits)

lemma set_stage_ok:
  assumes "flights_ok s" "CHR '':'' \<notin> set (h_id h)"
  shows "flights_ok (set_stage h stage s)"
  using assms by (auto simp: flights_ok_def set_stage_def distinct_flights_filter list_all_iff)

subsection \<open>The prompt\<close>

text \<open>An open prompt belongs to exactly one launch, and its candidates name the address of that host.\<close>

definition prompt_ok :: "launcher \<Rightarrow> bool" where
  "prompt_ok s \<longleftrightarrow>
     (case lx_prompt s of
        None \<Rightarrow> waiting_for_prompt s = []
      | Some r \<Rightarrow> \<exists>h cs. r = trust_request_of h cs \<and> waiting_for_prompt s = [h] \<and> list_all (\<lambda>c. echoes c h) cs)"

lemma waiting_simps:
  "lx_flights s' = filter (\<lambda>(g, _). h_id g \<noteq> i) (lx_flights s) \<Longrightarrow>
   waiting_for_prompt s' = filter (\<lambda>g. h_id g \<noteq> i) (waiting_for_prompt s)"
  by (simp add: waiting_for_prompt_def filter_map comp_def case_prod_beta conj_commute)

lemma waiting_set_stage:
  "waiting_for_prompt (set_stage h stage s) =
   filter (\<lambda>g. h_id g \<noteq> h_id h) (waiting_for_prompt s) @ (if stage = Prompting then [h] else [])"
  by (simp add: waiting_for_prompt_def set_stage_def filter_map comp_def case_prod_beta conj_commute)

lemma waiting_updates [simp]:
  "waiting_for_prompt (s\<lparr>lx_prompt := p\<rparr>) = waiting_for_prompt s"
  "waiting_for_prompt (s\<lparr>lx_known := known, lx_vault := vault\<rparr>) = waiting_for_prompt s"
  "waiting_for_prompt (s\<lparr>lx_hosts := hs, lx_vault := vault, lx_sessions := w\<rparr>) = waiting_for_prompt s"
  by (simp_all add: waiting_for_prompt_def)

lemma other_flight:
  assumes "distinct (map (\<lambda>(h, _). h_id h) (lx_flights s))" "(h, Scanning) \<in> set (lx_flights s)"
    "g \<in> set (waiting_for_prompt s)"
  shows "h_id g \<noteq> h_id h"
proof
  assume "h_id g = h_id h"
  moreover have "(g, Prompting) \<in> set (lx_flights s)" using assms(3) by (auto simp: waiting_for_prompt_def)
  ultimately show False using assms(1,2)
    by (auto simp: distinct_map dest: inj_onD[of _ _ "(g, Prompting)" "(h, Scanning)"])
qed

lemma others_stay:
  assumes "distinct (map (\<lambda>(h, _). h_id h) (lx_flights s))" "(h, Scanning) \<in> set (lx_flights s)"
  shows "filter (\<lambda>g. h_id g \<noteq> h_id h) (waiting_for_prompt s) = waiting_for_prompt s"
  using other_flight[OF assms] by (auto simp: filter_id_conv)

text \<open>The key of a prompt determines the host: identifiers have no colon.\<close>

lemma getPromptKey_host:
  assumes "getPromptKey r = getPromptKey r'" "CHR '':'' \<notin> set (tr_hostId r)" "CHR '':'' \<notin> set (tr_hostId r')"
  shows "tr_hostId r = tr_hostId r'"
proof -
  have "takeWhile (\<lambda>c. c \<noteq> CHR '':'') (getPromptKey q) = tr_hostId q" if "CHR '':'' \<notin> set (tr_hostId q)" for q
    using that unfolding getPromptKey_def by (subst takeWhile_append2) auto
  then show ?thesis using assms by metis
qed

lemma trust_request_of_sel [simp]:
  "tr_hostId (trust_request_of h cs) = h_id h" "tr_candidates (trust_request_of h cs) = cs"
  by (simp_all add: trust_request_of_def)

subsection \<open>Reachable states\<close>

text \<open>
  A scan answers for the address it was asked for, and the user picks one of the candidates shown.
\<close>

inductive launch_step :: "launcher \<Rightarrow> launcher \<Rightarrow> bool" where
  launch: "CHR '':'' \<notin> set (h_id h) \<Longrightarrow> launch_step s (launchHostSession env h s)"
| scan: "(h, Scanning) \<in> set (lx_flights s) \<Longrightarrow> list_all (\<lambda>c. echoes c h) (coalesce answer []) \<Longrightarrow>
    launch_step s (scan_answered env h answer s)"
| clear: "(\<And>e r. accepted = Some e \<Longrightarrow> lx_prompt s = Some r \<Longrightarrow> e \<in> set (tr_candidates r)) \<Longrightarrow>
    launch_step s (clearPrompt env accepted s)"
| forget: "launch_step s (forget_key env i s)"
| delete: "launch_step s (delete_host env i s)"

lemma launch_ok:
  assumes "flights_ok s" "prompt_ok s" "CHR '':'' \<notin> set (h_id h)"
  shows "flights_ok (launchHostSession env h s) \<and> prompt_ok (launchHostSession env h s)"
proof (cases "list_ex (\<lambda>(g, _). h_id g = h_id h) (lx_flights s)")
  case True
  then show ?thesis using assms by (simp add: launchHostSession_def)
next
  case False
  then have "filter (\<lambda>(g, _). h_id g \<noteq> h_id h) (lx_flights s) = lx_flights s"
    by (auto simp: list_ex_iff filter_id_conv)
  then have "waiting_for_prompt (set_stage h Scanning s) = waiting_for_prompt s"
    "waiting_for_prompt (launchHostSessionInner env h d s) = waiting_for_prompt s" for d
    by (simp_all add: waiting_for_prompt_def set_stage_def)
  moreover have "lx_prompt (set_stage h Scanning s) = lx_prompt s" by (simp add: set_stage_def)
  ultimately show ?thesis using assms False
    by (auto simp: launchHostSession_def prompt_ok_def split: option.splits
        intro!: set_stage_ok inner_ok ensureTrustedHostKey_justified)
qed

lemma scan_ok:
  assumes "flights_ok s" "prompt_ok s" "(h, Scanning) \<in> set (lx_flights s)" "list_all (\<lambda>c. echoes c h) (coalesce answer [])"
  shows "flights_ok (scan_answered env h answer s) \<and> prompt_ok (scan_answered env h answer s)"
proof -
  have d: "distinct (map (\<lambda>(h, _). h_id h) (lx_flights s))" and colon: "CHR '':'' \<notin> set (h_id h)"
    using assms(1,3) by (auto simp: flights_ok_def list_all_iff)
  note stay = others_stay[OF d assms(3)]
  have settled: "prompt_ok (launchHostSessionInner env h t s)" for t
  proof -
    have "waiting_for_prompt (launchHostSessionInner env h t s) = waiting_for_prompt s"
      using waiting_simps[of "launchHostSessionInner env h t s" "h_id h" s] stay by simp
    with assms(2) show ?thesis unfolding prompt_ok_def inner_keeps by metis
  qed
  have bad: "justified (Some (outcome False r)) h s" for r by (simp add: justified_def outcome_def)
  have refused: "getPromptKey a \<noteq> getPromptKey (trust_request_of h cs)" if open_prompt: "lx_prompt s = Some a" for a cs
  proof
    assume same: "getPromptKey a = getPromptKey (trust_request_of h cs)"
    obtain g cs' where g: "a = trust_request_of g cs'" "waiting_for_prompt s = [g]"
      using assms(2) open_prompt by (auto simp: prompt_ok_def)
    then have "g \<in> fst ` set (lx_flights s)" by (auto simp: waiting_for_prompt_def filter_eq_Cons_iff map_eq_Cons_conv)
    then have "CHR '':'' \<notin> set (h_id g)" using assms(1) by (auto simp: flights_ok_def list_all_iff)
    with getPromptKey_host[OF same] colon g(1) have "h_id g = h_id h" by simp
    with other_flight[OF d assms(3)] g(2) show False by simp
  qed
  show ?thesis
  proof (cases answer)
    case None
    then show ?thesis using settled inner_ok[OF assms(1) bad] by (simp add: scan_answered_def)
  next
    case (Some cs)
    show ?thesis
    proof (cases "cs = []")
      case True
      then show ?thesis using Some settled inner_ok[OF assms(1) bad] by (simp add: scan_answered_def)
    next
      case ne: False
      show ?thesis
      proof (cases "lx_prompt s")
        case None
        let ?s = "s\<lparr>lx_prompt := Some (trust_request_of h cs)\<rparr>"
        have "waiting_for_prompt s = []" using assms(2) None by (simp add: prompt_ok_def)
        then have "waiting_for_prompt (set_stage h Prompting ?s) = [h]"
          "lx_prompt (set_stage h Prompting ?s) = Some (trust_request_of h cs)"
          by (simp_all add: waiting_set_stage) (simp add: set_stage_def)
        then have "prompt_ok (set_stage h Prompting ?s)" using assms(4) Some
          unfolding prompt_ok_def by auto
        then show ?thesis using Some ne None assms(1) colon
          by (simp add: scan_answered_def openPrompt_def set_stage_ok)
      next
        case (Some a)
        then show ?thesis using \<open>answer = Some cs\<close> ne refused settled inner_ok[OF assms(1) bad]
          by (simp add: scan_answered_def openPrompt_def trust_answered_def)
      qed
    qed
  qed
qed

lemma clearPrompt_ok:
  assumes "flights_ok s" "prompt_ok s" "\<And>e r. accepted = Some e \<Longrightarrow> lx_prompt s = Some r \<Longrightarrow> e \<in> set (tr_candidates r)"
  shows "flights_ok (clearPrompt env accepted s) \<and> prompt_ok (clearPrompt env accepted s)"
proof (cases "lx_prompt s")
  case None
  then show ?thesis using assms(1,2) by (simp add: clearPrompt_def prompt_ok_def)
next
  case (Some r)
  then obtain h cs where h: "r = trust_request_of h cs" "waiting_for_prompt s = [h]" "list_all (\<lambda>c. echoes c h) cs"
    using assms(2) by (auto simp: prompt_ok_def)
  let ?s = "s\<lparr>lx_prompt := None\<rparr>"
  have "echoes e h" if "accepted = Some e" for e
    using assms(3)[OF that Some] h by (auto simp: list_all_iff)
  then have "flights_ok (trust_answered env accepted h ?s)" using assms(1) by (intro trust_answered_ok) auto
  moreover have "waiting_for_prompt (trust_answered env accepted h ?s) = []"
    using waiting_simps[of "trust_answered env accepted h ?s" "h_id h" ?s] h(2) by simp
  ultimately show ?thesis using h(2) by (simp add: clearPrompt_def prompt_ok_def)
qed

lemma launch_step_ok:
  assumes "launch_step s s'" "flights_ok s \<and> prompt_ok s"
  shows "flights_ok s' \<and> prompt_ok s'"
  using assms
proof (induction rule: launch_step.induct)
  case (launch h s env)
  then show ?case using launch_ok by blast
next
  case (scan h s answer env)
  then show ?case using scan_ok by blast
next
  case (clear accepted s env)
  show ?case by (rule clearPrompt_ok) (use clear in blast)+
qed (auto simp: forget_key_def delete_host_def prompt_ok_def split: prod.splits option.splits)

lemma launches_ok:
  assumes "launch_step\<^sup>*\<^sup>* (launcher_initial known vault hosts sessions) s"
  shows "flights_ok s \<and> prompt_ok s"
  using assms
proof (induction rule: rtranclp_induct)
  case base
  then show ?case by (simp add: launcher_initial_def flights_ok_def prompt_ok_def waiting_for_prompt_def)
next
  case (step s t)
  then show ?case using launch_step_ok by blast
qed

subsection \<open>Only trusted hosts are opened\<close>



definition launch_example :: launch_env where
  "launch_example = \<lparr>le_parse = (\<lambda>_. None), le_compare = (\<lambda>_ _. 0), le_ms = 0, le_now = ''now'', le_pane = id, le_tab = id\<rparr>"

definition example_host :: "string \<Rightarrow> host" where
  "example_host i = (hd sampleHosts)\<lparr>h_id := i, h_label := i, h_hostname := i @ ''.org'', h_hostKeyPolicy := RequireTrusted\<rparr>"

definition example_key :: "string \<Rightarrow> scan_result" where
  "example_key i = \<lparr>sc_hostname = i @ ''.org'', sc_port = Finite 22, sc_algorithm = ''ssh-ed25519'', sc_publicKey = ''AAAA'',
     sc_fingerprint = ''SHA256:x''\<rparr>"

definition empty_launcher :: launcher where
  "empty_launcher = launcher_initial [] emptyDeletionMap [] sessions_initial"

definition prompted :: launcher where
  "prompted = run_launches launch_example [Launch (example_host ''a''), Scanned ''a'' (Some [example_key ''a''])] empty_launcher"

lemma example_simps [simp]:
  "h_id (example_host i) = i" "h_port (example_host i) = Finite 22" "h_hostname (example_host i) = i @ ''.org''"
  "h_label (example_host i) = i" "ensureTrustedHostKey True (example_host i) [] = None"
  "echoes (example_key i) (example_host i)"
  by (simp_all add: example_host_def sampleHosts_def ensureTrustedHostKey_scans needs_trust_def trusts_def
      hostSupportsTrustedKeys_def findKnownHostMatch_def echoes_def example_key_def)

lemma prompted_eq:
  "prompted = empty_launcher\<lparr>lx_prompt := Some (trust_request_of (example_host ''a'') [example_key ''a'']),
     lx_flights := [(example_host ''a'', Prompting)]\<rparr>"
  by (simp add: prompted_def run_launches_def handle_launch_def launchHostSession_def empty_launcher_def
      launcher_initial_def set_stage_def scan_answered_def openPrompt_def)

lemma prompted_reachable: "launch_step\<^sup>*\<^sup>* empty_launcher prompted"
proof -
  let ?s = "launchHostSession launch_example (example_host ''a'') empty_launcher"
  have s: "lx_flights ?s = [(example_host ''a'', Scanning)]"
    by (simp add: launchHostSession_def empty_launcher_def launcher_initial_def set_stage_def)
  have "prompted = scan_answered launch_example (example_host ''a'') (Some [example_key ''a'']) ?s"
    using s by (simp add: prompted_def run_launches_def handle_launch_def)
  moreover have "launch_step empty_launcher ?s" by (rule launch_step.launch) simp
  moreover have "launch_step ?s (scan_answered launch_example (example_host ''a'') (Some [example_key ''a'']) ?s)"
    by (rule launch_step.scan) (simp_all add: s)
  ultimately show ?thesis by (metis (no_types) converse_rtranclp_into_rtranclp rtranclp.rtrancl_refl)
qed



subsection \<open>Every launch is answered\<close>

definition flight_ids :: "launcher \<Rightarrow> string list" where
  "flight_ids s = map (\<lambda>(h, _). h_id h) (lx_flights s)"

definition answered_ids :: "launcher \<Rightarrow> string multiset" where
  "answered_ids s = mset (map fst (lx_results s))"

text \<open>The launches that were answered and those still under way.\<close>

definition launched :: "launcher \<Rightarrow> string multiset" where
  "launched s = answered_ids s + mset (flight_ids s)"

lemma inner_results:
  "answered_ids (launchHostSessionInner env h d s) = add_mset (h_id h) (answered_ids s)"
  by (auto simp: answered_ids_def launchHostSessionInner_def settle_launch_def fail_launch_def reportFailure_def
      split: option.splits prod.splits)

lemma removed_flight:
  assumes "distinct (map f xs)" "x \<in> set xs"
  shows "add_mset (f x) (mset (map f (filter (\<lambda>y. f y \<noteq> f x) xs))) = mset (map f xs)"
proof -
  have "map f (filter (\<lambda>y. f y \<noteq> f x) xs) = filter (\<lambda>i. i \<noteq> f x) (map f xs)" by (simp add: filter_map comp_def)
  moreover have "mset (filter (\<lambda>i. i \<noteq> f x) (map f xs)) = mset (remove1 (f x) (map f xs))"
    using assms(1) by (simp add: distinct_remove1_removeAll removeAll_filter_not_eq)
       (metis (mono_tags, lifting) filter_cong)
  ultimately show ?thesis using assms(2) by simp
qed

lemma inner_launched:
  assumes "distinct (flight_ids s)" "(h, stage) \<in> set (lx_flights s)"
  shows "launched (launchHostSessionInner env h d s) = launched s"
  using removed_flight[of "\<lambda>(g, _). h_id g" "lx_flights s" "(h, stage)"] assms
  by (simp add: launched_def flight_ids_def inner_results case_prod_beta')

lemma set_stage_launched:
  assumes "distinct (flight_ids s)" "(h, stage) \<in> set (lx_flights s)"
  shows "launched (set_stage h stage' s) = launched s"
  using removed_flight[of "\<lambda>(g, _). h_id g" "lx_flights s" "(h, stage)"] assms
  by (simp add: launched_def flight_ids_def set_stage_def answered_ids_def case_prod_beta')

lemma launched_updates [simp]:
  "launched (s\<lparr>lx_prompt := p\<rparr>) = launched s" "flight_ids (s\<lparr>lx_prompt := p\<rparr>) = flight_ids s"
  "launched (s\<lparr>lx_known := known, lx_vault := vault\<rparr>) = launched s"
  "flight_ids (s\<lparr>lx_known := known, lx_vault := vault\<rparr>) = flight_ids s"
  by (simp_all add: launched_def flight_ids_def answered_ids_def)

lemma trust_answered_launched:
  assumes "distinct (flight_ids s)" "(h, stage) \<in> set (lx_flights s)"
  shows "launched (trust_answered env a h s) = launched s"
  using assms inner_launched[of "s\<lparr>lx_known := known, lx_vault := vault\<rparr>" h stage for known vault]
    inner_launched[OF assms]
  by (auto simp: trust_answered_def split: option.splits prod.splits)

lemma inner_flight_ids [simp]:
  "flight_ids (launchHostSessionInner env h d s) = filter (\<lambda>i. i \<noteq> h_id h) (flight_ids s)"
  "flight_ids (trust_answered env a h s) = filter (\<lambda>i. i \<noteq> h_id h) (flight_ids s)"
  by (simp_all add: flight_ids_def filter_map comp_def case_prod_beta')

lemma set_stage_flight_ids [simp]:
  "flight_ids (set_stage h stage s) = filter (\<lambda>i. i \<noteq> h_id h) (flight_ids s) @ [h_id h]"
  by (simp add: flight_ids_def set_stage_def filter_map comp_def case_prod_beta')

lemma set_stage_launched':
  "distinct (flight_ids s) \<Longrightarrow> (h, Scanning) \<in> set (lx_flights s) \<Longrightarrow>
   launched (set_stage h stage' (s\<lparr>lx_prompt := p\<rparr>)) = launched s"
  using set_stage_launched[of "s\<lparr>lx_prompt := p\<rparr>" h Scanning stage'] by simp

lemma scan_answered_launched:
  assumes "distinct (flight_ids s)" "(h, Scanning) \<in> set (lx_flights s)"
  shows "launched (scan_answered env h answer s) = launched s \<and> distinct (flight_ids (scan_answered env h answer s))"
  using assms by (auto simp: scan_answered_def openPrompt_def inner_launched trust_answered_launched
      set_stage_launched' split: option.splits prod.splits bool.splits)

lemma answer_all:
  assumes "distinct (flight_ids t)" "\<forall>h \<in> set hs. (h, Prompting) \<in> set (lx_flights t)" "distinct (map h_id hs)"
  shows "launched (fold (trust_answered env a) hs t) = launched t \<and>
    lx_flights (fold (trust_answered env a) hs t) = filter (\<lambda>(g, _). h_id g \<notin> h_id ` set hs) (lx_flights t)"
  using assms
proof (induction hs arbitrary: t)
  case (Cons h hs)
  let ?t = "trust_answered env a h t"
  have "launched ?t = launched t" using trust_answered_launched[OF Cons.prems(1), of h] Cons.prems(2) by auto
  moreover have "\<forall>g \<in> set hs. (g, Prompting) \<in> set (lx_flights ?t)"
    using Cons.prems(2,3) by (auto dest: rev_image_eqI[of _ _ _ h_id])
  moreover have "distinct (flight_ids ?t)" using Cons.prems(1) by simp
  ultimately show ?case using Cons.IH[of ?t] Cons.prems(3) by (auto simp: case_prod_beta' intro!: filter_cong)
qed (simp add: case_prod_beta')

lemma clearPrompt_launched:
  assumes "distinct (flight_ids s)"
  shows "launched (clearPrompt env a s) = launched s \<and>
    lx_flights (clearPrompt env a s) = filter (\<lambda>(h, stage). stage = Scanning) (lx_flights s)"
proof -
  let ?s = "s\<lparr>lx_prompt := None\<rparr>" and ?hs = "waiting_for_prompt s"
  have inj: "inj_on (\<lambda>(h, _). h_id h) (set (lx_flights s))" using assms by (simp add: flight_ids_def distinct_map)
  have waiting: "set ?hs = {h. (h, Prompting) \<in> set (lx_flights s)}"
    by (force simp: waiting_for_prompt_def)
  have "distinct (map h_id ?hs)"
    using assms by (simp add: flight_ids_def waiting_for_prompt_def comp_def case_prod_beta' distinct_map_filter)
  then have "launched (clearPrompt env a s) = launched s \<and>
      lx_flights (clearPrompt env a s) = filter (\<lambda>(g, _). h_id g \<notin> h_id ` set ?hs) (lx_flights s)"
    using answer_all[of ?s ?hs env a] assms waiting by (simp add: clearPrompt_def)
  moreover have "h_id g \<notin> h_id ` set ?hs \<longleftrightarrow> stage = Scanning" if "(g, stage) \<in> set (lx_flights s)" for g stage
  proof
    assume "stage = Scanning"
    show "h_id g \<notin> h_id ` set ?hs"
    proof
      assume "h_id g \<in> h_id ` set ?hs"
      then obtain h where "h_id g = h_id h" "(h, Prompting) \<in> set (lx_flights s)" using waiting by auto
      with inj_onD[OF inj, of "(g, stage)" "(h, Prompting)"] that \<open>stage = Scanning\<close> show False by simp
    qed
  next
    assume "h_id g \<notin> h_id ` set ?hs"
    with that waiting show "stage = Scanning" by (cases stage) auto
  qed
  ultimately show ?thesis by (auto intro!: filter_cong)
qed

definition scanning_ids :: "launcher \<Rightarrow> string set" where
  "scanning_ids s = {h_id h |h. (h, Scanning) \<in> set (lx_flights s)}"

lemma scan_answered_scanning: "scanning_ids (scan_answered env h answer s) \<subseteq> scanning_ids s - {h_id h}"
  by (auto simp: scan_answered_def openPrompt_def scanning_ids_def set_stage_def split: option.splits bool.splits)

lemma scanned_event:
  assumes "distinct (flight_ids s)"
  shows "launched (handle_launch env (Scanned i answer) s) = launched s \<and>
    distinct (flight_ids (handle_launch env (Scanned i answer) s)) \<and>
    scanning_ids (handle_launch env (Scanned i answer) s) \<subseteq> scanning_ids s - {i}"
proof (cases "List.find (\<lambda>(g, stage). h_id g = i \<and> stage = Scanning) (lx_flights s)")
  case None
  then have "i \<notin> scanning_ids s" by (auto simp: find_None_iff scanning_ids_def)
  then show ?thesis using assms None by (simp add: handle_launch_def)
next
  case (Some f)
  then obtain h where "f = (h, Scanning)" "(h, Scanning) \<in> set (lx_flights s)" "h_id h = i"
    by (auto dest: find_Some_set)
  then show ?thesis using Some scan_answered_launched[OF assms, of h env answer] scan_answered_scanning[of env h answer s]
    by (auto simp: handle_launch_def)
qed

lemma scans_answered:
  assumes "distinct (flight_ids s)"
  shows "launched (run_launches env (map (\<lambda>(i, a). Scanned i a) answers) s) = launched s \<and>
    distinct (flight_ids (run_launches env (map (\<lambda>(i, a). Scanned i a) answers) s)) \<and>
    scanning_ids (run_launches env (map (\<lambda>(i, a). Scanned i a) answers) s) \<subseteq> scanning_ids s - fst ` set answers"
  using assms
proof (induction answers arbitrary: s)
  case (Cons x answers)
  obtain i a where x: "x = (i, a)" by (cases x)
  from Cons.IH[of "handle_launch env (Scanned i a) s"] scanned_event[OF Cons.prems, of env i a] x
  show ?case by (auto simp: run_launches_def)
qed (simp add: run_launches_def)

text \<open>C12: No launch hangs on another one. Once every scan has answered, in any order and with any
  result, and the open prompt is answered, every launch that was under way has ended, each with
  exactly one answer; an answer holds a tab, or a reason and a message that is not empty.\<close>

theorem launches_settle:
  assumes "launch_step\<^sup>*\<^sup>* (launcher_initial known vault hosts sessions) s"
    and "scanning_ids s \<subseteq> fst ` set answers"
  shows "let s' = clearPrompt env accepted (run_launches env (map (\<lambda>(i, a). Scanned i a) answers) s) in
    lx_flights s' = [] \<and> answered_ids s' = answered_ids s + mset (flight_ids s) \<and>
    list_all (\<lambda>(_, r). result_ok r) (lx_results s)"
proof -
  let ?t = "run_launches env (map (\<lambda>(i, a). Scanned i a) answers) s"
  have ok: "flights_ok s" using launches_ok[OF assms(1)] ..
  then have "distinct (flight_ids s)" by (simp add: flights_ok_def flight_ids_def)
  from scans_answered[OF this, of env answers] assms(2)
  have t: "launched ?t = launched s" "distinct (flight_ids ?t)" "scanning_ids ?t = {}" by auto
  from t(3) have "filter (\<lambda>(h, stage). stage = Scanning) (lx_flights ?t) = []"
    by (auto simp: scanning_ids_def filter_empty_conv)
  with clearPrompt_launched[OF t(2), of env accepted] t(1)
  have "lx_flights (clearPrompt env accepted ?t) = []" "launched (clearPrompt env accepted ?t) = launched s" by simp_all
  then show ?thesis using ok by (simp add: Let_def launched_def flight_ids_def flights_ok_def)
qed

theorem launches_settle_witness:
  "lx_flights (clearPrompt launch_example None (run_launches launch_example [] prompted)) = [] \<and>
   answered_ids (clearPrompt launch_example None (run_launches launch_example [] prompted)) = {#''a''#}"
proof -
  have "scanning_ids prompted = {}" "flight_ids prompted = [''a'']" "answered_ids prompted = {#}"
    by (simp_all add: prompted_eq scanning_ids_def flight_ids_def answered_ids_def empty_launcher_def launcher_initial_def)
  then show ?thesis
    using launches_settle[of "[]" emptyDeletionMap "[]" sessions_initial prompted "[]" launch_example None] prompted_reachable
    by (simp add: empty_launcher_def Let_def)
qed

subsection \<open>Two limits\<close>

text \<open>
  While one prompt is open, the launch of another host is refused, and the banner says that the user
  did not trust its key, although nobody was asked.
\<close>

lemma second_prompt_reads_as_rejection:
  "let s = run_launches launch_example [Launch (example_host ''b''), Scanned ''b'' (Some [example_key ''b''])] prompted in
   er_message (lx_error s) = Some ''Connection cancelled - host key for b was not trusted.'' \<and>
   lx_prompt s = lx_prompt prompted \<and> map fst (lx_results s) = [''b'']"
  by (simp add: prompted_eq run_launches_def handle_launch_def launchHostSession_def empty_launcher_def launcher_initial_def
      set_stage_def scan_answered_def openPrompt_def getPromptKey_def trust_request_of_def trust_answered_def
      launchHostSessionInner_def outcome_def failure_message_def fail_launch_def settle_launch_def reportFailure_def
      reportConnectError_def setConnectError_def Let_def)

text \<open>A host deleted while its prompt is open still gets a tab.\<close>

lemma deleted_host_is_opened:
  "let s = run_launches launch_example [Host_deleted ''a'', Cleared (Some (example_key ''a''))] prompted in
   map (\<lambda>t. t_hostId t) (ss_tabs (lx_sessions s)) = [''a''] \<and> lx_hosts s = []"
  by (simp add: prompted_eq run_launches_def handle_launch_def delete_host_def deleteHost_def deleteHostFromCollection_def
      empty_launcher_def launcher_initial_def sortHostCollection_def closePanesForHost_def panes_of_host_def sessions_initial_def
      clearPrompt_def waiting_for_prompt_def trust_answered_def launchHostSessionInner_def settle_launch_def
      markHostConnectedInCollection_def openSession_def openSessionWorkspace_def createSessionTab_def Let_def split: prod.splits)

end
