(* ===== verification/ServerConnect.thy ===== *)
theory ServerConnect
  imports HostKeys BackendShell
begin

section \<open>Connecting to a host on the backend (\<open>server/backend.mjs\<close>, \<open>server/secrets.mjs\<close>)\<close>

text \<open>
  The path of every short-lived connection: the configuration with its host key check and its
  secrets, the connection to the jump host and through it, the handshake, and the wiping of the
  secrets. The secrets are bytes in buffers that are shared by reference, so the state has a list of
  buffers; it also has the durable store of host keys, the SSH clients with what closes them, and the
  stages that were reported. The SSH library, the operating system and the network are arguments: which
  key a host presents, how the handshake ends when the key was accepted or not, what a file holds.
\<close>

subsection \<open>Secret buffers\<close>

record secret_buffer =
  sb_buffer :: nat
  sb_scrubbed :: bool

record ssh_client =
  cl_jump :: "nat option"
  cl_open :: bool

record ssh_state =
  st_buffers :: "bytes list"
  st_store :: store_file
  st_clients :: "ssh_client list"
  st_stages :: "string list"

definition alloc_buffer :: "bytes \<Rightarrow> ssh_state \<Rightarrow> nat \<times> ssh_state" where
  "alloc_buffer b s = (length (st_buffers s), s\<lparr>st_buffers := st_buffers s @ [b]\<rparr>)"

definition zeros :: "bytes \<Rightarrow> bytes" where
  "zeros b = map (\<lambda>_. CHR 0x00) b"

definition fill_zero :: "nat \<Rightarrow> ssh_state \<Rightarrow> ssh_state" where
  "fill_zero r s = s\<lparr>st_buffers := (st_buffers s)[r := zeros (st_buffers s ! r)]\<rparr>"

definition secretFromString :: "string option \<Rightarrow> ssh_state \<Rightarrow> secret_buffer \<times> ssh_state" where
  "secretFromString v s =
     (case alloc_buffer (utf8_encode (coalesce v [])) s of (r, s') \<Rightarrow> (\<lparr>sb_buffer = r, sb_scrubbed = False\<rparr>, s'))"

definition asBuffer :: "secret_buffer \<Rightarrow> ssh_state \<Rightarrow> bytes" where
  "asBuffer b s = (if sb_scrubbed b then [] else st_buffers s ! sb_buffer b)"

definition asString :: "secret_buffer \<Rightarrow> ssh_state \<Rightarrow> string" where
  "asString b s = coalesce (utf8_decode (asBuffer b s)) []"

definition scrub :: "secret_buffer \<Rightarrow> ssh_state \<Rightarrow> secret_buffer \<times> ssh_state" where
  "scrub b s = (if sb_scrubbed b then (b, s) else (b\<lparr>sb_scrubbed := True\<rparr>, fill_zero (sb_buffer b) s))"

subsection \<open>The configuration\<close>

text \<open>How the host key is checked: against a trusted key, or against the durable store.\<close>

datatype key_check = Exact_key string | Durable_store

record connect_config =
  cfg_host :: string
  cfg_port :: "int number"
  cfg_username :: string
  cfg_check :: key_check
  cfg_agent :: "string option"
  cfg_password :: "string option"
  cfg_privateKey :: "nat option"
  cfg_passphrase :: "nat option"
  cfg_sock :: "nat option"

text \<open>
  The closures that wipe a secret; the last one runs first. They also empty the fields of the configuration, which
  nobody reads after that.
\<close>

datatype cleanup = Scrub_secret secret_buffer | Wipe_buffer nat

datatype connect_failure =
  Trusted_key_required string "int number"
| Key_file_unreadable string
| Host_key_refused host_key_rejection
| Ssh_failure transport_error
| Forward_refused string

text \<open>What the SSH library is handed when it connects.\<close>

record credentials =
  cr_username :: string
  cr_password :: "string option"
  cr_privateKey :: "bytes option"
  cr_passphrase :: "bytes option"

record ssh_world =
  wo_agentSocket :: "string option"
  wo_lossy :: "bytes \<Rightarrow> string"
  wo_read :: "string \<Rightarrow> string + bytes"
  wo_store :: "connection \<Rightarrow> store_answers"
  wo_key :: "connection \<Rightarrow> bytes option"
  wo_outcome :: "connection \<Rightarrow> bool \<Rightarrow> credentials \<Rightarrow> transport_error option"
  wo_forward :: "connection \<Rightarrow> string option"

definition setStage :: "string \<Rightarrow> ssh_state \<Rightarrow> ssh_state" where
  "setStage stage s = s\<lparr>st_stages := st_stages s @ [stage]\<rparr>"

definition base_config :: "ssh_world \<Rightarrow> connection \<Rightarrow> connect_config" where
  "base_config w h = \<lparr>cfg_host = bc_hostname h, cfg_port = bc_port h, cfg_username = bc_username h,
     cfg_check = (if truthy (bc_knownHostPublicKey h) then Exact_key (the (bc_knownHostPublicKey h)) else Durable_store),
     cfg_agent = (if bc_agentForwarding h \<and> truthy (wo_agentSocket w) then wo_agentSocket w else None),
     cfg_password = None, cfg_privateKey = None, cfg_passphrase = None, cfg_sock = None\<rparr>"

definition createConnectConfig ::
    "ssh_world \<Rightarrow> connection \<Rightarrow> ssh_state \<Rightarrow> (connect_failure + connect_config \<times> cleanup list) \<times> ssh_state" where
  "createConnectConfig w h s =
     (if bc_hostKeyPolicy h = RequireTrusted \<and> \<not> truthy (bc_knownHostPublicKey h)
      then (Inl (Trusted_key_required (bc_hostname h) (bc_port h)), s)
      else let cfg = base_config w h in
        case bc_authMethod h of
          AuthPassword \<Rightarrow>
            (case secretFromString (Some (bc_password h)) s of (b, s1) \<Rightarrow>
               (Inr (cfg\<lparr>cfg_password := Some (asString b s1)\<rparr>, [Scrub_secret b]), s1))
        | AuthPrivateKey \<Rightarrow>
            (case wo_read w (bc_privateKeyPath h) of
               Inl e \<Rightarrow> (Inl (Key_file_unreadable e), s)
             | Inr key \<Rightarrow>
                 (case alloc_buffer key s of (r, s1) \<Rightarrow>
                    if bc_passphrase h = [] then (Inr (cfg\<lparr>cfg_privateKey := Some r\<rparr>, [Wipe_buffer r]), s1)
                    else (case secretFromString (Some (bc_passphrase h)) s1 of (b, s2) \<Rightarrow>
                      (Inr (cfg\<lparr>cfg_privateKey := Some r, cfg_passphrase := Some (sb_buffer b)\<rparr>,
                            [Wipe_buffer r, Scrub_secret b]), s2))))
        | AuthNone \<Rightarrow> (Inr (cfg, []), s))"

definition run_cleanup :: "cleanup \<Rightarrow> ssh_state \<Rightarrow> ssh_state" where
  "run_cleanup c s = (case c of Scrub_secret b \<Rightarrow> snd (scrub b s) | Wipe_buffer r \<Rightarrow> fill_zero r s)"

definition scrubBundle :: "cleanup list \<Rightarrow> ssh_state \<Rightarrow> ssh_state" where
  "scrubBundle cs s = fold run_cleanup (rev cs) s"

subsection \<open>Clients\<close>

text \<open>
  Ending a client closes it, and its close event ends the jump client below it. A jump client is older
  than the client that is connected through it.
\<close>

function end_clients :: "nat \<Rightarrow> ssh_client list \<Rightarrow> ssh_client list" where
  "end_clients i cs =
     (if i < length cs then
        (let cs' = cs[i := (cs ! i)\<lparr>cl_open := False\<rparr>] in
         case cl_jump (cs ! i) of None \<Rightarrow> cs' | Some j \<Rightarrow> if j < i then end_clients j cs' else cs')
      else cs)"
  by pat_completeness auto
termination by (relation "measure fst") auto

declare end_clients.simps [simp del]

definition end_client :: "nat \<Rightarrow> ssh_state \<Rightarrow> ssh_state" where
  "end_client i s = s\<lparr>st_clients := end_clients i (st_clients s)\<rparr>"

subsection \<open>The handshake\<close>

definition credentials_of :: "connect_config \<Rightarrow> ssh_state \<Rightarrow> credentials" where
  "credentials_of cfg s = \<lparr>cr_username = cfg_username cfg, cr_password = cfg_password cfg,
     cr_privateKey = map_option ((!) (st_buffers s)) (cfg_privateKey cfg),
     cr_passphrase = map_option ((!) (st_buffers s)) (cfg_passphrase cfg)\<rparr>"

text \<open>The verifier runs on the key the host presents, if it gets that far.\<close>

definition hostVerifier ::
    "ssh_world \<Rightarrow> connection \<Rightarrow> connect_config \<Rightarrow> store_file \<Rightarrow> (bool \<times> host_key_rejection option) \<times> store_file" where
  "hostVerifier w h cfg d =
     (case wo_key w h of
        None \<Rightarrow> ((False, None), d)
      | Some k \<Rightarrow>
          (case cfg_check cfg of
             Exact_key publicKey \<Rightarrow> ((base64 k = publicKey, None), d)
           | Durable_store \<Rightarrow>
               createHostKeyVerifier (wo_lossy w) (wo_store w h) (Some (bc_hostname h)) (bc_port h) k d))"

text \<open>
  The SSH library says how the handshake ends. The client is ready, or the error ends the jump
  client and names the stage. The second component is why the verifier refused.
\<close>

definition waitForSshReady ::
    "ssh_world \<Rightarrow> connection \<Rightarrow> connect_config \<Rightarrow> nat option \<Rightarrow> ssh_state \<Rightarrow>
     (transport_error + nat) \<times> host_key_rejection option \<times> ssh_state" where
  "waitForSshReady w h cfg jump s =
     (case hostVerifier w h cfg (st_store s) of ((accepted, failure), d) \<Rightarrow>
        let s1 = s\<lparr>st_store := d\<rparr> in
        case wo_outcome w h accepted (credentials_of cfg s1) of
          None \<Rightarrow> (Inr (length (st_clients s1)), failure,
             s1\<lparr>st_clients := st_clients s1 @ [\<lparr>cl_jump = jump, cl_open = True\<rparr>]\<rparr>)
        | Some e \<Rightarrow>
            let s2 = (case jump of None \<Rightarrow> s1 | Some j \<Rightarrow> end_client j s1);
                s3 = (case sshFailureStage e of None \<Rightarrow> s2 | Some stage \<Rightarrow> setStage stage s2)
            in (Inl e, failure, s3))"

text \<open>A refusal by the verifier is reported with its reason; the secrets are wiped in any case.\<close>

definition finish_connect ::
    "ssh_world \<Rightarrow> connection \<Rightarrow> connect_config \<Rightarrow> cleanup list \<Rightarrow> nat option \<Rightarrow> ssh_state \<Rightarrow>
     (connect_failure + nat) \<times> ssh_state" where
  "finish_connect w h cfg cleanups jump s =
     (case waitForSshReady w h cfg jump s of (r, failure, s1) \<Rightarrow>
        (case r of
           Inr i \<Rightarrow> Inr i
         | Inl e \<Rightarrow> Inl (case failure of Some f \<Rightarrow> Host_key_refused f | None \<Rightarrow> Ssh_failure e),
         scrubBundle cleanups s1))"

text \<open>
  The jump host first: \<open>openJumpSocket\<close> connects to it and asks it to forward to the host. When that
  fails, the call ends there.
\<close>

definition openJumpSocket ::
    "ssh_world \<Rightarrow> connection \<Rightarrow> (connect_failure + nat) \<times> ssh_state \<Rightarrow> (connect_failure + nat) \<times> ssh_state" where
  "openJumpSocket w h r =
     (case r of
        (Inl e, s) \<Rightarrow> (Inl e, s)
      | (Inr i, s) \<Rightarrow>
          (case wo_forward w h of
             None \<Rightarrow> (Inr i, s)
           | Some e \<Rightarrow> (Inl (Forward_refused e), end_client i s)))"

lemma jump_smaller: "bc_jumpHost h = Some j \<Longrightarrow> size j < size h"
  by (cases h) auto

function connectClient :: "ssh_world \<Rightarrow> connection \<Rightarrow> ssh_state \<Rightarrow> (connect_failure + nat) \<times> ssh_state" where
  "connectClient w h s =
     (case createConnectConfig w h (setStage ''configuration'' s) of
        (Inl e, s1) \<Rightarrow> (Inl e, s1)
      | (Inr (cfg, cleanups), s1) \<Rightarrow>
          (case bc_jumpHost h of
             None \<Rightarrow> finish_connect w h cfg cleanups None (setStage ''connect'' s1)
           | Some j \<Rightarrow>
               (case openJumpSocket w h (connectClient w j (setStage ''connect'' s1)) of
                  (Inl e, s2) \<Rightarrow> (Inl e, s2)
                | (Inr i, s2) \<Rightarrow> finish_connect w h (cfg\<lparr>cfg_sock := Some i\<rparr>) cleanups (Some i) s2)))"
  by pat_completeness auto
termination by (relation "measure (\<lambda>(w, h, s). size h)") (auto dest: jump_smaller)

declare connectClient.simps [simp del]

subsection \<open>What the steps leave alone\<close>

lemma hops_eq: "hops h = h # (case bc_jumpHost h of None \<Rightarrow> [] | Some j \<Rightarrow> hops j)"
  by (cases h) (simp split: option.split)

lemma fill_zero_keeps [simp]:
  "st_store (fill_zero r s) = st_store s" "st_clients (fill_zero r s) = st_clients s" "st_stages (fill_zero r s) = st_stages s"
  by (simp_all add: fill_zero_def)

lemma run_cleanup_keeps [simp]: "st_clients (run_cleanup c s) = st_clients s" "st_store (run_cleanup c s) = st_store s"
  by (simp_all add: run_cleanup_def scrub_def split: cleanup.split)

lemma scrubBundle_keeps [simp]: "st_clients (scrubBundle cs s) = st_clients s" "st_store (scrubBundle cs s) = st_store s"
proof -
  have "st_clients (fold run_cleanup xs s) = st_clients s \<and> st_store (fold run_cleanup xs s) = st_store s" for xs
    by (induction xs arbitrary: s) simp_all
  then show "st_clients (scrubBundle cs s) = st_clients s" "st_store (scrubBundle cs s) = st_store s"
    by (simp_all add: scrubBundle_def)
qed

lemma setStage_keeps [simp]:
  "st_buffers (setStage t s) = st_buffers s" "st_clients (setStage t s) = st_clients s" "st_store (setStage t s) = st_store s"
  by (simp_all add: setStage_def)

lemma end_client_keeps [simp]: "st_buffers (end_client i s) = st_buffers s" "st_store (end_client i s) = st_store s"
  by (simp_all add: end_client_def)


lemma createConnectConfig_clients:
  "createConnectConfig w h s = (r, s') \<Longrightarrow> st_clients s' = st_clients s"
  by (auto simp: createConnectConfig_def Let_def secretFromString_def alloc_buffer_def
      split: host_auth.splits sum.splits if_splits)

lemma openJumpSocket_cases:
  "openJumpSocket w h (r, s) = (Inl e, s') \<longleftrightarrow>
     r = Inl e \<and> s' = s \<or> (\<exists>i f. r = Inr i \<and> wo_forward w h = Some f \<and> e = Forward_refused f \<and> s' = end_client i s)"
  "openJumpSocket w h (r, s) = (Inr i, s') \<longleftrightarrow> r = Inr i \<and> wo_forward w h = None \<and> s' = s"
  by (auto simp: openJumpSocket_def split: sum.splits option.splits)

text \<open>The two ways a connection is made: directly, or through the jump host.\<close>

lemma connectClient_cases:
  assumes "connectClient w h s = (r, s')"
  obtains (config) e where "createConnectConfig w h (setStage ''configuration'' s) = (Inl e, s')" "r = Inl e"
  | (direct) cfg cs s1 where "createConnectConfig w h (setStage ''configuration'' s) = (Inr (cfg, cs), s1)"
      "bc_jumpHost h = None" "finish_connect w h cfg cs None (setStage ''connect'' s1) = (r, s')"
  | (no_jump) cfg cs s1 j q s2 e where "createConnectConfig w h (setStage ''configuration'' s) = (Inr (cfg, cs), s1)"
      "bc_jumpHost h = Some j" "connectClient w j (setStage ''connect'' s1) = (q, s2)"
      "openJumpSocket w h (q, s2) = (Inl e, s')" "r = Inl e"
  | (through) cfg cs s1 j i s2 where "createConnectConfig w h (setStage ''configuration'' s) = (Inr (cfg, cs), s1)"
      "bc_jumpHost h = Some j" "connectClient w j (setStage ''connect'' s1) = (Inr i, s2)" "wo_forward w h = None"
      "finish_connect w h (cfg\<lparr>cfg_sock := Some i\<rparr>) cs (Some i) s2 = (r, s')"
proof -
  obtain d s1 where c: "createConnectConfig w h (setStage ''configuration'' s) = (d, s1)" by fastforce
  show thesis
  proof (cases d)
    case (Inl e)
    then show ?thesis using assms c config by (simp add: connectClient.simps)
  next
    case (Inr p)
    then obtain cfg cs where p: "d = Inr (cfg, cs)" by (cases p) simp
    show ?thesis
    proof (cases "bc_jumpHost h")
      case None
      then show ?thesis using assms c p direct by (simp add: connectClient.simps)
    next
      case (Some j)
      obtain q s2 where q: "connectClient w j (setStage ''connect'' s1) = (q, s2)" by fastforce
      obtain o' s3 where o': "openJumpSocket w h (q, s2) = (o', s3)" by fastforce
      show ?thesis
      proof (cases o')
        case (Inl e)
        then have "openJumpSocket w h (q, s2) = (Inl e, s')" "r = Inl e"
          using assms c p Some q o' by (simp_all add: connectClient.simps[of w h s])
        then show ?thesis using no_jump[OF _ Some q] c p by simp
      next
        case (Inr i)
        then have "q = Inr i" "wo_forward w h = None" "s3 = s2" using o' by (auto simp: openJumpSocket_cases)
        then show ?thesis using assms c p Some q o' Inr through by (simp add: connectClient.simps[of w h s])
      qed
    qed
  qed
qed

subsection \<open>Host keys\<close>

text \<open>A host whose key was refused, or that presented none, never becomes ready.\<close>

definition refuses_unverified :: "ssh_world \<Rightarrow> bool" where
  "refuses_unverified w \<longleftrightarrow> (\<forall>h cr. wo_outcome w h False cr \<noteq> None)"

lemma ready_verified:
  assumes "refuses_unverified w" "finish_connect w h cfg cs jump s = (Inr i, s')"
  shows "\<exists>f d. hostVerifier w h cfg (st_store s) = ((True, f), d)"
proof -
  obtain accepted f d where v: "hostVerifier w h cfg (st_store s) = ((accepted, f), d)" by (metis prod.exhaust)
  then have "wo_outcome w h accepted (credentials_of cfg (s\<lparr>st_store := d\<rparr>)) = None"
    using assms(2) by (auto simp: finish_connect_def waitForSshReady_def Let_def split: option.splits prod.splits sum.splits)
  then have accepted using assms(1) unfolding refuses_unverified_def by metis
  with v show ?thesis by simp
qed

lemma createConnectConfig_check:
  assumes "createConnectConfig w h s = (Inr (cfg, cs), s1)"
  shows "cfg_check cfg = (if truthy (bc_knownHostPublicKey h) then Exact_key (the (bc_knownHostPublicKey h)) else Durable_store) \<and>
    (bc_hostKeyPolicy h = RequireTrusted \<longrightarrow> truthy (bc_knownHostPublicKey h))"
  using assms by (auto simp: createConnectConfig_def base_config_def Let_def secretFromString_def alloc_buffer_def
      split: host_auth.splits sum.splits if_splits)

lemma verified_exact:
  assumes "hostVerifier w h cfg d = ((True, f), d')" "cfg_check cfg = Exact_key p"
  shows "\<exists>k. wo_key w h = Some k \<and> base64 k = p"
  using assms by (auto simp: hostVerifier_def split: option.splits)

lemma truthy_Some: "truthy v \<Longrightarrow> v = Some (the v)"
  by (cases v) auto

lemma finish_trusted:
  assumes "refuses_unverified w" "createConnectConfig w h t = (Inr (cfg, cs), s1)"
    and "finish_connect w h (cfg\<lparr>cfg_sock := sock\<rparr>) cs jump s = (Inr i, s')" "bc_hostKeyPolicy h = RequireTrusted"
  shows "\<exists>k. wo_key w h = Some k \<and> bc_knownHostPublicKey h = Some (base64 k)"
proof -
  note c = createConnectConfig_check[OF assms(2)]
  then have p: "bc_knownHostPublicKey h = Some (the (bc_knownHostPublicKey h))" using assms(4) truthy_Some by blast
  obtain f d where v: "hostVerifier w h (cfg\<lparr>cfg_sock := sock\<rparr>) (st_store s) = ((True, f), d)"
    using ready_verified[OF assms(1,3)] by blast
  have "cfg_check (cfg\<lparr>cfg_sock := sock\<rparr>) = Exact_key (the (bc_knownHostPublicKey h))" using c assms(4) by simp
  from verified_exact[OF v this] p show ?thesis by auto
qed

lemma connect_trusted:
  assumes "refuses_unverified w" "connectClient w h s = (Inr i, s')" "b \<in> set (hops h)" "bc_hostKeyPolicy b = RequireTrusted"
  shows "\<exists>k. wo_key w b = Some k \<and> bc_knownHostPublicKey b = Some (base64 k)"
  using assms
proof (induction w h s arbitrary: i s' rule: connectClient.induct)
  case (1 w h s)
  from "1.prems"(2) show ?case
  proof (cases rule: connectClient_cases)
    case (direct cfg cs s1)
    then have "b = h" using "1.prems"(3) hops_eq[of h] by simp
    then show ?thesis using finish_trusted[OF "1.prems"(1) direct(1), of "cfg_sock cfg"] direct(3) "1.prems"(4) by simp
  next
    case (through cfg cs s1 j i' s2)
    consider "b = h" | "b \<in> set (hops j)" using "1.prems"(3) hops_eq[of h] through(2) by auto
    then show ?thesis
    proof cases
      case 1
      then show ?thesis using finish_trusted[OF "1.prems"(1) through(1,5)] "1.prems"(4) by simp
    next
      case 2
      then show ?thesis using "1.IH"[OF through(1)[symmetric] refl refl through(2) "1.prems"(1) through(3) 2 "1.prems"(4)] by simp
    qed
  qed auto
qed

text \<open>C8: From the list of trusted keys to the wire. When the request that was built for a host connects,
  every hop on the way whose policy asks for a trusted key presented exactly the key of a record of the
  trusted keys for its address; no other key gets through, wherever the hop stands in the chain.\<close>

theorem connected_route_is_trusted:
  assumes "refuses_unverified w" "buildBackendConnection env host = Inr h" "connectClient w h s = (Inr i, s')"
    and "b \<in> set (hops h)" "bc_hostKeyPolicy b = RequireTrusted" "hostSupportsTrustedKeys (bc_protocol b)"
  shows "\<exists>n \<in> set (ce_knownHosts env). n_hostname n = bc_hostname b \<and> number_eq (n_port n) (bc_port b) \<and>
    (\<exists>k. wo_key w b = Some k \<and> base64 k = n_publicKey n)"
proof -
  obtain p where "assemble_route env p = Some h" "list_all (trusted_host env) p"
    using assms(2) by (auto simp: buildBackendConnection_def build_route good_route_def)
  from hop_trusted[OF this assms(4-6)] connect_trusted[OF assms(1,3-5)] show ?thesis by auto
qed

subsection \<open>Secrets are wiped\<close>

definition wiped :: "bytes list \<Rightarrow> bool" where
  "wiped bs \<longleftrightarrow> list_all (list_all (\<lambda>c. c = CHR 0x00)) bs"

lemma wiped_simps [simp]: "wiped []" "wiped (zeros b # bs) = wiped bs" "wiped (as @ bs) = (wiped as \<and> wiped bs)"
  by (auto simp: wiped_def zeros_def list_all_iff)






text \<open>An inventory of one host behind another, and a world in which everything works.\<close>

definition gateway_request :: connection where
  "gateway_request = Connection False AuthPassword [] RequireTrusted ''gate'' None (Some ''ssh-ed25519'') (Some (base64 ''K''))
     ''pw'' [] (Finite 22) [] Ssh None ''ops''"

definition inner_request :: connection where
  "inner_request = Connection False AuthPrivateKey [] RequireTrusted ''inner'' (Some gateway_request) (Some ''ssh-ed25519'')
     (Some (base64 ''L'')) [] ''phrase'' (Finite 22) ''~/.ssh/id'' Ssh None ''ops''"

definition fine_world :: ssh_world where
  "fine_world = \<lparr>wo_agentSocket = None, wo_lossy = id, wo_read = (\<lambda>_. Inr ''KEY''), wo_store = (\<lambda>_. \<lparr>sa_lock = None, sa_read = False, sa_dir = False, sa_open = False, sa_tail = False,
        sa_write = Some 1000, sa_sync = False, sa_release = False\<rparr>),
     wo_key = (\<lambda>h. Some (if bc_hostname h = ''gate'' then ''K'' else ''L'')),
     wo_outcome = (\<lambda>h accepted cr. if accepted then None
        else Some \<lparr>te_rejected = False, te_level = Some ''handshake'', te_message = ''Host denied (verification failed)''\<rparr>),
     wo_forward = (\<lambda>_. None)\<rparr>"

definition quiet_state :: ssh_state where
  "quiet_state = \<lparr>st_buffers = [], st_store = Missing, st_clients = [], st_stages = []\<rparr>"

definition keyed_env :: connection_env where
  "keyed_env = demo_env\<lparr>ce_knownHosts := map (\<lambda>n. n\<lparr>n_publicKey := base64 ''K''\<rparr>) sampleKnownHosts\<rparr>"

theorem connected_route_is_trusted_witness:
  "\<exists>n \<in> set (ce_knownHosts keyed_env). n_hostname n = ''bastion.acme.internal'' \<and>
     (\<exists>k. wo_key (fine_world\<lparr>wo_key := (\<lambda>_. Some ''K'')\<rparr>) (assemble keyed_env (hd sampleHosts) None) = Some k \<and>
       base64 k = n_publicKey n)"
proof -
  let ?w = "fine_world\<lparr>wo_key := (\<lambda>_. Some ''K'')\<rparr>" and ?h = "assemble keyed_env (hd sampleHosts) None"
  have w: "refuses_unverified ?w" by (simp add: refuses_unverified_def fine_world_def)
  have b: "buildBackendConnection keyed_env (hd sampleHosts) = Inr ?h"
    unfolding buildBackendConnection_def
    by (subst buildBackendConnectionRecursive.simps)
      (simp add: needs_jump_def known_of_def findKnownHostMatch_def number_eq_def keyed_env_def demo_env_def sampleHosts_def
        sampleKnownHosts_def)
  have f: "bc_hostKeyPolicy ?h = RequireTrusted \<and> hostSupportsTrustedKeys (bc_protocol ?h) \<and>
      bc_hostname ?h = ''bastion.acme.internal'' \<and> fst (connectClient ?w ?h quiet_state) = Inr 0"
    by code_simp
  then obtain s' where c: "connectClient ?w ?h quiet_state = (Inr 0, s')" by (metis prod.collapse)
  have "?h \<in> set (hops ?h)" by (simp add: hops_eq[of ?h])
  from connected_route_is_trusted[OF w b c this] f show ?thesis by auto
qed

text \<open>
  When the jump host cannot be reached, the secrets of the host behind it are left in memory: the bytes of
  its private key and its passphrase are never overwritten.
\<close>

lemma failed_jump_keeps_secrets:
  "let (r, s') = connectClient (fine_world\<lparr>wo_forward := (\<lambda>_. Some ''refused'')\<rparr>) inner_request quiet_state in
   r = Inl (Forward_refused ''refused'') \<and> st_buffers s' = [''KEY'', ''phrase'', zeros ''pw'']"
  by code_simp

subsection \<open>Clients\<close>

text \<open>The clients of one connection: each is opened through the one before it.\<close>

definition client_chain :: "nat \<Rightarrow> nat \<Rightarrow> ssh_client list" where
  "client_chain n m = map (\<lambda>k. \<lparr>cl_jump = (if k = 0 then None else Some (n + k - 1)), cl_open = True\<rparr>) [0..<m]"

lemma client_chain_Suc:
  "client_chain n (Suc m) = client_chain n m @ [\<lparr>cl_jump = (if m = 0 then None else Some (n + m - 1)), cl_open = True\<rparr>]"
  by (simp add: client_chain_def)

lemma length_client_chain [simp]: "length (client_chain n m) = m"
  by (simp add: client_chain_def)

definition shut :: "ssh_client \<Rightarrow> ssh_client" where
  "shut c = c\<lparr>cl_open := False\<rparr>"

lemma end_chain:
  assumes "length cs = n"
  shows "end_clients (n + m) (cs @ client_chain n (Suc m) @ rest) = cs @ map shut (client_chain n (Suc m)) @ rest"
proof (induction m arbitrary: rest)
  case 0
  have c: "client_chain k (Suc 0) = [\<lparr>cl_jump = None, cl_open = True\<rparr>]" for k by (simp add: client_chain_def)
  show ?case unfolding c assms[symmetric]
    by (subst end_clients.simps) (simp add: shut_def Let_def nth_append list_update_append)
next
  case (Suc m)
  let ?c = "\<lparr>cl_jump = Some (n + m), cl_open = True\<rparr>"
  have c: "client_chain n (Suc (Suc m)) = client_chain n (Suc m) @ [?c]" by (subst client_chain_Suc) simp
  have len: "n + Suc m = length (cs @ client_chain n (Suc m))" using assms by simp
  have nth: "(cs @ client_chain n (Suc (Suc m)) @ rest) ! (n + Suc m) = ?c"
    unfolding c len by (simp only: append_assoc[symmetric] nth_append_length append.simps) (simp add: nth_append)
  have upd: "(cs @ client_chain n (Suc (Suc m)) @ rest)[n + Suc m := shut ?c] = cs @ client_chain n (Suc m) @ (shut ?c # rest)"
    unfolding c len by (simp add: list_update_append)
  have "end_clients (n + Suc m) (cs @ client_chain n (Suc (Suc m)) @ rest) =
      end_clients (n + m) (cs @ client_chain n (Suc m) @ (shut ?c # rest))"
    by (subst end_clients.simps) (use assms nth upd in \<open>simp add: shut_def Let_def\<close>)
  also have "\<dots> = cs @ map shut (client_chain n (Suc m)) @ (shut ?c # rest)" by (rule Suc.IH)
  finally show ?case unfolding c by simp
qed

text \<open>What the call leaves behind: on success the chain of its hops, otherwise closed clients only.\<close>

definition connect_clients :: "nat \<Rightarrow> (connect_failure + nat) \<times> ssh_client list \<Rightarrow> ssh_client list \<Rightarrow> bool" where
  "connect_clients m q cs =
     (case q of
        (Inr i, cs') \<Rightarrow> i = length cs + m - 1 \<and> cs' = cs @ client_chain (length cs) m
      | (Inl _, cs') \<Rightarrow> \<exists>new. cs' = cs @ new \<and> list_all (\<lambda>c. \<not> cl_open c) new)"

lemma shut_closed: "list_all (\<lambda>c. \<not> cl_open c) (map shut cs)"
  by (simp add: list_all_iff shut_def)

lemma end_chain_closed:
  assumes "m > 0"
  shows "\<exists>new. end_clients (length cs + m - 1) (cs @ client_chain (length cs) m) = cs @ new \<and> list_all (\<lambda>c. \<not> cl_open c) new"
  using end_chain[of cs "length cs" "m - 1" "[]"] assms shut_closed by (auto intro!: exI[of _ "map shut (client_chain (length cs) m)"])

lemma finish_clients:
  assumes "finish_connect w h cfg cs jump s = (r, s')"
    and "st_clients s = ks @ client_chain (length ks) m" "jump = (if m = 0 then None else Some (length ks + m - 1))"
  shows "connect_clients (Suc m) (r, st_clients s') ks"
proof (cases r)
  case (Inr i)
  then show ?thesis using assms by (auto simp: finish_connect_def waitForSshReady_def Let_def connect_clients_def
      client_chain_Suc split: prod.splits option.splits sum.splits)
next
  case (Inl e)
  then have "st_clients s' = (case jump of None \<Rightarrow> st_clients s | Some j \<Rightarrow> end_clients j (st_clients s))"
    using assms(1) by (auto simp: finish_connect_def waitForSshReady_def Let_def end_client_def
        split: prod.splits option.splits sum.splits)
  then show ?thesis using Inl assms(2,3) end_chain_closed[of m ks] by (auto simp: connect_clients_def client_chain_def)
qed

lemma connectClient_clients:
  assumes "connectClient w h s = (r, s')"
  shows "connect_clients (length (hops h)) (r, st_clients s') (st_clients s)"
  using assms
proof (induction w h s arbitrary: r s' rule: connectClient.induct)
  case (1 w h s)
  from "1.prems" show ?case
  proof (cases rule: connectClient_cases)
    case (config e)
    then show ?thesis using createConnectConfig_clients[OF config(1)] by (simp add: connect_clients_def)
  next
    case (direct cfg cs s1)
    then show ?thesis using createConnectConfig_clients[OF direct(1)] hops_eq[of h]
        finish_clients[OF direct(3), of "st_clients s" 0] by (simp add: client_chain_def)
  next
    case (no_jump cfg cs s1 j q s2 e)
    then have c: "connect_clients (length (hops j)) (q, st_clients s2) (st_clients s)"
      using "1.IH"[OF no_jump(1)[symmetric] refl refl no_jump(2,3)] createConnectConfig_clients[OF no_jump(1)] by simp
    have "length (hops j) > 0" using hops_eq[of j] by simp
    with c no_jump(4,5) end_chain_closed[of "length (hops j)" "st_clients s"] show ?thesis
      by (auto simp: openJumpSocket_cases connect_clients_def end_client_def split: sum.splits)
  next
    case (through cfg cs s1 j i' s2)
    then have c: "connect_clients (length (hops j)) (Inr i', st_clients s2) (st_clients s)"
      using "1.IH"[OF through(1)[symmetric] refl refl through(2,3)] createConnectConfig_clients[OF through(1)] by simp
    have "length (hops j) > 0" using hops_eq[of j] by simp
    with c finish_clients[OF through(5), of "st_clients s" "length (hops j)"] through(2) hops_eq[of h] show ?thesis
      by (auto simp: connect_clients_def)
  qed
qed

text \<open>C10: A connection that fails, at whatever hop and stage, leaves no client open; one that succeeds
  opens one client for each hop, and ending the client it returns closes all of them and no other.\<close>

theorem connect_leaks_no_client:
  "case connectClient w h s of
     (Inl _, s') \<Rightarrow> \<exists>new. st_clients s' = st_clients s @ new \<and> list_all (\<lambda>c. \<not> cl_open c) new
   | (Inr i, s') \<Rightarrow> (\<exists>new. st_clients s' = st_clients s @ new \<and> list_all cl_open new \<and> length new = length (hops h)) \<and>
       (\<exists>new. st_clients (end_client i s') = st_clients s @ new \<and> list_all (\<lambda>c. \<not> cl_open c) new)"
proof -
  obtain r s' where c: "connectClient w h s = (r, s')" by fastforce
  have "length (hops h) > 0" using hops_eq[of h] by simp
  with connectClient_clients[OF c] end_chain_closed[of "length (hops h)" "st_clients s"] c show ?thesis
    by (cases r) (auto simp: connect_clients_def end_client_def list_all_iff client_chain_def)
qed

end
