(* ===== verification/ServerKeys.thy ===== *)
theory ServerKeys
  imports SshConfigServer BackendShell HostKeys Launch
begin

section \<open>Keys and host keys on the backend (\<open>server/backend.mjs\<close>, \<open>server/backend-files.mjs\<close>)\<close>

text \<open>
  Making, importing and inspecting private keys, scanning the keys of a host, and the file helpers behind
  them. The state is the files, each with its bytes and its mode, and every program that was run, with its
  arguments and the variables set for it. What the programs and the operating system answer is an argument.
\<close>

subsection \<open>Files\<close>

type_synonym key_files = "(bytes \<times> nat) obj"

record key_run =
  kr_command :: string
  kr_args :: "string list"
  kr_env :: "(string \<times> string) list"

record key_state =
  ks_files :: key_files
  ks_runs :: "key_run list"

text \<open>
  The answers to one operation. A write that fails has stored some of the bytes (\<open>Some n\<close>);
  \<open>kw_stat\<close> is an error other than a missing file.
\<close>

record key_world =
  kw_home :: string
  kw_mkdir :: bool
  kw_stat :: "string option"
  kw_open :: bool
  kw_store :: "nat option"
  kw_close :: bool
  kw_session :: "string option"
  kw_store_pass :: "nat option"
  kw_store_script :: "nat option"
  kw_zero :: bool
  kw_unlink_pass :: bool
  kw_unlink_script :: bool
  kw_keygen :: "key_run \<Rightarrow> key_files \<Rightarrow> string + bytes \<times> bytes"
  kw_list :: "string \<Rightarrow> string + string"

definition PRIVATE_KEY_EXISTS_MESSAGE :: string where
  "PRIVATE_KEY_EXISTS_MESSAGE = ''Target private key path already exists''"

text \<open>The permission bits \<open>0600\<close> and \<open>0700\<close>.\<close>

definition MODE_0600 :: nat where "MODE_0600 = 6 * 64"
definition MODE_0700 :: nat where "MODE_0700 = 7 * 64"

definition put_file :: "string \<Rightarrow> bytes \<Rightarrow> nat \<Rightarrow> key_state \<Rightarrow> key_state" where
  "put_file p b mode s = s\<lparr>ks_files := obj_set p (b, mode) (ks_files s)\<rparr>"

definition stored :: "nat option \<Rightarrow> bytes \<Rightarrow> bytes" where
  "stored failed b = (case failed of None \<Rightarrow> b | Some n \<Rightarrow> take n b)"

text \<open>The exclusive create refuses whatever is there.\<close>

definition writeNewPrivateFile :: "key_world \<Rightarrow> string \<Rightarrow> string \<Rightarrow> key_state \<Rightarrow> (string + unit) \<times> key_state" where
  "writeNewPrivateFile w p content s =
     (if obj_get (ks_files s) p \<noteq> None then (Inl PRIVATE_KEY_EXISTS_MESSAGE, s)
      else if \<not> kw_open w then (Inl ''open'', s)
      else let s' = put_file p (stored (kw_store w) (utf8_encode content)) MODE_0600 s in
        (if kw_store w \<noteq> None then Inl ''write'' else if \<not> kw_close w then Inl ''close'' else Inr (), s'))"

text \<open>A file as its descriptor sees it.\<close>

record opened_file =
  of_stat :: "(bool \<times> nat) option"
  of_read :: "bytes option"

definition readBoundedRegularFile :: "(bytes \<Rightarrow> string) \<Rightarrow> nat \<Rightarrow> opened_file option \<Rightarrow> string option" where
  "readBoundedRegularFile lossy maxBytes f =
     (case f of None \<Rightarrow> None
      | Some h \<Rightarrow>
          (case of_stat h of None \<Rightarrow> None
           | Some (regular, n) \<Rightarrow>
               if \<not> regular \<or> maxBytes < n then None
               else (case of_read h of None \<Rightarrow> None
                 | Some content \<Rightarrow> if maxBytes < length content then None else Some (text_of lossy content))))"

subsection \<open>Inspecting a key\<close>

definition normalizeKeyAlgorithm :: "string \<Rightarrow> string" where
  "normalizeKeyAlgorithm v =
     (if contains ''ed25519'' (lower v) then ''ED25519''
      else if contains ''ecdsa'' (lower v) then ''ECDSA''
      else if contains ''rsa'' (lower v) then ''RSA''
      else ''UNKNOWN'')"

record inspected_key =
  ik_algorithm :: string
  ik_bits :: "int number"
  ik_fingerprint :: string
  ik_comment :: string
  ik_privateKeyPath :: string
  ik_publicKeyPath :: "string option"

text \<open>
  The pattern of a summary, \<open>bits fingerprint comment (type)\<close>: the comment is as short as possible, stays
  on one line and may start with white space when nothing else fits.
\<close>

definition match_type :: "string \<Rightarrow> string option" where
  "match_type u =
     (case dropWhile is_space u of
        c # v \<Rightarrow> let inner = butlast v in
          if is_space (hd u) \<and> c = CHR ''('' \<and> v \<noteq> [] \<and> last v = CHR '')'' \<and> inner \<noteq> [] \<and> CHR '')'' \<notin> set inner
          then Some inner else None
      | [] \<Rightarrow> None)"

definition match_comment :: "string \<Rightarrow> (string \<times> string) option" where
  "match_comment u =
     (let spaces = length (takeWhile is_space u);
          tries = concat (map (\<lambda>k. map (\<lambda>n. (k, n)) [1..<length u]) (rev [1..<Suc spaces]));
          fits = (\<lambda>(k, n). list_all (\<lambda>c. c \<noteq> CHR 0x0A \<and> c \<noteq> CHR 0x0D) (take n (drop k u)) \<and>
             k + n < length u \<and> match_type (drop (k + n) u) \<noteq> None)
      in case List.find fits tries of
           None \<Rightarrow> None
         | Some (k, n) \<Rightarrow> map_option (\<lambda>t. (take n (drop k u), t)) (match_type (drop (k + n) u)))"

definition match_summary :: "string \<Rightarrow> (string \<times> string \<times> string \<times> string) option" where
  "match_summary s =
     (let bits = takeWhile digit s; a = drop (length bits) s;
          b = dropWhile is_space a; fingerprint = takeWhile (\<lambda>c. \<not> is_space c) b; u = drop (length fingerprint) b
      in if bits = [] \<or> a = b \<or> fingerprint = [] then None
         else map_option (\<lambda>(comment, type). (bits, fingerprint, comment, type)) (match_comment u))"

definition public_path :: "string \<Rightarrow> string" where
  "public_path p = p @ ''.pub''"

definition run_program :: "string \<Rightarrow> string list \<Rightarrow> (string \<times> string) list \<Rightarrow> key_state \<Rightarrow> key_state" where
  "run_program command args env s = s\<lparr>ks_runs := ks_runs s @ [\<lparr>kr_command = command, kr_args = args, kr_env = env\<rparr>]\<rparr>"

definition SSH_KEYGEN :: string where "SSH_KEYGEN = ''/usr/bin/ssh-keygen''"

definition inspectKey :: "key_world \<Rightarrow> string \<Rightarrow> key_state \<Rightarrow> (string + inspected_key) \<times> key_state" where
  "inspectKey w pathname s =
     (let p = expandHome (kw_home w) pathname in
      if obj_get (ks_files s) p = None then (Inl ''ENOENT'', s)
      else let s1 = run_program SSH_KEYGEN [''-lf'', p] [] s in
        case kw_list w p of
          Inl e \<Rightarrow> (Inl e, s1)
        | Inr stdout \<Rightarrow>
            let m = match_summary (trim stdout) in
            (Inr \<lparr>ik_algorithm = normalizeKeyAlgorithm (case m of Some (_, _, _, t) \<Rightarrow> t | None \<Rightarrow> ''UNKNOWN''),
               ik_bits = or_number (case m of Some (b, _) \<Rightarrow> parse_int b | None \<Rightarrow> Finite 0) (Finite 0),
               ik_fingerprint = (case m of Some (_, f, _) \<Rightarrow> f | None \<Rightarrow> []),
               ik_comment = (case m of Some (_, _, c, _) \<Rightarrow> c | None \<Rightarrow> posix_basename p),
               ik_privateKeyPath = p,
               ik_publicKeyPath = (if obj_get (ks_files s) (public_path p) \<noteq> None then Some (public_path p) else None)\<rparr>, s1))"

subsection \<open>Making a key\<close>

record keygen_request =
  kq_comment :: string
  kq_passphrase :: string
  kq_path :: string
  kq_type :: string

definition keygen_args :: "string \<Rightarrow> string \<Rightarrow> string \<Rightarrow> string list" where
  "keygen_args type p comment =
     [''-q'', ''-t'', type] @
     (if type = ''rsa'' then [''-b'', ''4096''] else if type = ''ecdsa'' then [''-b'', ''521''] else []) @
     [''-f'', p, ''-C'', comment]"

definition pass_path :: "string \<Rightarrow> string" where "pass_path dir = join_normalized dir ''pass''"
definition askpass_path :: "string \<Rightarrow> string" where "askpass_path dir = join_normalized dir ''askpass.sh''"

definition askpass_script :: "string \<Rightarrow> string" where
  "askpass_script dir = ''#!/bin/sh'' @ [newline_char] @ ''exec /bin/cat -- '' @ shellSingleQuote (Some (pass_path dir)) @ [newline_char]"

definition askpass_env :: "string \<Rightarrow> (string \<times> string) list" where
  "askpass_env dir = [(''SSH_ASKPASS'', askpass_path dir), (''SSH_ASKPASS_REQUIRE'', ''force''), (''DISPLAY'', '':0'')]"

text \<open>The program writes the two files of the key when it succeeds.\<close>

definition ssh_keygen ::
    "key_world \<Rightarrow> string \<Rightarrow> string list \<Rightarrow> (string \<times> string) list \<Rightarrow> key_state \<Rightarrow> (string + unit) \<times> key_state" where
  "ssh_keygen w p args env s =
     (let s1 = run_program SSH_KEYGEN args env s in
      case kw_keygen w \<lparr>kr_command = SSH_KEYGEN, kr_args = args, kr_env = env\<rparr> (ks_files s) of
        Inl e \<Rightarrow> (Inl e, s1)
      | Inr (private, public) \<Rightarrow> (Inr (), put_file (public_path p) public (6 * 64 + 4 * 8 + 4) (put_file p private MODE_0600 s1)))"

text \<open>The clean-up runs in any case, and each of its steps may fail without stopping the next.\<close>

definition scrub_session :: "key_world \<Rightarrow> string \<Rightarrow> string \<Rightarrow> key_state \<Rightarrow> key_state" where
  "scrub_session w dir passphrase s =
     (let s1 = (if kw_zero w then put_file (pass_path dir) (replicate (length passphrase) (CHR 0x00)) MODE_0600 s else s);
          s2 = (if kw_unlink_pass w then s1\<lparr>ks_files := obj_del (pass_path dir) (ks_files s1)\<rparr> else s1)
      in if kw_unlink_script w then s2\<lparr>ks_files := obj_del (askpass_path dir) (ks_files s2)\<rparr> else s2)"

definition keygen_with_askpass ::
    "key_world \<Rightarrow> string \<Rightarrow> string \<Rightarrow> string list \<Rightarrow> string \<Rightarrow> key_state \<Rightarrow> (string + unit) \<times> key_state" where
  "keygen_with_askpass w dir p args passphrase s =
     (let s1 = put_file (pass_path dir) (stored (kw_store_pass w) (utf8_encode passphrase)) MODE_0600 s;
          (r, s') =
            (if kw_store_pass w \<noteq> None then (Inl ''write'', s1)
             else let s2 = put_file (askpass_path dir) (stored (kw_store_script w) (utf8_encode (askpass_script dir))) MODE_0700 s1 in
               if kw_store_script w \<noteq> None then (Inl ''write'', s2) else ssh_keygen w p args (askpass_env dir) s2)
      in (r, scrub_session w dir passphrase s'))"

definition inspect_made :: "key_world \<Rightarrow> string \<Rightarrow> (string + unit) \<times> key_state \<Rightarrow> (string + inspected_key) \<times> key_state" where
  "inspect_made w p r = (case r of (Inl e, s) \<Rightarrow> (Inl e, s) | (Inr _, s) \<Rightarrow> inspectKey w p s)"

definition generateKeyPair :: "key_world \<Rightarrow> keygen_request \<Rightarrow> key_state \<Rightarrow> (string + inspected_key) \<times> key_state" where
  "generateKeyPair w q s =
     (let p = expandHome (kw_home w) (kq_path q); args = keygen_args (kq_type q) p (kq_comment q) in
      if \<not> kw_mkdir w then (Inl ''mkdir'', s)
      else if kw_stat w \<noteq> None then (Inl (the (kw_stat w)), s)
      else if obj_get (ks_files s) p \<noteq> None then (Inl PRIVATE_KEY_EXISTS_MESSAGE, s)
      else if kq_passphrase q = [] then inspect_made w p (ssh_keygen w p (args @ [''-N'', '''']) [] s)
      else case kw_session w of
        None \<Rightarrow> (Inl ''mkdtemp'', s)
      | Some dir \<Rightarrow> inspect_made w p (keygen_with_askpass w dir p args (kq_passphrase q) s))"

subsection \<open>Importing a key\<close>

text \<open>Line ends become line feeds, and the text gets exactly one at its end.\<close>

fun unix_lines :: "string \<Rightarrow> string" where
  "unix_lines [] = []"
| "unix_lines [c] = [if c = CHR 0x0D then newline_char else c]"
| "unix_lines (c # d # s) =
     (if c = CHR 0x0D then if d = newline_char then newline_char # unix_lines s else newline_char # unix_lines (d # s)
      else c # unix_lines (d # s))"

definition one_final_newline :: "string \<Rightarrow> string" where
  "one_final_newline s = rev (dropWhile (\<lambda>c. c = newline_char) (rev s)) @ [newline_char]"

definition normalized_body :: "string \<Rightarrow> string" where
  "normalized_body body = one_final_newline (unix_lines body)"

definition importPrivateKeyFromBody ::
    "key_world \<Rightarrow> string option \<Rightarrow> string option \<Rightarrow> key_state \<Rightarrow> (string + inspected_key) \<times> key_state" where
  "importPrivateKeyFromBody w path body s =
     (if \<not> truthy path then (Inl ''A destination path is required.'', s)
      else if \<not> truthy body \<or> trim (coalesce body []) = [] then (Inl ''A key body is required.'', s)
      else let p = expandHome (kw_home w) (coalesce path []) in
        if \<not> kw_mkdir w then (Inl ''mkdir'', s)
        else inspect_made w p (writeNewPrivateFile w p (normalized_body (coalesce body [])) s))"

subsection \<open>Scanning a host\<close>

text \<open>
  \<open>digest\<close> is the base64 text of the SHA-256 hash of the bytes that a public key stands for; the padding is
  cut off. The output of the program is an argument.
\<close>

definition strip_padding :: "string \<Rightarrow> string" where
  "strip_padding d = rev (dropWhile (\<lambda>c. c = CHR ''='') (rev d))"

definition scan_args :: "string \<Rightarrow> int number \<Rightarrow> string list" where
  "scan_args hostname port = [''-p'', show_number port, ''-T'', ''5'', hostname]"

definition scan_line :: "(string \<Rightarrow> string) \<Rightarrow> string \<Rightarrow> int number \<Rightarrow> string \<Rightarrow> scan_result option" where
  "scan_line digest hostname port line =
     (case split_words line of
        scanned # algorithm # publicKey # _ \<Rightarrow>
          Some \<lparr>sc_hostname = hostname, sc_port = port, sc_algorithm = algorithm, sc_publicKey = publicKey,
            sc_fingerprint = ''SHA256:'' @ strip_padding (digest publicKey)\<rparr>
      | _ \<Rightarrow> None)"

definition scanKnownHost ::
    "(string \<Rightarrow> string) \<Rightarrow> (string list \<Rightarrow> string + string) \<Rightarrow> string \<Rightarrow> int number \<Rightarrow> string + scan_result list" where
  "scanKnownHost digest keyscan hostname port =
     (case keyscan (scan_args hostname port) of
        Inl e \<Rightarrow> Inl e
      | Inr stdout \<Rightarrow>
          let lines' = filter (\<lambda>l. l \<noteq> [] \<and> \<not> starts_with ''#'' l) (map trim (split_on newline_char stdout));
              entries = List.map_filter (scan_line digest hostname port) lines'
          in if entries = [] then Inl ''No host keys returned from ssh-keyscan'' else Inr entries)"

text \<open>What a scan returns names the address that was asked for, so a launch may offer it to the user.\<close>

lemma scan_echoes_request:
  assumes "scanKnownHost digest keyscan (h_hostname h) (h_port h) = Inr es"
  shows "es \<noteq> [] \<and> list_all (\<lambda>e. echoes e h) es"
  using assms by (auto simp: scanKnownHost_def Let_def List.map_filter_def scan_line_def echoes_def list_all_iff
      split: sum.splits if_splits list.splits)

lemma scan_step:
  assumes "(h, Scanning) \<in> set (lx_flights s)" "scanKnownHost digest keyscan (h_hostname h) (h_port h) = Inr es"
  shows "launch_step s (scan_answered env h (Some es) s)"
  using scan_echoes_request[OF assms(2)] assms(1) by (intro launch_step.scan) (simp_all add: coalesce_def)

subsection \<open>Bodies of imported keys\<close>

lemma unix_lines_no_cr: "CHR 0x0D \<notin> set (unix_lines s)"
  by (induction s rule: unix_lines.induct) (auto simp: newline_char_def)

lemma normalized_body_form:
  "\<exists>t. normalized_body body = t @ [newline_char] \<and> (t \<noteq> [] \<longrightarrow> last t \<noteq> newline_char) \<and> CHR 0x0D \<notin> set t"
proof (intro exI conjI)
  let ?t = "rev (dropWhile (\<lambda>c. c = newline_char) (rev (unix_lines body)))"
  show "normalized_body body = ?t @ [newline_char]" by (simp add: normalized_body_def one_final_newline_def)
  show "?t \<noteq> [] \<longrightarrow> last ?t \<noteq> newline_char"     using hd_dropWhile[of "\<lambda>c. c = newline_char" "rev (unix_lines body)"] by (simp add: last_rev)
  show "CHR 0x0D \<notin> set ?t" using unix_lines_no_cr[of body] by (auto dest: set_dropWhileD)
qed

lemma normalized_body_idem: "normalized_body (normalized_body body) = normalized_body body"
proof -
  obtain t where t: "normalized_body body = t @ [newline_char]" "t \<noteq> [] \<longrightarrow> last t \<noteq> newline_char" "CHR 0x0D \<notin> set t"
    using normalized_body_form by blast
  have "unix_lines u = u" if "CHR 0x0D \<notin> set u" for u using that
    by (induction u rule: unix_lines.induct) auto
  then have "unix_lines (t @ [newline_char]) = t @ [newline_char]" using t(3) by (simp add: newline_char_def)
  moreover have "dropWhile (\<lambda>c. c = newline_char) (rev t) = rev t" using t(2) by (cases t rule: rev_cases) auto
  ultimately show ?thesis unfolding t(1) by (simp add: normalized_body_def one_final_newline_def)
qed

text \<open>What is no line end is kept, in its order.\<close>

definition line_end :: "char \<Rightarrow> bool" where
  "line_end c \<longleftrightarrow> c = newline_char \<or> c = CHR 0x0D"

lemma unix_lines_keeps: "filter (\<lambda>c. \<not> line_end c) (unix_lines s) = filter (\<lambda>c. \<not> line_end c) s"
  by (induction s rule: unix_lines.induct) (auto simp: line_end_def)

lemma one_final_newline_split:
  "\<exists>t n. s = t @ replicate n newline_char \<and> one_final_newline s = t @ [newline_char] \<and> (t \<noteq> [] \<longrightarrow> last t \<noteq> newline_char)"
proof -
  let ?t = "rev (dropWhile (\<lambda>c. c = newline_char) (rev s))" and ?e = "takeWhile (\<lambda>c. c = newline_char) (rev s)"
  have "?e = replicate (length ?e) newline_char" by (rule replicate_eqI) (auto dest: set_takeWhileD)
  then have "rev ?e = replicate (length ?e) newline_char" by (metis rev_replicate)
  moreover have "s = ?t @ rev ?e" by (metis rev_append rev_rev_ident takeWhile_dropWhile_id)
  moreover have "last ?t \<noteq> newline_char" if "?t \<noteq> []" using that hd_dropWhile[of "\<lambda>c. c = newline_char" "rev s"] by (simp add: last_rev)
  ultimately show ?thesis unfolding one_final_newline_def by metis
qed

text \<open>C15: An import creates the file of the key or does nothing: a file that exists is never opened, and no
  other file changes. When the import succeeds, the path was free and now holds the body that was given, with
  plain line ends and exactly one at its end, readable by its owner only: the body's line ends were made plain
  and those at its end replaced by one, and every other character is kept in its place.\<close>

theorem import_never_overwrites:
  "case importPrivateKeyFromBody w path body s of (r, s') \<Rightarrow>
     (\<forall>q. obj_get (ks_files s) q \<noteq> None \<longrightarrow> obj_get (ks_files s') q = obj_get (ks_files s) q) \<and>
     (\<forall>q. q \<noteq> expandHome (kw_home w) (coalesce path []) \<longrightarrow> obj_get (ks_files s') q = obj_get (ks_files s) q) \<and>
     (\<forall>k. r = Inr k \<longrightarrow> (\<exists>t. obj_get (ks_files s) (expandHome (kw_home w) (coalesce path [])) = None \<and>
        obj_get (ks_files s') (expandHome (kw_home w) (coalesce path [])) = Some (utf8_encode (t @ [newline_char]), MODE_0600) \<and>
        (t \<noteq> [] \<longrightarrow> last t \<noteq> newline_char) \<and> CHR 0x0D \<notin> set t \<and>
        (\<exists>n. unix_lines (coalesce body []) = t @ replicate n newline_char) \<and>
        filter (\<lambda>c. \<not> line_end c) t = filter (\<lambda>c. \<not> line_end c) (coalesce body [])))"
proof -
  let ?p = "expandHome (kw_home w) (coalesce path [])" and ?b = "normalized_body (coalesce body [])"
  have inspect: "ks_files (snd (inspectKey w q t)) = ks_files t" for q t
    by (simp add: inspectKey_def Let_def run_program_def split: sum.splits)
  have written: "writeNewPrivateFile w ?p ?b s = (Inr (), put_file ?p (utf8_encode ?b) MODE_0600 s)"
    if "obj_get (ks_files s) ?p = None" "kw_open w" "kw_store w = None" "kw_close w"
    using that by (simp add: writeNewPrivateFile_def stored_def Let_def)
  show ?thesis
  proof (cases "truthy path \<and> truthy body \<and> trim (coalesce body []) \<noteq> [] \<and> kw_mkdir w")
    case False
    then show ?thesis by (auto simp: importPrivateKeyFromBody_def Let_def)
  next
    case True
    then have i: "importPrivateKeyFromBody w path body s = inspect_made w ?p (writeNewPrivateFile w ?p ?b s)"
      by (simp add: importPrivateKeyFromBody_def Let_def)
    show ?thesis
    proof (cases "obj_get (ks_files s) ?p = None \<and> kw_open w \<and> kw_store w = None \<and> kw_close w")
      case True
      then have "importPrivateKeyFromBody w path body s = inspectKey w ?p (put_file ?p (utf8_encode ?b) MODE_0600 s)"
        unfolding i by (simp add: written inspect_made_def)
      moreover obtain t n where t: "unix_lines (coalesce body []) = t @ replicate n newline_char" "?b = t @ [newline_char]"
          "t \<noteq> [] \<longrightarrow> last t \<noteq> newline_char"
        using one_final_newline_split[of "unix_lines (coalesce body [])"] unfolding normalized_body_def by blast
      moreover have "CHR 0x0D \<notin> set t"
        using normalized_body_form[of "coalesce body []"] t(2) by (metis append1_eq_conv)
      moreover have "filter (\<lambda>c. \<not> line_end c) t = filter (\<lambda>c. \<not> line_end c) (coalesce body [])"
        using unix_lines_keeps[of "coalesce body []"] unfolding t(1) by (simp add: line_end_def)
      ultimately show ?thesis using True inspect[of ?p "put_file ?p (utf8_encode ?b) MODE_0600 s"]
        by (auto simp: put_file_def obj_get_set split: prod.split intro!: exI[of _ t])
    next
      case False
      then show ?thesis unfolding i
        by (auto simp: writeNewPrivateFile_def inspect_made_def put_file_def obj_get_set Let_def split: prod.split)
    qed
  qed
qed

subsection \<open>The passphrase\<close>

text \<open>What is run to make a key: it does not mention the passphrase.\<close>

definition keygen_run :: "string list \<Rightarrow> string \<Rightarrow> key_run" where
  "keygen_run args dir = \<lparr>kr_command = SSH_KEYGEN, kr_args = args, kr_env = askpass_env dir\<rparr>"

definition inspect_run :: "string \<Rightarrow> key_run" where
  "inspect_run p = \<lparr>kr_command = SSH_KEYGEN, kr_args = [''-lf'', p], kr_env = []\<rparr>"

lemma inspect_runs: "\<exists>new. ks_runs (snd (inspectKey w p s)) = ks_runs s @ new \<and> set new \<subseteq> {inspect_run (expandHome (kw_home w) p)}"
  by (auto simp: inspectKey_def Let_def run_program_def inspect_run_def split: sum.splits)

lemma scrub_session_runs [simp]: "ks_runs (scrub_session w dir pp s) = ks_runs s"
  by (simp add: scrub_session_def Let_def put_file_def)

lemma ssh_keygen_runs:
  "ks_runs (snd (ssh_keygen w p args env s)) = ks_runs s @ [\<lparr>kr_command = SSH_KEYGEN, kr_args = args, kr_env = env\<rparr>]"
  by (auto simp: ssh_keygen_def Let_def run_program_def put_file_def split: sum.splits prod.splits)

lemma askpass_runs:
  "\<exists>new. ks_runs (snd (keygen_with_askpass w dir p args pp s)) = ks_runs s @ new \<and> set new \<subseteq> {keygen_run args dir}"
proof (cases "kw_store_pass w = None \<and> kw_store_script w = None")
  case True
  let ?s = "put_file (askpass_path dir) (utf8_encode (askpass_script dir)) MODE_0700 (put_file (pass_path dir) (utf8_encode pp) MODE_0600 s)"
  have "ks_runs (snd (keygen_with_askpass w dir p args pp s)) = ks_runs (snd (ssh_keygen w p args (askpass_env dir) ?s))"
    using True by (simp add: keygen_with_askpass_def Let_def stored_def split: prod.split)
  then show ?thesis by (simp add: ssh_keygen_runs keygen_run_def put_file_def)
next
  case False
  then show ?thesis by (auto simp: keygen_with_askpass_def Let_def put_file_def)
qed

lemma inspect_made_runs:
  assumes "ks_runs (snd r) = ks_runs s @ new"
  shows "\<exists>new'. ks_runs (snd (inspect_made w p r)) = ks_runs s @ new @ new' \<and> set new' \<subseteq> {inspect_run (expandHome (kw_home w) p)}"
  using assms inspect_runs[of w p "snd r"] by (cases r) (auto simp: inspect_made_def split: sum.splits)

lemma inspectKey_files [simp]: "ks_files (snd (inspectKey w p s)) = ks_files s"
  by (simp add: inspectKey_def Let_def run_program_def split: sum.splits)

lemma inspect_made_files [simp]: "ks_files (snd (inspect_made w p r)) = ks_files (snd r)"
  by (auto simp: inspect_made_def split: prod.splits sum.splits)

lemma scrubbed_pass:
  assumes "kw_unlink_pass w \<or> kw_zero w" "obj_get (ks_files (scrub_session w dir pp s)) (pass_path dir) = Some (b, m)"
  shows "list_all (\<lambda>c. c = CHR 0x00) b"
  using assms by (auto simp: scrub_session_def Let_def put_file_def obj_get_del list_all_iff split: if_splits)

text \<open>C13: The passphrase of a new key is on no command line and in no variable: the programs that run, their
  arguments and the variables set for them are the same for every passphrase. And whatever fails on the
  way, the file that handed it over is gone or holds zeros afterwards, as long as one of removing and
  overwriting it works.\<close>

theorem passphrase_stays_private:
  assumes "kq_passphrase q \<noteq> []" "kw_session w = Some dir" "obj_get (ks_files s) (pass_path dir) = None"
    and "kw_unlink_pass w \<or> kw_zero w"
  shows "case generateKeyPair w q s of (r, s') \<Rightarrow>
     (\<exists>new. ks_runs s' = ks_runs s @ new \<and>
        set new \<subseteq> {keygen_run (keygen_args (kq_type q) (expandHome (kw_home w) (kq_path q)) (kq_comment q)) dir,
          inspect_run (expandHome (kw_home w) (expandHome (kw_home w) (kq_path q)))}) \<and>
     (\<forall>b m. obj_get (ks_files s') (pass_path dir) = Some (b, m) \<longrightarrow> list_all (\<lambda>c. c = CHR 0x00) b)"
proof -
  let ?p = "expandHome (kw_home w) (kq_path q)"
  let ?args = "keygen_args (kq_type q) ?p (kq_comment q)"
  show ?thesis
  proof (cases "kw_mkdir w \<and> kw_stat w = None \<and> obj_get (ks_files s) ?p = None")
    case False
    then show ?thesis using assms(3) by (auto simp: generateKeyPair_def Let_def)
  next
    case True
    define k where "k = keygen_with_askpass w dir ?p ?args (kq_passphrase q) s"
    have g: "generateKeyPair w q s = inspect_made w ?p k"
      using True assms(1,2) by (simp add: generateKeyPair_def Let_def k_def)
    obtain new where new: "ks_runs (snd k) = ks_runs s @ new" "set new \<subseteq> {keygen_run ?args dir}"
      using askpass_runs unfolding k_def by blast
    obtain new' where new': "ks_runs (snd (inspect_made w ?p k)) = ks_runs s @ new @ new'"
        "set new' \<subseteq> {inspect_run (expandHome (kw_home w) ?p)}"
      using inspect_made_runs[OF new(1)] by blast
    have runs: "\<exists>new. ks_runs (snd (inspect_made w ?p k)) = ks_runs s @ new \<and>
        set new \<subseteq> {keygen_run ?args dir, inspect_run (expandHome (kw_home w) ?p)}"
      using new(2) new' by (intro exI[of _ "new @ new'"]) auto
    have "\<exists>t. snd k = scrub_session w dir (kq_passphrase q) t"
      by (auto simp: k_def keygen_with_askpass_def Let_def split: prod.splits)
    then have "list_all (\<lambda>c. c = CHR 0x00) b" if "obj_get (ks_files (snd (inspect_made w ?p k))) (pass_path dir) = Some (b, m)" for b m
      using that scrubbed_pass[OF assms(4)] by auto
    with runs show ?thesis unfolding g by (auto split: prod.split simp del: inspect_made_files)
  qed
qed

definition key_world_example :: key_world where
  "key_world_example = \<lparr>kw_home = ''/home/u'', kw_mkdir = True, kw_stat = None, kw_open = True, kw_store = None, kw_close = True,
     kw_session = Some ''/tmp/termsnip-keygen-1'', kw_store_pass = None, kw_store_script = None, kw_zero = False,
     kw_unlink_pass = True, kw_unlink_script = True, kw_keygen = (\<lambda>_ _. Inr (''PRIVATE'', ''PUBLIC'')),
     kw_list = (\<lambda>_. Inr ''256 SHA256:abc me@box (ED25519)'')\<rparr>"

definition no_keys :: key_state where
  "no_keys = \<lparr>ks_files = [], ks_runs = []\<rparr>"

definition request_example :: keygen_request where
  "request_example = \<lparr>kq_comment = ''me@box'', kq_passphrase = ''secret'', kq_path = ''~/.ssh/id'', kq_type = ''ed25519''\<rparr>"

theorem import_never_overwrites_witness:
  "\<exists>t. obj_get (ks_files (snd (importPrivateKeyFromBody key_world_example (Some ''/home/u/id'') (Some [CHR ''K'', CHR 0x0D]) no_keys)))
     ''/home/u/id'' = Some (utf8_encode (t @ [newline_char]), MODE_0600) \<and> CHR 0x0D \<notin> set t"
proof -
  let ?r = "importPrivateKeyFromBody key_world_example (Some ''/home/u/id'') (Some [CHR ''K'', CHR 0x0D]) no_keys"
  have "case fst ?r of Inr _ \<Rightarrow> True | Inl _ \<Rightarrow> False" by code_simp
  then obtain k where k: "fst ?r = Inr k" by (auto split: sum.splits)
  have p: "expandHome (kw_home key_world_example) (coalesce (Some ''/home/u/id'') []) = ''/home/u/id''" by code_simp
  show ?thesis
    using import_never_overwrites[where w = key_world_example and path = "Some ''/home/u/id''" and
        body = "Some [CHR ''K'', CHR 0x0D]" and s = no_keys] k
    unfolding p by (auto split: prod.splits)
qed

text \<open>A whole run: both files of the key are there, nothing else is, and the summary was read.\<close>

lemma keygen_example:
  "let (r, s') = generateKeyPair key_world_example request_example no_keys in
   map fst (ks_files s') = [''/home/u/.ssh/id'', ''/home/u/.ssh/id.pub''] \<and> length (ks_runs s') = 2 \<and>
   (case r of Inr k \<Rightarrow> ik_bits k = Finite 256 \<and> ik_fingerprint k = ''SHA256:abc'' \<and> ik_comment k = ''me@box'' \<and>
      ik_algorithm k = ''ED25519'' \<and> ik_publicKeyPath k = Some ''/home/u/.ssh/id.pub'' | Inl _ \<Rightarrow> False)"
  by code_simp

theorem passphrase_stays_private_witness:
  "set (ks_runs (snd (generateKeyPair key_world_example request_example no_keys))) \<subseteq>
     {keygen_run (keygen_args ''ed25519'' ''/home/u/.ssh/id'' ''me@box'') ''/tmp/termsnip-keygen-1'', inspect_run ''/home/u/.ssh/id''}"
proof -
  have e: "expandHome ''/home/u'' ''~/.ssh/id'' = ''/home/u/.ssh/id''" "expandHome ''/home/u'' ''/home/u/.ssh/id'' = ''/home/u/.ssh/id''"
    by code_simp+
  show ?thesis
    using passphrase_stays_private[of request_example key_world_example "''/tmp/termsnip-keygen-1''" no_keys] e
    by (simp add: request_example_def key_world_example_def no_keys_def case_prod_beta' split: prod.splits)
qed

end
