(* ===== verification/ServerFiles.thy ===== *)
theory ServerFiles
  imports ServerConnect BackendPaths "HOL-Library.Word"
begin

section \<open>Remote files and static files (\<open>server/backend.mjs\<close>, \<open>server/backend-sftp.mjs\<close>, \<open>server/backend-static.mjs\<close>)\<close>

text \<open>
  The operations on remote files, each on a connection of its own that is ended in any case, the upload with
  its file handle and its deadline, the download's headers, and the files of the web interface. What the
  remote side and the file system answer is an argument. Modes are 32 bits wide.
\<close>

unbundle bit_operations_syntax

subsection \<open>Attributes\<close>

definition FILE_TYPE_MASK :: "32 word" where "FILE_TYPE_MASK = 0xF000"
definition DIRECTORY_TYPE :: "32 word" where "DIRECTORY_TYPE = 0x4000"
definition LINK_TYPE :: "32 word" where "LINK_TYPE = 0xA000"

definition isDirectory :: "32 word option \<Rightarrow> string \<Rightarrow> bool" where
  "isDirectory mode longname =
     (case mode of Some m \<Rightarrow> m AND FILE_TYPE_MASK = DIRECTORY_TYPE | None \<Rightarrow> starts_with ''d'' longname)"

definition isLink :: "32 word option \<Rightarrow> string \<Rightarrow> bool" where
  "isLink mode longname =
     (case mode of Some m \<Rightarrow> m AND FILE_TYPE_MASK = LINK_TYPE | None \<Rightarrow> starts_with ''l'' longname)"

text \<open>Three octal digits.\<close>

definition octal3 :: "nat \<Rightarrow> string" where
  "octal3 n = map digit_char [n div 64 mod 8, n div 8 mod 8, n mod 8]"

definition formatPermissions :: "32 word option \<Rightarrow> string option" where
  "formatPermissions mode = map_option (\<lambda>m. octal3 (unat (m AND 0x1FF))) mode"

text \<open>\<open>show_time\<close> formats milliseconds; the time stamps of the protocol are numbers.\<close>

definition toIsoTimestamp :: "(int \<Rightarrow> string) \<Rightarrow> int option \<Rightarrow> string option" where
  "toIsoTimestamp show_time seconds = map_option (\<lambda>s. show_time (s * 1000)) seconds"

subsection \<open>Listing a directory\<close>

record sftp_entry =
  sf_filename :: string
  sf_longname :: string
  sf_mode :: "32 word option"
  sf_size :: "nat option"
  sf_mtime :: "int option"

record listed_entry =
  li_name :: string
  li_path :: string
  li_directory :: bool
  li_size :: nat
  li_permissions :: "string option"
  li_modifiedAt :: "string option"
  li_linked :: bool

definition list_entry :: "(int \<Rightarrow> string) \<Rightarrow> string \<Rightarrow> sftp_entry \<Rightarrow> listed_entry" where
  "list_entry show_time target e = \<lparr>li_name = sf_filename e, li_path = resolveRemotePath (Some target) (Some (sf_filename e)),
     li_directory = isDirectory (sf_mode e) (sf_longname e), li_size = coalesce (sf_size e) 0,
     li_permissions = formatPermissions (sf_mode e), li_modifiedAt = toIsoTimestamp show_time (sf_mtime e),
     li_linked = isLink (sf_mode e) (sf_longname e)\<rparr>"

definition kind_order :: "listed_entry \<Rightarrow> listed_entry \<Rightarrow> int" where
  "kind_order l r = (if li_directory l = li_directory r then 0 else if li_directory l then -1 else 1)"

definition listing_order :: "(string \<Rightarrow> string \<Rightarrow> int) \<Rightarrow> listed_entry \<Rightarrow> listed_entry \<Rightarrow> int" where
  "listing_order lc l r = (if kind_order l r \<noteq> 0 then kind_order l r else lc (li_name l) (li_name r))"

definition listing :: "(int \<Rightarrow> string) \<Rightarrow> (string \<Rightarrow> string \<Rightarrow> int) \<Rightarrow> string \<Rightarrow> sftp_entry list \<Rightarrow> listed_entry list" where
  "listing show_time lc target entries =
     js_sort (listing_order lc)
       (map (list_entry show_time target) (filter (\<lambda>e. sf_filename e \<noteq> ''.'' \<and> sf_filename e \<noteq> ''..'') entries))"

subsection \<open>A connection for one operation\<close>

text \<open>
  \<open>withSftp\<close>: connect, open the channel, run the operation, and end the client whatever happened. The operation
  does not open connections itself.
\<close>

datatype 'a sftp_outcome = Connect_failed connect_failure | Channel_failed string | Operation_failed string | Sftp_ok 'a

definition withSftp ::
    "ssh_world \<Rightarrow> connection \<Rightarrow> string option \<Rightarrow> string + 'a \<Rightarrow> ssh_state \<Rightarrow> 'a sftp_outcome \<times> ssh_state" where
  "withSftp w h channel operation s =
     (case connectClient w h s of
        (Inl e, s1) \<Rightarrow> (Connect_failed e, s1)
      | (Inr i, s1) \<Rightarrow>
          (case channel of
             Some e \<Rightarrow> Channel_failed e
           | None \<Rightarrow> (case operation of Inl e \<Rightarrow> Operation_failed e | Inr a \<Rightarrow> Sftp_ok a),
           end_client i s1))"

definition target_of :: "connection \<Rightarrow> string option \<Rightarrow> string" where
  "target_of h pathname = resolveRemotePath (Some (coalesce (bc_sftpRoot h) ''/'')) pathname"

text \<open>What the operations ask of the remote side, with its answers as functions.\<close>

record remote_side =
  rs_readdir :: "string \<Rightarrow> string + sftp_entry list"
  rs_mkdir :: "string \<Rightarrow> string option"
  rs_rename :: "string \<Rightarrow> string \<Rightarrow> string option"
  rs_rmdir :: "string \<Rightarrow> string option"
  rs_unlink :: "string \<Rightarrow> string option"

definition answer :: "string option \<Rightarrow> 'a \<Rightarrow> string + 'a" where
  "answer e a = (case e of Some m \<Rightarrow> Inl m | None \<Rightarrow> Inr a)"

definition listRemoteDirectory ::
    "(int \<Rightarrow> string) \<Rightarrow> (string \<Rightarrow> string \<Rightarrow> int) \<Rightarrow> remote_side \<Rightarrow> connection \<Rightarrow> string option \<Rightarrow> string + (string \<times> listed_entry list)" where
  "listRemoteDirectory show_time lc r h pathname =
     (let t = target_of h pathname in
      case rs_readdir r t of Inl e \<Rightarrow> Inl e | Inr entries \<Rightarrow> Inr (t, listing show_time lc t entries))"

definition createRemoteDirectory :: "remote_side \<Rightarrow> connection \<Rightarrow> string option \<Rightarrow> string + string" where
  "createRemoteDirectory r h pathname = (let t = target_of h pathname in answer (rs_mkdir r t) t)"

definition renameRemoteEntry :: "remote_side \<Rightarrow> connection \<Rightarrow> string option \<Rightarrow> string option \<Rightarrow> string + string" where
  "renameRemoteEntry r h currentPath nextPath =
     (let t = target_of h nextPath in answer (rs_rename r (target_of h currentPath) t) t)"

definition deleteRemoteEntry :: "remote_side \<Rightarrow> connection \<Rightarrow> string option \<Rightarrow> bool \<Rightarrow> string + unit" where
  "deleteRemoteEntry r h pathname isDirectoryEntry =
     (let t = target_of h pathname in answer (if isDirectoryEntry then rs_rmdir r t else rs_unlink r t) ())"

subsection \<open>Uploading\<close>

text \<open>
  The upload opens a file, writes it and closes it; its deadline may come at any moment after the file was
  opened and before the upload has ended, and closes the handle unless that has begun. The state counts the closes of the handle.
\<close>

datatype upload_phase = Opening | Writing | Closing bool | Upload_done bool

record upload =
  up_phase :: upload_phase
  up_closeStarted :: bool
  up_closes :: nat

datatype upload_event = Opened bool | Wrote bool | Closed bool | Deadline

definition upload_start :: upload where
  "upload_start = \<lparr>up_phase = Opening, up_closeStarted = False, up_closes = 0\<rparr>"

definition upload_step :: "upload_event \<Rightarrow> upload \<Rightarrow> upload" where
  "upload_step e u =
     (case (up_phase u, e) of
        (Opening, Opened ok) \<Rightarrow> u\<lparr>up_phase := (if ok then Writing else Upload_done False)\<rparr>
      | (Writing, Wrote ok) \<Rightarrow> u\<lparr>up_phase := Closing ok, up_closeStarted := True, up_closes := Suc (up_closes u)\<rparr>
      | (Closing ok, Closed ok') \<Rightarrow> u\<lparr>up_phase := Upload_done (ok \<and> ok')\<rparr>
      | (Opening, Deadline) \<Rightarrow> u
      | (Upload_done _, Deadline) \<Rightarrow> u
      | (_, Deadline) \<Rightarrow> if up_closeStarted u then u else u\<lparr>up_closeStarted := True, up_closes := Suc (up_closes u)\<rparr>
      | _ \<Rightarrow> u)"

definition upload_run :: "upload_event list \<Rightarrow> upload" where
  "upload_run es = fold upload_step es upload_start"

subsection \<open>Downloading\<close>

definition download_headers :: "string \<Rightarrow> nat option \<Rightarrow> (string \<times> string) list" where
  "download_headers target bytes' =
     [(''Content-Disposition'', ''attachment; filename='' @ [CHR 0x22] @
         sanitizeFilename (Some (rev (takeWhile (\<lambda>c. c \<noteq> CHR ''/'') (rev (strip_slashes target))))) @ [CHR 0x22]),
      (''Content-Length'', show_nat (coalesce bytes' 0)),
      (''Content-Type'', ''application/octet-stream'')]"

subsection \<open>Static files\<close>

datatype static_body = Stream_of string | Plain_text string

record static_response =
  sr_status :: int
  sr_type :: string
  sr_body :: static_body

text \<open>What \<open>stat\<close> says of a path; \<open>None\<close> is an error.\<close>

datatype path_kind = Regular_file | Directory_path | Other_path

definition mimeTypes :: "(string \<times> string) list" where
  "mimeTypes = [(''.css'', ''text/css; charset=utf-8''), (''.html'', ''text/html; charset=utf-8''),
     (''.js'', ''text/javascript; charset=utf-8''), (''.json'', ''application/json; charset=utf-8''),
     (''.svg'', ''image/svg+xml'')]"

text \<open>The extension of the last part of a path: from its last dot, unless it starts there.\<close>

definition extname :: "string \<Rightarrow> string" where
  "extname p =
     (let base = rev (takeWhile (\<lambda>c. c \<noteq> CHR ''/'') (rev (strip_slashes p)));
          after = rev (takeWhile (\<lambda>c. c \<noteq> CHR ''.'') (rev base));
          before = take (length base - length after) base
      in if before = [] \<or> butlast before = [] \<or> base = ''..'' then [] else CHR ''.'' # after)"

definition plainNotFound :: static_response where
  "plainNotFound = \<lparr>sr_status = 404, sr_type = ''text/plain; charset=utf-8'', sr_body = Plain_text ''Not found''\<rparr>"

definition respondStaticNotFound :: "(string \<Rightarrow> string option) \<Rightarrow> (string \<Rightarrow> path_kind option) \<Rightarrow> string \<Rightarrow> static_response" where
  "respondStaticNotFound realpath stat root =
     (case resolvePathInsideRoot realpath root ''/index.html'' of
        None \<Rightarrow> plainNotFound
      | Some p \<Rightarrow>
          if stat p = Some Regular_file
          then \<lparr>sr_status = 404, sr_type = ''text/html; charset=utf-8'', sr_body = Stream_of p\<rparr>
          else plainNotFound)"

text \<open>
  A directory is answered with the index, by the same function; when the index is a directory itself that never
  ends, which is \<open>None\<close> here.
\<close>

partial_function (option) serveStatic ::
    "(string \<Rightarrow> string option) \<Rightarrow> (string \<Rightarrow> path_kind option) \<Rightarrow> string \<Rightarrow> string \<Rightarrow> static_response option" where
  "serveStatic realpath stat root requested =
     (case resolvePathInsideRoot realpath root (if requested = ''/'' then ''/index.html'' else requested) of
        None \<Rightarrow> Some (respondStaticNotFound realpath stat root)
      | Some p \<Rightarrow>
          (case stat p of
             None \<Rightarrow> Some (respondStaticNotFound realpath stat root)
           | Some Directory_path \<Rightarrow> serveStatic realpath stat root ''/index.html''
           | Some _ \<Rightarrow> Some \<lparr>sr_status = 200, sr_type = coalesce (map_of mimeTypes (extname p)) ''application/octet-stream'',
               sr_body = Stream_of p\<rparr>))"

declare serveStatic.simps [code]

subsection \<open>Properties of listings\<close>

lemma kind_cmp: "cmp_order UNIV kind_order"
  by standard (auto simp: kind_order_def split: if_splits)

lemma listing_cmp:
  assumes "collation lc"
  shows "cmp_order UNIV (listing_order lc)"
proof -
  have "cmp_order UNIV lc" using assms by (simp add: collation_def)
  then have "cmp_order UNIV (\<lambda>l r. lc (li_name l) (li_name r))" by (rule cmp_order_key) simp
  from cmp_order_then[OF kind_cmp this] show ?thesis by (rule cmp_order_cong) (simp add: listing_order_def)
qed

text \<open>C16: A listing shows exactly the entries the server named, except the two dots, each once; directories
  come first and names are in order. Every entry with a proper name gets the canonical path directly below
  the directory, so opening, renaming or deleting it resolves to that path again.\<close>

theorem listing_is_faithful:
  assumes "collation lc"
  shows "mset (map li_name (listing show_time lc (path_of ss) es)) = mset (filter (\<lambda>n. n \<noteq> ''.'' \<and> n \<noteq> ''..'') (map sf_filename es)) \<and>
    sorted_wrt (\<lambda>l r. (li_directory r \<longrightarrow> li_directory l) \<and> (li_directory l = li_directory r \<longrightarrow> lc (li_name l) (li_name r) \<le> 0))
      (listing show_time lc (path_of ss) es) \<and>
    (\<forall>l \<in> set (listing show_time lc (path_of ss) es). dotless ss \<and> entry_name (li_name l) \<longrightarrow>
       li_path l = path_of (ss @ [li_name l]) \<and> target_of h (Some (li_path l)) = li_path l)"
proof (intro conjI)
  let ?L = "listing show_time lc (path_of ss) es"
  show "mset (map li_name ?L) = mset (filter (\<lambda>n. n \<noteq> ''.'' \<and> n \<noteq> ''..'') (map sf_filename es))"
    by (simp add: listing_def list_entry_def filter_map comp_def multiset.map_comp)
  have "sorted_wrt (\<lambda>l r. listing_order lc l r \<le> 0) ?L"
    unfolding listing_def by (rule cmp_order.sorted_js_sort[OF listing_cmp[OF assms]]) simp
  then show "sorted_wrt (\<lambda>l r. (li_directory r \<longrightarrow> li_directory l) \<and> (li_directory l = li_directory r \<longrightarrow> lc (li_name l) (li_name r) \<le> 0)) ?L"
    by (rule sorted_wrt_mono_rel[rotated]) (auto simp: listing_order_def kind_order_def split: if_splits)
  show "\<forall>l \<in> set ?L. dotless ss \<and> entry_name (li_name l) \<longrightarrow>
       li_path l = path_of (ss @ [li_name l]) \<and> target_of h (Some (li_path l)) = li_path l"
  proof (intro ballI impI)
    fix l assume l: "l \<in> set ?L" and e: "dotless ss \<and> entry_name (li_name l)"
    then have "li_path l = resolveRemotePath (Some (path_of ss)) (Some (li_name l))" by (auto simp: listing_def list_entry_def)
    with e have p: "li_path l = path_of (ss @ [li_name l])" by (simp add: resolve_entry)
    have "dotless (ss @ [li_name l])" using e by (auto simp: entry_name_def dotless_def seg_ok_def)
    with p show "li_path l = path_of (ss @ [li_name l]) \<and> target_of h (Some (li_path l)) = li_path l"
      by (simp add: target_of_def resolve_absolute)
  qed
qed

theorem listing_is_faithful_witness:
  "mset (map li_name (listing show_int code_unit_compare (path_of [''srv''])
     [\<lparr>sf_filename = ''b'', sf_longname = ''-rw'', sf_mode = Some 0x81A4, sf_size = Some 3, sf_mtime = None\<rparr>,
      \<lparr>sf_filename = ''..'', sf_longname = ''drwx'', sf_mode = None, sf_size = None, sf_mtime = None\<rparr>])) = {#''b''#}"
  using listing_is_faithful[OF code_units.collation_axioms, of show_int "[''srv'']"
     "[\<lparr>sf_filename = ''b'', sf_longname = ''-rw'', sf_mode = Some 0x81A4, sf_size = Some 3, sf_mtime = None\<rparr>,
       \<lparr>sf_filename = ''..'', sf_longname = ''drwx'', sf_mode = None, sf_size = None, sf_mtime = None\<rparr>]"]
  by simp

text \<open>Modes are read bit by bit: the type from the high bits, the permissions from the low ones.\<close>

lemma attributes_example:
  "isDirectory (Some 0x41ED) ''-rw'' \<and> \<not> isDirectory (Some 0x81A4) ''drwx'' \<and> isLink (Some 0xA1FF) [] \<and>
   formatPermissions (Some 0x41ED) = Some ''755'' \<and> formatPermissions (Some 0x81A4) = Some ''644'' \<and>
   formatPermissions (Some 0x8007) = Some ''007''"
  by code_simp

subsection \<open>Connections are ended\<close>

text \<open>Whatever happens in an operation, no client it opened stays open.\<close>

lemma sftp_leaks_no_client:
  "\<exists>new. st_clients (snd (withSftp w h channel operation s)) = st_clients s @ new \<and> list_all (\<lambda>c. \<not> cl_open c) new"
proof -
  obtain r s' where c: "connectClient w h s = (r, s')" by fastforce
  have "length (hops h) > 0" using hops_eq[of h] by simp
  with connectClient_clients[OF c] end_chain_closed[of "length (hops h)" "st_clients s"] c show ?thesis
    by (cases r) (auto simp: withSftp_def connect_clients_def end_client_def split: option.splits)
qed

subsection \<open>Uploads close their file\<close>

definition upload_ok :: "upload \<Rightarrow> bool" where
  "upload_ok u \<longleftrightarrow>
     (case up_phase u of
        Opening \<Rightarrow> up_closes u = 0 \<and> \<not> up_closeStarted u
      | Writing \<Rightarrow> up_closes u = (if up_closeStarted u then 1 else 0)
      | Closing _ \<Rightarrow> up_closeStarted u \<and> up_closes u \<in> {1, 2}
      | Upload_done ok \<Rightarrow> up_closes u \<le> 2 \<and> (ok \<longrightarrow> up_closes u \<ge> 1))"

lemma upload_run_snoc: "upload_run (es @ [e]) = upload_step e (upload_run es)"
  by (simp add: upload_run_def)

text \<open>
  Every file that was opened for an upload is closed by the time its write was answered, at most twice in all,
  and an upload succeeds only when the write and the close did.
\<close>

lemma uploads_close:
  "upload_ok (upload_run es) \<and> (up_phase (upload_run es) = Upload_done True \<longrightarrow> Wrote True \<in> set es \<and> Closed True \<in> set es) \<and>
   (\<forall>ok. up_phase (upload_run es) = Closing ok \<longrightarrow> Wrote ok \<in> set es)"
proof (induction es rule: rev_induct)
  case Nil
  show ?case by (simp add: upload_run_def upload_start_def upload_ok_def)
next
  case (snoc e es)
  then show ?case unfolding upload_run_snoc
    by (cases e; cases "up_phase (upload_run es)") (auto simp: upload_step_def upload_ok_def)
qed

text \<open>
  The guard of the deadline keeps it from closing a handle that is being closed; it does not keep the normal
  close from closing the handle again after the deadline did.
\<close>

lemma deadline_closes_twice: "up_closes (upload_run [Opened True, Deadline, Wrote False, Closed False]) = 2"
  by code_simp

subsection \<open>Headers and static files\<close>

text \<open>The name in the header of a download has no quote, line end or slash in it.\<close>

lemma download_name_safe:
  "\<exists>name. list_all filename_char name \<and> name \<noteq> [] \<and>
     map_of (download_headers target n) ''Content-Disposition'' = Some (''attachment; filename='' @ [CHR 0x22] @ name @ [CHR 0x22])"
  using sanitized_name by (auto simp: download_headers_def)

text \<open>A request for a file that does not exist and one for a file outside of the directory that is served get the same
  answer, whatever lies at the path; and what is answered with success is a file that was found inside.
  The function returns unless the index is a directory.\<close>

theorem static_answers:
  assumes "\<And>p. resolvePathInsideRoot realpath root ''/index.html'' = Some p \<Longrightarrow> stat p \<noteq> Some Directory_path"
  shows "\<exists>r. serveStatic realpath stat root requested = Some r \<and>
    (case resolvePathInsideRoot realpath root (if requested = ''/'' then ''/index.html'' else requested) of
       None \<Rightarrow> r = respondStaticNotFound realpath stat root
     | Some p \<Rightarrow> (stat p = None \<longrightarrow> r = respondStaticNotFound realpath stat root) \<and>
         (sr_status r = 200 \<longrightarrow> (\<exists>q. sr_body r = Stream_of q \<and>
            (q = p \<or> resolvePathInsideRoot realpath root ''/index.html'' = Some q)))) \<and>
    (sr_status r = 404 \<or> sr_status r = 200)"
proof -
  have nf: "sr_status (respondStaticNotFound realpath stat root) = 404"
    by (auto simp: respondStaticNotFound_def plainNotFound_def split: option.split)
  have index: "\<exists>r. serveStatic realpath stat root ''/index.html'' = Some r \<and> (sr_status r = 404 \<or>
      sr_status r = 200 \<and> (\<exists>q. sr_body r = Stream_of q \<and> resolvePathInsideRoot realpath root ''/index.html'' = Some q))"
    using assms nf by (subst serveStatic.simps) (auto split: option.split path_kind.split)
  show ?thesis
    using index nf by (subst serveStatic.simps) (auto split: option.split path_kind.split)
qed

theorem static_answers_witness:
  "serveStatic linked_root (\<lambda>_. Some Regular_file) ''/app/dist'' ''/leak'' =
     Some (respondStaticNotFound linked_root (\<lambda>_. Some Regular_file) ''/app/dist'')"
proof -
  have "resolvePathInsideRoot linked_root ''/app/dist'' ''/leak'' = None" by code_simp
  with static_answers[of linked_root "''/app/dist''" "\<lambda>_. Some Regular_file" "''/leak''"] show ?thesis by auto
qed

text \<open>When the index is a directory, a request for a directory is never answered.\<close>

lemma directory_index_never_answers:
  assumes "resolvePathInsideRoot realpath root ''/index.html'' = Some p" "stat p = Some Directory_path"
  shows "serveStatic realpath stat root ''/index.html'' = None"
proof -
  have "(rp, st, rt, rq) \<noteq> (realpath, stat, root, ''/index.html'')" if "serveStatic rp st rt rq = Some x" for rp st rt rq x
    using that
  proof (rule serveStatic.raw_induct[rotated])
    fix f and rp' :: "string \<Rightarrow> string option" and st' :: "string \<Rightarrow> path_kind option" and rt' rq' y
    assume IH: "\<And>rp st rt rq x. f rp st rt rq = Some x \<Longrightarrow> (rp, st, rt, rq) \<noteq> (realpath, stat, root, ''/index.html'')"
      and body: "(case resolvePathInsideRoot rp' rt' (if rq' = ''/'' then ''/index.html'' else rq') of
          None \<Rightarrow> Some (respondStaticNotFound rp' st' rt')
        | Some p \<Rightarrow> (case st' p of None \<Rightarrow> Some (respondStaticNotFound rp' st' rt')
            | Some Directory_path \<Rightarrow> f rp' st' rt' ''/index.html''
            | Some _ \<Rightarrow> Some \<lparr>sr_status = 200, sr_type = coalesce (map_of mimeTypes (extname p)) ''application/octet-stream'',
                sr_body = Stream_of p\<rparr>)) = Some y"
    show "(rp', st', rt', rq') \<noteq> (realpath, stat, root, ''/index.html'')"
    proof
      assume "(rp', st', rt', rq') = (realpath, stat, root, ''/index.html'')"
      then have "f realpath stat root ''/index.html'' = Some y" using body assms by simp
      from IH[OF this] show False by simp
    qed
  qed
  from this[of realpath stat root "''/index.html''"] show ?thesis
    by (cases "serveStatic realpath stat root ''/index.html''") simp_all
qed

end
