(* ===== verification/BrowserLoads.thy ===== *)
theory BrowserLoads
  imports Strings
begin

section \<open>Loading directories (\<open>lib/latest-request.ts\<close>, \<open>components/sftp/FileBrowser.tsx\<close>)\<close>

text \<open>
  The file browser shows one directory while several loads may be under way: the newest one wins. A load is
  one function from each await to the next; in between the user may navigate, cancel, or finish an action that
  reloads a directory. The state is what the browser shows: the path, the entries, the selection, the
  messages, and the loads with what they wait for. A change of the path starts
  a load of it, as the effect of the component does.
\<close>

subsection \<open>The guard\<close>

record request_guard =
  gd_sequence :: nat
  gd_pending :: bool

definition createLatestRequestGuard :: request_guard where
  "createLatestRequestGuard = \<lparr>gd_sequence = 0, gd_pending = False\<rparr>"

definition guard_begin :: "request_guard \<Rightarrow> nat \<times> request_guard" where
  "guard_begin g = (Suc (gd_sequence g), \<lparr>gd_sequence = Suc (gd_sequence g), gd_pending = True\<rparr>)"

definition isCurrent :: "request_guard \<Rightarrow> nat \<Rightarrow> bool" where
  "isCurrent g token \<longleftrightarrow> token = gd_sequence g"

definition guard_cancel :: "request_guard \<Rightarrow> request_guard" where
  "guard_cancel g = \<lparr>gd_sequence = Suc (gd_sequence g), gd_pending = False\<rparr>"

definition isPending :: "request_guard \<Rightarrow> bool" where
  "isPending g \<longleftrightarrow> gd_pending g"

subsection \<open>The browser\<close>

text \<open>A load waits for the secrets of the host, then for the listing of its directory.\<close>

datatype load_stage = For_secrets | For_listing

record directory_load =
  dl_token :: nat
  dl_target :: string
  dl_stage :: load_stage

record browser =
  fb_path :: string
  fb_entries :: "string list"
  fb_selected :: "string option"
  fb_loading :: bool
  fb_locked :: bool
  fb_error :: "string option"
  fb_guard :: request_guard
  fb_loads :: "directory_load list"

definition loadDirectory :: "string \<Rightarrow> browser \<Rightarrow> browser" where
  "loadDirectory target s =
     (case guard_begin (fb_guard s) of (token, g) \<Rightarrow>
        s\<lparr>fb_guard := g, fb_loading := True, fb_error := None,
          fb_loads := fb_loads s @ [\<lparr>dl_token = token, dl_target = target, dl_stage = For_secrets\<rparr>]\<rparr>)"

text \<open>\<open>rememberRemotePath\<close>, with the effect that loads the path when it has changed.\<close>

definition show_path :: "string \<Rightarrow> browser \<Rightarrow> browser" where
  "show_path p s = (if p = fb_path s then s else loadDirectory p (s\<lparr>fb_path := p\<rparr>))"

definition take_load :: "nat \<Rightarrow> browser \<Rightarrow> browser" where
  "take_load i s = s\<lparr>fb_loads := take i (fb_loads s) @ drop (Suc i) (fb_loads s)\<rparr>"

definition load_failed :: "directory_load \<Rightarrow> string \<Rightarrow> browser \<Rightarrow> browser" where
  "load_failed l message s =
     (if \<not> isCurrent (fb_guard s) (dl_token l) then s
      else s\<lparr>fb_error := Some message, fb_entries := [], fb_loading := False\<rparr>)"

text \<open>The secrets: ready or not, or an error with its message.\<close>

definition secrets_answered :: "directory_load \<Rightarrow> string + bool \<Rightarrow> browser \<Rightarrow> browser" where
  "secrets_answered l answer s =
     (case answer of
        Inl message \<Rightarrow> load_failed l message s
      | Inr ready \<Rightarrow>
          if \<not> isCurrent (fb_guard s) (dl_token l) then s
          else if \<not> ready then
            s\<lparr>fb_locked := True, fb_entries := [], fb_selected := None, fb_loading := False\<rparr>
          else s\<lparr>fb_locked := False, fb_loads := fb_loads s @ [l\<lparr>dl_stage := For_listing\<rparr>]\<rparr>)"

text \<open>The listing: the canonical path and the entries' paths, or an error.\<close>

definition listing_answered :: "directory_load \<Rightarrow> string + string \<times> string list \<Rightarrow> browser \<Rightarrow> browser" where
  "listing_answered l answer s =
     (case answer of
        Inl message \<Rightarrow> load_failed l message s
      | Inr (path, entries) \<Rightarrow>
          if \<not> isCurrent (fb_guard s) (dl_token l) then s
          else show_path path
            (s\<lparr>fb_entries := entries,
               fb_selected := (case fb_selected s of Some e \<Rightarrow> if e \<in> set entries then Some e else None | None \<Rightarrow> None),
               fb_loading := False\<rparr>))"

definition cancelLoad :: "browser \<Rightarrow> browser" where
  "cancelLoad s = s\<lparr>fb_guard := guard_cancel (fb_guard s), fb_loading := False, fb_error := Some ''Directory load cancelled.''\<rparr>"

text \<open>\<open>Reload p\<close> is the end of an action that was started when the browser showed \<open>p\<close>.\<close>

datatype browser_event =
  Navigate string | Reload string | Cancel_load | Select "string option"
| Secrets nat "string + bool" | Listing nat "string + string \<times> string list"

definition handle_browser :: "browser_event \<Rightarrow> browser \<Rightarrow> browser" where
  "handle_browser e s =
     (case e of
        Navigate p \<Rightarrow> show_path p s
      | Reload p \<Rightarrow> loadDirectory p s
      | Cancel_load \<Rightarrow> cancelLoad s
      | Select x \<Rightarrow> s\<lparr>fb_selected := x\<rparr>
      | Secrets i a \<Rightarrow>
          if i < length (fb_loads s) \<and> dl_stage (fb_loads s ! i) = For_secrets
          then secrets_answered (fb_loads s ! i) a (take_load i s) else s
      | Listing i a \<Rightarrow>
          if i < length (fb_loads s) \<and> dl_stage (fb_loads s ! i) = For_listing
          then listing_answered (fb_loads s ! i) a (take_load i s) else s)"

text \<open>The component loads its path when it is mounted.\<close>

definition opened :: "string \<Rightarrow> browser" where
  "opened p = loadDirectory p \<lparr>fb_path = p, fb_entries = [], fb_selected = None, fb_loading = False,
     fb_locked = False, fb_error = None, fb_guard = createLatestRequestGuard, fb_loads = []\<rparr>"

definition run_browser :: "browser_event list \<Rightarrow> string \<Rightarrow> browser" where
  "run_browser es p = fold handle_browser es (opened p)"

subsection \<open>The newest load\<close>

text \<open>
  Every load has a token of its own that is not ahead of the guard. While the browser loads, the newest load
  is under way; once it has settled without a message, path and entries are those of one of the answers
  \<open>A\<close> that came in.
\<close>

definition loads_ok :: "(string \<times> string list) set \<Rightarrow> browser \<Rightarrow> bool" where
  "loads_ok A s \<longleftrightarrow> distinct (map dl_token (fb_loads s)) \<and> list_all (\<lambda>l. dl_token l \<le> gd_sequence (fb_guard s)) (fb_loads s) \<and>
     (fb_loading s \<longleftrightarrow> (\<exists>l \<in> set (fb_loads s). isCurrent (fb_guard s) (dl_token l))) \<and>
     (fb_loading s \<or> fb_locked s \<or> fb_error s \<noteq> None \<or> (fb_path s, fb_entries s) \<in> A)"

lemma loadDirectory_ok:
  assumes "distinct (map dl_token (fb_loads s))" "list_all (\<lambda>l. dl_token l \<le> gd_sequence (fb_guard s)) (fb_loads s)"
  shows "loads_ok A (loadDirectory p s)"
  using assms by (auto simp: loads_ok_def loadDirectory_def guard_begin_def isCurrent_def list_all_iff split: prod.splits)

lemma show_path_ok:
  assumes "loads_ok A s \<or> p \<noteq> fb_path s" "distinct (map dl_token (fb_loads s))"
    "list_all (\<lambda>l. dl_token l \<le> gd_sequence (fb_guard s)) (fb_loads s)"
  shows "loads_ok A (show_path p s)"
  using assms loadDirectory_ok[of "s\<lparr>fb_path := p\<rparr>" A p] by (auto simp: show_path_def)

lemma take_load_keeps [simp]:
  "fb_guard (take_load i s) = fb_guard s" "fb_path (take_load i s) = fb_path s" "fb_loading (take_load i s) = fb_loading s"
  "fb_locked (take_load i s) = fb_locked s" "fb_error (take_load i s) = fb_error s" "fb_entries (take_load i s) = fb_entries s"
  by (simp_all add: take_load_def)

text \<open>A load taken out of the list: the others have other tokens.\<close>

lemma take_load_ok:
  assumes "loads_ok A s" "i < length (fb_loads s)"
  shows "distinct (map dl_token (fb_loads (take_load i s)))" "dl_token (fb_loads s ! i) \<notin> dl_token ` set (fb_loads (take_load i s))"
    "list_all (\<lambda>l. dl_token l \<le> gd_sequence (fb_guard s)) (fb_loads (take_load i s))" "dl_token (fb_loads s ! i) \<le> gd_sequence (fb_guard s)"
    "\<not> isCurrent (fb_guard s) (dl_token (fb_loads s ! i)) \<Longrightarrow> loads_ok A (take_load i s)"
proof -
  let ?l = "fb_loads s ! i"
  have split: "fb_loads s = take i (fb_loads s) @ ?l # drop (Suc i) (fb_loads s)" using assms(2) by (rule id_take_nth_drop)
  have d: "distinct (map dl_token (take i (fb_loads s) @ ?l # drop (Suc i) (fb_loads s)))"
    using assms(1) split by (simp add: loads_ok_def)
  then show 1: "distinct (map dl_token (fb_loads (take_load i s)))" and "dl_token ?l \<notin> dl_token ` set (fb_loads (take_load i s))"
    by (auto simp: take_load_def)
  have sub: "set (fb_loads s) = insert ?l (set (fb_loads (take_load i s)))"
    by (subst split) (auto simp: take_load_def)
  with assms(1) show 2: "list_all (\<lambda>l. dl_token l \<le> gd_sequence (fb_guard s)) (fb_loads (take_load i s))" and "dl_token ?l \<le> gd_sequence (fb_guard s)"
    by (auto simp: loads_ok_def list_all_iff)
  assume "\<not> isCurrent (fb_guard s) (dl_token ?l)"
  then have "(\<exists>l \<in> set (fb_loads s). isCurrent (fb_guard s) (dl_token l)) \<longleftrightarrow>
      (\<exists>l \<in> set (fb_loads (take_load i s)). isCurrent (fb_guard s) (dl_token l))" unfolding sub by simp
  then show "loads_ok A (take_load i s)" using assms(1) 1 2 unfolding loads_ok_def take_load_keeps by metis
qed


lemma settled_ok:
  assumes "distinct (map dl_token (fb_loads s))" "list_all (\<lambda>l. dl_token l \<le> gd_sequence (fb_guard s)) (fb_loads s)"
    "gd_sequence (fb_guard s) \<notin> dl_token ` set (fb_loads s)" "\<not> fb_loading s"
    "fb_locked s \<or> fb_error s \<noteq> None \<or> (fb_path s, fb_entries s) \<in> A"
  shows "loads_ok A s"
  using assms unfolding loads_ok_def isCurrent_def by (metis imageI)

lemma loads_ok_distinct:
  assumes "loads_ok A s"
  shows "distinct (map dl_token (fb_loads s))" "list_all (\<lambda>l. dl_token l \<le> gd_sequence (fb_guard s)) (fb_loads s)"
  using assms by (simp_all add: loads_ok_def)

lemma handle_browser_ok:
  assumes "loads_ok A s" "\<And>i r. e = Listing i (Inr r) \<Longrightarrow> r \<in> A"
  shows "loads_ok A (handle_browser e s)"
proof (cases e)
  case (Navigate p)
  then show ?thesis using show_path_ok[OF disjI1[OF assms(1)] loads_ok_distinct[OF assms(1)]] by (simp add: handle_browser_def)
next
  case (Reload p)
  then show ?thesis using loadDirectory_ok[OF loads_ok_distinct[OF assms(1)]] by (simp add: handle_browser_def)
next
  case Cancel_load
  then show ?thesis using assms(1)
    by (auto simp: handle_browser_def cancelLoad_def guard_cancel_def loads_ok_def isCurrent_def list_all_iff)
next
  case (Select x)
  then show ?thesis using assms(1) by (auto simp: handle_browser_def loads_ok_def)
next
  case (Secrets i a)
  show ?thesis
  proof (cases "i < length (fb_loads s) \<and> dl_stage (fb_loads s ! i) = For_secrets")
    case True
    let ?l = "fb_loads s ! i" and ?t = "take_load i s"
    note t = take_load_ok[OF assms(1) conjunct1[OF True]]
    have h: "handle_browser e s = secrets_answered ?l a ?t" using True Secrets by (simp add: handle_browser_def)
    show ?thesis
    proof (cases "isCurrent (fb_guard s) (dl_token ?l)")
      case False
      then show ?thesis using t(5) unfolding h by (auto simp: secrets_answered_def load_failed_def split: sum.split)
    next
      case current: True
      then have "gd_sequence (fb_guard s) \<notin> dl_token ` set (fb_loads ?t)" "fb_loading s"
        using t(2) assms(1) True by (auto simp: isCurrent_def loads_ok_def)
      note n = this
      show ?thesis
      proof (cases "a = Inr True")
        case True
        have "distinct (map dl_token (fb_loads ?t @ [?l]))" using t(1,2) by simp
        then show ?thesis using current n t(3,4) True unfolding h by (simp add: secrets_answered_def loads_ok_def isCurrent_def)
      next
        case False
        then show ?thesis using current n t(1,3) unfolding h
          by (auto simp: secrets_answered_def load_failed_def split: sum.split intro!: settled_ok)
      qed
    qed
  next
    case False
    then show ?thesis using assms(1) Secrets by (auto simp: handle_browser_def)
  qed
next
  case (Listing i a)
  show ?thesis
  proof (cases "i < length (fb_loads s) \<and> dl_stage (fb_loads s ! i) = For_listing")
    case True
    let ?l = "fb_loads s ! i" and ?t = "take_load i s"
    note t = take_load_ok[OF assms(1) conjunct1[OF True]]
    have h: "handle_browser e s = listing_answered ?l a ?t" using True Listing by (simp add: handle_browser_def)
    show ?thesis
    proof (cases "isCurrent (fb_guard s) (dl_token ?l)")
      case False
      then show ?thesis using t(5) unfolding h by (auto simp: listing_answered_def load_failed_def split: sum.split)
    next
      case current: True
      then have n: "gd_sequence (fb_guard s) \<notin> dl_token ` set (fb_loads ?t)" using t(2) by (auto simp: isCurrent_def)
      show ?thesis
      proof (cases a)
        case (Inl m)
        then show ?thesis using current n t(1,3) unfolding h
          by (auto simp: listing_answered_def load_failed_def intro!: settled_ok)
      next
        case (Inr r)
        obtain p es where r: "r = (p, es)" by (cases r)
        let ?u = "?t\<lparr>fb_entries := es,
          fb_selected := (case fb_selected ?t of Some x \<Rightarrow> if x \<in> set es then Some x else None | None \<Rightarrow> None), fb_loading := False\<rparr>"
        have "(p, es) \<in> A" using assms(2) Listing Inr r by blast
        then have "loads_ok A ?u \<or> p \<noteq> fb_path ?u" using n t(1,3) by (auto intro!: settled_ok)
        then have "loads_ok A (show_path p ?u)" using t(1,3) by (intro show_path_ok) auto
        then show ?thesis using current Inr r unfolding h by (simp add: listing_answered_def)
      qed
    qed
  next
    case False
    then show ?thesis using assms(1) Listing by (auto simp: handle_browser_def)
  qed
qed

lemma browser_ok: "(\<And>i r. Listing i (Inr r) \<in> set es \<Longrightarrow> r \<in> A) \<Longrightarrow> loads_ok A (run_browser es p)"
proof (induction es rule: rev_induct)
  case Nil
  show ?case by (simp add: run_browser_def opened_def) (rule loadDirectory_ok, simp_all)
next
  case (snoc e es)
  have "loads_ok A (run_browser es p)" by (rule snoc.IH) (use snoc.prems in auto)
  then have "loads_ok A (handle_browser e (run_browser es p))" by (rule handle_browser_ok) (use snoc.prems in auto)
  then show ?case by (simp add: run_browser_def)
qed

subsection \<open>Superseded loads\<close>

text \<open>A load that was superseded commits nothing: only its own entry among the loads goes.\<close>

lemma superseded_load_commits_nothing:
  assumes "\<not> isCurrent (fb_guard s) (dl_token (fb_loads s ! i))"
  shows "handle_browser (Listing i a) s \<in> {s, take_load i s} \<and> handle_browser (Secrets i b) s \<in> {s, take_load i s}"
  using assms by (auto simp: handle_browser_def listing_answered_def secrets_answered_def load_failed_def split: sum.split)

text \<open>The events that take the browser away from the loads under way.\<close>

definition supersedes :: "browser_event \<Rightarrow> browser \<Rightarrow> bool" where
  "supersedes e s = (case e of Navigate q \<Rightarrow> q \<noteq> fb_path s | Reload q \<Rightarrow> True | Cancel_load \<Rightarrow> True | _ \<Rightarrow> False)"

lemma sequence_grows: "gd_sequence (fb_guard s) \<le> gd_sequence (fb_guard (handle_browser e s))"
  by (auto simp: handle_browser_def show_path_def loadDirectory_def guard_begin_def cancelLoad_def guard_cancel_def
      secrets_answered_def listing_answered_def load_failed_def split: browser_event.split sum.split)

lemma sequence_grows_fold: "gd_sequence (fb_guard s) \<le> gd_sequence (fb_guard (fold handle_browser es s))"
  by (induction es arbitrary: s) (auto intro: order_trans[OF sequence_grows])

lemma supersedes_grows: "supersedes e s \<Longrightarrow> gd_sequence (fb_guard s) < gd_sequence (fb_guard (handle_browser e s))"
  by (auto simp: supersedes_def handle_browser_def show_path_def loadDirectory_def guard_begin_def cancelLoad_def
      guard_cancel_def split: browser_event.splits)

lemma superseded_not_current:
  assumes "supersedes e (run_browser es p)" "l \<in> set (fb_loads (run_browser es p))"
  shows "\<not> isCurrent (fb_guard (run_browser (es @ e # es') p)) (dl_token l)"
proof -
  have "dl_token l \<le> gd_sequence (fb_guard (run_browser es p))"
    using browser_ok[of es UNIV p] assms(2) by (auto simp: loads_ok_def list_all_iff)
  also have "\<dots> < gd_sequence (fb_guard (handle_browser e (run_browser es p)))" by (rule supersedes_grows[OF assms(1)])
  also have "\<dots> \<le> gd_sequence (fb_guard (run_browser (es @ e # es') p))"
    using sequence_grows_fold by (simp add: run_browser_def)
  finally show ?thesis by (simp add: isCurrent_def)
qed

text \<open>C29: whatever the order in which loads are started, answered and cancelled, the browser never rests on
  the entries of another directory, and a load that was left behind never changes what is shown. When it is
  neither loading nor locked and shows no message, its path and its entries are together one of the listings
  that came in; while it is loading, the newest load is under way. The listing of that load is shown: its
  path, its entries, and, if the path is the one asked for, no longer loading. But once the user has gone to
  another path, reloaded or cancelled, no answer to a load that was under way then, whenever it comes in,
  changes the path, the entries, the selection, the messages or the flags: at most the load itself is taken
  off the list.\<close>

theorem settled_view_matches_path:
  "let s0 = run_browser es p; s = run_browser (es @ e # es') p in
     (fb_loading s0 \<or> fb_locked s0 \<or> (\<exists>m. fb_error s0 = Some m) \<or>
        (\<exists>i. Listing i (Inr (fb_path s0, fb_entries s0)) \<in> set es)) \<and>
     (fb_loading s0 \<longleftrightarrow> (\<exists>l \<in> set (fb_loads s0). dl_token l = gd_sequence (fb_guard s0))) \<and>
     (i < length (fb_loads s0) \<and> dl_token (fb_loads s0 ! i) = gd_sequence (fb_guard s0) \<and>
        dl_stage (fb_loads s0 ! i) = For_listing \<longrightarrow>
      (let t = handle_browser (Listing i (Inr (path, entries))) s0 in
         fb_path t = path \<and> fb_entries t = entries \<and> (path = fb_path s0 \<longrightarrow> \<not> fb_loading t))) \<and>
     (supersedes e s0 \<and> i < length (fb_loads s) \<and> dl_token (fb_loads s ! i) \<in> dl_token ` set (fb_loads s0) \<longrightarrow>
      (handle_browser (Listing i a) s)\<lparr>fb_loads := fb_loads s\<rparr> = s \<and>
      (handle_browser (Secrets i b) s)\<lparr>fb_loads := fb_loads s\<rparr> = s)"
proof -
  let ?old = "run_browser es p" and ?new = "run_browser (es @ e # es') p"
  let ?A = "{r. \<exists>i. Listing i (Inr r) \<in> set es}"
  have ok: "loads_ok ?A ?old" by (rule browser_ok) blast
  have shown: "let t = handle_browser (Listing i (Inr (path, entries))) ?old in
      fb_path t = path \<and> fb_entries t = entries \<and> (path = fb_path ?old \<longrightarrow> \<not> fb_loading t)"
    if "i < length (fb_loads ?old)" "dl_token (fb_loads ?old ! i) = gd_sequence (fb_guard ?old)"
      "dl_stage (fb_loads ?old ! i) = For_listing"
    using that by (simp add: handle_browser_def listing_answered_def isCurrent_def show_path_def loadDirectory_def
        guard_begin_def Let_def)
  have same: "(take_load i ?new)\<lparr>fb_loads := fb_loads ?new\<rparr> = ?new" "?new\<lparr>fb_loads := fb_loads ?new\<rparr> = ?new"
    by (simp_all add: take_load_def)
  have stale: "(handle_browser (Listing i a) ?new)\<lparr>fb_loads := fb_loads ?new\<rparr> = ?new \<and>
      (handle_browser (Secrets i b) ?new)\<lparr>fb_loads := fb_loads ?new\<rparr> = ?new"
    if "supersedes e ?old" "dl_token (fb_loads ?new ! i) \<in> dl_token ` set (fb_loads ?old)"
  proof -
    have "\<not> isCurrent (fb_guard ?new) (dl_token (fb_loads ?new ! i))"
      using that superseded_not_current[OF that(1)] by auto
    from superseded_load_commits_nothing[OF this, of a b] same show ?thesis by (elim conjE insertE) auto
  qed
  have "fb_loading ?old \<or> fb_locked ?old \<or> (\<exists>m. fb_error ?old = Some m) \<or>
      (\<exists>i. Listing i (Inr (fb_path ?old, fb_entries ?old)) \<in> set es)"
    "fb_loading ?old \<longleftrightarrow> (\<exists>l \<in> set (fb_loads ?old). dl_token l = gd_sequence (fb_guard ?old))"
    using ok by (auto simp: loads_ok_def isCurrent_def)
  with shown stale show ?thesis unfolding Let_def by blast
qed

text \<open>
  The listing of the first directory arrives after the user has moved on and the second one is shown: it
  changes nothing.
\<close>

lemma settled_view_matches_path_witness:
  "let s = run_browser [Secrets 0 (Inr True), Navigate ''/b'', Secrets 1 (Inr True), Listing 1 (Inr (''/b'', [''/b/y'']))] ''/a'';
       t = handle_browser (Listing 0 (Inr (''/a'', [''/a/x'']))) s
   in fb_path s = ''/b'' \<and> fb_entries s = [''/b/y''] \<and> \<not> fb_loading s \<and> length (fb_loads s) = 1 \<and>
      fb_path t = ''/b'' \<and> fb_entries t = [''/b/y''] \<and> \<not> fb_loading t \<and> fb_loads t = []"
proof -
  let ?es = "[Secrets 0 (Inr True)]" and ?e = "Navigate ''/b''"
  let ?es' = "[Secrets 1 (Inr True), Listing 1 (Inr (''/b'', [''/b/y'']))]"
  let ?s = "run_browser (?es @ ?e # ?es') ''/a''" and ?t = "handle_browser (Listing 0 (Inr (''/a'', [''/a/x''])))"
  have v: "supersedes ?e (run_browser ?es ''/a'')" "0 < length (fb_loads ?s)"
    "dl_token (fb_loads ?s ! 0) \<in> dl_token ` set (fb_loads (run_browser ?es ''/a''))"
    "fb_path ?s = ''/b''" "fb_entries ?s = [''/b/y'']" "\<not> fb_loading ?s" "length (fb_loads ?s) = 1" "fb_loads (?t ?s) = []"
    by code_simp+
  have same: "(?t ?s)\<lparr>fb_loads := fb_loads ?s\<rparr> = ?s"
    using settled_view_matches_path[of ?es "''/a''" ?e ?es' 0] v(1-3) unfolding Let_def by blast
  have "fb_path (?t ?s) = fb_path ((?t ?s)\<lparr>fb_loads := fb_loads ?s\<rparr>)"
    "fb_entries (?t ?s) = fb_entries ((?t ?s)\<lparr>fb_loads := fb_loads ?s\<rparr>)"
    "fb_loading (?t ?s) = fb_loading ((?t ?s)\<lparr>fb_loads := fb_loads ?s\<rparr>)"
    by (simp_all del: append.simps)
  with v have "fb_path (?t ?s) = ''/b''" "fb_entries (?t ?s) = [''/b/y'']" "\<not> fb_loading (?t ?s)"
    unfolding same by simp_all
  with v show ?thesis by (simp add: Let_def)
qed

subsection \<open>Two limits\<close>

text \<open>
  A cancelled load leaves the entries of the old directory, and a selection among them, under the path of the
  new one.
\<close>

lemma cancel_keeps_old_entries:
  "let s = run_browser [Secrets 0 (Inr True), Listing 0 (Inr (''/a'', [''/a/x''])), Select (Some ''/a/x''), Navigate ''/b'', Cancel_load] ''/a''
   in fb_path s = ''/b'' \<and> \<not> fb_loading s \<and> fb_entries s = [''/a/x''] \<and> fb_selected s = Some ''/a/x''"
  by code_simp

text \<open>A load that fails empties the entries and keeps the selection, so an entry that is not shown stays selected.\<close>

lemma failed_load_keeps_selection:
  "let s = run_browser [Secrets 0 (Inr True), Listing 0 (Inr (''/a'', [''/a/x''])), Select (Some ''/a/x''), Navigate ''/b'',
       Secrets 0 (Inr True), Listing 0 (Inl ''timeout'')] ''/a''
   in fb_path s = ''/b'' \<and> \<not> fb_loading s \<and> fb_entries s = [] \<and> fb_selected s = Some ''/a/x''"
  by code_simp

end
