(* ===== verification/RuntimeSecrets.thy ===== *)
theory RuntimeSecrets
  imports Connections "HOL-Library.Multiset"
begin

section \<open>Asking for missing secrets (\<open>lib/runtime-secrets.ts\<close>, \<open>components/common/ConnectionSecretPrompt.tsx\<close>)\<close>

text \<open>
  Before a connection is made, the secrets of the host and of its jump hosts are loaded from the keychain, one
  host after the other, and the user is asked for what is still missing. The state is the secrets in memory
  and the keychain; the inventory, the keys and the identities are arguments, as is what the user enters.
\<close>

subsection \<open>The chain of hosts\<close>

text \<open>A map of the inventory by identifier: of two hosts with one identifier, the later one counts.\<close>

definition chain_next :: "host list \<Rightarrow> host \<Rightarrow> host option" where
  "chain_next hosts h =
     (if truthy (h_jumpHostId h) then List.find (\<lambda>c. Some (h_id c) = h_jumpHostId h) (rev hosts) else None)"

function resolve_chain :: "host list \<Rightarrow> host \<Rightarrow> string list \<Rightarrow> host list \<Rightarrow> host list result" where
  "resolve_chain hosts h visited chain =
     (if h_id h \<in> set visited then Inl (cycle_error h)
      else case chain_next hosts h of
        None \<Rightarrow> Inr (h # chain)
      | Some j \<Rightarrow> resolve_chain hosts j (h_id h # visited) (h # chain))"
  by pat_completeness auto
termination
proof (relation "measure (\<lambda>(hosts, h, visited, chain). card (insert (h_id h) (h_id ` set hosts) - set visited))")
  fix hosts h visited and chain :: "host list" and j
  assume new: "h_id h \<notin> set visited" and j: "chain_next hosts h = Some j"
  have "h_id j \<in> h_id ` set hosts" using j find_Some_set by (fastforce simp: chain_next_def split: if_splits)
  then have "insert (h_id j) (h_id ` set hosts) - set (h_id h # visited) \<subset> insert (h_id h) (h_id ` set hosts) - set visited"
    using new by auto
  then show "((hosts, j, h_id h # visited, h # chain), hosts, h, visited, chain)
      \<in> measure (\<lambda>(hosts, h, visited, chain). card (insert (h_id h) (h_id ` set hosts) - set visited))"
    by (simp add: psubset_card_mono)
qed simp

declare resolve_chain.simps [simp del]

definition resolveConnectionChain :: "host list \<Rightarrow> host \<Rightarrow> host list result" where
  "resolveConnectionChain hosts h = resolve_chain hosts h [] []"

subsection \<open>What is missing\<close>

record secrets_env =
  se_demo :: bool
  se_tauri :: bool
  se_now :: string
  se_hosts :: "host list"
  se_keys :: "key list"
  se_identities :: "identity list"

record secret_requirement =
  needsPassword :: bool
  needsPassphrase :: bool

definition getHostSecretRequirement :: "secrets_env \<Rightarrow> secrets_memory \<Rightarrow> host \<Rightarrow> secret_requirement" where
  "getHostSecretRequirement env m h =
     (if se_demo env then \<lparr>needsPassword = False, needsPassphrase = False\<rparr>
      else let secrets = getHostConnectionSecrets m (h_id h);
               assignedKey = List.find (\<lambda>k. k_privateKeyPath k = h_privateKeyPath h) (se_keys env)
           in \<lparr>needsPassword = (h_authMethod h = AuthPassword \<and> sv_password secrets = []),
               needsPassphrase = (h_authMethod h = AuthPrivateKey \<and>
                 (case assignedKey of Some k \<Rightarrow> k_hasPassphrase k | None \<Rightarrow> False) \<and> sv_passphrase secrets = [])\<rparr>)"

definition satisfied :: "secrets_env \<Rightarrow> secrets_memory \<Rightarrow> host \<Rightarrow> bool" where
  "satisfied env m h \<longleftrightarrow> \<not> needsPassword (getHostSecretRequirement env m h) \<and> \<not> needsPassphrase (getHostSecretRequirement env m h)"

definition hydrate_entry ::
    "'k os_keychain \<Rightarrow> secrets_env \<Rightarrow> string \<Rightarrow> secrets_memory \<times> 'k \<Rightarrow> secrets_memory \<times> 'k" where
  "hydrate_entry os env hostId s =
     snd (hydrateHostSecrets os (se_tauri env) (se_now env) (map_option i_id (resolveHostIdentityFrom hostId (se_hosts env) (se_identities env)))
       (resolveHostKeyFingerprintFrom hostId (se_hosts env) (se_keys env)) hostId s)"

definition hydrateConnectionSecrets ::
    "'k os_keychain \<Rightarrow> secrets_env \<Rightarrow> host list \<Rightarrow> secrets_memory \<times> 'k \<Rightarrow> secrets_memory \<times> 'k" where
  "hydrateConnectionSecrets os env chain s = fold (\<lambda>h. hydrate_entry os env (h_id h)) chain s"

definition canRestoreSessionWithoutPrompt ::
    "'k os_keychain \<Rightarrow> secrets_env \<Rightarrow> host \<Rightarrow> secrets_memory \<times> 'k \<Rightarrow> bool result \<times> secrets_memory \<times> 'k" where
  "canRestoreSessionWithoutPrompt os env h s =
     (if se_demo env then (Inr True, s)
      else case resolveConnectionChain (se_hosts env) h of
        Inl e \<Rightarrow> (Inl e, s)
      | Inr chain \<Rightarrow> let s' = hydrateConnectionSecrets os env chain s in
          (Inr (list_all (satisfied env (fst s')) chain), s'))"

subsection \<open>The prompt\<close>

record secret_prompt =
  sp_actionLabel :: string
  sp_hostId :: string
  sp_hostLabel :: string
  sp_hostname :: string
  sp_username :: string
  sp_needs :: secret_requirement

definition prompt_for :: "string \<Rightarrow> host \<Rightarrow> secret_requirement \<Rightarrow> secret_prompt" where
  "prompt_for actionLabel h r = \<lparr>sp_actionLabel = actionLabel, sp_hostId = h_id h, sp_hostLabel = h_label h,
     sp_hostname = h_hostname h, sp_username = h_username h, sp_needs = r\<rparr>"

definition isInvalid :: "secret_prompt \<Rightarrow> secret_values \<Rightarrow> bool" where
  "isInvalid p v \<longleftrightarrow> (needsPassword (sp_needs p) \<and> sv_password v = []) \<or> (needsPassphrase (sp_needs p) \<and> sv_passphrase v = [])"

text \<open>
  The user submits the form with some values, again and again until they are valid, or closes it: the list
  holds what is submitted, and after it the form is closed. The first valid submission is stored.
\<close>

definition requestConnectionSecretsPrompt ::
    "'k os_keychain \<Rightarrow> secrets_env \<Rightarrow> secret_values list \<Rightarrow> secret_prompt \<Rightarrow> secrets_memory \<times> 'k \<Rightarrow> bool \<times> secrets_memory \<times> 'k" where
  "requestConnectionSecretsPrompt os env submitted p s =
     (case List.find (\<lambda>v. \<not> isInvalid p v) submitted of
        None \<Rightarrow> (False, s)
      | Some v \<Rightarrow> (True, setHostSecrets os (se_tauri env) (se_now env)
          (map_option i_id (resolveHostIdentityFrom (sp_hostId p) (se_hosts env) (se_identities env)))
          (resolveHostKeyFingerprintFrom (sp_hostId p) (se_hosts env) (se_keys env)) (sp_hostId p) v s))"

fun ensure_entries ::
    "'k os_keychain \<Rightarrow> secrets_env \<Rightarrow> string \<Rightarrow> bool \<Rightarrow> (secret_prompt \<Rightarrow> secret_values list) \<Rightarrow> host list \<Rightarrow>
     secrets_memory \<times> 'k \<Rightarrow> bool \<times> secrets_memory \<times> 'k" where
  "ensure_entries os env action interactive user [] s = (True, s)"
| "ensure_entries os env action interactive user (h # hs) s =
     (let s1 = hydrate_entry os env (h_id h) s; r = getHostSecretRequirement env (fst s1) h; p = prompt_for action h r in
      if \<not> needsPassword r \<and> \<not> needsPassphrase r then ensure_entries os env action interactive user hs s1
      else if \<not> interactive then (False, s1)
      else case requestConnectionSecretsPrompt os env (user p) p s1 of
        (False, s2) \<Rightarrow> (False, s2)
      | (True, s2) \<Rightarrow> ensure_entries os env action interactive user hs s2)"

definition ensureRuntimeSecrets ::
    "'k os_keychain \<Rightarrow> secrets_env \<Rightarrow> host \<Rightarrow> string \<Rightarrow> bool \<Rightarrow> (secret_prompt \<Rightarrow> secret_values list) \<Rightarrow>
     secrets_memory \<times> 'k \<Rightarrow> bool result \<times> secrets_memory \<times> 'k" where
  "ensureRuntimeSecrets os env h action interactive user s =
     (if se_demo env then (Inr True, s)
      else case resolveConnectionChain (se_hosts env) h of
        Inl e \<Rightarrow> (Inl e, s)
      | Inr chain \<Rightarrow> apfst Inr (ensure_entries os env action interactive user chain s))"

subsection \<open>The chain\<close>

lemma chain_starts:
  assumes "resolve_chain hosts h visited chain = Inr r"
  shows "\<exists>pre. r = pre @ h # chain"
  using assms
proof (induction hosts h visited chain rule: resolve_chain.induct)
  case (1 hosts h visited chain)
  show ?case
  proof (cases "chain_next hosts h")
    case None
    with 1(2) show ?thesis by (simp add: resolve_chain.simps[of hosts h] split: if_splits)
  next
    case (Some j)
    with 1(2) have "h_id h \<notin> set visited" "resolve_chain hosts j (h_id h # visited) (h # chain) = Inr r"
      by (simp_all add: resolve_chain.simps[of hosts h] split: if_splits)
    from 1(1)[OF this(1) Some this(2)] show ?thesis by auto
  qed
qed

lemma chain_distinct:
  assumes "resolve_chain hosts h visited chain = Inr r" "distinct (map h_id chain)" "h_id ` set chain \<subseteq> set visited"
  shows "distinct (map h_id r)"
  using assms
proof (induction hosts h visited chain rule: resolve_chain.induct)
  case (1 hosts h visited chain)
  have n: "h_id h \<notin> set visited" using 1(2) by (simp add: resolve_chain.simps[of hosts h] split: if_splits)
  then have d: "distinct (map h_id (h # chain))" using 1(3,4) by auto
  show ?case
  proof (cases "chain_next hosts h")
    case None
    with 1(2) n have "r = h # chain" by (simp add: resolve_chain.simps[of hosts h])
    with d show ?thesis by simp
  next
    case (Some j)
    with 1(2) n have "resolve_chain hosts j (h_id h # visited) (h # chain) = Inr r"
      by (simp add: resolve_chain.simps[of hosts h])
    from 1(1)[OF n Some this d] 1(4) show ?thesis by auto
  qed
qed

lemma chain_ids: "resolveConnectionChain hosts h = Inr r \<Longrightarrow> distinct (map h_id r)"
  unfolding resolveConnectionChain_def by (drule chain_distinct) simp_all

lemma chain_next_target:
  assumes "needs_jump h" "distinct (map h_id (ce_hosts env))"
  shows "chain_next (ce_hosts env) h = jump_target env h"
proof -
  have t: "truthy (h_jumpHostId h)" using assms(1) by (simp add: needs_jump_def)
  have "List.find (\<lambda>c. Some (h_id c) = i) (rev hosts) = List.find (\<lambda>c. Some (h_id c) = i) hosts"
    if "distinct (map h_id hosts)" for hosts i
  proof (cases "\<exists>c \<in> set hosts. Some (h_id c) = i")
    case False
    then have "List.find (\<lambda>c. Some (h_id c) = i) hosts = None" "List.find (\<lambda>c. Some (h_id c) = i) (rev hosts) = None"
      by (auto simp: find_None_iff)
    then show ?thesis by simp
  next
    case True
    then have "List.find (\<lambda>c. Some (h_id c) = i) hosts \<noteq> None" "List.find (\<lambda>c. Some (h_id c) = i) (rev hosts) \<noteq> None"
      by (auto simp: find_None_set)
    then obtain a b where a: "List.find (\<lambda>c. Some (h_id c) = i) hosts = Some a"
        and b: "List.find (\<lambda>c. Some (h_id c) = i) (rev hosts) = Some b" by blast
    have "Some (h_id a) = i" "a \<in> set hosts" "Some (h_id b) = i" "b \<in> set hosts"
      using find_Some_set[OF a] find_Some_set[OF b] by simp_all
    then have "a = b" using that by (metis distinct_map inj_onD option.inject)
    with a b show ?thesis by simp
  qed
  from this[OF assms(2), of "h_jumpHostId h"] t show ?thesis by (simp add: chain_next_def jump_target_def)
qed

lemma route_known: "route env h p \<Longrightarrow> set p \<subseteq> insert h (set (ce_hosts env))"
proof (induction rule: route.induct)
  case (next_hop h j p)
  from find_Some_set[OF next_hop(2)[unfolded jump_target_def]] next_hop(4) show ?case by auto
qed simp

text \<open>The chain holds every host the connection goes through.\<close>

lemma route_in_chain:
  assumes "route env h p" "distinct (map h_id (ce_hosts env))"
    and "resolve_chain (ce_hosts env) h visited chain = Inr r"
  shows "set p \<subseteq> set r"
  using assms(1,3)
proof (induction arbitrary: visited chain rule: route.induct)
  case (last_hop h)
  then show ?case using chain_starts by fastforce
next
  case (next_hop h j p)
  then have "resolve_chain (ce_hosts env) j (h_id h # visited) (h # chain) = Inr r"
    using chain_next_target[OF next_hop(1) assms(2)] by (simp add: resolve_chain.simps[of _ h] split: if_splits)
  with next_hop(4) chain_starts[OF next_hop(5)] show ?case by fastforce
qed

subsection \<open>Nothing is missing afterwards\<close>

lemma hydrate_finish_get:
  "getHostConnectionSecrets (snd (hydrate_finish now i loaded m)) j = getHostConnectionSecrets m j \<or>
   (j = i \<and> getHostConnectionSecrets m j = emptySecrets)"
  by (auto simp: hydrate_finish_def getHostConnectionSecrets_def Let_def obj_get_set split: sum.splits option.splits)

lemma hydrate_start_get:
  "hydrate_start tauri i m = (x, m') \<Longrightarrow> getHostConnectionSecrets m' j = getHostConnectionSecrets m j"
  by (auto simp: hydrate_start_def getHostConnectionSecrets_def split: option.splits if_splits)

text \<open>Loading the secrets of a host changes only that host, and only when it has none in memory.\<close>

lemma hydrate_entry_get:
  "getHostConnectionSecrets (fst (hydrate_entry os env i s)) j = getHostConnectionSecrets (fst s) j \<or>
   (j = i \<and> getHostConnectionSecrets (fst s) j = emptySecrets)"
proof -
  obtain m k where s: "s = (m, k)" by (cases s)
  obtain x m' where x: "hydrate_start (se_tauri env) i m = (x, m')" by (cases "hydrate_start (se_tauri env) i m")
  show ?thesis
  proof (cases "\<exists>r. x = Ready r")
    case False
    obtain loaded k' where l: "loadSecretsWithMultiStageMigration os (se_tauri env) i
        (map_option i_id (resolveHostIdentityFrom i (se_hosts env) (se_identities env)))
        (resolveHostKeyFingerprintFrom i (se_hosts env) (se_keys env)) k = (loaded, k')" by fastforce
    have h: "hydrate_entry os env i s = (snd (hydrate_finish (se_now env) i loaded m'), k')"
      using x False by (cases x) (simp_all add: hydrate_entry_def hydrateHostSecrets_def s l split: prod.split)
    show ?thesis using hydrate_finish_get[of "se_now env" i loaded m' j] hydrate_start_get[OF x] h s by simp
  qed (use x hydrate_start_get[OF x] in \<open>auto simp: hydrate_entry_def hydrateHostSecrets_def s\<close>)
qed

lemma satisfied_cong:
  "getHostConnectionSecrets m' (h_id h) = getHostConnectionSecrets m (h_id h) \<Longrightarrow> satisfied env m' h = satisfied env m h"
  by (simp add: satisfied_def getHostSecretRequirement_def Let_def)

lemma hydrate_satisfied: "satisfied env (fst s) h \<Longrightarrow> satisfied env (fst (hydrate_entry os env i s)) h"
  using hydrate_entry_get[of os env i s "h_id h"]
  by (auto simp: satisfied_def getHostSecretRequirement_def Let_def emptySecrets_def)

lemma hydrate_other: "h_id h \<noteq> i \<Longrightarrow> satisfied env (fst (hydrate_entry os env i s)) h = satisfied env (fst s) h"
  using hydrate_entry_get[of os env i s "h_id h"] satisfied_cong by blast

lemma prompt_satisfied:
  assumes "requestConnectionSecretsPrompt os env submitted (prompt_for action h (getHostSecretRequirement env (fst s) h)) s = (True, s')"
    and "\<not> satisfied env (fst s) h"
  shows "satisfied env (fst s') h" "h_id g \<noteq> h_id h \<Longrightarrow> satisfied env (fst s') g = satisfied env (fst s) g"
proof -
  let ?r = "getHostSecretRequirement env (fst s) h"
  from assms(1) obtain v where v: "\<not> isInvalid (prompt_for action h ?r) v" and m: "fst s' = set_memory (se_now env) (h_id h) v (fst s)"
    by (auto simp: requestConnectionSecretsPrompt_def setHostSecrets_def prompt_for_def dest: find_Some_set split: option.splits prod.splits)
  have "getHostConnectionSecrets (fst s') (h_id h) = v"
    by (cases v) (auto simp: m set_memory_def getHostConnectionSecrets_def hasConnectionSecrets_def buildSecretRecord_def
        emptySecrets_def obj_get_set obj_get_del)
  with v assms(2) show "satisfied env (fst s') h"
    by (auto simp: satisfied_def isInvalid_def prompt_for_def getHostSecretRequirement_def Let_def split: if_splits option.splits)
  assume "h_id g \<noteq> h_id h"
  then have "getHostConnectionSecrets (fst s') (h_id g) = getHostConnectionSecrets (fst s) (h_id g)"
    by (simp add: m set_memory_def getHostConnectionSecrets_def obj_get_set obj_get_del)
  then show "satisfied env (fst s') g = satisfied env (fst s) g" by (rule satisfied_cong)
qed

lemma ensure_step:
  assumes "ensure_entries os env action interactive user (h # hs) s = (True, s')"
  shows "\<exists>s2. ensure_entries os env action interactive user hs s2 = (True, s') \<and> satisfied env (fst s2) h \<and>
    (\<forall>g. h_id g \<noteq> h_id h \<longrightarrow> satisfied env (fst s2) g = satisfied env (fst s) g)"
proof -
  let ?s1 = "hydrate_entry os env (h_id h) s"
  let ?r = "getHostSecretRequirement env (fst ?s1) h"
  show ?thesis
  proof (cases "satisfied env (fst ?s1) h")
    case True
    with assms have "ensure_entries os env action interactive user hs ?s1 = (True, s')" by (simp add: satisfied_def Let_def)
    with True hydrate_other[of _ "h_id h" env os s] show ?thesis by blast
  next
    case False
    with assms obtain s2 where s2: "requestConnectionSecretsPrompt os env (user (prompt_for action h ?r)) (prompt_for action h ?r) ?s1 = (True, s2)"
        "ensure_entries os env action interactive user hs s2 = (True, s')"
      by (auto simp: satisfied_def Let_def split: if_splits prod.splits bool.splits)
    from prompt_satisfied[OF s2(1) False] hydrate_other[of _ "h_id h" env os s] s2(2) show ?thesis by blast
  qed
qed

lemma ensure_satisfied:
  assumes "ensure_entries os env action interactive user hs s = (True, s')" "distinct (map h_id hs)"
  shows "list_all (satisfied env (fst s')) hs \<and>
    (\<forall>g. h_id g \<notin> h_id ` set hs \<longrightarrow> satisfied env (fst s') g = satisfied env (fst s) g)"
  using assms
proof (induction hs arbitrary: s)
  case (Cons h hs)
  obtain s2 where s2: "ensure_entries os env action interactive user hs s2 = (True, s')" "satisfied env (fst s2) h"
      "\<And>g. h_id g \<noteq> h_id h \<Longrightarrow> satisfied env (fst s2) g = satisfied env (fst s) g"
    using ensure_step[OF Cons.prems(1)] by auto
  from Cons.IH[OF s2(1)] Cons.prems(2) s2(2,3) show ?case by auto
qed simp

text \<open>Asking nobody gives the same answer as checking whether a session can be restored.\<close>

lemma restore_step:
  assumes "ensure_entries os env action False user hs s = (b, s')" "distinct (map h_id hs)"
  shows "b = list_all (satisfied env (fst (hydrateConnectionSecrets os env hs s))) hs \<and>
    (\<forall>g. h_id g \<notin> h_id ` set hs \<longrightarrow> satisfied env (fst (hydrateConnectionSecrets os env hs s)) g = satisfied env (fst s) g)"
  using assms
proof (induction hs arbitrary: s b s')
  case Nil
  then show ?case by (simp add: hydrateConnectionSecrets_def)
next
  case (Cons h hs)
  let ?s1 = "hydrate_entry os env (h_id h) s"
  obtain b' t where b': "ensure_entries os env action False user hs ?s1 = (b', t)" by (rule prod.exhaust)
  have later: "hydrateConnectionSecrets os env (h # hs) s = hydrateConnectionSecrets os env hs ?s1"
    by (simp add: hydrateConnectionSecrets_def)
  have b: "b = (satisfied env (fst ?s1) h \<and> b')"
    using Cons.prems(1) b' by (auto simp: satisfied_def Let_def split: if_splits)
  have ih: "b' = list_all (satisfied env (fst (hydrateConnectionSecrets os env hs ?s1))) hs"
    "\<And>g. h_id g \<notin> h_id ` set hs \<Longrightarrow> satisfied env (fst (hydrateConnectionSecrets os env hs ?s1)) g = satisfied env (fst ?s1) g"
    using Cons.IH[OF b'] Cons.prems(2) by auto
  have "h_id h \<notin> h_id ` set hs" using Cons.prems(2) by auto
  then show ?case unfolding later using b ih hydrate_other[of _ "h_id h" env os s] by auto
qed

text \<open>C28: Whether a session can be restored without a prompt is exactly whether asking for the secrets without
  prompting succeeds: the two functions agree for every host, keychain and memory, cycles of jump hosts and
  the demo mode included.\<close>

theorem restore_iff_no_prompt:
  "fst (canRestoreSessionWithoutPrompt os env h s) = fst (ensureRuntimeSecrets os env h action False user s)"
proof (cases "se_demo env")
  case True
  then show ?thesis by (simp add: canRestoreSessionWithoutPrompt_def ensureRuntimeSecrets_def)
next
  case False
  show ?thesis
  proof (cases "resolveConnectionChain (se_hosts env) h")
    case (Inl e)
    with False show ?thesis by (simp add: canRestoreSessionWithoutPrompt_def ensureRuntimeSecrets_def)
  next
    case (Inr chain)
    obtain b s' where b: "ensure_entries os env action False user chain s = (b, s')" by (rule prod.exhaust)
    from restore_step[OF this chain_ids[OF Inr]] b False Inr show ?thesis
      by (simp add: canRestoreSessionWithoutPrompt_def ensureRuntimeSecrets_def Let_def)
  qed
qed

subsection \<open>The request\<close>

lemma hops_of_route:
  assumes "assemble_route env p = Some c" "d \<in> set (hops c)"
  shows "\<exists>h \<in> set p. bc_authMethod d = effective_auth env h \<and>
    bc_password d = sv_password (getHostConnectionSecrets (ce_secrets env) (h_id h)) \<and>
    bc_passphrase d = sv_passphrase (getHostConnectionSecrets (ce_secrets env) (h_id h)) \<and>
    bc_privateKeyPath d = effective_key_path env h"
  using assms
proof (induction p arbitrary: c)
  case (Cons h p)
  from Cons.prems(1) have c: "c = assemble env h (assemble_route env p)" by simp
  show ?case
  proof (cases "d = c")
    case True
    then show ?thesis by (simp add: c assemble_def Let_def)
  next
    case False
    with Cons.prems(2) obtain c' where "assemble_route env p = Some c'" "d \<in> set (hops c')"
      unfolding c by (cases "assemble_route env p") (auto simp: hops_assemble)
    from Cons.IH[OF this] show ?thesis by auto
  qed
qed simp

definition connection_secrets :: "secrets_env \<Rightarrow> known_host list \<Rightarrow> secrets_memory \<Rightarrow> connection_env" where
  "connection_secrets env known m = \<lparr>ce_knownHosts = known, ce_secrets = m, ce_identities = se_identities env, ce_hosts = se_hosts env\<rparr>"

text \<open>C14: When asking for the secrets succeeds, the request that is then built holds them: no hop of it
  authenticates with an empty password, and none with a key that is known to have a passphrase and no
  passphrase, as long as the hosts are not bound to identities. Loading one host's secrets, or entering
  them, never takes away those of another hop.\<close>

theorem ready_request_has_secrets:
  assumes "ensureRuntimeSecrets os env h action interactive user s = (Inr True, s')" "\<not> se_demo env"
    and "distinct (map h_id (se_hosts env))" "list_all (\<lambda>g. \<not> truthy (h_identityId g)) (h # se_hosts env)"
    and "buildBackendConnection (connection_secrets env known (fst s')) h = Inr c"
  shows "list_all (\<lambda>d. (bc_authMethod d = AuthPassword \<longrightarrow> bc_password d \<noteq> []) \<and>
     (bc_authMethod d = AuthPrivateKey \<and> (\<exists>k. List.find (\<lambda>k. k_privateKeyPath k = bc_privateKeyPath d) (se_keys env) = Some k \<and>
        k_hasPassphrase k) \<longrightarrow> bc_passphrase d \<noteq> [])) (hops c)"
proof -
  let ?e = "connection_secrets env known (fst s')"
  obtain chain where chain: "resolveConnectionChain (se_hosts env) h = Inr chain"
      and e: "ensure_entries os env action interactive user chain s = (True, s')"
    using assms(1,2) by (auto simp: ensureRuntimeSecrets_def apfst_def map_prod_def split: sum.splits prod.splits)
  have sat: "list_all (satisfied env (fst s')) chain" using ensure_satisfied[OF e chain_ids[OF chain]] ..
  obtain p where p: "route ?e h p" "assemble_route ?e p = Some c"
    using assms(5) build_route[of "[]" ?e h c] unfolding buildBackendConnection_def by auto
  have sub: "set p \<subseteq> set chain"
    using route_in_chain[OF p(1)] assms(3) chain by (simp add: resolveConnectionChain_def connection_secrets_def)
  have known: "set p \<subseteq> set (h # se_hosts env)" using route_known[OF p(1)] by (auto simp: connection_secrets_def)
  have "\<exists>g. d = d \<and> satisfied env (fst s') g \<and> bc_authMethod d = h_authMethod g \<and> bc_privateKeyPath d = h_privateKeyPath g \<and>
      bc_password d = sv_password (getHostConnectionSecrets (fst s') (h_id g)) \<and>
      bc_passphrase d = sv_passphrase (getHostConnectionSecrets (fst s') (h_id g))" if "d \<in> set (hops c)" for d
  proof -
    from hops_of_route[OF p(2) \<open>d \<in> set (hops c)\<close>] obtain g where g: "g \<in> set p" "bc_authMethod d = effective_auth ?e g"
      "bc_password d = sv_password (getHostConnectionSecrets (fst s') (h_id g))"
      "bc_passphrase d = sv_passphrase (getHostConnectionSecrets (fst s') (h_id g))"
      "bc_privateKeyPath d = effective_key_path ?e g" by (auto simp: connection_secrets_def)
    have "\<not> truthy (h_identityId g)" using g(1) known assms(4) by (auto simp: list_all_iff)
    then have "resolveIdentityForHost g (se_identities env) = None" by (simp add: resolveIdentityForHost_def)
    with g sub sat show ?thesis
      by (intro exI[of _ g]) (auto simp: effective_auth_def effective_key_path_def connection_secrets_def list_all_iff)
  qed
  then show ?thesis using assms(2)
    by (fastforce simp: list_all_iff satisfied_def getHostSecretRequirement_def Let_def)
qed

text \<open>Two hosts that authenticate with a password, one behind the other.\<close>

definition front_host :: host where
  "front_host = (hd sampleHosts)\<lparr>h_authMethod := AuthPassword, h_privateKeyPath := [], h_hostKeyPolicy := AllowUnknown,
     h_identityId := None\<rparr>"

definition inner_host :: host where
  "inner_host = front_host\<lparr>h_id := ''inner'', h_jumpHostId := Some ''prod-gateway''\<rparr>"

definition two_hosts :: secrets_env where
  "two_hosts = \<lparr>se_demo = False, se_tauri = False, se_now = ''t'', se_hosts = [front_host, inner_host], se_keys = [], se_identities = []\<rparr>"

definition no_keychain :: "unit os_keychain" where
  "no_keychain = \<lparr>os_read = (\<lambda>_ _ _. Missing), os_add = (\<lambda>_ _ _ _. (Inr (), ())), os_delete = (\<lambda>_ _ _. (Inr (), ()))\<rparr>"

text \<open>The user first submits nothing, then a password that differs per host.\<close>

definition patient_user :: "secret_prompt \<Rightarrow> secret_values list" where
  "patient_user p = [\<lparr>sv_password = [], sv_passphrase = []\<rparr>, \<lparr>sv_password = sp_hostId p, sv_passphrase = []\<rparr>]"

definition after_prompts :: "bool result \<times> secrets_memory \<times> unit" where
  "after_prompts = ensureRuntimeSecrets no_keychain two_hosts inner_host ''Open'' True patient_user (secrets_initial, ())"

lemma after_prompts_ready: "fst after_prompts = Inr True"
  by code_simp

theorem ready_request_has_secrets_witness:
  "case buildBackendConnection (connection_secrets two_hosts [] (fst (snd after_prompts))) inner_host of
     Inl _ \<Rightarrow> False
   | Inr c \<Rightarrow> length (hops c) = 2 \<and> list_all (\<lambda>d. bc_authMethod d = AuthPassword \<longrightarrow> bc_password d \<noteq> []) (hops c)"
proof -
  let ?b = "buildBackendConnection (connection_secrets two_hosts [] (fst (snd after_prompts))) inner_host"
  have two: "case ?b of Inl _ \<Rightarrow> False | Inr c \<Rightarrow> length (hops c) = 2" by code_simp
  then obtain c where c: "?b = Inr c" by (auto split: sum.splits)
  have e: "ensureRuntimeSecrets no_keychain two_hosts inner_host ''Open'' True patient_user (secrets_initial, ()) = (Inr True, snd after_prompts)"
    using after_prompts_ready by (simp add: after_prompts_def prod_eq_iff)
  have "\<not> se_demo two_hosts" "distinct (map h_id (se_hosts two_hosts))"
    "list_all (\<lambda>g. \<not> truthy (h_identityId g)) (inner_host # se_hosts two_hosts)" by code_simp+
  from ready_request_has_secrets[OF e this c] two show ?thesis unfolding c by (auto simp: list_all_iff)
qed

subsection \<open>Where the requirements and the request differ\<close>

text \<open>
  The requirements read the login of the host, the request that of the identity it is bound to: with an
  identity that uses a password, nothing is asked and the request holds an empty one.
\<close>

definition bound_host :: host where
  "bound_host = front_host\<lparr>h_authMethod := AuthPrivateKey, h_identityId := Some ''i''\<rparr>"

definition password_identity :: identity where
  "password_identity = \<lparr>i_id = ''i'', i_label = ''i'', i_username = ''ops'', i_authMethod = AuthPassword, i_privateKeyPath = [],
     i_keyId = None, i_hasPassphrase = False, i_comment = [], i_source = ImportedIdentity, i_createdAt = [], i_updatedAt = []\<rparr>"

lemma identity_password_not_asked:
  "let env = two_hosts\<lparr>se_hosts := [bound_host], se_identities := [password_identity]\<rparr>;
       (r, m, k) = ensureRuntimeSecrets no_keychain env bound_host ''Open'' True patient_user (secrets_initial, ())
   in r = Inr True \<and> (case buildBackendConnection (connection_secrets env [] m) bound_host of
        Inl _ \<Rightarrow> False | Inr c \<Rightarrow> bc_authMethod c = AuthPassword \<and> bc_password c = [])"
  by code_simp

text \<open>
  A jump host that is left in the record of a host whose protocol has no jump hosts is asked for its secrets
  all the same, and when it refers back to the host, the connection that would not use it is refused.
\<close>

lemma unused_jump_host_is_asked:
  "let h = inner_host\<lparr>h_protocol := Telnet, h_authMethod := AuthNone\<rparr>; env = two_hosts\<lparr>se_hosts := [front_host, h]\<rparr>
   in fst (ensureRuntimeSecrets no_keychain env h ''Open'' True (\<lambda>_. []) (secrets_initial, ())) = Inr False \<and>
      (case buildBackendConnection (connection_secrets env [] secrets_initial) h of Inl _ \<Rightarrow> False | Inr c \<Rightarrow> bc_jumpHost c = None)"
  by code_simp

subsection \<open>The prompt of several callers (\<open>store/connection-secret-prompt-store.ts\<close>)\<close>

text \<open>
  One prompt is shown at a time. A caller with the same question waits for its answer; a caller with another
  question is turned away. The state is the prompt that is shown with the callers who wait for it, and the
  answers given so far. The moment between an answer and its continuation is not a state of its own.
\<close>

definition getPromptKey :: "secret_prompt \<Rightarrow> string" where
  "getPromptKey p = join '':'' [sp_actionLabel p, sp_hostId p,
     (if needsPassword (sp_needs p) then ''password'' else []), (if needsPassphrase (sp_needs p) then ''passphrase'' else [])]"

record prompt_store =
  ps_pending :: "(secret_prompt \<times> nat list) option"
  ps_answers :: "(nat \<times> bool) list"

definition no_prompt :: prompt_store where
  "no_prompt = \<lparr>ps_pending = None, ps_answers = []\<rparr>"

definition open_secret_prompt :: "nat \<Rightarrow> secret_prompt \<Rightarrow> prompt_store \<Rightarrow> prompt_store" where
  "open_secret_prompt caller p s =
     (case ps_pending s of
        None \<Rightarrow> s\<lparr>ps_pending := Some (p, [caller])\<rparr>
      | Some (q, waiting) \<Rightarrow>
          if getPromptKey q = getPromptKey p then s\<lparr>ps_pending := Some (q, waiting @ [caller])\<rparr>
          else s\<lparr>ps_answers := ps_answers s @ [(caller, False)]\<rparr>)"

definition clear_secret_prompt :: "bool \<Rightarrow> prompt_store \<Rightarrow> prompt_store" where
  "clear_secret_prompt accepted s =
     (case ps_pending s of
        None \<Rightarrow> s
      | Some (q, waiting) \<Rightarrow> \<lparr>ps_pending = None, ps_answers = ps_answers s @ map (\<lambda>c. (c, accepted)) waiting\<rparr>)"

definition waiting_callers :: "prompt_store \<Rightarrow> nat list" where
  "waiting_callers s = (case ps_pending s of None \<Rightarrow> [] | Some (_, waiting) \<Rightarrow> waiting)"

datatype prompt_event = Open_prompt nat secret_prompt | Close_prompt bool

definition handle_prompt :: "prompt_event \<Rightarrow> prompt_store \<Rightarrow> prompt_store" where
  "handle_prompt e s = (case e of Open_prompt c p \<Rightarrow> open_secret_prompt c p s | Close_prompt b \<Rightarrow> clear_secret_prompt b s)"

definition opened_by :: "prompt_event \<Rightarrow> nat list" where
  "opened_by e = (case e of Open_prompt c _ \<Rightarrow> [c] | Close_prompt _ \<Rightarrow> [])"

definition prompt_callers :: "prompt_store \<Rightarrow> nat multiset" where
  "prompt_callers s = mset (map fst (ps_answers s) @ waiting_callers s)"

lemma prompt_callers_step: "prompt_callers (handle_prompt e s) = prompt_callers s + mset (opened_by e)"
proof (cases "ps_pending s")
  case None
  then show ?thesis by (cases e) (simp_all add: handle_prompt_def open_secret_prompt_def clear_secret_prompt_def
        waiting_callers_def opened_by_def prompt_callers_def)
next
  case (Some q)
  obtain p waiting where q: "q = (p, waiting)" by (cases q)
  have "map fst (map (\<lambda>c. (c, accepted)) waiting) = waiting" for accepted :: bool by (induction waiting) simp_all
  with Some q show ?thesis by (cases e) (simp_all add: handle_prompt_def open_secret_prompt_def clear_secret_prompt_def
        waiting_callers_def opened_by_def prompt_callers_def del: map_map)
qed

text \<open>No caller is forgotten and none is answered twice: each waits for the prompt or has its answer.\<close>

lemma every_caller_is_answered:
  "prompt_callers (fold handle_prompt es no_prompt) = mset (concat (map opened_by es))"
proof (induction es rule: rev_induct)
  case Nil
  show ?case by (simp add: prompt_callers_def no_prompt_def waiting_callers_def)
next
  case (snoc e es)
  then show ?case by (simp add: prompt_callers_step)
qed

text \<open>Two hosts that are opened at the same time: the user answers for the first, the second is told no.\<close>

lemma second_host_is_turned_away:
  "getPromptKey (prompt_for ''Open'' front_host r) \<noteq> getPromptKey (prompt_for ''Open'' inner_host r) \<Longrightarrow>
   ps_answers (fold handle_prompt [Open_prompt 0 (prompt_for ''Open'' front_host r), Open_prompt 1 (prompt_for ''Open'' inner_host r),
     Close_prompt True] no_prompt) = [(1, False), (0, True)]"
  by (simp add: handle_prompt_def open_secret_prompt_def clear_secret_prompt_def no_prompt_def)

end
