(* ===== verification/FailureMessages.thy ===== *)
theory FailureMessages
  imports Json BackendShell
begin

section \<open>Messages for failures (\<open>lib/backend-failure-messages.ts\<close>)\<close>

text \<open>
  Failures come from the backend as objects with a \<open>reason\<close>; what is caught may also be an error, a text or
  anything else. The formatters read unknown objects, so the model has both: the failures of the contract
  as datatypes, with the objects that stand for them, and the formatters on arbitrary values.
\<close>

datatype caught =
  Plain_object "(string \<times> json) list"
| Error_object string "(string \<times> json) list"
| Text_value string
| Other_value

definition own_fields :: "caught \<Rightarrow> (string \<times> json) list option" where
  "own_fields e = (case e of Plain_object fs \<Rightarrow> Some fs | Error_object _ fs \<Rightarrow> Some fs | _ \<Rightarrow> None)"

text \<open>The reason of an object that has one, and its path.\<close>

definition reason_of :: "(string \<times> json) list \<Rightarrow> string option" where
  "reason_of fs = (case obj_get fs ''reason'' of Some (JString r) \<Rightarrow> Some r | _ \<Rightarrow> None)"

definition pathFailure :: "(string \<times> json) list \<Rightarrow> string option" where
  "pathFailure fs = (case obj_get fs ''path'' of Some (JString p) \<Rightarrow> Some p | _ \<Rightarrow> None)"

definition with_path :: "string \<Rightarrow> string \<Rightarrow> (string \<times> json) list \<Rightarrow> string option" where
  "with_path before after fs = map_option (\<lambda>p. before @ p @ after) (pathFailure fs)"

subsection \<open>Failures of the key commands\<close>

datatype key_operation = Inspect_key | Generate_key

datatype key_failure =
  Path_required
| Key_body_required
| Path_must_be_absolute string
| Path_outside_allowed_roots string
| Parent_directory_unavailable string
| Path_already_exists string
| Private_key_unreadable string
| Private_key_write_failed string
| Unsupported_key_type
| Passphrase_contains_newline
| Ssh_keygen_unavailable key_operation string
| Ssh_keygen_failed key_operation string
| Invalid_key_metadata string
| Key_worker_failed string

definition key_reason_message :: "string \<Rightarrow> (string \<times> json) list \<Rightarrow> string option" where
  "key_reason_message r fs =
     (if r = ''path-required'' then Some ''A private key path is required.''
      else if r = ''key-body-required'' then Some ''A private key body is required.''
      else if r = ''path-must-be-absolute'' then with_path ''Private key path '' '' must be absolute or start with ~/.'' fs
      else if r = ''path-outside-allowed-roots'' then
        with_path ''Private key path '' '' is outside the approved user-owned locations.'' fs
      else if r = ''parent-directory-unavailable'' then with_path ''Could not create the parent directory for '' ''.'' fs
      else if r = ''path-already-exists'' then with_path ''A key already exists at '' ''.'' fs
      else if r = ''private-key-unreadable'' then with_path ''Could not read private key at '' ''.'' fs
      else if r = ''private-key-write-failed'' then with_path ''Could not write private key at '' ''.'' fs
      else if r = ''unsupported-key-type'' then Some ''Choose an ED25519, ECDSA, or RSA key type.''
      else if r = ''passphrase-contains-newline'' then Some ''The passphrase cannot contain a line break.''
      else if r = ''ssh-keygen-unavailable'' then with_path ''Could not start ssh-keygen for '' ''.'' fs
      else if r = ''ssh-keygen-failed'' then
        with_path (if obj_get fs ''operation'' = Some (JString ''generate'')
          then ''ssh-keygen could not generate a private key at '' else ''ssh-keygen could not inspect the private key at '') ''.'' fs
      else if r = ''invalid-key-metadata'' then with_path ''ssh-keygen returned invalid metadata for '' ''.'' fs
      else if r = ''worker-failed'' then with_path ''The private-key operation failed for '' ''.'' fs
      else None)"

definition keyCommandFailureMessage :: "caught \<Rightarrow> string option" where
  "keyCommandFailureMessage e =
     (case own_fields e of
        None \<Rightarrow> None
      | Some fs \<Rightarrow> (case reason_of fs of None \<Rightarrow> None | Some r \<Rightarrow> key_reason_message r fs))"

definition BACKEND_REQUEST_FAILED :: string where
  "BACKEND_REQUEST_FAILED = ''The backend request failed.''"

definition formatBackendFailure :: "caught \<Rightarrow> string" where
  "formatBackendFailure e =
     (if truthy (keyCommandFailureMessage e) then the (keyCommandFailureMessage e)
      else case e of
        Error_object message _ \<Rightarrow> message
      | Text_value t \<Rightarrow> t
      | _ \<Rightarrow> BACKEND_REQUEST_FAILED)"

text \<open>The object that stands for a failure.\<close>

fun operation_name :: "key_operation \<Rightarrow> string" where
  "operation_name Inspect_key = ''inspect''" | "operation_name Generate_key = ''generate''"

fun key_failure_fields :: "key_failure \<Rightarrow> (string \<times> json) list" where
  "key_failure_fields Path_required = [(''reason'', JString ''path-required'')]"
| "key_failure_fields Key_body_required = [(''reason'', JString ''key-body-required'')]"
| "key_failure_fields (Path_must_be_absolute p) = [(''reason'', JString ''path-must-be-absolute''), (''path'', JString p)]"
| "key_failure_fields (Path_outside_allowed_roots p) = [(''reason'', JString ''path-outside-allowed-roots''), (''path'', JString p)]"
| "key_failure_fields (Parent_directory_unavailable p) = [(''reason'', JString ''parent-directory-unavailable''), (''path'', JString p)]"
| "key_failure_fields (Path_already_exists p) = [(''reason'', JString ''path-already-exists''), (''path'', JString p)]"
| "key_failure_fields (Private_key_unreadable p) = [(''reason'', JString ''private-key-unreadable''), (''path'', JString p)]"
| "key_failure_fields (Private_key_write_failed p) = [(''reason'', JString ''private-key-write-failed''), (''path'', JString p)]"
| "key_failure_fields Unsupported_key_type = [(''reason'', JString ''unsupported-key-type'')]"
| "key_failure_fields Passphrase_contains_newline = [(''reason'', JString ''passphrase-contains-newline'')]"
| "key_failure_fields (Ssh_keygen_unavailable op p) =
     [(''reason'', JString ''ssh-keygen-unavailable''), (''operation'', JString (operation_name op)), (''path'', JString p)]"
| "key_failure_fields (Ssh_keygen_failed op p) =
     [(''reason'', JString ''ssh-keygen-failed''), (''operation'', JString (operation_name op)), (''path'', JString p)]"
| "key_failure_fields (Invalid_key_metadata p) = [(''reason'', JString ''invalid-key-metadata''), (''path'', JString p)]"
| "key_failure_fields (Key_worker_failed p) = [(''reason'', JString ''worker-failed''), (''path'', JString p)]"

subsection \<open>Failures of the Include commands\<close>

datatype include_operation = Read_include | Glob_include

datatype include_failure_reason =
  Ssh_root_unavailable | Invalid_path | Path_unavailable | Path_outside_ssh_root | Path_not_regular_file
| Size_limit_exceeded | Read_failed | Glob_in_directory_component | Include_worker_failed

definition include_target :: "include_operation \<Rightarrow> string \<Rightarrow> string" where
  "include_target op p = (case op of Read_include \<Rightarrow> ''SSH config Include '' | Glob_include \<Rightarrow> ''SSH config Include glob '') @ p"

definition sshConfigCommandFailureMessage :: "caught \<Rightarrow> include_operation \<Rightarrow> string option" where
  "sshConfigCommandFailureMessage e op =
     (case own_fields e of
        None \<Rightarrow> None
      | Some fs \<Rightarrow> (case (reason_of fs, pathFailure fs) of
          (Some r, Some p) \<Rightarrow> (let target = include_target op p in
            if r = ''ssh-root-unavailable'' then Some (''Could not access ~/.ssh while processing '' @ target @ ''.'')
            else if r = ''invalid-path'' then Some (target @ '' is not a valid path.'')
            else if r = ''path-unavailable'' then Some (''Could not resolve '' @ target @ ''.'')
            else if r = ''path-outside-ssh-root'' then Some (target @ '' resolves outside ~/.ssh and was rejected.'')
            else if r = ''path-not-regular-file'' then Some (target @ '' is not a regular file.'')
            else if r = ''size-limit-exceeded'' then Some (target @ '' exceeds the 1 MiB size limit.'')
            else if r = ''read-failed'' then Some (''Could not read '' @ target @ ''.'')
            else if r = ''glob-in-directory-component'' then
              Some (target @ '' has a wildcard in a directory component; only filename wildcards are supported.'')
            else if r = ''worker-failed'' then
              Some (''The SSH config '' @ (case op of Read_include \<Rightarrow> ''read'' | Glob_include \<Rightarrow> ''glob'') @ '' operation failed for '' @ p @ ''.'')
            else None)
        | _ \<Rightarrow> None))"

definition formatSshConfigCommandFailure :: "caught \<Rightarrow> include_operation \<Rightarrow> string" where
  "formatSshConfigCommandFailure e op =
     (if truthy (sshConfigCommandFailureMessage e op) then the (sshConfigCommandFailureMessage e op)
      else case op of Read_include \<Rightarrow> ''The SSH config Include could not be read.''
        | Glob_include \<Rightarrow> ''The SSH config Include glob could not be expanded.'')"

fun include_reason :: "include_failure_reason \<Rightarrow> string" where
  "include_reason Ssh_root_unavailable = ''ssh-root-unavailable''"
| "include_reason Invalid_path = ''invalid-path''"
| "include_reason Path_unavailable = ''path-unavailable''"
| "include_reason Path_outside_ssh_root = ''path-outside-ssh-root''"
| "include_reason Path_not_regular_file = ''path-not-regular-file''"
| "include_reason Size_limit_exceeded = ''size-limit-exceeded''"
| "include_reason Read_failed = ''read-failed''"
| "include_reason Glob_in_directory_component = ''glob-in-directory-component''"
| "include_reason Include_worker_failed = ''worker-failed''"

definition include_failure_fields :: "include_failure_reason \<Rightarrow> string \<Rightarrow> (string \<times> json) list" where
  "include_failure_fields r p = [(''reason'', JString (include_reason r)), (''path'', JString p)]"

subsection \<open>Failures of remote commands\<close>

text \<open>A stage that the switch does not know has no message.\<close>

definition sshStageMessage :: "string \<Rightarrow> string \<Rightarrow> bool \<Rightarrow> string option" where
  "sshStageMessage stage host copyKey =
     (if stage = ''configuration'' then Some (''Could not prepare the SSH connection for '' @ host @ ''.'')
      else if stage = ''connect'' then
        Some (''Could not connect to '' @ host @ (if copyKey then '' to install the public key.'' else ''.''))
      else if stage = ''session-initialization'' then Some (''Could not initialize the SSH session for '' @ host @ ''.'')
      else if stage = ''handshake'' then Some (''Could not complete the SSH handshake with '' @ host @ ''.'')
      else if stage = ''host-key-verification'' then Some (''Could not verify the host key for '' @ host @ ''.'')
      else if stage = ''authentication'' then Some (''Could not authenticate with '' @ host @ ''.'')
      else if stage = ''channel-open'' then Some (''Could not open a command channel on '' @ host @ ''.'')
      else if stage = ''exec-request'' then
        Some ((if copyKey then ''Could not start public-key installation on '' else ''Could not start the command on '') @ host @ ''.'')
      else if stage = ''output-read'' then Some (''Could not read command output from '' @ host @ ''.'')
      else None)"

text \<open>The failures of the contract: those of the backend modelled here, and a worker that failed.\<close>

datatype remote_failure = Reported command_failure | Worker_failed

definition remoteCommandMessage :: "remote_failure \<Rightarrow> string \<Rightarrow> bool \<Rightarrow> string option" where
  "remoteCommandMessage f host copyKey =
     (case f of
        Reported (Ssh_failed stage) \<Rightarrow> sshStageMessage stage host copyKey
      | Reported (Timed_out seconds) \<Rightarrow>
          Some ((if copyKey then ''Public-key installation on '' @ host else ''Command'') @ '' did not finish within '' @ show_int seconds @
            '' seconds. The SSH connection was closed; verify the host before rerunning.'')
      | Reported (Remote_command_exited None) \<Rightarrow>
          Some (if copyKey then ''Public-key installation on '' @ host @ '' failed without an exit code.''
                else ''The command failed without an exit code.'')
      | Reported (Remote_command_exited (Some code)) \<Rightarrow>
          Some ((if copyKey then ''Public-key installation on '' @ host else ''Command'') @ '' exited with code '' @ show_int code @ ''.'')
      | Worker_failed \<Rightarrow> Some (''The command worker failed for '' @ host @ ''.''))"

definition formatSnippetExecutionFailure :: "command_result \<Rightarrow> string option" where
  "formatSnippetExecutionFailure r =
     (if cx_ok r then None else remoteCommandMessage (Reported (the (cx_failure r))) (cx_label r) False)"

definition formatCopyKeyToHostFailure :: "copy_failure option \<Rightarrow> string option" where
  "formatCopyKeyToHostFailure r =
     (case r of
        None \<Rightarrow> None
      | Some Copy_path_required \<Rightarrow> Some ''A private key path is required.''
      | Some Copy_host_required \<Rightarrow> Some ''A target host is required.''
      | Some (Public_key_unreadable p) \<Rightarrow> Some (''Could not read public key at '' @ p @ ''.'')
      | Some (Public_key_empty p) \<Rightarrow> Some (''Public key at '' @ p @ '' is empty.'')
      | Some (Remote_command_failed hostname f) \<Rightarrow> remoteCommandMessage (Reported f) hostname True)"

subsection \<open>Every failure of the contract has its message\<close>

fun key_failure_path :: "key_failure \<Rightarrow> string option" where
  "key_failure_path Path_required = None"
| "key_failure_path Key_body_required = None"
| "key_failure_path (Path_must_be_absolute p) = Some p"
| "key_failure_path (Path_outside_allowed_roots p) = Some p"
| "key_failure_path (Parent_directory_unavailable p) = Some p"
| "key_failure_path (Path_already_exists p) = Some p"
| "key_failure_path (Private_key_unreadable p) = Some p"
| "key_failure_path (Private_key_write_failed p) = Some p"
| "key_failure_path Unsupported_key_type = None"
| "key_failure_path Passphrase_contains_newline = None"
| "key_failure_path (Ssh_keygen_unavailable op p) = Some p"
| "key_failure_path (Ssh_keygen_failed op p) = Some p"
| "key_failure_path (Invalid_key_metadata p) = Some p"
| "key_failure_path (Key_worker_failed p) = Some p"

lemmas failure_defs = formatBackendFailure_def keyCommandFailureMessage_def own_fields_def reason_of_def
  key_reason_message_def with_path_def pathFailure_def BACKEND_REQUEST_FAILED_def truthy_def

definition key_message :: "key_failure \<Rightarrow> string" where
  "key_message f = formatBackendFailure (Plain_object (key_failure_fields f))"

lemma key_messages:
  "key_message Path_required = ''A private key path is required.''"
  "key_message Key_body_required = ''A private key body is required.''"
  "key_message (Path_must_be_absolute p) = ''Private key path '' @ p @ '' must be absolute or start with ~/.''"
  "key_message (Path_outside_allowed_roots p) = ''Private key path '' @ p @ '' is outside the approved user-owned locations.''"
  "key_message (Parent_directory_unavailable p) = ''Could not create the parent directory for '' @ p @ ''.''"
  "key_message (Path_already_exists p) = ''A key already exists at '' @ p @ ''.''"
  "key_message (Private_key_unreadable p) = ''Could not read private key at '' @ p @ ''.''"
  "key_message (Private_key_write_failed p) = ''Could not write private key at '' @ p @ ''.''"
  "key_message Unsupported_key_type = ''Choose an ED25519, ECDSA, or RSA key type.''"
  "key_message Passphrase_contains_newline = ''The passphrase cannot contain a line break.''"
  "key_message (Ssh_keygen_unavailable op p) = ''Could not start ssh-keygen for '' @ p @ ''.''"
  "key_message (Ssh_keygen_failed Generate_key p) = ''ssh-keygen could not generate a private key at '' @ p @ ''.''"
  "key_message (Ssh_keygen_failed Inspect_key p) = ''ssh-keygen could not inspect the private key at '' @ p @ ''.''"
  "key_message (Invalid_key_metadata p) = ''ssh-keygen returned invalid metadata for '' @ p @ ''.''"
  "key_message (Key_worker_failed p) = ''The private-key operation failed for '' @ p @ ''.''"
  by (simp_all add: key_message_def failure_defs)

lemma key_failure_split:
  "(\<forall>f. P f) \<longleftrightarrow> P Path_required \<and> P Key_body_required \<and> (\<forall>p. P (Path_must_be_absolute p)) \<and>
     (\<forall>p. P (Path_outside_allowed_roots p)) \<and> (\<forall>p. P (Parent_directory_unavailable p)) \<and> (\<forall>p. P (Path_already_exists p)) \<and>
     (\<forall>p. P (Private_key_unreadable p)) \<and> (\<forall>p. P (Private_key_write_failed p)) \<and> P Unsupported_key_type \<and>
     P Passphrase_contains_newline \<and> (\<forall>op p. P (Ssh_keygen_unavailable op p)) \<and> (\<forall>p. P (Ssh_keygen_failed Inspect_key p)) \<and>
     (\<forall>p. P (Ssh_keygen_failed Generate_key p)) \<and> (\<forall>p. P (Invalid_key_metadata p)) \<and> (\<forall>p. P (Key_worker_failed p))"
  (is "_ \<longleftrightarrow> ?all")
proof
  assume all: ?all
  show "\<forall>f. P f"
  proof
    fix f
    show "P f"
    proof (cases f)
      case (Ssh_keygen_failed op p)
      with all show ?thesis by (cases op) blast+
    qed (use all in blast)+
  qed
qed blast

lemma contains_affixes: "contains p (a @ p @ b)"
  unfolding contains_iff by blast

text \<open>No failure of the contract falls back to the general message, and every path is shown.\<close>

lemma key_failures_are_explained:
  "key_message f \<noteq> BACKEND_REQUEST_FAILED \<and> (\<forall>p. key_failure_path f = Some p \<longrightarrow> contains p (key_message f))"
proof -
  have "\<forall>f. key_message f \<noteq> BACKEND_REQUEST_FAILED"
    unfolding key_failure_split by (simp add: key_messages BACKEND_REQUEST_FAILED_def)
  moreover have "\<forall>f. \<forall>p. key_failure_path f = Some p \<longrightarrow> contains p (key_message f)"
    unfolding key_failure_split
    by (simp only: key_messages key_failure_path.simps option.inject option.distinct contains_affixes simp_thms)
  ultimately show ?thesis by blast
qed

lemma path_messages_differ:
  "p @ '' must be absolute or start with ~/.'' \<noteq> q @ '' is outside the approved user-owned locations.''"
proof
  assume "p @ '' must be absolute or start with ~/.'' = q @ '' is outside the approved user-owned locations.''"
  then have "rev (p @ '' must be absolute or start with ~/.'') = rev (q @ '' is outside the approved user-owned locations.'')" by simp
  then show False by simp
qed

lemmas path_messages_differ' = path_messages_differ[symmetric]

text \<open>The first characters tell the families of messages apart.\<close>

fun key_class :: "key_failure \<Rightarrow> nat" where
  "key_class Path_required = 0"
| "key_class Key_body_required = 1"
| "key_class (Path_must_be_absolute p) = 2"
| "key_class (Path_outside_allowed_roots p) = 2"
| "key_class (Parent_directory_unavailable p) = 3"
| "key_class (Path_already_exists p) = 4"
| "key_class (Private_key_unreadable p) = 5"
| "key_class (Private_key_write_failed p) = 6"
| "key_class Unsupported_key_type = 7"
| "key_class Passphrase_contains_newline = 8"
| "key_class (Ssh_keygen_unavailable op p) = 9"
| "key_class (Ssh_keygen_failed op p) = 10"
| "key_class (Invalid_key_metadata p) = 11"
| "key_class (Key_worker_failed p) = 12"

definition key_heads :: "string list" where
  "key_heads = [''A private key pat'', ''A private key bod'', ''Private key path '', ''Could not create '', ''A key already exi'',
     ''Could not read pr'', ''Could not write p'', ''Choose an ED25519'', ''The passphrase ca'', ''Could not start s'',
     ''ssh-keygen could '', ''ssh-keygen return'', ''The private-key o'']"

lemma key_head: "take 17 (key_message f) = key_heads ! key_class f"
proof -
  have "\<forall>f. take 17 (key_message f) = key_heads ! key_class f"
    unfolding key_failure_split by (simp add: key_messages key_heads_def)
  then show ?thesis ..
qed

lemma key_heads_distinct: "distinct key_heads" "length key_heads = 13"
  by code_simp+

lemma key_class_bound: "key_class f < 13"
  by (cases f) simp_all

lemma same_class: "key_message f = key_message g \<Longrightarrow> key_class f = key_class g"
  using key_head[of f] key_head[of g] key_class_bound[of f] key_class_bound[of g] key_heads_distinct
  by (metis nth_eq_iff_index_eq)

text \<open>The messages tell the failures apart: two failures of the key commands with one message are the same
  failure with the same path, except that a program that cannot be started is reported alike whatever it
  was to do.\<close>

theorem key_messages_tell_failures_apart:
  "key_message f = key_message g \<longleftrightarrow>
     f = g \<or> (\<exists>op op' p. f = Ssh_keygen_unavailable op p \<and> g = Ssh_keygen_unavailable op' p)"
proof
  assume eq: "key_message f = key_message g"
  then have c: "key_class f = key_class g" by (rule same_class)
  show "f = g \<or> (\<exists>op op' p. f = Ssh_keygen_unavailable op p \<and> g = Ssh_keygen_unavailable op' p)"
  proof (cases f)
    case (Ssh_keygen_failed op p)
    with c obtain op' p' where g: "g = Ssh_keygen_failed op' p'" by (cases g) simp_all
    with eq Ssh_keygen_failed show ?thesis by (cases op; cases op') (simp_all add: key_messages)
  qed (use c in \<open>cases g; simp\<close>; use eq in \<open>simp add: key_messages path_messages_differ path_messages_differ'\<close>)+
next
  assume "f = g \<or> (\<exists>op op' p. f = Ssh_keygen_unavailable op p \<and> g = Ssh_keygen_unavailable op' p)"
  then show "key_message f = key_message g" by (auto simp: key_messages)
qed

text \<open>What is not a failure of the contract falls back: an unknown reason, or a path that is no text.\<close>

lemma unknown_failures_fall_back:
  "formatBackendFailure (Plain_object [(''reason'', JString ''something-else''), (''path'', JString p)]) = BACKEND_REQUEST_FAILED"
  "formatBackendFailure (Plain_object [(''reason'', JString ''path-already-exists''), (''path'', JNull)]) = BACKEND_REQUEST_FAILED"
  "formatBackendFailure (Plain_object []) = BACKEND_REQUEST_FAILED"
  "formatBackendFailure (Error_object m []) = m"
  by (simp_all add: failure_defs)

text \<open>The failures of the Include commands name the file, and the operation.\<close>

lemma include_messages:
  "\<exists>a b. sshConfigCommandFailureMessage (Plain_object (include_failure_fields r p)) op = Some (a @ p @ b) \<and> b \<noteq> []"
proof -
  define before where "before = (case op of Read_include \<Rightarrow> ''SSH config Include '' | Glob_include \<Rightarrow> ''SSH config Include glob '')"
  have t: "include_target op p = before @ p" by (simp add: include_target_def before_def)
  have r: "reason_of (include_failure_fields r p) = Some (include_reason r)" "pathFailure (include_failure_fields r p) = Some p"
    by (simp_all add: include_failure_fields_def reason_of_def pathFailure_def)
  define a where "a = (case r of
      Ssh_root_unavailable \<Rightarrow> ''Could not access ~/.ssh while processing '' @ before
    | Path_unavailable \<Rightarrow> ''Could not resolve '' @ before
    | Read_failed \<Rightarrow> ''Could not read '' @ before
    | Include_worker_failed \<Rightarrow> ''The SSH config '' @ (case op of Read_include \<Rightarrow> ''read'' | Glob_include \<Rightarrow> ''glob'') @ '' operation failed for ''
    | _ \<Rightarrow> before)"
  define b where "b = (case r of
      Invalid_path \<Rightarrow> '' is not a valid path.''
    | Path_outside_ssh_root \<Rightarrow> '' resolves outside ~/.ssh and was rejected.''
    | Path_not_regular_file \<Rightarrow> '' is not a regular file.''
    | Size_limit_exceeded \<Rightarrow> '' exceeds the 1 MiB size limit.''
    | Glob_in_directory_component \<Rightarrow> '' has a wildcard in a directory component; only filename wildcards are supported.''
    | _ \<Rightarrow> ''.'')"
  have "sshConfigCommandFailureMessage (Plain_object (include_failure_fields r p)) op = Some (a @ p @ b)"
    using r by (cases r) (simp_all add: sshConfigCommandFailureMessage_def own_fields_def t a_def b_def)
  moreover have "b \<noteq> []" by (cases r) (simp_all add: b_def)
  ultimately show ?thesis by blast
qed

text \<open>The failures of the Include commands never fall back to the general message, and name the path.\<close>

lemma include_failures_are_explained:
  "\<exists>m. sshConfigCommandFailureMessage (Plain_object (include_failure_fields r p)) op = Some m \<and>
     formatSshConfigCommandFailure (Plain_object (include_failure_fields r p)) op = m \<and> contains p m"
  using include_messages[of r p op] contains_affixes[of p] by (auto simp: formatSshConfigCommandFailure_def truthy_def)

subsection \<open>From the backend to the message\<close>

definition SSH_STAGES :: "string list" where
  "SSH_STAGES = [''configuration'', ''connect'', ''session-initialization'', ''handshake'', ''host-key-verification'',
     ''authentication'', ''channel-open'', ''exec-request'', ''output-read'']"

lemma stage_messages: "stage \<in> set SSH_STAGES \<Longrightarrow> \<exists>m. sshStageMessage stage host copyKey = Some m \<and> m \<noteq> []"
  by (auto simp: SSH_STAGES_def sshStageMessage_def)

lemma remote_messages:
  assumes "\<And>stage. f = Reported (Ssh_failed stage) \<Longrightarrow> stage \<in> set SSH_STAGES"
  shows "\<exists>m. remoteCommandMessage f host copyKey = Some m \<and> m \<noteq> []"
proof (cases f)
  case (Reported c)
  show ?thesis
  proof (cases c)
    case (Remote_command_exited code)
    with Reported show ?thesis by (cases code) (simp_all add: remoteCommandMessage_def)
  next
    case (Ssh_failed stage)
    with Reported stage_messages[OF assms, of stage host copyKey] show ?thesis by (simp add: remoteCommandMessage_def)
  qed (use Reported in \<open>simp add: remoteCommandMessage_def\<close>)
qed (simp add: remoteCommandMessage_def)

lemma configuration_stage: "''configuration'' \<in> set SSH_STAGES"
  by (simp add: SSH_STAGES_def)

lemma backend_stages:
  assumes "set (cr_stages r) \<subseteq> set SSH_STAGES" "cx_failure (executeRemoteCommand t r) = Some (Ssh_failed stage)"
  shows "stage \<in> set SSH_STAGES"
proof (cases "cr_end r")
  case Command_error
  define first where "first = ''configuration''"
  have "stage = last (first # cr_stages r)"
    using assms(2) Command_error by (simp add: executeRemoteCommand_def commandResult_def first_def)
  then have "stage \<in> insert first (set (cr_stages r))" using last_in_set[of "first # cr_stages r"] by auto
  with assms(1) configuration_stage show ?thesis unfolding first_def by blast
qed (use assms(2) in \<open>simp_all add: executeRemoteCommand_def commandResult_def Let_def split: if_splits\<close>)

text \<open>C40: A command that runs on the backend and fails always shows a message, and one that succeeds shows
  none: with the stages of the contract, every result of the backend has its text, for a snippet as for the
  installation of a key.\<close>

theorem backend_failures_have_messages:
  assumes "\<And>c. set (cr_stages (run c)) \<subseteq> set SSH_STAGES"
  shows "(case formatSnippetExecutionFailure (executeRemoteCommand t (run c)) of
       None \<Rightarrow> cx_ok (executeRemoteCommand t (run c))
     | Some m \<Rightarrow> m \<noteq> [] \<and> \<not> cx_ok (executeRemoteCommand t (run c))) \<and>
    (case formatCopyKeyToHostFailure (copyKeyToHostBackend readFile run path hostname) of
       None \<Rightarrow> copyKeyToHostBackend readFile run path hostname = None
     | Some m \<Rightarrow> m \<noteq> [] \<and> copyKeyToHostBackend readFile run path hostname \<noteq> None)"
proof -
  have snippet: "\<exists>m. formatSnippetExecutionFailure r = Some m \<and> m \<noteq> []" if r: "r = executeRemoteCommand t (run c)" "\<not> cx_ok r" for r t c
  proof -
    obtain f where f: "cx_failure r = Some f" using r command_result_ok(1)[of t "run c"] by (cases "cx_failure r") simp_all
    have "stage \<in> set SSH_STAGES" if "Reported f = Reported (Ssh_failed stage)" for stage
      using backend_stages[OF assms[of c], of t stage] f r(1) that by simp
    from remote_messages[of "Reported f", OF this] r f show ?thesis by (simp add: formatSnippetExecutionFailure_def)
  qed
  have copy: "\<exists>m. formatCopyKeyToHostFailure (Some e) = Some m \<and> m \<noteq> []"
    if e: "copyKeyToHostBackend readFile run path hostname = Some e" for e
  proof (cases e)
    case (Remote_command_failed h f)
    have "stage \<in> set SSH_STAGES" if "Reported f = Reported (Ssh_failed stage)" for stage
      using e that Remote_command_failed backend_stages[OF assms]
      by (auto simp: copyKeyToHostBackend_def Let_def split: if_splits option.splits)
    from remote_messages[of "Reported f", OF this] Remote_command_failed show ?thesis by (simp add: formatCopyKeyToHostFailure_def)
  qed (simp_all add: formatCopyKeyToHostFailure_def)
  have "case formatSnippetExecutionFailure r of None \<Rightarrow> cx_ok r | Some m \<Rightarrow> m \<noteq> [] \<and> \<not> cx_ok r"
    if "r = executeRemoteCommand t (run c)" for r
  proof (cases "cx_ok r")
    case True
    then show ?thesis by (simp add: formatSnippetExecutionFailure_def)
  next
    case False
    with snippet[OF that] show ?thesis by auto
  qed
  moreover have "case formatCopyKeyToHostFailure x of None \<Rightarrow> x = None | Some m \<Rightarrow> m \<noteq> [] \<and> x \<noteq> None"
    if "x = copyKeyToHostBackend readFile run path hostname" for x
  proof (cases x)
    case None
    then show ?thesis by (simp add: formatCopyKeyToHostFailure_def)
  next
    case (Some e)
    from copy[OF that[symmetric, unfolded Some]] show ?thesis unfolding Some by auto
  qed
  ultimately show ?thesis by blast
qed

theorem backend_failures_have_messages_witness:
  "\<exists>m. formatSnippetExecutionFailure (executeRemoteCommand \<lparr>ct_id = ''1'', ct_label = ''box''\<rparr>
     \<lparr>cr_stages = [''connect'', ''authentication''], cr_end = Command_error\<rparr>) = Some m \<and> m \<noteq> []"
proof -
  let ?run = "\<lparr>cr_stages = [''connect'', ''authentication''], cr_end = Command_error\<rparr>"
  have "set (cr_stages ?run) \<subseteq> set SSH_STAGES" by (simp add: SSH_STAGES_def)
  then have "\<And>c. set (cr_stages ((\<lambda>_. ?run) c)) \<subseteq> set SSH_STAGES" by simp
  note this[THEN backend_failures_have_messages, THEN conjunct1, of "\<lparr>ct_id = ''1'', ct_label = ''box''\<rparr>"]
  moreover have "\<not> cx_ok (executeRemoteCommand \<lparr>ct_id = ''1'', ct_label = ''box''\<rparr> ?run)"
    by (simp add: executeRemoteCommand_def commandResult_def)
  ultimately show ?thesis by (auto split: option.splits)
qed

end
