(* ===== verification/Spec2Isabelle.thy ===== *)
theory Spec2Isabelle
  imports HostsStore SessionsProps KnownHosts Snippets Runbooks Transfers Secrets Connections Cascade SshInclude LocalConfigProps SyncProps SessionSocket DemoProps
    HostKeysProps BackendAuth BackendPaths BackendShell Deadline ServerSessions ServerForwards SshConfigServer Reconnect Launch
    ServerConnect ServerKeys ServerFiles BrowserLoads RuntimeSecrets FailureMessages
begin

text \<open>
  \<^bold>\<open>Terminal Workspace, the desktop client and its Node backend.\<close> The program is an SSH client: a web
  application in TypeScript (\<open>src/apps/desktop/src\<close>) that runs in a browser or in a native shell, and a
  backend (\<open>src/apps/desktop/server\<close>) that speaks SSH for it. The client keeps its state in stores (hosts,
  keys, identities, trusted keys, snippets, runbooks, sessions, transfers, secrets, settings), writes them to
  files it can read back and merge, and asks the backend for sessions, files, keys and forwards. This library
  models those stores, the exchange of configurations, the building of connections, and the operations of
  the backend behind them, and proves what they promise to each other.

  \<^bold>\<open>Conventions.\<close> A store is a record and an action a function on it. An object used as a dictionary is
  an association list in insertion order (\<open>Prelude\<close>), \<open>None\<close> is an absent or undefined value, a thrown error
  is the left part of a sum, \<open>int number\<close> is a number with \<open>NaN\<close> and the infinities; where a store holds
  numbers that are always integers they are \<open>int\<close> or \<open>nat\<close>. Strings are Latin-1: \<open>toLowerCase\<close> and
  \<open>trim\<close> are right for those characters, and the typographic characters of labels are written in
  ASCII. Bytes are characters too (\<open>Bytes\<close> has UTF-8 and base 64). What the environment decides is an
  argument: the collation \<open>lc\<close> of \<open>localeCompare\<close>, \<open>Date.parse\<close> as \<open>dp\<close>, the clock \<open>now\<close>, identifiers
  \<open>uuid\<close> or \<open>gen\<close>, digests, \<open>realpath\<close>, the answers of the operating system and of programs, the
  keychain (a locale with its laws) and the SSH library. Concurrency is a sequence of events: an \<open>await\<close> ends
  one step, and the theorems quantify over the order in which the answers come.

  \<^bold>\<open>Foundations.\<close> \<open>Prelude\<close>, \<open>Strings\<close>, \<open>Sorting\<close>, \<open>Json\<close> and \<open>Utils\<close> (\<open>lib/utils.ts\<close>) hold
  the operations of JavaScript that the code uses, stable sorting as an interface with its interpretations,
  JavaScript values with \<open>stableSerialize\<close>, and \<open>Paths\<close> the normalization of absolute paths.

  \<^bold>\<open>The vault.\<close> \<open>HostTypes\<close> (\<open>types/host.ts\<close>) and \<open>HostsStore\<close> (\<open>store/hosts-store.ts\<close>) are the
  inventory, \<open>Keys\<close>, \<open>Identities\<close> (store, migration and lookups), \<open>KnownHosts\<close>, \<open>Snippets\<close>, \<open>Runbooks\<close> and
  \<open>Transfers\<close> the other stores, \<open>VaultSync\<close> the tombstones of deleted records
  (\<open>store/vault-sync-store.ts\<close>); its locale \<open>tombstoned_store\<close> is the contract that every store with tombstones
  keeps: no record is live and deleted at once. \<open>Cascade\<close> (\<open>store/cascade-actions.ts\<close>) deletes a host from all of
  them. \<open>AppStore\<close> has the settings, their migration and the update check. The lemmas are invariants of
  every sequence of actions, the functional behaviour of the actions, and round trips of the forms.

  \<^bold>\<open>Exchange.\<close> \<open>LocalConfig\<close>, \<open>MergeRecords\<close> and \<open>LocalConfigProps\<close> (\<open>lib/local-config.ts\<close>) export and import
  bundles of all versions, preview an import and merge it with the live stores: reading back what was
  written, no lost edit, the preview predicts the merge, consistent tombstones. \<open>SyncContract\<close> and \<open>SyncProps\<close>
  (\<open>lib/vault-sync-contract.ts\<close>, \<open>store/vault-sync-trust-store.ts\<close>) are the envelopes with their digest and
  trust policy. \<open>SshConfig\<close>, \<open>Globs\<close> and \<open>SshInclude\<close> import an OpenSSH configuration.

  \<^bold>\<open>Sessions.\<close> \<open>Sessions\<close>, \<open>SessionsInv\<close> and \<open>SessionsProps\<close> (\<open>store/sessions-store.ts\<close>) are the workspace of
  tabs and panes, with every action as a step relation and its invariants by rule induction. \<open>SessionSocket\<close>
  (\<open>lib/backend-runtime.ts\<close>) is the native socket, \<open>Reconnect\<close> the connection of a terminal pane with its
  timer, \<open>SshErrors\<close> and \<open>FailureMessages\<close> classify and word what went wrong.

  \<^bold>\<open>From a host to a connection.\<close> \<open>Connections\<close> (\<open>lib/connections.ts\<close>) builds the request along the jump
  hosts, \<open>Secrets\<close> loads, migrates and stores secrets (with the keychain commands in Rust, and a refinement
  of an abstract contract), \<open>RuntimeSecrets\<close> asks for those that are missing, \<open>Launch\<close> decides about trust
  and opens tabs while other launches are under way, \<open>BrowserLoads\<close> lists directories where the newest
  request wins. \<open>DemoBackend\<close> and \<open>DemoProps\<close> are the demo mode with its file trees.

  \<^bold>\<open>The backend.\<close> \<open>BackendAuth\<close> authorizes requests, \<open>BackendPaths\<close> confines paths, \<open>BackendShell\<close> quotes
  commands (with a reading of shell words as the specification), \<open>BackendBuffers\<close> and \<open>Deadline\<close> bound memory
  and time, \<open>HostKeys\<close> and \<open>HostKeysProps\<close> pin host keys on first use with torn writes and a lock,
  \<open>ServerConnect\<close> connects through jump hosts with secrets in buffers that are wiped, \<open>ServerSessions\<close> and
  \<open>ServerForwards\<close> are the sessions with their sockets and forwards, \<open>ServerFiles\<close> the remote files and the
  static handler, \<open>ServerKeys\<close> makes, imports and scans keys, \<open>SshConfigServer\<close> serves Include files.

  \<^bold>\<open>Composition.\<close> The components meet where the code makes them meet: \<open>Cascade\<close> runs over all stores;
  \<open>RuntimeSecrets\<close> and \<open>Launch\<close> end in the request that \<open>Connections\<close> builds; \<open>ServerConnect\<close> takes such a request,
  checks it with \<open>HostKeys\<close>, and what it reports is worded by \<open>FailureMessages\<close>; \<open>Runbooks\<close> dispatches into
  \<open>Sessions\<close>; \<open>LocalConfigProps\<close> applies a merge to every store.

  \<^bold>\<open>Termination and bounds.\<close> All functions are total. Recursions that are not structural have measures: the
  chain of jump hosts the hosts that were not met, the scanners the rest of their input, the shell reader the
  rest of the command. Includes carry the depth limit of the code (\<open>DEFAULT_MAX_DEPTH\<close>), which is the
  measure there. Bounds of the code (queue of 24 transfers, command history, replay buffers, request bodies,
  reconnect delays, the registry of Include paths) appear as constants with their lemmas.

  \<^bold>\<open>Not modelled.\<close> The text of a file between \<open>JSON.stringify\<close> and \<open>JSON.parse\<close>: a value reads back as it
  was written, which is so for all the values of these files but numbers that are not finite; the theorem
  about export and import asks for finite ports. The React components, routes and hooks, save for the pieces named above: they render
  and forward clicks. \<open>lib/api.ts\<close>, \<open>lib/tauri-commands.ts\<close> and the HTTP routing of \<open>backend.mjs\<close>
  dispatch to the functions that are modelled. \<open>lib/persistence.ts\<close> passes the states of the stores to
  SQLite or to local storage. The terminal emulator, its themes, search and input; notifications and the dock
  badge; the bytes that flow through forwards and downloads; formatters built on \<open>Intl\<close>; the rest of the
  native shell in Rust; the release and check scripts. Unicode beyond Latin-1 and floating point are outside
  the model of JavaScript used here.
\<close>

end
